(* ===== verification/Prelude.thy ===== *)
theory Prelude
  imports Complex_Main "HOL-Library.Multiset"
begin

text \<open>
  Shared vocabulary of the development: the JavaScript array and string idioms the sources
  use (\<open>findIndex\<close>, \<open>splice\<close>, \<open>at\<close>, index reads that give \<open>undefined\<close>, truthiness of
  strings), written as total HOL functions, with the lemmas the component theories reuse.
  \<open>undefined\<close> and \<open>null\<close> are \<open>None\<close>. A JavaScript number that is a layout size is a
  rational number (exact arithmetic instead of binary64 rounding), one that is an index or
  a count is a natural number or an integer.
\<close>

named_theorems js_simps \<open>unfolding rules for the array and string idioms\<close>

section \<open>Truthiness of optional strings\<close>

text \<open>The test \<open>if (s)\<close> on a \<open>string | undefined\<close>: the empty string is falsy.\<close>

definition truthy :: "string option \<Rightarrow> bool" where
  "truthy v = (case v of None \<Rightarrow> False | Some s \<Rightarrow> s \<noteq> [])"

lemma truthy_simps [simp]:
  "\<not> truthy None"
  "truthy (Some s) \<longleftrightarrow> s \<noteq> []"
  by (simp_all add: truthy_def)

lemma truthyE: "truthy v \<Longrightarrow> (\<And>s. v = Some s \<Longrightarrow> s \<noteq> [] \<Longrightarrow> P) \<Longrightarrow> P"
  by (cases v) auto

text \<open>
  The loop \<open>for (const x of xs) { const r = f(x); if (r) return r }; return undefined\<close>,
  for results that are strings (\<open>first_truthy\<close>) and for results that are objects, which
  are always truthy (\<open>first_some\<close>).
\<close>

fun first_truthy :: "('a \<Rightarrow> string option) \<Rightarrow> 'a list \<Rightarrow> string option" where
  "first_truthy f [] = None"
| "first_truthy f (x # xs) = (if truthy (f x) then f x else first_truthy f xs)"

fun first_some :: "('a \<Rightarrow> 'b option) \<Rightarrow> 'a list \<Rightarrow> 'b option" where
  "first_some f [] = None"
| "first_some f (x # xs) = (case f x of Some y \<Rightarrow> Some y | None \<Rightarrow> first_some f xs)"

lemma first_truthy_cong [fundef_cong]:
  assumes "xs = ys" and "\<And>x. x \<in> set ys \<Longrightarrow> f x = g x"
  shows "first_truthy f xs = first_truthy g ys"
  using assms(2) unfolding assms(1) by (induction ys) auto

lemma first_some_cong [fundef_cong]:
  assumes "xs = ys" and "\<And>x. x \<in> set ys \<Longrightarrow> f x = g x"
  shows "first_some f xs = first_some g ys"
  using assms(2) unfolding assms(1) by (induction ys) (auto split: option.splits)

lemma first_truthy_Some:
  "first_truthy f xs = Some s \<Longrightarrow> s \<noteq> [] \<and> (\<exists>x\<in>set xs. f x = Some s)"
  by (induction xs) (auto split: if_splits)

lemma first_truthy_None:
  "first_truthy f xs = None \<longleftrightarrow> (\<forall>x\<in>set xs. \<not> truthy (f x))"
  by (induction xs) (auto elim: truthyE)

lemma first_truthy_mono:
  "x \<in> set xs \<Longrightarrow> truthy (f x) \<Longrightarrow> truthy (first_truthy f xs)"
  by (induction xs) auto

lemma first_some_Some: "first_some f xs = Some y \<Longrightarrow> \<exists>x\<in>set xs. f x = Some y"
  by (induction xs) (auto split: option.splits)

lemma first_some_None: "first_some f xs = None \<longleftrightarrow> (\<forall>x\<in>set xs. f x = None)"
  by (induction xs) (auto split: option.splits)

lemma first_some_eq_concat:
  "first_some f xs = (case List.map_filter f xs of [] \<Rightarrow> None | y # _ \<Rightarrow> Some y)"
  by (induction xs) (auto simp: List.map_filter_simps split: option.splits)

section \<open>Array reads\<close>

text \<open>
  \<open>xs[i]\<close>: \<open>undefined\<close> outside the array, negative indices included. \<open>xs.at(-1)\<close> is
  \<open>js_last\<close>.
\<close>

definition js_nth :: "'a list \<Rightarrow> int \<Rightarrow> 'a option" where
  "js_nth xs i = (if 0 \<le> i \<and> i < int (length xs) then Some (xs ! nat i) else None)"

definition js_last :: "'a list \<Rightarrow> 'a option" where
  "js_last xs = (if xs = [] then None else Some (last xs))"

lemma js_nth_of_nat [simp]:
  "js_nth xs (int n) = (if n < length xs then Some (xs ! n) else None)"
  by (simp add: js_nth_def)

lemma js_nth_0 [simp]: "js_nth xs 0 = (case xs of [] \<Rightarrow> None | x # _ \<Rightarrow> Some x)"
  by (cases xs) (simp_all add: js_nth_def)

lemma js_nth_Some: "js_nth xs i = Some x \<Longrightarrow> x \<in> set xs"
  by (auto simp: js_nth_def split: if_splits)

lemma js_nth_Some_nat:
  "js_nth xs i = Some x \<Longrightarrow> \<exists>n. i = int n \<and> n < length xs \<and> xs ! n = x"
  by (auto simp: js_nth_def intro!: exI [of _ "nat i"] split: if_splits)

lemma js_last_Some: "js_last xs = Some x \<Longrightarrow> x \<in> set xs"
  by (auto simp: js_last_def split: if_splits)

lemma js_last_append [simp]: "js_last (xs @ [x]) = Some x"
  by (simp add: js_last_def)

section \<open>findIndex\<close>

text \<open>\<open>xs.findIndex(p)\<close>, with \<open>None\<close> for the JavaScript result \<open>-1\<close>.\<close>

fun findIndex :: "('a \<Rightarrow> bool) \<Rightarrow> 'a list \<Rightarrow> nat option" where
  "findIndex p [] = None"
| "findIndex p (x # xs) = (if p x then Some 0 else map_option Suc (findIndex p xs))"

lemma findIndex_None: "findIndex p xs = None \<longleftrightarrow> (\<forall>x\<in>set xs. \<not> p x)"
  by (induction xs) auto

lemma findIndex_Some:
  "findIndex p xs = Some i \<longleftrightarrow> i < length xs \<and> p (xs ! i) \<and> (\<forall>j<i. \<not> p (xs ! j))"
proof (induction xs arbitrary: i)
  case Nil
  then show ?case by simp
next
  case (Cons x xs)
  then show ?case by (cases i) (auto simp: All_less_Suc2)
qed

lemma findIndex_SomeD:
  assumes "findIndex p xs = Some i"
  shows "i < length xs" "p (xs ! i)" "\<And>j. j < i \<Longrightarrow> \<not> p (xs ! j)"
  using assms by (simp_all add: findIndex_Some)

lemma findIndex_split:
  assumes "findIndex p xs = Some i"
  obtains ys z zs where "xs = ys @ z # zs" "length ys = i" "p z" "\<forall>y\<in>set ys. \<not> p y"
proof -
  have i: "i < length xs" "p (xs ! i)" "\<And>j. j < i \<Longrightarrow> \<not> p (xs ! j)"
    using findIndex_SomeD [OF assms] .
  have "xs = take i xs @ xs ! i # drop (Suc i) xs"
    using i(1) by (simp add: id_take_nth_drop)
  moreover have "\<forall>y\<in>set (take i xs). \<not> p y"
    using i by (auto simp: in_set_conv_nth)
  ultimately show thesis
    using i that [of "take i xs" "xs ! i" "drop (Suc i) xs"] by simp
qed

lemma findIndex_append:
  "\<forall>y\<in>set ys. \<not> p y \<Longrightarrow> p z \<Longrightarrow> findIndex p (ys @ z # zs) = Some (length ys)"
  by (induction ys) auto

lemma findIndex_None_filter:
  "findIndex (\<lambda>t. tid t = i) ts = None \<Longrightarrow> filter (\<lambda>t. tid t \<noteq> i) ts = ts"
  by (simp add: findIndex_None filter_id_conv)

section \<open>The remainder operator\<close>

text \<open>\<open>a % b\<close>: the result has the sign of the dividend.\<close>

definition js_rem :: "int \<Rightarrow> int \<Rightarrow> int" where
  "js_rem a b = sgn a * (\<bar>a\<bar> mod \<bar>b\<bar>)"

text \<open>The idiom \<open>((a % n) + n) % n\<close> is the mathematical \<open>a mod n\<close>.\<close>

lemma js_rem_wrap: "0 < n \<Longrightarrow> js_rem (js_rem a n + n) n = a mod n"
proof -
  assume n: "0 < n"
  have low: "- n < js_rem a n" "js_rem a n < n"
  proof -
    have "0 \<le> \<bar>a\<bar> mod n" "\<bar>a\<bar> mod n < n" using n by simp_all
    moreover have "js_rem a n = \<bar>a\<bar> mod n \<or> js_rem a n = - (\<bar>a\<bar> mod n) \<or> js_rem a n = 0"
      using n by (simp add: js_rem_def sgn_if)
    ultimately show "- n < js_rem a n" "js_rem a n < n" using n by linarith+
  qed
  have "js_rem a n mod n = a mod n"
    using n by (cases "0 \<le> a") (auto simp: js_rem_def sgn_if mod_minus_eq)
  moreover have "js_rem (js_rem a n + n) n = (js_rem a n + n) mod n"
    using low n by (simp add: js_rem_def sgn_if)
  ultimately show ?thesis by simp
qed

section \<open>splice and index-based filtering\<close>

text \<open>
  \<open>splice_insert i x xs\<close> is \<open>xs.splice(i, 0, x)\<close> and
  \<open>splice_remove i xs\<close> is what \<open>xs.splice(i, 1)\<close>, or \<open>xs.filter((_, j) => j !== i)\<close>,
  leaves in the array.
\<close>

definition splice_insert :: "nat \<Rightarrow> 'a \<Rightarrow> 'a list \<Rightarrow> 'a list" where
  "splice_insert i x xs = take i xs @ x # drop i xs"

definition splice_remove :: "nat \<Rightarrow> 'a list \<Rightarrow> 'a list" where
  "splice_remove i xs = take i xs @ drop (Suc i) xs"

lemma splice_remove_append [simp]: "splice_remove (length ys) (ys @ z # zs) = ys @ zs"
  by (simp add: splice_remove_def)

lemma splice_insert_append [simp]: "splice_insert (length ys) x (ys @ zs) = ys @ x # zs"
  by (simp add: splice_insert_def)

lemma splice_insert_after [simp]:
  "splice_insert (Suc (length ys)) x (ys @ z # zs) = ys @ z # x # zs"
  by (simp add: splice_insert_def)

lemma length_splice_insert [simp]: "length (splice_insert i x xs) = Suc (length xs)"
  by (simp add: splice_insert_def)

lemma length_splice_remove: "i < length xs \<Longrightarrow> length (splice_remove i xs) = length xs - 1"
  by (simp add: splice_remove_def)

lemma set_splice_insert [simp]: "set (splice_insert i x xs) = insert x (set xs)"
  by (metis Un_insert_right append_take_drop_id list.simps(15) set_append splice_insert_def)

lemma set_splice_remove: "set (splice_remove i xs) \<subseteq> set xs"
  by (auto simp: splice_remove_def dest: in_set_takeD in_set_dropD)

lemma distinct_splice_insert:
  "distinct (splice_insert i x xs) \<longleftrightarrow> x \<notin> set xs \<and> distinct xs"
proof -
  have "distinct (ys @ x # zs) \<longleftrightarrow> x \<notin> set (ys @ zs) \<and> distinct (ys @ zs)" for ys zs
    by auto
  from this [of "take i xs" "drop i xs"] show ?thesis by (simp add: splice_insert_def)
qed

lemma map_splice_insert: "map f (splice_insert i x xs) = splice_insert i (f x) (map f xs)"
  by (simp add: splice_insert_def take_map drop_map)

lemma map_splice_remove: "map f (splice_remove i xs) = splice_remove i (map f xs)"
  by (simp add: splice_remove_def take_map drop_map)

lemma distinct_splice_remove: "distinct xs \<Longrightarrow> distinct (splice_remove i xs)"
  by (auto simp: splice_remove_def distinct_conv_nth nth_append set_take_disj_set_drop_if_distinct
      dest!: set_take_disj_set_drop_if_distinct [of xs i "Suc i"])

lemma splice_remove_insert [simp]:
  "j \<le> length xs \<Longrightarrow> splice_remove j (splice_insert j x xs) = xs"
proof -
  assume j: "j \<le> length xs"
  have "splice_remove (length (take j xs)) (take j xs @ x # drop j xs) = take j xs @ drop j xs"
    by (rule splice_remove_append)
  moreover have "length (take j xs) = j" using j by simp
  ultimately show ?thesis by (simp add: splice_insert_def)
qed

lemma splice_insert_nth [simp]: "j \<le> length xs \<Longrightarrow> splice_insert j x xs ! j = x"
  by (simp add: splice_insert_def nth_append)

lemma splice_insert_remove [simp]:
  assumes "i < length xs"
  shows "splice_insert i (xs ! i) (splice_remove i xs) = xs"
proof -
  have "xs = take i xs @ xs ! i # drop (Suc i) xs" using assms by (rule id_take_nth_drop)
  then show ?thesis using assms
    by (simp add: splice_insert_def splice_remove_def min_def)
qed

lemma nat_mod_less: "0 < n \<Longrightarrow> nat (x mod int n) < n"
proof -
  assume "0 < n"
  then have "0 \<le> x mod int n" "x mod int n < int n" by simp_all
  then show ?thesis by (simp add: nat_less_iff)
qed

section \<open>Maps that pass a state along\<close>

text \<open>
  \<open>xs.map(f)\<close> for a callback that advances hidden state (the id counter): the elements
  are visited left to right.
\<close>

fun mapS :: "('a \<Rightarrow> 's \<Rightarrow> 'b \<times> 's) \<Rightarrow> 'a list \<Rightarrow> 's \<Rightarrow> 'b list \<times> 's" where
  "mapS f [] s = ([], s)"
| "mapS f (x # xs) s =
     (let (y, s1) = f x s; (ys, s2) = mapS f xs s1 in (y # ys, s2))"

lemma mapS_cong [fundef_cong]:
  assumes "xs = ys" and "s = t" and "\<And>x u. x \<in> set ys \<Longrightarrow> f x u = g x u"
  shows "mapS f xs s = mapS g ys t"
  using assms(3) unfolding assms(1,2)
  by (induction ys arbitrary: t) (auto split: prod.splits)

lemma mapS_append:
  "mapS f (xs @ ys) s =
     (let (xs', s1) = mapS f xs s; (ys', s2) = mapS f ys s1 in (xs' @ ys', s2))"
  by (induction xs arbitrary: s) (auto split: prod.splits)

lemma length_mapS: "length (fst (mapS f xs s)) = length xs"
  by (induction xs arbitrary: s) (simp_all add: split_beta Let_def)

lemma mapS_id:
  "(\<And>x u. x \<in> set xs \<Longrightarrow> f x u = (x, u)) \<Longrightarrow> mapS f xs s = (xs, s)"
  by (induction xs arbitrary: s) auto

section \<open>Equal sizes\<close>

text \<open>
  \<open>xs.map(() => 100 / xs.length)\<close>: every child of a split gets the same percentage.
\<close>

definition equal_sizes :: "nat \<Rightarrow> rat list" where
  "equal_sizes n = replicate n (100 / of_nat n)"

lemma length_equal_sizes [simp]: "length (equal_sizes n) = n"
  by (simp add: equal_sizes_def)

lemma equal_sizes_pos: "s \<in> set (equal_sizes n) \<Longrightarrow> 0 < s"
  by (auto simp: equal_sizes_def)

lemma sum_list_equal_sizes: "0 < n \<Longrightarrow> sum_list (equal_sizes n) = 100"
  by (simp add: equal_sizes_def sum_list_replicate)

section \<open>Lists without duplicates\<close>

lemma distinct_concat_map_disjoint:
  assumes "distinct (concat (map f (ys @ z # zs)))"
  shows "set (concat (map f ys)) \<inter> set (f z) = {}" "set (f z) \<inter> set (concat (map f zs)) = {}"
    "set (concat (map f ys)) \<inter> set (concat (map f zs)) = {}"
  using assms by auto

lemma remove1_concat_map:
  assumes "p \<notin> set (concat (map f ys))" and "p \<in> set (f z)"
  shows "remove1 p (concat (map f (ys @ z # zs)))
       = concat (map f ys) @ remove1 p (f z) @ concat (map f zs)"
  using assms by (auto simp: remove1_append)

lemma distinct_concat_apart:
  assumes "distinct (concat (map f (ys @ z # zs)))" and "y \<in> set ys \<union> set zs"
  shows "set (f z) \<inter> set (f y) = {}"
proof -
  have "set (f y) \<subseteq> set (concat (map f ys)) \<union> set (concat (map f zs))"
    using assms(2) by fastforce
  with distinct_concat_map_disjoint [OF assms(1)] show ?thesis by blast
qed

lemma distinct_concat_map_nth:
  assumes "distinct (concat (map f xs))" and "i < length xs" and "j < length xs" and "i \<noteq> j"
  shows "set (f (xs ! i)) \<inter> set (f (xs ! j)) = {}"
proof -
  have xs: "xs = take i xs @ xs ! i # drop (Suc i) xs"
    using assms(2) by (rule id_take_nth_drop)
  have "xs ! j \<in> set (take i xs) \<union> set (drop (Suc i) xs)"
  proof (cases "j < i")
    case True
    then have "xs ! j = take i xs ! j" "j < length (take i xs)" using assms(2) by simp_all
    then show ?thesis by (metis UnCI nth_mem)
  next
    case False
    with assms(4) have "xs ! j = drop (Suc i) xs ! (j - Suc i)" using assms(3) by simp
    moreover have "j - Suc i < length (drop (Suc i) xs)" using False assms(3,4) by simp
    ultimately show ?thesis by (metis UnCI nth_mem)
  qed
  moreover have "distinct (concat (map f (take i xs @ xs ! i # drop (Suc i) xs)))"
    unfolding xs [symmetric] by (rule assms(1))
  ultimately show ?thesis by (intro distinct_concat_apart)
qed

lemma concat_map_child:
  assumes "p \<in> set (concat (map f cs))" and "distinct (concat (map f cs))"
  obtains ys z zs where "cs = ys @ z # zs" "p \<in> set (f z)"
    "p \<notin> set (concat (map f ys))" "p \<notin> set (concat (map f zs))"
proof -
  from assms(1) obtain z where "z \<in> set cs" and p: "p \<in> set (f z)" by auto
  then obtain ys zs where cs: "cs = ys @ z # zs" by (meson split_list)
  with assms(2) p show thesis by (intro that [OF cs p]) auto
qed

lemma mapS_one_child:
  assumes "\<And>x u. x \<in> set ys \<union> set zs \<Longrightarrow> f x u = (x, u)"
  shows "mapS f (ys @ z # zs) s = (ys @ fst (f z s) # zs, snd (f z s))"
  using assms by (simp add: mapS_append mapS_id split_beta Let_def)

lemma map_filter_id_map: "List.map_filter id (map f xs) = List.map_filter f xs"
  by (induction xs) (simp_all add: List.map_filter_simps split: option.splits)

lemma concat_map_filter:
  "concat (map f (List.map_filter g xs)) = concat (map (\<lambda>x. case g x of None \<Rightarrow> [] | Some y \<Rightarrow> f y) xs)"
  by (induction xs) (auto simp: List.map_filter_simps split: option.splits)

section \<open>Lists as bags\<close>

lemma mset_splice_insert: "mset (splice_insert j x xs) = add_mset x (mset xs)"
  unfolding splice_insert_def
  by (metis append_take_drop_id mset.simps(2) mset_append union_mset_add_mset_right)

lemma mset_splice_remove:
  "i < length xs \<Longrightarrow> add_mset (xs ! i) (mset (splice_remove i xs)) = mset xs"
  unfolding splice_remove_def
  by (metis id_take_nth_drop mset.simps(2) mset_append union_mset_add_mset_right)

lemma mset_splice_move:
  "i < length xs \<Longrightarrow> mset (splice_insert j (xs ! i) (splice_remove i xs)) = mset xs"
  by (simp add: mset_splice_insert mset_splice_remove)

lemma mset_concat_map: "mset (concat (map f xs)) = (\<Sum>x\<in>#mset xs. mset (f x))"
  by (induction xs) simp_all

lemma distinct_map_split:
  "distinct (map f (ys @ z # zs)) \<Longrightarrow> y \<in> set ys \<union> set zs \<Longrightarrow> f y \<noteq> f z"
  by (auto simp: image_iff)

lemma splice_remove_first:
  assumes "distinct (map f xs)" and "findIndex (\<lambda>x. f x = a) xs = Some k"
  shows "splice_remove k xs = filter (\<lambda>x. f x \<noteq> a) xs"
proof -
  obtain ys z zs where xs: "xs = ys @ z # zs" "length ys = k" "f z = a" "\<forall>y\<in>set ys. f y \<noteq> a"
    using findIndex_split [OF assms(2)] by metis
  have "f z \<notin> f ` set zs" using assms(1) xs(1) by simp
  then have "\<forall>y\<in>set zs. f y \<noteq> a" using xs(3) by blast
  with xs show ?thesis by (auto simp: filter_id_conv)
qed

lemma distinct_map_pick:
  assumes "distinct (map f xs)" and "x \<in> set xs"
  shows "mset xs = add_mset x (mset (filter (\<lambda>y. f y \<noteq> f x) xs))"
proof -
  obtain ys zs where xs: "xs = ys @ x # zs" using assms(2) by (meson split_list)
  have "f x \<notin> f ` set ys" "f x \<notin> f ` set zs" using assms(1) unfolding xs by simp_all
  then have "\<forall>y\<in>set ys \<union> set zs. f y \<noteq> f x" by (metis UnE imageI)
  then have "filter (\<lambda>y. f y \<noteq> f x) ys = ys" "filter (\<lambda>y. f y \<noteq> f x) zs = zs"
    by (simp_all add: filter_id_conv)
  then show ?thesis by (simp add: xs)
qed

lemma adjacent_split:
  "Suc k < length cs \<Longrightarrow> cs = take k cs @ cs ! k # cs ! Suc k # drop (Suc (Suc k)) cs"
  by (metis Cons_nth_drop_Suc Suc_lessD id_take_nth_drop)

lemma splice_insert_next:
  "k < length xs \<Longrightarrow> splice_insert (Suc k) x xs = take k xs @ xs ! k # x # drop (Suc k) xs"
  by (simp add: splice_insert_def take_Suc_conv_app_nth)

lemma splice_insert_here:
  "k < length xs \<Longrightarrow> splice_insert k x xs = take k xs @ x # xs ! k # drop (Suc k) xs"
  by (simp add: splice_insert_def Cons_nth_drop_Suc)

end
