(* ===== verification/Id_Gen.thy ===== *)
theory Id_Gen
  imports Prelude
begin

text \<open>
  Identifier generation, \<open>apps/web/src/panels/id-utils.ts\<close>: a module-level counter and a
  random base-36 suffix. The counter is part of an explicit \<open>id_source\<close>; the suffixes that
  \<open>Math.random\<close> will give are the field \<open>id_random\<close> (the suffix of the n-th id), which the
  model leaves arbitrary. The theory shows that an id is determined by its counter value, so
  one session never issues the same id twice.
\<close>

section \<open>Decimal strings\<close>

definition digit_char :: "nat \<Rightarrow> char" where
  "digit_char d = char_of (48 + d)"

fun nat_string :: "nat \<Rightarrow> string" where
  "nat_string n =
     (if n < 10 then [digit_char n] else nat_string (n div 10) @ [digit_char (n mod 10)])"

declare nat_string.simps [simp del]

definition digits_value :: "string \<Rightarrow> nat" where
  "digits_value s = foldl (\<lambda>v c. 10 * v + (of_char c - 48)) 0 s"

lemma of_digit_char: "d < 10 \<Longrightarrow> of_char (digit_char d) = (48 + d :: nat)"
  by (simp add: digit_char_def)

lemma digits_value_nat_string: "digits_value (nat_string n) = n"
proof (induction n rule: nat_string.induct)
  case (1 n)
  show ?case
  proof (cases "n < 10")
    case True
    then show ?thesis
      by (simp add: nat_string.simps [of n] digits_value_def of_digit_char)
  next
    case False
    with 1 have "digits_value (nat_string (n div 10)) = n div 10" by simp
    with False show ?thesis
      by (simp add: nat_string.simps [of n] digits_value_def of_digit_char)
  qed
qed

lemma nat_string_inject [simp]: "nat_string m = nat_string n \<longleftrightarrow> m = n"
  by (metis digits_value_nat_string)

lemma digit_char_not_dash: "d < 10 \<Longrightarrow> digit_char d \<noteq> CHR ''-''"
proof
  assume "d < 10" and "digit_char d = CHR ''-''"
  then have "(of_char (digit_char d) :: nat) = of_char (CHR ''-'')" by simp
  with \<open>d < 10\<close> show False by (simp add: of_digit_char)
qed

lemma nat_string_no_dash: "CHR ''-'' \<notin> set (nat_string n)"
proof (induction n rule: nat_string.induct)
  case (1 n)
  then show ?case
    by (cases "n < 10") (auto simp: nat_string.simps [of n] digit_char_not_dash [symmetric])
qed

lemma nat_string_nonempty: "nat_string n \<noteq> []"
  by (subst nat_string.simps) simp

section \<open>generateId\<close>

record id_source =
  id_counter :: nat
  id_random :: "nat \<Rightarrow> string"

text \<open>The template \<open>`${prefix}-${_counter}-${random}`\<close>.\<close>

definition id_text :: "string \<Rightarrow> nat \<Rightarrow> string \<Rightarrow> string" where
  "id_text prefix n suffix = prefix @ ''-'' @ nat_string n @ ''-'' @ suffix"

definition generateId :: "string \<Rightarrow> id_source \<Rightarrow> string \<times> id_source" where
  "generateId prefix s =
     (let n = id_counter s + 1
      in (id_text prefix n (id_random s n), s\<lparr>id_counter := n\<rparr>))"

lemma generateId_counter [simp]:
  "id_counter (snd (generateId prefix s)) = Suc (id_counter s)"
  "id_random (snd (generateId prefix s)) = id_random s"
  by (simp_all add: generateId_def Let_def)

lemma generateId_nonempty: "fst (generateId prefix s) \<noteq> []"
  by (simp add: generateId_def id_text_def Let_def)

text \<open>
  The suffix is made of base-36 digits, so it holds no dash: that is what
  \<open>Number.prototype.toString(36)\<close> documents.
\<close>

definition dash_free :: "id_source \<Rightarrow> bool" where
  "dash_free s \<longleftrightarrow> (\<forall>n. CHR ''-'' \<notin> set (id_random s n))"

lemma dash_free_generateId [simp]: "dash_free (snd (generateId prefix s)) = dash_free s"
  by (simp add: dash_free_def)

lemma split_at_first:
  "xs @ c # ys = zs @ c # us \<Longrightarrow> c \<notin> set xs \<Longrightarrow> c \<notin> set zs \<Longrightarrow> xs = zs \<and> ys = us"
proof (induction xs arbitrary: zs)
  case Nil
  then show ?case by (cases zs) auto
next
  case (Cons x xs)
  then show ?case by (cases zs) auto
qed

lemma split_at_last_dash:
  assumes "a @ CHR ''-'' # r = b @ CHR ''-'' # t"
    and "CHR ''-'' \<notin> set r" and "CHR ''-'' \<notin> set t"
  shows "a = b \<and> r = t"
proof -
  from assms(1) have "rev r @ CHR ''-'' # rev a = rev t @ CHR ''-'' # rev b"
    by (metis append.assoc append_Cons append_Nil rev.simps(2) rev_append)
  moreover from assms have "CHR ''-'' \<notin> set (rev r)" "CHR ''-'' \<notin> set (rev t)" by simp_all
  ultimately have "rev r = rev t \<and> rev a = rev b" by (rule split_at_first)
  then show ?thesis by simp
qed

lemma id_text_inject:
  assumes "id_text p n r = id_text q m t"
    and "CHR ''-'' \<notin> set r" and "CHR ''-'' \<notin> set t"
  shows "p = q \<and> n = m \<and> r = t"
proof -
  from assms have "(p @ CHR ''-'' # nat_string n) @ CHR ''-'' # r
      = (q @ CHR ''-'' # nat_string m) @ CHR ''-'' # t"
    by (simp add: id_text_def)
  from split_at_last_dash [OF this assms(2,3)]
  have "p @ CHR ''-'' # nat_string n = q @ CHR ''-'' # nat_string m" and "r = t" by auto
  with split_at_last_dash [OF this(1) nat_string_no_dash nat_string_no_dash]
  show ?thesis by simp
qed

section \<open>Freshness\<close>

text \<open>
  An id is \<^emph>\<open>unissued\<close> when a later call could still return it; a set of ids is
  \<^emph>\<open>settled\<close> when no later call returns one of its members. Every layout a session builds
  from the empty one is settled; a layout restored from disk is settled unless a suffix
  collides.
\<close>

definition unissued :: "id_source \<Rightarrow> string set" where
  "unissued s = {id_text p n (id_random s n) | p n. id_counter s < n}"

definition settled :: "id_source \<Rightarrow> string set \<Rightarrow> bool" where
  "settled s I \<longleftrightarrow> I \<inter> unissued s = {}"

lemma generateId_unissued: "fst (generateId p s) \<in> unissued s"
  by (auto simp: generateId_def unissued_def Let_def)

lemma unissued_step: "unissued (snd (generateId p s)) \<subseteq> unissued s"
proof
  fix i
  assume "i \<in> unissued (snd (generateId p s))"
  then obtain q n where "i = id_text q n (id_random s n)" "Suc (id_counter s) < n"
    by (auto simp: unissued_def)
  then show "i \<in> unissued s"
    unfolding unissued_def by (intro CollectI exI [of _ q] exI [of _ n]) simp
qed

lemma generateId_settles:
  assumes "dash_free s"
  shows "fst (generateId p s) \<notin> unissued (snd (generateId p s))"
  using assms
  by (auto simp: unissued_def generateId_def Let_def dash_free_def dest!: id_text_inject)

lemma settled_fresh: "settled s I \<Longrightarrow> fst (generateId p s) \<notin> I"
  using generateId_unissued by (auto simp: settled_def)

lemma settled_insert:
  assumes "dash_free s" and "settled s I"
  shows "settled (snd (generateId p s)) (insert (fst (generateId p s)) I)"
  using assms generateId_settles unissued_step by (fastforce simp: settled_def)

lemma settled_mono: "settled s I \<Longrightarrow> J \<subseteq> I \<Longrightarrow> settled s J"
  by (auto simp: settled_def)

lemma settled_step: "settled s I \<Longrightarrow> settled (snd (generateId p s)) I"
  using unissued_step by (fastforce simp: settled_def)

text \<open>A run of calls: the ids are pairwise different whatever the prefixes are.\<close>

definition issue :: "string list \<Rightarrow> id_source \<Rightarrow> string list \<times> id_source" where
  "issue ps s = mapS generateId ps s"

lemma issue_settled:
  assumes "dash_free s" and "settled s I" and "issue ps s = (is, s')"
  shows "distinct is \<and> set is \<inter> I = {} \<and> settled s' (I \<union> set is) \<and> dash_free s'"
  using assms
proof (induction ps arbitrary: s I "is" s')
  case Nil
  then show ?case by (simp add: issue_def)
next
  case (Cons p ps)
  obtain i s1 where i: "generateId p s = (i, s1)" by (metis surj_pair)
  obtain js s2 where js: "issue ps s1 = (js, s2)" by (metis surj_pair)
  from Cons.prems(3) i js have eq: "is = i # js" "s' = s2"
    by (simp_all add: issue_def)
  from i have i': "i = fst (generateId p s)" "s1 = snd (generateId p s)" by simp_all
  have "dash_free s1" "settled s1 (insert i I)"
    using Cons.prems(1,2) settled_insert by (simp_all add: i')
  from Cons.IH [OF this js] settled_fresh [OF Cons.prems(2), of p] show ?case
    by (auto simp: eq i')
qed

end
