(* ===== verification/Layout_Types.thy ===== *)
theory Layout_Types
  imports Id_Gen
begin

text \<open>
  The hierarchical layout data of \<open>packages/shared/src/types.ts\<close>: a window holds window
  tabs, a window tab a tree of workspace tiles, a tile leaf a strip of panel tabs, a panel
  tab a tree of panes. Interfaces are records, tagged unions are datatypes; an optional
  property is an \<open>option\<close>, with \<open>None\<close> for a missing or \<open>undefined\<close> value. The two
  trees are finitely branching, with one list of children and one list of sizes per split.
\<close>

section \<open>Panel trees\<close>

datatype split_direction = Horizontal | Vertical

datatype pane_type = AgentPane | TerminalPane

record leaf_node =
  leaf_command :: "string option"
  leaf_id :: string
  leaf_paneType :: pane_type
  leaf_terminalId :: "string option"
  leaf_workspaceId :: "string option"

text \<open>\<open>SplitNode id direction children sizes\<close>.\<close>

datatype panel_node =
    LeafNode leaf_node
  | SplitNode string split_direction "panel_node list" "rat list"

record panel_tab =
  pt_focusedPaneId :: "string option"
  pt_id :: string
  pt_label :: "string option"
  pt_panelLayout :: panel_node

section \<open>Workspace tiles, window tabs, the window\<close>

record tile_leaf =
  tl_activePanelTabId :: "string option"
  tl_id :: string
  tl_panelTabs :: "panel_tab list"
  tl_workspaceId :: string

text \<open>\<open>TileSplit id direction children sizes\<close>.\<close>

datatype tile_node =
    TileLeaf tile_leaf
  | TileSplit string split_direction "tile_node list" "rat list"

record window_tab =
  wt_focusedWorkspaceTileId :: "string option"
  wt_id :: string
  wt_label :: "string option"
  wt_workspaceLayout :: "tile_node option"

record window_layout =
  wl_activeTabId :: "string option"
  wl_tabs :: "window_tab list"

section \<open>Node identity\<close>

fun panel_node_id :: "panel_node \<Rightarrow> string" where
  "panel_node_id (LeafNode l) = leaf_id l"
| "panel_node_id (SplitNode i d cs sz) = i"

fun tile_node_id :: "tile_node \<Rightarrow> string" where
  "tile_node_id (TileLeaf l) = tl_id l"
| "tile_node_id (TileSplit i d cs sz) = i"

text \<open>All ids of a tree, splits included, in depth-first order.\<close>

fun panel_ids :: "panel_node \<Rightarrow> string list" where
  "panel_ids (LeafNode l) = [leaf_id l]"
| "panel_ids (SplitNode i d cs sz) = i # concat (map panel_ids cs)"

fun tile_ids :: "tile_node \<Rightarrow> string list" where
  "tile_ids (TileLeaf l) = [tl_id l]"
| "tile_ids (TileSplit i d cs sz) = i # concat (map tile_ids cs)"

lemma panel_node_id_in_ids: "panel_node_id n \<in> set (panel_ids n)"
  by (cases n) auto

lemma tile_node_id_in_ids: "tile_node_id n \<in> set (tile_ids n)"
  by (cases n) auto

section \<open>Well-formed trees\<close>

text \<open>
  The shape every operation is meant to keep: a split has at least two children and one
  positive size per child.
\<close>

definition sizes_ok :: "rat list \<Rightarrow> 'a list \<Rightarrow> bool" where
  "sizes_ok sz cs \<longleftrightarrow> length sz = length cs \<and> (\<forall>s\<in>set sz. 0 < s)"

fun wf_panel :: "panel_node \<Rightarrow> bool" where
  "wf_panel (LeafNode l) = True"
| "wf_panel (SplitNode i d cs sz) =
     (2 \<le> length cs \<and> sizes_ok sz cs \<and> list_all wf_panel cs)"

fun wf_tile :: "tile_node \<Rightarrow> bool" where
  "wf_tile (TileLeaf l) = True"
| "wf_tile (TileSplit i d cs sz) =
     (2 \<le> length cs \<and> sizes_ok sz cs \<and> list_all wf_tile cs)"

lemma sizes_ok_equal [simp]: "sizes_ok (equal_sizes (length cs)) cs"
  by (auto simp: sizes_ok_def dest: equal_sizes_pos)

lemma sizes_ok_equal' [simp]: "n = length cs \<Longrightarrow> sizes_ok (equal_sizes n) cs"
  by simp

lemma sizes_ok_halves [simp]: "sizes_ok [50, 50] [a, b]"
  by (simp add: sizes_ok_def)

lemma sizes_ok_length: "length cs = length ds \<Longrightarrow> sizes_ok sz cs = sizes_ok sz ds"
  by (simp add: sizes_ok_def)

end
