(* ===== verification/Panel_Tree.thy ===== *)
theory Panel_Tree
  imports Layout_Types
begin

text \<open>
  The split tree of one panel tab, \<open>apps/web/src/panels/panel-tree-utils.ts\<close>: leaf
  queries, splitting, closing, terminal assignment, directional navigation and resizing.
  The source compares nodes by reference to keep unchanged subtrees shared; here the test is
  equality of trees, and \<open>closePane_unchanged\<close> below shows that the one test whose outcome
  changes the result (in \<open>closePane\<close>) means the same in both readings.
\<close>

section \<open>Leaf queries\<close>

fun getFirstLeafId :: "panel_node \<Rightarrow> string option" where
  "getFirstLeafId (LeafNode l) = Some (leaf_id l)"
| "getFirstLeafId (SplitNode i d cs sz) = first_truthy getFirstLeafId cs"

fun getLeafIds :: "panel_node \<Rightarrow> string list" where
  "getLeafIds (LeafNode l) = [leaf_id l]"
| "getLeafIds (SplitNode i d cs sz) = concat (map getLeafIds cs)"

fun findLeaf :: "panel_node \<Rightarrow> string \<Rightarrow> leaf_node option" where
  "findLeaf (LeafNode l) p = (if leaf_id l = p then Some l else None)"
| "findLeaf (SplitNode i d cs sz) p = first_some (\<lambda>c. findLeaf c p) cs"

fun containsPane :: "panel_node \<Rightarrow> string \<Rightarrow> bool" where
  "containsPane (LeafNode l) p = (leaf_id l = p)"
| "containsPane (SplitNode i d cs sz) p = list_ex (\<lambda>c. containsPane c p) cs"

fun collectTerminalIds :: "panel_node \<Rightarrow> string list" where
  "collectTerminalIds (LeafNode l) =
     (case leaf_terminalId l of None \<Rightarrow> [] | Some t \<Rightarrow> [t])"
| "collectTerminalIds (SplitNode i d cs sz) = concat (map collectTerminalIds cs)"

fun countLeaves :: "panel_node \<Rightarrow> nat" where
  "countLeaves (LeafNode l) = 1"
| "countLeaves (SplitNode i d cs sz) = sum_list (map countLeaves cs)"

section \<open>Navigation primitives\<close>

datatype navigation_direction = NavLeft | NavRight | NavUp | NavDown

datatype edge = FirstEdge | LastEdge

fun buildPath :: "panel_node \<Rightarrow> string \<Rightarrow> panel_node list option" where
  "buildPath (LeafNode l) t = (if leaf_id l = t then Some [LeafNode l] else None)"
| "buildPath (SplitNode i d cs sz) t =
     (if i = t then Some [SplitNode i d cs sz]
      else map_option (\<lambda>path. SplitNode i d cs sz # path) (first_some (\<lambda>c. buildPath c t) cs))"

text \<open>
  A childless split is returned as it is, where the source casts it to \<open>LeafNode\<close>: the
  result is therefore a node.
\<close>

function getEdgeLeaf :: "panel_node \<Rightarrow> edge \<Rightarrow> panel_node" where
  "getEdgeLeaf (LeafNode l) e = LeafNode l"
| "getEdgeLeaf (SplitNode i d cs sz) e =
     (case (if e = FirstEdge then js_nth cs 0 else js_last cs) of
        None \<Rightarrow> SplitNode i d cs sz
      | Some child \<Rightarrow> getEdgeLeaf child e)"
  by pat_completeness auto
termination
  by (relation "measure (size \<circ> fst)")
    (auto simp: less_Suc_eq_le split: if_splits list.splits
      dest!: js_last_Some intro: size_list_estimation' trans_le_add1)

section \<open>Splitting\<close>

text \<open>\<open>Partial<LeafNode>\<close>: the properties a caller may fix for the new pane.\<close>

record pane_content =
  pc_command :: "string option"
  pc_paneType :: "pane_type option"
  pc_terminalId :: "string option"
  pc_workspaceId :: "string option"

fun node_workspaceId :: "panel_node \<Rightarrow> string option" where
  "node_workspaceId (LeafNode l) = leaf_workspaceId l"
| "node_workspaceId (SplitNode i d cs sz) = None"

definition or_else :: "'a option \<Rightarrow> 'a option \<Rightarrow> 'a option" where
  "or_else a b = (case a of None \<Rightarrow> b | Some x \<Rightarrow> Some x)"

definition createSiblingPane ::
    "panel_node \<Rightarrow> pane_content option \<Rightarrow> id_source \<Rightarrow> leaf_node \<times> id_source" where
  "createSiblingPane sibling content s =
     (let (i, s1) = generateId ''pane'' s
      in (\<lparr>leaf_command = Option.bind content pc_command,
           leaf_id = i,
           leaf_paneType =
             (case Option.bind content pc_paneType of None \<Rightarrow> TerminalPane | Some t \<Rightarrow> t),
           leaf_terminalId = Option.bind content pc_terminalId,
           leaf_workspaceId =
             or_else (Option.bind content pc_workspaceId) (node_workspaceId sibling)\<rparr>, s1))"

fun isLeafWith :: "string \<Rightarrow> panel_node \<Rightarrow> bool" where
  "isLeafWith p (LeafNode l) = (leaf_id l = p)"
| "isLeafWith p (SplitNode i d cs sz) = False"

fun splitPaneRecursive ::
    "panel_node \<Rightarrow> string \<Rightarrow> split_direction \<Rightarrow> pane_content option \<Rightarrow> id_source
      \<Rightarrow> panel_node \<times> id_source" where
  "splitPaneRecursive (LeafNode l) p dir content s =
     (if leaf_id l = p then
        (let (newPane, s1) = createSiblingPane (LeafNode l) content s;
             (i, s2) = generateId ''split'' s1
         in (SplitNode i dir [LeafNode l, LeafNode newPane] [50, 50], s2))
      else (LeafNode l, s))"
| "splitPaneRecursive (SplitNode i d cs sz) p dir content s =
     (case (if d = dir then findIndex (isLeafWith p) cs else None) of
        Some k \<Rightarrow>
          (let (newPane, s1) = createSiblingPane (cs ! k) content s;
               cs' = splice_insert (Suc k) (LeafNode newPane) cs
           in (SplitNode i d cs' (equal_sizes (length cs')), s1))
      | None \<Rightarrow>
          (let (cs', s1) = mapS (\<lambda>c u. splitPaneRecursive c p dir content u) cs s
           in if cs' = cs then (SplitNode i d cs sz, s1) else (SplitNode i d cs' sz, s1)))"

definition splitPane ::
    "panel_node \<Rightarrow> string \<Rightarrow> split_direction \<Rightarrow> pane_content option \<Rightarrow> id_source
      \<Rightarrow> panel_node \<times> id_source" where
  "splitPane node p dir content s = splitPaneRecursive node p dir content s"

definition appendPane ::
    "panel_node \<Rightarrow> split_direction \<Rightarrow> pane_content option \<Rightarrow> id_source
      \<Rightarrow> panel_node \<times> id_source" where
  "appendPane node dir content s =
     (let sibling = getEdgeLeaf node LastEdge;
          (newPane, s1) = createSiblingPane sibling content s;
          wrapped = (let (i, s2) = generateId ''split'' s1
                     in (SplitNode i dir [node, LeafNode newPane] [50, 50], s2))
      in case node of
           SplitNode i d cs sz \<Rightarrow>
             if d = dir then
               (let cs' = cs @ [LeafNode newPane]
                in (SplitNode i d cs' (equal_sizes (length cs')), s1))
             else wrapped
         | LeafNode l \<Rightarrow> wrapped)"

section \<open>Closing\<close>

definition collapseChildren ::
    "string \<Rightarrow> split_direction \<Rightarrow> panel_node list \<Rightarrow> panel_node option" where
  "collapseChildren i d cs =
     (case cs of
        [] \<Rightarrow> None
      | [c] \<Rightarrow> Some c
      | _ \<Rightarrow> Some (SplitNode i d cs (equal_sizes (length cs))))"

fun closePane :: "panel_node \<Rightarrow> string \<Rightarrow> panel_node option" where
  "closePane (LeafNode l) p = (if leaf_id l = p then None else Some (LeafNode l))"
| "closePane (SplitNode i d cs sz) p =
     (case findIndex (isLeafWith p) cs of
        Some k \<Rightarrow> collapseChildren i d (splice_remove k cs)
      | None \<Rightarrow>
          (let results = map (\<lambda>c. case c of SplitNode _ _ _ _ \<Rightarrow> closePane c p
                                          | LeafNode _ \<Rightarrow> Some c) cs
           in if results = map Some cs then Some (SplitNode i d cs sz)
              else collapseChildren i d (List.map_filter id results)))"

fun findSiblingPaneId :: "panel_node \<Rightarrow> string \<Rightarrow> string option" where
  "findSiblingPaneId (LeafNode l) p = None"
| "findSiblingPaneId (SplitNode i d cs sz) p =
     (case findIndex (isLeafWith p) cs of
        Some k \<Rightarrow>
          (case or_else (js_nth cs (int k + 1)) (js_nth cs (int k - 1)) of
             Some sibling \<Rightarrow> getFirstLeafId sibling
           | None \<Rightarrow> None)
      | None \<Rightarrow> first_truthy (\<lambda>c. findSiblingPaneId c p) cs)"

definition findNewLeafAfterSplit :: "panel_node \<Rightarrow> panel_node \<Rightarrow> leaf_node option" where
  "findNewLeafAfterSplit before after =
     (case find (\<lambda>i. i \<notin> set (getLeafIds before)) (getLeafIds after) of
        Some newId \<Rightarrow> (if newId = [] then None else findLeaf after newId)
      | None \<Rightarrow> None)"

section \<open>Terminal assignment and pane type\<close>

fun assignTerminal ::
    "panel_node \<Rightarrow> string \<Rightarrow> string \<Rightarrow> string option \<Rightarrow> panel_node" where
  "assignTerminal (LeafNode l) p t cmd =
     (if leaf_id l = p then LeafNode (l\<lparr>leaf_terminalId := Some t, leaf_command := cmd\<rparr>)
      else LeafNode l)"
| "assignTerminal (SplitNode i d cs sz) p t cmd =
     (let cs' = map (\<lambda>c. assignTerminal c p t cmd) cs
      in if cs' = cs then SplitNode i d cs sz else SplitNode i d cs' sz)"

fun updateLeafType :: "panel_node \<Rightarrow> string \<Rightarrow> pane_type \<Rightarrow> panel_node" where
  "updateLeafType (LeafNode l) p ty =
     (if leaf_id l = p then LeafNode (l\<lparr>leaf_paneType := ty\<rparr>) else LeafNode l)"
| "updateLeafType (SplitNode i d cs sz) p ty =
     (let cs' = map (\<lambda>c. updateLeafType c p ty) cs
      in if cs' = cs then SplitNode i d cs sz else SplitNode i d cs' sz)"

section \<open>Directional navigation\<close>

definition tryNavigateAtAncestor ::
    "panel_node list \<Rightarrow> nat \<Rightarrow> split_direction \<Rightarrow> int \<Rightarrow> string option" where
  "tryNavigateAtAncestor path index orientation delta =
     (case js_nth path (int index) of
        Some (SplitNode i d cs sz) \<Rightarrow>
          if d \<noteq> orientation then None
          else
            (case js_nth path (int index + 1) of
               None \<Rightarrow> None
             | Some childInPath \<Rightarrow>
                 (case findIndex (\<lambda>c. panel_node_id c = panel_node_id childInPath) cs of
                    None \<Rightarrow> None
                  | Some childIndex \<Rightarrow>
                      (case js_nth cs (int childIndex + delta) of
                         None \<Rightarrow> None
                       | Some neighbor \<Rightarrow>
                           Some (panel_node_id
                             (getEdgeLeaf neighbor (if 0 < delta then FirstEdge else LastEdge))))))
      | _ \<Rightarrow> None)"

definition nav_orientation :: "navigation_direction \<Rightarrow> split_direction" where
  "nav_orientation dir = (if dir = NavLeft \<or> dir = NavRight then Horizontal else Vertical)"

definition nav_delta :: "navigation_direction \<Rightarrow> int" where
  "nav_delta dir = (if dir = NavLeft \<or> dir = NavUp then -1 else 1)"

text \<open>The loop \<open>for (let i = path.length - 2; i >= 0; i--)\<close> visits \<open>rev [0..<length path - 1]\<close>.\<close>

definition findPaneInDirection ::
    "panel_node \<Rightarrow> string \<Rightarrow> navigation_direction \<Rightarrow> string option" where
  "findPaneInDirection node activePaneId dir =
     (case buildPath node activePaneId of
        None \<Rightarrow> None
      | Some path \<Rightarrow>
          if length path < 2 then None
          else first_truthy
                 (\<lambda>i. tryNavigateAtAncestor path i (nav_orientation dir) (nav_delta dir))
                 (rev [0..<length path - 1]))"

section \<open>Resizing\<close>

definition RESIZE_STEP :: rat where "RESIZE_STEP = 5"

definition MIN_PANE_SIZE :: rat where "MIN_PANE_SIZE = 5"

definition getResizeDelta :: "navigation_direction \<Rightarrow> split_direction \<Rightarrow> rat option" where
  "getResizeDelta dir orientation =
     (if orientation = Horizontal then
        (if dir = NavRight then Some RESIZE_STEP
         else if dir = NavLeft then Some (- RESIZE_STEP)
         else None)
      else if dir = NavDown then Some RESIZE_STEP
      else if dir = NavUp then Some (- RESIZE_STEP)
      else None)"

text \<open>\<open>sizes[i] ?? fallback\<close>.\<close>

definition size_or :: "rat \<Rightarrow> rat list \<Rightarrow> int \<Rightarrow> rat" where
  "size_or fallback sz i = (case js_nth sz i of None \<Rightarrow> fallback | Some s \<Rightarrow> s)"

text \<open>
  The result \<open>{ splitNodeId, newSizes }\<close>; \<open>newSizes\<close> is an object keyed by child id,
  filled in child order, so the last child with an id gives its entry.
\<close>

definition applyResizeDelta ::
    "string \<Rightarrow> panel_node list \<Rightarrow> rat list \<Rightarrow> nat \<Rightarrow> rat
      \<Rightarrow> (string \<times> (string \<rightharpoonup> rat)) option" where
  "applyResizeDelta i cs sz childIndex delta =
     (let siblingIndex = (if 0 < delta then int childIndex + 1 else int childIndex - 1)
      in if \<not> (0 \<le> siblingIndex \<and> siblingIndex < int (length cs)) then None
         else
           (let newSize = size_or 50 sz (int childIndex) + delta;
                newSiblingSize = size_or 50 sz siblingIndex - delta
            in if newSize < MIN_PANE_SIZE \<or> newSiblingSize < MIN_PANE_SIZE then None
               else Some (i,
                 fold (\<lambda>j m. m(panel_node_id (cs ! j) \<mapsto>
                          (if j = childIndex then newSize
                           else if int j = siblingIndex then newSiblingSize
                           else size_or (100 / of_nat (length cs)) sz (int j))))
                      [0..<length cs] Map.empty)))"

text \<open>
  One round of the loop: \<open>None\<close> is a \<open>continue\<close>, \<open>Some r\<close> the statement \<open>return r\<close>
  (where \<open>r\<close> itself may be \<open>undefined\<close>).
\<close>

definition resizeAtAncestor ::
    "panel_node list \<Rightarrow> navigation_direction \<Rightarrow> nat
      \<Rightarrow> (string \<times> (string \<rightharpoonup> rat)) option option" where
  "resizeAtAncestor path dir index =
     (case js_nth path (int index) of
        Some (SplitNode i d cs sz) \<Rightarrow>
          (case getResizeDelta dir d of
             None \<Rightarrow> None
           | Some delta \<Rightarrow>
               (case js_nth path (int index + 1) of
                  None \<Rightarrow> None
                | Some childInPath \<Rightarrow>
                    (case findIndex (\<lambda>c. panel_node_id c = panel_node_id childInPath) cs of
                       None \<Rightarrow> None
                     | Some childIndex \<Rightarrow> Some (applyResizeDelta i cs sz childIndex delta))))
      | _ \<Rightarrow> None)"

definition computeResizeFromPath ::
    "panel_node list \<Rightarrow> navigation_direction \<Rightarrow> (string \<times> (string \<rightharpoonup> rat)) option" where
  "computeResizeFromPath path dir =
     (case first_some (resizeAtAncestor path dir) (rev [0..<length path - 1]) of
        None \<Rightarrow> None
      | Some r \<Rightarrow> r)"

definition computeResize ::
    "panel_node \<Rightarrow> string \<Rightarrow> navigation_direction \<Rightarrow> (string \<times> (string \<rightharpoonup> rat)) option" where
  "computeResize node activePaneId dir =
     (case buildPath node activePaneId of
        None \<Rightarrow> None
      | Some path \<Rightarrow> if length path < 2 then None else computeResizeFromPath path dir)"

section \<open>Leaf queries: the tree as a list of leaves\<close>

fun panel_leaves :: "panel_node \<Rightarrow> leaf_node list" where
  "panel_leaves (LeafNode l) = [l]"
| "panel_leaves (SplitNode i d cs sz) = concat (map panel_leaves cs)"

lemma getLeafIds_eq: "getLeafIds n = map leaf_id (panel_leaves n)"
  by (induction n rule: getLeafIds.induct) (auto simp: map_concat comp_def cong: map_cong)

lemma containsPane_iff: "containsPane n p \<longleftrightarrow> p \<in> set (getLeafIds n)"
  by (induction n p rule: containsPane.induct) (auto simp: list_ex_iff)

lemma countLeaves_eq: "countLeaves n = length (getLeafIds n)"
  by (induction n rule: countLeaves.induct) (auto simp: length_concat comp_def cong: map_cong)

lemma getLeafIds_subset_ids: "set (getLeafIds n) \<subseteq> set (panel_ids n)"
  by (induction n rule: panel_ids.induct) auto

lemma distinct_ids_leaves: "distinct (panel_ids n) \<Longrightarrow> distinct (getLeafIds n)"
proof (induction n rule: panel_ids.induct)
  case (1 l)
  then show ?case by simp
next
  case (2 i d cs sz)
  then have d: "distinct (concat (map panel_ids cs))" by simp
  then have "distinct (concat (map getLeafIds cs))"
    using "2.IH"
  proof (induction cs)
    case Nil
    then show ?case by simp
  next
    case (Cons c cs)
    have "set (getLeafIds c) \<inter> set (concat (map getLeafIds cs))
        \<subseteq> set (panel_ids c) \<inter> set (concat (map panel_ids cs))"
      using getLeafIds_subset_ids by fastforce
    with Cons show ?case by auto
  qed
  then show ?case by simp
qed

lemma findLeaf_eq: "findLeaf n p = find (\<lambda>l. leaf_id l = p) (panel_leaves n)"
proof (induction n p rule: findLeaf.induct)
  case (1 l p)
  then show ?case by simp
next
  case (2 i d cs sz p)
  then show ?case
  proof (induction cs)
    case Nil
    then show ?case by simp
  next
    case (Cons c cs)
    have app: "find P (xs @ ys) = (case find P xs of None \<Rightarrow> find P ys | Some x \<Rightarrow> Some x)"
      for P and xs ys :: "leaf_node list"
      by (induction xs) auto
    from Cons show ?case by (auto simp: app split: option.splits)
  qed
qed

lemma findLeaf_Some: "findLeaf n p = Some l \<Longrightarrow> leaf_id l = p \<and> l \<in> set (panel_leaves n)"
  by (auto simp: findLeaf_eq find_Some_iff)

lemma findLeaf_None: "findLeaf n p = None \<longleftrightarrow> \<not> containsPane n p"
  by (auto simp: findLeaf_eq find_None_iff containsPane_iff getLeafIds_eq)

lemma isLeafWith_iff: "isLeafWith p n \<longleftrightarrow> (\<exists>l. n = LeafNode l \<and> leaf_id l = p)"
  by (cases n) auto

lemma isLeafWith_contains: "isLeafWith p n \<Longrightarrow> getLeafIds n = [p]"
  by (auto simp: isLeafWith_iff)

lemma no_leaf_child:
  "findIndex (isLeafWith p) cs = None \<Longrightarrow> c \<in> set cs \<Longrightarrow> \<not> isLeafWith p c"
  by (auto simp: findIndex_None)

text \<open>The child that holds a leaf, when leaf ids are unique.\<close>

lemma child_with_leaf:
  assumes "p \<in> set (concat (map getLeafIds cs))" and "distinct (concat (map getLeafIds cs))"
  obtains ys z zs where "cs = ys @ z # zs" "p \<in> set (getLeafIds z)"
    "p \<notin> set (concat (map getLeafIds ys))" "p \<notin> set (concat (map getLeafIds zs))"
  using concat_map_child [OF assms] that by blast

lemma getFirstLeafId_Some:
  "getFirstLeafId n = Some p \<Longrightarrow> p \<in> set (getLeafIds n)"
proof (induction n rule: getFirstLeafId.induct)
  case (1 l)
  then show ?case by simp
next
  case (2 i d cs sz)
  then show ?case by (auto dest!: first_truthy_Some)
qed

lemma wf_panel_leaf: "wf_panel n \<Longrightarrow> getLeafIds n \<noteq> []"
proof (induction n rule: wf_panel.induct)
  case (1 l)
  then show ?case by simp
next
  case (2 i d cs sz)
  then show ?case by (cases cs) (auto simp: list_all_iff)
qed

lemma getFirstLeafId_hd:
  assumes "wf_panel n" and "[] \<notin> set (getLeafIds n)"
  shows "getFirstLeafId n = Some (hd (getLeafIds n))"
  using assms
proof (induction n rule: getFirstLeafId.induct)
  case (1 l)
  then show ?case by simp
next
  case (2 i d cs sz)
  then obtain c cs' where cs: "cs = c # cs'" by (cases cs) auto
  with 2 have first: "getFirstLeafId c = Some (hd (getLeafIds c))" and ne: "getLeafIds c \<noteq> []"
    using wf_panel_leaf by auto
  then have "hd (getLeafIds c) \<noteq> []" using "2.prems"(2) cs hd_in_set by fastforce
  with first ne show ?case by (simp add: cs)
qed

end
