(* ===== verification/Panel_Edit.thy ===== *)
theory Panel_Edit
  imports Panel_Tree "HOL-Library.Sublist"
begin

text \<open>
  What splitting, appending and closing do to a panel tree: the effect on the depth-first
  list of leaves, preservation of the well-formed shape and of unique ids, and the round
  trip from a split to the close of the new pane.
\<close>

named_theorems panel_simps \<open>facts about the effect of edits on leaf lists\<close>

section \<open>Reference operation on the leaf list\<close>

fun insert_after :: "'a \<Rightarrow> 'a \<Rightarrow> 'a list \<Rightarrow> 'a list" where
  "insert_after p x [] = []"
| "insert_after p x (y # ys) = (if y = p then y # x # ys else y # insert_after p x ys)"

lemma insert_after_notin: "p \<notin> set xs \<Longrightarrow> insert_after p x xs = xs"
  by (induction xs) auto

lemma insert_after_append:
  "p \<notin> set xs \<Longrightarrow> insert_after p x (xs @ ys) = xs @ insert_after p x ys"
  by (induction xs) auto

lemma insert_after_append_left:
  "p \<in> set xs \<Longrightarrow> insert_after p x (xs @ ys) = insert_after p x xs @ ys"
  by (induction xs) auto

lemma set_insert_after: "p \<in> set xs \<Longrightarrow> set (insert_after p x xs) = insert x (set xs)"
  by (induction xs) auto

lemma distinct_insert_after:
  "distinct xs \<Longrightarrow> x \<notin> set xs \<Longrightarrow> distinct (insert_after p x xs)"
proof (induction xs)
  case Nil
  then show ?case by simp
next
  case (Cons y ys)
  then show ?case
    by (cases "p \<in> set ys") (auto simp: set_insert_after insert_after_notin)
qed

lemma length_insert_after: "p \<in> set xs \<Longrightarrow> length (insert_after p x xs) = Suc (length xs)"
  by (induction xs) auto

lemma insert_after_concat:
  assumes "p \<notin> set (concat (map f ys))" and "p \<in> set (f z)"
  shows "insert_after p x (concat (map f (ys @ z # zs)))
       = concat (map f ys) @ insert_after p x (f z) @ concat (map f zs)"
  using assms by (simp add: insert_after_append insert_after_append_left del: set_concat)

lemma remove1_insert_after: "x \<notin> set xs \<Longrightarrow> remove1 x (insert_after p x xs) = xs"
  by (induction xs) auto

section \<open>Splitting\<close>

lemma createSiblingPane_id [simp]:
  "leaf_id (fst (createSiblingPane n c s)) = fst (generateId ''pane'' s)"
  "snd (createSiblingPane n c s) = snd (generateId ''pane'' s)"
  by (simp_all add: createSiblingPane_def split_beta Let_def)

text \<open>The unchanged test of the source does not affect the value of the result.\<close>

lemma unchanged_split [simp]:
  "(if cs' = cs then (SplitNode i d cs sz, s) else (SplitNode i d cs' sz, s))
     = (SplitNode i d cs' sz, s)"
  "(if cs' = cs then SplitNode i d cs sz else SplitNode i d cs' sz) = SplitNode i d cs' sz"
  by simp_all

lemma splitPane_absent:
  "p \<notin> set (getLeafIds n) \<Longrightarrow> splitPaneRecursive n p dir c s = (n, s)"
proof (induction n p dir c s rule: splitPaneRecursive.induct)
  case (1 l p dir c s)
  then show ?case by simp
next
  case (2 i d cs sz p dir c s)
  have none: "findIndex (isLeafWith p) cs = None"
    using "2.prems" by (auto simp: findIndex_None dest!: isLeafWith_contains)
  then have "mapS (\<lambda>x u. splitPaneRecursive x p dir c u) cs s = (cs, s)"
    using 2 by (intro mapS_id) auto
  with none show ?case by simp
qed

text \<open>
  One step of a split in a tree with unique leaves: either the pane is a direct child of a
  split with the same direction and the new leaf goes next to it, or the one child that holds
  the pane is split.
\<close>

lemma splitPane_child:
  assumes "distinct (getLeafIds (SplitNode i d cs sz))"
    and "p \<in> set (getLeafIds (SplitNode i d cs sz))"
  obtains
    (adjacent) ys z zs where "cs = ys @ z # zs" "isLeafWith p z" "d = dir"
      "p \<notin> set (concat (map getLeafIds ys))" "p \<notin> set (concat (map getLeafIds zs))"
      "splitPaneRecursive (SplitNode i d cs sz) p dir c s =
        (let cs' = ys @ z # LeafNode (fst (createSiblingPane z c s)) # zs
         in (SplitNode i d cs' (equal_sizes (length cs')), snd (generateId ''pane'' s)))"
  | (nested) ys z zs where "cs = ys @ z # zs" "p \<in> set (getLeafIds z)"
      "p \<notin> set (concat (map getLeafIds ys))" "p \<notin> set (concat (map getLeafIds zs))"
      "splitPaneRecursive (SplitNode i d cs sz) p dir c s =
        (SplitNode i d (ys @ fst (splitPaneRecursive z p dir c s) # zs) sz,
         snd (splitPaneRecursive z p dir c s))"
proof -
  from assms obtain ys z zs where cs: "cs = ys @ z # zs" and z: "p \<in> set (getLeafIds z)"
    and ys: "p \<notin> set (concat (map getLeafIds ys))"
    and zs: "p \<notin> set (concat (map getLeafIds zs))"
    using child_with_leaf [of p cs] by auto
  have ys': "\<forall>y\<in>set ys. \<not> isLeafWith p y"
    using ys by (auto dest!: isLeafWith_contains)
  have zs': "\<forall>y\<in>set zs. \<not> isLeafWith p y"
    using zs by (auto dest!: isLeafWith_contains)
  show thesis
  proof (cases "isLeafWith p z \<and> d = dir")
    case True
    then have "findIndex (isLeafWith p) cs = Some (length ys)"
      using ys' by (simp add: cs findIndex_append)
    with True show thesis
      by (intro adjacent [OF cs _ _ ys zs]) (simp_all add: cs Let_def split_beta)
  next
    case False
    then have none: "(if d = dir then findIndex (isLeafWith p) cs else None) = None"
      using ys' zs' by (auto simp: cs findIndex_None)
    have one: "mapS (\<lambda>x u. splitPaneRecursive x p dir c u) (ys @ z # zs) s
        = (ys @ fst (splitPaneRecursive z p dir c s) # zs, snd (splitPaneRecursive z p dir c s))"
      by (rule mapS_one_child) (use ys zs in \<open>auto simp: splitPane_absent\<close>)
    have "splitPaneRecursive (SplitNode i d cs sz) p dir c s
        = (SplitNode i d (ys @ fst (splitPaneRecursive z p dir c s) # zs) sz,
           snd (splitPaneRecursive z p dir c s))"
      using none by (simp only: splitPaneRecursive.simps option.case one cs Let_def prod.case
          unchanged_split)
    then show thesis by (rule nested [OF cs z ys zs])
  qed
qed

lemma splitPaneRecursive_leaves:
  assumes "distinct (getLeafIds n)" and "p \<in> set (getLeafIds n)"
  shows "getLeafIds (fst (splitPaneRecursive n p dir c s))
       = insert_after p (fst (generateId ''pane'' s)) (getLeafIds n)"
  using assms
proof (induction n)
  case (LeafNode l)
  then show ?case by (simp add: split_beta Let_def)
next
  case (SplitNode i d cs sz)
  from SplitNode.prems show ?case
  proof (cases rule: splitPane_child [of i d cs sz p dir c s])
    case (adjacent ys z zs)
    then show ?thesis
      by (simp add: Let_def insert_after_concat isLeafWith_contains insert_after_append)
  next
    case (nested ys z zs)
    then have "getLeafIds (fst (splitPaneRecursive z p dir c s))
        = insert_after p (fst (generateId ''pane'' s)) (getLeafIds z)"
      using SplitNode by simp
    with nested show ?thesis
      by (simp add: insert_after_append insert_after_append_left del: set_concat)
  qed
qed

lemma splitPaneRecursive_wf:
  "wf_panel n \<Longrightarrow> wf_panel (fst (splitPaneRecursive n p dir c s))"
proof (induction n p dir c s rule: splitPaneRecursive.induct)
  case (1 l p dir c s)
  then show ?case by (simp add: split_beta Let_def)
next
  case (2 i d cs sz p dir c s)
  show ?case
  proof (cases "if d = dir then findIndex (isLeafWith p) cs else None")
    case None
    have all: "list_all wf_panel (fst (mapS (\<lambda>x u. splitPaneRecursive x p dir c u) xs u))"
      if "set xs \<subseteq> set cs" for xs u
      using that "2.IH"(1) [OF None] "2.prems"
      by (induction xs arbitrary: u) (auto simp: split_beta Let_def list_all_iff)
    from all [of cs s] None "2.prems" show ?thesis
      by (simp add: split_beta Let_def length_mapS sizes_ok_length [OF length_mapS])
  next
    case (Some k)
    with "2.prems" show ?thesis
      by (auto simp: split_beta Let_def list_all_iff)
  qed
qed

lemma distinct_replace_middle:
  assumes "distinct (xs @ y @ zs)" and "distinct x"
    and "\<And>e. e \<in> set x \<Longrightarrow> e \<in> set y \<or> (e \<notin> set xs \<and> e \<notin> set zs)"
  shows "distinct (xs @ x @ zs)"
proof -
  have "set xs \<inter> set x = {}" "set x \<inter> set zs = {}" using assms by auto
  with assms show ?thesis by auto
qed

text \<open>Ids after a split: the pane id \<open>a\<close>, and a split id \<open>b\<close> when a wrapper was needed.\<close>

lemma splitPaneRecursive_ids:
  assumes "distinct (panel_ids n)" and "p \<in> set (getLeafIds n)"
    and "a = fst (generateId ''pane'' s)" and "s1 = snd (generateId ''pane'' s)"
    and "b = fst (generateId ''split'' s1)"
    and "a \<noteq> b" and "a \<notin> set (panel_ids n)" and "b \<notin> set (panel_ids n)"
  shows "distinct (panel_ids (fst (splitPaneRecursive n p dir c s))) \<and>
    ((set (panel_ids (fst (splitPaneRecursive n p dir c s))) = insert a (set (panel_ids n)) \<and>
      snd (splitPaneRecursive n p dir c s) = s1) \<or>
     (set (panel_ids (fst (splitPaneRecursive n p dir c s)))
        = insert b (insert a (set (panel_ids n))) \<and>
      snd (splitPaneRecursive n p dir c s) = snd (generateId ''split'' s1)))"
  using assms
proof (induction n)
  case (LeafNode l)
  then show ?case by (simp add: split_beta Let_def) blast
next
  case (SplitNode i d cs sz)
  note a = \<open>a = _\<close> and s1 = \<open>s1 = _\<close>
  from distinct_ids_leaves [OF SplitNode.prems(1)] SplitNode.prems(2) show ?case
  proof (cases rule: splitPane_child [of i d cs sz p dir c s])
    case (adjacent ys z zs)
    with SplitNode.prems show ?thesis by (auto simp: Let_def isLeafWith_iff)
  next
    case (nested ys z zs)
    let ?z = "splitPaneRecursive z p dir c s"
    have z: "distinct (panel_ids z)" "a \<notin> set (panel_ids z)" "b \<notin> set (panel_ids z)"
      using SplitNode.prems nested(1) by auto
    have IH: "distinct (panel_ids (fst ?z)) \<and>
      ((set (panel_ids (fst ?z)) = insert a (set (panel_ids z)) \<and> snd ?z = s1) \<or>
       (set (panel_ids (fst ?z)) = insert b (insert a (set (panel_ids z))) \<and>
        snd ?z = snd (generateId ''split'' s1)))"
      by (rule SplitNode.IH) (use nested z SplitNode.prems in simp_all)
    have apart: "distinct (i # concat (map panel_ids ys) @ x @ concat (map panel_ids zs))"
      if "distinct x" "set x \<subseteq> insert b (insert a (set (panel_ids z)))" for x
    proof -
      have mid: "distinct ((i # concat (map panel_ids ys)) @ panel_ids z @ concat (map panel_ids zs))"
        using SplitNode.prems(1) nested(1) by simp
      have fresh: "a \<notin> set (i # concat (map panel_ids ys))" "b \<notin> set (i # concat (map panel_ids ys))"
        "a \<notin> set (concat (map panel_ids zs))" "b \<notin> set (concat (map panel_ids zs))"
        using SplitNode.prems(7,8) nested(1) by auto
      have "distinct ((i # concat (map panel_ids ys)) @ x @ concat (map panel_ids zs))"
      proof (rule distinct_replace_middle [OF mid that(1)])
        fix e
        assume "e \<in> set x"
        then have "e = b \<or> e = a \<or> e \<in> set (panel_ids z)" using that(2) by blast
        then show "e \<in> set (panel_ids z) \<or>
            (e \<notin> set (i # concat (map panel_ids ys)) \<and> e \<notin> set (concat (map panel_ids zs)))"
          using fresh by blast
      qed
      then show ?thesis by simp
    qed
    let ?n = "splitPaneRecursive (SplitNode i d cs sz) p dir c s"
    let ?X = "insert i (set (concat (map panel_ids ys)) \<union> set (concat (map panel_ids zs)))"
    have snd: "snd ?n = snd ?z" and ids: "set (panel_ids (fst ?n)) = ?X \<union> set (panel_ids (fst ?z))"
      and old: "set (panel_ids (SplitNode i d cs sz)) = ?X \<union> set (panel_ids z)"
      using nested(1,5) by auto
    have sub: "set (panel_ids (fst ?z)) \<subseteq> insert b (insert a (set (panel_ids z)))"
      using IH by blast
    have "panel_ids (fst ?n)
        = i # concat (map panel_ids ys) @ panel_ids (fst ?z) @ concat (map panel_ids zs)"
      unfolding nested(5) by simp
    then have "distinct (panel_ids (fst ?n))"
      using apart [OF conjunct1 [OF IH] sub] by (simp only:)
    then show ?thesis
      using IH unfolding snd ids old by auto
  qed
qed

text \<open>With a generator that never repeats an id, the ids stay unique and settled.\<close>

lemma splitPane_ids:
  assumes "distinct (panel_ids n)" and "p \<in> set (getLeafIds n)"
    and "dash_free s" and "settled s (set (panel_ids n))"
  shows "distinct (panel_ids (fst (splitPaneRecursive n p dir c s))) \<and>
    settled (snd (splitPaneRecursive n p dir c s)) (set (panel_ids (fst (splitPaneRecursive n p dir c s))))"
proof -
  let ?s1 = "snd (generateId ''pane'' s)"
  let ?a = "fst (generateId ''pane'' s)" and ?b = "fst (generateId ''split'' ?s1)"
  have s1: "settled ?s1 (insert ?a (set (panel_ids n)))" "dash_free ?s1"
    using settled_insert [OF assms(3,4)] assms(3) by simp_all
  have b: "?b \<notin> insert ?a (set (panel_ids n))" by (rule settled_fresh [OF s1(1)])
  have a: "?a \<notin> set (panel_ids n)" by (rule settled_fresh [OF assms(4)])
  have s2: "settled (snd (generateId ''split'' ?s1)) (insert ?b (insert ?a (set (panel_ids n))))"
    by (rule settled_insert [OF s1(2,1)])
  have ab: "?a \<noteq> ?b" and b': "?b \<notin> set (panel_ids n)" using b by auto
  from splitPaneRecursive_ids [OF assms(1,2) refl refl refl ab a b', of dir c] s1(1) s2
  show ?thesis by (elim conjE disjE) simp_all
qed

section \<open>Appending\<close>

lemma appendPane_leaves:
  "getLeafIds (fst (appendPane n dir c s)) = getLeafIds n @ [fst (generateId ''pane'' s)]"
  by (cases n) (simp_all add: appendPane_def split_beta Let_def)

lemma appendPane_wf: "wf_panel n \<Longrightarrow> wf_panel (fst (appendPane n dir c s))"
  by (cases n) (auto simp: appendPane_def split_beta Let_def simp flip: length_append_singleton)

section \<open>Closing\<close>

definition opt_leaf_ids :: "panel_node option \<Rightarrow> string list" where
  "opt_leaf_ids r = (case r of None \<Rightarrow> [] | Some n \<Rightarrow> getLeafIds n)"

lemma opt_leaf_ids_simps [simp]:
  "opt_leaf_ids None = []" "opt_leaf_ids (Some n) = getLeafIds n"
  by (simp_all add: opt_leaf_ids_def)

lemma collapseChildren_simps:
  "collapseChildren i d [] = None"
  "collapseChildren i d [n] = Some n"
  "collapseChildren i d (n # m # cs)
     = Some (SplitNode i d (n # m # cs) (equal_sizes (length (n # m # cs))))"
  by (simp_all add: collapseChildren_def)

lemma collapseChildren_leaves:
  "opt_leaf_ids (collapseChildren i d cs) = concat (map getLeafIds cs)"
  by (auto simp: collapseChildren_def split: list.splits)

lemma collapseChildren_wf:
  "list_all wf_panel cs \<Longrightarrow> collapseChildren i d cs = Some n \<Longrightarrow> wf_panel n"
  by (auto simp: collapseChildren_def split: list.splits)

definition close_child :: "string \<Rightarrow> panel_node \<Rightarrow> panel_node option" where
  "close_child p n = (case n of SplitNode _ _ _ _ \<Rightarrow> closePane n p | LeafNode _ \<Rightarrow> Some n)"

lemma closePane_split:
  "closePane (SplitNode i d cs sz) p =
     (case findIndex (isLeafWith p) cs of
        Some k \<Rightarrow> collapseChildren i d (splice_remove k cs)
      | None \<Rightarrow>
          (if map (close_child p) cs = map Some cs then Some (SplitNode i d cs sz)
           else collapseChildren i d (List.map_filter (close_child p) cs)))"
  by (simp only: closePane.simps close_child_def [abs_def] Let_def map_filter_id_map)

declare closePane.simps(2) [simp del]

lemma close_child_leaf [simp]: "close_child p (LeafNode l) = Some (LeafNode l)"
  by (simp add: close_child_def)

lemma close_child_split [simp]: "close_child p (SplitNode i d cs sz) = closePane (SplitNode i d cs sz) p"
  by (simp add: close_child_def)

lemma closePane_absent: "p \<notin> set (getLeafIds n) \<Longrightarrow> closePane n p = Some n"
proof (induction n)
  case (LeafNode l)
  then show ?case by simp
next
  case (SplitNode i d cs sz)
  have none: "findIndex (isLeafWith p) cs = None"
    using SplitNode.prems by (auto simp: findIndex_None dest!: isLeafWith_contains)
  have "close_child p x = Some x" if "x \<in> set cs" for x
  proof -
    have "closePane x p = Some x"
      by (rule SplitNode.IH) (use that SplitNode.prems in auto)
    then show ?thesis by (cases x) simp_all
  qed
  with none show ?case by (simp add: closePane_split)
qed

lemma length_opt_leaf_ids_filter:
  "length (concat (map getLeafIds (List.map_filter f cs)))
     = sum_list (map (\<lambda>x. length (opt_leaf_ids (f x))) cs)"
  by (induction cs) (auto simp: List.map_filter_simps split: option.splits)

lemma sum_list_strict_less:
  fixes f g :: "'a \<Rightarrow> nat"
  assumes "\<And>x. x \<in> set xs \<Longrightarrow> f x \<le> g x" and "y \<in> set xs" and "f y < g y"
  shows "sum_list (map f xs) < sum_list (map g xs)"
proof -
  obtain ys zs where "xs = ys @ y # zs" using assms(2) by (meson split_list)
  moreover have "sum_list (map f ys) \<le> sum_list (map g ys)"
    and "sum_list (map f zs) \<le> sum_list (map g zs)"
    using assms(1) calculation by (auto intro!: sum_list_mono)
  ultimately show ?thesis using assms(3) by simp
qed

lemma close_child_absent: "p \<notin> set (getLeafIds n) \<Longrightarrow> close_child p n = Some n"
  using closePane_absent [of p n] by (cases n) simp_all

lemma close_child_eq: "\<not> isLeafWith p n \<Longrightarrow> close_child p n = closePane n p"
  by (cases n) simp_all

lemma close_child_SomeD: "close_child p n = Some m \<Longrightarrow> m = n \<or> closePane n p = Some m"
  by (cases n) simp_all

lemma close_child_fewer:
  assumes "\<not> isLeafWith p n" and "p \<in> set (getLeafIds n)"
    and "length (opt_leaf_ids (closePane n p)) < length (getLeafIds n)"
  shows "length (opt_leaf_ids (close_child p n)) < length (getLeafIds n)"
  using assms by (simp add: close_child_eq)

lemma closePane_fewer:
  "p \<in> set (getLeafIds n) \<Longrightarrow> length (opt_leaf_ids (closePane n p)) < length (getLeafIds n)"
proof (induction n)
  case (LeafNode l)
  then show ?case by simp
next
  case (SplitNode i d cs sz)
  show ?case
  proof (cases "findIndex (isLeafWith p) cs")
    case (Some k)
    then obtain ys z zs where "cs = ys @ z # zs" "length ys = k" "isLeafWith p z"
      by (rule findIndex_split)
    with Some show ?thesis
      by (auto simp: closePane_split collapseChildren_leaves dest: isLeafWith_contains)
  next
    case None
    have fewer: "length (opt_leaf_ids (close_child p x)) < length (getLeafIds x)"
      if "x \<in> set cs" "p \<in> set (getLeafIds x)" for x
      by (rule close_child_fewer [OF no_leaf_child [OF None that(1)] that(2)
            SplitNode.IH [OF that]])
    have same: "close_child p x = Some x" if "p \<notin> set (getLeafIds x)" for x
      using that by (rule close_child_absent)
    from SplitNode.prems obtain y where y: "y \<in> set cs" "p \<in> set (getLeafIds y)" by auto
    have "close_child p y \<noteq> Some y" using fewer [OF y] by auto
    with y(1) have ne: "map (close_child p) cs \<noteq> map Some cs" by auto
    have "sum_list (map (\<lambda>x. length (opt_leaf_ids (close_child p x))) cs)
        < sum_list (map (\<lambda>x. length (getLeafIds x)) cs)"
    proof (rule sum_list_strict_less [OF _ y(1)])
      fix x assume "x \<in> set cs"
      then show "length (opt_leaf_ids (close_child p x)) \<le> length (getLeafIds x)"
        using fewer [of x] same [of x] by (cases "p \<in> set (getLeafIds x)") auto
    qed (use fewer [OF y] in simp)
    then have "length (concat (map getLeafIds (List.map_filter (close_child p) cs)))
        < length (getLeafIds (SplitNode i d cs sz))"
      unfolding length_opt_leaf_ids_filter by (simp add: length_concat comp_def)
    with None ne show ?thesis
      by (simp add: closePane_split collapseChildren_leaves del: map_eq_conv)
  qed
qed

lemma closePane_unchanged: "closePane n p = Some n \<longleftrightarrow> \<not> containsPane n p"
  using closePane_fewer [of p n] closePane_absent [of p n] by (auto simp: containsPane_iff)

text \<open>One step of a close: the pane is a direct child, or exactly one child holds it.\<close>

lemma no_leaf_with: "p \<notin> set (concat (map getLeafIds cs)) \<Longrightarrow> \<forall>c\<in>set cs. \<not> isLeafWith p c"
  by (auto dest!: isLeafWith_contains)

lemma closePane_direct:
  assumes "isLeafWith p z" and "p \<notin> set (concat (map getLeafIds ys))"
  shows "closePane (SplitNode i d (ys @ z # zs) sz) p = collapseChildren i d (ys @ zs)"
  using findIndex_append [OF no_leaf_with [OF assms(2)], of z zs] assms(1)
  by (simp add: closePane_split)

lemma map_filter_append:
  "List.map_filter f (xs @ ys) = List.map_filter f xs @ List.map_filter f ys"
  by (induction xs) (auto simp: List.map_filter_simps split: option.splits)

lemma map_filter_close_absent:
  "p \<notin> set (concat (map getLeafIds cs)) \<Longrightarrow> List.map_filter (close_child p) cs = cs"
  by (induction cs) (auto simp: List.map_filter_simps close_child_absent)

lemma closePane_nested:
  assumes "p \<in> set (getLeafIds z)" and "\<not> isLeafWith p z"
    and "p \<notin> set (concat (map getLeafIds ys))" and "p \<notin> set (concat (map getLeafIds zs))"
  shows "closePane (SplitNode i d (ys @ z # zs) sz) p
       = collapseChildren i d (ys @ (case closePane z p of None \<Rightarrow> [] | Some z' \<Rightarrow> [z']) @ zs)"
proof -
  have none: "findIndex (isLeafWith p) (ys @ z # zs) = None"
    using assms(2) no_leaf_with [OF assms(3)] no_leaf_with [OF assms(4)]
    by (auto simp: findIndex_None)
  have ne: "closePane z p \<noteq> Some z"
    using closePane_unchanged [of z p] assms(1) by (simp add: containsPane_iff)
  show ?thesis
    using none ne assms(2) map_filter_close_absent [OF assms(3)]
      map_filter_close_absent [OF assms(4)]
    by (simp add: closePane_split map_filter_append List.map_filter_simps close_child_eq
        split: option.splits)
qed

lemma closePane_child:
  assumes "distinct (getLeafIds (SplitNode i d cs sz))"
    and "p \<in> set (getLeafIds (SplitNode i d cs sz))"
  obtains
    (direct) ys z zs where "cs = ys @ z # zs" "isLeafWith p z"
      "p \<notin> set (concat (map getLeafIds ys))" "p \<notin> set (concat (map getLeafIds zs))"
      "closePane (SplitNode i d cs sz) p = collapseChildren i d (ys @ zs)"
  | (nested) ys z zs where "cs = ys @ z # zs" "p \<in> set (getLeafIds z)" "\<not> isLeafWith p z"
      "p \<notin> set (concat (map getLeafIds ys))" "p \<notin> set (concat (map getLeafIds zs))"
      "closePane (SplitNode i d cs sz) p
        = collapseChildren i d (ys @ (case closePane z p of None \<Rightarrow> [] | Some z' \<Rightarrow> [z']) @ zs)"
proof -
  from assms obtain ys z zs where cs: "cs = ys @ z # zs" and z: "p \<in> set (getLeafIds z)"
    and ys: "p \<notin> set (concat (map getLeafIds ys))"
    and zs: "p \<notin> set (concat (map getLeafIds zs))"
    using child_with_leaf [of p cs] by auto
  show thesis
  proof (cases "isLeafWith p z")
    case True
    then show thesis
      using closePane_direct [OF True ys] by (intro direct [OF cs _ ys zs]) (simp_all add: cs)
  next
    case False
    then show thesis
      using closePane_nested [OF z False ys zs]
      by (intro nested [OF cs z _ ys zs]) (simp_all add: cs)
  qed
qed

lemma closePane_leaves:
  "distinct (getLeafIds n) \<Longrightarrow> opt_leaf_ids (closePane n p) = remove1 p (getLeafIds n)"
proof (induction n)
  case (LeafNode l)
  then show ?case by simp
next
  case (SplitNode i d cs sz)
  show ?case
  proof (cases "p \<in> set (getLeafIds (SplitNode i d cs sz))")
    case False
    then show ?thesis by (simp add: closePane_absent remove1_idem del: getLeafIds.simps)
  next
    case True
    with SplitNode.prems show ?thesis
    proof (cases rule: closePane_child)
      case (direct ys z zs)
      then show ?thesis
        by (simp add: collapseChildren_leaves isLeafWith_contains remove1_append del: set_concat)
    next
      case (nested ys z zs)
      then have "opt_leaf_ids (closePane z p) = remove1 p (getLeafIds z)"
        using SplitNode by simp
      then have "concat (map getLeafIds (case closePane z p of None \<Rightarrow> [] | Some z' \<Rightarrow> [z']))
          = remove1 p (getLeafIds z)"
        by (cases "closePane z p") simp_all
      with nested show ?thesis
        by (simp add: collapseChildren_leaves remove1_append del: set_concat)
    qed
  qed
qed

lemma closePane_wf: "wf_panel n \<Longrightarrow> closePane n p = Some n' \<Longrightarrow> wf_panel n'"
proof (induction n arbitrary: n')
  case (LeafNode l)
  then show ?case by (auto split: if_splits)
next
  case (SplitNode i d cs sz)
  have kids: "list_all wf_panel cs" using SplitNode.prems(1) by simp
  show ?case
  proof (cases "findIndex (isLeafWith p) cs")
    case (Some k)
    have "list_all wf_panel (splice_remove k cs)"
      using kids set_splice_remove by (fastforce simp: list_all_iff)
    with Some SplitNode.prems(2) show ?thesis
      by (auto simp: closePane_split dest: collapseChildren_wf)
  next
    case None
    have "wf_panel y" if "x \<in> set cs" "close_child p x = Some y" for x y
      using close_child_SomeD [OF that(2)] SplitNode.IH [OF that(1), of y] kids that(1)
      by (metis list_all_iff)
    then have "list_all wf_panel (List.map_filter (close_child p) cs)"
      by (auto simp: list_all_iff map_filter_def)
    with None SplitNode.prems show ?thesis
      by (auto simp: closePane_split dest: collapseChildren_wf split: if_splits)
  qed
qed

definition opt_ids :: "panel_node option \<Rightarrow> string list" where
  "opt_ids r = (case r of None \<Rightarrow> [] | Some n \<Rightarrow> panel_ids n)"

lemma collapseChildren_ids:
  "subseq (opt_ids (collapseChildren i d cs)) (i # concat (map panel_ids cs))"
  by (auto simp: collapseChildren_def opt_ids_def split: list.splits)

lemma closePane_ids: "subseq (opt_ids (closePane n p)) (panel_ids n)"
proof (induction n)
  case (LeafNode l)
  then show ?case by (simp add: opt_ids_def)
next
  case (SplitNode i d cs sz)
  show ?case
  proof (cases "findIndex (isLeafWith p) cs")
    case (Some k)
    then obtain ys z zs where cs: "cs = ys @ z # zs" and k: "length ys = k"
      by (rule findIndex_split)
    have "subseq (concat (map panel_ids (ys @ zs))) (concat (map panel_ids cs))"
      by (simp add: cs list_emb_append_mono subseq_drop_many)
    then have "subseq (i # concat (map panel_ids (ys @ zs))) (panel_ids (SplitNode i d cs sz))"
      by simp
    moreover have "closePane (SplitNode i d cs sz) p = collapseChildren i d (ys @ zs)"
      using Some by (simp add: closePane_split cs k [symmetric])
    ultimately show ?thesis
      using subseq_order.trans [OF collapseChildren_ids] by metis
  next
    case None
    have kid: "subseq (opt_ids (close_child p x)) (panel_ids x)" if "x \<in> set cs" for x
      using SplitNode.IH [OF that] by (cases x) (simp_all add: opt_ids_def)
    have "subseq (concat (map panel_ids (List.map_filter (close_child p) xs)))
        (concat (map panel_ids xs))" if "set xs \<subseteq> set cs" for xs
      using that kid
    proof (induction xs)
      case Nil
      then show ?case by (simp add: List.map_filter_simps)
    next
      case (Cons x xs)
      then have "subseq (opt_ids (close_child p x)) (panel_ids x)" by simp
      with Cons have "subseq
          (opt_ids (close_child p x) @ concat (map panel_ids (List.map_filter (close_child p) xs)))
          (panel_ids x @ concat (map panel_ids xs))"
        by (intro list_emb_append_mono) simp_all
      then show ?case
        by (simp add: List.map_filter_simps opt_ids_def split: option.splits)
    qed
    then have "subseq (i # concat (map panel_ids (List.map_filter (close_child p) cs)))
        (panel_ids (SplitNode i d cs sz))" by simp
    then show ?thesis
      using None subseq_order.trans [OF collapseChildren_ids]
      by (auto simp: closePane_split opt_ids_def simp del: panel_ids.simps)
  qed
qed

lemma closePane_distinct_ids:
  assumes "distinct (panel_ids n)" and "closePane n p = Some n'"
  shows "distinct (panel_ids n') \<and> set (panel_ids n') \<subseteq> set (panel_ids n)"
proof -
  have sub: "subseq (panel_ids n') (panel_ids n)"
    using closePane_ids [of n p] assms(2) by (simp add: opt_ids_def)
  then obtain N where "panel_ids n' = nths (panel_ids n) N" by (auto simp: subseq_conv_nths)
  with assms(1) show ?thesis by (auto simp: distinct_nthsI dest: in_set_nthsD)
qed

section \<open>Round trip: closing the pane a split created\<close>

text \<open>The tree without its sizes: what a split followed by a close must restore.\<close>

fun panel_shape :: "panel_node \<Rightarrow> panel_node" where
  "panel_shape (LeafNode l) = LeafNode l"
| "panel_shape (SplitNode i d cs sz) = SplitNode i d (map panel_shape cs) []"

lemma panel_shape_leaves: "panel_leaves (panel_shape n) = panel_leaves n"
  by (induction n) (simp_all add: comp_def cong: map_cong)

lemma splitPane_not_leaf:
  assumes "distinct (getLeafIds n)" and "p \<in> set (getLeafIds n)"
  shows "\<not> isLeafWith q (fst (splitPaneRecursive n p dir c s))"
proof (cases n)
  case (LeafNode l)
  with assms show ?thesis by (simp add: split_beta Let_def)
next
  case (SplitNode i d cs sz)
  from assms [unfolded SplitNode] show ?thesis unfolding SplitNode
    by (cases rule: splitPane_child [of i d cs sz p dir c s]) (auto simp: Let_def)
qed

lemma collapseChildren_many:
  "2 \<le> length cs \<Longrightarrow>
     collapseChildren i d cs = Some (SplitNode i d cs (equal_sizes (length cs)))"
  by (auto simp: collapseChildren_def numeral_2_eq_2 split: list.splits)

lemma split_close_shape:
  assumes "wf_panel n" and "distinct (getLeafIds n)" and "p \<in> set (getLeafIds n)"
    and "a = fst (generateId ''pane'' s)" and "a \<notin> set (getLeafIds n)"
  shows "\<exists>n'. closePane (fst (splitPaneRecursive n p dir c s)) a = Some n' \<and>
              panel_shape n' = panel_shape n"
  using assms
proof (induction n)
  case (LeafNode l)
  then show ?case
    by (auto simp: split_beta Let_def closePane_split splice_remove_def collapseChildren_simps)
next
  case (SplitNode i d cs sz)
  note a = SplitNode.prems(4)
  from SplitNode.prems(2,3) show ?case
  proof (cases rule: splitPane_child [of i d cs sz p dir c s])
    case (adjacent ys z zs)
    let ?new = "LeafNode (fst (createSiblingPane z c s))"
    have "isLeafWith a ?new" by (simp add: a)
    moreover have "a \<notin> set (concat (map getLeafIds (ys @ [z])))"
      using SplitNode.prems(5) adjacent(1) by auto
    ultimately have "closePane (SplitNode i d ((ys @ [z]) @ ?new # zs) sz') a
        = collapseChildren i d (ys @ z # zs)" for sz'
      using closePane_direct [of a ?new "ys @ [z]" i d zs sz'] by simp
    then show ?thesis
      using adjacent SplitNode.prems(1) by (simp add: Let_def collapseChildren_many)
  next
    case (nested ys z zs)
    let ?z = "fst (splitPaneRecursive z p dir c s)"
    have z: "wf_panel z" "distinct (getLeafIds z)" "a \<notin> set (getLeafIds z)"
      and out: "a \<notin> set (concat (map getLeafIds ys))" "a \<notin> set (concat (map getLeafIds zs))"
      using SplitNode.prems nested(1) by auto
    obtain z' where z': "closePane ?z a = Some z'" "panel_shape z' = panel_shape z"
      using SplitNode.IH [of z] nested(1,2) z a by auto
    have "a \<in> set (getLeafIds ?z)"
      using splitPaneRecursive_leaves [OF z(2) nested(2)] set_insert_after [OF nested(2)]
      by (simp add: a)
    then have "closePane (SplitNode i d (ys @ ?z # zs) sz) a = collapseChildren i d (ys @ z' # zs)"
      using closePane_nested [OF _ splitPane_not_leaf [OF z(2) nested(2)] out] z'(1) by simp
    then show ?thesis
      using nested(1,5) z'(2) SplitNode.prems(1) by (simp add: collapseChildren_many)
  qed
qed

section \<open>Focus after a close\<close>

lemma findSiblingPaneId_member: "findSiblingPaneId n p = Some q \<Longrightarrow> q \<in> set (getLeafIds n)"
proof (induction n)
  case (LeafNode l)
  then show ?case by simp
next
  case (SplitNode i d cs sz)
  show ?case
  proof (cases "findIndex (isLeafWith p) cs")
    case None
    with SplitNode show ?thesis by (fastforce dest!: first_truthy_Some)
  next
    case (Some k)
    with SplitNode.prems obtain x where "x \<in> set cs" "getFirstLeafId x = Some q"
      by (auto simp: or_else_def dest: js_nth_Some split: option.splits)
    then show ?thesis using getFirstLeafId_Some by auto
  qed
qed

lemma findSiblingPaneId_absent: "p \<notin> set (getLeafIds n) \<Longrightarrow> findSiblingPaneId n p = None"
proof (induction n)
  case (LeafNode l)
  then show ?case by simp
next
  case (SplitNode i d cs sz)
  then have "findIndex (isLeafWith p) cs = None"
    by (auto simp: findIndex_None dest!: isLeafWith_contains)
  with SplitNode show ?case by (auto simp: first_truthy_None)
qed

lemma first_truthy_only:
  assumes "\<And>x. x \<in> set ys \<Longrightarrow> f x = None" and "truthy (f z)"
  shows "first_truthy f (ys @ z # zs) = f z"
  using assms by (induction ys) auto

lemma neighbour_exists:
  assumes "k < length cs" and "2 \<le> length cs"
  obtains m where "m < length cs" "m \<noteq> k"
    "or_else (js_nth cs (int k + 1)) (js_nth cs (int k - 1)) = Some (cs ! m)"
proof (cases "Suc k < length cs")
  case True
  then show thesis
    by (intro that [of "Suc k"]) (auto simp: or_else_def js_nth_def nat_add_distrib)
next
  case False
  with assms show thesis
    by (intro that [of "k - 1"]) (auto simp: or_else_def js_nth_def nat_diff_distrib)
qed

lemma findSiblingPaneId_ok:
  assumes "wf_panel n" and "distinct (getLeafIds n)" and "[] \<notin> set (getLeafIds n)"
    and "p \<in> set (getLeafIds n)" and "\<not> isLeafWith p n"
  shows "\<exists>q. findSiblingPaneId n p = Some q \<and> q \<noteq> [] \<and> q \<noteq> p \<and> q \<in> set (getLeafIds n)"
  using assms
proof (induction n)
  case (LeafNode l)
  then show ?case by simp
next
  case (SplitNode i d cs sz)
  show ?case
  proof (cases "findIndex (isLeafWith p) cs")
    case (Some k)
    have k: "k < length cs" "isLeafWith p (cs ! k)" using findIndex_SomeD [OF Some] by auto
    obtain m where m: "m < length cs" "m \<noteq> k"
      and sib: "or_else (js_nth cs (int k + 1)) (js_nth cs (int k - 1)) = Some (cs ! m)"
      using neighbour_exists [OF k(1)] SplitNode.prems(1) by auto
    have wf: "wf_panel (cs ! m)" "[] \<notin> set (getLeafIds (cs ! m))"
      using SplitNode.prems m(1) by (auto simp: list_all_length)
    let ?q = "hd (getLeafIds (cs ! m))"
    have q: "getFirstLeafId (cs ! m) = Some ?q" "?q \<in> set (getLeafIds (cs ! m))"
      using getFirstLeafId_hd [OF wf] wf_panel_leaf [OF wf(1)] by auto
    have "set (getLeafIds (cs ! m)) \<inter> set (getLeafIds (cs ! k)) = {}"
      using distinct_concat_map_nth [of getLeafIds cs m k] SplitNode.prems(2) m k(1) by simp
    then have "?q \<noteq> p" using q(2) isLeafWith_contains [OF k(2)] by auto
    moreover have "?q \<in> set (getLeafIds (SplitNode i d cs sz))" using q(2) m(1) by auto
    moreover have "?q \<noteq> []" using q(2) wf(2) by metis
    ultimately show ?thesis using Some sib q(1) by simp
  next
    case None
    obtain ys z zs where cs: "cs = ys @ z # zs"
      and z: "p \<in> set (getLeafIds z)" and ys: "p \<notin> set (concat (map getLeafIds ys))"
      using SplitNode.prems(2,4) unfolding getLeafIds.simps by (elim child_with_leaf) blast
    have "\<not> isLeafWith p z" using no_leaf_child [OF None, of z] cs by simp
    then obtain q where q: "findSiblingPaneId z p = Some q" "q \<noteq> []" "q \<noteq> p"
      "q \<in> set (getLeafIds z)"
      using SplitNode.IH [of z] SplitNode.prems z cs by auto
    have "first_truthy (\<lambda>c. findSiblingPaneId c p) cs = Some q"
      unfolding cs using first_truthy_only [of ys "\<lambda>c. findSiblingPaneId c p" z zs] ys q
      by (auto simp: findSiblingPaneId_absent)
    with None q cs show ?thesis by auto
  qed
qed

section \<open>Assigning a terminal\<close>

lemma assignTerminal_leaves:
  "panel_leaves (assignTerminal n p t cmd)
     = map (\<lambda>l. if leaf_id l = p then l\<lparr>leaf_terminalId := Some t, leaf_command := cmd\<rparr> else l)
         (panel_leaves n)"
  by (induction n) (simp_all add: Let_def map_concat comp_def cong: map_cong)

lemma assignTerminal_wf: "wf_panel n \<Longrightarrow> wf_panel (assignTerminal n p t cmd)"
  by (induction n) (auto simp: Let_def list_all_iff sizes_ok_def)

lemma assignTerminal_ids: "panel_ids (assignTerminal n p t cmd) = panel_ids n"
  by (induction n) (simp_all add: Let_def comp_def cong: map_cong)

lemma updateLeafType_leaves:
  "panel_leaves (updateLeafType n p ty)
     = map (\<lambda>l. if leaf_id l = p then l\<lparr>leaf_paneType := ty\<rparr> else l) (panel_leaves n)"
  by (induction n) (simp_all add: Let_def map_concat comp_def cong: map_cong)

lemma updateLeafType_ids: "panel_ids (updateLeafType n p ty) = panel_ids n"
  by (induction n) (simp_all add: Let_def comp_def cong: map_cong)

end
