(* ===== verification/Panel_Nav.thy ===== *)
theory Panel_Nav
  imports Panel_Edit
begin

text \<open>
  Directional navigation and keyboard resizing of panel trees. Navigation in the source walks
  a root-to-pane path upwards; the theory gives a structurally recursive reference, shows that
  the two agree on trees with unique non-empty ids, and reads off where the focus can land.
  Resizing moves \<open>RESIZE_STEP\<close> points between two neighbours of one split.
\<close>

section \<open>Paths\<close>

lemma buildPath_None: "buildPath n t = None \<longleftrightarrow> t \<notin> set (panel_ids n)"
proof (induction n)
  case (LeafNode l)
  then show ?case by auto
next
  case (SplitNode i d cs sz)
  then show ?case by (auto simp: first_some_None)
qed

lemma buildPath_hd: "buildPath n t = Some path \<Longrightarrow> \<exists>rest. path = n # rest"
  by (cases n) (auto split: if_splits)

lemma first_some_only:
  assumes "\<And>x. x \<in> set ys \<Longrightarrow> f x = None" and "f z = Some v"
  shows "first_some f (ys @ z # zs) = Some v"
  using assms by (induction ys) auto

text \<open>In a tree with unique ids the path to a leaf goes through the one child that holds it.\<close>

lemma buildPath_child:
  assumes "distinct (panel_ids (SplitNode i d cs sz))" and "a \<in> set (getLeafIds (SplitNode i d cs sz))"
  obtains ys z zs rest where "cs = ys @ z # zs" "a \<in> set (getLeafIds z)"
    "buildPath z a = Some (z # rest)"
    "buildPath (SplitNode i d cs sz) a = Some (SplitNode i d cs sz # z # rest)"
    "findIndex (\<lambda>c. panel_node_id c = panel_node_id z) cs = Some (length ys)"
    "findIndex (\<lambda>c. a \<in> set (getLeafIds c)) cs = Some (length ys)"
proof -
  from assms obtain ys z zs where cs: "cs = ys @ z # zs" and z: "a \<in> set (getLeafIds z)"
    by (auto dest: split_list)
  have az: "a \<in> set (panel_ids z)" using z getLeafIds_subset_ids by blast
  have ny: "a \<notin> set (panel_ids y)" "panel_node_id y \<noteq> panel_node_id z" if "y \<in> set ys" for y
    using that assms(1) az panel_node_id_in_ids [of y] panel_node_id_in_ids [of z]
    by (auto simp: cs)
  have "i \<noteq> a" using assms(1) az by (auto simp: cs)
  obtain path where path: "buildPath z a = Some path"
    using az buildPath_None [of z a] by auto
  then obtain rest where rest: "path = z # rest" using buildPath_hd by blast
  have "first_some (\<lambda>c. buildPath c a) cs = Some (z # rest)"
    unfolding cs using ny(1) path rest by (intro first_some_only) (simp_all add: buildPath_None)
  then have "buildPath (SplitNode i d cs sz) a = Some (SplitNode i d cs sz # z # rest)"
    using \<open>i \<noteq> a\<close> by simp
  moreover have "findIndex (\<lambda>c. panel_node_id c = panel_node_id z) cs = Some (length ys)"
    unfolding cs using ny(2) by (intro findIndex_append) auto
  moreover have "findIndex (\<lambda>c. a \<in> set (getLeafIds c)) cs = Some (length ys)"
    unfolding cs using ny(1) z getLeafIds_subset_ids by (intro findIndex_append) blast+
  ultimately show thesis using that cs z path rest by simp
qed

section \<open>Navigation\<close>

definition navigate_path :: "panel_node list \<Rightarrow> split_direction \<Rightarrow> int \<Rightarrow> string option" where
  "navigate_path path orientation delta =
     first_truthy (\<lambda>i. tryNavigateAtAncestor path i orientation delta)
       (rev [0..<length path - 1])"

lemma findPaneInDirection_path:
  "buildPath n a = Some path \<Longrightarrow>
     findPaneInDirection n a dir = navigate_path path (nav_orientation dir) (nav_delta dir)"
  by (cases path; cases "tl path")
    (auto simp: findPaneInDirection_def navigate_path_def)

lemma first_truthy_append:
  "first_truthy f (xs @ ys)
     = (if truthy (first_truthy f xs) then first_truthy f xs else first_truthy f ys)"
proof (induction xs)
  case Nil
  then show ?case by simp
next
  case (Cons x xs)
  then show ?case by auto
qed

lemma first_truthy_map: "first_truthy f (map g xs) = first_truthy (\<lambda>x. f (g x)) xs"
  by (induction xs) auto

lemma js_nth_Cons_Suc: "js_nth (x # xs) (int (Suc i)) = js_nth xs (int i)"
  by (simp only: js_nth_of_nat) simp

lemma tryNavigate_shift:
  "tryNavigateAtAncestor (x # path) (Suc i) o' delta = tryNavigateAtAncestor path i o' delta"
proof -
  have "int (Suc i) + 1 = int (Suc (Suc i))" "int i + 1 = int (Suc i)" by simp_all
  then show ?thesis
    unfolding tryNavigateAtAncestor_def by (simp only: js_nth_Cons_Suc)
qed

lemma rev_upt_Suc: "rev [0..<Suc m] = map Suc (rev [0..<m]) @ [0]"
  by (simp add: upt_conv_Cons rev_map map_Suc_upt [symmetric] del: upt_Suc)

lemma navigate_path_Cons:
  "navigate_path (x # y # ys) o' delta =
     (if truthy (navigate_path (y # ys) o' delta) then navigate_path (y # ys) o' delta
      else if truthy (tryNavigateAtAncestor (x # y # ys) 0 o' delta)
           then tryNavigateAtAncestor (x # y # ys) 0 o' delta else None)"
  by (simp add: navigate_path_def rev_upt_Suc first_truthy_append first_truthy_map
      tryNavigate_shift del: upt_Suc)

text \<open>
  The reference: ask the child that holds the pane first; where it has no answer, and this
  split has the right orientation, enter the neighbouring child at its near edge.
\<close>

function nav_ref ::
    "panel_node \<Rightarrow> string \<Rightarrow> split_direction \<Rightarrow> int \<Rightarrow> string option" where
  "nav_ref (LeafNode l) a orientation delta = None"
| "nav_ref (SplitNode i d cs sz) a orientation delta =
     (case findIndex (\<lambda>c. a \<in> set (getLeafIds c)) cs of
        None \<Rightarrow> None
      | Some k \<Rightarrow>
          (case nav_ref (cs ! k) a orientation delta of
             Some q \<Rightarrow> Some q
           | None \<Rightarrow>
               if d = orientation then
                 map_option (\<lambda>neighbor. panel_node_id
                     (getEdgeLeaf neighbor (if 0 < delta then FirstEdge else LastEdge)))
                   (js_nth cs (int k + delta))
               else None))"
  by pat_completeness auto
termination
  by (relation "measure (\<lambda>(n, _). size n)")
    (auto dest!: findIndex_SomeD(1) intro!: size_list_estimation' [of "_ ! _"] simp: less_Suc_eq_le
      intro: trans_le_add1)

lemma getEdgeLeaf_id: "panel_node_id (getEdgeLeaf n e) \<in> set (panel_ids n)"
proof (induction n e rule: getEdgeLeaf.induct)
  case (1 l e)
  then show ?case by simp
next
  case (2 i d cs sz e)
  show ?case
  proof (cases "if e = FirstEdge then js_nth cs 0 else js_last cs")
    case None
    then show ?thesis by (simp del: js_nth_0)
  next
    case (Some child)
    then have "child \<in> set cs" by (auto split: if_splits dest: js_nth_Some js_last_Some simp del: js_nth_0)
    with 2 [OF Some] Some show ?thesis by (auto simp del: js_nth_0)
  qed
qed

lemma nav_ref_id: "nav_ref n a o' delta = Some q \<Longrightarrow> q \<in> set (panel_ids n)"
proof (induction n a o' delta rule: nav_ref.induct)
  case (1 l a o' delta)
  then show ?case by simp
next
  case (2 i d cs sz a o' delta)
  from "2.prems" obtain k where k: "findIndex (\<lambda>c. a \<in> set (getLeafIds c)) cs = Some k"
    by (auto split: option.splits)
  show ?case
  proof (cases "nav_ref (cs ! k) a o' delta")
    case (Some q')
    with 2 k have "q \<in> set (panel_ids (cs ! k))" by simp
    then show ?thesis using findIndex_SomeD(1) [OF k] by auto
  next
    case None
    with "2.prems" k obtain x e where "x \<in> set cs" "q = panel_node_id (getEdgeLeaf x e)"
      by (auto split: if_splits dest!: js_nth_Some)
    then show ?thesis using getEdgeLeaf_id by auto
  qed
qed

lemma findPaneInDirection_ref:
  assumes "distinct (panel_ids n)" and "[] \<notin> set (panel_ids n)" and "a \<in> set (getLeafIds n)"
  shows "findPaneInDirection n a dir = nav_ref n a (nav_orientation dir) (nav_delta dir)"
  using assms
proof (induction n)
  case (LeafNode l)
  then show ?case by (simp add: findPaneInDirection_def)
next
  case (SplitNode i d cs sz)
  from SplitNode.prems obtain ys z zs rest where cs: "cs = ys @ z # zs"
    and z: "a \<in> set (getLeafIds z)" "buildPath z a = Some (z # rest)"
    and path: "buildPath (SplitNode i d cs sz) a = Some (SplitNode i d cs sz # z # rest)"
    and pos: "findIndex (\<lambda>c. panel_node_id c = panel_node_id z) cs = Some (length ys)"
    and holds: "findIndex (\<lambda>c. a \<in> set (getLeafIds c)) cs = Some (length ys)"
    by (elim buildPath_child)
  let ?o = "nav_orientation dir" and ?d = "nav_delta dir"
  have ids: "distinct (panel_ids z)" "[] \<notin> set (panel_ids z)"
    using SplitNode.prems cs by auto
  have sub: "navigate_path (z # rest) ?o ?d = nav_ref z a ?o ?d"
    using SplitNode.IH [of z] ids z findPaneInDirection_path [OF z(2)] by (simp add: cs)
  have here: "tryNavigateAtAncestor (SplitNode i d cs sz # z # rest) 0 ?o ?d
      = (if d = ?o then map_option (\<lambda>neighbor. panel_node_id
            (getEdgeLeaf neighbor (if 0 < ?d then FirstEdge else LastEdge)))
          (js_nth cs (int (length ys) + ?d)) else None)"
    by (simp add: tryNavigateAtAncestor_def js_nth_def pos split: option.splits)
  have truthy_ref: "truthy (nav_ref m a ?o ?d) \<longleftrightarrow> nav_ref m a ?o ?d \<noteq> None"
    if "[] \<notin> set (panel_ids m)" for m
    using that nav_ref_id by (cases "nav_ref m a ?o ?d") auto
  have ref: "nav_ref (SplitNode i d cs sz) a ?o ?d
      = (case nav_ref z a ?o ?d of Some q \<Rightarrow> Some q
         | None \<Rightarrow> tryNavigateAtAncestor (SplitNode i d cs sz # z # rest) 0 ?o ?d)"
    unfolding nav_ref.simps holds here by (simp add: cs split: option.splits)
  have "findPaneInDirection (SplitNode i d cs sz) a dir
      = navigate_path (SplitNode i d cs sz # z # rest) ?o ?d"
    by (rule findPaneInDirection_path [OF path])
  also have "\<dots> = nav_ref (SplitNode i d cs sz) a ?o ?d"
    using truthy_ref [OF ids(2)] truthy_ref [OF SplitNode.prems(2)]
    unfolding navigate_path_Cons sub ref by (cases "nav_ref z a ?o ?d") auto
  finally show ?case .
qed

text \<open>Where the focus lands, in depth-first order.\<close>

lemma hd_concat_map: "f c \<noteq> [] \<Longrightarrow> hd (concat (map f (c # cs))) = hd (f c)"
  by simp

lemma last_concat_map:
  "cs \<noteq> [] \<Longrightarrow> f (last cs) \<noteq> [] \<Longrightarrow> last (concat (map f cs)) = last (f (last cs))"
  by (induction cs rule: rev_induct) auto

lemma getEdgeLeaf_leaf:
  assumes "wf_panel n"
  shows "panel_node_id (getEdgeLeaf n e)
       = (if e = FirstEdge then hd (getLeafIds n) else last (getLeafIds n))"
  using assms
proof (induction n e rule: getEdgeLeaf.induct)
  case (1 l e)
  then show ?case by simp
next
  case (2 i d cs sz e)
  from "2.prems" obtain c cs' where cs: "cs = c # cs'" by (cases cs) auto
  let ?child = "if e = FirstEdge then c else last cs"
  have pick: "(if e = FirstEdge then js_nth cs 0 else js_last cs) = Some ?child"
    by (simp add: cs js_last_def)
  have child: "?child \<in> set cs" by (simp add: cs)
  with "2.prems" have wf: "wf_panel ?child" by (simp add: list_all_iff)
  have "cs \<noteq> []" and "getLeafIds (last cs) \<noteq> []" and "getLeafIds c \<noteq> []"
    using "2.prems" wf_panel_leaf cs by (auto simp: list_all_iff)
  then have "hd (concat (map getLeafIds cs)) = hd (getLeafIds c)"
    and "last (concat (map getLeafIds cs)) = last (getLeafIds (last cs))"
    using hd_concat_map [of getLeafIds c cs'] last_concat_map [of cs getLeafIds] cs by auto
  with "2.IH" [OF pick wf] pick show ?case by (auto simp del: js_nth_0)
qed

lemma nav_ref_order:
  assumes "wf_panel n" and "nav_ref n a o' delta = Some q" and "delta = 1 \<or> delta = -1"
  shows "\<exists>xs ys zs. getLeafIds n =
           (if delta = 1 then xs @ a # ys @ q # zs else xs @ q # ys @ a # zs)"
  using assms
proof (induction n a o' delta rule: nav_ref.induct)
  case (1 l a o' delta)
  then show ?case by simp
next
  case (2 i d cs sz a o' delta)
  from "2.prems"(2) obtain k where k: "findIndex (\<lambda>c. a \<in> set (getLeafIds c)) cs = Some k"
    by (auto split: option.splits)
  have kl: "k < length cs" and ka: "a \<in> set (getLeafIds (cs ! k))"
    using findIndex_SomeD [OF k] by auto
  from ka obtain as bs where a: "getLeafIds (cs ! k) = as @ a # bs" by (meson split_list)
  show ?case
  proof (cases "nav_ref (cs ! k) a o' delta")
    case (Some q')
    have "wf_panel (cs ! k)" using "2.prems"(1) kl by (simp add: list_all_length)
    then obtain xs ys zs where "getLeafIds (cs ! k) =
        (if delta = 1 then xs @ a # ys @ q # zs else xs @ q # ys @ a # zs)"
      using "2.IH" [OF k] "2.prems"(2,3) Some k by auto
    moreover have "getLeafIds (SplitNode i d cs sz) = concat (map getLeafIds (take k cs))
        @ getLeafIds (cs ! k) @ concat (map getLeafIds (drop (Suc k) cs))"
      by (subst id_take_nth_drop [OF kl]) simp
    ultimately show ?thesis
      by (intro exI [of _ "concat (map getLeafIds (take k cs)) @ xs"] exI [of _ ys]
          exI [of _ "zs @ concat (map getLeafIds (drop (Suc k) cs))"]) auto
  next
    case None
    with "2.prems"(2) k obtain x where x: "js_nth cs (int k + delta) = Some x"
      and q: "q = panel_node_id (getEdgeLeaf x (if 0 < delta then FirstEdge else LastEdge))"
      by (auto split: if_splits)
    have wf: "wf_panel x" using "2.prems"(1) js_nth_Some [OF x] by (auto simp: list_all_iff)
    have ne: "getLeafIds x \<noteq> []" by (rule wf_panel_leaf [OF wf])
    from "2.prems"(3) show ?thesis
    proof
      assume d: "delta = 1"
      with x have "Suc k < length cs" "x = cs ! Suc k"
        by (auto simp: js_nth_def nat_add_distrib split: if_splits)
      then have cs: "cs = take k cs @ cs ! k # x # drop (Suc (Suc k)) cs"
        using adjacent_split by metis
      have "getLeafIds x = q # tl (getLeafIds x)"
        using q d ne getEdgeLeaf_leaf [OF wf] by simp
      then show ?thesis
        using arg_cong [OF cs, of "\<lambda>xs. concat (map getLeafIds xs)"] a d
        by (intro exI [of _ "concat (map getLeafIds (take k cs)) @ as"] exI [of _ bs]
          exI [of _ "tl (getLeafIds x) @ concat (map getLeafIds (drop (Suc (Suc k)) cs))"]) simp
    next
      assume d: "delta = -1"
      with x obtain j where j: "k = Suc j" "x = cs ! j"
        by (cases k) (auto simp: js_nth_def split: if_splits)
      then have cs: "cs = take j cs @ x # cs ! k # drop (Suc k) cs"
        using adjacent_split kl by metis
      have "getLeafIds x = butlast (getLeafIds x) @ [q]"
        using q d ne getEdgeLeaf_leaf [OF wf] by simp
      then have "getLeafIds (SplitNode i d cs sz) = concat (map getLeafIds (take j cs))
          @ (butlast (getLeafIds x) @ [q]) @ (as @ a # bs) @ concat (map getLeafIds (drop (Suc k) cs))"
        using arg_cong [OF cs, of "\<lambda>xs. concat (map getLeafIds xs)"] a by simp
      then show ?thesis
        using d by (intro exI [of _ "concat (map getLeafIds (take j cs)) @ butlast (getLeafIds x)"]
          exI [of _ as] exI [of _ "bs @ concat (map getLeafIds (drop (Suc k) cs))"]) simp
    qed
  qed
qed

section \<open>Resizing\<close>

lemma fold_map_upd:
  assumes "inj_on f (set xs)" and "x \<in> set xs" and "distinct xs"
  shows "fold (\<lambda>j m. m(f j \<mapsto> v j)) xs m (f x) = Some (v x)"
proof -
  have other: "fold (\<lambda>j m. m(f j \<mapsto> v j)) zs m k = m k" if "k \<notin> f ` set zs" for zs m k
    using that by (induction zs arbitrary: m) auto
  obtain ys zs where xs: "xs = ys @ x # zs" using assms(2) by (meson split_list)
  then have "f x \<notin> f ` set zs" using assms(1,3) by (auto simp: inj_on_def)
  then show ?thesis by (simp add: xs other)
qed

lemma dom_fold_map_upd: "dom (fold (\<lambda>j m. m(f j \<mapsto> v j)) xs m) = dom m \<union> f ` set xs"
  by (induction xs arbitrary: m) auto

lemma sum_list_two_updates:
  fixes sz :: "rat list"
  assumes "k < length sz" and "j < length sz" and "k \<noteq> j"
  shows "sum_list (sz[k := sz ! k + e, j := sz ! j - e]) = sum_list sz"
proof -
  have one: "sum_list (xs[m := x]) = sum_list xs + x - xs ! m" if "m < length xs"
    for xs :: "rat list" and m x
    using that by (induction xs arbitrary: m) (auto split: nat.splits)
  show ?thesis using assms by (simp add: one)
qed

text \<open>
  What one resize does to the split it finds: two neighbours exchange \<open>delta\<close>, everything
  else keeps its size, both stay at or above the minimum.
\<close>

definition resized :: "rat list \<Rightarrow> nat \<Rightarrow> nat \<Rightarrow> rat \<Rightarrow> rat list" where
  "resized sz k j delta = sz[k := sz ! k + delta, j := sz ! j - delta]"

lemma size_or_nth: "n < length sz \<Longrightarrow> size_or d sz (int n) = sz ! n"
  by (simp add: size_or_def js_nth_def)

lemma applyResizeDelta_sizes:
  assumes "applyResizeDelta i cs sz k delta = Some (sid, m)"
    and "length sz = length cs" and "distinct (map panel_node_id cs)" and "k < length cs"
  shows "\<exists>j<length cs. j \<noteq> k \<and> sid = i \<and> int j = (if 0 < delta then int k + 1 else int k - 1)
    \<and> map (\<lambda>c. m (panel_node_id c)) cs = map Some (resized sz k j delta)
    \<and> MIN_PANE_SIZE \<le> sz ! k + delta \<and> MIN_PANE_SIZE \<le> sz ! j - delta"
proof -
  let ?si = "if 0 < delta then int k + 1 else int k - 1"
  have range: "0 \<le> ?si" "?si < int (length cs)"
    using assms(1) by (auto simp: applyResizeDelta_def Let_def split: if_splits)
  obtain j where j: "?si = int j" using range(1) by (metis nat_0_le)
  have jl: "j < length cs" using range(2) unfolding j by simp
  have jk: "j \<noteq> k" using j by (auto split: if_splits)
  let ?v = "\<lambda>n. if n = k then sz ! k + delta else if n = j then sz ! j - delta else sz ! n"
  let ?w = "\<lambda>n. if n = k then sz ! k + delta else if int n = int j then sz ! j - delta
      else size_or (100 / of_nat (length cs)) sz (int n)"
  have sk: "size_or 50 sz (int k) = sz ! k" and sj: "size_or 50 sz (int j) = sz ! j"
    using assms(2,4) jl by (simp_all add: size_or_nth)
  have res: "sid = i" "m = fold (\<lambda>n m. m(panel_node_id (cs ! n) \<mapsto> ?w n)) [0..<length cs] Map.empty"
    and mins: "MIN_PANE_SIZE \<le> sz ! k + delta" "MIN_PANE_SIZE \<le> sz ! j - delta"
    using assms(1) range unfolding applyResizeDelta_def Let_def j sk sj
    by (auto simp: not_less split: if_splits)
  have inj: "inj_on (\<lambda>n. panel_node_id (cs ! n)) (set [0..<length cs])"
    using assms(3) by (fastforce simp: inj_on_def distinct_conv_nth)
  have "m (panel_node_id (cs ! n)) = Some (resized sz k j delta ! n)" if "n < length cs" for n
  proof -
    have "m (panel_node_id (cs ! n)) = Some (?w n)"
      unfolding res(2) by (rule fold_map_upd [OF inj]) (use that in auto)
    also have "?w n = resized sz k j delta ! n"
      using that assms(2,4) jl jk by (auto simp: resized_def nth_list_update size_or_nth)
    finally show ?thesis .
  qed
  then have "map (\<lambda>c. m (panel_node_id c)) cs = map Some (resized sz k j delta)"
    by (intro nth_equalityI) (auto simp: resized_def assms(2))
  with jl jk j res(1) mins show ?thesis by auto
qed

lemma sum_list_resized:
  "k < length sz \<Longrightarrow> j < length sz \<Longrightarrow> k \<noteq> j \<Longrightarrow> sum_list (resized sz k j e) = sum_list sz"
  by (simp add: resized_def sum_list_two_updates)

text \<open>Every node of a tree, and the fact that a path only visits nodes of the tree.\<close>

fun subnodes :: "panel_node \<Rightarrow> panel_node list" where
  "subnodes (LeafNode l) = [LeafNode l]"
| "subnodes (SplitNode i d cs sz) = SplitNode i d cs sz # concat (map subnodes cs)"

lemma subnodes_self: "n \<in> set (subnodes n)"
  by (cases n) auto

lemma buildPath_subnodes: "buildPath n t = Some path \<Longrightarrow> set path \<subseteq> set (subnodes n)"
proof (induction n t arbitrary: path rule: buildPath.induct)
  case (1 l t)
  then show ?case by (auto split: if_splits)
next
  case (2 i d cs sz t)
  show ?case
  proof (cases "i = t")
    case True
    with "2.prems" show ?thesis by auto
  next
    case False
    with "2.prems" obtain q where q: "first_some (\<lambda>c. buildPath c t) cs = Some q"
      and path: "path = SplitNode i d cs sz # q" by auto
    from first_some_Some [OF q] obtain c where c: "c \<in> set cs" "buildPath c t = Some q" by auto
    then have "set q \<subseteq> set (subnodes c)" using "2.IH" [OF False c(1)] by blast
    with c(1) path show ?thesis by auto
  qed
qed

lemma subnodes_distinct:
  "distinct (panel_ids n) \<Longrightarrow> SplitNode i d cs sz \<in> set (subnodes n)
    \<Longrightarrow> distinct (map panel_node_id cs)"
proof (induction n rule: subnodes.induct)
  case (1 l)
  then show ?case by simp
next
  case (2 i' d' cs' sz')
  show ?case
  proof (cases "SplitNode i d cs sz = SplitNode i' d' cs' sz'")
    case True
    with "2.prems"(1) have "distinct (concat (map panel_ids cs))" by simp
    then show ?thesis
    proof (induction cs)
      case Nil
      then show ?case by simp
    next
      case (Cons c cs)
      have "panel_node_id ` set cs \<subseteq> set (concat (map panel_ids cs))"
        using panel_node_id_in_ids by fastforce
      with Cons panel_node_id_in_ids [of c] show ?case by auto
    qed
  next
    case False
    with "2.prems"(2) obtain c where c: "c \<in> set cs'" "SplitNode i d cs sz \<in> set (subnodes c)"
      by auto
    moreover have "distinct (panel_ids c)"
      using "2.prems"(1) c(1) by (auto simp: distinct_concat_iff)
    ultimately show ?thesis using "2.IH" by blast
  qed
qed

lemma subnodes_wf: "wf_panel n \<Longrightarrow> m \<in> set (subnodes n) \<Longrightarrow> wf_panel m"
  by (induction n rule: subnodes.induct) (auto simp: list_all_iff)

lemma buildPath_step:
  "buildPath n t = Some path \<Longrightarrow> Suc x < length path \<Longrightarrow> path ! x = SplitNode i d cs sz \<Longrightarrow>
     path ! Suc x \<in> set cs \<and> t \<in> set (panel_ids (path ! Suc x))"
proof (induction n t arbitrary: path x rule: buildPath.induct)
  case (1 l t)
  then show ?case by (auto split: if_splits)
next
  case (2 i' d' cs' sz' t)
  show ?case
  proof (cases "i' = t")
    case True
    with "2.prems" show ?thesis by auto
  next
    case False
    with "2.prems" obtain q where q: "first_some (\<lambda>c. buildPath c t) cs' = Some q"
      and path: "path = SplitNode i' d' cs' sz' # q" by auto
    from first_some_Some [OF q] obtain c where c: "c \<in> set cs'" "buildPath c t = Some q" by auto
    from buildPath_hd [OF c(2)] obtain rest where rest: "q = c # rest" by blast
    show ?thesis
    proof (cases x)
      case 0
      moreover have "t \<in> set (panel_ids c)" using c(2) buildPath_None [of c t] by auto
      ultimately show ?thesis using "2.prems"(3) c(1) by (simp add: path rest)
    next
      case (Suc y)
      then show ?thesis using "2.IH" [OF False c(1,2), of y] "2.prems"(2,3) by (simp add: path)
    qed
  qed
qed

lemma resizeAtAncestor_Some:
  assumes "resizeAtAncestor path dir x = Some (Some r)"
  obtains i d cs sz k delta where "Suc x < length path" "path ! x = SplitNode i d cs sz"
    "k < length cs" "panel_node_id (cs ! k) = panel_node_id (path ! Suc x)"
    "getResizeDelta dir d = Some delta" "applyResizeDelta i cs sz k delta = Some r"
proof -
  from assms obtain i d cs sz delta c k where n: "js_nth path (int x) = Some (SplitNode i d cs sz)"
    and c: "js_nth path (int x + 1) = Some c"
    and delta: "getResizeDelta dir d = Some delta"
    and k: "findIndex (\<lambda>x. panel_node_id x = panel_node_id c) cs = Some k"
    and a: "applyResizeDelta i cs sz k delta = Some r"
    unfolding resizeAtAncestor_def by (auto split: option.splits panel_node.splits simp del: js_nth_of_nat)
  have "Suc x < length path" "path ! Suc x = c" "path ! x = SplitNode i d cs sz"
    using n c by (auto simp: js_nth_def nat_add_distrib split: if_splits)
  with that findIndex_SomeD(1,2) [OF k] delta a show thesis by blast
qed

lemma computeResize_effect:
  assumes "wf_panel n" and "distinct (panel_ids n)" and "computeResize n a dir = Some (sid, m)"
  shows "\<exists>d cs sz k j delta. SplitNode sid d cs sz \<in> set (subnodes n)
    \<and> k < length cs \<and> a \<in> set (panel_ids (cs ! k))
    \<and> getResizeDelta dir d = Some delta
    \<and> j < length cs \<and> int j = (if 0 < delta then int k + 1 else int k - 1)
    \<and> map (\<lambda>c. m (panel_node_id c)) cs = map Some (resized sz k j delta)
    \<and> sum_list (resized sz k j delta) = sum_list sz
    \<and> MIN_PANE_SIZE \<le> sz ! k + delta \<and> MIN_PANE_SIZE \<le> sz ! j - delta"
proof -
  from assms(3) obtain path where path: "buildPath n a = Some path"
    and r: "computeResizeFromPath path dir = Some (sid, m)"
    by (auto simp: computeResize_def split: option.splits if_splits)
  from r obtain x where "resizeAtAncestor path dir x = Some (Some (sid, m))"
    by (auto simp: computeResizeFromPath_def split: option.splits dest!: first_some_Some)
  then obtain i d cs sz k delta where x: "Suc x < length path" "path ! x = SplitNode i d cs sz"
    and k: "k < length cs" and child: "panel_node_id (cs ! k) = panel_node_id (path ! Suc x)"
    and delta: "getResizeDelta dir d = Some delta"
    and a: "applyResizeDelta i cs sz k delta = Some (sid, m)"
    by (rule resizeAtAncestor_Some)
  have "SplitNode i d cs sz \<in> set path" using x by (metis Suc_lessD nth_mem)
  then have sub: "SplitNode i d cs sz \<in> set (subnodes n)" using buildPath_subnodes [OF path] by auto
  have len: "length sz = length cs"
    using subnodes_wf [OF assms(1) sub] by (simp add: sizes_ok_def)
  note d = subnodes_distinct [OF assms(2) sub]
  note step = buildPath_step [OF path x]
  have "cs ! k = path ! Suc x"
    using child conjunct1 [OF step] k d by (metis distinct_map inj_on_contraD nth_mem)
  then have active: "a \<in> set (panel_ids (cs ! k))" using step by simp
  obtain j where j: "j < length cs" "j \<noteq> k" "sid = i"
    "int j = (if 0 < delta then int k + 1 else int k - 1)"
    "map (\<lambda>c. m (panel_node_id c)) cs = map Some (resized sz k j delta)"
    "MIN_PANE_SIZE \<le> sz ! k + delta" "MIN_PANE_SIZE \<le> sz ! j - delta"
    using applyResizeDelta_sizes [OF a len d k] by auto
  have "sum_list (resized sz k j delta) = sum_list sz"
    using j(1,2) k len by (intro sum_list_resized) auto
  with sub j k active delta show ?thesis by blast
qed

end
