(* ===== verification/Workspace_Tiles.thy ===== *)
theory Workspace_Tiles
  imports Panel_Tree "HOL-Library.AList"
begin

text \<open>
  The workspace tile tree of one window tab, first half of
  \<open>apps/web/src/panels/workspace-tile-utils.ts\<close>: adding, removing, splitting, resizing and
  reordering tiles. The tree has the same shape as a panel tree, one level up.
  \<open>TileSplit id direction children sizes\<close> is the interface \<open>WorkspaceTileSplit\<close>.
\<close>

section \<open>Constants and helpers\<close>

definition generateTileId :: "string \<Rightarrow> id_source \<Rightarrow> string \<times> id_source" where
  "generateTileId prefix s = generateId prefix s"

definition MIN_TILE_SIZE :: rat where "MIN_TILE_SIZE = 5"

definition TILE_RESIZE_STEP :: rat where "TILE_RESIZE_STEP = 5"

definition createWorkspaceTileLeaf :: "string \<Rightarrow> id_source \<Rightarrow> tile_leaf \<times> id_source" where
  "createWorkspaceTileLeaf w s =
     (let (i, s1) = generateTileId ''ws-tile'' s
      in (\<lparr>tl_activePanelTabId = None, tl_id = i, tl_panelTabs = [], tl_workspaceId = w\<rparr>, s1))"

fun getWorkspaceTileLeaves :: "tile_node \<Rightarrow> tile_leaf list" where
  "getWorkspaceTileLeaves (TileLeaf l) = [l]"
| "getWorkspaceTileLeaves (TileSplit i d cs sz) = concat (map getWorkspaceTileLeaves cs)"

fun buildTilePath :: "tile_node \<Rightarrow> string \<Rightarrow> tile_node list option" where
  "buildTilePath (TileLeaf l) t = (if tl_id l = t then Some [TileLeaf l] else None)"
| "buildTilePath (TileSplit i d cs sz) t =
     (if i = t then Some [TileSplit i d cs sz]
      else map_option (\<lambda>path. TileSplit i d cs sz # path)
             (first_some (\<lambda>c. buildTilePath c t) cs))"

section \<open>Removing and splitting\<close>

fun removeTileRecursive :: "tile_node \<Rightarrow> string \<Rightarrow> tile_node option" where
  "removeTileRecursive (TileLeaf l) w = (if tl_workspaceId l = w then None else Some (TileLeaf l))"
| "removeTileRecursive (TileSplit i d cs sz) w =
     (let results = map (\<lambda>c. removeTileRecursive c w) cs;
          newChildren = List.map_filter id results;
          changed = (results \<noteq> map Some cs)
      in if \<not> changed then Some (TileSplit i d cs sz)
         else (case newChildren of
                 [] \<Rightarrow> None
               | [c] \<Rightarrow> Some c
               | _ \<Rightarrow> Some (TileSplit i d newChildren (equal_sizes (length newChildren)))))"

fun isTileOf :: "string \<Rightarrow> tile_node \<Rightarrow> bool" where
  "isTileOf w (TileLeaf l) = (tl_workspaceId l = w)"
| "isTileOf w (TileSplit i d cs sz) = False"

fun splitTileRecursive ::
    "tile_node \<Rightarrow> string \<Rightarrow> string \<Rightarrow> split_direction \<Rightarrow> id_source \<Rightarrow> tile_node \<times> id_source" where
  "splitTileRecursive (TileLeaf l) target new dir s =
     (if tl_workspaceId l = target then
        (let (newTile, s1) = createWorkspaceTileLeaf new s;
             (i, s2) = generateTileId ''ws-split'' s1
         in (TileSplit i dir [TileLeaf l, TileLeaf newTile] [50, 50], s2))
      else (TileLeaf l, s))"
| "splitTileRecursive (TileSplit i d cs sz) target new dir s =
     (case (if d = dir then findIndex (isTileOf target) cs else None) of
        Some k \<Rightarrow>
          (let (newTile, s1) = createWorkspaceTileLeaf new s;
               cs' = take (Suc k) cs @ TileLeaf newTile # drop (Suc k) cs
           in (TileSplit i d cs' (equal_sizes (length cs')), s1))
      | None \<Rightarrow>
          (let (cs', s1) = mapS (\<lambda>c u. splitTileRecursive c target new dir u) cs s
           in if cs' = cs then (TileSplit i d cs sz, s1) else (TileSplit i d cs' sz, s1)))"

section \<open>Adding and removing a workspace of a tab\<close>

text \<open>The loop that looks for the column with the fewest workspaces.\<close>

definition smallest_index :: "nat list \<Rightarrow> nat" where
  "smallest_index counts =
     fold (\<lambda>i t. if counts ! i < counts ! t then i else t) [1..<length counts] 0"

text \<open>A new tile below everything in a column: joins a vertical split, wraps anything else.\<close>

definition add_below :: "tile_node \<Rightarrow> tile_leaf \<Rightarrow> id_source \<Rightarrow> tile_node \<times> id_source" where
  "add_below column newTile s =
     (let wrapped = (let (i, s1) = generateTileId ''ws-split'' s
                     in (TileSplit i Vertical [column, TileLeaf newTile] [50, 50], s1))
      in case column of
           TileLeaf l \<Rightarrow> wrapped
         | TileSplit i d cs sz \<Rightarrow>
             if d = Vertical then
               (let newChildren = cs @ [TileLeaf newTile]
                in (TileSplit i d newChildren (equal_sizes (length newChildren)), s))
             else wrapped)"

definition addWorkspaceToTab ::
    "window_tab \<Rightarrow> string \<Rightarrow> string option \<Rightarrow> id_source \<Rightarrow> window_tab \<times> id_source" where
  "addWorkspaceToTab tab w below s =
     (let (newTile, s1) = createWorkspaceTileLeaf w s
      in case wt_workspaceLayout tab of
           None \<Rightarrow> (tab\<lparr>wt_workspaceLayout := Some (TileLeaf newTile)\<rparr>, s1)
         | Some layout \<Rightarrow>
             (let (placed, s2) =
                    (case below of
                       None \<Rightarrow> (layout, s1)
                     | Some b \<Rightarrow> splitTileRecursive layout b w Vertical s1)
              in if placed \<noteq> layout then (tab\<lparr>wt_workspaceLayout := Some placed\<rparr>, s2)
                 else
                   (case layout of
                      TileLeaf l \<Rightarrow>
                        (let (node, s3) = add_below (TileLeaf l) newTile s2
                         in (tab\<lparr>wt_workspaceLayout := Some node\<rparr>, s3))
                    | TileSplit i d cs sz \<Rightarrow>
                        if d = Vertical then
                          (let (node, s3) = add_below (TileSplit i d cs sz) newTile s2
                           in (tab\<lparr>wt_workspaceLayout := Some node\<rparr>, s3))
                        else
                          (let k = smallest_index
                                     (map (\<lambda>c. length (getWorkspaceTileLeaves c)) cs)
                           in case js_nth cs (int k) of
                                None \<Rightarrow> (tab, s2)
                              | Some targetColumn \<Rightarrow>
                                  (let (newColumn, s3) = add_below targetColumn newTile s2
                                   in (tab\<lparr>wt_workspaceLayout :=
                                          Some (TileSplit i d (cs[k := newColumn]) sz)\<rparr>, s3))))))"

definition removeWorkspaceFromTab :: "window_tab \<Rightarrow> string \<Rightarrow> window_tab" where
  "removeWorkspaceFromTab tab w =
     (case wt_workspaceLayout tab of
        None \<Rightarrow> tab
      | Some layout \<Rightarrow>
          (let result = removeTileRecursive layout w
           in if result = Some layout then tab else tab\<lparr>wt_workspaceLayout := result\<rparr>))"

definition splitWorkspaceTile ::
    "window_tab \<Rightarrow> string \<Rightarrow> string \<Rightarrow> split_direction \<Rightarrow> id_source \<Rightarrow> window_tab \<times> id_source" where
  "splitWorkspaceTile tab w new dir s =
     (case wt_workspaceLayout tab of
        None \<Rightarrow> (tab, s)
      | Some layout \<Rightarrow>
          (let (newLayout, s1) = splitTileRecursive layout w new dir s
           in if newLayout = layout then (tab, s1)
              else (tab\<lparr>wt_workspaceLayout := Some newLayout\<rparr>, s1)))"

section \<open>Resizing\<close>

definition getTileResizeDelta :: "navigation_direction \<Rightarrow> split_direction \<Rightarrow> rat option" where
  "getTileResizeDelta dir splitDirection =
     (if splitDirection = Horizontal \<and> dir = NavRight then Some TILE_RESIZE_STEP
      else if splitDirection = Horizontal \<and> dir = NavLeft then Some (- TILE_RESIZE_STEP)
      else if splitDirection = Vertical \<and> dir = NavDown then Some TILE_RESIZE_STEP
      else if splitDirection = Vertical \<and> dir = NavUp then Some (- TILE_RESIZE_STEP)
      else None)"

text \<open>
  The assignments \<open>newSizes[childIndex] = ...\<close> extend an array that is too short; a
  split has one size per child (\<open>wf_tile\<close>), where they are list updates. On shorter size
  lists the model leaves the list as it is.
\<close>

definition applyTileResizeDelta ::
    "string \<Rightarrow> tile_node list \<Rightarrow> rat list \<Rightarrow> nat \<Rightarrow> rat \<Rightarrow> (string \<times> rat list) option" where
  "applyTileResizeDelta i cs sz childIndex delta =
     (let siblingIndex = (if 0 < delta then int childIndex + 1 else int childIndex - 1)
      in if siblingIndex < 0 \<or> int (length cs) \<le> siblingIndex then None
         else
           (let newSize = size_or 50 sz (int childIndex) + delta;
                newSiblingSize = size_or 50 sz siblingIndex - delta
            in if newSize < MIN_TILE_SIZE \<or> newSiblingSize < MIN_TILE_SIZE then None
               else Some (i, (sz[childIndex := newSize])[nat siblingIndex := newSiblingSize])))"

text \<open>One round of the loop, as in \<open>resizeAtAncestor\<close>.\<close>

definition tileResizeAt ::
    "tile_node list \<Rightarrow> navigation_direction \<Rightarrow> nat \<Rightarrow> (string \<times> rat list) option option" where
  "tileResizeAt path dir index =
     (case js_nth path (int index) of
        Some (TileSplit i d cs sz) \<Rightarrow>
          (case getTileResizeDelta dir d of
             None \<Rightarrow> None
           | Some delta \<Rightarrow>
               (case js_nth path (int index + 1) of
                  None \<Rightarrow> None
                | Some childInPath \<Rightarrow>
                    (case findIndex (\<lambda>c. tile_node_id c = tile_node_id childInPath) cs of
                       None \<Rightarrow> None
                     | Some childIndex \<Rightarrow> Some (applyTileResizeDelta i cs sz childIndex delta))))
      | _ \<Rightarrow> None)"

definition computeTileResize ::
    "tile_node list \<Rightarrow> navigation_direction \<Rightarrow> (string \<times> rat list) option" where
  "computeTileResize path dir =
     (case first_some (tileResizeAt path dir) (rev [0..<length path - 1]) of
        None \<Rightarrow> None
      | Some r \<Rightarrow> r)"

fun applySplitSizes :: "tile_node \<Rightarrow> string \<Rightarrow> rat list \<Rightarrow> tile_node" where
  "applySplitSizes (TileLeaf l) splitId newSizes = TileLeaf l"
| "applySplitSizes (TileSplit i d cs sz) splitId newSizes =
     (if i = splitId then TileSplit i d cs newSizes
      else
        (let newChildren = map (\<lambda>c. applySplitSizes c splitId newSizes) cs
         in if newChildren = cs then TileSplit i d cs sz else TileSplit i d newChildren sz))"

definition resizeWorkspaceTiles ::
    "window_tab \<Rightarrow> string \<Rightarrow> navigation_direction \<Rightarrow> window_tab" where
  "resizeWorkspaceTiles tab nodeId dir =
     (case wt_workspaceLayout tab of
        None \<Rightarrow> tab
      | Some layout \<Rightarrow>
          (case buildTilePath layout nodeId of
             None \<Rightarrow> tab
           | Some path \<Rightarrow>
               if length path < 2 then tab
               else (case computeTileResize path dir of
                       None \<Rightarrow> tab
                     | Some (splitId, newSizes) \<Rightarrow>
                         (let newLayout = applySplitSizes layout splitId newSizes
                          in if newLayout = layout then tab
                             else tab\<lparr>wt_workspaceLayout := Some newLayout\<rparr>))))"

section \<open>Reordering\<close>

text \<open>
  A JavaScript \<open>Map\<close> as an association list in insertion order: setting a key that is
  present keeps its place, which is what \<open>AList.update\<close> does.
\<close>

definition workspace_map :: "tile_leaf list \<Rightarrow> (string \<times> tile_leaf) list" where
  "workspace_map leaves = fold (\<lambda>l m. AList.update (tl_workspaceId l) l m) leaves []"

definition pick_ordered ::
    "string \<Rightarrow> tile_leaf list \<times> (string \<times> tile_leaf) list
      \<Rightarrow> tile_leaf list \<times> (string \<times> tile_leaf) list" where
  "pick_ordered w st =
     (case map_of (snd st) w of
        Some l \<Rightarrow> (fst st @ [l], AList.delete w (snd st))
      | None \<Rightarrow> st)"

definition ordered_leaves :: "tile_leaf list \<Rightarrow> string list \<Rightarrow> tile_leaf list" where
  "ordered_leaves leaves order =
     (let (ordered, remaining) = fold pick_ordered order ([], workspace_map leaves)
      in ordered @ map snd remaining)"

fun root_direction :: "tile_node \<Rightarrow> split_direction" where
  "root_direction (TileLeaf l) = Vertical"
| "root_direction (TileSplit i d cs sz) = d"

definition reorderWorkspaceTiles ::
    "window_tab \<Rightarrow> string list \<Rightarrow> id_source \<Rightarrow> window_tab \<times> id_source" where
  "reorderWorkspaceTiles tab order s =
     (case wt_workspaceLayout tab of
        None \<Rightarrow> (tab, s)
      | Some layout \<Rightarrow>
          (let leaves = getWorkspaceTileLeaves layout
           in if length leaves \<le> 1 then (tab, s)
              else
                (let ordered = ordered_leaves leaves order;
                     orderChanged = list_ex (\<lambda>i. Some (tl_workspaceId (ordered ! i))
                       \<noteq> map_option tl_workspaceId (js_nth leaves (int i))) [0..<length ordered]
                 in if \<not> orderChanged then (tab, s)
                    else (case ordered of
                            [l] \<Rightarrow> (tab\<lparr>wt_workspaceLayout := Some (TileLeaf l)\<rparr>, s)
                          | _ \<Rightarrow>
                              (let (i, s1) = generateTileId ''ws-split'' s
                               in (tab\<lparr>wt_workspaceLayout := Some (TileSplit i (root_direction layout)
                                     (map TileLeaf ordered) (equal_sizes (length ordered)))\<rparr>, s1))))))"

end
