(* ===== verification/Tile_Edit.thy ===== *)
theory Tile_Edit
  imports Workspace_Tiles "HOL-Library.Sublist"
begin

text \<open>
  What the edits of a workspace tile tree do to its leaves: which workspaces a tab shows after
  adding, removing, splitting, resizing or reordering, and that the tree stays well formed.
\<close>

section \<open>Leaves and workspaces of a tree\<close>

definition tile_workspaces :: "tile_node \<Rightarrow> string list" where
  "tile_workspaces n = map tl_workspaceId (getWorkspaceTileLeaves n)"

lemma tile_workspaces_simps [simp]:
  "tile_workspaces (TileLeaf l) = [tl_workspaceId l]"
  "tile_workspaces (TileSplit i d cs sz) = concat (map tile_workspaces cs)"
  by (simp_all add: tile_workspaces_def [abs_def] map_concat comp_def)

definition opt_tile_leaves :: "tile_node option \<Rightarrow> tile_leaf list" where
  "opt_tile_leaves r = (case r of None \<Rightarrow> [] | Some n \<Rightarrow> getWorkspaceTileLeaves n)"

lemma opt_tile_leaves_simps [simp]:
  "opt_tile_leaves None = []" "opt_tile_leaves (Some n) = getWorkspaceTileLeaves n"
  by (simp_all add: opt_tile_leaves_def)

definition tab_leaves :: "window_tab \<Rightarrow> tile_leaf list" where
  "tab_leaves tab = opt_tile_leaves (wt_workspaceLayout tab)"

definition tab_workspaces :: "window_tab \<Rightarrow> string list" where
  "tab_workspaces tab = map tl_workspaceId (tab_leaves tab)"

definition wf_tab :: "window_tab \<Rightarrow> bool" where
  "wf_tab tab \<longleftrightarrow> (case wt_workspaceLayout tab of None \<Rightarrow> True | Some n \<Rightarrow> wf_tile n)"

lemma wf_tile_leaves: "wf_tile n \<Longrightarrow> getWorkspaceTileLeaves n \<noteq> []"
proof (induction n rule: wf_tile.induct)
  case (1 l)
  then show ?case by simp
next
  case (2 i d cs sz)
  then show ?case by (cases cs) (auto simp: list_all_iff)
qed

section \<open>Removing\<close>

definition collapse_tiles :: "string \<Rightarrow> split_direction \<Rightarrow> tile_node list \<Rightarrow> tile_node option" where
  "collapse_tiles i d cs =
     (case cs of [] \<Rightarrow> None | [c] \<Rightarrow> Some c | _ \<Rightarrow> Some (TileSplit i d cs (equal_sizes (length cs))))"

lemma removeTile_split:
  "removeTileRecursive (TileSplit i d cs sz) w =
     (if map (\<lambda>c. removeTileRecursive c w) cs = map Some cs then Some (TileSplit i d cs sz)
      else collapse_tiles i d (List.map_filter (\<lambda>c. removeTileRecursive c w) cs))"
  by (simp only: removeTileRecursive.simps Let_def collapse_tiles_def map_filter_id_map not_not)

declare removeTileRecursive.simps(2) [simp del]

lemma collapse_tiles_leaves:
  "opt_tile_leaves (collapse_tiles i d cs) = concat (map getWorkspaceTileLeaves cs)"
  by (auto simp: collapse_tiles_def split: list.splits)

lemma removeTile_leaves:
  "opt_tile_leaves (removeTileRecursive n w)
     = filter (\<lambda>l. tl_workspaceId l \<noteq> w) (getWorkspaceTileLeaves n)"
proof (induction n)
  case (TileLeaf l)
  then show ?case by simp
next
  case (TileSplit i d cs sz)
  let ?keep = "filter (\<lambda>l. tl_workspaceId l \<noteq> w)"
  have kids: "map (\<lambda>c. opt_tile_leaves (removeTileRecursive c w)) cs
      = map (\<lambda>c. ?keep (getWorkspaceTileLeaves c)) cs"
    using TileSplit by simp
  show ?case
  proof (cases "map (\<lambda>c. removeTileRecursive c w) cs = map Some cs")
    case True
    then have "map (\<lambda>c. opt_tile_leaves (removeTileRecursive c w)) cs = map getWorkspaceTileLeaves cs"
      by simp
    with kids True show ?thesis
      by (simp add: removeTile_split filter_concat comp_def del: map_eq_conv)
  next
    case False
    have "concat (map getWorkspaceTileLeaves (List.map_filter (\<lambda>c. removeTileRecursive c w) cs))
        = concat (map (\<lambda>c. opt_tile_leaves (removeTileRecursive c w)) cs)"
      by (simp add: concat_map_filter opt_tile_leaves_def)
    with kids False show ?thesis
      by (simp add: removeTile_split collapse_tiles_leaves filter_concat comp_def del: map_eq_conv)
  qed
qed

lemma removeTile_absent: "w \<notin> set (tile_workspaces n) \<Longrightarrow> removeTileRecursive n w = Some n"
proof (induction n)
  case (TileLeaf l)
  then show ?case by simp
next
  case (TileSplit i d cs sz)
  then have same: "map (\<lambda>c. removeTileRecursive c w) cs = map Some cs" by simp
  show ?case unfolding removeTile_split by (rule if_P [OF same])
qed

text \<open>
  The reference tests \<open>result !== child\<close> and \<open>result === tab.workspaceLayout\<close> of the
  source ask whether the workspace was there; equality of trees decides the same.
\<close>

lemma removeTile_unchanged: "removeTileRecursive n w = Some n \<longleftrightarrow> w \<notin> set (tile_workspaces n)"
proof
  assume "removeTileRecursive n w = Some n"
  then have "filter (\<lambda>l. tl_workspaceId l \<noteq> w) (getWorkspaceTileLeaves n) = getWorkspaceTileLeaves n"
    using removeTile_leaves [of n w] by simp
  then show "w \<notin> set (tile_workspaces n)"
    by (auto simp: tile_workspaces_def filter_id_conv)
qed (rule removeTile_absent)

lemma removeTile_wf: "wf_tile n \<Longrightarrow> removeTileRecursive n w = Some m \<Longrightarrow> wf_tile m"
proof (induction n arbitrary: m)
  case (TileLeaf l)
  then show ?case by (auto split: if_splits)
next
  case (TileSplit i d cs sz)
  have "wf_tile y" if "x \<in> set cs" "removeTileRecursive x w = Some y" for x y
    using TileSplit.IH [OF that(1) _ that(2)] TileSplit.prems(1) that(1) by (simp add: list_all_iff)
  then have "list_all wf_tile (List.map_filter (\<lambda>c. removeTileRecursive c w) cs)"
    by (auto simp: list_all_iff map_filter_def)
  with TileSplit.prems show ?case
    by (auto simp: removeTile_split collapse_tiles_def simp del: map_eq_conv
        split: if_splits list.splits)
qed

lemma removeTile_ids:
  "subseq (case removeTileRecursive n w of None \<Rightarrow> [] | Some m \<Rightarrow> tile_ids m) (tile_ids n)"
proof (induction n)
  case (TileLeaf l)
  then show ?case by simp
next
  case (TileSplit i d cs sz)
  let ?kids = "List.map_filter (\<lambda>c. removeTileRecursive c w) cs"
  have "subseq (concat (map tile_ids (List.map_filter (\<lambda>c. removeTileRecursive c w) xs)))
      (concat (map tile_ids xs))" if "set xs \<subseteq> set cs" for xs
    using that
  proof (induction xs)
    case Nil
    then show ?case by (simp add: List.map_filter_simps)
  next
    case (Cons x xs)
    then have "subseq (case removeTileRecursive x w of None \<Rightarrow> [] | Some m \<Rightarrow> tile_ids m) (tile_ids x)"
      using TileSplit.IH by simp
    with Cons show ?case
      using list_emb_append_mono by (fastforce simp: List.map_filter_simps split: option.splits)
  qed
  then have kids: "subseq (i # concat (map tile_ids ?kids)) (tile_ids (TileSplit i d cs sz))" by simp
  have "subseq (case collapse_tiles i d ?kids of None \<Rightarrow> [] | Some m \<Rightarrow> tile_ids m)
      (i # concat (map tile_ids ?kids))"
    by (auto simp: collapse_tiles_def split: list.splits)
  then show ?case
    using subseq_order.trans [OF _ kids] by (auto simp: removeTile_split simp del: tile_ids.simps)
qed

lemma removeWorkspaceFromTab_layout:
  "wt_workspaceLayout (removeWorkspaceFromTab tab w)
     = Option.bind (wt_workspaceLayout tab) (\<lambda>n. removeTileRecursive n w)"
  by (auto simp: removeWorkspaceFromTab_def Let_def split: option.splits)

lemma removeWorkspaceFromTab_leaves:
  "tab_leaves (removeWorkspaceFromTab tab w) = filter (\<lambda>l. tl_workspaceId l \<noteq> w) (tab_leaves tab)"
  by (cases "wt_workspaceLayout tab")
    (simp_all add: tab_leaves_def removeWorkspaceFromTab_layout removeTile_leaves)

lemma removeWorkspaceFromTab_absent:
  "w \<notin> set (tab_workspaces tab) \<Longrightarrow> removeWorkspaceFromTab tab w = tab"
  by (auto simp: removeWorkspaceFromTab_def tab_workspaces_def tab_leaves_def Let_def
      removeTile_unchanged tile_workspaces_def split: option.splits)

lemma removeWorkspaceFromTab_wf: "wf_tab tab \<Longrightarrow> wf_tab (removeWorkspaceFromTab tab w)"
  by (auto simp: removeWorkspaceFromTab_def wf_tab_def Let_def dest: removeTile_wf
      split: option.splits)

lemma removeWorkspaceFromTab_id [simp]: "wt_id (removeWorkspaceFromTab tab w) = wt_id tab"
  by (auto simp: removeWorkspaceFromTab_def Let_def split: option.splits)

section \<open>Splitting\<close>

lemma isTileOf_iff: "isTileOf w n \<longleftrightarrow> (\<exists>l. n = TileLeaf l \<and> tl_workspaceId l = w)"
  by (cases n) auto

lemma isTileOf_workspaces: "isTileOf w n \<Longrightarrow> tile_workspaces n = [w]"
  by (auto simp: isTileOf_iff)

lemma no_tile_of: "w \<notin> set (concat (map tile_workspaces cs)) \<Longrightarrow> \<forall>c\<in>set cs. \<not> isTileOf w c"
  by (auto dest!: isTileOf_workspaces)

lemma unchanged_tile_split [simp]:
  "(if cs' = cs then (TileSplit i d cs sz, s) else (TileSplit i d cs' sz, s))
     = (TileSplit i d cs' sz, s)"
  "(if cs' = cs then TileSplit i d cs sz else TileSplit i d cs' sz) = TileSplit i d cs' sz"
  by simp_all

lemma splitTile_absent:
  "t \<notin> set (tile_workspaces n) \<Longrightarrow> splitTileRecursive n t w dir s = (n, s)"
proof (induction n t w dir s rule: splitTileRecursive.induct)
  case (1 l t w dir s)
  then show ?case by simp
next
  case (2 i d cs sz t w dir s)
  then have none: "findIndex (isTileOf t) cs = None"
    using no_tile_of by (simp add: findIndex_None)
  then have "mapS (\<lambda>x u. splitTileRecursive x t w dir u) cs s = (cs, s)"
    using 2 by (intro mapS_id) auto
  with none show ?case by simp
qed

lemma splitTile_wf: "wf_tile n \<Longrightarrow> wf_tile (fst (splitTileRecursive n t w dir s))"
proof (induction n t w dir s rule: splitTileRecursive.induct)
  case (1 l t w dir s)
  then show ?case by (simp add: split_beta Let_def)
next
  case (2 i d cs sz t w dir s)
  show ?case
  proof (cases "if d = dir then findIndex (isTileOf t) cs else None")
    case None
    have all: "list_all wf_tile (fst (mapS (\<lambda>x u. splitTileRecursive x t w dir u) xs u))"
      if "set xs \<subseteq> set cs" for xs u
      using that "2.IH" [OF None] "2.prems"
      by (induction xs arbitrary: u) (auto simp: split_beta Let_def list_all_iff)
    from all [of cs s] None "2.prems" show ?thesis
      by (simp add: split_beta Let_def length_mapS sizes_ok_length [OF length_mapS])
  next
    case (Some k)
    with "2.prems" show ?thesis
      by (auto simp: split_beta Let_def list_all_iff dest: in_set_takeD in_set_dropD
          simp flip: append_Cons)
  qed
qed

text \<open>Where the new tile goes: right after the tile it was split from.\<close>

lemma splitTile_leaves:
  assumes "distinct (tile_workspaces n)" and "t \<in> set (tile_workspaces n)"
  shows "\<exists>xs l ys. getWorkspaceTileLeaves n = xs @ l # ys \<and> tl_workspaceId l = t \<and>
     getWorkspaceTileLeaves (fst (splitTileRecursive n t w dir s))
       = xs @ l # fst (createWorkspaceTileLeaf w s) # ys"
  using assms
proof (induction n)
  case (TileLeaf l)
  then show ?case
    by (intro exI [of _ "[]"] exI [of _ l]) (simp add: split_beta Let_def)
next
  case (TileSplit i d cs sz)
  let ?new = "fst (createWorkspaceTileLeaf w s)"
  obtain ys z zs where cs: "cs = ys @ z # zs" and z: "t \<in> set (tile_workspaces z)"
    and ys: "t \<notin> set (concat (map tile_workspaces ys))"
    and zs: "t \<notin> set (concat (map tile_workspaces zs))"
    using concat_map_child [of t tile_workspaces cs] TileSplit.prems by auto
  let ?pre = "concat (map getWorkspaceTileLeaves ys)" and ?post = "concat (map getWorkspaceTileLeaves zs)"
  show ?case
  proof (cases "d = dir \<and> isTileOf t z")
    case True
    then have "findIndex (isTileOf t) cs = Some (length ys)"
      using no_tile_of [OF ys] by (simp add: cs findIndex_append)
    moreover obtain l where "z = TileLeaf l" "tl_workspaceId l = t"
      using True by (auto simp: isTileOf_iff)
    ultimately show ?thesis
      using True cs
      by (intro exI [of _ ?pre] exI [of _ l] exI [of _ ?post]) (simp add: split_beta Let_def)
  next
    case False
    then have none: "(if d = dir then findIndex (isTileOf t) cs else None) = None"
      using no_tile_of [OF ys] no_tile_of [OF zs] by (auto simp: cs findIndex_None)
    have one: "mapS (\<lambda>x u. splitTileRecursive x t w dir u) cs s
        = (ys @ fst (splitTileRecursive z t w dir s) # zs, snd (splitTileRecursive z t w dir s))"
      unfolding cs by (rule mapS_one_child) (use ys zs in \<open>auto simp: splitTile_absent\<close>)
    have "distinct (tile_workspaces z)" using TileSplit.prems(1) cs by simp
    then obtain xs l us where IH: "getWorkspaceTileLeaves z = xs @ l # us" "tl_workspaceId l = t"
      "getWorkspaceTileLeaves (fst (splitTileRecursive z t w dir s)) = xs @ l # ?new # us"
      using TileSplit.IH [of z] z cs by auto
    have res: "fst (splitTileRecursive (TileSplit i d cs sz) t w dir s)
        = TileSplit i d (ys @ fst (splitTileRecursive z t w dir s) # zs) sz"
      using none by (simp only: splitTileRecursive.simps option.case one Let_def prod.case
          unchanged_tile_split fst_conv)
    show ?thesis unfolding res
      by (intro exI [of _ "?pre @ xs"] exI [of _ l] exI [of _ "us @ ?post"]) (simp add: cs IH)
  qed
qed

lemma createWorkspaceTileLeaf_simps [simp]:
  "tl_workspaceId (fst (createWorkspaceTileLeaf w s)) = w"
  "tl_panelTabs (fst (createWorkspaceTileLeaf w s)) = []"
  "tl_activePanelTabId (fst (createWorkspaceTileLeaf w s)) = None"
  by (simp_all add: createWorkspaceTileLeaf_def split_beta Let_def)

section \<open>Adding a workspace\<close>

lemma add_below_leaves:
  "getWorkspaceTileLeaves (fst (add_below n l s)) = getWorkspaceTileLeaves n @ [l]"
  by (cases n) (simp_all add: add_below_def split_beta Let_def)

lemma add_below_wf: "wf_tile n \<Longrightarrow> wf_tile (fst (add_below n l s))"
  by (cases n) (auto simp: add_below_def split_beta Let_def simp flip: length_append_singleton)

lemma smallest_index_bound: "counts \<noteq> [] \<Longrightarrow> smallest_index counts < length counts"
proof -
  have "fold (\<lambda>i t. if counts ! i < counts ! t then i else t) is t < length counts"
    if "t < length counts" "\<forall>i\<in>set is. i < length counts" for "is" t
    using that by (induction "is" arbitrary: t) auto
  then show "counts \<noteq> [] \<Longrightarrow> smallest_index counts < length counts"
    by (simp add: smallest_index_def)
qed

lemma smallest_index_least:
  "i < length counts \<Longrightarrow> counts ! smallest_index counts \<le> counts ! i"
proof -
  have "let r = fold (\<lambda>i t. if counts ! i < counts ! t then i else t) is t
        in counts ! r \<le> counts ! t \<and> (\<forall>i\<in>set is. counts ! r \<le> counts ! i)" for "is" t
    by (induction "is" arbitrary: t) (fastforce simp: Let_def)+
  then have "counts ! smallest_index counts \<le> counts ! 0"
    "\<forall>i\<in>set [1..<length counts]. counts ! smallest_index counts \<le> counts ! i"
    unfolding smallest_index_def Let_def by blast+
  then show "i < length counts \<Longrightarrow> counts ! smallest_index counts \<le> counts ! i"
    by (cases i) auto
qed

lemma concat_map_update:
  "k < length cs \<Longrightarrow> concat (map f (cs[k := c]))
     = concat (map f (take k cs)) @ f c @ concat (map f (drop (Suc k) cs))"
  by (simp add: upd_conv_take_nth_drop)

lemma concat_map_nth:
  "k < length cs \<Longrightarrow> concat (map f cs)
     = concat (map f (take k cs)) @ f (cs ! k) @ concat (map f (drop (Suc k) cs))"
  by (subst id_take_nth_drop [of k cs]) simp_all

lemma addWorkspaceToTab_leaves:
  assumes "wf_tab tab" and "distinct (tab_workspaces tab)"
  shows "\<exists>xs ys. tab_leaves tab = xs @ ys \<and>
     (\<exists>u. tab_leaves (fst (addWorkspaceToTab tab w below s)) =
        xs @ fst (createWorkspaceTileLeaf w u) # ys) \<and>
     (\<forall>b. below = Some b \<and> b \<in> set (tab_workspaces tab) \<longrightarrow>
        xs \<noteq> [] \<and> tl_workspaceId (last xs) = b)"
proof (cases "wt_workspaceLayout tab")
  case None
  then show ?thesis
    by (auto simp: addWorkspaceToTab_def tab_leaves_def tab_workspaces_def split_beta Let_def)
next
  case (Some layout)
  let ?new = "fst (createWorkspaceTileLeaf w s)" and ?s1 = "snd (createWorkspaceTileLeaf w s)"
  have wf: "wf_tile layout" and dist: "distinct (tile_workspaces layout)"
    using assms Some by (simp_all add: wf_tab_def tab_workspaces_def tab_leaves_def tile_workspaces_def)
  have leaves: "tab_leaves tab = getWorkspaceTileLeaves layout"
    and ws: "tab_workspaces tab = tile_workspaces layout"
    using Some by (simp_all add: tab_leaves_def tab_workspaces_def tile_workspaces_def)
  show ?thesis
  proof (cases "\<exists>b. below = Some b \<and> b \<in> set (tile_workspaces layout)")
    case True
    then obtain b where b: "below = Some b" "b \<in> set (tile_workspaces layout)" by blast
    obtain xs l ys where split: "getWorkspaceTileLeaves layout = xs @ l # ys" "tl_workspaceId l = b"
      "getWorkspaceTileLeaves (fst (splitTileRecursive layout b w Vertical ?s1))
        = xs @ l # fst (createWorkspaceTileLeaf w ?s1) # ys"
      using splitTile_leaves [OF dist b(2), of w Vertical ?s1] by blast
    have "getWorkspaceTileLeaves (fst (splitTileRecursive layout b w Vertical ?s1))
        \<noteq> getWorkspaceTileLeaves layout"
      unfolding split(1,3) by (rule notI, drule arg_cong [of _ _ length]) simp
    then have "fst (splitTileRecursive layout b w Vertical ?s1) \<noteq> layout" by metis
    then have "tab_leaves (fst (addWorkspaceToTab tab w below s))
        = (xs @ [l]) @ fst (createWorkspaceTileLeaf w ?s1) # ys"
      using split(3) by (simp add: addWorkspaceToTab_def Some b(1) split_beta Let_def tab_leaves_def)
    then show ?thesis
      using leaves split(1,2) b(1) by (intro exI [of _ "xs @ [l]"] exI [of _ ys]) auto
  next
    case False
    then have same: "addWorkspaceToTab tab w below s = addWorkspaceToTab tab w None s"
      using Some by (cases below) (simp_all add: addWorkspaceToTab_def splitTile_absent split_beta Let_def)
    have noB: "\<not> (\<exists>b. below = Some b \<and> b \<in> set (tab_workspaces tab))" using False ws by simp
    have "\<exists>xs ys. getWorkspaceTileLeaves layout = xs @ ys \<and>
        tab_leaves (fst (addWorkspaceToTab tab w below s)) = xs @ ?new # ys"
    proof (cases layout)
      case (TileLeaf l)
      then show ?thesis
        using TileLeaf same add_below_leaves [of "TileLeaf l" ?new ?s1]
        by - (rule exI [of _ "getWorkspaceTileLeaves layout"], rule exI [of _ "[]"],
            simp add: addWorkspaceToTab_def Some split_beta Let_def tab_leaves_def)
    next
      case (TileSplit i d cs sz)
      show ?thesis
      proof (cases d)
        case Vertical
        then show ?thesis
          using same add_below_leaves [of "TileSplit i d cs sz" ?new ?s1] TileSplit
          by - (rule exI [of _ "getWorkspaceTileLeaves layout"], rule exI [of _ "[]"],
            simp add: addWorkspaceToTab_def Some split_beta Let_def tab_leaves_def)
      next
        case Horizontal
        let ?k = "smallest_index (map (\<lambda>c. length (getWorkspaceTileLeaves c)) cs)"
        have "cs \<noteq> []" using wf TileSplit by auto
        then have k: "?k < length cs"
          using smallest_index_bound [of "map (\<lambda>c. length (getWorkspaceTileLeaves c)) cs"] by simp
        have "tab_leaves (fst (addWorkspaceToTab tab w below s))
            = concat (map getWorkspaceTileLeaves (cs[?k := fst (add_below (cs ! ?k) ?new ?s1)]))"
          using same TileSplit Horizontal k
          by (simp add: addWorkspaceToTab_def Some split_beta Let_def tab_leaves_def)
        also have "\<dots> = (concat (map getWorkspaceTileLeaves (take ?k cs))
              @ getWorkspaceTileLeaves (cs ! ?k)) @ ?new # concat (map getWorkspaceTileLeaves (drop (Suc ?k) cs))"
          using k by (simp add: concat_map_update add_below_leaves)
        finally show ?thesis
          using concat_map_nth [OF k, of getWorkspaceTileLeaves] TileSplit
          by - (rule exI [of _ "concat (map getWorkspaceTileLeaves (take ?k cs))
              @ getWorkspaceTileLeaves (cs ! ?k)"],
            rule exI [of _ "concat (map getWorkspaceTileLeaves (drop (Suc ?k) cs))"], simp)
      qed
    qed
    then obtain xs ys where "tab_leaves tab = xs @ ys"
      and "tab_leaves (fst (addWorkspaceToTab tab w below s)) = xs @ ?new # ys"
      unfolding leaves by blast
    moreover have "\<forall>b. below = Some b \<and> b \<in> set (tab_workspaces tab) \<longrightarrow>
        xs \<noteq> [] \<and> tl_workspaceId (last xs) = b" for xs
      using noB by blast
    ultimately show ?thesis by metis
  qed
qed

lemma addWorkspaceToTab_wf:
  assumes "wf_tab tab"
  shows "wf_tab (fst (addWorkspaceToTab tab w below s))"
proof (cases "wt_workspaceLayout tab")
  case None
  then show ?thesis by (simp add: addWorkspaceToTab_def wf_tab_def split_beta Let_def)
next
  case (Some layout)
  have wf: "wf_tile layout" using assms Some by (simp add: wf_tab_def)
  let ?placed = "case below of None \<Rightarrow> (layout, snd (createWorkspaceTileLeaf w s))
      | Some b \<Rightarrow> splitTileRecursive layout b w Vertical (snd (createWorkspaceTileLeaf w s))"
  have placed: "wf_tile (fst ?placed)" using wf splitTile_wf by (auto split: option.splits)
  have upd: "wf_tile (TileSplit i d (cs[k := fst (add_below (cs ! k) l u)]) sz)"
    if "layout = TileSplit i d cs sz" "k < length cs" for i d cs sz k l u
  proof -
    have "list_all wf_tile (cs[k := fst (add_below (cs ! k) l u)])"
      using wf that add_below_wf by (auto simp: list_all_length nth_list_update)
    with wf that show ?thesis by (simp add: sizes_ok_def)
  qed
  show ?thesis
    using placed wf upd add_below_wf [OF wf]
    by (auto simp: addWorkspaceToTab_def Some wf_tab_def split_beta Let_def
        simp del: wf_tile.simps split: tile_node.splits)
qed

lemma addWorkspaceToTab_id [simp]: "wt_id (fst (addWorkspaceToTab tab w below s)) = wt_id tab"
  by (auto simp: addWorkspaceToTab_def split_beta Let_def split: option.splits tile_node.splits)

end
