(* ===== verification/Tile_Columns.thy ===== *)
theory Tile_Columns
  imports Tile_Edit
begin

text \<open>
  The column view of a tab, second half of \<open>apps/web/src/panels/workspace-tile-utils.ts\<close>:
  normalising a tile tree into columns, rebuilding a tree from columns, dropping a workspace
  on a frame edge, moving one below another, and the clean-up that repacks a tab into balanced
  columns. A column is a list of tile leaves, top to bottom.
\<close>

section \<open>Columns\<close>

fun getWorkspaceColumns :: "tile_node \<Rightarrow> tile_leaf list list" where
  "getWorkspaceColumns (TileLeaf l) = [[l]]"
| "getWorkspaceColumns (TileSplit i d cs sz) =
     (if d = Horizontal then map getWorkspaceTileLeaves cs
      else [getWorkspaceTileLeaves (TileSplit i d cs sz)])"

text \<open>
  \<open>JSON.stringify\<close> of a list of strings is injective, so a signature is the list itself.
\<close>

definition columnSignature :: "tile_leaf list \<Rightarrow> string list" where
  "columnSignature column = map tl_id column"

definition columnsArrangement :: "tile_leaf list list \<Rightarrow> string list list" where
  "columnsArrangement columns = map (map tl_workspaceId) columns"

fun column_nodes :: "tile_node \<Rightarrow> tile_node list" where
  "column_nodes (TileLeaf l) = [TileLeaf l]"
| "column_nodes (TileSplit i d cs sz) = (if d = Horizontal then cs else [TileSplit i d cs sz])"

definition buildPreviousColumnIndex ::
    "tile_node option \<Rightarrow> (string list \<rightharpoonup> tile_node)" where
  "buildPreviousColumnIndex previousRoot =
     (case previousRoot of
        None \<Rightarrow> Map.empty
      | Some prev \<Rightarrow>
          fold (\<lambda>(column, node) index. index(columnSignature column \<mapsto> node))
            (zip (getWorkspaceColumns prev) (column_nodes prev)) Map.empty)"

definition buildColumnNode ::
    "tile_leaf list \<Rightarrow> (string list \<rightharpoonup> tile_node) \<Rightarrow> bool \<Rightarrow> id_source
      \<Rightarrow> tile_node \<times> id_source" where
  "buildColumnNode column previousBySignature equalizeRows s =
     (case column of
        [first] \<Rightarrow> (TileLeaf first, s)
      | _ \<Rightarrow>
          (let equalSizes = equal_sizes (length column);
               fresh = (let (i, s1) = generateTileId ''ws-split'' s
                        in (TileSplit i Vertical (map TileLeaf column) equalSizes, s1))
           in case previousBySignature (columnSignature column) of
                Some (TileSplit i d cs sz) \<Rightarrow>
                  (TileSplit i Vertical (map TileLeaf column)
                     (if equalizeRows \<or> length sz \<noteq> length column then equalSizes else sz), s)
              | _ \<Rightarrow> fresh))"

record columns_options =
  co_columnSizes :: "rat list option"
  co_equalizeRows :: bool
  co_previousRoot :: "tile_node option"

definition root_id_for :: "tile_node option \<Rightarrow> id_source \<Rightarrow> string \<times> id_source" where
  "root_id_for previousRoot s =
     (case previousRoot of
        Some (TileSplit i d cs sz) \<Rightarrow>
          if d = Horizontal then (i, s) else generateTileId ''ws-split'' s
      | _ \<Rightarrow> generateTileId ''ws-split'' s)"

definition buildColumnsLayout ::
    "tile_leaf list list \<Rightarrow> columns_options \<Rightarrow> id_source \<Rightarrow> tile_node option \<times> id_source" where
  "buildColumnsLayout columns opts s =
     (let nonEmpty = filter (\<lambda>column. 0 < length column) columns
      in if length nonEmpty = 0 then (None, s)
         else
           (let previousBySignature = buildPreviousColumnIndex (co_previousRoot opts);
                (children, s1) =
                  mapS (\<lambda>column u. buildColumnNode column previousBySignature (co_equalizeRows opts) u)
                    nonEmpty s
            in case children of
                 [firstChild] \<Rightarrow> (Some firstChild, s1)
               | _ \<Rightarrow>
                   (let sizes =
                          (case co_columnSizes opts of
                             Some columnSizes \<Rightarrow>
                               if length columnSizes = length children
                                  \<and> list_all (\<lambda>size. 0 < size) columnSizes
                               then columnSizes else equal_sizes (length children)
                           | None \<Rightarrow> equal_sizes (length children));
                        (rootId, s2) = root_id_for (co_previousRoot opts) s1
                    in (Some (TileSplit rootId Horizontal children sizes), s2))))"

section \<open>Dropping a workspace on a frame edge\<close>

datatype drop_edge = EdgeTop | EdgeBottom | EdgeLeft | EdgeRight

text \<open>
  The scan of \<open>extractSourceLeaf\<close>: it takes the first leaf of the source workspace out of
  each column and remembers the last leaf taken and the last column that still holds the
  target. The mutated \<open>working\<close> columns are returned.
\<close>

definition extract_scan ::
    "string \<Rightarrow> string \<Rightarrow> nat \<times> tile_leaf list \<Rightarrow> tile_leaf option \<times> nat option
      \<Rightarrow> tile_leaf list \<times> tile_leaf option \<times> nat option" where
  "extract_scan source target ic st =
     (let (columnIndex, column) = ic;
          (sourceLeaf, targetColumn) = st;
          (column', sourceLeaf') =
            (case findIndex (\<lambda>l. tl_workspaceId l = source) column of
               Some sourceRow \<Rightarrow> (splice_remove sourceRow column, js_nth column (int sourceRow))
             | None \<Rightarrow> (column, sourceLeaf));
          targetColumn' =
            (if list_ex (\<lambda>l. tl_workspaceId l = target) column' then Some columnIndex
             else targetColumn)
      in (column', sourceLeaf', targetColumn'))"

definition extractSourceLeaf ::
    "tile_leaf list list \<Rightarrow> tile_leaf list list \<Rightarrow> string \<Rightarrow> string
      \<Rightarrow> tile_leaf list list \<times> (tile_leaf \<times> nat) option" where
  "extractSourceLeaf working originalColumns source target =
     (let (working', sourceLeaf, targetColumn) =
            mapS (extract_scan source target) (enumerate 0 working) (None, None);
          targetColumnIndex =
            (if source = target
             then findIndex (list_ex (\<lambda>l. tl_workspaceId l = source)) originalColumns
             else targetColumn)
      in (working',
          (case (sourceLeaf, targetColumnIndex) of
             (Some l, Some k) \<Rightarrow> Some (l, k)
           | _ \<Rightarrow> None)))"

text \<open>\<open>None\<close> is the result \<open>false\<close>.\<close>

definition insertLeafAtEdge ::
    "tile_leaf list list \<Rightarrow> tile_leaf \<times> nat \<Rightarrow> string \<Rightarrow> drop_edge
      \<Rightarrow> tile_leaf list list option" where
  "insertLeafAtEdge working extraction target edge =
     (let (sourceLeaf, targetColumnIndex) = extraction
      in if edge = EdgeLeft \<or> edge = EdgeRight then
           Some (splice_insert (targetColumnIndex + (if edge = EdgeRight then 1 else 0))
                   [sourceLeaf] working)
         else
           (case js_nth working (int targetColumnIndex) of
              None \<Rightarrow> None
            | Some targetColumn \<Rightarrow>
                (case findIndex (\<lambda>l. tl_workspaceId l = target) targetColumn of
                   None \<Rightarrow> None
                 | Some targetRow \<Rightarrow>
                     Some (working[targetColumnIndex :=
                       splice_insert (if edge = EdgeBottom then targetRow + 1 else targetRow)
                         sourceLeaf targetColumn]))))"

fun previous_column_sizes :: "tile_node \<Rightarrow> nat \<Rightarrow> rat list option" where
  "previous_column_sizes (TileLeaf l) n = None"
| "previous_column_sizes (TileSplit i d cs sz) n =
     (if d = Horizontal \<and> length cs = n then Some sz else None)"

definition moveWorkspaceTileToEdge ::
    "window_tab \<Rightarrow> string \<Rightarrow> string \<Rightarrow> drop_edge \<Rightarrow> id_source \<Rightarrow> window_tab \<times> id_source" where
  "moveWorkspaceTileToEdge tab source target edge s =
     (case wt_workspaceLayout tab of
        None \<Rightarrow> (tab, s)
      | Some root_node \<Rightarrow>
          if source = target \<and> (edge = EdgeTop \<or> edge = EdgeBottom) then (tab, s)
          else
            (let columns = getWorkspaceColumns root_node;
                 (working, extraction) = extractSourceLeaf columns columns source target
             in case extraction of
                  None \<Rightarrow> (tab, s)
                | Some ex \<Rightarrow>
                    (case insertLeafAtEdge working ex target edge of
                       None \<Rightarrow> (tab, s)
                     | Some inserted \<Rightarrow>
                         (let nextColumns = filter (\<lambda>column. 0 < length column) inserted
                          in if columnsArrangement nextColumns = columnsArrangement columns
                             then (tab, s)
                             else
                               (let (newLayout, s1) = buildColumnsLayout nextColumns
                                      \<lparr>co_columnSizes =
                                         previous_column_sizes root_node (length nextColumns),
                                       co_equalizeRows = False,
                                       co_previousRoot = Some root_node\<rparr> s
                                in case newLayout of
                                     None \<Rightarrow> (tab, s1)
                                   | Some n \<Rightarrow> (tab\<lparr>wt_workspaceLayout := Some n\<rparr>, s1))))))"

section \<open>Moving a workspace below another\<close>

text \<open>The result \<open>{ handled, node }\<close> is a pair.\<close>

definition insert_below ::
    "string \<Rightarrow> split_direction \<Rightarrow> tile_node list \<Rightarrow> string \<Rightarrow> nat \<Rightarrow> nat \<Rightarrow> rat list
      \<Rightarrow> bool \<times> tile_node" where
  "insert_below i d cs parent sourceIndex parentIndex sz =
     (if sourceIndex = parentIndex + 1
      then (True, TileSplit i d cs (equal_sizes (length cs)))
      else
        (let children = splice_remove sourceIndex cs;
             row = (case findIndex (isTileOf parent) children of None \<Rightarrow> 0 | Some k \<Rightarrow> k + 1)
         in case js_nth cs (int sourceIndex) of
              None \<Rightarrow> (False, TileSplit i d cs sz)
            | Some source \<Rightarrow>
                (let children' = splice_insert row source children
                 in (True, TileSplit i d children' (equal_sizes (length children'))))))"

fun moveBelowInSharedColumn :: "tile_node \<Rightarrow> string \<Rightarrow> string \<Rightarrow> bool \<times> tile_node" where
  "moveBelowInSharedColumn (TileLeaf l) source parent = (False, TileLeaf l)"
| "moveBelowInSharedColumn (TileSplit i d cs sz) source parent =
     (let results = map (\<lambda>c. moveBelowInSharedColumn c source parent) cs;
          deeper =
            (case findIndex fst results of
               None \<Rightarrow> (False, TileSplit i d cs sz)
             | Some index \<Rightarrow> (True, TileSplit i d (cs[index := snd (results ! index)]) sz))
      in if d = Vertical then
           (case (findIndex (isTileOf source) cs, findIndex (isTileOf parent) cs) of
              (Some sourceIndex, Some parentIndex) \<Rightarrow>
                insert_below i d cs parent sourceIndex parentIndex sz
            | _ \<Rightarrow> deeper)
         else deeper)"

definition moveWorkspaceTileBelow ::
    "window_tab \<Rightarrow> string \<Rightarrow> string \<Rightarrow> id_source \<Rightarrow> window_tab \<times> id_source" where
  "moveWorkspaceTileBelow tab source parent s =
     (case wt_workspaceLayout tab of
        None \<Rightarrow> (tab, s)
      | Some root_node \<Rightarrow>
          (let (handled, node) = moveBelowInSharedColumn root_node source parent
           in if handled then
                (if node = root_node then (tab, s)
                 else (tab\<lparr>wt_workspaceLayout := Some node\<rparr>, s))
              else moveWorkspaceTileToEdge tab source parent EdgeBottom s))"

section \<open>Cleaning up\<close>

definition MIN_WORKSPACE_COLUMN_WIDTH_PX :: rat where "MIN_WORKSPACE_COLUMN_WIDTH_PX = 500"

definition MIN_WORKSPACE_TILE_HEIGHT_PX :: rat where "MIN_WORKSPACE_TILE_HEIGHT_PX = 352"

definition MAX_WORKSPACE_ROWS_PER_COLUMN :: nat where "MAX_WORKSPACE_ROWS_PER_COLUMN = 4"

text \<open>A measurement: \<open>None\<close> is a number that is not finite (\<open>NaN\<close>, an infinity).\<close>

record content_area =
  area_heightPx :: "rat option"
  area_widthPx :: "rat option"

definition usableSize :: "rat option \<Rightarrow> rat \<Rightarrow> rat" where
  "usableSize measured minimum =
     (case measured of Some px \<Rightarrow> if 0 < px then px else minimum | None \<Rightarrow> minimum)"

definition rows_per_column :: "content_area \<Rightarrow> rat \<Rightarrow> int" where
  "rows_per_column area minTileHeightPx =
     max 1 (min (int MAX_WORKSPACE_ROWS_PER_COLUMN)
              \<lfloor>usableSize (area_heightPx area) minTileHeightPx / minTileHeightPx\<rfloor>)"

definition computeCleanUpColumnCount ::
    "nat \<Rightarrow> content_area \<Rightarrow> rat \<Rightarrow> rat \<Rightarrow> nat" where
  "computeCleanUpColumnCount tileCount area minColumnWidthPx minTileHeightPx =
     (let width = usableSize (area_widthPx area) minColumnWidthPx;
          rowsPerColumn = rows_per_column area minTileHeightPx;
          columnsForHeight = \<lceil>(of_nat tileCount :: rat) / of_int rowsPerColumn\<rceil>;
          columnsForWidth = max 1 \<lfloor>width / minColumnWidthPx\<rfloor>
      in nat (min (int tileCount) (min columnsForWidth columnsForHeight)))"

text \<open>The loop that deals the leaves out: column \<open>i\<close> gets \<open>base\<close> leaves, or one more.\<close>

fun deal_columns :: "nat \<Rightarrow> nat \<Rightarrow> nat \<Rightarrow> nat \<Rightarrow> tile_leaf list \<Rightarrow> tile_leaf list list" where
  "deal_columns i 0 base extra leaves = []"
| "deal_columns i (Suc n) base extra leaves =
     (let size = base + (if i < extra then 1 else 0)
      in take size leaves # deal_columns (Suc i) n base extra (drop size leaves))"

definition cleanUpWorkspaceTiles ::
    "window_tab \<Rightarrow> content_area \<Rightarrow> rat \<Rightarrow> rat \<Rightarrow> id_source \<Rightarrow> window_tab \<times> id_source" where
  "cleanUpWorkspaceTiles tab area minColumnWidthPx minTileHeightPx s =
     (case wt_workspaceLayout tab of
        None \<Rightarrow> (tab, s)
      | Some root_node \<Rightarrow>
          (let leaves = concat (getWorkspaceColumns root_node);
               tileCount = length leaves
           in if tileCount = 0 then (tab, s)
              else
                (let columnCount =
                       computeCleanUpColumnCount tileCount area minColumnWidthPx minTileHeightPx;
                     nextColumns = deal_columns 0 columnCount (tileCount div columnCount)
                       (tileCount mod columnCount) leaves;
                     (newLayout, s1) = buildColumnsLayout nextColumns
                       \<lparr>co_columnSizes = None, co_equalizeRows = True,
                        co_previousRoot = Some root_node\<rparr> s
                 in case newLayout of
                      None \<Rightarrow> (tab, s1)
                    | Some n \<Rightarrow> (tab\<lparr>wt_workspaceLayout := Some n\<rparr>, s1))))"

end
