(* ===== verification/Column_Moves.thy ===== *)
theory Column_Moves
  imports Column_Facts
begin

text \<open>
  Drag and drop and clean-up on the columns of a tab: no tile is lost or duplicated, the
  dragged workspace ends up on the requested side of its target, and the clean-up keeps the
  reading order in balanced columns.
\<close>

section \<open>Taking the source out\<close>

lemma extract_scan_columns:
  assumes "\<And>c. c \<in> set cols \<Longrightarrow> distinct (map tl_workspaceId c)"
  shows "fst (mapS (extract_scan s t) (enumerate n cols) st)
       = map (filter (\<lambda>l. tl_workspaceId l \<noteq> s)) cols"
  using assms
proof (induction cols arbitrary: n st)
  case Nil
  then show ?case by simp
next
  case (Cons c cs)
  have "fst (extract_scan s t (n, c) st) = filter (\<lambda>l. tl_workspaceId l \<noteq> s) c"
    using splice_remove_first [of tl_workspaceId c s] Cons.prems [of c]
      findIndex_None_filter [of tl_workspaceId s c]
    by (auto simp: extract_scan_def split_beta Let_def split: option.splits)
  with Cons show ?case by (simp add: split_beta Let_def)
qed

lemma extract_scan_source:
  "let r = fst (snd (mapS (extract_scan s t) (enumerate n cols) st))
   in (s \<in> tl_workspaceId ` set (concat cols) \<longrightarrow>
         (\<exists>l\<in>set (concat cols). r = Some l \<and> tl_workspaceId l = s)) \<and>
      (s \<notin> tl_workspaceId ` set (concat cols) \<longrightarrow> r = fst st)"
proof (induction cols arbitrary: n st)
  case Nil
  then show ?case by simp
next
  case (Cons c cs)
  let ?st = "snd (extract_scan s t (n, c) st)"
  show ?case
  proof (cases "findIndex (\<lambda>l. tl_workspaceId l = s) c")
    case None
    then have "s \<notin> tl_workspaceId ` set c" by (auto simp: findIndex_None)
    moreover have "fst ?st = fst st"
      using None by (simp add: extract_scan_def split_beta Let_def)
    ultimately show ?thesis
      using Cons.IH [of "Suc n" ?st] by (auto simp: split_beta Let_def image_Un)
  next
    case (Some k)
    have k: "k < length c" "tl_workspaceId (c ! k) = s" using findIndex_SomeD [OF Some] by auto
    then have "fst ?st = Some (c ! k)"
      using Some by (simp add: extract_scan_def split_beta Let_def)
    with k Cons.IH [of "Suc n" ?st] show ?thesis
      by (auto simp: split_beta Let_def image_Un)
  qed
qed

lemma extract_scan_target:
  assumes "\<And>c. c \<in> set cols \<Longrightarrow> distinct (map tl_workspaceId c)" and "s \<noteq> t"
  shows "let r = snd (snd (mapS (extract_scan s t) (enumerate n cols) st))
   in (\<exists>k<length cols. r = Some (n + k) \<and> t \<in> tl_workspaceId ` set (cols ! k)) \<or>
      (t \<notin> tl_workspaceId ` set (concat cols) \<and> r = snd st)"
  using assms(1)
proof (induction cols arbitrary: n st)
  case Nil
  then show ?case by simp
next
  case (Cons c cs)
  let ?st = "snd (extract_scan s t (n, c) st)"
  let ?r = "snd (snd (mapS (extract_scan s t) (enumerate (Suc n) cs) ?st))"
  have r: "snd (snd (mapS (extract_scan s t) (enumerate n (c # cs)) st)) = ?r"
    by (simp add: split_beta Let_def)
  have "fst (extract_scan s t (n, c) st) = filter (\<lambda>l. tl_workspaceId l \<noteq> s) c"
    using splice_remove_first [of tl_workspaceId c s] Cons.prems [of c]
      findIndex_None_filter [of tl_workspaceId s c]
    by (auto simp: extract_scan_def split_beta Let_def split: option.splits)
  then have "snd ?st = (if list_ex (\<lambda>l. tl_workspaceId l = t) (filter (\<lambda>l. tl_workspaceId l \<noteq> s) c)
      then Some n else snd st)"
    by (simp add: extract_scan_def split_beta Let_def)
  then have st: "snd ?st = (if t \<in> tl_workspaceId ` set c then Some n else snd st)"
    using assms(2) by (auto simp: list_ex_iff)
  from Cons.IH [of "Suc n" ?st] Cons.prems consider
      (later) k where "k < length cs" "?r = Some (Suc n + k)" "t \<in> tl_workspaceId ` set (cs ! k)"
    | (here) "t \<notin> tl_workspaceId ` set (concat cs)" "?r = snd ?st"
    by (auto simp: Let_def)
  then show ?case
  proof cases
    case later
    then have "\<exists>j<length (c # cs). ?r = Some (n + j) \<and> t \<in> tl_workspaceId ` set ((c # cs) ! j)"
      by (intro exI [of _ "Suc k"]) simp
    then show ?thesis unfolding r by simp
  next
    case here
    show ?thesis
    proof (cases "t \<in> tl_workspaceId ` set c")
      case True
      then have "\<exists>j<length (c # cs). ?r = Some (n + j) \<and> t \<in> tl_workspaceId ` set ((c # cs) ! j)"
        using here st by (intro exI [of _ 0]) simp
      then show ?thesis unfolding r by simp
    next
      case False
      with here st show ?thesis unfolding r by (auto simp: Let_def)
    qed
  qed
qed

lemma extractSourceLeaf_working:
  assumes "\<And>c. c \<in> set cols \<Longrightarrow> distinct (map tl_workspaceId c)"
  shows "fst (extractSourceLeaf cols orig s t) = map (filter (\<lambda>l. tl_workspaceId l \<noteq> s)) cols"
  using extract_scan_columns [OF assms, where n = 0 and st = "(None, None)" and s = s and t = t]
  by (simp add: extractSourceLeaf_def split_beta Let_def)

lemma extractSourceLeaf_Some:
  assumes "snd (extractSourceLeaf cols orig s t) = Some (l, k)"
  shows "l \<in> set (concat cols) \<and> tl_workspaceId l = s"
  using assms extract_scan_source [of s t 0 cols "(None, None)"]
  by (auto simp: extractSourceLeaf_def split_beta Let_def split: option.splits)

lemma extractSourceLeaf_found:
  assumes "\<And>c. c \<in> set cols \<Longrightarrow> distinct (map tl_workspaceId c)" and "s \<noteq> t"
    and "s \<in> tl_workspaceId ` set (concat cols)" and "t \<in> tl_workspaceId ` set (concat cols)"
  shows "\<exists>l k. snd (extractSourceLeaf cols orig s t) = Some (l, k) \<and> tl_workspaceId l = s \<and>
           k < length cols \<and> t \<in> tl_workspaceId ` set (cols ! k)"
proof -
  obtain l where l: "fst (snd (mapS (extract_scan s t) (enumerate 0 cols) (None, None))) = Some l"
    "tl_workspaceId l = s"
    using extract_scan_source [of s t 0 cols "(None, None)"] assms(3) by (auto simp: Let_def)
  obtain k where k: "k < length cols" "t \<in> tl_workspaceId ` set (cols ! k)"
    "snd (snd (mapS (extract_scan s t) (enumerate 0 cols) (None, None))) = Some k"
    using extract_scan_target [of cols s t 0 "(None, None)"] assms(1,2,4)
    unfolding Let_def by fastforce
  show ?thesis
    using l k assms(2) by (simp add: extractSourceLeaf_def split_beta Let_def)
qed

section \<open>Putting it back\<close>

lemma insertLeafAtEdge_mset:
  assumes "insertLeafAtEdge w (l, k) t e = Some w'"
  shows "mset (concat w') = add_mset l (mset (concat w))"
proof (cases "e = EdgeLeft \<or> e = EdgeRight")
  case True
  have cut: "concat w = concat (take m w) @ concat (drop m w)" for m
    by (metis append_take_drop_id concat_append)
  from True assms obtain m where "w' = splice_insert m [l] w"
    by (auto simp: insertLeafAtEdge_def)
  then have "mset (concat w') = add_mset l (mset (concat (take m w) @ concat (drop m w)))"
    by (simp add: splice_insert_def)
  then show ?thesis using cut [of m] by metis
next
  case False
  with assms obtain r where k: "k < length w" and w': "w' = w[k := splice_insert r l (w ! k)]"
    by (auto simp: insertLeafAtEdge_def split: option.splits if_splits)
  have "concat w' = concat (take k w) @ splice_insert r l (w ! k) @ concat (drop (Suc k) w)"
    using concat_map_update [OF k, of "\<lambda>x. x" "splice_insert r l (w ! k)"] w' by simp
  moreover have "concat w = concat (take k w) @ w ! k @ concat (drop (Suc k) w)"
    using concat_map_nth [OF k, of "\<lambda>x. x"] by simp
  ultimately show ?thesis by (simp add: mset_splice_insert)
qed

text \<open>What each edge asks of the arrangement of workspaces in columns.\<close>

fun placed_at :: "drop_edge \<Rightarrow> string \<Rightarrow> string \<Rightarrow> string list list \<Rightarrow> bool" where
  "placed_at EdgeBottom s t cols = (\<exists>xs ys. xs @ t # s # ys \<in> set cols)"
| "placed_at EdgeTop s t cols = (\<exists>xs ys. xs @ s # t # ys \<in> set cols)"
| "placed_at EdgeLeft s t cols = (\<exists>as c bs. cols = as @ [s] # c # bs \<and> t \<in> set c)"
| "placed_at EdgeRight s t cols = (\<exists>as c bs. cols = as @ c # [s] # bs \<and> t \<in> set c)"

lemma columnsArrangement_append [simp]:
  "columnsArrangement (xs @ ys) = columnsArrangement xs @ columnsArrangement ys"
  "columnsArrangement (c # cs) = map tl_workspaceId c # columnsArrangement cs"
  by (simp_all add: columnsArrangement_def)

lemma insertLeafAtEdge_placed:
  assumes "k < length w" and "t \<in> tl_workspaceId ` set (w ! k)"
  shows "\<exists>w'. insertLeafAtEdge w (l, k) t e = Some w' \<and>
     placed_at e (tl_workspaceId l) t (columnsArrangement (filter (\<lambda>c. 0 < length c) w'))"
proof -
  have ne: "w ! k \<noteq> []" using assms(2) by auto
  from assms(2) have "findIndex (\<lambda>x. tl_workspaceId x = t) (w ! k) \<noteq> None"
    by (auto simp: findIndex_None)
  then obtain r where r: "findIndex (\<lambda>x. tl_workspaceId x = t) (w ! k) = Some r" by auto
  have rl: "r < length (w ! k)" and rt: "tl_workspaceId (w ! k ! r) = t"
    using findIndex_SomeD [OF r] by auto
  have mem: "map tl_workspaceId c \<in> set (columnsArrangement (filter (\<lambda>c. 0 < length c) (w[k := c])))"
    if "c \<noteq> []" for c
    using assms(1) that by (simp add: columnsArrangement_def set_update_memI)
  show ?thesis
  proof (cases e)
    case EdgeTop
    let ?c = "splice_insert r l (w ! k)"
    have "map tl_workspaceId ?c = map tl_workspaceId (take r (w ! k)) @ tl_workspaceId l # t
        # map tl_workspaceId (drop (Suc r) (w ! k))"
      by (simp add: splice_insert_here [OF rl] rt)
    with mem [of ?c] have "placed_at EdgeTop (tl_workspaceId l) t
        (columnsArrangement (filter (\<lambda>c. 0 < length c) (w[k := ?c])))"
      by (auto simp: splice_insert_def)
    then show ?thesis using EdgeTop r assms(1) by (simp add: insertLeafAtEdge_def)
  next
    case EdgeBottom
    let ?c = "splice_insert (Suc r) l (w ! k)"
    have "map tl_workspaceId ?c = map tl_workspaceId (take r (w ! k)) @ t # tl_workspaceId l
        # map tl_workspaceId (drop (Suc r) (w ! k))"
      by (simp add: splice_insert_next [OF rl] rt)
    with mem [of ?c] have "placed_at EdgeBottom (tl_workspaceId l) t
        (columnsArrangement (filter (\<lambda>c. 0 < length c) (w[k := ?c])))"
      by (auto simp: splice_insert_def)
    then show ?thesis using EdgeBottom r assms(1) by (simp add: insertLeafAtEdge_def)
  next
    case EdgeLeft
    then show ?thesis
      using assms ne by (fastforce simp: insertLeafAtEdge_def splice_insert_here [OF assms(1)])
  next
    case EdgeRight
    then show ?thesis
      using assms ne by (fastforce simp: insertLeafAtEdge_def splice_insert_next [OF assms(1)])
  qed
qed

section \<open>Drops\<close>

lemma tab_leaves_columns:
  "wt_workspaceLayout tab = Some n \<Longrightarrow> concat (getWorkspaceColumns n) = tab_leaves tab"
  by (simp add: concat_columns tab_leaves_def)

lemma distinct_column:
  "distinct (map f (concat cols)) \<Longrightarrow> c \<in> set cols \<Longrightarrow> distinct (map f c)"
  by (induction cols) auto

definition tab_arrangement :: "window_tab \<Rightarrow> string list list" where
  "tab_arrangement tab = (case wt_workspaceLayout tab of
     None \<Rightarrow> [] | Some n \<Rightarrow> columnsArrangement (getWorkspaceColumns n))"

text \<open>A drop either changes nothing or rebuilds the tab from the edited columns.\<close>

lemma moveToEdge_cases:
  obtains (same) "fst (moveWorkspaceTileToEdge tab s t e u) = tab"
  | (moved) n l k w' n' where "wt_workspaceLayout tab = Some n"
      "snd (extractSourceLeaf (getWorkspaceColumns n) (getWorkspaceColumns n) s t) = Some (l, k)"
      "insertLeafAtEdge (fst (extractSourceLeaf (getWorkspaceColumns n) (getWorkspaceColumns n) s t))
         (l, k) t e = Some w'"
      "fst (buildColumnsLayout (filter (\<lambda>c. 0 < length c) w')
         \<lparr>co_columnSizes = previous_column_sizes n (length (filter (\<lambda>c. 0 < length c) w')),
          co_equalizeRows = False, co_previousRoot = Some n\<rparr> u) = Some n'"
      "fst (moveWorkspaceTileToEdge tab s t e u) = tab\<lparr>wt_workspaceLayout := Some n'\<rparr>"
proof (cases "fst (moveWorkspaceTileToEdge tab s t e u) = tab")
  case True
  then show thesis by (rule same)
next
  case False
  then show thesis
    by (auto simp: moveWorkspaceTileToEdge_def split_beta Let_def simp del: length_greater_0_conv
        split: option.splits if_splits intro: moved)
qed

lemma moveToEdge_mset:
  assumes "distinct (tab_workspaces tab)"
  shows "mset (tab_leaves (fst (moveWorkspaceTileToEdge tab s t e u))) = mset (tab_leaves tab)"
proof (cases rule: moveToEdge_cases [of tab s t e u])
  case same
  then show ?thesis by simp
next
  case (moved n l k w' n')
  let ?cols = "getWorkspaceColumns n"
  have cols: "concat ?cols = tab_leaves tab" by (rule tab_leaves_columns [OF moved(1)])
  have d: "distinct (map tl_workspaceId (concat ?cols))"
    using assms by (simp add: cols tab_workspaces_def)
  have l: "l \<in> set (tab_leaves tab)" "tl_workspaceId l = s"
    using extractSourceLeaf_Some [OF moved(2)] cols by auto
  have w: "fst (extractSourceLeaf ?cols ?cols s t) = map (filter (\<lambda>l. tl_workspaceId l \<noteq> s)) ?cols"
    by (rule extractSourceLeaf_working) (rule distinct_column [OF d])
  have "mset (tab_leaves (fst (moveWorkspaceTileToEdge tab s t e u)))
      = mset (concat (filter (\<lambda>c. 0 < length c) w'))"
    using buildColumnsLayout_leaves moved(4,5) by (metis opt_tile_leaves_simps(2) option.sel
        tab_leaves_def window_tab.select_convs(4) window_tab.surjective window_tab.update_convs(4))
  also have "concat (filter (\<lambda>c. 0 < length c) w') = concat w'" by (induction w') auto
  also have "mset (concat w') = add_mset l (mset (filter (\<lambda>y. tl_workspaceId y \<noteq> s) (tab_leaves tab)))"
    using insertLeafAtEdge_mset [OF moved(3)] by (simp add: w filter_concat [symmetric] cols)
  also have "\<dots> = mset (tab_leaves tab)"
    using distinct_map_pick [of tl_workspaceId "tab_leaves tab" l] assms l
    by (simp add: tab_workspaces_def)
  finally show ?thesis .
qed

lemma moveToEdge_wf:
  assumes "wf_tab tab"
  shows "wf_tab (fst (moveWorkspaceTileToEdge tab s t e u))"
proof (cases rule: moveToEdge_cases [of tab s t e u])
  case same
  then show ?thesis using assms by simp
next
  case (moved n l k w' n')
  have "wf_tile n'"
    by (rule buildColumnsLayout_wf [OF _ moved(4)]) (use assms moved(1) in \<open>simp add: wf_tab_def\<close>)
  then show ?thesis by (simp add: moved(5) wf_tab_def)
qed

lemma moveToEdge_placed:
  assumes "distinct (tab_workspaces tab)" and "s \<noteq> t"
    and "s \<in> set (tab_workspaces tab)" and "t \<in> set (tab_workspaces tab)"
  shows "placed_at e s t (tab_arrangement (fst (moveWorkspaceTileToEdge tab s t e u)))"
proof -
  obtain n where n: "wt_workspaceLayout tab = Some n"
    using assms(3) by (cases "wt_workspaceLayout tab") (auto simp: tab_workspaces_def tab_leaves_def)
  let ?cols = "getWorkspaceColumns n"
  have cols: "concat ?cols = tab_leaves tab" by (rule tab_leaves_columns [OF n])
  have d: "distinct (map tl_workspaceId (concat ?cols))"
    using assms(1) by (simp add: cols tab_workspaces_def)
  note dc = distinct_column [OF d]
  let ?w = "map (filter (\<lambda>l. tl_workspaceId l \<noteq> s)) ?cols"
  have w: "fst (extractSourceLeaf ?cols ?cols s t) = ?w" by (rule extractSourceLeaf_working) (rule dc)
  obtain l k where ex: "snd (extractSourceLeaf ?cols ?cols s t) = Some (l, k)"
    and l: "tl_workspaceId l = s" and k: "k < length ?cols" "t \<in> tl_workspaceId ` set (?cols ! k)"
    using extractSourceLeaf_found [of ?cols s t ?cols] dc assms(2,3,4)
    unfolding cols tab_workspaces_def set_map by blast
  have "k < length ?w" "t \<in> tl_workspaceId ` set (?w ! k)" using k assms(2) by auto
  from insertLeafAtEdge_placed [OF this, of l e] obtain w' where
    ins: "insertLeafAtEdge ?w (l, k) t e = Some w'"
    and placed: "placed_at e s t (columnsArrangement (filter (\<lambda>c. 0 < length c) w'))"
    by (auto simp: l)
  let ?next = "filter (\<lambda>c. 0 < length c) w'"
  have "concat ?next = concat w'" by (induction w') auto
  moreover have "mset (concat w') \<noteq> {#}" using insertLeafAtEdge_mset [OF ins] by simp
  ultimately have ne: "?next \<noteq> []" by (metis concat.simps(1) mset.simps(1))
  let ?opts = "\<lparr>co_columnSizes = previous_column_sizes n (length ?next),
      co_equalizeRows = False, co_previousRoot = Some n\<rparr>"
  have build: "\<exists>n'. fst (buildColumnsLayout ?next ?opts u) = Some n'"
  proof (cases rule: buildColumnsLayout_cases [of ?next ?opts u])
    case none
    with ne show ?thesis by (simp add: filter_empty_conv)
  qed auto
  then obtain n' where n': "fst (buildColumnsLayout ?next ?opts u) = Some n'" by blast
  show ?thesis
  proof (cases "columnsArrangement ?next = columnsArrangement ?cols")
    case True
    then have "fst (moveWorkspaceTileToEdge tab s t e u) = tab"
      using n assms(2) ex ins w by (simp add: moveWorkspaceTileToEdge_def split_beta Let_def)
    with True placed n show ?thesis by (simp add: tab_arrangement_def)
  next
    case False
    then have "fst (moveWorkspaceTileToEdge tab s t e u) = tab\<lparr>wt_workspaceLayout := Some n'\<rparr>"
      using n assms(2) ex ins w n' unfolding moveWorkspaceTileToEdge_def Let_def
      by (simp add: split_beta del: length_greater_0_conv)
    moreover have "getWorkspaceColumns n' = ?next"
      using getWorkspaceColumns_build [OF n'] by simp
    ultimately show ?thesis using placed by (simp add: tab_arrangement_def)
  qed
qed

section \<open>Moving below\<close>

lemma concat_map_mset_eq: "mset xs = mset ys \<Longrightarrow> mset (concat (map f xs)) = mset (concat (map f ys))"
  by (simp add: mset_concat_map)

lemma insert_below_mset:
  assumes "k < length cs"
  shows "mset (getWorkspaceTileLeaves (snd (insert_below i d cs p k m sz)))
       = mset (getWorkspaceTileLeaves (TileSplit i d cs sz))"
  using assms
  by (auto simp: insert_below_def Let_def mset_splice_move intro!: concat_map_mset_eq)

lemma insert_below_wf:
  assumes "wf_tile (TileSplit i d cs sz)" and "k < length cs"
  shows "wf_tile (snd (insert_below i d cs p k m sz))"
proof -
  have "set (splice_insert j (cs ! k) (splice_remove k cs)) = set cs" for j
    by (rule mset_eq_setD) (rule mset_splice_move [OF assms(2)])
  moreover have "length (splice_insert j (cs ! k) (splice_remove k cs)) = length cs" for j
    using assms(2) by (simp add: length_splice_remove)
  ultimately show ?thesis using assms by (simp add: insert_below_def Let_def list_all_iff)
qed

lemma insert_below_adjacent:
  assumes "findIndex (isTileOf s) cs = Some k" and "findIndex (isTileOf p) cs = Some m"
    and "s \<noteq> p"
  shows "\<exists>as z bs. tile_workspaces (snd (insert_below i d cs p k m sz)) = as @ p # s # bs"
proof -
  have k: "k < length cs" "isTileOf s (cs ! k)" and m: "m < length cs" "isTileOf p (cs ! m)"
    using findIndex_SomeD [OF assms(1)] findIndex_SomeD [OF assms(2)] by auto
  have adj: "\<exists>as bs. concat (map tile_workspaces (as' @ cs ! m # cs ! k # bs')) = as @ p # s # bs"
    for as' bs'
    using isTileOf_workspaces [OF k(2)] isTileOf_workspaces [OF m(2)] by auto
  show ?thesis
  proof (cases "k = m + 1")
    case True
    then have cs: "cs = take m cs @ cs ! m # cs ! k # drop (Suc k) cs"
      using adjacent_split [of m cs] k(1) by simp
    have "tile_workspaces (snd (insert_below i d cs p k m sz)) = concat (map tile_workspaces cs)"
      using True by (simp add: insert_below_def)
    also have "\<dots> = concat (map tile_workspaces (take m cs @ cs ! m # cs ! k # drop (Suc k) cs))"
      by (rule arg_cong [OF cs])
    finally show ?thesis using adj [of "take m cs" "drop (Suc k) cs"] by simp
  next
    case False
    let ?r = "splice_remove k cs"
    have "cs ! k \<noteq> cs ! m" using k(2) m(2) assms(3) by (auto simp: isTileOf_iff)
    moreover have "cs ! m \<in># add_mset (cs ! k) (mset ?r)"
      using m(1) mset_splice_remove [OF k(1)] by simp
    ultimately have "cs ! m \<in> set ?r" by simp
    then obtain q where q: "findIndex (isTileOf p) ?r = Some q"
      using m(2) by (cases "findIndex (isTileOf p) ?r") (auto simp: findIndex_None)
    have ql: "q < length ?r" and qp: "isTileOf p (?r ! q)" using findIndex_SomeD [OF q] by auto
    have lenc: "Suc (length cs - Suc 0) = length cs" using k(1) by simp
    have "snd (insert_below i d cs p k m sz)
        = TileSplit i d (take q ?r @ ?r ! q # cs ! k # drop (Suc q) ?r) (equal_sizes (length cs))"
      using False q k(1) splice_insert_next [OF ql, of "cs ! k"] lenc
      by (simp add: insert_below_def Let_def length_splice_remove)
    then show ?thesis
      using isTileOf_workspaces [OF k(2)] isTileOf_workspaces [OF qp] by auto
  qed
qed

lemma moveBelow_split_cases:
  obtains (here) k m where "d = Vertical" "findIndex (isTileOf s) cs = Some k"
      "findIndex (isTileOf p) cs = Some m"
      "moveBelowInSharedColumn (TileSplit i d cs sz) s p = insert_below i d cs p k m sz"
  | (deeper) k where "k < length cs" "fst (moveBelowInSharedColumn (cs ! k) s p)"
      "moveBelowInSharedColumn (TileSplit i d cs sz) s p
         = (True, TileSplit i d (cs[k := snd (moveBelowInSharedColumn (cs ! k) s p)]) sz)"
  | (none) "moveBelowInSharedColumn (TileSplit i d cs sz) s p = (False, TileSplit i d cs sz)"
proof -
  let ?results = "map (\<lambda>c. moveBelowInSharedColumn c s p) cs"
  let ?deeper = "case findIndex fst ?results of
      None \<Rightarrow> (False, TileSplit i d cs sz)
    | Some index \<Rightarrow> (True, TileSplit i d (cs[index := snd (?results ! index)]) sz)"
  consider (h) k m where "d = Vertical" "findIndex (isTileOf s) cs = Some k"
      "findIndex (isTileOf p) cs = Some m"
    | (d) "moveBelowInSharedColumn (TileSplit i d cs sz) s p = ?deeper"
  proof (cases "d = Vertical \<and> findIndex (isTileOf s) cs \<noteq> None \<and> findIndex (isTileOf p) cs \<noteq> None")
    case True
    then show thesis using h by blast
  next
    case False
    show thesis by (rule d) (use False in \<open>auto simp: Let_def split: option.splits\<close>)
  qed
  then show thesis
  proof cases
    case h
    then show thesis by (intro here) simp_all
  next
    case d
    show thesis
    proof (cases "findIndex fst ?results")
      case None
      with d show thesis by (intro none) simp
    next
      case (Some k)
      from findIndex_SomeD [OF Some] have "k < length cs" "fst (moveBelowInSharedColumn (cs ! k) s p)"
        by simp_all
      with d Some show thesis by (intro deeper) simp_all
    qed
  qed
qed

lemma moveBelow_facts:
  "mset (getWorkspaceTileLeaves (snd (moveBelowInSharedColumn n s p)))
     = mset (getWorkspaceTileLeaves n) \<and>
   (wf_tile n \<longrightarrow> wf_tile (snd (moveBelowInSharedColumn n s p))) \<and>
   (fst (moveBelowInSharedColumn n s p) \<and> s \<noteq> p \<longrightarrow>
     (\<exists>as bs. tile_workspaces (snd (moveBelowInSharedColumn n s p)) = as @ p # s # bs))"
proof (induction n)
  case (TileLeaf l)
  then show ?case by simp
next
  case (TileSplit i d cs sz)
  show ?case
  proof (cases rule: moveBelow_split_cases [of d s cs p i sz])
    case (here k m)
    from findIndex_SomeD(1) [OF here(2)] have k: "k < length cs" .
    show ?thesis
      unfolding here(4)
      using insert_below_mset [OF k, of i d p m sz] insert_below_wf [OF _ k, of i d sz p m]
        insert_below_adjacent [OF here(2,3), of i d sz] by simp
  next
    case (deeper k)
    let ?c = "snd (moveBelowInSharedColumn (cs ! k) s p)"
    note IH = TileSplit.IH [OF nth_mem [OF deeper(1)]]
    have "mset (concat (map getWorkspaceTileLeaves (cs[k := ?c])))
        = mset (concat (map getWorkspaceTileLeaves cs))"
      using IH by (simp add: concat_map_update [OF deeper(1)] concat_map_nth [OF deeper(1)])
    moreover have "wf_tile (TileSplit i d (cs[k := ?c]) sz)" if "wf_tile (TileSplit i d cs sz)"
      using that IH deeper(1) by (auto simp: sizes_ok_def list_all_length nth_list_update)
    moreover have "\<exists>as bs. tile_workspaces (TileSplit i d (cs[k := ?c]) sz) = as @ p # s # bs"
      if "s \<noteq> p"
    proof -
      obtain as bs where "tile_workspaces ?c = as @ p # s # bs" using IH deeper(2) \<open>s \<noteq> p\<close> by auto
      then have "tile_workspaces (TileSplit i d (cs[k := ?c]) sz)
          = (concat (map tile_workspaces (take k cs)) @ as) @ p # s
            # bs @ concat (map tile_workspaces (drop (Suc k) cs))"
        by (simp add: concat_map_update [OF deeper(1)])
      then show ?thesis by blast
    qed
    ultimately show ?thesis unfolding deeper(3) by simp
  next
    case none
    then show ?thesis unfolding none by simp
  qed
qed

lemma moveWorkspaceTileBelow_mset:
  assumes "distinct (tab_workspaces tab)"
  shows "mset (tab_leaves (fst (moveWorkspaceTileBelow tab s p u))) = mset (tab_leaves tab)"
proof (cases "wt_workspaceLayout tab")
  case None
  then show ?thesis by (simp add: moveWorkspaceTileBelow_def)
next
  case (Some n)
  then show ?thesis
    using moveBelow_facts [of n s p] moveToEdge_mset [OF assms, of s p EdgeBottom u]
    by (simp add: moveWorkspaceTileBelow_def split_beta tab_leaves_def)
qed

lemma moveWorkspaceTileBelow_wf:
  assumes "wf_tab tab"
  shows "wf_tab (fst (moveWorkspaceTileBelow tab s p u))"
proof (cases "wt_workspaceLayout tab")
  case None
  then show ?thesis using assms by (simp add: moveWorkspaceTileBelow_def)
next
  case (Some n)
  then have "wf_tile n" using assms by (simp add: wf_tab_def)
  with Some show ?thesis
    using moveBelow_facts [of n s p] moveToEdge_wf [OF assms, of s p EdgeBottom u] assms
    by (simp add: moveWorkspaceTileBelow_def split_beta) (simp add: wf_tab_def)
qed

lemma placed_bottom_adjacent:
  "placed_at EdgeBottom s t cols \<Longrightarrow> \<exists>as bs. concat cols = as @ t # s # bs"
proof -
  assume "placed_at EdgeBottom s t cols"
  then obtain xs ys where "xs @ t # s # ys \<in> set cols" by auto
  then obtain us vs where "cols = us @ (xs @ t # s # ys) # vs" by (meson split_list)
  then have "concat cols = (concat us @ xs) @ t # s # ys @ concat vs" by simp
  then show ?thesis by blast
qed

lemma concat_arrangement: "concat (tab_arrangement tab) = tab_workspaces tab"
  by (auto simp: tab_arrangement_def columnsArrangement_def tab_workspaces_def tab_leaves_def
      concat_columns map_concat [symmetric] split: option.splits)

lemma moveWorkspaceTileBelow_adjacent:
  assumes "distinct (tab_workspaces tab)" and "s \<noteq> p"
    and "s \<in> set (tab_workspaces tab)" and "p \<in> set (tab_workspaces tab)"
  shows "\<exists>as bs. tab_workspaces (fst (moveWorkspaceTileBelow tab s p u)) = as @ p # s # bs"
proof -
  obtain n where n: "wt_workspaceLayout tab = Some n"
    using assms(3) by (cases "wt_workspaceLayout tab") (auto simp: tab_workspaces_def tab_leaves_def)
  show ?thesis
  proof (cases "fst (moveBelowInSharedColumn n s p)")
    case True
    then have "tab_workspaces (fst (moveWorkspaceTileBelow tab s p u))
        = tile_workspaces (snd (moveBelowInSharedColumn n s p))"
      using n by (simp add: moveWorkspaceTileBelow_def split_beta tab_workspaces_def tab_leaves_def
          tile_workspaces_def)
    with True moveBelow_facts [of n s p] assms(2) show ?thesis by simp
  next
    case False
    then have "fst (moveWorkspaceTileBelow tab s p u)
        = fst (moveWorkspaceTileToEdge tab s p EdgeBottom u)"
      using n by (simp add: moveWorkspaceTileBelow_def split_beta)
    then show ?thesis
      using placed_bottom_adjacent [OF moveToEdge_placed [OF assms]] by (simp add: concat_arrangement)
  qed
qed

section \<open>Clean-up\<close>

lemma deal_columns_length: "length (deal_columns i n b e xs) = n"
  by (induction i n b e xs rule: deal_columns.induct) (simp_all add: Let_def)

lemma deal_columns_concat:
  "concat (deal_columns i n b e xs) = take (n * b + min n (e - i)) xs"
proof (induction i n b e xs rule: deal_columns.induct)
  case (1 i b e xs)
  then show ?case by simp
next
  case (2 i n b e xs)
  have "b + (if i < e then 1 else 0) + (n * b + min n (e - Suc i)) = Suc n * b + min (Suc n) (e - i)"
    by auto
  with 2 show ?case by (metis concat.simps(2) deal_columns.simps(2) take_add)
qed

lemma deal_columns_sizes:
  assumes "n * b + min n (e - i) \<le> length xs" and "c \<in> set (deal_columns i n b e xs)"
  shows "length c = b \<or> length c = Suc b \<and> i < e"
  using assms
proof (induction i n b e xs rule: deal_columns.induct)
  case (1 i b e xs)
  then show ?case by simp
next
  case (2 i n b e xs)
  let ?size = "b + (if i < e then 1 else 0)"
  have tot: "?size + (n * b + min n (e - Suc i)) = Suc n * b + min (Suc n) (e - i)" by auto
  then have fit: "n * b + min n (e - Suc i) \<le> length (drop ?size xs)"
    unfolding length_drop using "2.prems"(1) by linarith
  have len: "length (take ?size xs) = ?size"
    unfolding length_take using tot "2.prems"(1) by linarith
  from "2.prems"(2) consider "c = take ?size xs"
    | "c \<in> set (deal_columns (Suc i) n b e (drop ?size xs))"
    by (auto simp: Let_def)
  then show ?case
  proof cases
    case 1
    then show ?thesis using len by simp
  next
    case 2
    then show ?thesis using "2.IH" [OF refl fit] by auto
  qed
qed

lemma rows_per_column_bounds: "1 \<le> rows_per_column a h" "rows_per_column a h \<le> 4"
  by (simp_all add: rows_per_column_def MAX_WORKSPACE_ROWS_PER_COLUMN_def)

lemma computeCleanUpColumnCount_bounds:
  assumes "0 < n"
  shows "1 \<le> computeCleanUpColumnCount n a w h" "computeCleanUpColumnCount n a w h \<le> n"
    "int (computeCleanUpColumnCount n a w h) \<le> max 1 \<lfloor>usableSize (area_widthPx a) w / w\<rfloor>"
proof -
  have "0 < (of_nat n :: rat) / of_int (rows_per_column a h)"
    using assms rows_per_column_bounds [of a h] by simp
  define q where "q = \<lceil>(of_nat n :: rat) / of_int (rows_per_column a h)\<rceil>"
  have "1 \<le> q" using \<open>0 < (of_nat n :: rat) / _\<close> by (simp add: q_def)
  define v where "v = max 1 \<lfloor>usableSize (area_widthPx a) w / w\<rfloor>"
  have "1 \<le> v" by (simp add: v_def)
  moreover have "computeCleanUpColumnCount n a w h = nat (min (int n) (min v q))"
    by (simp add: computeCleanUpColumnCount_def q_def v_def)
  moreover note \<open>1 \<le> q\<close>
  ultimately show "1 \<le> computeCleanUpColumnCount n a w h" "computeCleanUpColumnCount n a w h \<le> n"
    "int (computeCleanUpColumnCount n a w h) \<le> max 1 \<lfloor>usableSize (area_widthPx a) w / w\<rfloor>"
    using assms unfolding v_def [symmetric] by (auto simp: min_def)
qed

text \<open>When the width allows the columns the height asks for, a column is never over-full.\<close>

lemma computeCleanUpColumnCount_rows:
  assumes "0 < n"
    and "\<lceil>(of_nat n :: rat) / of_int (rows_per_column a h)\<rceil>
           \<le> max 1 \<lfloor>usableSize (area_widthPx a) w / w\<rfloor>"
  shows "int n \<le> int (computeCleanUpColumnCount n a w h) * rows_per_column a h"
proof -
  let ?r = "rows_per_column a h" and ?q = "\<lceil>(of_nat n :: rat) / of_int (rows_per_column a h)\<rceil>"
  have r: "1 \<le> ?r" by (rule rows_per_column_bounds)
  have "(of_nat n :: rat) / of_int ?r \<le> of_int ?q" by (rule le_of_int_ceiling)
  moreover have "(0 :: rat) < of_int ?r" using r by simp
  ultimately have "(of_nat n :: rat) \<le> of_int ?q * of_int ?r" by (simp only: pos_divide_le_eq)
  then have nq: "int n \<le> ?q * ?r" by (metis of_int_le_iff of_int_mult of_int_of_nat_eq)
  have "(of_nat n :: rat) / of_int ?r \<le> of_nat n" using r by (simp add: divide_le_eq mult_le_cancel_left1)
  then have "?q \<le> int n" by (simp add: ceiling_le_iff)
  define q where "q = ?q"
  have "(0 :: rat) \<le> of_nat n / of_int ?r" using r by simp
  then have "0 \<le> q" unfolding q_def by linarith
  moreover have "computeCleanUpColumnCount n a w h
      = nat (min (int n) (min (max 1 \<lfloor>usableSize (area_widthPx a) w / w\<rfloor>) q))"
    by (simp add: computeCleanUpColumnCount_def q_def)
  ultimately have "int (computeCleanUpColumnCount n a w h) = q \<or>
      int (computeCleanUpColumnCount n a w h) = int n"
    using assms(2) \<open>?q \<le> int n\<close> unfolding q_def [symmetric] by (auto simp: min_def)
  then show ?thesis
  proof
    assume "int (computeCleanUpColumnCount n a w h) = int n"
    then show ?thesis using r by (simp add: mult_le_cancel_left1)
  qed (use nq in \<open>simp add: q_def\<close>)
qed

lemma div_mod_deal: "0 < c \<Longrightarrow> c * (n div c) + min c (n mod c - 0) = (n::nat)"
  using mod_less_divisor [of c n] mult_div_mod_eq [of c n] by (simp add: min_absorb2 less_imp_le)

lemma cleanUp_columns:
  assumes "wt_workspaceLayout tab = Some n" and "getWorkspaceTileLeaves n \<noteq> []"
    and "k = computeCleanUpColumnCount (length (getWorkspaceTileLeaves n)) a w h"
  shows "\<exists>n'. fst (cleanUpWorkspaceTiles tab a w h s) = tab\<lparr>wt_workspaceLayout := Some n'\<rparr> \<and>
     (wf_tile n \<longrightarrow> wf_tile n') \<and> getWorkspaceTileLeaves n' = getWorkspaceTileLeaves n \<and>
     getWorkspaceColumns n' = deal_columns 0 k (length (getWorkspaceTileLeaves n) div k)
       (length (getWorkspaceTileLeaves n) mod k) (getWorkspaceTileLeaves n)"
proof -
  let ?xs = "getWorkspaceTileLeaves n"
  let ?cols = "deal_columns 0 k (length ?xs div k) (length ?xs mod k) ?xs"
  let ?opts = "\<lparr>co_columnSizes = None, co_equalizeRows = True, co_previousRoot = Some n\<rparr>"
  have k: "1 \<le> k" "k \<le> length ?xs"
    using computeCleanUpColumnCount_bounds [of "length ?xs" a w h] assms(2,3) by auto
  have all: "concat ?cols = ?xs" using k div_mod_deal [of k "length ?xs"] by (simp add: deal_columns_concat)
  have "1 \<le> length ?xs div k" using k by (simp add: div_greater_zero_iff Suc_le_eq)
  moreover have "length c = length ?xs div k \<or> length c = Suc (length ?xs div k)"
    if "c \<in> set ?cols" for c
    using deal_columns_sizes [OF _ that] k div_mod_deal [of k "length ?xs"] by auto
  ultimately have ne: "filter (\<lambda>c. 0 < length c) ?cols = ?cols"
    by (intro filter_True) force
  have "?cols \<noteq> []" using k deal_columns_length [of 0 k] by (metis list.size(3) not_one_le_zero)
  then obtain n' where n': "fst (buildColumnsLayout ?cols ?opts s) = Some n'"
    using buildColumnsLayout_leaves [of ?cols ?opts s] all assms(2)
    by (cases "fst (buildColumnsLayout ?cols ?opts s)") auto
  have "getWorkspaceTileLeaves n' = ?xs"
    using buildColumnsLayout_leaves [of ?cols ?opts s] n' all by simp
  moreover have "wf_tile n \<longrightarrow> wf_tile n'" using buildColumnsLayout_wf [OF _ n'] by simp
  moreover have "getWorkspaceColumns n' = ?cols"
    using getWorkspaceColumns_build [OF n'] ne by simp
  moreover have "fst (cleanUpWorkspaceTiles tab a w h s) = tab\<lparr>wt_workspaceLayout := Some n'\<rparr>"
    using assms n' by (simp add: cleanUpWorkspaceTiles_def concat_columns split_beta Let_def)
  ultimately show ?thesis by blast
qed

lemma cleanUp_facts:
  assumes "wt_workspaceLayout tab = Some n" and "wf_tile n"
    and "k = computeCleanUpColumnCount (length (getWorkspaceTileLeaves n)) a w h"
    and "r = fst (cleanUpWorkspaceTiles tab a w h s)"
  shows "tab_leaves r = getWorkspaceTileLeaves n \<and> wf_tab r \<and>
    length (tab_arrangement r) = k \<and> 1 \<le> k \<and>
    int k \<le> max 1 \<lfloor>usableSize (area_widthPx a) w / w\<rfloor> \<and>
    (\<forall>c\<in>set (tab_arrangement r). length c = length (getWorkspaceTileLeaves n) div k \<or>
       length c = Suc (length (getWorkspaceTileLeaves n) div k)) \<and>
    (\<lceil>(of_nat (length (getWorkspaceTileLeaves n)) :: rat) / of_int (rows_per_column a h)\<rceil>
       \<le> max 1 \<lfloor>usableSize (area_widthPx a) w / w\<rfloor> \<longrightarrow>
     (\<forall>c\<in>set (tab_arrangement r). length c \<le> 4))"
proof -
  let ?xs = "getWorkspaceTileLeaves n" and ?m = "length (getWorkspaceTileLeaves n)"
  let ?cols = "deal_columns 0 k (?m div k) (?m mod k) ?xs"
  have ne: "?xs \<noteq> []" by (rule wf_tile_leaves [OF assms(2)])
  then have m: "0 < ?m" by simp
  note k = computeCleanUpColumnCount_bounds [OF m, of a w h, folded assms(3)]
  obtain n' where n': "r = tab\<lparr>wt_workspaceLayout := Some n'\<rparr>" "wf_tile n'"
    "getWorkspaceTileLeaves n' = ?xs" "getWorkspaceColumns n' = ?cols"
    using cleanUp_columns [OF assms(1) ne assms(3)] assms(2) unfolding assms(4) by blast
  have arr: "tab_arrangement r = map (map tl_workspaceId) ?cols"
    by (simp add: n'(1,4) tab_arrangement_def columnsArrangement_def)
  have sizes: "length c = ?m div k \<or> (length c = Suc (?m div k) \<and> 0 < ?m mod k)"
    if "c \<in> set ?cols" for c
    using deal_columns_sizes [OF _ that] div_mod_deal [of k ?m] k(1) by auto
  have four: "length c \<le> 4" if "c \<in> set ?cols"
    "\<lceil>(of_nat ?m :: rat) / of_int (rows_per_column a h)\<rceil>
       \<le> max 1 \<lfloor>usableSize (area_widthPx a) w / w\<rfloor>" for c
  proof -
    let ?r = "nat (rows_per_column a h)"
    have r: "int ?r = rows_per_column a h" "?r \<le> 4"
      using rows_per_column_bounds [of a h] by simp_all
    have "int ?m \<le> int k * int ?r"
      unfolding r(1) assms(3) by (rule computeCleanUpColumnCount_rows [OF m that(2)])
    then have mk: "?m \<le> k * ?r" by (metis of_nat_le_iff of_nat_mult)
    then have "?m div k \<le> ?r" using k(1) by (metis div_le_mono
          nonzero_mult_div_cancel_left not_one_le_zero)
    moreover have "Suc (?m div k) \<le> ?r" if "0 < ?m mod k"
    proof (rule ccontr)
      assume "\<not> Suc (?m div k) \<le> ?r"
      with \<open>?m div k \<le> ?r\<close> have "?m div k = ?r" by simp
      then have "?m = k * ?r + ?m mod k" by (metis mult_div_mod_eq)
      with mk that show False by simp
    qed
    ultimately show ?thesis using sizes [OF that(1)] r(2) by auto
  qed
  have "tab_leaves r = ?xs" "wf_tab r" using n' by (simp_all add: tab_leaves_def wf_tab_def)
  moreover have "length (tab_arrangement r) = k" by (simp add: arr deal_columns_length)
  moreover have "\<forall>c\<in>set (tab_arrangement r). length c = ?m div k \<or> length c = Suc (?m div k)"
    using sizes by (auto simp: arr)
  moreover have "\<forall>c\<in>set (tab_arrangement r). length c \<le> 4"
    if "\<lceil>(of_nat ?m :: rat) / of_int (rows_per_column a h)\<rceil>
       \<le> max 1 \<lfloor>usableSize (area_widthPx a) w / w\<rfloor>"
    using four [OF _ that] by (auto simp: arr)
  ultimately show ?thesis using k(1,3) by blast
qed

end
