(* ===== verification/Tab_Strip.thy ===== *)
theory Tab_Strip
  imports Prelude
begin

text \<open>
  The contract of a tab strip. The window's tabs (\<open>window-layout-utils.ts\<close>) and a
  workspace's panel tabs (\<open>panel-tab-utils.ts\<close>) are two copies of one design: an ordered
  list of tabs and the id of the active one. The locale states what the operations promise
  and derives, once, that the active id always names a tab of the strip, that cycling is a
  group action on the positions, and that reordering loses no tab. \<open>Panel_Tabs\<close> and
  \<open>Window_Tabs\<close> interpret it on the two implementations; the surfaces of a right panel
  (\<open>Right_Panel_Facts\<close>) keep its first half, \<open>closable_strip\<close>.
\<close>

section \<open>Valid strips\<close>

definition strip_valid :: "('t \<Rightarrow> string) \<Rightarrow> 't list \<Rightarrow> string option \<Rightarrow> bool" where
  "strip_valid tid ts a \<longleftrightarrow> distinct (map tid ts) \<and>
     (case a of None \<Rightarrow> ts = [] | Some i \<Rightarrow> i \<in> tid ` set ts)"

lemma strip_valid_Some: "strip_valid tid ts (Some i) \<longleftrightarrow> distinct (map tid ts) \<and> i \<in> tid ` set ts"
  by (simp add: strip_valid_def)

lemma strip_valid_active:
  assumes "strip_valid tid ts a" and "ts \<noteq> []"
  obtains k where "k < length ts" "a = Some (tid (ts ! k))"
    "findIndex (\<lambda>t. Some (tid t) = a) ts = Some k"
proof -
  from assms obtain i where a: "a = Some i" and "i \<in> tid ` set ts" and d: "distinct (map tid ts)"
    by (auto simp: strip_valid_def split: option.splits)
  then obtain k where k: "k < length ts" "i = tid (ts ! k)" by (auto simp: in_set_conv_nth)
  have "findIndex (\<lambda>t. Some (tid t) = a) ts = Some k"
    unfolding findIndex_Some a k(2)
    using k d by (auto simp: distinct_conv_nth)
  with k a that show thesis by blast
qed

lemma findIndex_id_nth:
  "distinct (map tid ts) \<Longrightarrow> k < length ts \<Longrightarrow>
    findIndex (\<lambda>t. Some (tid t) = Some (tid (ts ! k))) ts = Some k"
  by (auto simp: findIndex_Some distinct_conv_nth)

section \<open>The interface\<close>

lemma two_ids:
  assumes "distinct (map f xs)" and "2 \<le> length xs"
  shows "filter (\<lambda>x. f x \<noteq> i) xs \<noteq> []"
proof -
  obtain a b ys where xs: "xs = a # b # ys"
    using assms(2) by (cases xs; cases "tl xs") auto
  then show ?thesis using assms(1) by auto
qed

locale closable_strip =
  fixes tabs :: "'s \<Rightarrow> 't list"
    and active :: "'s \<Rightarrow> string option"
    and tab_id :: "'t \<Rightarrow> string"
    and put :: "'t \<Rightarrow> 's \<Rightarrow> 's"
    and remove :: "'s \<Rightarrow> string \<Rightarrow> 's"
  assumes put_tabs: "tab_id t \<notin> tab_id ` set (tabs s) \<Longrightarrow> tabs (put t s) = tabs s @ [t]"
    and put_active: "active (put t s) = Some (tab_id t)"
    and remove_absent: "i \<notin> tab_id ` set (tabs s) \<Longrightarrow> remove s i = s"
    and remove_tabs: "tabs (remove s i) = filter (\<lambda>t. tab_id t \<noteq> i) (tabs s)"
    and remove_last: "i \<in> tab_id ` set (tabs s) \<Longrightarrow> tabs (remove s i) = [] \<Longrightarrow>
        active s = None \<or> active s \<in> Some ` tab_id ` set (tabs s) \<Longrightarrow> active (remove s i) = None"
    and remove_other: "active s \<noteq> Some i \<Longrightarrow> tabs (remove s i) \<noteq> [] \<Longrightarrow>
        active (remove s i) = active s"
    and remove_active: "findIndex (\<lambda>t. tab_id t = i) (tabs s) = Some k \<Longrightarrow> active s = Some i \<Longrightarrow>
        tabs (remove s i) \<noteq> [] \<Longrightarrow>
        active (remove s i) =
          Some (tab_id (tabs (remove s i) ! min k (length (tabs (remove s i)) - 1)))"
begin

definition valid :: "'s \<Rightarrow> bool" where
  "valid s \<longleftrightarrow> strip_valid tab_id (tabs s) (active s)"

lemma valid_put:
  "valid s \<Longrightarrow> tab_id t \<notin> tab_id ` set (tabs s) \<Longrightarrow> valid (put t s)"
  by (simp add: valid_def put_tabs put_active strip_valid_def)

lemma valid_remove:
  assumes "valid s"
  shows "valid (remove s i)"
proof (cases "findIndex (\<lambda>t. tab_id t = i) (tabs s)")
  case None
  then have "i \<notin> tab_id ` set (tabs s)" by (auto simp: findIndex_None)
  with assms show ?thesis by (simp add: remove_absent)
next
  case (Some k)
  from assms have d: "distinct (map tab_id (tabs (remove s i)))"
    by (auto simp: valid_def strip_valid_def remove_tabs distinct_map_filter)
  have i: "i \<in> tab_id ` set (tabs s)" using findIndex_SomeD [OF Some] by force
  show ?thesis
  proof (cases "tabs (remove s i) = []")
    case True
    moreover have "active s = None \<or> active s \<in> Some ` tab_id ` set (tabs s)"
      using assms by (auto simp: valid_def strip_valid_def split: option.splits)
    ultimately show ?thesis using remove_last [OF i] by (simp add: valid_def strip_valid_def)
  next
    case ne: False
    show ?thesis
    proof (cases "active s = Some i")
      case True
      have "min k (length (tabs (remove s i)) - 1) < length (tabs (remove s i))"
        using ne by (cases "tabs (remove s i)") auto
      with d show ?thesis
        using remove_active [OF Some True ne] by (auto simp: valid_def strip_valid_def)
    next
      case False
      from assms i obtain j where "active s = Some j" "j \<in> tab_id ` set (tabs s)"
        by (auto simp: valid_def strip_valid_def split: option.splits)
      with False d show ?thesis
        using remove_other [OF False ne] by (auto simp: valid_def strip_valid_def remove_tabs)
    qed
  qed
qed

lemma remove_neighbour:
  assumes "valid s" and "k < length (tabs s)" and "2 \<le> length (tabs s)"
    and "active s = Some (tab_id (tabs s ! k))"
  shows "active (remove s (tab_id (tabs s ! k)))
    = Some (tab_id (tabs s ! (if Suc k < length (tabs s) then Suc k else k - 1)))"
proof -
  let ?i = "tab_id (tabs s ! k)"
  have d: "distinct (map tab_id (tabs s))"
    using assms(1) by (simp add: valid_def strip_valid_def)
  have parts: "tabs s = take k (tabs s) @ tabs s ! k # drop (Suc k) (tabs s)"
    by (rule id_take_nth_drop [OF assms(2)])
  have "distinct (map tab_id (take k (tabs s) @ tabs s ! k # drop (Suc k) (tabs s)))"
    using d parts by simp
  then have "?i \<notin> tab_id ` set (take k (tabs s))" "?i \<notin> tab_id ` set (drop (Suc k) (tabs s))"
    by simp_all
  then have "filter (\<lambda>t. tab_id t \<noteq> ?i) (take k (tabs s)) = take k (tabs s)"
    and "filter (\<lambda>t. tab_id t \<noteq> ?i) (drop (Suc k) (tabs s)) = drop (Suc k) (tabs s)"
    unfolding filter_id_conv by (metis imageI)+
  then have new: "tabs (remove s ?i) = take k (tabs s) @ drop (Suc k) (tabs s)"
    unfolding remove_tabs by (subst parts) simp
  then have len: "length (tabs (remove s ?i)) = length (tabs s) - 1"
    using assms(2) by simp
  have "active (remove s ?i) = Some (tab_id (tabs (remove s ?i) ! min k (length (tabs s) - 2)))"
  proof -
    have "findIndex (\<lambda>t. tab_id t = ?i) (tabs s) = Some k"
      using findIndex_id_nth [OF d assms(2)] by simp
    moreover have "tabs (remove s ?i) \<noteq> []" using len assms(3) by auto
    ultimately show ?thesis using remove_active assms(4) by (simp add: len numeral_2_eq_2)
  qed
  moreover have "tabs (remove s ?i) ! min k (length (tabs s) - 2)
      = tabs s ! (if Suc k < length (tabs s) then Suc k else k - 1)"
  proof (cases "Suc k < length (tabs s)")
    case True
    then have "min k (length (tabs s) - 2) = k" by simp
    with True show ?thesis by (simp add: new nth_append)
  next
    case False
    then have "length (tabs s) = Suc k" using assms(2) by simp
    then show ?thesis using assms(3) by (simp add: new nth_append)
  qed
  ultimately show ?thesis by simp
qed

end

text \<open>Strips whose tabs are also selected, cycled through and reordered.\<close>

locale tab_strip = closable_strip tabs active tab_id put remove
  for tabs :: "'s \<Rightarrow> 't list" and active tab_id put remove +
  fixes select :: "'s \<Rightarrow> string \<Rightarrow> 's"
    and select_at :: "'s \<Rightarrow> int \<Rightarrow> 's"
    and cycle :: "'s \<Rightarrow> int \<Rightarrow> 's"
    and reorder :: "'s \<Rightarrow> int \<Rightarrow> int \<Rightarrow> 's"
  assumes select_tabs: "tabs (select s i) = tabs s"
    and select_active: "active (select s i) = (if i \<in> tab_id ` set (tabs s) then Some i else active s)"
    and select_at_tabs: "tabs (select_at s n) = tabs s"
    and select_at_active: "active (select_at s n) =
        (if n = 9 \<and> tabs s \<noteq> [] then Some (tab_id (last (tabs s)))
         else if 1 \<le> n \<and> n \<le> int (length (tabs s)) then Some (tab_id (tabs s ! nat (n - 1)))
         else active s)"
    and cycle_tabs: "tabs (cycle s d) = tabs s"
    and cycle_empty: "tabs s = [] \<Longrightarrow> active (cycle s d) = active s"
    and cycle_lost: "tabs s \<noteq> [] \<Longrightarrow> findIndex (\<lambda>t. Some (tab_id t) = active s) (tabs s) = None \<Longrightarrow>
        active (cycle s d) = Some (tab_id (hd (tabs s)))"
    and cycle_active: "findIndex (\<lambda>t. Some (tab_id t) = active s) (tabs s) = Some k \<Longrightarrow>
        active (cycle s d) =
          Some (tab_id (tabs s ! nat ((int k + d) mod int (length (tabs s)))))"
    and reorder_active: "active (reorder s f g) = active s"
    and reorder_tabs: "tabs (reorder s f g) =
        (if 0 \<le> f \<and> f < int (length (tabs s)) \<and> 0 \<le> g \<and> g < int (length (tabs s)) \<and> f \<noteq> g
         then splice_insert (nat g) (tabs s ! nat f) (splice_remove (nat f) (tabs s))
         else tabs s)"
begin

lemma valid_select: "valid s \<Longrightarrow> valid (select s i)"
  by (auto simp: valid_def strip_valid_def select_tabs select_active)

lemma valid_select_at: "valid s \<Longrightarrow> valid (select_at s n)"
  by (auto simp: valid_def strip_valid_def select_at_tabs select_at_active)

lemma cycle_position:
  assumes "valid s" and "tabs s \<noteq> []"
  obtains k where "k < length (tabs s)" "active s = Some (tab_id (tabs s ! k))"
    "\<And>d. active (cycle s d) = Some (tab_id (tabs s ! nat ((int k + d) mod int (length (tabs s)))))"
proof -
  obtain k where k: "k < length (tabs s)" "active s = Some (tab_id (tabs s ! k))"
    "findIndex (\<lambda>t. Some (tab_id t) = active s) (tabs s) = Some k"
    using strip_valid_active [OF assms(1) [unfolded valid_def] assms(2)] .
  then show thesis using cycle_active [OF k(3)] that by blast
qed

lemma valid_cycle:
  assumes "valid s"
  shows "valid (cycle s d)"
proof (cases "tabs s = []")
  case True
  then show ?thesis using assms by (simp add: valid_def cycle_tabs cycle_empty)
next
  case False
  obtain k where "k < length (tabs s)" and k: "\<And>d. active (cycle s d)
      = Some (tab_id (tabs s ! nat ((int k + d) mod int (length (tabs s)))))"
    using cycle_position [OF assms False] by metis
  then have "nat ((int k + d) mod int (length (tabs s))) < length (tabs s)"
    by (intro nat_mod_less) auto
  with assms show ?thesis by (auto simp: valid_def strip_valid_def cycle_tabs k)
qed

text \<open>Cycling by \<open>d\<close> and then by \<open>e\<close> is cycling by \<open>d + e\<close>; a full turn is the identity.\<close>

lemma cycle_cycle:
  assumes "valid s"
  shows "active (cycle (cycle s d) e) = active (cycle s (d + e))"
proof (cases "tabs s = []")
  case True
  then show ?thesis by (simp add: cycle_tabs cycle_empty)
next
  case False
  let ?n = "int (length (tabs s))"
  obtain k where kl: "k < length (tabs s)" and k: "\<And>d. active (cycle s d)
      = Some (tab_id (tabs s ! nat ((int k + d) mod ?n)))"
    using cycle_position [OF assms False] by metis
  let ?j = "nat ((int k + d) mod ?n)"
  have n: "0 < length (tabs s)" using False by simp
  have j: "?j < length (tabs s)" by (rule nat_mod_less [OF n])
  have jn: "int ?j = (int k + d) mod ?n"
    using n by simp
  have "findIndex (\<lambda>t. Some (tab_id t) = active (cycle s d)) (tabs (cycle s d)) = Some ?j"
    unfolding k cycle_tabs
    using findIndex_id_nth j assms by (auto simp: valid_def strip_valid_def)
  from cycle_active [OF this] have "active (cycle (cycle s d) e)
      = Some (tab_id (tabs s ! nat ((int ?j + e) mod ?n)))"
    by (simp add: cycle_tabs)
  also have "(int ?j + e) mod ?n = (int k + (d + e)) mod ?n"
    unfolding jn by (simp only: mod_add_left_eq add.assoc)
  finally show ?thesis by (simp add: k)
qed

lemma cycle_turn:
  assumes "valid s"
  shows "active (cycle s (m * int (length (tabs s)))) = active s"
proof (cases "tabs s = []")
  case True
  then show ?thesis by (simp add: cycle_empty)
next
  case False
  then show ?thesis using cycle_position [OF assms False] by (metis mod_mult_self1 mod_pos_pos_trivial
        nat_int of_nat_0_le_iff of_nat_less_iff)
qed

lemma reorder_mset: "mset (tabs (reorder s f g)) = mset (tabs s)"
  by (simp add: reorder_tabs mset_splice_move nat_less_iff)

lemma valid_reorder:
  assumes "valid s"
  shows "valid (reorder s f g)"
proof -
  have "set (tabs (reorder s f g)) = set (tabs s)"
    by (rule mset_eq_setD [OF reorder_mset])
  moreover have "mset (map tab_id (tabs (reorder s f g))) = mset (map tab_id (tabs s))"
    by (simp add: reorder_mset)
  then have "distinct (map tab_id (tabs (reorder s f g))) = distinct (map tab_id (tabs s))"
    by (rule mset_eq_imp_distinct_iff)
  moreover have "tabs (reorder s f g) = [] \<longleftrightarrow> tabs s = []"
    using calculation(1) by (metis set_empty)
  ultimately show ?thesis
    using assms by (auto simp: valid_def strip_valid_def reorder_active split: option.splits)
qed

lemma reorder_moves:
  assumes "f < length (tabs s)" and "g < length (tabs s)"
  shows "tabs (reorder s (int f) (int g)) ! g = tabs s ! f"
  using assms by (auto simp: reorder_tabs splice_insert_def splice_remove_def nth_append)

lemma reorder_back:
  assumes "f < length (tabs s)" and "g < length (tabs s)"
  shows "tabs (reorder (reorder s (int f) (int g)) (int g) (int f)) = tabs s"
proof (cases "f = g")
  case True
  then show ?thesis by (simp add: reorder_tabs)
next
  case False
  let ?r = "splice_remove f (tabs s)"
  have len: "length ?r = length (tabs s) - 1" using assms(1) by (simp add: length_splice_remove)
  have one: "tabs (reorder s (int f) (int g)) = splice_insert g (tabs s ! f) ?r"
    using assms False by (simp add: reorder_tabs)
  have "length (splice_insert g (tabs s ! f) ?r) = length (tabs s)" and "g \<le> length ?r"
    using len assms by simp_all
  then show ?thesis
    using assms False by (simp add: reorder_tabs [of "reorder s (int f) (int g)"] one)
qed

end

end
