(* ===== verification/Panel_Tabs.thy ===== *)
theory Panel_Tabs
  imports Panel_Edit Tab_Strip
begin

text \<open>
  The panel tabs of one workspace, \<open>apps/web/src/panels/panel-tab-utils.ts\<close>. Every
  function takes and returns a \<open>WorkspaceTileLeaf\<close>; the indices and deltas are integers. The
  contract of \<open>Tab_Strip\<close> is interpreted on these functions at the end.
\<close>

section \<open>Operations\<close>

record add_panel_tab_options =
  apo_command :: "string option"
  apo_label :: "string option"
  apo_tab :: "panel_tab option"
  apo_terminalId :: "string option"

definition generatePanelTabId :: "id_source \<Rightarrow> string \<times> id_source" where
  "generatePanelTabId s = generateId ''panel-tab'' s"

definition generatePaneId :: "id_source \<Rightarrow> string \<times> id_source" where
  "generatePaneId s = generateId ''pane'' s"

definition append_panel_tab :: "panel_tab \<Rightarrow> tile_leaf \<Rightarrow> tile_leaf" where
  "append_panel_tab t w =
     w\<lparr>tl_panelTabs := tl_panelTabs w @ [t], tl_activePanelTabId := Some (pt_id t)\<rparr>"

definition addPanelTab ::
    "tile_leaf \<Rightarrow> pane_type \<Rightarrow> add_panel_tab_options option \<Rightarrow> id_source
      \<Rightarrow> tile_leaf \<times> id_source" where
  "addPanelTab w ty opts s =
     (let (paneId, s1) = generatePaneId s;
          (newTab, s2) =
            (case Option.bind opts apo_tab of
               Some t \<Rightarrow> (t, s1)
             | None \<Rightarrow>
                 (let (tabId, s2) = generatePanelTabId s1
                  in (\<lparr>pt_focusedPaneId = Some paneId,
                       pt_id = tabId,
                       pt_label = Option.bind opts apo_label,
                       pt_panelLayout = LeafNode
                         \<lparr>leaf_command = Option.bind opts apo_command,
                          leaf_id = paneId,
                          leaf_paneType = ty,
                          leaf_terminalId = Option.bind opts apo_terminalId,
                          leaf_workspaceId = Some (tl_workspaceId w)\<rparr>\<rparr>, s2)))
      in (append_panel_tab newTab w, s2))"

definition removePanelTab :: "tile_leaf \<Rightarrow> string \<Rightarrow> tile_leaf" where
  "removePanelTab w tabId =
     (case findIndex (\<lambda>t. pt_id t = tabId) (tl_panelTabs w) of
        None \<Rightarrow> w
      | Some index \<Rightarrow>
          (let newTabs = filter (\<lambda>t. pt_id t \<noteq> tabId) (tl_panelTabs w)
           in if length newTabs = 0 then w\<lparr>tl_panelTabs := [], tl_activePanelTabId := None\<rparr>
              else if tl_activePanelTabId w \<noteq> Some tabId then w\<lparr>tl_panelTabs := newTabs\<rparr>
              else w\<lparr>tl_panelTabs := newTabs,
                     tl_activePanelTabId := map_option pt_id
                       (js_nth newTabs (int (min index (length newTabs - 1))))\<rparr>))"

definition switchPanelTab :: "tile_leaf \<Rightarrow> string \<Rightarrow> tile_leaf" where
  "switchPanelTab w tabId =
     (if \<not> list_ex (\<lambda>t. pt_id t = tabId) (tl_panelTabs w) then w
      else w\<lparr>tl_activePanelTabId := Some tabId\<rparr>)"

definition switchPanelTabByIndex :: "tile_leaf \<Rightarrow> int \<Rightarrow> tile_leaf" where
  "switchPanelTabByIndex w index =
     (if length (tl_panelTabs w) = 0 then w
      else if index = 9 then
        w\<lparr>tl_activePanelTabId := map_option pt_id (js_last (tl_panelTabs w))\<rparr>
      else
        (let zeroIndex = index - 1
         in if zeroIndex < 0 \<or> int (length (tl_panelTabs w)) \<le> zeroIndex then w
            else w\<lparr>tl_activePanelTabId := map_option pt_id (js_nth (tl_panelTabs w) zeroIndex)\<rparr>))"

definition switchPanelTabRelative :: "tile_leaf \<Rightarrow> int \<Rightarrow> tile_leaf" where
  "switchPanelTabRelative w delta =
     (if length (tl_panelTabs w) = 0 then w
      else
        (case findIndex (\<lambda>t. Some (pt_id t) = tl_activePanelTabId w) (tl_panelTabs w) of
           None \<Rightarrow> w\<lparr>tl_activePanelTabId := map_option pt_id (js_nth (tl_panelTabs w) 0)\<rparr>
         | Some currentIndex \<Rightarrow>
             (let n = int (length (tl_panelTabs w));
                  newIndex = js_rem (js_rem (int currentIndex + delta) n + n) n
              in w\<lparr>tl_activePanelTabId := map_option pt_id (js_nth (tl_panelTabs w) newIndex)\<rparr>)))"

definition reorderPanelTabs :: "tile_leaf \<Rightarrow> int \<Rightarrow> int \<Rightarrow> tile_leaf" where
  "reorderPanelTabs w fromIndex toIndex =
     (let n = int (length (tl_panelTabs w))
      in if fromIndex < 0 \<or> n \<le> fromIndex \<or> toIndex < 0 \<or> n \<le> toIndex \<or> fromIndex = toIndex
         then w
         else
           (let newTabs = splice_remove (nat fromIndex) (tl_panelTabs w)
            in w\<lparr>tl_panelTabs :=
                  (case js_nth (tl_panelTabs w) fromIndex of
                     Some moved \<Rightarrow> splice_insert (nat toIndex) moved newTabs
                   | None \<Rightarrow> newTabs)\<rparr>))"

definition getActivePanelTab :: "tile_leaf \<Rightarrow> panel_tab option" where
  "getActivePanelTab w =
     find (\<lambda>t. Some (pt_id t) = tl_activePanelTabId w) (tl_panelTabs w)"

section \<open>The tab strip contract\<close>

lemma js_nth_min:
  "xs \<noteq> [] \<Longrightarrow> js_nth xs (int (min k (length xs - 1))) = Some (xs ! min k (length xs - 1))"
  by (cases xs) (auto simp: js_nth_def)

lemma removePanelTab_tabs:
  "tl_panelTabs (removePanelTab w i) = filter (\<lambda>t. pt_id t \<noteq> i) (tl_panelTabs w)"
  by (cases "findIndex (\<lambda>t. pt_id t = i) (tl_panelTabs w)")
    (simp_all add: removePanelTab_def Let_def findIndex_None_filter)

interpretation panel_strip: tab_strip tl_panelTabs tl_activePanelTabId pt_id append_panel_tab
  removePanelTab switchPanelTab switchPanelTabByIndex switchPanelTabRelative reorderPanelTabs
proof (unfold_locales, goal_cases)
  case (3 i s)
  then have "findIndex (\<lambda>t. pt_id t = i) (tl_panelTabs s) = None" by (auto simp: findIndex_None)
  then show ?case by (simp add: removePanelTab_def)
next
  case (4 s i)
  show ?case by (rule removePanelTab_tabs)
next
  case (5 i s)
  then obtain k where "findIndex (\<lambda>t. pt_id t = i) (tl_panelTabs s) = Some k"
    by (cases "findIndex (\<lambda>t. pt_id t = i) (tl_panelTabs s)") (auto simp: findIndex_None)
  moreover have "filter (\<lambda>t. pt_id t \<noteq> i) (tl_panelTabs s) = []"
    using 5(2) by (simp only: removePanelTab_tabs)
  ultimately show ?case by (simp add: removePanelTab_def)
next
  case (7 i s k)
  let ?new = "filter (\<lambda>t. pt_id t \<noteq> i) (tl_panelTabs s)"
  from 7(3) have ne: "?new \<noteq> []" unfolding removePanelTab_tabs .
  have "tl_activePanelTabId (removePanelTab s i)
      = map_option pt_id (js_nth ?new (int (min k (length ?new - 1))))"
    using 7(1,2) ne by (simp add: removePanelTab_def Let_def)
  then show ?case by (simp only: js_nth_min [OF ne] removePanelTab_tabs option.map)
next
  case (13 s d)
  then show ?case by (simp add: switchPanelTabRelative_def Let_def split: option.splits)
next
  case (15 s k d)
  then have n: "0 < length (tl_panelTabs s)" by (auto dest: findIndex_SomeD(1))
  then have j: "0 < int (length (tl_panelTabs s))" by simp
  with 15 n nat_mod_less [OF n, of "int k + d"] show ?case
    by (auto simp: switchPanelTabRelative_def Let_def js_rem_wrap js_nth_def nat_less_iff)
qed (auto simp: append_panel_tab_def removePanelTab_def switchPanelTab_def
    switchPanelTabByIndex_def switchPanelTabRelative_def reorderPanelTabs_def Let_def list_ex_iff
    js_nth_def js_last_def hd_conv_nth split: option.splits)

end
