(* ===== verification/Window_Tabs.thy ===== *)
theory Window_Tabs
  imports Panel_Tabs Tile_Edit
begin

text \<open>
  The window's tab strip, first part of \<open>apps/web/src/panels/window-layout-utils.ts\<close>, and
  the random labels of \<open>random-name.ts\<close>. The tab functions are the second implementation of
  the \<open>Tab_Strip\<close> contract.
\<close>

section \<open>Random tab names\<close>

definition ADJECTIVES :: "string list" where
  "ADJECTIVES =
    [''Bold'', ''Brave'', ''Bright'', ''Calm'', ''Clear'', ''Cool'', ''Crisp'', ''Deft'',
     ''Fair'', ''Fast'', ''Fierce'', ''Fleet'', ''Fresh'', ''Grand'', ''Keen'', ''Light'',
     ''Lucid'', ''Noble'', ''Prime'', ''Quick'', ''Rapid'', ''Sharp'', ''Sleek'', ''Smart'',
     ''Stark'', ''Steady'', ''Still'', ''Strong'', ''Sure'', ''Swift'', ''True'', ''Vast'',
     ''Vivid'', ''Warm'', ''Wise'']"

definition NOUNS :: "string list" where
  "NOUNS =
    [''Arch'', ''Birch'', ''Bloom'', ''Cedar'', ''Cloud'', ''Coral'', ''Crane'', ''Creek'',
     ''Crest'', ''Crown'', ''Cypress'', ''Dawn'', ''Delta'', ''Drift'', ''Dusk'', ''Eagle'',
     ''Elm'', ''Ember'', ''Falcon'', ''Fern'', ''Flint'', ''Forge'', ''Frost'', ''Gale'',
     ''Glen'', ''Grove'', ''Haven'', ''Hawk'', ''Heath'', ''Heron'', ''Iris'', ''Jade'',
     ''Lake'', ''Lark'', ''Maple'', ''Marsh'', ''Mesa'', ''Moss'', ''Oak'', ''Onyx'',
     ''Orbit'', ''Peak'', ''Pine'', ''Plume'', ''Prism'', ''Quartz'', ''Raven'', ''Reed'',
     ''Ridge'', ''River'', ''Sage'', ''Shore'', ''Slate'', ''Spark'', ''Spruce'', ''Stone'',
     ''Storm'', ''Summit'', ''Tide'', ''Vale'', ''Wren'']"

text \<open>
  The two results of \<open>Math.random()\<close> are the arguments \<open>x\<close> and \<open>y\<close>, in \<open>[0, 1)\<close>.
\<close>

definition pick_word :: "string list \<Rightarrow> rat \<Rightarrow> string option" where
  "pick_word words x = js_nth words \<lfloor>x * of_nat (length words)\<rfloor>"

definition generateRandomTabName :: "rat \<Rightarrow> rat \<Rightarrow> string" where
  "generateRandomTabName x y =
     (case (pick_word ADJECTIVES x, pick_word NOUNS y) of
        (Some adjective, Some noun) \<Rightarrow> adjective @ '' '' @ noun
      | _ \<Rightarrow> ''undefined undefined'')"

section \<open>Window tab operations\<close>

definition generateWindowTabId :: "id_source \<Rightarrow> string \<times> id_source" where
  "generateWindowTabId s = generateId ''window-tab'' s"

definition append_window_tab :: "window_tab \<Rightarrow> window_layout \<Rightarrow> window_layout" where
  "append_window_tab t layout =
     \<lparr>wl_activeTabId = Some (wt_id t), wl_tabs = wl_tabs layout @ [t]\<rparr>"

definition addWindowTab ::
    "window_layout \<Rightarrow> window_tab option \<Rightarrow> rat \<times> rat \<Rightarrow> id_source
      \<Rightarrow> window_layout \<times> id_source" where
  "addWindowTab layout tab randoms s =
     (case tab of
        Some t \<Rightarrow> (append_window_tab t layout, s)
      | None \<Rightarrow>
          (let (i, s1) = generateWindowTabId s
           in (append_window_tab
                 \<lparr>wt_focusedWorkspaceTileId = None, wt_id = i,
                  wt_label = Some (generateRandomTabName (fst randoms) (snd randoms)),
                  wt_workspaceLayout = None\<rparr> layout, s1)))"

definition removeWindowTab :: "window_layout \<Rightarrow> string \<Rightarrow> window_layout" where
  "removeWindowTab layout tabId =
     (case findIndex (\<lambda>t. wt_id t = tabId) (wl_tabs layout) of
        None \<Rightarrow> layout
      | Some index \<Rightarrow>
          (let newTabs = filter (\<lambda>t. wt_id t \<noteq> tabId) (wl_tabs layout)
           in if length newTabs = 0 then \<lparr>wl_activeTabId = None, wl_tabs = []\<rparr>
              else if wl_activeTabId layout \<noteq> Some tabId then
                \<lparr>wl_activeTabId = wl_activeTabId layout, wl_tabs = newTabs\<rparr>
              else \<lparr>wl_activeTabId = map_option wt_id
                      (js_nth newTabs (int (min index (length newTabs - 1)))),
                    wl_tabs = newTabs\<rparr>))"

definition renameWindowTab :: "window_layout \<Rightarrow> string \<Rightarrow> string \<Rightarrow> window_layout" where
  "renameWindowTab layout tabId label =
     (case findIndex (\<lambda>t. wt_id t = tabId) (wl_tabs layout) of
        None \<Rightarrow> layout
      | Some index \<Rightarrow>
          layout\<lparr>wl_tabs := map (\<lambda>t. if wt_id t = tabId then t\<lparr>wt_label := Some label\<rparr> else t)
            (wl_tabs layout)\<rparr>)"

definition switchWindowTab :: "window_layout \<Rightarrow> string \<Rightarrow> window_layout" where
  "switchWindowTab layout tabId =
     (if \<not> list_ex (\<lambda>t. wt_id t = tabId) (wl_tabs layout) then layout
      else layout\<lparr>wl_activeTabId := Some tabId\<rparr>)"

definition switchWindowTabByIndex :: "window_layout \<Rightarrow> int \<Rightarrow> window_layout" where
  "switchWindowTabByIndex layout index =
     (if length (wl_tabs layout) = 0 then layout
      else if index = 9 then
        layout\<lparr>wl_activeTabId := map_option wt_id (js_last (wl_tabs layout))\<rparr>
      else
        (let zeroIndex = index - 1
         in if zeroIndex < 0 \<or> int (length (wl_tabs layout)) \<le> zeroIndex then layout
            else layout\<lparr>wl_activeTabId := map_option wt_id (js_nth (wl_tabs layout) zeroIndex)\<rparr>))"

definition switchWindowTabRelative :: "window_layout \<Rightarrow> int \<Rightarrow> window_layout" where
  "switchWindowTabRelative layout delta =
     (if length (wl_tabs layout) = 0 then layout
      else
        (case findIndex (\<lambda>t. Some (wt_id t) = wl_activeTabId layout) (wl_tabs layout) of
           None \<Rightarrow> layout\<lparr>wl_activeTabId := map_option wt_id (js_nth (wl_tabs layout) 0)\<rparr>
         | Some currentIndex \<Rightarrow>
             (let n = int (length (wl_tabs layout));
                  newIndex = js_rem (js_rem (int currentIndex + delta) n + n) n
              in layout\<lparr>wl_activeTabId := map_option wt_id (js_nth (wl_tabs layout) newIndex)\<rparr>)))"

definition reorderWindowTabs :: "window_layout \<Rightarrow> int \<Rightarrow> int \<Rightarrow> window_layout" where
  "reorderWindowTabs layout fromIndex toIndex =
     (let n = int (length (wl_tabs layout))
      in if fromIndex < 0 \<or> n \<le> fromIndex \<or> toIndex < 0 \<or> n \<le> toIndex \<or> fromIndex = toIndex
         then layout
         else
           (let newTabs = splice_remove (nat fromIndex) (wl_tabs layout)
            in layout\<lparr>wl_tabs :=
                 (case js_nth (wl_tabs layout) fromIndex of
                    Some moved \<Rightarrow> splice_insert (nat toIndex) moved newTabs
                  | None \<Rightarrow> newTabs)\<rparr>))"

definition getActiveWindowTab :: "window_layout \<Rightarrow> window_tab option" where
  "getActiveWindowTab layout =
     find (\<lambda>t. Some (wt_id t) = wl_activeTabId layout) (wl_tabs layout)"

section \<open>The tab strip contract\<close>

lemma removeWindowTab_tabs:
  "wl_tabs (removeWindowTab w i) = filter (\<lambda>t. wt_id t \<noteq> i) (wl_tabs w)"
  by (cases "findIndex (\<lambda>t. wt_id t = i) (wl_tabs w)")
    (simp_all add: removeWindowTab_def Let_def findIndex_None_filter)

interpretation window_strip: tab_strip wl_tabs wl_activeTabId wt_id append_window_tab
  removeWindowTab switchWindowTab switchWindowTabByIndex switchWindowTabRelative reorderWindowTabs
proof (unfold_locales, goal_cases)
  case (3 i s)
  then have "findIndex (\<lambda>t. wt_id t = i) (wl_tabs s) = None" by (auto simp: findIndex_None)
  then show ?case by (simp add: removeWindowTab_def)
next
  case (4 s i)
  show ?case by (rule removeWindowTab_tabs)
next
  case (5 i s)
  then obtain k where "findIndex (\<lambda>t. wt_id t = i) (wl_tabs s) = Some k"
    by (cases "findIndex (\<lambda>t. wt_id t = i) (wl_tabs s)") (auto simp: findIndex_None)
  moreover have "filter (\<lambda>t. wt_id t \<noteq> i) (wl_tabs s) = []"
    using 5(2) by (simp only: removeWindowTab_tabs)
  ultimately show ?case by (simp add: removeWindowTab_def)
next
  case (7 i s k)
  let ?new = "filter (\<lambda>t. wt_id t \<noteq> i) (wl_tabs s)"
  from 7(3) have ne: "?new \<noteq> []" unfolding removeWindowTab_tabs .
  have "wl_activeTabId (removeWindowTab s i)
      = map_option wt_id (js_nth ?new (int (min k (length ?new - 1))))"
    using 7(1,2) ne by (simp add: removeWindowTab_def Let_def)
  then show ?case by (simp only: js_nth_min [OF ne] removeWindowTab_tabs option.map)
next
  case (15 s k d)
  then have n: "0 < length (wl_tabs s)" by (auto dest: findIndex_SomeD(1))
  then have j: "0 < int (length (wl_tabs s))" by simp
  with 15 n nat_mod_less [OF n, of "int k + d"] show ?case
    by (auto simp: switchWindowTabRelative_def Let_def js_rem_wrap js_nth_def nat_less_iff)
qed (auto simp: append_window_tab_def removeWindowTab_def switchWindowTab_def
    switchWindowTabByIndex_def switchWindowTabRelative_def reorderWindowTabs_def Let_def list_ex_iff
    js_nth_def js_last_def hd_conv_nth split: option.splits)

section \<open>Names\<close>

lemma pick_word_defined:
  assumes "0 \<le> x" and "x < 1" and "words \<noteq> []"
  shows "\<exists>w\<in>set words. pick_word words x = Some w"
proof -
  have "0 \<le> x * of_nat (length words)" using assms(1) by simp
  moreover have "x * of_nat (length words) < of_nat (length words)"
    using assms by (simp add: mult_less_cancel_right1)
  ultimately have "0 \<le> \<lfloor>x * of_nat (length words)\<rfloor>"
    and "\<lfloor>x * of_nat (length words)\<rfloor> < int (length words)"
    by (simp_all add: floor_less_iff)
  then show ?thesis
    by (auto simp: pick_word_def js_nth_def nat_less_iff intro!: bexI nth_mem)
qed

lemma generateRandomTabName_words:
  assumes "0 \<le> x" "x < 1" "0 \<le> y" "y < 1"
  shows "\<exists>a\<in>set ADJECTIVES. \<exists>n\<in>set NOUNS. generateRandomTabName x y = a @ '' '' @ n"
proof -
  obtain a where "a \<in> set ADJECTIVES" "pick_word ADJECTIVES x = Some a"
    using pick_word_defined [OF assms(1,2), of ADJECTIVES] by (auto simp: ADJECTIVES_def)
  moreover obtain n where "n \<in> set NOUNS" "pick_word NOUNS y = Some n"
    using pick_word_defined [OF assms(3,4), of NOUNS] by (auto simp: NOUNS_def)
  ultimately show ?thesis by (auto simp: generateRandomTabName_def)
qed

section \<open>Runs of the two strips\<close>

text \<open>
  The user's tab commands as a step relation; a tab that is added has an id that is not in
  the strip (\<open>Id_Gen\<close> shows that generated ids are).
\<close>

inductive window_tab_step :: "window_layout \<Rightarrow> window_layout \<Rightarrow> bool" where
  add: "wt_id t \<notin> wt_id ` set (wl_tabs w) \<Longrightarrow>
    window_tab_step w (fst (addWindowTab w (Some t) randoms s))"
| create: "fst (generateWindowTabId s) \<notin> wt_id ` set (wl_tabs w) \<Longrightarrow>
    window_tab_step w (fst (addWindowTab w None randoms s))"
| remove: "window_tab_step w (removeWindowTab w i)"
| rename: "window_tab_step w (renameWindowTab w i label)"
| switch: "window_tab_step w (switchWindowTab w i)"
| switch_index: "window_tab_step w (switchWindowTabByIndex w n)"
| switch_relative: "window_tab_step w (switchWindowTabRelative w d)"
| reorder: "window_tab_step w (reorderWindowTabs w f g)"

inductive panel_tab_step :: "tile_leaf \<Rightarrow> tile_leaf \<Rightarrow> bool" where
  add: "Option.bind opts apo_tab = Some t \<Longrightarrow> pt_id t \<notin> pt_id ` set (tl_panelTabs w) \<Longrightarrow>
    panel_tab_step w (fst (addPanelTab w ty opts s))"
| create: "Option.bind opts apo_tab = None \<Longrightarrow>
    fst (generatePanelTabId (snd (generatePaneId s))) \<notin> pt_id ` set (tl_panelTabs w) \<Longrightarrow>
    panel_tab_step w (fst (addPanelTab w ty opts s))"
| remove: "panel_tab_step w (removePanelTab w i)"
| switch: "panel_tab_step w (switchPanelTab w i)"
| switch_index: "panel_tab_step w (switchPanelTabByIndex w n)"
| switch_relative: "panel_tab_step w (switchPanelTabRelative w d)"
| reorder: "panel_tab_step w (reorderPanelTabs w f g)"

definition window_strip_valid :: "window_layout \<Rightarrow> bool" where
  "window_strip_valid w = strip_valid wt_id (wl_tabs w) (wl_activeTabId w)"

definition panel_strip_valid :: "tile_leaf \<Rightarrow> bool" where
  "panel_strip_valid w = strip_valid pt_id (tl_panelTabs w) (tl_activePanelTabId w)"

lemma renameWindowTab_ids:
  "map wt_id (wl_tabs (renameWindowTab w i label)) = map wt_id (wl_tabs w)"
  "wl_activeTabId (renameWindowTab w i label) = wl_activeTabId w"
  by (auto simp: renameWindowTab_def split: option.splits)

lemma strip_valid_ids:
  "map f ts = map f us \<Longrightarrow> strip_valid f ts i = strip_valid f us i"
proof -
  assume a: "map f ts = map f us"
  then have "f ` set ts = f ` set us" by (metis set_map)
  moreover have "ts = [] \<longleftrightarrow> us = []" using a by (metis map_is_Nil_conv)
  ultimately show ?thesis using a by (cases i) (simp_all add: strip_valid_def)
qed

lemma addWindowTab_put:
  "fst (addWindowTab w (Some t) randoms s) = append_window_tab t w"
  "\<exists>t. wt_id t = fst (generateWindowTabId s)
     \<and> fst (addWindowTab w None randoms s) = append_window_tab t w"
  by (simp_all add: addWindowTab_def split_beta Let_def)
    (rule exI, rule conjI [OF _ refl], simp)

lemma addPanelTab_put:
  "Option.bind opts apo_tab = Some t \<Longrightarrow> fst (addPanelTab w ty opts s) = append_panel_tab t w"
  "Option.bind opts apo_tab = None \<Longrightarrow>
     \<exists>t. pt_id t = fst (generatePanelTabId (snd (generatePaneId s)))
       \<and> fst (addPanelTab w ty opts s) = append_panel_tab t w"
  by (simp_all add: addPanelTab_def split_beta Let_def)
    (rule exI, rule conjI [OF _ refl], simp)

lemma window_tab_step_valid:
  assumes "window_tab_step w w'" and "window_strip_valid w"
  shows "window_strip_valid w'"
  using assms
proof (induction rule: window_tab_step.induct)
  case (create s w randoms)
  obtain t where "wt_id t = fst (generateWindowTabId s)"
    "fst (addWindowTab w None randoms s) = append_window_tab t w"
    using addWindowTab_put(2) by blast
  with create show ?case
    by (simp add: window_strip_valid_def window_strip.valid_def [symmetric] window_strip.valid_put)
next
  case (rename w i label)
  then show ?case
    using strip_valid_ids [OF renameWindowTab_ids(1)]
    by (simp add: window_strip_valid_def renameWindowTab_ids)
qed (simp_all add: addWindowTab_put(1) window_strip_valid_def window_strip.valid_def [symmetric] window_strip.valid_put
    window_strip.valid_remove window_strip.valid_select window_strip.valid_select_at
    window_strip.valid_cycle window_strip.valid_reorder)

lemma panel_tab_step_valid:
  assumes "panel_tab_step w w'" and "panel_strip_valid w"
  shows "panel_strip_valid w'"
  using assms
proof (induction rule: panel_tab_step.induct)
  case (create opts s w ty)
  obtain t where "pt_id t = fst (generatePanelTabId (snd (generatePaneId s)))"
    "fst (addPanelTab w ty opts s) = append_panel_tab t w"
    using addPanelTab_put(2) [OF create(1)] by blast
  with create show ?case
    by (simp add: panel_strip_valid_def panel_strip.valid_def [symmetric] panel_strip.valid_put)
qed (simp_all add: addPanelTab_put(1) panel_strip_valid_def panel_strip.valid_def [symmetric] panel_strip.valid_put
    panel_strip.valid_remove panel_strip.valid_select panel_strip.valid_select_at
    panel_strip.valid_cycle panel_strip.valid_reorder)

lemma window_tab_steps_valid:
  "window_tab_step\<^sup>*\<^sup>* w w' \<Longrightarrow> window_strip_valid w \<Longrightarrow> window_strip_valid w'"
  by (induction rule: rtranclp_induct) (auto intro: window_tab_step_valid)

lemma panel_tab_steps_valid:
  "panel_tab_step\<^sup>*\<^sup>* w w' \<Longrightarrow> panel_strip_valid w \<Longrightarrow> panel_strip_valid w'"
  by (induction rule: rtranclp_induct) (auto intro: panel_tab_step_valid)

lemma strip_valid_find:
  assumes "strip_valid f ts a" and "ts \<noteq> []"
  shows "\<exists>t\<in>set ts. find (\<lambda>t. Some (f t) = a) ts = Some t \<and> a = Some (f t)"
proof (cases "find (\<lambda>t. Some (f t) = a) ts")
  case None
  obtain k where k: "k < length ts" "a = Some (f (ts ! k))"
    using strip_valid_active [OF assms] by blast
  from None have "\<forall>t\<in>set ts. Some (f t) \<noteq> a" by (auto simp: find_None_iff)
  with k show ?thesis by (metis nth_mem)
next
  case (Some t)
  then show ?thesis by (auto simp: find_Some_iff)
qed

end
