(* ===== verification/Window_Layout.thy ===== *)
theory Window_Layout
  imports Window_Tabs
begin

text \<open>
  Queries and edits of a whole window, \<open>apps/web/src/panels/window-layout-utils.ts\<close>: where a
  workspace or a terminal is, which pane has the focus, tile updates, moving a workspace
  between tabs, close confirmation, the progressive close chain, and closing a terminal.
\<close>

section \<open>Locations\<close>

record workspace_location =
  wloc_tabId :: string
  wloc_tileId :: string

record terminal_location =
  tloc_paneId :: string
  tloc_panelTabId :: string
  tloc_tabId :: string
  tloc_tileId :: string
  tloc_workspaceId :: string

fun findWorkspaceInTileTree :: "tile_node \<Rightarrow> string \<Rightarrow> string option" where
  "findWorkspaceInTileTree (TileLeaf l) w = (if tl_workspaceId l = w then Some (tl_id l) else None)"
| "findWorkspaceInTileTree (TileSplit i d cs sz) w =
     first_truthy (\<lambda>c. findWorkspaceInTileTree c w) cs"

definition findWorkspaceLocation :: "window_layout \<Rightarrow> string \<Rightarrow> workspace_location option" where
  "findWorkspaceLocation layout w =
     first_some (\<lambda>tab. case wt_workspaceLayout tab of
         None \<Rightarrow> None
       | Some n \<Rightarrow>
           (let tileId = findWorkspaceInTileTree n w
            in if truthy tileId then Some \<lparr>wloc_tabId = wt_id tab, wloc_tileId = the tileId\<rparr>
               else None)) (wl_tabs layout)"

fun findTerminalInPanelTree :: "panel_node \<Rightarrow> string \<Rightarrow> string option" where
  "findTerminalInPanelTree (LeafNode l) t =
     (if leaf_terminalId l = Some t then Some (leaf_id l) else None)"
| "findTerminalInPanelTree (SplitNode i d cs sz) t =
     first_truthy (\<lambda>c. findTerminalInPanelTree c t) cs"

definition findTerminalInWorkspaceTile ::
    "string \<Rightarrow> tile_leaf \<Rightarrow> string \<Rightarrow> terminal_location option" where
  "findTerminalInWorkspaceTile tabId tile t =
     first_some (\<lambda>panelTab.
         (let paneId = findTerminalInPanelTree (pt_panelLayout panelTab) t
          in if truthy paneId then
               Some \<lparr>tloc_paneId = the paneId, tloc_panelTabId = pt_id panelTab,
                     tloc_tabId = tabId, tloc_tileId = tl_id tile,
                     tloc_workspaceId = tl_workspaceId tile\<rparr>
             else None)) (tl_panelTabs tile)"

fun findTerminalInTileTree ::
    "string \<Rightarrow> tile_node \<Rightarrow> string \<Rightarrow> terminal_location option" where
  "findTerminalInTileTree tabId (TileLeaf l) t = findTerminalInWorkspaceTile tabId l t"
| "findTerminalInTileTree tabId (TileSplit i d cs sz) t =
     first_some (\<lambda>c. findTerminalInTileTree tabId c t) cs"

definition findTerminalLocation :: "window_layout \<Rightarrow> string \<Rightarrow> terminal_location option" where
  "findTerminalLocation layout t =
     first_some (\<lambda>tab. case wt_workspaceLayout tab of
         None \<Rightarrow> None
       | Some n \<Rightarrow> findTerminalInTileTree (wt_id tab) n t) (wl_tabs layout)"

definition getAllWorkspaceTileLeaves :: "window_layout \<Rightarrow> tile_leaf list" where
  "getAllWorkspaceTileLeaves layout =
     concat (map (\<lambda>tab. case wt_workspaceLayout tab of
         Some n \<Rightarrow> getWorkspaceTileLeaves n | None \<Rightarrow> []) (wl_tabs layout))"

section \<open>Focus\<close>

definition resolveActivePaneForPanelTab :: "panel_tab \<Rightarrow> string option" where
  "resolveActivePaneForPanelTab tab =
     (if truthy (pt_focusedPaneId tab) then pt_focusedPaneId tab
      else getFirstLeafId (pt_panelLayout tab))"

definition resolveActivePaneFromLeaf :: "tile_leaf \<Rightarrow> string option" where
  "resolveActivePaneFromLeaf leaf =
     (let active = (case find (\<lambda>t. Some (pt_id t) = tl_activePanelTabId leaf) (tl_panelTabs leaf) of
            Some activeTab \<Rightarrow> resolveActivePaneForPanelTab activeTab
          | None \<Rightarrow> None)
      in if truthy active then active
         else
           (let first = (case js_nth (tl_panelTabs leaf) 0 of
                  Some firstTab \<Rightarrow> resolveActivePaneForPanelTab firstTab
                | None \<Rightarrow> None)
            in if truthy first then first else None))"

definition resolveActivePaneForWindowTab :: "window_tab \<Rightarrow> string option" where
  "resolveActivePaneForWindowTab tab =
     (case wt_workspaceLayout tab of
        None \<Rightarrow> None
      | Some n \<Rightarrow>
          (let leaves = getWorkspaceTileLeaves n;
               preferred =
                 (if truthy (wt_focusedWorkspaceTileId tab) then
                    (case find (\<lambda>l. Some (tl_id l) = wt_focusedWorkspaceTileId tab) leaves of
                       Some focusedLeaf \<Rightarrow> resolveActivePaneFromLeaf focusedLeaf
                     | None \<Rightarrow> None)
                  else None)
           in if length leaves = 0 then None
              else if truthy preferred then preferred
              else first_truthy resolveActivePaneFromLeaf leaves))"

definition resolveWorkspaceIdFromLeaf :: "tile_leaf \<Rightarrow> string option" where
  "resolveWorkspaceIdFromLeaf leaf =
     (if truthy (resolveActivePaneFromLeaf leaf) then Some (tl_workspaceId leaf) else None)"

definition resolveActiveWorkspaceId :: "window_layout \<Rightarrow> string option" where
  "resolveActiveWorkspaceId layout =
     (case Option.bind (getActiveWindowTab layout) (\<lambda>tab.
             map_option (\<lambda>n. (tab, n)) (wt_workspaceLayout tab)) of
        None \<Rightarrow> None
      | Some (tab, n) \<Rightarrow>
          (let leaves = getWorkspaceTileLeaves n;
               preferred =
                 (if truthy (wt_focusedWorkspaceTileId tab) then
                    (case find (\<lambda>l. Some (tl_id l) = wt_focusedWorkspaceTileId tab) leaves of
                       Some focusedLeaf \<Rightarrow> resolveWorkspaceIdFromLeaf focusedLeaf
                     | None \<Rightarrow> None)
                  else None)
           in if truthy preferred then preferred
              else first_truthy resolveWorkspaceIdFromLeaf leaves))"

fun findTileLeafContainingPane :: "tile_node \<Rightarrow> string \<Rightarrow> string option" where
  "findTileLeafContainingPane (TileLeaf l) p =
     (if list_ex (\<lambda>tab. containsPane (pt_panelLayout tab) p) (tl_panelTabs l)
      then Some (tl_id l) else None)"
| "findTileLeafContainingPane (TileSplit i d cs sz) p =
     first_truthy (\<lambda>c. findTileLeafContainingPane c p) cs"

definition saveFocusInWorkspaceTile :: "tile_leaf \<Rightarrow> string \<Rightarrow> tile_leaf" where
  "saveFocusInWorkspaceTile tile p =
     (let newPanelTabs = map (\<lambda>tab.
            if containsPane (pt_panelLayout tab) p then
              (if pt_focusedPaneId tab = Some p then tab else tab\<lparr>pt_focusedPaneId := Some p\<rparr>)
            else tab) (tl_panelTabs tile)
      in if newPanelTabs = tl_panelTabs tile then tile
         else tile\<lparr>tl_panelTabs := newPanelTabs\<rparr>)"

fun saveFocusInTileTree :: "tile_node \<Rightarrow> string \<Rightarrow> tile_node" where
  "saveFocusInTileTree (TileLeaf l) p = TileLeaf (saveFocusInWorkspaceTile l p)"
| "saveFocusInTileTree (TileSplit i d cs sz) p =
     (let cs' = map (\<lambda>c. saveFocusInTileTree c p) cs
      in if cs' = cs then TileSplit i d cs sz else TileSplit i d cs' sz)"

definition saveFocusInTab :: "string \<Rightarrow> window_tab \<Rightarrow> window_tab" where
  "saveFocusInTab p tab =
     (case wt_workspaceLayout tab of
        None \<Rightarrow> tab
      | Some n \<Rightarrow>
          (let newLayout = saveFocusInTileTree n p;
               newFocused = or_else (findTileLeafContainingPane n p) (wt_focusedWorkspaceTileId tab)
           in if \<not> (newLayout \<noteq> n \<or> newFocused \<noteq> wt_focusedWorkspaceTileId tab) then tab
              else tab\<lparr>wt_workspaceLayout := Some newLayout, wt_focusedWorkspaceTileId := newFocused\<rparr>))"

definition saveFocusedPaneId :: "window_layout \<Rightarrow> string \<Rightarrow> window_layout" where
  "saveFocusedPaneId layout p =
     (let newTabs = map (saveFocusInTab p) (wl_tabs layout)
      in if newTabs = wl_tabs layout then layout else layout\<lparr>wl_tabs := newTabs\<rparr>)"

section \<open>Updating the tile of a workspace\<close>

fun updateTileLeaf :: "tile_node \<Rightarrow> string \<Rightarrow> (tile_leaf \<Rightarrow> tile_leaf) \<Rightarrow> tile_node" where
  "updateTileLeaf (TileLeaf l) w f = (if tl_workspaceId l = w then TileLeaf (f l) else TileLeaf l)"
| "updateTileLeaf (TileSplit i d cs sz) w f =
     (let cs' = map (\<lambda>c. updateTileLeaf c w f) cs
      in if cs' = cs then TileSplit i d cs sz else TileSplit i d cs' sz)"

definition updateWorkspaceTileLeaf ::
    "window_layout \<Rightarrow> string \<Rightarrow> (tile_leaf \<Rightarrow> tile_leaf) \<Rightarrow> window_layout" where
  "updateWorkspaceTileLeaf layout w f =
     (let newTabs = map (\<lambda>tab. case wt_workspaceLayout tab of
              None \<Rightarrow> tab
            | Some n \<Rightarrow>
                (let newLayout = updateTileLeaf n w f
                 in if newLayout = n then tab else tab\<lparr>wt_workspaceLayout := Some newLayout\<rparr>))
            (wl_tabs layout)
      in if newTabs = wl_tabs layout then layout else layout\<lparr>wl_tabs := newTabs\<rparr>)"

section \<open>Workspace uniqueness\<close>

definition removeWorkspaceFromLayout ::
    "window_layout \<Rightarrow> string \<Rightarrow> (window_tab \<Rightarrow> string \<Rightarrow> window_tab) \<Rightarrow> window_layout" where
  "removeWorkspaceFromLayout layout w removeFromTab =
     (case findWorkspaceLocation layout w of
        None \<Rightarrow> layout
      | Some location \<Rightarrow>
          (let newTabs = map (\<lambda>tab. if wt_id tab = wloc_tabId location
                 then removeFromTab tab w else tab) (wl_tabs layout)
           in if newTabs = wl_tabs layout then layout else layout\<lparr>wl_tabs := newTabs\<rparr>))"

definition moveWorkspace ::
    "window_layout \<Rightarrow> string \<Rightarrow> string \<Rightarrow> (window_tab \<Rightarrow> string \<Rightarrow> window_tab)
      \<Rightarrow> (window_tab \<Rightarrow> string \<Rightarrow> window_tab) \<Rightarrow> window_layout" where
  "moveWorkspace layout w targetTabId removeFromTab addToTab =
     (let existing = findWorkspaceLocation layout w
      in if map_option wloc_tabId existing = Some targetTabId then layout
         else
           (let intermediate =
                  (if existing \<noteq> None then removeWorkspaceFromLayout layout w removeFromTab
                   else layout);
                newTabs = map (\<lambda>tab. if wt_id tab = targetTabId then addToTab tab w else tab)
                  (wl_tabs intermediate)
            in if newTabs = wl_tabs intermediate then intermediate
               else intermediate\<lparr>wl_tabs := newTabs\<rparr>))"

definition addWorkspaceToTabUnique ::
    "window_layout \<Rightarrow> string \<Rightarrow> string \<Rightarrow> (window_tab \<Rightarrow> string \<Rightarrow> window_tab)
      \<Rightarrow> (window_tab \<Rightarrow> string \<Rightarrow> window_tab) \<Rightarrow> window_layout" where
  "addWorkspaceToTabUnique layout w targetTabId removeFromTab addToTab =
     moveWorkspace layout w targetTabId removeFromTab addToTab"

section \<open>Close confirmation\<close>

record terminal_process_info =
  tpi_hasChildProcess :: bool
  tpi_id :: string

fun collectTerminalIdsFromTileTree :: "tile_node \<Rightarrow> string list" where
  "collectTerminalIdsFromTileTree (TileLeaf l) =
     concat (map (\<lambda>tab. collectTerminalIds (pt_panelLayout tab)) (tl_panelTabs l))"
| "collectTerminalIdsFromTileTree (TileSplit i d cs sz) =
     concat (map collectTerminalIdsFromTileTree cs)"

definition hasRunningProcess :: "string list \<Rightarrow> terminal_process_info list \<Rightarrow> bool" where
  "hasRunningProcess terminalIds terminals =
     list_ex (\<lambda>i. case find (\<lambda>t. tpi_id t = i) terminals of
         Some t \<Rightarrow> tpi_hasChildProcess t | None \<Rightarrow> False) terminalIds"

definition shouldConfirmClosePanelTab :: "panel_tab \<Rightarrow> terminal_process_info list \<Rightarrow> bool" where
  "shouldConfirmClosePanelTab tab terminals =
     hasRunningProcess (collectTerminalIds (pt_panelLayout tab)) terminals"

definition shouldConfirmCloseWindowTab :: "window_tab \<Rightarrow> terminal_process_info list \<Rightarrow> bool" where
  "shouldConfirmCloseWindowTab tab terminals =
     (case wt_workspaceLayout tab of
        None \<Rightarrow> False
      | Some n \<Rightarrow> hasRunningProcess (collectTerminalIdsFromTileTree n) terminals)"

section \<open>Progressive close\<close>

datatype progressive_close_action =
    ClosePane string
  | ClosePanelTab string string
  | CloseWorkspace string
  | CloseWindowTab string
  | CloseApp

fun findWorkspaceTileLeaf :: "tile_node \<Rightarrow> string \<Rightarrow> tile_leaf option" where
  "findWorkspaceTileLeaf (TileLeaf l) w = (if tl_workspaceId l = w then Some l else None)"
| "findWorkspaceTileLeaf (TileSplit i d cs sz) w = first_some (\<lambda>c. findWorkspaceTileLeaf c w) cs"

definition resolveLastWorkspaceCloseAction :: "window_tab \<Rightarrow> progressive_close_action" where
  "resolveLastWorkspaceCloseAction activeTab = CloseWindowTab (wt_id activeTab)"

definition resolveEmptyWorkspaceAction :: "window_tab \<Rightarrow> string \<Rightarrow> progressive_close_action" where
  "resolveEmptyWorkspaceAction activeTab activeWorkspaceId =
     (case wt_workspaceLayout activeTab of
        None \<Rightarrow> resolveLastWorkspaceCloseAction activeTab
      | Some n \<Rightarrow>
          if length (getWorkspaceTileLeaves n) \<le> 1 then resolveLastWorkspaceCloseAction activeTab
          else CloseWorkspace activeWorkspaceId)"

definition resolveLastPaneCloseAction :: "string \<Rightarrow> string \<Rightarrow> progressive_close_action" where
  "resolveLastPaneCloseAction activePanelTabId activeWorkspaceId =
     ClosePanelTab activePanelTabId activeWorkspaceId"

definition resolveNullPaneCloseAction :: "window_layout option \<Rightarrow> progressive_close_action" where
  "resolveNullPaneCloseAction layout =
     (case Option.bind layout getActiveWindowTab of
        None \<Rightarrow> CloseApp
      | Some activeTab \<Rightarrow>
          (let resolvedPaneId = resolveActivePaneForWindowTab activeTab
           in if truthy resolvedPaneId then ClosePane (the resolvedPaneId)
              else CloseWindowTab (wt_id activeTab)))"

definition computeProgressiveCloseAction ::
    "window_layout option \<Rightarrow> string option \<Rightarrow> string option \<Rightarrow> progressive_close_action" where
  "computeProgressiveCloseAction layout activePaneId activeWorkspaceId =
     (if \<not> truthy activePaneId then resolveNullPaneCloseAction layout
      else
        (case layout of
           None \<Rightarrow> ClosePane (the activePaneId)
         | Some lay \<Rightarrow>
             (case getActiveWindowTab lay of
                None \<Rightarrow> CloseApp
              | Some activeTab \<Rightarrow>
                  if \<not> truthy activeWorkspaceId then
                    (case wt_workspaceLayout activeTab of
                       None \<Rightarrow> CloseWindowTab (wt_id activeTab)
                     | Some n \<Rightarrow>
                         if length (getWorkspaceTileLeaves n) = 0 then CloseWindowTab (wt_id activeTab)
                         else ClosePane (the activePaneId))
                  else
                    (case Option.bind (wt_workspaceLayout activeTab)
                            (\<lambda>n. findWorkspaceTileLeaf n (the activeWorkspaceId)) of
                       None \<Rightarrow> ClosePane (the activePaneId)
                     | Some leaf \<Rightarrow>
                         (case find (\<lambda>t. Some (pt_id t) = tl_activePanelTabId leaf)
                                 (tl_panelTabs leaf) of
                            None \<Rightarrow>
                              resolveEmptyWorkspaceAction activeTab (the activeWorkspaceId)
                          | Some activePanelTab \<Rightarrow>
                              if 1 < countLeaves (pt_panelLayout activePanelTab)
                              then ClosePane (the activePaneId)
                              else resolveLastPaneCloseAction (pt_id activePanelTab)
                                     (the activeWorkspaceId))))))"

section \<open>Closing a terminal\<close>

definition paneCountAt :: "window_layout \<Rightarrow> terminal_location \<Rightarrow> nat" where
  "paneCountAt layout location =
     (case first_some (\<lambda>tab.
             if wt_id tab \<noteq> tloc_tabId location then None
             else Option.bind (wt_workspaceLayout tab) (\<lambda>n.
               Option.bind (findWorkspaceTileLeaf n (tloc_workspaceId location)) (\<lambda>tile.
                 map_option (\<lambda>panelTab. countLeaves (pt_panelLayout panelTab))
                   (find (\<lambda>t. pt_id t = tloc_panelTabId location) (tl_panelTabs tile)))))
           (wl_tabs layout) of
        Some n \<Rightarrow> n
      | None \<Rightarrow> 0)"

definition closePaneInTile :: "terminal_location \<Rightarrow> tile_leaf \<Rightarrow> tile_leaf" where
  "closePaneInTile location leaf =
     leaf\<lparr>tl_panelTabs := map (\<lambda>tab.
            if pt_id tab \<noteq> tloc_panelTabId location then tab
            else (case closePane (pt_panelLayout tab) (tloc_paneId location) of
                    None \<Rightarrow> tab
                  | Some newLayout \<Rightarrow> tab\<lparr>pt_panelLayout := newLayout\<rparr>)) (tl_panelTabs leaf)\<rparr>"

definition closeTerminalInWindowLayout :: "window_layout \<Rightarrow> string \<Rightarrow> window_layout" where
  "closeTerminalInWindowLayout layout terminalId =
     (case findTerminalLocation layout terminalId of
        None \<Rightarrow> layout
      | Some location \<Rightarrow>
          if paneCountAt layout location \<le> 1 then
            updateWorkspaceTileLeaf layout (tloc_workspaceId location)
              (\<lambda>leaf. removePanelTab leaf (tloc_panelTabId location))
          else
            updateWorkspaceTileLeaf layout (tloc_workspaceId location) (closePaneInTile location))"

end
