(* ===== verification/Window_Repair.thy ===== *)
theory Window_Repair
  imports Window_Layout
begin

text \<open>
  Persistence repair of \<open>apps/web/src/panels/window-layout-utils.ts\<close>: detecting stale terminal
  ids, replacing them after a respawn, and decoding a persisted layout leniently. A persisted
  value is a \<open>json\<close>; a missing property is \<open>None\<close>. The strict decoders are Effect Schema
  decoders, a library the sources call: they are the fields of \<open>strict_decoders\<close>, arguments of
  every function that uses them, with \<open>None\<close> for a decode failure.
\<close>

section \<open>Stale terminals\<close>

record stale_terminal_leaf =
  stale_command :: "string option"
  stale_paneId :: string
  stale_terminalId :: string
  stale_workspaceId :: "string option"

fun getStaleTerminalLeavesFromPanelTree ::
    "panel_node \<Rightarrow> string set \<Rightarrow> stale_terminal_leaf list" where
  "getStaleTerminalLeavesFromPanelTree (LeafNode l) live =
     (case leaf_terminalId l of
        Some t \<Rightarrow>
          if t \<notin> live then
            [\<lparr>stale_command = leaf_command l, stale_paneId = leaf_id l,
              stale_terminalId = t, stale_workspaceId = leaf_workspaceId l\<rparr>]
          else []
      | None \<Rightarrow> [])"
| "getStaleTerminalLeavesFromPanelTree (SplitNode i d cs sz) live =
     concat (map (\<lambda>c. getStaleTerminalLeavesFromPanelTree c live) cs)"

fun getStaleTerminalLeavesFromTileTree ::
    "tile_node \<Rightarrow> string set \<Rightarrow> stale_terminal_leaf list" where
  "getStaleTerminalLeavesFromTileTree (TileLeaf l) live =
     concat (map (\<lambda>tab. getStaleTerminalLeavesFromPanelTree (pt_panelLayout tab) live)
       (tl_panelTabs l))"
| "getStaleTerminalLeavesFromTileTree (TileSplit i d cs sz) live =
     concat (map (\<lambda>c. getStaleTerminalLeavesFromTileTree c live) cs)"

definition getStaleTerminalLeavesHierarchical ::
    "window_layout \<Rightarrow> string set \<Rightarrow> stale_terminal_leaf list" where
  "getStaleTerminalLeavesHierarchical layout live =
     concat (map (\<lambda>tab. case wt_workspaceLayout tab of
         Some n \<Rightarrow> getStaleTerminalLeavesFromTileTree n live | None \<Rightarrow> []) (wl_tabs layout))"

section \<open>Reconciliation\<close>

fun reconcilePanelTree ::
    "panel_node \<Rightarrow> string set \<Rightarrow> (string \<rightharpoonup> string) \<Rightarrow> panel_node" where
  "reconcilePanelTree (LeafNode l) live respawned =
     (case leaf_terminalId l of
        Some t \<Rightarrow>
          if t \<notin> live then LeafNode (l\<lparr>leaf_terminalId := respawned t\<rparr>) else LeafNode l
      | None \<Rightarrow> LeafNode l)"
| "reconcilePanelTree (SplitNode i d cs sz) live respawned =
     (let cs' = map (\<lambda>c. reconcilePanelTree c live respawned) cs
      in if cs' \<noteq> cs then SplitNode i d cs' sz else SplitNode i d cs sz)"

fun reconcileTileTree ::
    "tile_node \<Rightarrow> string set \<Rightarrow> (string \<rightharpoonup> string) \<Rightarrow> tile_node" where
  "reconcileTileTree (TileLeaf l) live respawned =
     (let newPanelTabs = map (\<lambda>tab.
            (let newLayout = reconcilePanelTree (pt_panelLayout tab) live respawned
             in if newLayout \<noteq> pt_panelLayout tab then tab\<lparr>pt_panelLayout := newLayout\<rparr>
                else tab)) (tl_panelTabs l)
      in if newPanelTabs \<noteq> tl_panelTabs l then TileLeaf (l\<lparr>tl_panelTabs := newPanelTabs\<rparr>)
         else TileLeaf l)"
| "reconcileTileTree (TileSplit i d cs sz) live respawned =
     (let cs' = map (\<lambda>c. reconcileTileTree c live respawned) cs
      in if cs' \<noteq> cs then TileSplit i d cs' sz else TileSplit i d cs sz)"

definition reconcileTab :: "string set \<Rightarrow> (string \<rightharpoonup> string) \<Rightarrow> window_tab \<Rightarrow> window_tab" where
  "reconcileTab live respawned tab =
     (case wt_workspaceLayout tab of
        None \<Rightarrow> tab
      | Some n \<Rightarrow>
          (let newLayout = reconcileTileTree n live respawned
           in if newLayout \<noteq> n then tab\<lparr>wt_workspaceLayout := Some newLayout\<rparr> else tab))"

definition reconcileWindowLayout ::
    "window_layout \<Rightarrow> string set \<Rightarrow> (string \<rightharpoonup> string) \<Rightarrow> window_layout" where
  "reconcileWindowLayout layout live respawned =
     (let newTabs = map (reconcileTab live respawned) (wl_tabs layout)
      in if newTabs \<noteq> wl_tabs layout then layout\<lparr>wl_tabs := newTabs\<rparr> else layout)"

section \<open>Repair transforms\<close>

text \<open>
  The size check asks each entry for its type: an entry of a decoded layout is a number
  (\<open>Some\<close>), one of a raw array may be anything else (\<open>None\<close>).
\<close>

definition repairSizesTransform :: "rat option list \<Rightarrow> nat \<Rightarrow> rat list" where
  "repairSizesTransform sizes expectedLength =
     (if length sizes = expectedLength
         \<and> list_all (\<lambda>s. case s of Some x \<Rightarrow> 0 < x | None \<Rightarrow> False) sizes
      then List.map_filter id sizes
      else equal_sizes expectedLength)"

definition resolveActiveTabId :: "string option \<Rightarrow> window_tab list \<Rightarrow> string option" where
  "resolveActiveTabId activeTabId tabs =
     (if truthy activeTabId \<and> list_ex (\<lambda>t. Some (wt_id t) = activeTabId) tabs then activeTabId
      else map_option wt_id (js_nth tabs 0))"

definition resolveActiveId :: "string option \<Rightarrow> string list \<Rightarrow> string option" where
  "resolveActiveId current validIds =
     (if truthy current \<and> the current \<in> set validIds then current else js_nth validIds 0)"

fun repairPanelNodeTransform :: "panel_node \<Rightarrow> panel_node" where
  "repairPanelNodeTransform (LeafNode l) = LeafNode l"
| "repairPanelNodeTransform (SplitNode i d cs sz) =
     (case map repairPanelNodeTransform cs of
        [c] \<Rightarrow> c
      | cs' \<Rightarrow> SplitNode i d cs' (repairSizesTransform (map Some sz) (length cs')))"

definition repairPanelTabTransform :: "panel_tab \<Rightarrow> panel_tab" where
  "repairPanelTabTransform tab =
     (let repairedLayout = repairPanelNodeTransform (pt_panelLayout tab)
      in if repairedLayout = pt_panelLayout tab then tab
         else tab\<lparr>pt_panelLayout := repairedLayout\<rparr>)"

fun repairWorkspaceTileTransform :: "tile_node \<Rightarrow> tile_node" where
  "repairWorkspaceTileTransform (TileLeaf l) =
     (let repairedTabs = map repairPanelTabTransform (tl_panelTabs l);
          activeId = resolveActiveId (tl_activePanelTabId l) (map pt_id repairedTabs)
      in TileLeaf (l\<lparr>tl_panelTabs := repairedTabs, tl_activePanelTabId := activeId\<rparr>))"
| "repairWorkspaceTileTransform (TileSplit i d cs sz) =
     (case map repairWorkspaceTileTransform cs of
        [c] \<Rightarrow> c
      | cs' \<Rightarrow> TileSplit i d cs' (repairSizesTransform (map Some sz) (length cs')))"

definition repairWindowTabTransform :: "window_tab \<Rightarrow> window_tab" where
  "repairWindowTabTransform tab =
     (case wt_workspaceLayout tab of
        None \<Rightarrow> tab
      | Some n \<Rightarrow>
          (let repairedLayout = repairWorkspaceTileTransform n
           in if repairedLayout = n then tab
              else tab\<lparr>wt_workspaceLayout := Some repairedLayout\<rparr>))"

definition repairTransforms :: "window_layout \<Rightarrow> window_layout" where
  "repairTransforms layout =
     (let repairedTabs = map repairWindowTabTransform (filter (\<lambda>t. wt_id t \<noteq> []) (wl_tabs layout))
      in \<lparr>wl_activeTabId = resolveActiveTabId (wl_activeTabId layout) repairedTabs,
          wl_tabs = repairedTabs\<rparr>)"

section \<open>Lenient decoding\<close>

datatype json =
    JNull
  | JBool bool
  | JNum rat
  | JStr string
  | JArr "json list"
  | JObj "(string \<times> json) list"

record strict_decoders =
  dec_windowLayout :: "json \<Rightarrow> window_layout option"
  dec_windowTab :: "json \<Rightarrow> window_tab option"
  dec_tileNode :: "json \<Rightarrow> tile_node option"
  dec_panelTab :: "json \<Rightarrow> panel_tab option"
  dec_panelNode :: "json \<Rightarrow> panel_node option"

fun isRecord :: "json \<Rightarrow> bool" where
  "isRecord (JObj kvs) = True"
| "isRecord _ = False"

fun jfield :: "json \<Rightarrow> string \<Rightarrow> json option" where
  "jfield (JObj kvs) k = map_of kvs k"
| "jfield _ k = None"

text \<open>\<open>typeof v === 'string' ? v : undefined\<close>, and \<open>Array.isArray(v) ? v : undefined\<close>.\<close>

definition jstring :: "json option \<Rightarrow> string option" where
  "jstring v = (case v of Some (JStr s) \<Rightarrow> Some s | _ \<Rightarrow> None)"

definition jarray :: "json option \<Rightarrow> json list option" where
  "jarray v = (case v of Some (JArr xs) \<Rightarrow> Some xs | _ \<Rightarrow> None)"

fun jnumber :: "json \<Rightarrow> rat option" where
  "jnumber (JNum x) = Some x"
| "jnumber _ = None"

definition jsizes :: "json option \<Rightarrow> rat option list" where
  "jsizes v = (case jarray v of Some xs \<Rightarrow> map jnumber xs | None \<Rightarrow> [])"

definition jdirection :: "json option \<Rightarrow> split_direction option" where
  "jdirection v =
     (if jstring v = Some ''horizontal'' then Some Horizontal
      else if jstring v = Some ''vertical'' then Some Vertical
      else None)"

lemma size_snd_list: "(k, v) \<in> set kvs \<Longrightarrow> size v \<le> size_list (size_prod f size) kvs"
  by (induction kvs) auto

lemma jfield_size: "jfield raw k = Some v \<Longrightarrow> size v < size raw"
  by (cases raw) (auto dest!: map_of_SomeD size_snd_list simp: less_Suc_eq_le)

lemma jarray_size: "jarray (Some w) = Some xs \<Longrightarrow> x \<in> set xs \<Longrightarrow> size x < size w"
  by (auto simp: jarray_def less_Suc_eq_le split: json.splits intro!: size_list_estimation')

lemma jarray_None [simp]: "jarray None = None" by (simp add: jarray_def)

lemma jchild_size: "jarray (jfield raw k) = Some xs \<Longrightarrow> x \<in> set xs \<Longrightarrow> size x < size raw"
  by (cases "jfield raw k") (auto dest: jfield_size jarray_size order.strict_trans)

lemma map_filter_cong [fundef_cong]:
  "xs = ys \<Longrightarrow> (\<And>x. x \<in> set ys \<Longrightarrow> f x = g x) \<Longrightarrow> List.map_filter f xs = List.map_filter g ys"
  by (induction ys arbitrary: xs) (auto simp: List.map_filter_simps split: option.splits)

definition lenientDecodeLeafNode :: "json \<Rightarrow> panel_node option" where
  "lenientDecodeLeafNode raw =
     (case jstring (jfield raw ''id'') of
        None \<Rightarrow> None
      | Some i \<Rightarrow>
          if i = [] then None
          else
            (case jstring (jfield raw ''paneType'') of
               None \<Rightarrow> None
             | Some ty \<Rightarrow>
                 if ty \<notin> {''agent'', ''terminal''} then None
                 else Some (LeafNode
                   \<lparr>leaf_command = None, leaf_id = i,
                    leaf_paneType = (if ty = ''agent'' then AgentPane else TerminalPane),
                    leaf_terminalId = jstring (jfield raw ''terminalId''),
                    leaf_workspaceId = jstring (jfield raw ''workspaceId'')\<rparr>)))"

function lenientDecodePanelNode :: "strict_decoders \<Rightarrow> json \<Rightarrow> panel_node option"
  and lenientDecodeSplitNode :: "strict_decoders \<Rightarrow> json \<Rightarrow> panel_node option" where
  "lenientDecodePanelNode D raw =
     (case dec_panelNode D raw of
        Some n \<Rightarrow> Some n
      | None \<Rightarrow>
          if \<not> isRecord raw then None
          else if jstring (jfield raw ''_tag'') = Some ''LeafNode'' then lenientDecodeLeafNode raw
          else if jstring (jfield raw ''_tag'') = Some ''SplitNode'' then lenientDecodeSplitNode D raw
          else None)"
| "lenientDecodeSplitNode D raw =
     (case jstring (jfield raw ''id'') of
        None \<Rightarrow> None
      | Some i \<Rightarrow>
          if i = [] then None
          else
            (case jdirection (jfield raw ''direction'') of
               None \<Rightarrow> None
             | Some d \<Rightarrow>
                 (case jarray (jfield raw ''children'') of
                    None \<Rightarrow> None
                  | Some children \<Rightarrow>
                      (case List.map_filter (\<lambda>c. lenientDecodePanelNode D c) children of
                         [] \<Rightarrow> None
                       | [c] \<Rightarrow> Some c
                       | valid \<Rightarrow> Some (SplitNode i d valid
                           (repairSizesTransform (jsizes (jfield raw ''sizes'')) (length valid)))))))"
  by pat_completeness auto
termination
  by (relation "measure (\<lambda>x. case x of Inl (D, raw) \<Rightarrow> 2 * size raw + 1
      | Inr (D, raw) \<Rightarrow> 2 * size raw)")
    (auto dest: jchild_size)

definition lenientDecodePanelTab :: "strict_decoders \<Rightarrow> json \<Rightarrow> panel_tab option" where
  "lenientDecodePanelTab D raw =
     (let lenient =
            (if \<not> isRecord raw then None
             else
               (case jstring (jfield raw ''id'') of
                  None \<Rightarrow> None
                | Some i \<Rightarrow>
                    if i = [] then None
                    else map_option (\<lambda>n.
                      \<lparr>pt_focusedPaneId = jstring (jfield raw ''focusedPaneId''), pt_id = i,
                       pt_label = jstring (jfield raw ''label''), pt_panelLayout = n\<rparr>)
                      (Option.bind (jfield raw ''panelLayout'') (lenientDecodePanelNode D))))
      in case dec_panelTab D raw of
           Some t \<Rightarrow> if pt_id t \<noteq> [] then Some t else lenient
         | None \<Rightarrow> lenient)"

definition lenientDecodeTileLeaf :: "strict_decoders \<Rightarrow> json \<Rightarrow> tile_node option" where
  "lenientDecodeTileLeaf D raw =
     (case (jstring (jfield raw ''id''), jstring (jfield raw ''workspaceId'')) of
        (Some i, Some w) \<Rightarrow>
          if i = [] \<or> w = [] then None
          else
            (let panelTabs = (case jarray (jfield raw ''panelTabs'') of
                   Some xs \<Rightarrow> List.map_filter (lenientDecodePanelTab D) xs
                 | None \<Rightarrow> [])
             in Some (TileLeaf
                  \<lparr>tl_activePanelTabId = resolveActiveId
                     (jstring (jfield raw ''activePanelTabId'')) (map pt_id panelTabs),
                   tl_id = i, tl_panelTabs = panelTabs, tl_workspaceId = w\<rparr>))
      | _ \<Rightarrow> None)"

function lenientDecodeTileNode :: "strict_decoders \<Rightarrow> json \<Rightarrow> tile_node option"
  and lenientDecodeTileSplit :: "strict_decoders \<Rightarrow> json \<Rightarrow> tile_node option" where
  "lenientDecodeTileNode D raw =
     (case dec_tileNode D raw of
        Some n \<Rightarrow> Some n
      | None \<Rightarrow>
          if \<not> isRecord raw then None
          else if jstring (jfield raw ''_tag'') = Some ''WorkspaceTileLeaf''
            then lenientDecodeTileLeaf D raw
          else if jstring (jfield raw ''_tag'') = Some ''WorkspaceTileSplit''
            then lenientDecodeTileSplit D raw
          else None)"
| "lenientDecodeTileSplit D raw =
     (case jstring (jfield raw ''id'') of
        None \<Rightarrow> None
      | Some i \<Rightarrow>
          if i = [] then None
          else
            (case jdirection (jfield raw ''direction'') of
               None \<Rightarrow> None
             | Some d \<Rightarrow>
                 (case jarray (jfield raw ''children'') of
                    None \<Rightarrow> None
                  | Some children \<Rightarrow>
                      (case List.map_filter (\<lambda>c. lenientDecodeTileNode D c) children of
                         [] \<Rightarrow> None
                       | [c] \<Rightarrow> Some c
                       | valid \<Rightarrow> Some (TileSplit i d valid
                           (repairSizesTransform (jsizes (jfield raw ''sizes'')) (length valid)))))))"
  by pat_completeness auto
termination
  by (relation "measure (\<lambda>x. case x of Inl (D, raw) \<Rightarrow> 2 * size raw + 1
      | Inr (D, raw) \<Rightarrow> 2 * size raw)")
    (auto dest: jchild_size)

definition lenientDecodeWindowTab :: "strict_decoders \<Rightarrow> json \<Rightarrow> window_tab option" where
  "lenientDecodeWindowTab D raw =
     (let lenient =
            (if \<not> isRecord raw then None
             else
               (case jstring (jfield raw ''id'') of
                  None \<Rightarrow> None
                | Some i \<Rightarrow>
                    if i = [] then None
                    else Some
                      \<lparr>wt_focusedWorkspaceTileId = None, wt_id = i,
                       wt_label = jstring (jfield raw ''label''),
                       wt_workspaceLayout =
                         (case jfield raw ''workspaceLayout'' of
                            None \<Rightarrow> None
                          | Some v \<Rightarrow> if v = JNull then None else lenientDecodeTileNode D v)\<rparr>))
      in case dec_windowTab D raw of
           Some t \<Rightarrow> if wt_id t \<noteq> [] then Some t else lenient
         | None \<Rightarrow> lenient)"

record repair_result =
  rr_wasRepaired :: bool
  rr_windowLayout :: "window_layout option"

definition lenientDecodeWindowLayout :: "strict_decoders \<Rightarrow> json \<Rightarrow> repair_result" where
  "lenientDecodeWindowLayout D input =
     (if \<not> isRecord input then \<lparr>rr_wasRepaired = True, rr_windowLayout = None\<rparr>
      else
        (case jarray (jfield input ''tabs'') of
           None \<Rightarrow> \<lparr>rr_wasRepaired = True, rr_windowLayout = None\<rparr>
         | Some rawTabs \<Rightarrow>
             (let validTabs = List.map_filter (lenientDecodeWindowTab D) rawTabs
              in if length validTabs = 0 then
                   \<lparr>rr_wasRepaired = True,
                    rr_windowLayout = Some \<lparr>wl_activeTabId = None, wl_tabs = []\<rparr>\<rparr>
                 else
                   (let activeTabId = resolveActiveTabId
                          (jstring (jfield input ''activeTabId'')) validTabs
                    in \<lparr>rr_wasRepaired = True,
                        rr_windowLayout = Some (repairTransforms
                          \<lparr>wl_activeTabId = activeTabId, wl_tabs = validTabs\<rparr>)\<rparr>))))"

text \<open>
  \<open>deepEqual\<close> compares JSON texts; here it is equality of the layouts. The \<open>catch\<close> branch is
  unreachable for total decoders.
\<close>

definition deepEqual :: "window_layout \<Rightarrow> window_layout \<Rightarrow> bool" where
  "deepEqual a b \<longleftrightarrow> a = b"

definition decodeWindowLayout :: "strict_decoders \<Rightarrow> json \<Rightarrow> repair_result" where
  "decodeWindowLayout D input =
     (case dec_windowLayout D input of
        Some decoded \<Rightarrow>
          (let repaired = repairTransforms decoded
           in \<lparr>rr_wasRepaired = (\<not> deepEqual decoded repaired), rr_windowLayout = Some repaired\<rparr>)
      | None \<Rightarrow> lenientDecodeWindowLayout D input)"

end
