(* ===== verification/Repair_Facts.thy ===== *)
theory Repair_Facts
  imports Window_Repair
begin

text \<open>
  What repair and reconciliation guarantee: whatever was persisted, the layout handed to the
  renderer has non-empty tab ids, live active ids, no single-child split and one positive size
  per child; repairing twice changes nothing more; reconciliation replaces exactly the stale
  terminal ids and keeps everything else of every pane.
\<close>

section \<open>Repaired trees\<close>

fun panel_repaired :: "panel_node \<Rightarrow> bool" where
  "panel_repaired (LeafNode l) = True"
| "panel_repaired (SplitNode i d cs sz) =
     (length cs \<noteq> 1 \<and> sizes_ok sz cs \<and> list_all panel_repaired cs)"

fun no_empty_panel :: "panel_node \<Rightarrow> bool" where
  "no_empty_panel (LeafNode l) = True"
| "no_empty_panel (SplitNode i d cs sz) = (cs \<noteq> [] \<and> list_all no_empty_panel cs)"

definition panel_tab_repaired :: "panel_tab \<Rightarrow> bool" where
  "panel_tab_repaired t = panel_repaired (pt_panelLayout t)"

definition active_ok :: "string option \<Rightarrow> string list \<Rightarrow> bool" where
  "active_ok a ids = (case a of None \<Rightarrow> ids = [] | Some i \<Rightarrow> i \<in> set ids)"

fun tile_repaired :: "tile_node \<Rightarrow> bool" where
  "tile_repaired (TileLeaf l) =
     (list_all panel_tab_repaired (tl_panelTabs l)
      \<and> active_ok (tl_activePanelTabId l) (map pt_id (tl_panelTabs l)))"
| "tile_repaired (TileSplit i d cs sz) =
     (length cs \<noteq> 1 \<and> sizes_ok sz cs \<and> list_all tile_repaired cs)"

definition layout_repaired :: "window_layout \<Rightarrow> bool" where
  "layout_repaired layout \<longleftrightarrow>
     (\<forall>t\<in>set (wl_tabs layout). wt_id t \<noteq> [] \<and>
        (case wt_workspaceLayout t of None \<Rightarrow> True | Some n \<Rightarrow> tile_repaired n)) \<and>
     active_ok (wl_activeTabId layout) (map wt_id (wl_tabs layout))"

lemma wf_panel_repaired: "wf_panel n \<longleftrightarrow> panel_repaired n \<and> no_empty_panel n"
proof (induction n)
  case (LeafNode l)
  then show ?case by simp
next
  case (SplitNode i d cs sz)
  have "2 \<le> length cs \<longleftrightarrow> length cs \<noteq> 1 \<and> cs \<noteq> []"
    by (cases cs) (auto simp: Suc_le_eq)
  with SplitNode show ?case by (auto simp: list_all_iff)
qed

lemma map_filter_id_Some: "List.map_filter id (map Some xs) = xs"
  by (induction xs) (simp_all add: List.map_filter_simps)

lemma all_Some_map:
  "list_all (\<lambda>s. case s of Some x \<Rightarrow> P x | None \<Rightarrow> False) xs \<Longrightarrow>
     \<exists>ys. xs = map Some ys \<and> list_all P ys"
proof (induction xs)
  case Nil
  then show ?case by simp
next
  case (Cons x xs)
  then obtain ys y where "xs = map Some ys" "list_all P ys" "x = Some y" "P y"
    by (auto split: option.splits)
  then show ?case by (intro exI [of _ "y # ys"]) simp
qed

lemma repairSizes_ok: "n = length cs \<Longrightarrow> sizes_ok (repairSizesTransform s n) cs"
proof -
  assume n: "n = length cs"
  show ?thesis
  proof (cases "length s = n \<and> list_all (\<lambda>s. case s of Some x \<Rightarrow> 0 < x | None \<Rightarrow> False) s")
    case True
    then obtain ys where "s = map Some ys" "list_all (\<lambda>x. 0 < x) ys"
      using all_Some_map [of "\<lambda>x. 0 < x" s] by auto
    with True n show ?thesis
      by (auto simp: repairSizesTransform_def map_filter_id_Some sizes_ok_def list_all_iff)
  next
    case False
    with n show ?thesis by (auto simp: repairSizesTransform_def)
  qed
qed

lemma repairSizes_same: "sizes_ok sz cs \<Longrightarrow> repairSizesTransform (map Some sz) (length cs) = sz"
  by (auto simp: repairSizesTransform_def sizes_ok_def list_all_iff map_filter_id_Some)

section \<open>Panel trees\<close>

text \<open>A case analysis on a mapped list of children, as the collapse makes it.\<close>

lemma collapse_single:
  "(case xs of [c] \<Rightarrow> f c | _ \<Rightarrow> y) = (if length xs = 1 then f (hd xs) else y)"
  by (auto split: list.splits)

lemma repairPanelNode_split:
  "repairPanelNodeTransform (SplitNode i d cs sz) =
     (if length cs = 1 then repairPanelNodeTransform (hd cs)
      else SplitNode i d (map repairPanelNodeTransform cs)
             (repairSizesTransform (map Some sz) (length cs)))"
  by (cases cs; cases "tl cs") auto

declare repairPanelNodeTransform.simps(2) [simp del]

lemma length_one_hd: "length cs = 1 \<Longrightarrow> cs = [hd cs]"
  by (cases cs) auto

lemma repairPanelNode_repaired: "panel_repaired (repairPanelNodeTransform n)"
proof (induction n)
  case (LeafNode l)
  then show ?case by simp
next
  case (SplitNode i d cs sz)
  show ?case
  proof (cases "length cs = 1")
    case True
    then have "hd cs \<in> set cs" by (cases cs) auto
    with SplitNode True show ?thesis by (simp add: repairPanelNode_split)
  next
    case False
    with SplitNode show ?thesis
      by (simp add: repairPanelNode_split list_all_iff repairSizes_ok)
  qed
qed

lemma repairPanelNode_same: "panel_repaired n \<Longrightarrow> repairPanelNodeTransform n = n"
proof (induction n)
  case (LeafNode l)
  then show ?case by simp
next
  case (SplitNode i d cs sz)
  then have "map repairPanelNodeTransform cs = cs"
    by (auto simp: list_all_iff intro: map_idI)
  with SplitNode.prems show ?case by (simp add: repairPanelNode_split repairSizes_same)
qed

lemma repairPanelNode_leaves: "panel_leaves (repairPanelNodeTransform n) = panel_leaves n"
proof (induction n)
  case (LeafNode l)
  then show ?case by simp
next
  case (SplitNode i d cs sz)
  show ?case
  proof (cases "length cs = 1")
    case True
    then obtain c where "cs = [c]" using length_one_hd by blast
    with SplitNode show ?thesis by (simp add: repairPanelNode_split)
  next
    case False
    with SplitNode show ?thesis by (simp add: repairPanelNode_split comp_def cong: map_cong)
  qed
qed

lemma repairPanelNode_no_empty: "no_empty_panel n \<Longrightarrow> no_empty_panel (repairPanelNodeTransform n)"
proof (induction n)
  case (LeafNode l)
  then show ?case by simp
next
  case (SplitNode i d cs sz)
  then show ?case
    by (cases "length cs = 1") (auto simp: repairPanelNode_split list_all_iff)
qed

lemma repairPanelNode_wf: "no_empty_panel n \<Longrightarrow> wf_panel (repairPanelNodeTransform n)"
  by (simp add: wf_panel_repaired repairPanelNode_repaired repairPanelNode_no_empty)

section \<open>Tiles and tabs\<close>

lemma repairPanelTab_layout:
  "pt_panelLayout (repairPanelTabTransform t) = repairPanelNodeTransform (pt_panelLayout t)"
  "pt_id (repairPanelTabTransform t) = pt_id t"
  by (simp_all add: repairPanelTabTransform_def Let_def)

lemma repairPanelTab_same: "panel_tab_repaired t \<Longrightarrow> repairPanelTabTransform t = t"
  by (simp add: repairPanelTabTransform_def panel_tab_repaired_def repairPanelNode_same)

lemma resolveActiveId_ok: "active_ok (resolveActiveId a ids) ids"
  by (auto simp: active_ok_def resolveActiveId_def split: option.splits list.splits)

lemma resolveActiveId_idem: "resolveActiveId (resolveActiveId a ids) ids = resolveActiveId a ids"
  by (auto simp: resolveActiveId_def split: list.splits)

lemma resolveActiveId_same:
  "active_ok a ids \<Longrightarrow> [] \<notin> set ids \<Longrightarrow> resolveActiveId a ids = a"
  by (cases a) (auto simp: active_ok_def resolveActiveId_def)

lemma repairTile_split:
  "repairWorkspaceTileTransform (TileSplit i d cs sz) =
     (if length cs = 1 then repairWorkspaceTileTransform (hd cs)
      else TileSplit i d (map repairWorkspaceTileTransform cs)
             (repairSizesTransform (map Some sz) (length cs)))"
  by (cases cs; cases "tl cs") auto

declare repairWorkspaceTileTransform.simps(2) [simp del]

lemma repairTile_repaired: "tile_repaired (repairWorkspaceTileTransform n)"
proof (induction n)
  case (TileLeaf l)
  have ids: "map pt_id (map repairPanelTabTransform ts) = map pt_id ts" for ts
    by (simp add: repairPanelTab_layout comp_def)
  then show ?case
    using resolveActiveId_ok
    by (simp add: Let_def list_all_iff panel_tab_repaired_def repairPanelTab_layout
        repairPanelNode_repaired comp_def)
next
  case (TileSplit i d cs sz)
  show ?case
  proof (cases "length cs = 1")
    case True
    then have "hd cs \<in> set cs" by (cases cs) auto
    with TileSplit True show ?thesis by (simp add: repairTile_split)
  next
    case False
    with TileSplit show ?thesis by (simp add: repairTile_split list_all_iff repairSizes_ok)
  qed
qed

lemma repairTile_idem:
  "repairWorkspaceTileTransform (repairWorkspaceTileTransform n) = repairWorkspaceTileTransform n"
proof (induction n)
  case (TileLeaf l)
  have "repairPanelTabTransform (repairPanelTabTransform t) = repairPanelTabTransform t" for t
    by (rule repairPanelTab_same) (simp add: panel_tab_repaired_def repairPanelTab_layout
        repairPanelNode_repaired)
  then show ?case
    by (simp add: Let_def comp_def repairPanelTab_layout resolveActiveId_idem)
next
  case (TileSplit i d cs sz)
  show ?case
  proof (cases "length cs = 1")
    case True
    then have "hd cs \<in> set cs" by (cases cs) auto
    with TileSplit True show ?thesis by (simp add: repairTile_split)
  next
    case False
    have "map repairWorkspaceTileTransform (map repairWorkspaceTileTransform cs)
        = map repairWorkspaceTileTransform cs"
      using TileSplit by simp
    moreover have "repairSizesTransform
        (map Some (repairSizesTransform (map Some sz) (length cs))) (length cs)
        = repairSizesTransform (map Some sz) (length cs)"
      by (rule repairSizes_same) (simp add: repairSizes_ok)
    ultimately show ?thesis using False by (simp add: repairTile_split)
  qed
qed

lemma repairTile_leaves:
  "map (\<lambda>l. (tl_id l, tl_workspaceId l, map (\<lambda>t. (pt_id t, panel_leaves (pt_panelLayout t))) (tl_panelTabs l)))
       (getWorkspaceTileLeaves (repairWorkspaceTileTransform n))
   = map (\<lambda>l. (tl_id l, tl_workspaceId l, map (\<lambda>t. (pt_id t, panel_leaves (pt_panelLayout t))) (tl_panelTabs l)))
       (getWorkspaceTileLeaves n)" (is "?f (repairWorkspaceTileTransform n) = ?f n")
proof (induction n)
  case (TileLeaf l)
  then show ?case by (simp add: Let_def repairPanelTab_layout repairPanelNode_leaves)
next
  case (TileSplit i d cs sz)
  show ?case
  proof (cases "length cs = 1")
    case True
    then obtain c where "cs = [c]" using length_one_hd by blast
    with TileSplit show ?thesis by (simp add: repairTile_split)
  next
    case False
    have "concat (map ?f (map repairWorkspaceTileTransform cs)) = concat (map ?f cs)"
      using TileSplit by (simp add: comp_def cong: map_cong)
    with False show ?thesis by (simp add: repairTile_split map_concat comp_def)
  qed
qed

section \<open>Layouts\<close>

lemma repairWindowTab_simps:
  "wt_id (repairWindowTabTransform t) = wt_id t"
  "wt_workspaceLayout (repairWindowTabTransform t)
     = map_option repairWorkspaceTileTransform (wt_workspaceLayout t)"
  by (auto simp: repairWindowTabTransform_def Let_def split: option.splits)

lemma repairWindowTab_idem:
  "repairWindowTabTransform (repairWindowTabTransform t) = repairWindowTabTransform t"
  by (auto simp: repairWindowTabTransform_def Let_def repairTile_idem split: option.splits)

lemma resolveActiveTabId_eq: "resolveActiveTabId a tabs = resolveActiveId a (map wt_id tabs)"
  by (cases a) (auto simp: resolveActiveTabId_def resolveActiveId_def list_ex_iff js_nth_def
      split: list.splits)

lemma repairTransforms_repaired: "layout_repaired (repairTransforms layout)"
  using resolveActiveId_ok
  by (auto simp: layout_repaired_def repairTransforms_def Let_def repairWindowTab_simps
      resolveActiveTabId_eq repairTile_repaired split: option.splits)

lemma repairTransforms_idem: "repairTransforms (repairTransforms layout) = repairTransforms layout"
proof -
  define tabs where "tabs = map repairWindowTabTransform (filter (\<lambda>t. wt_id t \<noteq> []) (wl_tabs layout))"
  have "filter (\<lambda>t. wt_id t \<noteq> []) tabs = tabs"
    unfolding tabs_def by (rule filter_True) (auto simp: repairWindowTab_simps)
  moreover have "map repairWindowTabTransform tabs = tabs"
    by (simp add: tabs_def comp_def repairWindowTab_idem)
  ultimately show ?thesis
    unfolding repairTransforms_def Let_def tabs_def [symmetric]
    by (simp add: resolveActiveTabId_eq resolveActiveId_idem)
qed

lemma lenient_layout:
  "rr_windowLayout (lenientDecodeWindowLayout D input) = Some l \<Longrightarrow>
     l = \<lparr>wl_activeTabId = None, wl_tabs = []\<rparr> \<or> (\<exists>m. l = repairTransforms m)"
  by (auto simp: lenientDecodeWindowLayout_def Let_def split: if_splits option.splits)

lemma decode_layout:
  "rr_windowLayout (decodeWindowLayout D input) = Some l \<Longrightarrow>
     l = \<lparr>wl_activeTabId = None, wl_tabs = []\<rparr> \<or> (\<exists>m. l = repairTransforms m)"
  using lenient_layout by (auto simp: decodeWindowLayout_def Let_def split: option.splits)

lemma repairTransforms_empty:
  "repairTransforms \<lparr>wl_activeTabId = None, wl_tabs = []\<rparr> = \<lparr>wl_activeTabId = None, wl_tabs = []\<rparr>"
  by (simp add: repairTransforms_def resolveActiveTabId_def)

lemma decode_repaired:
  assumes "rr_windowLayout (decodeWindowLayout D input) = Some l"
  shows "layout_repaired l \<and> repairTransforms l = l"
  using decode_layout [OF assms] repairTransforms_repaired repairTransforms_idem
    repairTransforms_empty repairTransforms_repaired [of "\<lparr>wl_activeTabId = None, wl_tabs = []\<rparr>"]
  by auto

lemma decode_not_repaired:
  "\<not> rr_wasRepaired (decodeWindowLayout D input) \<Longrightarrow>
     rr_windowLayout (decodeWindowLayout D input) = dec_windowLayout D input"
  by (auto simp: decodeWindowLayout_def lenientDecodeWindowLayout_def deepEqual_def Let_def
      split: option.splits if_splits)

text \<open>A leaf that only the lenient decoder accepts comes back without its spawn intent.\<close>

lemma lenient_leaf_command:
  "lenientDecodeLeafNode raw = Some (LeafNode l) \<Longrightarrow> leaf_command l = None"
  by (auto simp: lenientDecodeLeafNode_def split: option.splits if_splits)

section \<open>Reconciliation\<close>

definition tile_panes :: "tile_leaf \<Rightarrow> leaf_node list" where
  "tile_panes tile = concat (map (\<lambda>t. panel_leaves (pt_panelLayout t)) (tl_panelTabs tile))"

definition window_panes :: "window_layout \<Rightarrow> leaf_node list" where
  "window_panes layout = concat (map tile_panes (getAllWorkspaceTileLeaves layout))"

definition is_stale :: "string set \<Rightarrow> leaf_node \<Rightarrow> bool" where
  "is_stale live l = (case leaf_terminalId l of None \<Rightarrow> False | Some t \<Rightarrow> t \<notin> live)"

definition reconcile_leaf :: "string set \<Rightarrow> (string \<rightharpoonup> string) \<Rightarrow> leaf_node \<Rightarrow> leaf_node" where
  "reconcile_leaf live respawned l =
     (if is_stale live l then l\<lparr>leaf_terminalId := Option.bind (leaf_terminalId l) respawned\<rparr> else l)"

definition stale_of :: "leaf_node \<Rightarrow> stale_terminal_leaf" where
  "stale_of l = \<lparr>stale_command = leaf_command l, stale_paneId = leaf_id l,
     stale_terminalId = the (leaf_terminalId l), stale_workspaceId = leaf_workspaceId l\<rparr>"

text \<open>The \<open>changed\<close> flags of the source do not affect the values.\<close>

lemma reconcilePanelTree_split:
  "reconcilePanelTree (SplitNode i d cs sz) live m
     = SplitNode i d (map (\<lambda>c. reconcilePanelTree c live m) cs) sz"
  by (simp add: Let_def)

lemma reconcileTile_leaf:
  "reconcileTileTree (TileLeaf l) live m = TileLeaf (l\<lparr>tl_panelTabs :=
     map (\<lambda>t. t\<lparr>pt_panelLayout := reconcilePanelTree (pt_panelLayout t) live m\<rparr>) (tl_panelTabs l)\<rparr>)"
proof -
  have "(if n \<noteq> pt_panelLayout t then t\<lparr>pt_panelLayout := n\<rparr> else t) = t\<lparr>pt_panelLayout := n\<rparr>"
    for n and t :: panel_tab
    by auto
  moreover have "(if ts \<noteq> tl_panelTabs l then TileLeaf (l\<lparr>tl_panelTabs := ts\<rparr>) else TileLeaf l)
      = TileLeaf (l\<lparr>tl_panelTabs := ts\<rparr>)" for ts
    by auto
  ultimately show ?thesis by (simp only: reconcileTileTree.simps Let_def)
qed

lemma reconcileTile_split:
  "reconcileTileTree (TileSplit i d cs sz) live m
     = TileSplit i d (map (\<lambda>c. reconcileTileTree c live m) cs) sz"
  by (simp add: Let_def)

declare reconcilePanelTree.simps(2) [simp del] reconcileTileTree.simps [simp del]

lemma reconcilePanelTree_leaves:
  "panel_leaves (reconcilePanelTree n live m) = map (reconcile_leaf live m) (panel_leaves n)"
proof (induction n)
  case (LeafNode l)
  then show ?case by (simp add: reconcile_leaf_def is_stale_def split: option.splits)
next
  case (SplitNode i d cs sz)
  then have "map (\<lambda>c. panel_leaves (reconcilePanelTree c live m)) cs
      = map (\<lambda>c. map (reconcile_leaf live m) (panel_leaves c)) cs" by simp
  then show ?case by (simp add: reconcilePanelTree_split map_concat comp_def cong: map_cong)
qed

lemma reconcileTileTree_panes:
  "map tile_panes (getWorkspaceTileLeaves (reconcileTileTree n live m))
     = map (\<lambda>l. map (reconcile_leaf live m) (tile_panes l)) (getWorkspaceTileLeaves n)"
proof (induction n)
  case (TileLeaf l)
  then show ?case
    by (simp add: reconcileTile_leaf tile_panes_def reconcilePanelTree_leaves map_concat comp_def)
next
  case (TileSplit i d cs sz)
  then have "map (\<lambda>c. map tile_panes (getWorkspaceTileLeaves (reconcileTileTree c live m))) cs
      = map (\<lambda>c. map (\<lambda>l. map (reconcile_leaf live m) (tile_panes l)) (getWorkspaceTileLeaves c)) cs"
    by simp
  then show ?case by (simp add: reconcileTile_split map_concat comp_def cong: map_cong)
qed

lemma reconcileTab_layout:
  "wt_workspaceLayout (reconcileTab live m t)
     = map_option (\<lambda>n. reconcileTileTree n live m) (wt_workspaceLayout t)"
  by (auto simp: reconcileTab_def Let_def split: option.splits)

lemma reconcile_tabs:
  "wl_tabs (reconcileWindowLayout layout live m) = map (reconcileTab live m) (wl_tabs layout)"
  by (simp add: reconcileWindowLayout_def Let_def)

definition tab_panes :: "window_tab \<Rightarrow> leaf_node list" where
  "tab_panes t = (case wt_workspaceLayout t of
     None \<Rightarrow> [] | Some n \<Rightarrow> concat (map tile_panes (getWorkspaceTileLeaves n)))"

lemma window_panes_tabs: "window_panes layout = concat (map tab_panes (wl_tabs layout))"
proof -
  have "concat (map tile_panes (concat (map (\<lambda>tab. case wt_workspaceLayout tab of
         Some n \<Rightarrow> getWorkspaceTileLeaves n | None \<Rightarrow> []) ts))) = concat (map tab_panes ts)" for ts
    by (induction ts) (auto simp: tab_panes_def split: option.splits)
  then show ?thesis by (simp add: window_panes_def getAllWorkspaceTileLeaves_def)
qed

lemma reconcileTab_panes: "tab_panes (reconcileTab live m t) = map (reconcile_leaf live m) (tab_panes t)"
  by (simp add: tab_panes_def reconcileTab_layout reconcileTileTree_panes map_concat comp_def
      split: option.splits)

lemma reconcileWindowLayout_panes:
  "window_panes (reconcileWindowLayout layout live m) = map (reconcile_leaf live m) (window_panes layout)"
  by (simp add: window_panes_tabs reconcile_tabs reconcileTab_panes map_concat comp_def)

lemma stale_panel_leaves:
  "getStaleTerminalLeavesFromPanelTree n live = map stale_of (filter (is_stale live) (panel_leaves n))"
proof (induction n)
  case (LeafNode l)
  then show ?case by (simp add: stale_of_def is_stale_def split: option.splits)
next
  case (SplitNode i d cs sz)
  then have "map (\<lambda>c. getStaleTerminalLeavesFromPanelTree c live) cs
      = map (\<lambda>c. map stale_of (filter (is_stale live) (panel_leaves c))) cs" by simp
  then show ?case by (simp add: filter_concat map_concat comp_def cong: map_cong)
qed

lemma stale_tile_panes:
  "getStaleTerminalLeavesFromTileTree n live
     = map stale_of (filter (is_stale live) (concat (map tile_panes (getWorkspaceTileLeaves n))))"
proof (induction n)
  case (TileLeaf l)
  then show ?case
    by (simp add: tile_panes_def stale_panel_leaves filter_concat map_concat comp_def)
next
  case (TileSplit i d cs sz)
  then have "map (\<lambda>c. getStaleTerminalLeavesFromTileTree c live) cs
      = map (\<lambda>c. map stale_of (filter (is_stale live)
          (concat (map tile_panes (getWorkspaceTileLeaves c))))) cs" by simp
  moreover have "concat (map tile_panes (concat (map getWorkspaceTileLeaves xs)))
      = concat (map (\<lambda>c. concat (map tile_panes (getWorkspaceTileLeaves c))) xs)" for xs
    by (induction xs) simp_all
  ultimately show ?case by (simp add: filter_concat map_concat comp_def cong: map_cong)
qed

lemma stale_window:
  "getStaleTerminalLeavesHierarchical layout live
     = map stale_of (filter (is_stale live) (window_panes layout))"
proof -
  have "(case wt_workspaceLayout tab of
      Some n \<Rightarrow> getStaleTerminalLeavesFromTileTree n live | None \<Rightarrow> [])
    = map stale_of (filter (is_stale live) (tab_panes tab))" for tab
    by (simp add: tab_panes_def stale_tile_panes split: option.splits)
  then show ?thesis
    by (simp add: getStaleTerminalLeavesHierarchical_def window_panes_tabs filter_concat map_concat
        comp_def)
qed

lemma reconciled_not_stale: "\<not> is_stale (live \<union> ran m) (reconcile_leaf live m l)"
  by (auto simp: reconcile_leaf_def is_stale_def ran_def split: option.splits)

lemma reconcile_no_stale:
  "getStaleTerminalLeavesHierarchical (reconcileWindowLayout layout live m) (live \<union> ran m) = []"
  by (simp add: stale_window reconcileWindowLayout_panes reconciled_not_stale filter_empty_conv)

end
