(* ===== verification/Workspace_Moves.thy ===== *)
theory Workspace_Moves
  imports Window_Layout Tile_Columns
begin

text \<open>
  One workspace, one place. \<open>moveWorkspace\<close> and \<open>removeWorkspaceFromLayout\<close> of
  \<open>window-layout-utils.ts\<close> take the two tab edits as callbacks; the locale
  \<open>workspace_tabs\<close> is what they rely on, and the tile edits of \<open>workspace-tile-utils.ts\<close>,
  the callbacks the panel hook passes, interpret it.
\<close>

section \<open>Workspaces of a window\<close>

definition window_workspaces :: "window_layout \<Rightarrow> string list" where
  "window_workspaces layout = concat (map tab_workspaces (wl_tabs layout))"

definition wf_window :: "window_layout \<Rightarrow> bool" where
  "wf_window layout \<longleftrightarrow>
     distinct (map wt_id (wl_tabs layout)) \<and> distinct (window_workspaces layout) \<and>
     (\<forall>t\<in>set (wl_tabs layout). wf_tab t \<and> (\<forall>l\<in>set (tab_leaves t). tl_id l \<noteq> []))"

lemma findWorkspaceInTileTree_iff:
  assumes "\<forall>l\<in>set (getWorkspaceTileLeaves n). tl_id l \<noteq> []"
  shows "truthy (findWorkspaceInTileTree n w) \<longleftrightarrow> w \<in> set (tile_workspaces n)"
  using assms
proof (induction n)
  case (TileLeaf l)
  then show ?case by auto
next
  case (TileSplit i d cs sz)
  have ft: "truthy (first_truthy f xs) \<longleftrightarrow> (\<exists>x\<in>set xs. truthy (f x))"
    for f :: "tile_node \<Rightarrow> string option" and xs
    by (induction xs) auto
  from TileSplit show ?case by (auto simp: ft)
qed

lemma findWorkspaceLocation_None:
  assumes "\<forall>t\<in>set (wl_tabs layout). \<forall>l\<in>set (tab_leaves t). tl_id l \<noteq> []"
  shows "findWorkspaceLocation layout w = None \<longleftrightarrow> w \<notin> set (window_workspaces layout)"
proof -
  have "(case wt_workspaceLayout t of
        None \<Rightarrow> None
      | Some n \<Rightarrow> (let tileId = findWorkspaceInTileTree n w
            in if truthy tileId then Some \<lparr>wloc_tabId = wt_id t, wloc_tileId = the tileId\<rparr>
               else None)) = None \<longleftrightarrow> w \<notin> set (tab_workspaces t)"
    if "t \<in> set (wl_tabs layout)" for t
    using that assms findWorkspaceInTileTree_iff
    by (auto simp: tab_workspaces_def tab_leaves_def tile_workspaces_def Let_def
        split: option.splits)
  then show ?thesis
    by (auto simp: findWorkspaceLocation_def first_some_None window_workspaces_def)
qed

lemma findWorkspaceLocation_Some:
  assumes "findWorkspaceLocation layout w = Some loc"
    and "\<forall>t\<in>set (wl_tabs layout). \<forall>l\<in>set (tab_leaves t). tl_id l \<noteq> []"
  shows "\<exists>t\<in>set (wl_tabs layout). wt_id t = wloc_tabId loc \<and> w \<in> set (tab_workspaces t)"
proof -
  from assms(1) obtain t where t: "t \<in> set (wl_tabs layout)"
    and r: "(case wt_workspaceLayout t of
        None \<Rightarrow> None
      | Some n \<Rightarrow> (let tileId = findWorkspaceInTileTree n w
            in if truthy tileId then Some \<lparr>wloc_tabId = wt_id t, wloc_tileId = the tileId\<rparr>
               else None)) = Some loc"
    unfolding findWorkspaceLocation_def by (auto dest!: first_some_Some)
  then obtain n where n: "wt_workspaceLayout t = Some n" "truthy (findWorkspaceInTileTree n w)"
    "wloc_tabId loc = wt_id t"
    by (auto simp: Let_def split: option.splits if_splits)
  then have "w \<in> set (tile_workspaces n)"
    using findWorkspaceInTileTree_iff [of n w] assms(2) t by (auto simp: tab_leaves_def)
  with t n show ?thesis by (auto simp: tab_workspaces_def tab_leaves_def tile_workspaces_def)
qed

section \<open>The interface of the tab edits\<close>

locale workspace_tabs =
  fixes remove_from :: "window_tab \<Rightarrow> string \<Rightarrow> window_tab"
    and add_to :: "window_tab \<Rightarrow> string \<Rightarrow> window_tab"
  assumes remove_id: "wt_id (remove_from t w) = wt_id t"
    and add_id: "wt_id (add_to t w) = wt_id t"
    and remove_workspaces: "tab_workspaces (remove_from t w) = filter (\<lambda>x. x \<noteq> w) (tab_workspaces t)"
    and add_workspaces: "wf_tab t \<Longrightarrow> distinct (tab_workspaces t) \<Longrightarrow>
        mset (tab_workspaces (add_to t w)) = add_mset w (mset (tab_workspaces t))"
    and remove_wf: "wf_tab t \<Longrightarrow> wf_tab (remove_from t w)"
    and add_wf: "wf_tab t \<Longrightarrow> wf_tab (add_to t w)"
begin

lemma removeWorkspaceFromLayout_tabs:
  assumes "wf_window layout"
  shows "map wt_id (wl_tabs (removeWorkspaceFromLayout layout w remove_from)) = map wt_id (wl_tabs layout)"
    and "map tab_workspaces (wl_tabs (removeWorkspaceFromLayout layout w remove_from))
      = map (\<lambda>t. filter (\<lambda>x. x \<noteq> w) (tab_workspaces t)) (wl_tabs layout)"
    and "\<forall>t\<in>set (wl_tabs (removeWorkspaceFromLayout layout w remove_from)). wf_tab t"
proof -
  have ids: "\<forall>t\<in>set (wl_tabs layout). \<forall>l\<in>set (tab_leaves t). tl_id l \<noteq> []"
    using assms by (simp add: wf_window_def)
  have keep: "filter (\<lambda>x. x \<noteq> w) (tab_workspaces t) = tab_workspaces t"
    if "w \<notin> set (tab_workspaces t)" for t
    using that by (auto simp: filter_id_conv)
  have "map wt_id (wl_tabs (removeWorkspaceFromLayout layout w remove_from)) = map wt_id (wl_tabs layout)
    \<and> map tab_workspaces (wl_tabs (removeWorkspaceFromLayout layout w remove_from))
      = map (\<lambda>t. filter (\<lambda>x. x \<noteq> w) (tab_workspaces t)) (wl_tabs layout)
    \<and> (\<forall>t\<in>set (wl_tabs (removeWorkspaceFromLayout layout w remove_from)). wf_tab t)"
  proof (cases "findWorkspaceLocation layout w")
    case None
    then have "w \<notin> set (tab_workspaces t)" if "t \<in> set (wl_tabs layout)" for t
      using findWorkspaceLocation_None [OF ids, of w] that by (auto simp: window_workspaces_def)
    with None keep assms show ?thesis
      by (auto simp: removeWorkspaceFromLayout_def wf_window_def)
  next
    case (Some loc)
    obtain t0 where t0: "t0 \<in> set (wl_tabs layout)" "wt_id t0 = wloc_tabId loc"
      "w \<in> set (tab_workspaces t0)"
      using findWorkspaceLocation_Some [OF Some ids] by blast
    obtain ys zs where split: "wl_tabs layout = ys @ t0 # zs" using t0(1) by (meson split_list)
    have d: "distinct (concat (map tab_workspaces (ys @ t0 # zs)))"
      using assms split by (simp add: wf_window_def window_workspaces_def)
    have other: "w \<notin> set (tab_workspaces t) \<and> wt_id t \<noteq> wloc_tabId loc"
      if "t \<in> set ys \<union> set zs" for t
    proof -
      have "set (tab_workspaces t0) \<inter> set (tab_workspaces t) = {}"
        by (rule distinct_concat_apart [OF d that])
      moreover have "wt_id t \<noteq> wt_id t0"
        by (rule distinct_map_split [OF _ that]) (use assms split in \<open>simp add: wf_window_def\<close>)
      ultimately show ?thesis using t0(2,3) by auto
    qed
    have "wl_tabs (removeWorkspaceFromLayout layout w remove_from)
        = map (\<lambda>t. if wt_id t = wloc_tabId loc then remove_from t w else t) (wl_tabs layout)"
      using Some by (simp add: removeWorkspaceFromLayout_def Let_def)
    with other t0 keep assms remove_wf show ?thesis
      by (auto simp: split remove_id remove_workspaces wf_window_def)
  qed
  then show "map wt_id (wl_tabs (removeWorkspaceFromLayout layout w remove_from)) = map wt_id (wl_tabs layout)"
    and "map tab_workspaces (wl_tabs (removeWorkspaceFromLayout layout w remove_from))
      = map (\<lambda>t. filter (\<lambda>x. x \<noteq> w) (tab_workspaces t)) (wl_tabs layout)"
    and "\<forall>t\<in>set (wl_tabs (removeWorkspaceFromLayout layout w remove_from)). wf_tab t"
    by blast+
qed

lemma add_step:
  assumes "distinct (map wt_id tabs)" and "target \<in> wt_id ` set tabs"
    and "\<forall>t\<in>set tabs. wf_tab t" and "distinct (concat (map tab_workspaces tabs))"
  shows "mset (concat (map tab_workspaces (map (\<lambda>t. if wt_id t = target then add_to t w else t) tabs)))
       = add_mset w (mset (concat (map tab_workspaces tabs)))"
    and "\<exists>t\<in>set (map (\<lambda>t. if wt_id t = target then add_to t w else t) tabs).
           wt_id t = target \<and> w \<in> set (tab_workspaces t)"
proof -
  from assms(2) obtain t0 ys zs where split: "tabs = ys @ t0 # zs" and t0: "wt_id t0 = target"
    by (metis imageE split_list)
  have "wt_id t \<noteq> target" if "t \<in> set ys \<union> set zs" for t
    using distinct_map_split [OF assms(1) [unfolded split] that] t0 by simp
  then have upd: "map (\<lambda>t. if wt_id t = target then add_to t w else t) tabs = ys @ add_to t0 w # zs"
    using t0 by (auto simp: split intro: map_idI)
  have add: "mset (tab_workspaces (add_to t0 w)) = add_mset w (mset (tab_workspaces t0))"
    using assms(3,4) by (intro add_workspaces) (auto simp: split)
  show "mset (concat (map tab_workspaces (map (\<lambda>t. if wt_id t = target then add_to t w else t) tabs)))
       = add_mset w (mset (concat (map tab_workspaces tabs)))"
    unfolding upd by (simp add: split add)
  have "w \<in># mset (tab_workspaces (add_to t0 w))" unfolding add by simp
  then show "\<exists>t\<in>set (map (\<lambda>t. if wt_id t = target then add_to t w else t) tabs).
      wt_id t = target \<and> w \<in> set (tab_workspaces t)"
    unfolding upd using t0 by (auto simp: add_id)
qed

lemma moveWorkspace_unique:
  fixes layout :: window_layout and w target :: string
  assumes "wf_window layout" and "target \<in> wt_id ` set (wl_tabs layout)"
  defines "r \<equiv> moveWorkspace layout w target remove_from add_to"
  shows "distinct (window_workspaces r) \<and>
     set (window_workspaces r) = insert w (set (window_workspaces layout)) \<and>
     map wt_id (wl_tabs r) = map wt_id (wl_tabs layout) \<and>
     (\<forall>t\<in>set (wl_tabs r). wf_tab t) \<and>
     (\<exists>t\<in>set (wl_tabs r). wt_id t = target \<and> w \<in> set (tab_workspaces t))"
proof -
  have ids: "\<forall>t\<in>set (wl_tabs layout). \<forall>l\<in>set (tab_leaves t). tl_id l \<noteq> []"
    using assms(1) by (simp add: wf_window_def)
  let ?mid = "removeWorkspaceFromLayout layout w remove_from"
  note mid = removeWorkspaceFromLayout_tabs [OF assms(1), of w]
  show ?thesis
  proof (cases "map_option wloc_tabId (findWorkspaceLocation layout w) = Some target")
    case True
    then obtain loc where loc: "findWorkspaceLocation layout w = Some loc" "wloc_tabId loc = target"
      by auto
    have r: "r = layout" using True by (simp add: r_def moveWorkspace_def)
    obtain t where t: "t \<in> set (wl_tabs layout)" "wt_id t = target" "w \<in> set (tab_workspaces t)"
      using findWorkspaceLocation_Some [OF loc(1) ids] loc(2) by auto
    then have "w \<in> set (window_workspaces layout)" by (auto simp: window_workspaces_def)
    with assms(1) t show ?thesis unfolding r by (auto simp: wf_window_def)
  next
    case False
    have mid_ws: "concat (map tab_workspaces (wl_tabs ?mid)) = filter (\<lambda>x. x \<noteq> w) (window_workspaces layout)"
      by (simp add: mid(2) window_workspaces_def filter_concat comp_def)
    have inter: "(if findWorkspaceLocation layout w \<noteq> None then ?mid else layout) = ?mid"
      by (simp add: removeWorkspaceFromLayout_def)
    have tabs: "wl_tabs r = map (\<lambda>t. if wt_id t = target then add_to t w else t) (wl_tabs ?mid)"
      using False unfolding r_def moveWorkspace_def Let_def inter by (simp only: if_False) auto
    have d: "distinct (concat (map tab_workspaces (wl_tabs ?mid)))"
      unfolding mid_ws using assms(1) by (simp add: wf_window_def)
    have pre: "distinct (map wt_id (wl_tabs ?mid))" "target \<in> wt_id ` set (wl_tabs ?mid)"
      using assms mid(1) by (simp_all add: wf_window_def flip: set_map)
    note add = add_step [OF pre mid(3) d, of w]
    have ms: "mset (window_workspaces r) = add_mset w (mset (filter (\<lambda>x. x \<noteq> w) (window_workspaces layout)))"
      using add(1) unfolding window_workspaces_def [of r] tabs mid_ws .
    then have "mset (window_workspaces r) = mset (w # filter (\<lambda>x. x \<noteq> w) (window_workspaces layout))"
      by simp
    from mset_eq_imp_distinct_iff [OF this] have "distinct (window_workspaces r)"
      using assms(1) by (simp add: wf_window_def)
    moreover have "set (window_workspaces r) = insert w (set (window_workspaces layout))"
      using arg_cong [OF ms, of set_mset] by auto
    moreover have "map wt_id (wl_tabs r) = map wt_id (wl_tabs layout)"
      unfolding tabs using mid(1) by (simp add: comp_def add_id if_distrib cong: if_cong)
    moreover have "\<forall>t\<in>set (wl_tabs r). wf_tab t"
      unfolding tabs using mid(3) add_wf by auto
    ultimately show ?thesis using add(2) unfolding tabs by blast
  qed
qed

end

section \<open>The tile edits implement it\<close>

interpretation tile_tabs: workspace_tabs removeWorkspaceFromTab
  "\<lambda>tab w. fst (addWorkspaceToTab tab w below s)" for below s
proof (unfold_locales, goal_cases)
  case (3 t w)
  show ?case by (simp add: tab_workspaces_def removeWorkspaceFromTab_leaves filter_map comp_def)
next
  case (4 t w)
  then obtain xs ys u where "tab_leaves t = xs @ ys"
    "tab_leaves (fst (addWorkspaceToTab t w below s)) = xs @ fst (createWorkspaceTileLeaf w u) # ys"
    using addWorkspaceToTab_leaves by blast
  then show ?case by (simp add: tab_workspaces_def)
qed (simp_all add: removeWorkspaceFromTab_wf addWorkspaceToTab_wf)

end
