(* ===== verification/Window_Queries.thy ===== *)
theory Window_Queries
  imports Window_Layout Tile_Columns
begin

text \<open>
  The pane queries of \<open>apps/web/src/panels/window-layout-utils.ts\<close>: lookups over the active
  window tab, the gates in front of closing a pane or a workspace, directional navigation
  across tiles and the drop edge of a dragged frame.
\<close>

section \<open>Pane lookups\<close>

text \<open>The tile leaves of the active window tab, \<open>[]\<close> when there is no layout.\<close>

definition active_tab_leaves :: "window_layout \<Rightarrow> tile_leaf list" where
  "active_tab_leaves layout =
     (case Option.bind (getActiveWindowTab layout) wt_workspaceLayout of
        None \<Rightarrow> [] | Some n \<Rightarrow> getWorkspaceTileLeaves n)"

text \<open>\<open>activePanel?.panelLayout ?? tileLeaf.panelTabs[0]?.panelLayout\<close>.\<close>

definition visible_panel :: "tile_leaf \<Rightarrow> panel_node option" where
  "visible_panel leaf =
     or_else (map_option pt_panelLayout
                (find (\<lambda>t. Some (pt_id t) = tl_activePanelTabId leaf) (tl_panelTabs leaf)))
             (map_option pt_panelLayout (js_nth (tl_panelTabs leaf) 0))"

definition findPaneInActiveTab :: "window_layout \<Rightarrow> string \<Rightarrow> (leaf_node \<times> string) option" where
  "findPaneInActiveTab layout p =
     first_some (\<lambda>tile. Option.bind (visible_panel tile) (\<lambda>tree.
         map_option (\<lambda>l. (l, tl_workspaceId tile)) (findLeaf tree p)))
       (active_tab_leaves layout)"

definition findPaneAcrossAllTabs :: "window_layout \<Rightarrow> string \<Rightarrow> (leaf_node \<times> string) option" where
  "findPaneAcrossAllTabs layout p =
     first_some (\<lambda>tile. first_some (\<lambda>panelTab.
         map_option (\<lambda>l. (l, tl_workspaceId tile)) (findLeaf (pt_panelLayout panelTab) p))
       (tl_panelTabs tile)) (active_tab_leaves layout)"

fun findLeafByTerminalIdInTree :: "panel_node \<Rightarrow> string \<Rightarrow> leaf_node option" where
  "findLeafByTerminalIdInTree (LeafNode l) t = (if leaf_terminalId l = Some t then Some l else None)"
| "findLeafByTerminalIdInTree (SplitNode i d cs sz) t =
     first_some (\<lambda>c. findLeafByTerminalIdInTree c t) cs"

definition findLeafByTerminalIdInLayout ::
    "window_layout \<Rightarrow> string \<Rightarrow> (leaf_node \<times> string) option" where
  "findLeafByTerminalIdInLayout layout t =
     first_some (\<lambda>tile. first_some (\<lambda>panelTab.
         map_option (\<lambda>l. (l, tl_workspaceId tile))
           (findLeafByTerminalIdInTree (pt_panelLayout panelTab) t))
       (tl_panelTabs tile)) (active_tab_leaves layout)"

fun collectLeafNodes :: "panel_node \<Rightarrow> leaf_node list \<Rightarrow> leaf_node list" where
  "collectLeafNodes (LeafNode l) result = result @ [l]"
| "collectLeafNodes (SplitNode i d cs sz) result = fold collectLeafNodes cs result"

definition getActiveTabLeafNodes :: "window_layout \<Rightarrow> leaf_node list" where
  "getActiveTabLeafNodes layout =
     fold (\<lambda>tile result. case visible_panel tile of
         Some tree \<Rightarrow> collectLeafNodes tree result | None \<Rightarrow> result)
       (active_tab_leaves layout) []"

definition getActiveTabLeafIds :: "window_layout \<Rightarrow> string list" where
  "getActiveTabLeafIds layout =
     fold (\<lambda>tile result. case visible_panel tile of
         Some tree \<Rightarrow> result @ getLeafIds tree | None \<Rightarrow> result)
       (active_tab_leaves layout) []"

definition getScopedActivePaneId :: "panel_node \<Rightarrow> string option \<Rightarrow> string option" where
  "getScopedActivePaneId subLayout globalActivePaneId =
     (case globalActivePaneId of
        Some p \<Rightarrow> if containsPane subLayout p then Some p else getFirstLeafId subLayout
      | None \<Rightarrow> getFirstLeafId subLayout)"

section \<open>Close gates\<close>

datatype close_pane_gate = GateClose | GateConfirm | GateConfirmWithDestroy string
  | GatePromptDestroy string

definition last_pane_of_workspace :: "window_layout \<Rightarrow> string \<Rightarrow> bool" where
  "last_pane_of_workspace layout w =
     (case find (\<lambda>l. tl_workspaceId l = w) (active_tab_leaves layout) of
        None \<Rightarrow> False
      | Some wsTile \<Rightarrow>
          foldl (\<lambda>n pt. n + countLeaves (pt_panelLayout pt)) 0 (tl_panelTabs wsTile) = 1)"

definition computeClosePaneGateAction ::
    "window_layout option \<Rightarrow> string \<Rightarrow> terminal_process_info list \<Rightarrow> string option
      \<Rightarrow> close_pane_gate" where
  "computeClosePaneGateAction layout paneId terminals prState =
     (case layout of
        None \<Rightarrow> GateClose
      | Some lay \<Rightarrow>
          (case findPaneAcrossAllTabs lay paneId of
             None \<Rightarrow> GateClose
           | Some (node, workspaceId) \<Rightarrow>
               (let hasProcess =
                      (case leaf_terminalId node of
                         None \<Rightarrow> False
                       | Some tid \<Rightarrow>
                           list_ex (\<lambda>t. tpi_id t = tid \<and> tpi_hasChildProcess t) terminals);
                    isPrMerged = (prState = Some ''MERGED'');
                    isLastPane = (isPrMerged \<and> last_pane_of_workspace lay workspaceId)
                in if hasProcess \<and> isLastPane then GateConfirmWithDestroy workspaceId
                   else if hasProcess then GateConfirm
                   else if isLastPane then GatePromptDestroy workspaceId
                   else GateClose)))"

text \<open>\<open>True\<close> is \<open>'confirm'\<close>, \<open>False\<close> is \<open>'close'\<close>.\<close>

definition computeCloseWorkspaceAction ::
    "window_layout option \<Rightarrow> string \<Rightarrow> terminal_process_info list \<Rightarrow> bool" where
  "computeCloseWorkspaceAction layout workspaceId terminals =
     (case layout of
        None \<Rightarrow> False
      | Some lay \<Rightarrow>
          (case find (\<lambda>l. tl_workspaceId l = workspaceId) (active_tab_leaves lay) of
             None \<Rightarrow> False
           | Some wsTile \<Rightarrow>
               (let terminalIds =
                      concat (map (\<lambda>pt. collectTerminalIds (pt_panelLayout pt)) (tl_panelTabs wsTile))
                in list_ex (\<lambda>i. case find (\<lambda>t. tpi_id t = i) terminals of
                       Some t \<Rightarrow> tpi_hasChildProcess t | None \<Rightarrow> False) terminalIds)))"

section \<open>Navigation across the active tab\<close>

text \<open>The loop returns at the first tile that shows the pane, whatever the result is.\<close>

definition navigateDirection ::
    "window_layout \<Rightarrow> string \<Rightarrow> navigation_direction \<Rightarrow> string option" where
  "navigateDirection layout activePaneId dir =
     (case first_some (\<lambda>tile. Option.bind (visible_panel tile) (\<lambda>tree.
             if containsPane tree activePaneId then Some (findPaneInDirection tree activePaneId dir)
             else None)) (active_tab_leaves layout) of
        Some r \<Rightarrow> r
      | None \<Rightarrow> None)"

section \<open>Drop edges\<close>

record drop_rect =
  rect_left :: rat
  rect_top :: rat
  rect_width :: rat
  rect_height :: rat

definition WORKSPACE_DROP_SIDE_ZONE_RATIO :: rat where
  "WORKSPACE_DROP_SIDE_ZONE_RATIO = 1 / 5"

definition WORKSPACE_DROP_SIDE_ZONE_MAX_PX :: rat where
  "WORKSPACE_DROP_SIDE_ZONE_MAX_PX = 120"

definition computeWorkspaceDropEdge :: "rat \<Rightarrow> rat \<Rightarrow> drop_rect \<Rightarrow> drop_edge" where
  "computeWorkspaceDropEdge clientX clientY rect =
     (let x = clientX - rect_left rect;
          y = clientY - rect_top rect;
          sideZone = min (rect_width rect * WORKSPACE_DROP_SIDE_ZONE_RATIO)
                       WORKSPACE_DROP_SIDE_ZONE_MAX_PX
      in if x < sideZone then EdgeLeft
         else if rect_width rect - sideZone < x then EdgeRight
         else if y < rect_height rect / 2 then EdgeTop else EdgeBottom)"

text \<open>The \<open>edge\<close> property of a drop target's data, when it is a string.\<close>

definition getWorkspaceDropEdge :: "string option \<Rightarrow> drop_edge option" where
  "getWorkspaceDropEdge edge =
     (if edge = Some ''top'' then Some EdgeTop
      else if edge = Some ''bottom'' then Some EdgeBottom
      else if edge = Some ''left'' then Some EdgeLeft
      else if edge = Some ''right'' then Some EdgeRight
      else None)"

end
