(* ===== verification/Close_Facts.thy ===== *)
theory Close_Facts
  imports Repair_Facts Workspace_Moves Window_Queries Panel_Edit
begin

text \<open>
  Closing: the progressive close chain never skips a level, and closing a terminal removes the
  pane that shows it and no other.
\<close>

section \<open>Levels of the close chain\<close>

datatype close_level = LevelPane | LevelPanelTab | LevelWorkspace | LevelWindowTab | LevelApp

fun level_rank :: "close_level \<Rightarrow> nat" where
  "level_rank LevelPane = 0"
| "level_rank LevelPanelTab = 1"
| "level_rank LevelWorkspace = 2"
| "level_rank LevelWindowTab = 3"
| "level_rank LevelApp = 4"

lemma level_rank_inject: "level_rank a = level_rank b \<Longrightarrow> a = b"
  by (cases a; cases b) auto

instantiation close_level :: linorder
begin

definition less_eq_close_level :: "close_level \<Rightarrow> close_level \<Rightarrow> bool" where
  "less_eq_close_level a b \<longleftrightarrow> level_rank a \<le> level_rank b"

definition less_close_level :: "close_level \<Rightarrow> close_level \<Rightarrow> bool" where
  "less_close_level a b \<longleftrightarrow> level_rank a < level_rank b"

instance
  by standard (auto simp: less_eq_close_level_def less_close_level_def dest: level_rank_inject)

end

fun action_level :: "progressive_close_action \<Rightarrow> close_level" where
  "action_level (ClosePane p) = LevelPane"
| "action_level (ClosePanelTab t w) = LevelPanelTab"
| "action_level (CloseWorkspace w) = LevelWorkspace"
| "action_level (CloseWindowTab t) = LevelWindowTab"
| "action_level CloseApp = LevelApp"

text \<open>What is left at each level, from the window's own data.\<close>

definition active_workspace_leaf :: "window_layout option \<Rightarrow> string option \<Rightarrow> tile_leaf option" where
  "active_workspace_leaf layout w =
     Option.bind (Option.bind (Option.bind layout getActiveWindowTab) wt_workspaceLayout)
       (\<lambda>n. if truthy w then findWorkspaceTileLeaf n (the w) else None)"

definition active_panel_of :: "tile_leaf \<Rightarrow> panel_tab option" where
  "active_panel_of leaf = find (\<lambda>t. Some (pt_id t) = tl_activePanelTabId leaf) (tl_panelTabs leaf)"

definition tab_tile_count :: "window_tab \<Rightarrow> nat" where
  "tab_tile_count t = length (tab_leaves t)"

lemma level_le_simps [simp]:
  "LevelPanelTab \<le> action_level a \<longleftrightarrow> (\<forall>p. a \<noteq> ClosePane p)"
  "LevelWorkspace \<le> action_level a \<longleftrightarrow> (\<forall>p. a \<noteq> ClosePane p) \<and> (\<forall>t w. a \<noteq> ClosePanelTab t w)"
  "LevelWindowTab \<le> action_level a \<longleftrightarrow> a = CloseApp \<or> (\<exists>t. a = CloseWindowTab t)"
  "LevelApp \<le> action_level a \<longleftrightarrow> a = CloseApp"
  by (cases a; simp add: less_eq_close_level_def)+

lemma close_app_level:
  "computeProgressiveCloseAction layout p w = CloseApp \<Longrightarrow> Option.bind layout getActiveWindowTab = None"
  by (auto simp: computeProgressiveCloseAction_def resolveNullPaneCloseAction_def
      resolveEmptyWorkspaceAction_def resolveLastWorkspaceCloseAction_def
      resolveLastPaneCloseAction_def Let_def split: option.splits if_splits)

lemma close_panel_level:
  assumes "LevelPanelTab \<le> action_level (computeProgressiveCloseAction layout p w)" and "truthy p"
    and "active_workspace_leaf layout w = Some leaf" and "active_panel_of leaf = Some pt"
  shows "countLeaves (pt_panelLayout pt) \<le> 1 \<and>
     computeProgressiveCloseAction layout p w = ClosePanelTab (pt_id pt) (the w)"
  using assms
  by (auto simp: computeProgressiveCloseAction_def active_workspace_leaf_def active_panel_of_def
      resolveLastPaneCloseAction_def Option.bind_eq_Some_conv split: option.splits if_splits)

lemma close_workspace_level:
  assumes "LevelWorkspace \<le> action_level (computeProgressiveCloseAction layout p w)" and "truthy p"
    and "active_workspace_leaf layout w = Some leaf"
  shows "active_panel_of leaf = None"
  using assms
  by (auto simp: computeProgressiveCloseAction_def active_workspace_leaf_def active_panel_of_def
      resolveLastPaneCloseAction_def Option.bind_eq_Some_conv split: option.splits if_splits)

lemma close_window_level:
  assumes "LevelWindowTab \<le> action_level (computeProgressiveCloseAction layout p w)"
    and "Option.bind layout getActiveWindowTab = Some tab"
  shows "computeProgressiveCloseAction layout p w = CloseWindowTab (wt_id tab) \<and>
     (tab_tile_count tab \<le> 1 \<or> (\<not> truthy p \<and> \<not> truthy (resolveActivePaneForWindowTab tab)))"
  using assms
  by (cases layout)
    (auto simp: computeProgressiveCloseAction_def resolveNullPaneCloseAction_def
      resolveEmptyWorkspaceAction_def resolveLastWorkspaceCloseAction_def tab_tile_count_def
      tab_leaves_def resolveLastPaneCloseAction_def Let_def split: option.splits if_splits)

section \<open>Tiles under an update\<close>

lemma updateTileLeaf_leaves:
  "getWorkspaceTileLeaves (updateTileLeaf n w f)
     = map (\<lambda>l. if tl_workspaceId l = w then f l else l) (getWorkspaceTileLeaves n)"
proof (induction n)
  case (TileLeaf l)
  then show ?case by simp
next
  case (TileSplit i d cs sz)
  have "updateTileLeaf (TileSplit i d cs sz) w f = TileSplit i d (map (\<lambda>c. updateTileLeaf c w f) cs) sz"
    by (simp add: Let_def)
  with TileSplit show ?case by (simp add: map_concat comp_def cong: map_cong)
qed

definition update_tab :: "string \<Rightarrow> (tile_leaf \<Rightarrow> tile_leaf) \<Rightarrow> window_tab \<Rightarrow> window_tab" where
  "update_tab w f tab = tab\<lparr>wt_workspaceLayout :=
     map_option (\<lambda>n. updateTileLeaf n w f) (wt_workspaceLayout tab)\<rparr>"

lemma updateWorkspaceTileLeaf_tabs:
  "wl_tabs (updateWorkspaceTileLeaf layout w f) = map (update_tab w f) (wl_tabs layout)"
proof -
  have "(case wt_workspaceLayout tab of None \<Rightarrow> tab
      | Some n \<Rightarrow> (let newLayout = updateTileLeaf n w f
          in if newLayout = n then tab else tab\<lparr>wt_workspaceLayout := Some newLayout\<rparr>))
    = update_tab w f tab" for tab
    by (cases tab) (auto simp: update_tab_def Let_def split: option.splits)
  then show ?thesis by (simp add: updateWorkspaceTileLeaf_def Let_def)
qed

lemma getAllWorkspaceTileLeaves_tabs:
  "getAllWorkspaceTileLeaves layout = concat (map tab_leaves (wl_tabs layout))"
proof -
  have "(case wt_workspaceLayout tab of Some n \<Rightarrow> getWorkspaceTileLeaves n | None \<Rightarrow> []) = tab_leaves tab"
    for tab
    by (simp add: tab_leaves_def opt_tile_leaves_def split: option.splits)
  then show ?thesis by (simp add: getAllWorkspaceTileLeaves_def)
qed

lemma updateWorkspaceTileLeaf_leaves:
  "getAllWorkspaceTileLeaves (updateWorkspaceTileLeaf layout w f)
     = map (\<lambda>l. if tl_workspaceId l = w then f l else l) (getAllWorkspaceTileLeaves layout)"
proof -
  have "tab_leaves (update_tab w f t)
      = map (\<lambda>l. if tl_workspaceId l = w then f l else l) (tab_leaves t)" for t
    by (cases "wt_workspaceLayout t") (simp_all add: tab_leaves_def update_tab_def updateTileLeaf_leaves)
  then show ?thesis
    by (simp add: getAllWorkspaceTileLeaves_tabs updateWorkspaceTileLeaf_tabs map_concat comp_def)
qed

section \<open>Closing a pane, leaf by leaf\<close>

definition opt_leaves :: "panel_node option \<Rightarrow> leaf_node list" where
  "opt_leaves r = (case r of None \<Rightarrow> [] | Some n \<Rightarrow> panel_leaves n)"

lemma opt_leaves_simps [simp]: "opt_leaves None = []" "opt_leaves (Some n) = panel_leaves n"
  by (simp_all add: opt_leaves_def)

lemma collapseChildren_panel_leaves:
  "opt_leaves (collapseChildren i d cs) = concat (map panel_leaves cs)"
  by (auto simp: collapseChildren_def split: list.splits)

lemma filter_no_leaf:
  "p \<notin> set (getLeafIds n) \<Longrightarrow> filter (\<lambda>l. leaf_id l \<noteq> p) (panel_leaves n) = panel_leaves n"
  by (auto simp: getLeafIds_eq filter_id_conv)

lemma filter_no_leaves:
  "p \<notin> set (concat (map getLeafIds cs)) \<Longrightarrow>
     filter (\<lambda>l. leaf_id l \<noteq> p) (concat (map panel_leaves cs)) = concat (map panel_leaves cs)"
  by (auto simp: getLeafIds_eq filter_id_conv)

lemma closePane_panel_leaves:
  "distinct (getLeafIds n) \<Longrightarrow>
     opt_leaves (closePane n p) = filter (\<lambda>l. leaf_id l \<noteq> p) (panel_leaves n)"
proof (induction n)
  case (LeafNode l)
  then show ?case by simp
next
  case (SplitNode i d cs sz)
  show ?case
  proof (cases "p \<in> set (getLeafIds (SplitNode i d cs sz))")
    case False
    then show ?thesis
      using filter_no_leaf [OF False]
      by (simp add: closePane_absent del: getLeafIds.simps panel_leaves.simps closePane.simps)
  next
    case True
    with SplitNode.prems show ?thesis
    proof (cases rule: closePane_child)
      case (direct ys z zs)
      then obtain l where "z = LeafNode l" "leaf_id l = p" by (auto simp: isLeafWith_iff)
      with direct show ?thesis
        by (simp add: collapseChildren_panel_leaves filter_no_leaves del: filter_concat)
    next
      case (nested ys z zs)
      then have "opt_leaves (closePane z p) = filter (\<lambda>l. leaf_id l \<noteq> p) (panel_leaves z)"
        using SplitNode by simp
      then have "concat (map panel_leaves (case closePane z p of None \<Rightarrow> [] | Some z' \<Rightarrow> [z']))
          = filter (\<lambda>l. leaf_id l \<noteq> p) (panel_leaves z)"
        by (cases "closePane z p") simp_all
      with nested show ?thesis
        by (simp add: collapseChildren_panel_leaves filter_no_leaves)
    qed
  qed
qed

section \<open>Finding a terminal\<close>

lemma findTerminalInPanelTree_Some:
  "findTerminalInPanelTree n t = Some p \<Longrightarrow>
     \<exists>l\<in>set (panel_leaves n). leaf_terminalId l = Some t \<and> leaf_id l = p"
proof (induction n)
  case (LeafNode l)
  then show ?case by (auto split: if_splits)
next
  case (SplitNode i d cs sz)
  then obtain c where c: "c \<in> set cs" "findTerminalInPanelTree c t = Some p"
    by (auto dest!: first_truthy_Some)
  from SplitNode.IH [OF this] c(1) show ?case by auto
qed

lemma findTerminalInPanelTree_None:
  assumes "\<forall>l\<in>set (panel_leaves n). leaf_id l \<noteq> []"
  shows "truthy (findTerminalInPanelTree n t) \<longleftrightarrow>
     (\<exists>l\<in>set (panel_leaves n). leaf_terminalId l = Some t)"
  using assms
proof (induction n)
  case (LeafNode l)
  then show ?case by auto
next
  case (SplitNode i d cs sz)
  have ft: "truthy (first_truthy f xs) \<longleftrightarrow> (\<exists>x\<in>set xs. truthy (f x))"
    for f :: "panel_node \<Rightarrow> string option" and xs
    by (induction xs) auto
  from SplitNode show ?case by (auto simp: ft)
qed

definition located :: "window_tab \<Rightarrow> tile_leaf \<Rightarrow> panel_tab \<Rightarrow> leaf_node \<Rightarrow> terminal_location" where
  "located tab tile pt l = \<lparr>tloc_paneId = leaf_id l, tloc_panelTabId = pt_id pt,
     tloc_tabId = wt_id tab, tloc_tileId = tl_id tile, tloc_workspaceId = tl_workspaceId tile\<rparr>"

lemma findTerminalInTile_Some:
  assumes "findTerminalInWorkspaceTile (wt_id tab) tile t = Some loc"
  shows "\<exists>pt\<in>set (tl_panelTabs tile). \<exists>l\<in>set (panel_leaves (pt_panelLayout pt)).
     leaf_terminalId l = Some t \<and> loc = located tab tile pt l"
proof -
  obtain pt where pt: "pt \<in> set (tl_panelTabs tile)"
    and tr: "truthy (findTerminalInPanelTree (pt_panelLayout pt) t)"
    and loc: "loc = \<lparr>tloc_paneId = the (findTerminalInPanelTree (pt_panelLayout pt) t),
      tloc_panelTabId = pt_id pt, tloc_tabId = wt_id tab, tloc_tileId = tl_id tile,
      tloc_workspaceId = tl_workspaceId tile\<rparr>"
    using assms unfolding findTerminalInWorkspaceTile_def
    by (auto simp: Let_def dest!: first_some_Some split: if_splits)
  from tr obtain p where p: "findTerminalInPanelTree (pt_panelLayout pt) t = Some p"
    by (cases "findTerminalInPanelTree (pt_panelLayout pt) t") auto
  with findTerminalInPanelTree_Some [OF p] pt loc show ?thesis by (auto simp: located_def)
qed

lemma findTerminalInTileTree_Some:
  "findTerminalInTileTree (wt_id tab) n t = Some loc \<Longrightarrow>
     \<exists>tile\<in>set (getWorkspaceTileLeaves n). \<exists>pt\<in>set (tl_panelTabs tile).
       \<exists>l\<in>set (panel_leaves (pt_panelLayout pt)).
         leaf_terminalId l = Some t \<and> loc = located tab tile pt l"
proof (induction n)
  case (TileLeaf l)
  then show ?case using findTerminalInTile_Some by simp
next
  case (TileSplit i d cs sz)
  then obtain c where c: "c \<in> set cs" "findTerminalInTileTree (wt_id tab) c t = Some loc"
    by (auto dest!: first_some_Some)
  from TileSplit.IH [OF this] c(1) show ?case by auto
qed

lemma findTerminalLocation_Some:
  assumes "findTerminalLocation layout t = Some loc"
  shows "\<exists>tab\<in>set (wl_tabs layout). \<exists>n. wt_workspaceLayout tab = Some n \<and>
     (\<exists>tile\<in>set (getWorkspaceTileLeaves n). \<exists>pt\<in>set (tl_panelTabs tile).
       \<exists>l\<in>set (panel_leaves (pt_panelLayout pt)).
         leaf_terminalId l = Some t \<and> loc = located tab tile pt l)"
proof -
  obtain tab n where "tab \<in> set (wl_tabs layout)" "wt_workspaceLayout tab = Some n"
    "findTerminalInTileTree (wt_id tab) n t = Some loc"
    using assms unfolding findTerminalLocation_def
    by (auto dest!: first_some_Some split: option.splits)
  with findTerminalInTileTree_Some [OF this(3)] show ?thesis by blast
qed

lemma tile_panes_mem:
  "l \<in> set (tile_panes tile) \<longleftrightarrow>
     (\<exists>pt\<in>set (tl_panelTabs tile). l \<in> set (panel_leaves (pt_panelLayout pt)))"
  by (auto simp: tile_panes_def)

lemma findTerminalInTileTree_None:
  assumes "\<forall>tile\<in>set (getWorkspaceTileLeaves n). \<forall>l\<in>set (tile_panes tile). leaf_id l \<noteq> []"
    and "findTerminalInTileTree i n t = None"
  shows "\<forall>tile\<in>set (getWorkspaceTileLeaves n). \<forall>l\<in>set (tile_panes tile). leaf_terminalId l \<noteq> Some t"
  using assms
proof (induction n)
  case (TileLeaf tile)
  have "\<not> truthy (findTerminalInPanelTree (pt_panelLayout pt) t)" if "pt \<in> set (tl_panelTabs tile)" for pt
    using TileLeaf.prems(2) that
    by (auto simp: findTerminalInWorkspaceTile_def first_some_None Let_def split: if_splits)
  then show ?case
    using TileLeaf.prems(1) findTerminalInPanelTree_None by (fastforce simp: tile_panes_mem)
next
  case (TileSplit i' d cs sz)
  then show ?case by (fastforce simp: first_some_None)
qed

lemma findTerminalLocation_None:
  assumes "\<forall>l\<in>set (window_panes layout). leaf_id l \<noteq> []" and "findTerminalLocation layout t = None"
  shows "\<forall>l\<in>set (window_panes layout). leaf_terminalId l \<noteq> Some t"
proof
  fix l assume "l \<in> set (window_panes layout)"
  then obtain tab where "tab \<in> set (wl_tabs layout)" "l \<in> set (tab_panes tab)"
    by (auto simp: window_panes_tabs)
  then obtain n tile where tab: "tab \<in> set (wl_tabs layout)" "wt_workspaceLayout tab = Some n"
    and tile: "tile \<in> set (getWorkspaceTileLeaves n)" "l \<in> set (tile_panes tile)"
    by (cases "wt_workspaceLayout tab") (auto simp: tab_panes_def)
  have "findTerminalInTileTree (wt_id tab) n t = None"
    using assms(2) tab by (fastforce simp: findTerminalLocation_def first_some_None)
  moreover have "\<forall>tile\<in>set (getWorkspaceTileLeaves n). \<forall>l\<in>set (tile_panes tile). leaf_id l \<noteq> []"
    using assms(1) tab by (force simp: window_panes_tabs tab_panes_def)
  ultimately show "leaf_terminalId l \<noteq> Some t"
    using findTerminalInTileTree_None tile by blast
qed

section \<open>Closing a terminal\<close>

definition window_panes_ok :: "window_layout \<Rightarrow> bool" where
  "window_panes_ok layout \<longleftrightarrow>
     distinct (map wt_id (wl_tabs layout)) \<and>
     distinct (map tl_workspaceId (getAllWorkspaceTileLeaves layout)) \<and>
     (\<forall>tile\<in>set (getAllWorkspaceTileLeaves layout).
        distinct (map pt_id (tl_panelTabs tile)) \<and>
        (\<forall>pt\<in>set (tl_panelTabs tile). distinct (getLeafIds (pt_panelLayout pt)))) \<and>
     (\<forall>l\<in>set (window_panes layout). leaf_id l \<noteq> [])"

definition shows_terminal :: "string \<Rightarrow> leaf_node \<Rightarrow> bool" where
  "shows_terminal t l \<longleftrightarrow> leaf_terminalId l = Some t"

lemma once_concat:
  assumes "length (filter P (concat (map f (ys @ x # zs)))) \<le> 1" and "\<exists>l\<in>set (f x). P l"
  shows "\<forall>y\<in>set ys \<union> set zs. \<forall>l\<in>set (f y). \<not> P l" and "length (filter P (f x)) \<le> 1"
proof -
  have "filter P (f x) \<noteq> []" using assms(2) by (auto simp: filter_empty_conv)
  then have ge: "1 \<le> length (filter P (f x))" by (cases "filter P (f x)") auto
  with assms(1) have "filter P (concat (map f ys)) = []" "filter P (concat (map f zs)) = []"
    "length (filter P (f x)) \<le> 1"
    by (simp_all flip: length_0_conv)
  then show "\<forall>y\<in>set ys \<union> set zs. \<forall>l\<in>set (f y). \<not> P l" "length (filter P (f x)) \<le> 1"
    by (auto simp: filter_empty_conv)
qed

lemma once_unique:
  assumes "length (filter P xs) \<le> 1" and "x \<in> set xs" and "P x" and "y \<in> set xs" and "P y"
  shows "x = y"
proof -
  from assms(2,3) have "x \<in> set (filter P xs)" by simp
  moreover from assms(4,5) have "y \<in> set (filter P xs)" by simp
  ultimately show ?thesis using assms(1) by (cases "filter P xs") auto
qed

lemma find_distinct:
  assumes "distinct (map f xs)" and "x \<in> set xs"
  shows "find (\<lambda>y. f y = f x) xs = Some x"
proof -
  obtain ys zs where xs: "xs = ys @ x # zs" using assms(2) by (meson split_list)
  have "\<forall>y\<in>set ys. f y \<noteq> f x" using distinct_map_split [OF assms(1) [unfolded xs]] by simp
  then show ?thesis unfolding xs by (induction ys) auto
qed

lemma findWorkspaceTileLeaf_find:
  "findWorkspaceTileLeaf n w = find (\<lambda>l. tl_workspaceId l = w) (getWorkspaceTileLeaves n)"
proof (induction n)
  case (TileLeaf l)
  then show ?case by simp
next
  case (TileSplit i d cs sz)
  then show ?case
  proof (induction cs)
    case Nil
    then show ?case by simp
  next
    case (Cons c cs)
    have app: "find P (xs @ ys) = (case find P xs of None \<Rightarrow> find P ys | Some x \<Rightarrow> Some x)"
      for P and xs ys :: "tile_leaf list"
      by (induction xs) auto
    from Cons show ?case by (auto simp: app split: option.splits)
  qed
qed

lemma first_some_at:
  "\<forall>y\<in>set ys. f y = None \<Longrightarrow> f x = Some r \<Longrightarrow> first_some f (ys @ x # zs) = Some r"
  by (induction ys) auto

lemma paneCountAt_located:
  assumes "window_panes_ok layout" and "tab \<in> set (wl_tabs layout)"
    and "wt_workspaceLayout tab = Some n" and "tile \<in> set (getWorkspaceTileLeaves n)"
    and "pt \<in> set (tl_panelTabs tile)"
  shows "paneCountAt layout (located tab tile pt l) = countLeaves (pt_panelLayout pt)"
proof -
  obtain ys zs where tabs: "wl_tabs layout = ys @ tab # zs" using assms(2) by (meson split_list)
  have tl: "tab_leaves tab = getWorkspaceTileLeaves n" using assms(3) by (simp add: tab_leaves_def)
  have d: "distinct (map tl_workspaceId (getWorkspaceTileLeaves n))"
    using assms(1) tl by (auto simp: window_panes_ok_def getAllWorkspaceTileLeaves_tabs tabs)
  have "tile \<in> set (getAllWorkspaceTileLeaves layout)"
    using assms(4) tl by (auto simp: getAllWorkspaceTileLeaves_tabs tabs)
  then have dt: "distinct (map pt_id (tl_panelTabs tile))"
    using assms(1) by (simp add: window_panes_ok_def)
  have ids: "\<forall>y\<in>set ys. wt_id y \<noteq> wt_id tab"
    using assms(1) distinct_map_split [of wt_id ys tab zs] by (simp add: window_panes_ok_def tabs)
  show ?thesis
    unfolding paneCountAt_def tabs
    by (subst first_some_at [where r = "countLeaves (pt_panelLayout pt)"])
      (use ids assms(3,5) find_distinct [OF d assms(4)] find_distinct [OF dt assms(5)]
        in \<open>simp_all add: located_def findWorkspaceTileLeaf_find\<close>)
qed

lemma keep_others:
  "\<forall>y\<in>set xs. \<forall>l\<in>set (f y). \<not> P l \<Longrightarrow> filter (\<lambda>l. \<not> P l) (concat (map f xs)) = concat (map f xs)"
  by (induction xs) (auto simp: filter_id_conv)

lemma filter_middle:
  assumes "\<forall>y\<in>set ys \<union> set zs. \<forall>l\<in>set (f y). \<not> P l"
  shows "filter (\<lambda>l. \<not> P l) (concat (map f (ys @ x # zs)))
       = concat (map f ys) @ filter (\<lambda>l. \<not> P l) (f x) @ concat (map f zs)"
proof -
  have "filter (\<lambda>l. \<not> P l) (concat (map f ys)) = concat (map f ys)"
    by (rule keep_others) (use assms in blast)
  moreover have "filter (\<lambda>l. \<not> P l) (concat (map f zs)) = concat (map f zs)"
    by (rule keep_others) (use assms in blast)
  ultimately show ?thesis by simp
qed

lemma close_lone_panel_tab:
  assumes "pt \<in> set (tl_panelTabs tile)" and "distinct (map pt_id (tl_panelTabs tile))"
    and "l \<in> set (panel_leaves (pt_panelLayout pt))" and "shows_terminal t l"
    and "length (filter (shows_terminal t) (tile_panes tile)) \<le> 1"
    and "countLeaves (pt_panelLayout pt) \<le> 1"
  shows "tile_panes (removePanelTab tile (pt_id pt))
       = filter (\<lambda>l. \<not> shows_terminal t l) (tile_panes tile)"
proof -
  let ?f = "\<lambda>p. panel_leaves (pt_panelLayout p)"
  obtain ys zs where tabs: "tl_panelTabs tile = ys @ pt # zs" using assms(1) by (meson split_list)
  have "length (?f pt) \<le> 1" using assms(6) by (simp add: countLeaves_eq getLeafIds_eq)
  then have one: "?f pt = [l]" using assms(3) by (cases "?f pt") auto
  have "pt_id y \<noteq> pt_id pt" if "y \<in> set ys \<union> set zs" for y
    using distinct_map_split [OF assms(2) [unfolded tabs] that] .
  then have "filter (\<lambda>p. pt_id p \<noteq> pt_id pt) (ys @ pt # zs) = ys @ zs"
    by (auto simp: filter_id_conv)
  then have r: "tile_panes (removePanelTab tile (pt_id pt)) = concat (map ?f ys) @ concat (map ?f zs)"
    by (simp add: tile_panes_def removePanelTab_tabs tabs)
  have "length (filter (shows_terminal t) (concat (map ?f (ys @ pt # zs)))) \<le> 1"
    using assms(5) by (simp add: tile_panes_def tabs)
  from once_concat(1) [OF this] assms(3,4)
  have none: "\<forall>y\<in>set ys \<union> set zs. \<forall>l\<in>set (?f y). \<not> shows_terminal t l" by blast
  have "filter (\<lambda>l. \<not> shows_terminal t l) (tile_panes tile)
      = concat (map ?f ys) @ filter (\<lambda>l. \<not> shows_terminal t l) (?f pt) @ concat (map ?f zs)"
    unfolding tile_panes_def tabs by (rule filter_middle [OF none])
  with r one assms(4) show ?thesis by simp
qed

lemma close_pane_in_tab:
  assumes "pt \<in> set (tl_panelTabs tile)" and "distinct (map pt_id (tl_panelTabs tile))"
    and "distinct (getLeafIds (pt_panelLayout pt))"
    and "l \<in> set (panel_leaves (pt_panelLayout pt))" and "shows_terminal t l"
    and "length (filter (shows_terminal t) (tile_panes tile)) \<le> 1"
    and "1 < countLeaves (pt_panelLayout pt)"
  shows "tile_panes (closePaneInTile (located tab tile pt l) tile)
       = filter (\<lambda>l. \<not> shows_terminal t l) (tile_panes tile)"
proof -
  let ?f = "\<lambda>p. panel_leaves (pt_panelLayout p)"
  obtain ys zs where tabs: "tl_panelTabs tile = ys @ pt # zs" using assms(1) by (meson split_list)
  have once: "length (filter (shows_terminal t) (concat (map ?f (ys @ pt # zs)))) \<le> 1"
    using assms(6) by (simp add: tile_panes_def tabs)
  have ex: "\<exists>l\<in>set (?f pt). shows_terminal t l" using assms(4,5) by blast
  have here: "leaf_id m = leaf_id l \<longleftrightarrow> shows_terminal t m" if "m \<in> set (?f pt)" for m
  proof
    assume "leaf_id m = leaf_id l"
    with that assms(3,4) have "m = l" by (auto simp: getLeafIds_eq distinct_map inj_on_def)
    with assms(5) show "shows_terminal t m" by simp
  next
    assume "shows_terminal t m"
    then have "m = l" using once_unique [OF once_concat(2) [OF once ex]] that assms(4,5) by blast
    then show "leaf_id m = leaf_id l" by simp
  qed
  have closed: "opt_leaves (closePane (pt_panelLayout pt) (leaf_id l))
      = filter (\<lambda>l. \<not> shows_terminal t l) (?f pt)"
    unfolding closePane_panel_leaves [OF assms(3)] by (rule filter_cong [OF refl]) (simp add: here)
  obtain a b where ab: "a \<in> set (?f pt)" "b \<in> set (?f pt)" "a \<noteq> b"
  proof -
    have d: "distinct (?f pt)" using assms(3) by (auto simp: getLeafIds_eq distinct_map)
    have n: "1 < length (?f pt)" using assms(7) by (simp add: countLeaves_eq getLeafIds_eq)
    have "?f pt ! 0 \<in> set (?f pt)" "?f pt ! 1 \<in> set (?f pt)" using n by (auto intro!: nth_mem)
    moreover have "?f pt ! 0 \<noteq> ?f pt ! 1" using d n nth_eq_iff_index_eq [of "?f pt" 0 1] by linarith
    ultimately show thesis by (rule that)
  qed
  have "\<not> shows_terminal t a \<or> \<not> shows_terminal t b"
    using ab once_unique [OF once_concat(2) [OF once ex]] by blast
  then have "filter (\<lambda>l. \<not> shows_terminal t l) (?f pt) \<noteq> []" using ab by (auto simp: filter_empty_conv)
  with closed obtain new where new: "closePane (pt_panelLayout pt) (leaf_id l) = Some new"
    by (cases "closePane (pt_panelLayout pt) (leaf_id l)") auto
  have ids: "pt_id y \<noteq> pt_id pt" if "y \<in> set ys \<union> set zs" for y
    using distinct_map_split [OF assms(2) [unfolded tabs] that] .
  have "map (\<lambda>tab'. if pt_id tab' \<noteq> pt_id pt then tab'
        else (case closePane (pt_panelLayout tab') (leaf_id l) of
                None \<Rightarrow> tab' | Some newLayout \<Rightarrow> tab'\<lparr>pt_panelLayout := newLayout\<rparr>)) us = us"
    if "set us \<subseteq> set ys \<union> set zs" for us
    using that ids by (intro map_idI) auto
  then have "tl_panelTabs (closePaneInTile (located tab tile pt l) tile)
      = ys @ pt\<lparr>pt_panelLayout := new\<rparr> # zs"
    using new by (simp add: closePaneInTile_def located_def tabs cong: if_cong)
  then have r: "tile_panes (closePaneInTile (located tab tile pt l) tile)
      = concat (map ?f ys) @ panel_leaves new @ concat (map ?f zs)"
    by (simp add: tile_panes_def)
  have none: "\<forall>y\<in>set ys \<union> set zs. \<forall>l\<in>set (?f y). \<not> shows_terminal t l"
    by (rule once_concat(1) [OF once ex])
  have "filter (\<lambda>l. \<not> shows_terminal t l) (tile_panes tile)
      = concat (map ?f ys) @ filter (\<lambda>l. \<not> shows_terminal t l) (?f pt) @ concat (map ?f zs)"
    unfolding tile_panes_def tabs by (rule filter_middle [OF none])
  with r closed new show ?thesis by simp
qed

lemma closeTerminal_panes:
  assumes ok: "window_panes_ok layout"
    and once: "length (filter (shows_terminal t) (window_panes layout)) \<le> 1"
  shows "window_panes (closeTerminalInWindowLayout layout t)
       = filter (\<lambda>l. \<not> shows_terminal t l) (window_panes layout)"
proof (cases "findTerminalLocation layout t")
  case None
  have "\<forall>l\<in>set (window_panes layout). \<not> shows_terminal t l"
    using findTerminalLocation_None [OF _ None] ok by (simp add: window_panes_ok_def shows_terminal_def)
  then have "filter (\<lambda>l. \<not> shows_terminal t l) (window_panes layout) = window_panes layout"
    by (simp add: filter_id_conv)
  with None show ?thesis by (simp add: closeTerminalInWindowLayout_def)
next
  case (Some loc)
  from findTerminalLocation_Some [OF Some] obtain tab n tile pt l where
    tab: "tab \<in> set (wl_tabs layout)" "wt_workspaceLayout tab = Some n"
    and tile: "tile \<in> set (getWorkspaceTileLeaves n)" and pt: "pt \<in> set (tl_panelTabs tile)"
    and l: "l \<in> set (panel_leaves (pt_panelLayout pt))" "shows_terminal t l"
    and loc: "loc = located tab tile pt l"
    unfolding shows_terminal_def by blast
  let ?tiles = "getAllWorkspaceTileLeaves layout"
  have mem: "tile \<in> set ?tiles"
    using tab tile by (force simp: getAllWorkspaceTileLeaves_tabs tab_leaves_def)
  then obtain ys zs where tiles: "?tiles = ys @ tile # zs" by (meson split_list)
  have dw: "distinct (map tl_workspaceId ?tiles)" and dt: "distinct (map pt_id (tl_panelTabs tile))"
    and dl: "distinct (getLeafIds (pt_panelLayout pt))"
    using ok mem pt by (auto simp: window_panes_ok_def)
  have once': "length (filter (shows_terminal t) (concat (map tile_panes (ys @ tile # zs)))) \<le> 1"
    using once by (simp add: window_panes_def tiles)
  have ex: "\<exists>l\<in>set (tile_panes tile). shows_terminal t l"
    using pt l unfolding tile_panes_mem Bex_def by blast
  note others = once_concat(1) [OF once' ex] and this_tile = once_concat(2) [OF once' ex]
  define f where "f = (if countLeaves (pt_panelLayout pt) \<le> 1
      then (\<lambda>leaf. removePanelTab leaf (pt_id pt)) else closePaneInTile loc)"
  have f: "tile_panes (f tile) = filter (\<lambda>l. \<not> shows_terminal t l) (tile_panes tile)"
    using close_lone_panel_tab [OF pt dt l this_tile] close_pane_in_tab [OF pt dt dl l this_tile]
    by (simp add: f_def loc)
  have ws: "tl_workspaceId y \<noteq> tl_workspaceId tile" if "y \<in> set ys \<union> set zs" for y
    using distinct_map_split [OF dw [unfolded tiles] that] .
  have "closeTerminalInWindowLayout layout t = updateWorkspaceTileLeaf layout (tl_workspaceId tile) f"
    using Some paneCountAt_located [OF ok tab tile pt, of l]
    by (simp add: closeTerminalInWindowLayout_def f_def loc) (simp add: located_def)
  then have "getAllWorkspaceTileLeaves (closeTerminalInWindowLayout layout t)
      = map (\<lambda>l. if tl_workspaceId l = tl_workspaceId tile then f l else l) ?tiles"
    by (simp only: updateWorkspaceTileLeaf_leaves)
  also have "\<dots> = ys @ f tile # zs"
    using ws by (auto simp: tiles intro: map_idI)
  finally have "window_panes (closeTerminalInWindowLayout layout t)
      = concat (map tile_panes ys) @ tile_panes (f tile) @ concat (map tile_panes zs)"
    by (simp add: window_panes_def)
  moreover have "filter (\<lambda>l. \<not> shows_terminal t l) (window_panes layout)
      = concat (map tile_panes ys) @ filter (\<lambda>l. \<not> shows_terminal t l) (tile_panes tile)
        @ concat (map tile_panes zs)"
    unfolding window_panes_def tiles by (rule filter_middle [OF others])
  ultimately show ?thesis by (simp add: f)
qed

end
