(* ===== verification/Samples.thy ===== *)
theory Samples
  imports Panel_Nav Column_Moves Close_Facts
begin

text \<open>
  Concrete layouts on which the properties of the root theory are instantiated: a window with
  two tabs, the first showing three workspaces in two columns, the first of them with a split
  panel tab.
\<close>

definition sample_ids :: id_source where
  "sample_ids = \<lparr>id_counter = 0, id_random = (\<lambda>n. ''x'')\<rparr>"

definition sample_leaf :: "string \<Rightarrow> string \<Rightarrow> leaf_node" where
  "sample_leaf i t = \<lparr>leaf_command = None, leaf_id = i, leaf_paneType = TerminalPane,
     leaf_terminalId = Some t, leaf_workspaceId = Some ''w1''\<rparr>"

definition sample_panel :: panel_node where
  "sample_panel = SplitNode ''s1'' Horizontal
     [LeafNode (sample_leaf ''a'' ''t1''),
      SplitNode ''s2'' Vertical
        [LeafNode (sample_leaf ''b'' ''t2''), LeafNode (sample_leaf ''c'' ''t3'')] [50, 50]] [40, 60]"

definition sample_panel_tab :: "string \<Rightarrow> panel_node \<Rightarrow> panel_tab" where
  "sample_panel_tab i n = \<lparr>pt_focusedPaneId = None, pt_id = i, pt_label = None, pt_panelLayout = n\<rparr>"

definition sample_tile :: "string \<Rightarrow> string \<Rightarrow> panel_tab list \<Rightarrow> tile_leaf" where
  "sample_tile i w tabs = \<lparr>tl_activePanelTabId = map_option pt_id (js_nth tabs 0), tl_id = i,
     tl_panelTabs = tabs, tl_workspaceId = w\<rparr>"

definition sample_tiles :: tile_node where
  "sample_tiles = TileSplit ''c0'' Horizontal
     [TileLeaf (sample_tile ''k1'' ''w1''
        [sample_panel_tab ''p1'' sample_panel,
         sample_panel_tab ''p2'' (LeafNode (sample_leaf ''d'' ''t4''))]),
      TileSplit ''c1'' Vertical
        [TileLeaf (sample_tile ''k2'' ''w2'' [sample_panel_tab ''p3'' (LeafNode (sample_leaf ''e'' ''t5''))]),
         TileLeaf (sample_tile ''k3'' ''w3'' [])] [50, 50]] [30, 70]"

definition sample_tab :: window_tab where
  "sample_tab = \<lparr>wt_focusedWorkspaceTileId = Some ''k1'', wt_id = ''v1'', wt_label = None,
     wt_workspaceLayout = Some sample_tiles\<rparr>"

definition sample_empty_tab :: window_tab where
  "sample_empty_tab = \<lparr>wt_focusedWorkspaceTileId = None, wt_id = ''v2'', wt_label = None,
     wt_workspaceLayout = None\<rparr>"

definition sample_window :: window_layout where
  "sample_window = \<lparr>wl_activeTabId = Some ''v1'', wl_tabs = [sample_tab, sample_empty_tab]\<rparr>"

lemmas sample_panel_defs = sample_panel_def sample_leaf_def

lemmas sample_defs = sample_window_def sample_tab_def sample_empty_tab_def sample_tiles_def
  sample_tile_def sample_panel_tab_def sample_panel_defs

lemma sample_panel_ids: "panel_ids sample_panel = [''s1'', ''a'', ''s2'', ''b'', ''c'']"
  by (simp add: sample_panel_defs)

lemma sample_panel_leaf_ids: "getLeafIds sample_panel = [''a'', ''b'', ''c'']"
  by (simp add: sample_panel_defs)

lemma sample_panel_wf: "wf_panel sample_panel"
  by (simp add: sample_panel_defs sizes_ok_def)

lemma sample_ids_settled:
  assumes "\<forall>i\<in>I. CHR ''-'' \<notin> set i"
  shows "settled sample_ids I"
  using assms by (auto simp: settled_def unissued_def id_text_def sample_ids_def)

lemma sample_ids_dash_free: "dash_free sample_ids"
  by (simp add: dash_free_def sample_ids_def)

lemma sample_pane_id: "fst (generateId ''pane'' sample_ids) = ''pane-1-x''"
  by code_simp

lemma sample_tab_wf: "wf_tab sample_tab"
  by (simp add: wf_tab_def sample_defs sizes_ok_def)

lemma sample_tab_leaves:
  "map tl_workspaceId (tab_leaves sample_tab) = [''w1'', ''w2'', ''w3'']"
  "tab_workspaces sample_tab = [''w1'', ''w2'', ''w3'']"
  "map tl_id (tab_leaves sample_tab) = [''k1'', ''k2'', ''k3'']"
  by (simp_all add: tab_workspaces_def tab_leaves_def sample_defs)

lemma sample_empty_tab_simps:
  "tab_leaves sample_empty_tab = []" "tab_workspaces sample_empty_tab = []" "wf_tab sample_empty_tab"
  by (simp_all add: tab_workspaces_def tab_leaves_def wf_tab_def sample_empty_tab_def)

lemma sample_window_tabs:
  "wl_tabs sample_window = [sample_tab, sample_empty_tab]" "wt_id sample_tab = ''v1''"
  "wt_id sample_empty_tab = ''v2''"
  by (simp_all add: sample_window_def sample_tab_def sample_empty_tab_def)

lemma sample_window_wf: "wf_window sample_window"
proof -
  have "\<forall>l\<in>set (tab_leaves sample_tab). tl_id l \<noteq> []"
  proof
    fix l assume "l \<in> set (tab_leaves sample_tab)"
    then have "tl_id l \<in> set (map tl_id (tab_leaves sample_tab))" by simp
    then show "tl_id l \<noteq> []" unfolding sample_tab_leaves by auto
  qed
  then show ?thesis
    by (simp add: wf_window_def sample_window_tabs window_workspaces_def sample_tab_leaves
        sample_empty_tab_simps sample_tab_wf)
qed

lemma sample_window_panes:
  "map leaf_id (window_panes sample_window) = [''a'', ''b'', ''c'', ''d'', ''e'']"
  "map leaf_terminalId (window_panes sample_window)
     = [Some ''t1'', Some ''t2'', Some ''t3'', Some ''t4'', Some ''t5'']"
  by (simp_all add: window_panes_def tile_panes_def getAllWorkspaceTileLeaves_def sample_defs)

end
