(* ===== verification/Workspace_Tree.thy ===== *)
theory Workspace_Tree
  imports Prelude
begin

text \<open>
  The sidebar tree of \<open>packages/shared/src/workspace-tree.ts\<close>. The node objects that
  \<open>buildWorkspaceTree\<close> mutates live in a store, a list indexed by their position in the input,
  which is their identity; a \<open>Map\<close> from ids gives the last node with an id. The ancestor walks
  are loops over links that may be cyclic, so they are partial functions: \<open>None\<close> would be a
  walk that does not end.
\<close>

record workspace_input =
  wi_id :: string
  wi_parentTaskId :: "string option"

record workspace_node =
  wn_children :: "nat list"
  wn_workspace :: workspace_input

text \<open>\<open>byId.get(id)\<close> after the loop of \<open>byId.set\<close>.\<close>

fun byId_from :: "nat \<Rightarrow> workspace_input list \<Rightarrow> string \<Rightarrow> nat option" where
  "byId_from i [] ident = None"
| "byId_from i (w # ws) ident =
     (case byId_from (Suc i) ws ident of
        Some j \<Rightarrow> Some j
      | None \<Rightarrow> if wi_id w = ident then Some i else None)"

definition byId :: "workspace_input list \<Rightarrow> string \<Rightarrow> nat option" where
  "byId ws ident = byId_from 0 ws ident"

text \<open>\<open>ancestor.workspace.parentTaskId ? byId.get(...) : undefined\<close>.\<close>

definition next_ancestor :: "workspace_input list \<Rightarrow> nat \<Rightarrow> nat option" where
  "next_ancestor ws a =
     (case wi_parentTaskId (ws ! a) of
        None \<Rightarrow> None
      | Some p \<Rightarrow> if p \<noteq> [] then byId ws p else None)"

partial_function (option) ancestors_end :: "workspace_input list \<Rightarrow> nat list \<Rightarrow> nat option \<Rightarrow> bool option" where
  "ancestors_end ws seen ancestor =
     (case ancestor of
        None \<Rightarrow> Some True
      | Some a \<Rightarrow>
          if a \<in> set seen then Some False
          else ancestors_end ws (a # seen) (next_ancestor ws a))"

declare ancestors_end.simps [code]

definition resolveParent :: "workspace_input list \<Rightarrow> nat \<Rightarrow> nat option option" where
  "resolveParent ws node =
     (case wi_parentTaskId (ws ! node) of
        None \<Rightarrow> Some None
      | Some p \<Rightarrow>
          (let parent = byId ws p
           in map_option (\<lambda>ends. if ends then parent else None) (ancestors_end ws [node] parent)))"

text \<open>The loop that fills the children and the roots.\<close>

fun link_nodes ::
    "workspace_input list \<Rightarrow> nat list \<Rightarrow> workspace_node list \<times> nat list
      \<Rightarrow> (workspace_node list \<times> nat list) option" where
  "link_nodes ws [] (store, roots) = Some (store, roots)"
| "link_nodes ws (node # rest) (store, roots) =
     (case resolveParent ws node of
        None \<Rightarrow> None
      | Some (Some parent) \<Rightarrow>
          link_nodes ws rest
            (store[parent := (store ! parent)\<lparr>wn_children := wn_children (store ! parent) @ [node]\<rparr>], roots)
      | Some None \<Rightarrow> link_nodes ws rest (store, roots @ [node]))"

definition buildWorkspaceTree :: "workspace_input list \<Rightarrow> (workspace_node list \<times> nat list) option" where
  "buildWorkspaceTree ws =
     link_nodes ws [0..<length ws] (map (\<lambda>w. \<lparr>wn_children = [], wn_workspace = w\<rparr>) ws, [])"

partial_function (option) path_loop ::
    "workspace_input list \<Rightarrow> workspace_input \<Rightarrow> string list \<Rightarrow> workspace_input list
      \<Rightarrow> workspace_input option \<Rightarrow> workspace_input list option" where
  "path_loop ws target seen path current =
     (case current of
        None \<Rightarrow> Some path
      | Some w \<Rightarrow>
          if wi_id w \<in> set seen then Some [target]
          else path_loop ws target (wi_id w # seen) (w # path)
                 (case wi_parentTaskId w of
                    None \<Rightarrow> None
                  | Some p \<Rightarrow> if p \<noteq> [] then map_option (\<lambda>i. ws ! i) (byId ws p) else None))"

declare path_loop.simps [code]

definition buildWorkspacePath :: "workspace_input list \<Rightarrow> string \<Rightarrow> workspace_input list option" where
  "buildWorkspacePath ws workspaceId =
     (case find (\<lambda>w. wi_id w = workspaceId) ws of
        None \<Rightarrow> Some []
      | Some target \<Rightarrow> path_loop ws target [] [] (Some target))"

section \<open>The walks end\<close>

lemma byId_from_Some:
  "byId_from i ws ident = Some j \<Longrightarrow> i \<le> j \<and> j < i + length ws \<and> wi_id (ws ! (j - i)) = ident"
proof (induction ws arbitrary: i)
  case (Cons w ws)
  show ?case
  proof (cases "byId_from (Suc i) ws ident")
    case None
    then show ?thesis using Cons.prems by (auto split: if_splits)
  next
    case (Some k)
    then have "k = j" using Cons.prems by simp
    with Cons.IH [of "Suc i"] Some show ?thesis
      by (auto simp: nth_Cons' Suc_le_eq Suc_diff_Suc)
  qed
qed simp

lemma byId_Some: "byId ws ident = Some j \<Longrightarrow> j < length ws \<and> wi_id (ws ! j) = ident"
  using byId_from_Some [of 0 ws ident j] by (simp add: byId_def)

lemma byId_from_None: "byId_from i ws ident = None \<longleftrightarrow> ident \<notin> wi_id ` set ws"
proof (induction ws arbitrary: i)
  case (Cons w ws)
  show ?case
  proof (cases "byId_from (Suc i) ws ident")
    case None
    with Cons.IH [of "Suc i"] show ?thesis by auto
  next
    case (Some k)
    then have "ident \<in> wi_id ` set ws" using Cons.IH [of "Suc i"] by simp
    with Some show ?thesis by simp
  qed
qed simp

lemma byId_distinct:
  assumes "distinct (map wi_id ws)" and "i < length ws"
  shows "byId ws (wi_id (ws ! i)) = Some i"
proof -
  obtain j where j: "byId ws (wi_id (ws ! i)) = Some j"
    using byId_from_None [of 0 ws "wi_id (ws ! i)"] assms(2) by (force simp: byId_def)
  with byId_Some [OF j] assms show ?thesis by (auto simp: distinct_conv_nth)
qed

lemma next_ancestor_less: "next_ancestor ws a = Some b \<Longrightarrow> b < length ws"
  by (auto simp: next_ancestor_def dest: byId_Some split: option.splits if_splits)

lemma ancestors_end_total:
  assumes "set seen \<subseteq> {..<length ws}" and "\<forall>a. o' = Some a \<longrightarrow> a < length ws" and "distinct seen"
  shows "\<exists>b. ancestors_end ws seen o' = Some b"
  using assms
proof (induction "length ws - length seen" arbitrary: seen o' rule: less_induct)
  case less
  have le: "length seen \<le> length ws"
    using less.prems(1,3) distinct_card [of seen] card_mono [of "{..<length ws}" "set seen"] by simp
  show ?case
  proof (cases o')
    case None
    then show ?thesis by (subst ancestors_end.simps) auto
  next
    case (Some a)
    show ?thesis
    proof (cases "a \<in> set seen")
      case True
      then show ?thesis by (subst ancestors_end.simps) (auto simp: Some)
    next
      case False
      have a: "a < length ws" using less.prems(2) Some by simp
      have "length (a # seen) \<le> length ws"
        using less.prems(1,3) a False distinct_card [of "a # seen"]
          card_mono [of "{..<length ws}" "set (a # seen)"] by simp
      then have "\<exists>b. ancestors_end ws (a # seen) (next_ancestor ws a) = Some b"
        using less.prems a False le
        by (intro less.hyps) (auto dest: next_ancestor_less)
      then show ?thesis using False by (subst ancestors_end.simps) (simp add: Some)
    qed
  qed
qed

lemma resolveParent_total:
  assumes "i < length ws"
  obtains p where "resolveParent ws i = Some p"
proof -
  have "\<exists>p. resolveParent ws i = Some p"
  proof (cases "wi_parentTaskId (ws ! i)")
    case (Some p)
    obtain b where "ancestors_end ws [i] (byId ws p) = Some b"
      using ancestors_end_total [of "[i]" ws "byId ws p"] assms byId_Some by auto
    then show ?thesis using Some by (simp add: resolveParent_def Let_def)
  qed (simp add: resolveParent_def)
  then show thesis using that by blast
qed

definition parent_of :: "workspace_input list \<Rightarrow> nat \<Rightarrow> nat option" where
  "parent_of ws i = the (resolveParent ws i)"

lemma resolveParent_of: "i < length ws \<Longrightarrow> resolveParent ws i = Some (parent_of ws i)"
  using resolveParent_total [of i ws] by (metis option.sel parent_of_def)

lemma parent_of_less: "i < length ws \<Longrightarrow> parent_of ws i = Some p \<Longrightarrow> p < length ws"
  using resolveParent_of [of i ws]
  by (auto simp: resolveParent_def Let_def dest: byId_Some split: option.splits if_splits)

section \<open>The forest\<close>

lemma filter_snoc_if: "filter P (xs @ [x]) = filter P xs @ (if P x then [x] else [])"
  by simp

text \<open>The state of the loop after the first nodes: every list is a filter of the input.\<close>

definition forest_upto :: "workspace_input list \<Rightarrow> nat list \<Rightarrow> workspace_node list \<times> nat list" where
  "forest_upto ws done =
     (map (\<lambda>i. \<lparr>wn_children = filter (\<lambda>j. parent_of ws j = Some i) done, wn_workspace = ws ! i\<rparr>)
        [0..<length ws],
      filter (\<lambda>j. parent_of ws j = None) done)"

lemma link_nodes_forest:
  assumes "set rest \<subseteq> {..<length ws}"
  shows "link_nodes ws rest (forest_upto ws done) = Some (forest_upto ws (done @ rest))"
  using assms
proof (induction rest arbitrary: "done")
  case Nil
  then show ?case by (simp add: forest_upto_def)
next
  case (Cons node rest)
  then have n: "node < length ws" by simp
  have IH: "link_nodes ws rest (forest_upto ws (done @ [node])) = Some (forest_upto ws (done @ node # rest))"
    using Cons.IH [of "done @ [node]"] Cons.prems by simp
  show ?case
  proof (cases "parent_of ws node")
    case None
    then have "link_nodes ws (node # rest) (forest_upto ws done) = link_nodes ws rest (forest_upto ws (done @ [node]))"
      by (simp add: forest_upto_def resolveParent_of [OF n])
    with IH show ?thesis by simp
  next
    case (Some p)
    have p: "p < length ws" by (rule parent_of_less [OF n Some])
    have "(map (\<lambda>i. \<lparr>wn_children = filter (\<lambda>j. parent_of ws j = Some i) done, wn_workspace = ws ! i\<rparr>)
        [0..<length ws])[p := \<lparr>wn_children = filter (\<lambda>j. parent_of ws j = Some p) done @ [node],
          wn_workspace = ws ! p\<rparr>]
      = map (\<lambda>i. \<lparr>wn_children = filter (\<lambda>j. parent_of ws j = Some i) (done @ [node]), wn_workspace = ws ! i\<rparr>)
        [0..<length ws]"
      using p Some by (auto intro!: nth_equalityI simp: nth_list_update)
    then have "link_nodes ws (node # rest) (forest_upto ws done) = link_nodes ws rest (forest_upto ws (done @ [node]))"
      using p Some by (simp add: forest_upto_def resolveParent_of [OF n])
    with IH show ?thesis by simp
  qed
qed

lemma buildWorkspaceTree_forest: "buildWorkspaceTree ws = Some (forest_upto ws [0..<length ws])"
proof -
  have "(map (\<lambda>w. \<lparr>wn_children = [], wn_workspace = w\<rparr>) ws, []) = forest_upto ws []"
    by (simp add: forest_upto_def) (metis (no_types, lifting) map_nth map_map comp_apply map_eq_conv)
  then show ?thesis using link_nodes_forest [of "[0..<length ws]" ws "[]"]
    by (simp add: buildWorkspaceTree_def atLeast0LessThan)
qed

section \<open>Every node hangs from a root\<close>

text \<open>The walks that end, as a relation.\<close>

inductive walks_up :: "workspace_input list \<Rightarrow> nat set \<Rightarrow> nat option \<Rightarrow> bool" for ws where
  top: "walks_up ws seen None"
| up: "a \<notin> seen \<Longrightarrow> walks_up ws (insert a seen) (next_ancestor ws a) \<Longrightarrow> walks_up ws seen (Some a)"

lemma ancestors_end_walks:
  "ancestors_end ws seen a = Some r \<Longrightarrow> r \<longrightarrow> walks_up ws (set seen) a"
proof (rule ancestors_end.raw_induct [where P = "\<lambda>ws seen a r. r \<longrightarrow> walks_up ws (set seen) a"])
  fix f ws seen a r
  assume IH: "\<And>ws seen a r. f ws seen a = Some r \<Longrightarrow> r \<longrightarrow> walks_up ws (set seen) a"
    and step: "(case a of None \<Rightarrow> Some True
      | Some x \<Rightarrow> if x \<in> set seen then Some False else f ws (x # seen) (next_ancestor ws x)) = Some r"
  show "r \<longrightarrow> walks_up ws (set seen) a"
  proof (cases a)
    case None
    then show ?thesis by (simp add: walks_up.top)
  next
    case (Some x)
    show ?thesis
    proof
      assume r
      with step Some have "x \<notin> set seen" "f ws (x # seen) (next_ancestor ws x) = Some r"
        by (simp_all split: if_splits)
      moreover from this(2) IH \<open>r\<close> have "walks_up ws (set (x # seen)) (next_ancestor ws x)" by blast
      ultimately show "walks_up ws (set seen) a" using Some by (simp add: walks_up.up)
    qed
  qed
qed

lemma walks_ancestors_end: "walks_up ws S a \<Longrightarrow> set seen \<subseteq> S \<Longrightarrow> ancestors_end ws seen a = Some True"
proof (induction arbitrary: seen rule: walks_up.induct)
  case (top S)
  then show ?case by (subst ancestors_end.simps) simp
next
  case (up a S)
  have "set (a # seen) \<subseteq> insert a S" using up.prems by auto
  then have "ancestors_end ws (a # seen) (next_ancestor ws a) = Some True" by (rule up.IH)
  moreover have "a \<notin> set seen" using up.hyps(1) up.prems by blast
  ultimately show ?case by (subst ancestors_end.simps) simp
qed

lemma parent_of_Some:
  assumes "i < length ws"
  shows "parent_of ws i = Some p \<longleftrightarrow>
    (\<exists>t. wi_parentTaskId (ws ! i) = Some t \<and> byId ws t = Some p) \<and> walks_up ws {i} (Some p)"
proof
  assume p: "parent_of ws i = Some p"
  have r: "resolveParent ws i = Some (Some p)" using resolveParent_of [OF assms] p by simp
  then obtain t where t: "wi_parentTaskId (ws ! i) = Some t" "byId ws t = Some p"
    "ancestors_end ws [i] (Some p) = Some True"
    by (auto simp: resolveParent_def Let_def split: option.splits if_splits)
  from ancestors_end_walks [OF t(3)] t(1,2)
  show "(\<exists>t. wi_parentTaskId (ws ! i) = Some t \<and> byId ws t = Some p) \<and> walks_up ws {i} (Some p)" by simp
next
  assume "(\<exists>t. wi_parentTaskId (ws ! i) = Some t \<and> byId ws t = Some p) \<and> walks_up ws {i} (Some p)"
  then obtain t where "wi_parentTaskId (ws ! i) = Some t" "byId ws t = Some p"
    "ancestors_end ws [i] (Some p) = Some True" using walks_ancestors_end [of ws "{i}" "Some p" "[i]"] by auto
  then have "resolveParent ws i = Some (Some p)" by (simp add: resolveParent_def)
  then show "parent_of ws i = Some p" using resolveParent_of [OF assms] by simp
qed

lemma byId_empty: "[] \<notin> wi_id ` set ws \<Longrightarrow> byId ws [] = None"
  by (simp add: byId_def byId_from_None)

lemma next_ancestor_link:
  "[] \<notin> wi_id ` set ws \<Longrightarrow>
     next_ancestor ws a = (case wi_parentTaskId (ws ! a) of None \<Rightarrow> None | Some t \<Rightarrow> byId ws t)"
  by (auto simp: next_ancestor_def byId_empty split: option.split)

lemma parent_of_next:
  assumes "[] \<notin> wi_id ` set ws" and "i < length ws" and "parent_of ws i = Some p"
  shows "next_ancestor ws i = Some p"
proof -
  obtain t where "wi_parentTaskId (ws ! i) = Some t" "byId ws t = Some p"
    using parent_of_Some [OF assms(2)] assms(3) by blast
  then show ?thesis by (simp add: next_ancestor_link [OF assms(1)])
qed

lemma walks_up_mono: "walks_up ws S a \<Longrightarrow> T \<subseteq> S \<Longrightarrow> walks_up ws T a"
proof (induction arbitrary: T rule: walks_up.induct)
  case (up a S)
  then have "walks_up ws (insert a T) (next_ancestor ws a)" by blast
  with up show ?case by (blast intro: walks_up.up)
qed (rule walks_up.top)

text \<open>Reachability from the roots along children.\<close>

inductive in_forest :: "workspace_input list \<Rightarrow> nat \<Rightarrow> bool" for ws where
  root: "parent_of ws i = None \<Longrightarrow> i < length ws \<Longrightarrow> in_forest ws i"
| child: "parent_of ws i = Some p \<Longrightarrow> in_forest ws p \<Longrightarrow> i < length ws \<Longrightarrow> in_forest ws i"

lemma walks_up_in_forest:
  assumes "[] \<notin> wi_id ` set ws"
  shows "walks_up ws S a \<Longrightarrow> (\<forall>i. a = Some i \<longrightarrow> i < length ws \<longrightarrow> in_forest ws i)"
proof (induction rule: walks_up.induct)
  case (up a S)
  show ?case
  proof (intro allI impI)
    fix i assume i: "Some a = Some i" "i < length ws"
    show "in_forest ws i"
    proof (cases "parent_of ws i")
      case None
      then show ?thesis using i(2) by (rule in_forest.root)
    next
      case (Some p)
      then have "next_ancestor ws i = Some p" by (rule parent_of_next [OF assms i(2)])
      then have "in_forest ws p" using up.IH i parent_of_less [OF i(2) Some] by auto
      then show ?thesis using Some i(2) in_forest.child by blast
    qed
  qed
qed simp

lemma all_in_forest:
  assumes "[] \<notin> wi_id ` set ws" and "i < length ws"
  shows "in_forest ws i"
proof (cases "parent_of ws i")
  case None
  then show ?thesis using assms(2) by (rule in_forest.root)
next
  case (Some p)
  then have "walks_up ws {i} (Some p)" using parent_of_Some [OF assms(2)] by blast
  then have "in_forest ws p" using walks_up_in_forest [OF assms(1)] parent_of_less [OF assms(2) Some] by blast
  then show ?thesis using Some assms(2) in_forest.child by blast
qed

section \<open>Paths\<close>

text \<open>A list of nodes from a node up to its root.\<close>

fun up_path :: "workspace_input list \<Rightarrow> nat list \<Rightarrow> bool" where
  "up_path ws [] = False"
| "up_path ws [i] = (parent_of ws i = None)"
| "up_path ws (i # j # js) = (parent_of ws i = Some j \<and> up_path ws (j # js))"

text \<open>The ids seen by one walk are those of the nodes seen by the other.\<close>

definition same_seen :: "workspace_input list \<Rightarrow> nat set \<Rightarrow> string list \<Rightarrow> bool" where
  "same_seen ws S ids \<longleftrightarrow> (\<forall>a<length ws. a \<in> S \<longleftrightarrow> wi_id (ws ! a) \<in> set ids)"

lemma same_seen_insert:
  assumes "distinct (map wi_id ws)" and "same_seen ws S ids" and "a < length ws"
  shows "same_seen ws (insert a S) (wi_id (ws ! a) # ids)"
  using assms by (auto simp: same_seen_def distinct_conv_nth)

lemma path_loop_step:
  "path_loop ws t ids path (Some (ws ! a)) =
     (if wi_id (ws ! a) \<in> set ids then Some [t]
      else path_loop ws t (wi_id (ws ! a) # ids) (ws ! a # path) (map_option ((!) ws) (next_ancestor ws a)))"
  by (subst path_loop.simps) (simp add: next_ancestor_def split: option.split)

lemma path_loop_cycle:
  assumes "distinct (map wi_id ws)" and "ancestors_end ws seen a = Some r" and "\<not> r"
    and "same_seen ws (set seen) ids" and "\<forall>i. a = Some i \<longrightarrow> i < length ws"
  shows "path_loop ws t ids path (map_option ((!) ws) a) = Some [t]"
proof -
  have "\<not> r \<longrightarrow> (\<forall>ids path. distinct (map wi_id ws) \<longrightarrow> same_seen ws (set seen) ids \<longrightarrow>
      (\<forall>i. a = Some i \<longrightarrow> i < length ws) \<longrightarrow>
      path_loop ws t ids path (map_option ((!) ws) a) = Some [t])"
  proof (rule ancestors_end.raw_induct [where P = "\<lambda>ws seen a r. \<not> r \<longrightarrow>
      (\<forall>ids path. distinct (map wi_id ws) \<longrightarrow> same_seen ws (set seen) ids \<longrightarrow>
        (\<forall>i. a = Some i \<longrightarrow> i < length ws) \<longrightarrow>
        path_loop ws t ids path (map_option ((!) ws) a) = Some [t])", OF _ assms(2)], intro impI allI)
    fix f ws seen a r ids path
    assume IH: "\<And>ws seen a r. f ws seen a = Some r \<Longrightarrow> \<not> r \<longrightarrow>
        (\<forall>ids path. distinct (map wi_id ws) \<longrightarrow> same_seen ws (set seen) ids \<longrightarrow>
          (\<forall>i. a = Some i \<longrightarrow> i < length ws) \<longrightarrow>
          path_loop ws t ids path (map_option ((!) ws) a) = Some [t])"
      and step: "(case a of None \<Rightarrow> Some True
        | Some x \<Rightarrow> if x \<in> set seen then Some False else f ws (x # seen) (next_ancestor ws x)) = Some r"
      and r: "\<not> r" and d: "distinct (map wi_id ws)" and ids: "same_seen ws (set seen) ids"
      and less: "\<forall>i. a = Some i \<longrightarrow> i < length ws"
    obtain x where x: "a = Some x" "x < length ws" using step r less by (cases a) auto
    show "path_loop ws t ids path (map_option ((!) ws) a) = Some [t]"
    proof (cases "x \<in> set seen")
      case True
      then show ?thesis using x ids by (simp add: path_loop_step same_seen_def)
    next
      case False
      then have "f ws (x # seen) (next_ancestor ws x) = Some r" using step x by simp
      moreover have "same_seen ws (set (x # seen)) (wi_id (ws ! x) # ids)"
        using same_seen_insert [OF d ids x(2)] by simp
      ultimately have "path_loop ws t (wi_id (ws ! x) # ids) (ws ! x # path)
          (map_option ((!) ws) (next_ancestor ws x)) = Some [t]"
        using IH r d next_ancestor_less by blast
      then show ?thesis using False x ids by (simp add: path_loop_step same_seen_def)
    qed
  qed
  with assms show ?thesis by blast
qed

lemma path_loop_up:
  assumes "distinct (map wi_id ws)" and "[] \<notin> wi_id ` set ws"
  shows "walks_up ws S a \<Longrightarrow> same_seen ws S ids \<Longrightarrow> \<forall>i. a = Some i \<longrightarrow> i < length ws \<Longrightarrow>
    \<exists>js. path_loop ws t ids path (map_option ((!) ws) a) = Some (map ((!) ws) (rev js) @ path) \<and>
      (case a of None \<Rightarrow> js = [] | Some i \<Rightarrow> (\<exists>is. js = i # is \<and> up_path ws js))"
proof (induction arbitrary: ids path rule: walks_up.induct)
  case (top S)
  then show ?case by (subst path_loop.simps) simp
next
  case (up a S)
  have a: "a < length ws" using up.prems(2) by simp
  have seen: "wi_id (ws ! a) \<notin> set ids" using up.hyps(1) up.prems(1) a by (auto simp: same_seen_def)
  obtain js where js: "path_loop ws t (wi_id (ws ! a) # ids) (ws ! a # path)
        (map_option ((!) ws) (next_ancestor ws a)) = Some (map ((!) ws) (rev js) @ ws ! a # path)"
      "case next_ancestor ws a of None \<Rightarrow> js = [] | Some i \<Rightarrow> (\<exists>is. js = i # is \<and> up_path ws js)"
    using up.IH [OF same_seen_insert [OF assms(1) up.prems(1) a], of "ws ! a # path"]
      next_ancestor_less by blast
  have "up_path ws (a # js)"
  proof (cases "next_ancestor ws a")
    case None
    have "parent_of ws a = None"
      using parent_of_next [OF assms(2) a] None by (cases "parent_of ws a") auto
    then show ?thesis using js(2) None by simp
  next
    case (Some p)
    then have "(\<exists>t. wi_parentTaskId (ws ! a) = Some t \<and> byId ws t = Some p)"
      using next_ancestor_link [OF assms(2), of a] by (auto split: option.splits)
    moreover have "walks_up ws {a} (Some p)"
      using up.hyps(2) Some by (auto elim: walks_up_mono)
    ultimately have "parent_of ws a = Some p" using parent_of_Some [OF a] by blast
    then show ?thesis using js(2) Some by auto
  qed
  moreover have "path_loop ws t ids path (map_option ((!) ws) (Some a))
      = Some (map ((!) ws) (rev (a # js)) @ path)"
    using seen js(1) by (simp add: path_loop_step)
  ultimately show ?case by - (rule exI [of _ "a # js"], simp)
qed

lemma find_by_wi_id:
  assumes "distinct (map wi_id ws)" and "i < length ws"
  shows "find (\<lambda>w. wi_id w = wi_id (ws ! i)) ws = Some (ws ! i)"
  using assms by (auto simp: find_Some_iff distinct_conv_nth intro!: exI [of _ i])

lemma buildWorkspacePath_up:
  assumes "distinct (map wi_id ws)" and "[] \<notin> wi_id ` set ws" and "i < length ws"
  shows "\<exists>js. buildWorkspacePath ws (wi_id (ws ! i)) = Some (map ((!) ws) (rev (i # js))) \<and> up_path ws (i # js)"
proof -
  have first: "buildWorkspacePath ws (wi_id (ws ! i)) =
      path_loop ws (ws ! i) [wi_id (ws ! i)] [ws ! i] (map_option ((!) ws) (next_ancestor ws i))"
    by (simp add: buildWorkspacePath_def find_by_wi_id [OF assms(1,3)] path_loop_step)
  have seen: "same_seen ws {i} [wi_id (ws ! i)]"
    using assms by (auto simp: same_seen_def distinct_conv_nth)
  have less: "\<forall>j. next_ancestor ws i = Some j \<longrightarrow> j < length ws" using next_ancestor_less by blast
  have link: "next_ancestor ws i = (case wi_parentTaskId (ws ! i) of None \<Rightarrow> None | Some t \<Rightarrow> byId ws t)"
    by (rule next_ancestor_link [OF assms(2)])
  show ?thesis
  proof (cases "walks_up ws {i} (next_ancestor ws i)")
    case True
    from path_loop_up [OF assms(1,2) True seen less, of "ws ! i" "[ws ! i]"]
    obtain js where js: "path_loop ws (ws ! i) [wi_id (ws ! i)] [ws ! i] (map_option ((!) ws) (next_ancestor ws i))
          = Some (map ((!) ws) (rev js) @ [ws ! i])"
        "case next_ancestor ws i of None \<Rightarrow> js = [] | Some k \<Rightarrow> (\<exists>ks. js = k # ks \<and> up_path ws js)"
      by blast
    have "up_path ws (i # js)"
    proof (cases "next_ancestor ws i")
      case None
      have "parent_of ws i = None"
        using parent_of_next [OF assms(2,3)] None by (cases "parent_of ws i") auto
      then show ?thesis using js(2) None by simp
    next
      case (Some p)
      then have "parent_of ws i = Some p"
        using parent_of_Some [OF assms(3)] link True by (auto split: option.splits)
      then show ?thesis using js(2) Some by auto
    qed
    then show ?thesis using js(1) first by auto
  next
    case False
    then obtain p where p: "next_ancestor ws i = Some p" using walks_up.top by (cases "next_ancestor ws i") auto
    obtain r where r: "ancestors_end ws [i] (Some p) = Some r"
      using ancestors_end_total [of "[i]" ws "Some p"] assms(3) less p by auto
    have "\<not> r" using ancestors_end_walks [OF r] False p by auto
    then have "path_loop ws (ws ! i) [wi_id (ws ! i)] [ws ! i] (map_option ((!) ws) (Some p)) = Some [ws ! i]"
      using seen less p by (intro path_loop_cycle [OF assms(1) r]) simp_all
    moreover have "parent_of ws i = None"
    proof (cases "parent_of ws i")
      case (Some q)
      then have "q = p \<and> walks_up ws {i} (Some q)"
        using parent_of_Some [OF assms(3)] link p by auto
      with False p show ?thesis by metis
    qed
    ultimately show ?thesis using first p by (intro exI [of _ "[]"]) simp
  qed
qed

section \<open>The lists of the forest\<close>

lemma forest_child:
  assumes "p < length ws" and "i \<in> set (wn_children (fst (forest_upto ws [0..<length ws]) ! p))"
  shows "wi_parentTaskId (ws ! i) = Some (wi_id (ws ! p)) \<and> parent_of ws i = Some p"
proof -
  have i: "i < length ws" "parent_of ws i = Some p" using assms by (auto simp: forest_upto_def)
  then obtain t where "wi_parentTaskId (ws ! i) = Some t" "byId ws t = Some p"
    using parent_of_Some [OF i(1)] by blast
  with byId_Some i(2) show ?thesis by auto
qed

lemma mset_filter_classes:
  "(\<forall>i\<in>set xs. c i = None \<or> (\<exists>k<n. c i = Some k)) \<Longrightarrow>
     mset (filter (\<lambda>i. c i = None) xs) + mset (concat (map (\<lambda>k. filter (\<lambda>i. c i = Some k) xs) [0..<n])) = mset xs"
proof (induction xs)
  case (Cons x xs)
  show ?case
  proof (cases "c x")
    case None
    then show ?thesis using Cons by simp
  next
    case (Some k)
    then have k: "k < n" using Cons.prems by auto
    have "mset (concat (map (\<lambda>j. filter (\<lambda>i. c i = Some j) (x # xs)) [0..<m]))
        = mset (concat (map (\<lambda>j. filter (\<lambda>i. c i = Some j) xs) [0..<m])) + (if k < m then {#x#} else {#})" for m
      by (induction m) (auto simp: Some)
    then show ?thesis using Cons Some k by simp
  qed
qed simp

lemma forest_mset:
  "mset (snd (forest_upto ws [0..<length ws]) @
     concat (map wn_children (fst (forest_upto ws [0..<length ws])))) = mset [0..<length ws]"
proof -
  have "\<forall>i\<in>set [0..<length ws]. parent_of ws i = None \<or> (\<exists>k<length ws. parent_of ws i = Some k)"
  proof
    fix i assume "i \<in> set [0..<length ws]"
    then show "parent_of ws i = None \<or> (\<exists>k<length ws. parent_of ws i = Some k)"
      using parent_of_less [of i ws] by (cases "parent_of ws i") auto
  qed
  from mset_filter_classes [OF this] show ?thesis by (simp add: forest_upto_def comp_def)
qed

end
