(* ===== verification/Update_Machine.thy ===== *)
theory Update_Machine
  imports Prelude
begin

text \<open>
  The desktop auto-updater: the reducers of \<open>apps/desktop/src/update-machine.ts\<close> and
  \<open>update-state.ts\<close>, the architecture detection of \<open>runtime-arch.ts\<close> and the module state of
  \<open>auto-updater.ts\<close>, whose actions and event handlers are the steps of a machine. Awaiting the
  update library splits an action in two: what runs before, and what runs when the promise
  settles. Timestamps and messages are strings, percentages rationals; \<open>up_sent\<close> is the last
  state sent to the windows.
\<close>

datatype desktop_arch = Arm64 | X64 | OtherArch

record runtime_info =
  ri_hostArch :: desktop_arch
  ri_appArch :: desktop_arch
  ri_runningUnderArm64Translation :: bool

datatype update_status =
    Disabled | IdleUpdate | Checking | UpToDate | Available | Downloading | Downloaded | Failed

datatype error_context = CheckError | DownloadError | InstallError

record update_state =
  us_enabled :: bool
  us_status :: update_status
  us_currentVersion :: string
  us_hostArch :: desktop_arch
  us_appArch :: desktop_arch
  us_runningUnderArm64Translation :: bool
  us_availableVersion :: "string option"
  us_downloadedVersion :: "string option"
  us_downloadPercent :: "rat option"
  us_checkedAt :: "string option"
  us_message :: "string option"
  us_errorContext :: "error_context option"
  us_canRetry :: bool

section \<open>Architecture\<close>

definition normalizeDesktopArch :: "string \<Rightarrow> desktop_arch" where
  "normalizeDesktopArch arch =
     (if arch = ''arm64'' then Arm64 else if arch = ''x64'' then X64 else OtherArch)"

definition resolveDesktopRuntimeInfo :: "string \<Rightarrow> string \<Rightarrow> bool \<Rightarrow> runtime_info" where
  "resolveDesktopRuntimeInfo platform processArch translated =
     (let appArch = normalizeDesktopArch processArch
      in if platform \<noteq> ''darwin''
         then \<lparr>ri_hostArch = appArch, ri_appArch = appArch, ri_runningUnderArm64Translation = False\<rparr>
         else \<lparr>ri_hostArch = (if appArch = Arm64 \<or> translated then Arm64 else appArch),
               ri_appArch = appArch, ri_runningUnderArm64Translation = translated\<rparr>)"

definition isArm64HostRunningIntelBuild :: "runtime_info \<Rightarrow> bool" where
  "isArm64HostRunningIntelBuild r \<longleftrightarrow> ri_hostArch r = Arm64 \<and> ri_appArch r = X64"

section \<open>Reducers\<close>

definition createInitialUpdateState :: "string \<Rightarrow> runtime_info \<Rightarrow> update_state" where
  "createInitialUpdateState currentVersion r =
     \<lparr>us_enabled = False, us_status = Disabled, us_currentVersion = currentVersion,
      us_hostArch = ri_hostArch r, us_appArch = ri_appArch r,
      us_runningUnderArm64Translation = ri_runningUnderArm64Translation r,
      us_availableVersion = None, us_downloadedVersion = None, us_downloadPercent = None,
      us_checkedAt = None, us_message = None, us_errorContext = None, us_canRetry = False\<rparr>"

definition reduceOnCheckStart :: "update_state \<Rightarrow> string \<Rightarrow> update_state" where
  "reduceOnCheckStart s checkedAt =
     s\<lparr>us_status := Checking, us_checkedAt := Some checkedAt, us_message := None,
       us_downloadPercent := None, us_errorContext := None, us_canRetry := False\<rparr>"

definition reduceOnCheckFailure :: "update_state \<Rightarrow> string \<Rightarrow> string \<Rightarrow> update_state" where
  "reduceOnCheckFailure s message checkedAt =
     s\<lparr>us_status := Failed, us_message := Some message, us_checkedAt := Some checkedAt,
       us_downloadPercent := None, us_errorContext := Some CheckError, us_canRetry := True\<rparr>"

definition reduceOnUpdateAvailable :: "update_state \<Rightarrow> string \<Rightarrow> string \<Rightarrow> update_state" where
  "reduceOnUpdateAvailable s version checkedAt =
     s\<lparr>us_status := Available, us_availableVersion := Some version, us_downloadedVersion := None,
       us_downloadPercent := None, us_checkedAt := Some checkedAt, us_message := None,
       us_errorContext := None, us_canRetry := False\<rparr>"

definition reduceOnNoUpdate :: "update_state \<Rightarrow> string \<Rightarrow> update_state" where
  "reduceOnNoUpdate s checkedAt =
     s\<lparr>us_status := UpToDate, us_availableVersion := None, us_downloadedVersion := None,
       us_downloadPercent := None, us_checkedAt := Some checkedAt, us_message := None,
       us_errorContext := None, us_canRetry := False\<rparr>"

definition reduceOnDownloadStart :: "update_state \<Rightarrow> update_state" where
  "reduceOnDownloadStart s =
     s\<lparr>us_status := Downloading, us_downloadPercent := Some 0, us_message := None,
       us_errorContext := None, us_canRetry := False\<rparr>"

definition reduceOnDownloadProgress :: "update_state \<Rightarrow> rat \<Rightarrow> update_state" where
  "reduceOnDownloadProgress s percent =
     s\<lparr>us_status := Downloading, us_downloadPercent := Some percent, us_message := None,
       us_errorContext := None, us_canRetry := False\<rparr>"

definition nextStatusAfterDownloadFailure :: "update_state \<Rightarrow> update_status" where
  "nextStatusAfterDownloadFailure s =
     (if truthy (us_availableVersion s) then Available else Failed)"

definition getCanRetryAfterDownloadFailure :: "update_state \<Rightarrow> bool" where
  "getCanRetryAfterDownloadFailure s \<longleftrightarrow> us_availableVersion s \<noteq> None"

definition reduceOnDownloadFailure :: "update_state \<Rightarrow> string \<Rightarrow> update_state" where
  "reduceOnDownloadFailure s message =
     s\<lparr>us_status := nextStatusAfterDownloadFailure s, us_message := Some message,
       us_downloadPercent := None, us_errorContext := Some DownloadError,
       us_canRetry := getCanRetryAfterDownloadFailure s\<rparr>"

definition reduceOnDownloadComplete :: "update_state \<Rightarrow> string \<Rightarrow> update_state" where
  "reduceOnDownloadComplete s version =
     s\<lparr>us_status := Downloaded, us_availableVersion := Some version,
       us_downloadedVersion := Some version, us_downloadPercent := Some 100, us_message := None,
       us_errorContext := None, us_canRetry := True\<rparr>"

definition reduceOnInstallFailure :: "update_state \<Rightarrow> string \<Rightarrow> update_state" where
  "reduceOnInstallFailure s message =
     s\<lparr>us_status := Downloaded, us_message := Some message,
       us_errorContext := Some InstallError, us_canRetry := True\<rparr>"

definition shouldBroadcastDownloadProgress :: "update_state \<Rightarrow> rat \<Rightarrow> bool" where
  "shouldBroadcastDownloadProgress s nextPercent =
     (if us_status s \<noteq> Downloading then True
      else case us_downloadPercent s of
             None \<Rightarrow> True
           | Some currentPercent \<Rightarrow>
               \<lfloor>nextPercent / 10\<rfloor> \<noteq> \<lfloor>currentPercent / 10\<rfloor> \<or> nextPercent = 100)"

definition getAutoUpdateDisabledReason :: "bool \<Rightarrow> bool \<Rightarrow> string \<Rightarrow> bool \<Rightarrow> string option" where
  "getAutoUpdateDisabledReason isDevelopment isPackaged platform disabledByEnv =
     (if isDevelopment \<or> \<not> isPackaged
      then Some ''Automatic updates are only available in packaged production builds.''
      else if disabledByEnv
      then Some ''Automatic updates are disabled by the LABORER_DISABLE_AUTO_UPDATE setting.''
      else if platform = ''linux'' then Some ''Automatic updates on Linux are not supported.''
      else None)"

section \<open>The module\<close>

record updater =
  up_state :: update_state
  up_checkInFlight :: bool
  up_downloadInFlight :: bool
  up_installPending :: bool
  up_sent :: "update_state option"

definition setState :: "update_state \<Rightarrow> updater \<Rightarrow> updater" where
  "setState s u = u\<lparr>up_state := s, up_sent := Some s\<rparr>"

text \<open>\<open>checkForUpdates\<close> up to the await, and when the promise settles.\<close>

definition check_begins :: "string \<Rightarrow> updater \<Rightarrow> updater" where
  "check_begins now u =
     (if up_checkInFlight u then u
      else if us_status (up_state u) = Downloading \<or> us_status (up_state u) = Downloaded then u
      else setState (reduceOnCheckStart (up_state u) now) (u\<lparr>up_checkInFlight := True\<rparr>))"

definition check_settles :: "string option \<Rightarrow> string \<Rightarrow> updater \<Rightarrow> updater" where
  "check_settles err now u =
     (case err of
        Some message \<Rightarrow> setState (reduceOnCheckFailure (up_state u) message now) u
      | None \<Rightarrow> u)\<lparr>up_checkInFlight := False\<rparr>"

text \<open>\<open>downloadAvailableUpdate\<close>; the first component is \<open>accepted\<close>.\<close>

definition download_begins :: "updater \<Rightarrow> bool \<times> updater" where
  "download_begins u =
     (if us_status (up_state u) \<noteq> Available then (False, u)
      else if up_downloadInFlight u then (False, u)
      else (True, setState (reduceOnDownloadStart (up_state u)) (u\<lparr>up_downloadInFlight := True\<rparr>)))"

definition download_settles :: "string option \<Rightarrow> updater \<Rightarrow> updater" where
  "download_settles err u =
     (case err of
        Some message \<Rightarrow> setState (reduceOnDownloadFailure (up_state u) message) u
      | None \<Rightarrow> u)\<lparr>up_downloadInFlight := False\<rparr>"

definition install_begins :: "updater \<Rightarrow> bool \<times> updater" where
  "install_begins u =
     (if us_status (up_state u) \<noteq> Downloaded then (False, u)
      else (True, u\<lparr>up_installPending := True\<rparr>))"

definition install_settles :: "string option \<Rightarrow> updater \<Rightarrow> updater" where
  "install_settles err u =
     (case err of
        Some message \<Rightarrow> setState (reduceOnInstallFailure (up_state u) message) u
      | None \<Rightarrow> u)\<lparr>up_installPending := False\<rparr>"

text \<open>The event handlers.\<close>

definition on_update_available :: "string option \<Rightarrow> string \<Rightarrow> updater \<Rightarrow> updater" where
  "on_update_available version now u =
     setState (reduceOnUpdateAvailable (up_state u)
       (case version of Some v \<Rightarrow> v | None \<Rightarrow> ''unknown'') now) u"

definition on_update_not_available :: "string \<Rightarrow> updater \<Rightarrow> updater" where
  "on_update_not_available now u = setState (reduceOnNoUpdate (up_state u) now) u"

definition on_error :: "string \<Rightarrow> string \<Rightarrow> updater \<Rightarrow> updater" where
  "on_error message now u =
     (if up_downloadInFlight u then setState (reduceOnDownloadFailure (up_state u) message) u
      else setState (reduceOnCheckFailure (up_state u) message now) u)"

text \<open>\<open>Math.round(progress.percent * 10) / 10\<close>.\<close>

definition round_percent :: "rat \<Rightarrow> rat" where
  "round_percent p = of_int \<lfloor>p * 10 + 1 / 2\<rfloor> / 10"

definition on_download_progress :: "rat \<Rightarrow> updater \<Rightarrow> updater" where
  "on_download_progress progress u =
     (let percent = round_percent progress;
          s = reduceOnDownloadProgress (up_state u) percent
      in if shouldBroadcastDownloadProgress (up_state u) percent then setState s u
         else u\<lparr>up_state := s\<rparr>)"

definition on_update_downloaded :: "string option \<Rightarrow> updater \<Rightarrow> updater" where
  "on_update_downloaded version u =
     setState (reduceOnDownloadComplete (up_state u)
       (case version of Some v \<Rightarrow> v
        | None \<Rightarrow> (case us_availableVersion (up_state u) of Some v \<Rightarrow> v | None \<Rightarrow> ''unknown''))) u"

definition configureAutoUpdater ::
    "string \<Rightarrow> string \<Rightarrow> bool \<Rightarrow> string \<Rightarrow> bool \<Rightarrow> bool \<Rightarrow> updater" where
  "configureAutoUpdater platform processArch translated version isPackaged disabledByEnv =
     (let s = createInitialUpdateState version (resolveDesktopRuntimeInfo platform processArch translated);
          u = \<lparr>up_state = s, up_checkInFlight = False, up_downloadInFlight = False,
               up_installPending = False, up_sent = None\<rparr>
      in case getAutoUpdateDisabledReason (\<not> isPackaged) isPackaged platform disabledByEnv of
           Some reason \<Rightarrow> setState (s\<lparr>us_message := Some reason\<rparr>) u
         | None \<Rightarrow> setState (s\<lparr>us_enabled := True, us_status := IdleUpdate\<rparr>) u)"

section \<open>Runs\<close>

text \<open>
  The steps of an enabled updater: the application's actions, and the update library settling
  promises and emitting events in any order.
\<close>

inductive updater_step :: "updater \<Rightarrow> updater \<Rightarrow> bool" where
  check: "updater_step u (check_begins now u)"
| checked: "up_checkInFlight u \<Longrightarrow> updater_step u (check_settles err now u)"
| download: "updater_step u (snd (download_begins u))"
| download_done: "up_downloadInFlight u \<Longrightarrow> updater_step u (download_settles err u)"
| install: "updater_step u (snd (install_begins u))"
| installed: "up_installPending u \<Longrightarrow> updater_step u (install_settles err u)"
| available: "updater_step u (on_update_available version now u)"
| none_available: "updater_step u (on_update_not_available now u)"
| error_event: "updater_step u (on_error message now u)"
| progress: "updater_step u (on_download_progress p u)"
| complete: "updater_step u (on_update_downloaded version u)"

text \<open>What the renderer can rely on in an update state.\<close>

definition update_state_ok :: "update_state \<Rightarrow> bool" where
  "update_state_ok s \<longleftrightarrow>
     us_enabled s \<and> us_status s \<noteq> Disabled \<and>
     (us_message s = None \<longleftrightarrow> us_errorContext s = None) \<and>
     (case us_errorContext s of
        None \<Rightarrow> us_status s \<noteq> Failed
      | Some CheckError \<Rightarrow> us_status s = Failed \<and> us_canRetry s
      | Some DownloadError \<Rightarrow> us_status s = Available \<or> us_status s = Failed
      | Some InstallError \<Rightarrow> us_status s = Downloaded \<and> us_canRetry s) \<and>
     (us_status s = Downloading \<longrightarrow> us_downloadPercent s \<noteq> None \<and> \<not> us_canRetry s) \<and>
     (us_downloadPercent s \<noteq> None \<longrightarrow> us_status s = Downloading \<or> us_status s = Downloaded) \<and>
     (us_status s = Available \<longrightarrow> us_availableVersion s \<noteq> None) \<and>
     (us_status s = UpToDate \<longrightarrow> us_availableVersion s = None \<and> us_downloadedVersion s = None) \<and>
     (us_canRetry s \<longrightarrow> us_status s = Failed \<or> us_status s = Available \<or> us_status s = Downloaded)"

definition updater_ok :: "updater \<Rightarrow> bool" where
  "updater_ok u \<longleftrightarrow> update_state_ok (up_state u) \<and> (case up_sent u of None \<Rightarrow> True | Some s \<Rightarrow> update_state_ok s)"

lemmas reducers = reduceOnCheckStart_def reduceOnCheckFailure_def reduceOnUpdateAvailable_def
  reduceOnNoUpdate_def reduceOnDownloadStart_def reduceOnDownloadProgress_def
  reduceOnDownloadFailure_def reduceOnDownloadComplete_def reduceOnInstallFailure_def

lemma reducers_ok:
  assumes "update_state_ok s"
  shows "update_state_ok (reduceOnCheckStart s now)"
    "update_state_ok (reduceOnCheckFailure s m now)"
    "update_state_ok (reduceOnUpdateAvailable s v now)"
    "update_state_ok (reduceOnNoUpdate s now)"
    "update_state_ok (reduceOnDownloadStart s)"
    "update_state_ok (reduceOnDownloadProgress s p)"
    "update_state_ok (reduceOnDownloadFailure s m)"
    "update_state_ok (reduceOnDownloadComplete s v)"
    "update_state_ok (reduceOnInstallFailure s m)"
  using assms
  by (auto simp: update_state_ok_def reducers nextStatusAfterDownloadFailure_def truthy_def
      split: option.splits)

lemma setState_ok: "update_state_ok s \<Longrightarrow> updater_ok (setState s u)"
  by (simp add: updater_ok_def setState_def)

lemma updater_ok_flags [simp]:
  "updater_ok (u\<lparr>up_checkInFlight := b\<rparr>) = updater_ok u"
  "updater_ok (u\<lparr>up_downloadInFlight := b\<rparr>) = updater_ok u"
  "updater_ok (u\<lparr>up_installPending := b\<rparr>) = updater_ok u"
  by (simp_all add: updater_ok_def)

lemma updater_step_ok: "updater_step u u' \<Longrightarrow> updater_ok u \<Longrightarrow> updater_ok u'"
proof (induction rule: updater_step.induct)
  case (progress u p)
  then show ?case
    by (auto simp: on_download_progress_def Let_def updater_ok_def setState_def reducers_ok)
qed (auto simp: check_begins_def check_settles_def download_begins_def download_settles_def
    install_begins_def install_settles_def on_update_available_def on_update_not_available_def
    on_error_def on_update_downloaded_def updater_ok_def setState_def reducers_ok
    split: option.splits)

lemma updater_runs_ok: "updater_step\<^sup>*\<^sup>* u u' \<Longrightarrow> updater_ok u \<Longrightarrow> updater_ok u'"
  by (induction rule: rtranclp_induct) (auto intro: updater_step_ok)

lemma configured_ok:
  "getAutoUpdateDisabledReason (\<not> packaged) packaged platform env = None \<Longrightarrow>
     updater_ok (configureAutoUpdater platform arch translated version packaged env)"
  by (simp add: configureAutoUpdater_def Let_def setState_ok update_state_ok_def
      createInitialUpdateState_def)

text \<open>An error event outside a download is taken for a failed check, whatever was downloaded.\<close>

lemma on_error_downloaded:
  assumes "\<not> up_downloadInFlight u"
  shows "us_status (up_state (on_error m now u)) = Failed"
    "us_errorContext (up_state (on_error m now u)) = Some CheckError"
    "fst (install_begins (on_error m now u)) = False"
  using assms by (simp_all add: on_error_def setState_def reduceOnCheckFailure_def install_begins_def)

end
