(* ===== verification/Minimize_Layout.thy ===== *)
theory Minimize_Layout
  imports Prelude "HOL-Library.AList"
begin

text \<open>
  \<open>apps/web/src/panels/workspace-minimize-layout.ts\<close>. A JavaScript object from panel ids to
  percentages is an association list with distinct keys in insertion order: an assignment is
  \<open>AList.update\<close>, a read \<open>map_of\<close>. Panel ids are not names of \<open>Object.prototype\<close>.
\<close>

type_synonym group_layout = "(string \<times> rat) list"

definition distributeLayout :: "group_layout \<Rightarrow> group_layout \<Rightarrow> group_layout" where
  "distributeLayout weights pinned =
     (let result = fold (\<lambda>(i, pct). AList.update i pct) pinned [];
          pinnedTotal = fold (\<lambda>(i, pct) total. total + pct) pinned 0;
          remaining = max 0 (100 - pinnedTotal);
          weightEntries = filter (\<lambda>e. fst e \<notin> fst ` set pinned) weights
      in if weightEntries = [] then result
         else
           (let weightTotal = fold (\<lambda>(i, weight) total. total + max 0 weight) weightEntries 0
            in if weightTotal \<le> 0
               then (let equalShare = remaining / of_nat (length weightEntries)
                     in fold (\<lambda>(i, _). AList.update i equalShare) weightEntries result)
               else fold (\<lambda>(i, weight). AList.update i (max 0 weight / weightTotal * remaining))
                      weightEntries result))"

definition or_share :: "rat option \<Rightarrow> rat \<Rightarrow> rat" where
  "or_share v d = (case v of Some x \<Rightarrow> x | None \<Rightarrow> d)"

lemma or_share_Some [simp]: "or_share (Some v) d = v"
  by (simp add: or_share_def)

text \<open>The loop over the children, with its three objects.\<close>

fun split_children ::
    "string list \<Rightarrow> string set \<Rightarrow> string set \<Rightarrow> group_layout \<Rightarrow> group_layout \<Rightarrow> (string \<rightharpoonup> rat) \<Rightarrow> rat
      \<Rightarrow> group_layout \<times> group_layout \<times> group_layout \<Rightarrow> group_layout \<times> group_layout \<times> group_layout" where
  "split_children [] minimized restore pre post lastShares equalShare acc = acc"
| "split_children (i # is) minimized restore pre post lastShares equalShare (pinned, restored, weights) =
     split_children is minimized restore pre post lastShares equalShare
       (if i \<in> minimized
        then (AList.update i (or_share (map_of post i) (or_share (map_of pre i) equalShare)) pinned,
              restored, weights)
        else if i \<in> restore
        then (pinned, AList.update i (or_share (lastShares i) equalShare) restored, weights)
        else (pinned, restored, AList.update i (or_share (map_of pre i) equalShare) weights))"

definition computeMinimizedTargetLayout ::
    "string list \<Rightarrow> string set \<Rightarrow> string set \<Rightarrow> group_layout \<Rightarrow> group_layout \<Rightarrow> (string \<rightharpoonup> rat)
      \<Rightarrow> group_layout" where
  "computeMinimizedTargetLayout childIds minimizedIds restoreIds preLayout postLayout lastExpandedShares =
     (let equalShare = 100 / of_nat (max 1 (length childIds));
          (pinned, restored, weights) =
            split_children childIds minimizedIds restoreIds preLayout postLayout lastExpandedShares
              equalShare ([], [], [])
      in if 0 < length weights
         then distributeLayout weights (fold (\<lambda>(i, pct). AList.update i pct) restored pinned)
         else distributeLayout restored pinned)"

section \<open>Association lists with distinct keys\<close>

lemma update_new: "k \<notin> fst ` set al \<Longrightarrow> AList.update k v al = al @ [(k, v)]"
  by (induction al) auto

lemma fold_update_new:
  assumes "distinct (map fst xs)" and "fst ` set xs \<inter> fst ` set acc = {}"
  shows "fold (\<lambda>(k, v). AList.update k (f v)) xs acc = acc @ map (\<lambda>(k, v). (k, f v)) xs"
  using assms
proof (induction xs arbitrary: acc)
  case (Cons x xs)
  obtain k v where x: "x = (k, v)" by (cases x)
  have new: "k \<notin> fst ` set acc" using Cons.prems(2) x by auto
  have "fst ` set xs \<inter> fst ` set (acc @ [(k, f v)]) = {}" using Cons.prems x by auto
  with Cons.IH [of "acc @ [(k, f v)]"] Cons.prems(1) show ?case by (simp add: x update_new [OF new])
qed simp

lemma map_pair_id: "map (\<lambda>(k, v). (k, v)) xs = xs"
  by (induction xs) auto

lemmas fold_update_id = fold_update_new [where f = "\<lambda>v. v", unfolded map_pair_id]

lemma fold_total: "fold (\<lambda>(i, w) total. total + g w) xs a = a + sum_list (map (\<lambda>e. g (snd e)) xs)"
  for a :: rat
  by (induction xs arbitrary: a) auto

definition weight_total :: "group_layout \<Rightarrow> rat" where
  "weight_total ws = sum_list (map (\<lambda>e. max 0 (snd e)) ws)"

text \<open>The share of an entry of the free panels.\<close>

definition share_of :: "group_layout \<Rightarrow> rat \<Rightarrow> rat \<Rightarrow> rat" where
  "share_of ws remaining weight =
     (if weight_total ws \<le> 0 then remaining / of_nat (length ws)
      else max 0 weight / weight_total ws * remaining)"

lemma distributeLayout_eq:
  assumes "distinct (map fst weights)" and "distinct (map fst pinned)"
  defines "free \<equiv> filter (\<lambda>e. fst e \<notin> fst ` set pinned) weights"
    and "remaining \<equiv> max 0 (100 - sum_list (map snd pinned))"
  shows "distributeLayout weights pinned = pinned @ map (\<lambda>(i, w). (i, share_of free remaining w)) free"
proof -
  have d: "distinct (map fst free)" using assms(1) by (simp add: free_def distinct_map_filter)
  have disj: "fst ` set free \<inter> fst ` set pinned = {}" by (auto simp: free_def)
  have pinned: "fold (\<lambda>(i, pct). AList.update i pct) pinned [] = pinned"
    using fold_update_id [OF assms(2), of "[]"] by simp
  show ?thesis
    using fold_update_new [OF d disj, of "\<lambda>_. remaining / of_nat (length free)"]
      fold_update_new [OF d disj, of "\<lambda>w. max 0 w / weight_total free * remaining"]
    by (simp add: distributeLayout_def Let_def pinned fold_total free_def [symmetric]
        remaining_def [symmetric] weight_total_def [symmetric] share_of_def)
qed

lemma weight_total_nonneg: "0 \<le> weight_total ws"
  unfolding weight_total_def by (induction ws) auto

lemma shares_sum:
  assumes "ws \<noteq> []"
  shows "sum_list (map (\<lambda>e. share_of ws remaining (snd e)) ws) = remaining"
proof (cases "weight_total ws \<le> 0")
  case True
  then have "sum_list (map (\<lambda>e. share_of ws remaining (snd e)) ws)
      = of_nat (length ws) * (remaining / of_nat (length ws))"
    by (simp add: share_of_def sum_list_triv)
  then show ?thesis using assms by simp
next
  case False
  have "sum_list (map (\<lambda>e. max 0 (snd e) / t * r) xs) = sum_list (map (\<lambda>e. max 0 (snd e)) xs) / t * r"
    for t r :: rat and xs :: group_layout
    by (induction xs) (simp_all add: add_divide_distrib distrib_right)
  then show ?thesis using False by (simp add: share_of_def weight_total_def [symmetric])
qed

lemma share_bounds:
  assumes "0 \<le> remaining" and "e \<in> set ws"
  shows "0 \<le> share_of ws remaining (snd e)" "share_of ws remaining (snd e) \<le> remaining"
proof -
  have nonneg: "0 \<le> share_of ws remaining (snd e)" for e
    using assms(1) weight_total_nonneg [of ws] by (simp add: share_of_def)
  then show "0 \<le> share_of ws remaining (snd e)" .
  have "share_of ws remaining (snd e) \<le> sum_list (map (\<lambda>e. share_of ws remaining (snd e)) ws)"
    using assms(2) nonneg by (intro member_le_sum_list) auto
  then show "share_of ws remaining (snd e) \<le> remaining"
    using shares_sum [of ws remaining] assms(2) by force
qed

section \<open>The target layout\<close>

lemma split_children_eq:
  assumes "distinct ids"
    and "fst ` (set p \<union> set q \<union> set w) \<inter> set ids = {}"
  shows "split_children ids minimized restore pre post lastShares d (p, q, w) =
    (p @ map (\<lambda>i. (i, or_share (map_of post i) (or_share (map_of pre i) d))) (filter (\<lambda>i. i \<in> minimized) ids),
     q @ map (\<lambda>i. (i, or_share (lastShares i) d)) (filter (\<lambda>i. i \<notin> minimized \<and> i \<in> restore) ids),
     w @ map (\<lambda>i. (i, or_share (map_of pre i) d)) (filter (\<lambda>i. i \<notin> minimized \<and> i \<notin> restore) ids))"
  using assms
proof (induction ids arbitrary: p q w)
  case (Cons i ids)
  have new: "i \<notin> fst ` set p" "i \<notin> fst ` set q" "i \<notin> fst ` set w" using Cons.prems(2) by auto
  have rest: "fst ` (set p \<union> set q \<union> set w) \<inter> set ids = {}" "i \<notin> set ids" "distinct ids"
    using Cons.prems by auto
  have ih: "fst ` (set p' \<union> set q' \<union> set w') \<inter> set ids = {} \<Longrightarrow>
    split_children ids minimized restore pre post lastShares d (p', q', w') =
    (p' @ map (\<lambda>i. (i, or_share (map_of post i) (or_share (map_of pre i) d))) (filter (\<lambda>i. i \<in> minimized) ids),
     q' @ map (\<lambda>i. (i, or_share (lastShares i) d)) (filter (\<lambda>i. i \<notin> minimized \<and> i \<in> restore) ids),
     w' @ map (\<lambda>i. (i, or_share (map_of pre i) d)) (filter (\<lambda>i. i \<notin> minimized \<and> i \<notin> restore) ids))" for p' q' w'
    by (rule Cons.IH [OF rest(3)])
  have more: "fst ` (set (p @ [(i, v)]) \<union> set q \<union> set w) \<inter> set ids = {}"
    "fst ` (set p \<union> set (q @ [(i, v)]) \<union> set w) \<inter> set ids = {}"
    "fst ` (set p \<union> set q \<union> set (w @ [(i, v)])) \<inter> set ids = {}" for v
    using rest by auto
  show ?case
  proof (cases "i \<in> minimized")
    case True
    then show ?thesis using ih [OF more(1)] by (simp add: update_new [OF new(1)])
  next
    case False
    then show ?thesis
      using ih [OF more(2)] ih [OF more(3)]
      by (cases "i \<in> restore") (simp_all add: update_new [OF new(2)] update_new [OF new(3)])
  qed
qed simp

lemma map_of_pairs: "i \<in> set ids \<Longrightarrow> map_of (map (\<lambda>i. (i, f i)) ids) i = Some (f i)"
  by (induction ids) auto

lemma map_fst_pairs [simp]: "map fst (map (\<lambda>i. (i, f i)) ids) = ids"
  by (induction ids) auto

text \<open>One panel is pinned, at its collapsed or at its remembered size.\<close>

lemma distribute_one:
  assumes "distinct ids" and "x \<notin> set ids" and "ids \<noteq> []"
    and "\<forall>i\<in>set ids. 0 \<le> f i" and "0 < sum_list (map f ids)" and "h \<le> 100"
  shows "distributeLayout (map (\<lambda>i. (i, f i)) ids) [(x, h)]
    = (x, h) # map (\<lambda>i. (i, f i / sum_list (map f ids) * (100 - h))) ids"
proof -
  let ?ws = "map (\<lambda>i. (i, f i)) ids"
  have free: "filter (\<lambda>e. fst e \<notin> fst ` set [(x, h)]) ?ws = ?ws"
    using assms(2) by (intro filter_True) auto
  have "map (\<lambda>e. max 0 (snd e)) ?ws = map f ids" using assms(4) by simp
  then have total: "weight_total ?ws = sum_list (map f ids)" unfolding weight_total_def by (simp only:)
  have "map (\<lambda>(i, w). (i, share_of ?ws (100 - h) w)) ?ws
      = map (\<lambda>i. (i, f i / sum_list (map f ids) * (100 - h))) ids"
    using assms(4,5) by (simp add: share_of_def total)
  moreover have "distributeLayout ?ws [(x, h)] =
      [(x, h)] @ map (\<lambda>(i, w). (i, share_of ?ws (max 0 (100 - sum_list (map snd [(x, h)]))) w)) ?ws"
    by (rule distributeLayout_eq [of ?ws "[(x, h)]", unfolded free])
      (use assms(1) in \<open>simp_all only: map_fst_pairs, simp\<close>)
  moreover have "max 0 (100 - sum_list (map snd [(x, h)])) = 100 - h" using assms(6) by simp
  ultimately show ?thesis by (simp only: append.simps)
qed

lemma filter_other: "x \<notin> set ids \<Longrightarrow> filter (\<lambda>i. i = x) ids = []" "x \<notin> set ids \<Longrightarrow> filter (\<lambda>i. i \<noteq> x) ids = ids"
  by (induction ids) auto

lemma filter_single: "distinct ids \<Longrightarrow> x \<in> set ids \<Longrightarrow> filter (\<lambda>i. i = x) ids = [x]"
  by (induction ids) (auto simp: filter_other)

lemma sum_scaled: "sum_list (map (\<lambda>i. f i / t * r) ids) = sum_list (map f ids) / t * (r :: rat)"
  by (induction ids) (simp_all add: add_divide_distrib distrib_right)

lemma sum_other:
  "distinct ids \<Longrightarrow> x \<in> set ids \<Longrightarrow>
     sum_list (map f (filter (\<lambda>i. i \<noteq> x) ids)) = sum_list (map f ids) - (f x :: rat)"
  by (induction ids) (auto simp: filter_other)

lemma minimize_one:
  assumes "distinct ids" and "x \<in> set ids"
    and "\<forall>i\<in>set ids. map_of pre i = Some (f i) \<and> 0 \<le> f i"
    and "map_of post x = Some h" and "h \<le> 100"
    and "f x < sum_list (map f ids)"
  shows "computeMinimizedTargetLayout ids {x} {} pre post lastShares =
    (x, h) # map (\<lambda>i. (i, f i / (sum_list (map f ids) - f x) * (100 - h))) (filter (\<lambda>i. i \<noteq> x) ids)"
proof -
  let ?others = "filter (\<lambda>i. i \<noteq> x) ids"
  have free: "map (\<lambda>i. (i, or_share (map_of pre i) d)) ?others = map (\<lambda>i. (i, f i)) ?others" for d
    using assms(3) by (auto simp: or_share_def)
  have total: "sum_list (map f ?others) = sum_list (map f ids) - f x"
    by (rule sum_other [OF assms(1,2)])
  then have ne: "?others \<noteq> []" using assms(6) by force
  have "computeMinimizedTargetLayout ids {x} {} pre post lastShares =
      distributeLayout (map (\<lambda>i. (i, f i)) ?others) [(x, h)]"
    unfolding computeMinimizedTargetLayout_def Let_def
    using ne by (simp add: split_children_eq [OF assms(1)] filter_single [OF assms(1,2)] free assms(4))
  also have "\<dots> = (x, h) # map (\<lambda>i. (i, f i / sum_list (map f ?others) * (100 - h))) ?others"
    by (rule distribute_one) (use ne assms total in auto)
  finally show ?thesis unfolding total .
qed

lemma restore_one:
  assumes "distinct ids" and "x \<in> set ids"
    and "\<forall>i\<in>set (filter (\<lambda>i. i \<noteq> x) ids). map_of pre i = Some (g i) \<and> 0 \<le> g i"
    and "lastShares x = Some v" and "v \<le> 100" and "0 < sum_list (map g (filter (\<lambda>i. i \<noteq> x) ids))"
  shows "computeMinimizedTargetLayout ids {} {x} pre post lastShares =
    (x, v) # map (\<lambda>i. (i, g i / sum_list (map g (filter (\<lambda>i. i \<noteq> x) ids)) * (100 - v)))
      (filter (\<lambda>i. i \<noteq> x) ids)"
proof -
  let ?others = "filter (\<lambda>i. i \<noteq> x) ids"
  have free: "map (\<lambda>i. (i, or_share (map_of pre i) d)) ?others = map (\<lambda>i. (i, g i)) ?others" for d
    using assms(3) by (auto simp: or_share_def)
  have ne: "?others \<noteq> []" using assms(6) by force
  have "computeMinimizedTargetLayout ids {} {x} pre post lastShares =
      distributeLayout (map (\<lambda>i. (i, g i)) ?others) [(x, v)]"
    unfolding computeMinimizedTargetLayout_def Let_def
    using ne by (simp add: split_children_eq [OF assms(1)] filter_single [OF assms(1,2)] free assms(4))
  also have "\<dots> = (x, v) # map (\<lambda>i. (i, g i / sum_list (map g ?others) * (100 - v))) ?others"
    by (rule distribute_one) (use ne assms in auto)
  finally show ?thesis .
qed

lemma minimize_restore:
  assumes "distinct ids" and "x \<in> set ids"
    and "\<forall>i\<in>set ids. map_of pre i = Some (f i) \<and> 0 \<le> f i" and "sum_list (map f ids) = 100"
    and "f x < 100" and "map_of post x = Some h" and "h < 100" and "lastShares x = Some (f x)"
    and "i \<in> set ids"
  shows "map_of (computeMinimizedTargetLayout ids {} {x}
    (computeMinimizedTargetLayout ids {x} {} pre post shares) post' lastShares) i = Some (f i)"
proof -
  let ?others = "filter (\<lambda>i. i \<noteq> x) ids"
  let ?g = "\<lambda>i. f i / (100 - f x) * (100 - h)"
  let ?min = "(x, h) # map (\<lambda>i. (i, ?g i)) ?others"
  have min: "computeMinimizedTargetLayout ids {x} {} pre post shares = ?min"
    using minimize_one [OF assms(1-3,6), of shares] assms(4,5,7) by simp
  have pos: "0 < 100 - f x" "0 < 100 - h" using assms(5,7) by simp_all
  have "\<forall>i\<in>set ?others. map_of ?min i = Some (?g i) \<and> 0 \<le> ?g i"
  proof
    fix i assume i: "i \<in> set ?others"
    then have "0 \<le> f i" using assms(3) by simp
    have "map_of ?min i = Some (?g i)" using i map_of_pairs [of i ?others ?g] by simp
    moreover from \<open>0 \<le> f i\<close> have "0 \<le> ?g i" using pos by simp
    ultimately show "map_of ?min i = Some (?g i) \<and> 0 \<le> ?g i" ..
  qed
  moreover have sum: "sum_list (map ?g ?others) = 100 - h"
    unfolding sum_scaled sum_other [OF assms(1,2)] assms(4) using pos by simp
  ultimately have "computeMinimizedTargetLayout ids {} {x} ?min post' lastShares =
      (x, f x) # map (\<lambda>i. (i, ?g i / (100 - h) * (100 - f x))) ?others"
    using restore_one [of ids x ?min ?g lastShares "f x" post'] assms(1,2,5,8) pos by simp
  moreover have "?g i / (100 - h) * (100 - f x) = f i" using pos by simp
  ultimately show ?thesis
    unfolding min using assms(9) map_of_pairs [of i ?others "\<lambda>i. ?g i / (100 - h) * (100 - f x)"]
    by (cases "i = x") simp_all
qed

end
