(* ===== verification/Respawn.thy ===== *)
theory Respawn
  imports Repair_Facts
begin

text \<open>
  \<open>apps/web/src/panels/reconcile-spawn.ts\<close>: retrying a spawn while the server initialises,
  respawning the stale terminals of a layout one after the other, and the guard against
  concurrent spawns for one pane. How the \<open>n\<close>-th call of the spawn function settles is the
  environment \<open>spawn n\<close>; a call that never settles and has no timeout is outside the model.
  The delays slept are collected in a list.
\<close>

datatype 'a outcome =
    Resolved 'a
  | RejectedError string
  | RejectedOther
  | TimedOut

record retry_options =
  ro_baseDelayMs :: "rat option"
  ro_maxRetries :: "nat option"

fun js_includes :: "string \<Rightarrow> string \<Rightarrow> bool" where
  "js_includes needle [] = (needle = [])"
| "js_includes needle (c # cs) =
     (take (length needle) (c # cs) = needle \<or> js_includes needle cs)"

definition isInitializing :: "'a outcome \<Rightarrow> bool" where
  "isInitializing r = (case r of RejectedError message \<Rightarrow> js_includes ''still initializing'' message | _ \<Rightarrow> False)"

text \<open>The loop: the result, the number of calls made so far, and the delays slept so far.\<close>

function retry_loop ::
    "(nat \<Rightarrow> 'a outcome) \<Rightarrow> nat \<Rightarrow> rat \<Rightarrow> nat \<Rightarrow> nat \<times> rat list \<Rightarrow> 'a option \<times> nat \<times> rat list" where
  "retry_loop fn maxRetries baseDelayMs attempt (calls, delays) =
     (if maxRetries < attempt then (None, calls, delays)
      else
        (case fn calls of
           Resolved v \<Rightarrow> (Some v, Suc calls, delays)
         | r \<Rightarrow>
             if isInitializing r \<and> attempt < maxRetries
             then retry_loop fn maxRetries baseDelayMs (Suc attempt)
                    (Suc calls, delays @ [baseDelayMs * 2 ^ attempt])
             else (None, Suc calls, delays)))"
  by pat_completeness auto
termination
  by (relation "measure (\<lambda>(fn, maxRetries, baseDelayMs, attempt, acc). Suc maxRetries - attempt)") auto

declare retry_loop.simps [simp del]

definition retryOnInitializing ::
    "(nat \<Rightarrow> 'a outcome) \<Rightarrow> retry_options \<Rightarrow> nat \<times> rat list \<Rightarrow> 'a option \<times> nat \<times> rat list" where
  "retryOnInitializing fn options acc =
     (let maxRetries = (case ro_maxRetries options of Some n \<Rightarrow> n | None \<Rightarrow> 5);
          baseDelayMs = (case ro_baseDelayMs options of Some d \<Rightarrow> d | None \<Rightarrow> 500)
      in retry_loop fn maxRetries baseDelayMs 0 acc)"

record spawn_result =
  sr_command :: string
  sr_id :: string
  sr_status :: string

record spawn_payload =
  sp_command :: "string option"
  sp_workspaceId :: string

definition spawnWithRetry ::
    "spawn_payload \<Rightarrow> (nat \<Rightarrow> spawn_payload \<Rightarrow> spawn_result outcome) \<Rightarrow> retry_options \<Rightarrow> nat \<times> rat list
      \<Rightarrow> spawn_result option \<times> nat \<times> rat list" where
  "spawnWithRetry payload spawn options acc = retryOnInitializing (\<lambda>n. spawn n payload) options acc"

section \<open>Respawning stale terminals\<close>

record respawn_state =
  rs_respawnedIds :: "string \<rightharpoonup> string"
  rs_failedStaleIds :: "string list"
  rs_spawned :: "(spawn_result \<times> string) list"
  rs_calls :: nat
  rs_delays :: "rat list"

definition respawn_leaf ::
    "(nat \<Rightarrow> spawn_payload \<Rightarrow> spawn_result outcome) \<Rightarrow> retry_options \<Rightarrow> stale_terminal_leaf
      \<Rightarrow> respawn_state \<Rightarrow> respawn_state" where
  "respawn_leaf spawn options leaf s =
     (case stale_workspaceId leaf of
        None \<Rightarrow> s
      | Some wsId \<Rightarrow>
          if wsId = [] \<or> stale_terminalId leaf = [] then s
          else
            (case spawnWithRetry \<lparr>sp_command = stale_command leaf, sp_workspaceId = wsId\<rparr> spawn options
                    (rs_calls s, rs_delays s) of
               (Some result, calls, delays) \<Rightarrow>
                 s\<lparr>rs_respawnedIds := (rs_respawnedIds s)(stale_terminalId leaf \<mapsto> sr_id result),
                   rs_spawned := rs_spawned s @ [(result, wsId)],
                   rs_calls := calls, rs_delays := delays\<rparr>
             | (None, calls, delays) \<Rightarrow>
                 s\<lparr>rs_failedStaleIds := rs_failedStaleIds s @ [stale_terminalId leaf],
                   rs_calls := calls, rs_delays := delays\<rparr>))"

definition respawn_start :: respawn_state where
  "respawn_start = \<lparr>rs_respawnedIds = Map.empty, rs_failedStaleIds = [], rs_spawned = [],
     rs_calls = 0, rs_delays = []\<rparr>"

text \<open>What is given to \<open>commitReconciledLayouts\<close>, with the final local state.\<close>

definition respawnStaleTerminals ::
    "(nat \<Rightarrow> spawn_payload \<Rightarrow> spawn_result outcome) \<Rightarrow> retry_options \<Rightarrow> string set
      \<Rightarrow> stale_terminal_leaf list \<Rightarrow> string set \<times> (string \<rightharpoonup> string) \<times> respawn_state" where
  "respawnStaleTerminals spawn options liveIds staleLeaves =
     (let s = fold (respawn_leaf spawn options) staleLeaves respawn_start;
          effectiveLiveIds =
            (if 0 < length (rs_failedStaleIds s) then liveIds \<union> set (rs_failedStaleIds s) else liveIds)
      in (effectiveLiveIds, rs_respawnedIds s, s))"

section \<open>The spawn guard\<close>

record spawn_guard =
  sg_inFlight :: "string list"
  sg_cancelled :: "string list"

definition createSpawnGuard :: spawn_guard where
  "createSpawnGuard = \<lparr>sg_inFlight = [], sg_cancelled = []\<rparr>"

definition cancel_spawn :: "string \<Rightarrow> spawn_guard \<Rightarrow> spawn_guard" where
  "cancel_spawn key g = g\<lparr>sg_cancelled := List.insert key (sg_cancelled g)\<rparr>"

definition isCancelled :: "string \<Rightarrow> spawn_guard \<Rightarrow> bool" where
  "isCancelled key g \<longleftrightarrow> key \<in> set (sg_cancelled g)"

definition isSpawning :: "string \<Rightarrow> spawn_guard \<Rightarrow> bool" where
  "isSpawning key g \<longleftrightarrow> key \<in> set (sg_inFlight g)"

text \<open>\<open>run\<close> up to the await (whether \<open>fn\<close> was called), and its \<open>finally\<close> block.\<close>

definition run_begins :: "string \<Rightarrow> spawn_guard \<Rightarrow> bool \<times> spawn_guard" where
  "run_begins key g =
     (if key \<in> set (sg_inFlight g) then (False, g)
      else (True, g\<lparr>sg_cancelled := removeAll key (sg_cancelled g), sg_inFlight := key # sg_inFlight g\<rparr>))"

definition run_settles :: "string \<Rightarrow> spawn_guard \<Rightarrow> spawn_guard" where
  "run_settles key g = g\<lparr>sg_inFlight := removeAll key (sg_inFlight g)\<rparr>"

section \<open>Bounds\<close>

definition max_retries :: "retry_options \<Rightarrow> nat" where
  "max_retries options = (case ro_maxRetries options of Some n \<Rightarrow> n | None \<Rightarrow> 5)"

definition base_delay :: "retry_options \<Rightarrow> rat" where
  "base_delay options = (case ro_baseDelayMs options of Some d \<Rightarrow> d | None \<Rightarrow> 500)"

lemma retry_loop_bounds:
  assumes "attempt \<le> maxRetries"
    and "retry_loop fn maxRetries base attempt (calls, delays) = (r, calls', delays')"
  shows "\<exists>k. attempt + k \<le> maxRetries \<and> calls' = calls + Suc k \<and>
    delays' = delays @ map (\<lambda>i. base * 2 ^ i) [attempt..<attempt + k]"
  using assms
proof (induction "maxRetries - attempt" arbitrary: attempt calls delays)
  case 0
  then have "\<not> attempt < maxRetries" by simp
  with 0 retry_loop.simps [of fn maxRetries base attempt calls delays] show ?case
    by (intro exI [of _ 0]) (auto split: outcome.splits)
next
  case (Suc n)
  show ?case
  proof (cases "(\<exists>v. fn calls = Resolved v) \<or> \<not> isInitializing (fn calls)")
    case True
    then show ?thesis
      using Suc.prems retry_loop.simps [of fn maxRetries base attempt calls delays]
      by (intro exI [of _ 0]) (auto split: outcome.splits)
  next
    case False
    then have rec: "retry_loop fn maxRetries base (Suc attempt) (Suc calls, delays @ [base * 2 ^ attempt])
        = (r, calls', delays')"
      using Suc.prems Suc.hyps(2) retry_loop.simps [of fn maxRetries base attempt calls delays]
      by (auto split: outcome.splits if_splits)
    have "n = maxRetries - Suc attempt" "Suc attempt \<le> maxRetries" using Suc.hyps(2) by linarith+
    from Suc.hyps(1) [OF this rec]
    obtain k where k: "Suc attempt + k \<le> maxRetries" "calls' = Suc calls + Suc k"
      "delays' = (delays @ [base * 2 ^ attempt]) @ map (\<lambda>i. base * 2 ^ i) [Suc attempt..<Suc attempt + k]"
      by blast
    then show ?thesis by (intro exI [of _ "Suc k"]) (simp add: upt_conv_Cons)
  qed
qed

lemma geometric_delays: "sum_list (map (\<lambda>i. base * 2 ^ i) [0..<k]) = base * (2 ^ k - (1::rat))"
  by (induction k) (simp_all add: algebra_simps)

lemma retryOnInitializing_bounds:
  assumes "retryOnInitializing fn options (calls, delays) = (r, calls', delays')"
  shows "\<exists>k\<le>max_retries options. calls' = calls + Suc k \<and>
    delays' = delays @ map (\<lambda>i. base_delay options * 2 ^ i) [0..<k]"
  using retry_loop_bounds [of 0 "max_retries options" fn "base_delay options" calls delays r calls' delays'] assms
  by (auto simp: retryOnInitializing_def max_retries_def base_delay_def)

lemma respawn_leaf_calls:
  "rs_calls (respawn_leaf spawn options leaf s) \<le> rs_calls s + Suc (max_retries options)"
proof -
  have "c' \<le> c + Suc (max_retries options)"
    if "spawnWithRetry p spawn options (c, d) = (r, c', d')" for p c d r c' d'
    using retryOnInitializing_bounds [of "\<lambda>n. spawn n p" options c d r c' d'] that
    by (auto simp: spawnWithRetry_def)
  then show ?thesis
    by (auto simp: respawn_leaf_def split: option.splits prod.splits)
qed

lemma respawn_calls:
  "rs_calls (fold (respawn_leaf spawn options) leaves s)
     \<le> rs_calls s + length leaves * Suc (max_retries options)"
proof (induction leaves arbitrary: s)
  case (Cons leaf leaves)
  have "rs_calls (fold (respawn_leaf spawn options) leaves (respawn_leaf spawn options leaf s))
      \<le> rs_calls (respawn_leaf spawn options leaf s) + length leaves * Suc (max_retries options)"
    by (rule Cons.IH)
  with respawn_leaf_calls [of spawn options leaf s] show ?case by simp
qed simp

section \<open>Which ids are settled\<close>

text \<open>A stale leaf that is respawned at all ends among the respawned or the failed ids.\<close>

definition respawnable :: "stale_terminal_leaf \<Rightarrow> bool" where
  "respawnable leaf \<longleftrightarrow> truthy (stale_workspaceId leaf) \<and> stale_terminalId leaf \<noteq> []"

definition handled :: "respawn_state \<Rightarrow> string \<Rightarrow> bool" where
  "handled s t \<longleftrightarrow> rs_respawnedIds s t \<noteq> None \<or> t \<in> set (rs_failedStaleIds s)"

lemma respawn_leaf_handled:
  "handled s t \<Longrightarrow> handled (respawn_leaf spawn options leaf s) t"
  "respawnable leaf \<Longrightarrow> handled (respawn_leaf spawn options leaf s) (stale_terminalId leaf)"
  by (auto simp: handled_def respawn_leaf_def respawnable_def truthy_def split: option.splits prod.splits)

lemma respawn_handled_mono:
  "handled s t \<Longrightarrow> handled (fold (respawn_leaf spawn options) leaves s) t"
  by (induction leaves arbitrary: s) (simp_all add: respawn_leaf_handled)

lemma respawn_handles:
  "leaf \<in> set leaves \<Longrightarrow> respawnable leaf \<Longrightarrow>
     handled (fold (respawn_leaf spawn options) leaves s) (stale_terminalId leaf)"
proof (induction leaves arbitrary: s)
  case (Cons x xs)
  then show ?case
    by (cases "leaf = x") (auto intro: respawn_handled_mono respawn_leaf_handled)
qed simp

text \<open>Every respawned id was returned by a spawn.\<close>

definition ids_spawned :: "respawn_state \<Rightarrow> bool" where
  "ids_spawned s \<longleftrightarrow> ran (rs_respawnedIds s) \<subseteq> (\<lambda>e. sr_id (fst e)) ` set (rs_spawned s)"

lemma respawn_leaf_ids: "ids_spawned s \<Longrightarrow> ids_spawned (respawn_leaf spawn options leaf s)"
  by (auto simp: ids_spawned_def respawn_leaf_def ran_def split: option.splits prod.splits if_splits)

lemma respawn_ids: "ids_spawned s \<Longrightarrow> ids_spawned (fold (respawn_leaf spawn options) leaves s)"
  by (induction leaves arbitrary: s) (simp_all add: respawn_leaf_ids)

lemma respawn_start_simps [simp]:
  "ids_spawned respawn_start" "rs_calls respawn_start = 0" "\<not> handled respawn_start t"
  by (simp_all add: ids_spawned_def respawn_start_def handled_def)

section \<open>Respawning and reconciling\<close>

lemma stale_of_respawnable:
  "is_stale live l \<Longrightarrow> respawnable (stale_of l) \<longleftrightarrow> truthy (leaf_workspaceId l) \<and> truthy (leaf_terminalId l)"
  by (auto simp: respawnable_def stale_of_def is_stale_def split: option.splits)

lemma respawned_pane:
  assumes "respawnStaleTerminals spawn options live (getStaleTerminalLeavesHierarchical layout live)
      = (live', respawned, s)"
    and "l \<in> set (window_panes layout)" and "is_stale live l"
    and "truthy (leaf_workspaceId l)" and "truthy (leaf_terminalId l)"
  shows "leaf_terminalId (reconcile_leaf live' respawned l) =
    (if the (leaf_terminalId l) \<in> set (rs_failedStaleIds s) then leaf_terminalId l
     else respawned (the (leaf_terminalId l))) \<and>
    leaf_terminalId (reconcile_leaf live' respawned l) \<noteq> None"
proof -
  let ?stale = "getStaleTerminalLeavesHierarchical layout live"
  have s: "s = fold (respawn_leaf spawn options) ?stale respawn_start"
    "respawned = rs_respawnedIds s" "live' = live \<union> set (rs_failedStaleIds s)"
    using assms(1) by (auto simp: respawnStaleTerminals_def Let_def split: if_splits)
  have "stale_of l \<in> set ?stale" using assms(2,3) by (simp add: stale_window)
  then have "handled s (stale_terminalId (stale_of l))"
    using respawn_handles stale_of_respawnable [OF assms(3)] assms(4,5) s(1) by blast
  then show ?thesis
    using assms(3) by (auto simp: handled_def stale_of_def reconcile_leaf_def is_stale_def s(2,3)
        split: option.splits)
qed

lemma live_pane: 
  assumes "respawnStaleTerminals spawn options live stale = (live', respawned, s)" and "\<not> is_stale live l"
  shows "reconcile_leaf live' respawned l = l"
proof -
  have "live \<subseteq> live'"
    using assms(1) by (auto simp: respawnStaleTerminals_def Let_def split: if_splits)
  then show ?thesis using assms(2) by (auto simp: reconcile_leaf_def is_stale_def split: option.splits)
qed

section \<open>Facts on the guard\<close>

text \<open>No second spawn starts while one is in flight, and a cancellation outlives the spawn.\<close>

lemma guard_in_flight:
  assumes "run_begins key g = (True, g1)"
  shows "isSpawning key g1" "\<not> isCancelled key g1" "run_begins key g1 = (False, g1)"
    "isCancelled key (run_settles key (cancel_spawn key g1))"
    "\<not> isSpawning key (run_settles key (cancel_spawn key g1))"
  using assms
  by (auto simp: run_begins_def isSpawning_def isCancelled_def run_settles_def cancel_spawn_def
      split: if_splits)

end
