(* ===== verification/Pr_Markers.thy ===== *)
theory Pr_Markers
  imports Id_Gen "HOL-Library.Sublist"
begin

text \<open>
  Progress markers in the body of a pull request, \<open>.sandcastle/spec-pr-progress/index.ts\<close>, and
  the marker parser of \<open>.sandcastle/issue-graph-scheduler/index.ts\<close>. A global regular expression
  is a matcher, which gives the captured groups and the length of a match at the start of a
  string, scanned from left to right without overlaps. Both patterns are deterministic: the
  greedy character classes are followed by a character outside them. An exception is \<open>Inl\<close>.
\<close>

datatype marker_error =
    InvalidIssueNumber
  | InvalidCommitSha
  | AmbiguousReviewedHead
  | DuplicateDescendants
  | RootIsDescendant
  | WrongPullRequestTarget

definition is_hex :: "char \<Rightarrow> bool" where
  "is_hex c \<longleftrightarrow> c \<in> set ''0123456789abcdef''"

definition is_digit :: "char \<Rightarrow> bool" where
  "is_digit c \<longleftrightarrow> c \<in> set ''0123456789''"

text \<open>White space of \<open>trimEnd\<close> among the characters of code below 256.\<close>

definition js_space :: "char \<Rightarrow> bool" where
  "js_space c \<longleftrightarrow> c \<in> set [CHR 0x09, CHR 0x0A, CHR 0x0B, CHR 0x0C, CHR 0x0D, CHR '' '', CHR 0xA0]"

definition trimEnd :: "string \<Rightarrow> string" where
  "trimEnd s = rev (dropWhile js_space (rev s))"

definition newline :: char where "newline = CHR 0x0A"

fun join_lines :: "string list \<Rightarrow> string" where
  "join_lines [] = []"
| "join_lines [l] = l"
| "join_lines (l # m # ls) = l @ newline # join_lines (m # ls)"

fun js_contains :: "string \<Rightarrow> string \<Rightarrow> bool" where
  "js_contains [] needle = (needle = [])"
| "js_contains (c # cs) needle = (prefix needle (c # cs) \<or> js_contains cs needle)"

section \<open>Matchers\<close>

text \<open>\<open>[0-9a-f]{40,64} -->\<close>\<close>

definition match_sha_end :: "string \<Rightarrow> (string \<times> nat) option" where
  "match_sha_end s =
     (let h = takeWhile is_hex s
      in if 40 \<le> length h \<and> length h \<le> 64 \<and> prefix '' -->'' (drop (length h) s)
         then Some (h, length h + 4) else None)"

definition reviewed_prefix :: string where
  "reviewed_prefix = ''<!-- sandcastle-reviewed-head:@''"

definition match_reviewed :: "string \<Rightarrow> (string \<times> nat) option" where
  "match_reviewed s =
     (if prefix reviewed_prefix s
      then map_option (\<lambda>(h, n). (h, length reviewed_prefix + n))
             (match_sha_end (drop (length reviewed_prefix) s))
      else None)"

definition implemented_prefix :: string where
  "implemented_prefix = ''<!-- sandcastle-implemented:#''"

definition match_implemented :: "string \<Rightarrow> ((string \<times> string) \<times> nat) option" where
  "match_implemented s =
     (if prefix implemented_prefix s
      then
        (let r = drop (length implemented_prefix) s; ds = takeWhile is_digit r
         in if ds \<noteq> [] \<and> hd ds \<noteq> CHR ''0'' \<and> prefix ''@'' (drop (length ds) r)
            then map_option (\<lambda>(h, n). ((ds, h), length implemented_prefix + length ds + 1 + n))
                   (match_sha_end (drop (length ds + 1) r))
            else None)
      else None)"

text \<open>\<open>matchAll\<close> (the captured groups) and \<open>replaceAll(pattern, "")\<close>.\<close>

function match_all :: "(string \<Rightarrow> ('a \<times> nat) option) \<Rightarrow> string \<Rightarrow> 'a list" where
  "match_all m [] = []"
| "match_all m (c # cs) =
     (case m (c # cs) of
        Some (groups, n) \<Rightarrow> groups # match_all m (drop (n - 1) cs)
      | None \<Rightarrow> match_all m cs)"
  by pat_completeness auto
termination by (relation "measure (\<lambda>(m, s). length s)") auto

function remove_all :: "(string \<Rightarrow> ('a \<times> nat) option) \<Rightarrow> string \<Rightarrow> string" where
  "remove_all m [] = []"
| "remove_all m (c # cs) =
     (case m (c # cs) of
        Some (groups, n) \<Rightarrow> remove_all m (drop (n - 1) cs)
      | None \<Rightarrow> c # remove_all m cs)"
  by pat_completeness auto
termination by (relation "measure (\<lambda>(m, s). length s)") auto

section \<open>Writing markers\<close>

definition max_safe_integer :: int where "max_safe_integer = 9007199254740991"

definition issueNumber :: "int \<Rightarrow> marker_error + nat" where
  "issueNumber v = (if v \<le> max_safe_integer \<and> 0 < v then Inr (nat v) else Inl InvalidIssueNumber)"

definition commitSha :: "string \<Rightarrow> marker_error + string" where
  "commitSha v =
     (if 40 \<le> length v \<and> length v \<le> 64 \<and> list_all is_hex v then Inr v else Inl InvalidCommitSha)"

definition bind_error :: "'e + 'a \<Rightarrow> ('a \<Rightarrow> 'e + 'b) \<Rightarrow> 'e + 'b" where
  "bind_error r f = (case r of Inl e \<Rightarrow> Inl e | Inr v \<Rightarrow> f v)"

lemma bind_error_simps [simp]: "bind_error (Inl e) f = Inl e" "bind_error (Inr v) f = f v"
  by (simp_all add: bind_error_def)

definition PRE_PUBLISH_REVIEW_MARKER :: string where
  "PRE_PUBLISH_REVIEW_MARKER = ''<!-- sandcastle-pre-publish-review-complete -->''"

definition implementationMarker :: "int \<Rightarrow> string \<Rightarrow> marker_error + string" where
  "implementationMarker v headSha =
     bind_error (issueNumber v) (\<lambda>n. bind_error (commitSha headSha) (\<lambda>sha.
       Inr (''<!-- sandcastle-implemented:#'' @ nat_string n @ ''@'' @ sha @ '' -->'')))"

definition reviewedHeadMarker :: "string \<Rightarrow> marker_error + string" where
  "reviewedHeadMarker headSha =
     bind_error (commitSha headSha) (\<lambda>sha. Inr (''<!-- sandcastle-reviewed-head:@'' @ sha @ '' -->''))"

definition reviewedHeadFromBody :: "string \<Rightarrow> marker_error + string option" where
  "reviewedHeadFromBody body =
     (let ms = match_all match_reviewed body
      in if 1 < length ms then Inl AmbiguousReviewedHead
         else Inr (case ms of [] \<Rightarrow> None | sha # _ \<Rightarrow> Some sha))"

definition recordReviewedHead :: "string \<Rightarrow> string \<Rightarrow> marker_error + string" where
  "recordReviewedHead body headSha =
     (let withoutExisting = trimEnd (remove_all match_reviewed body)
      in bind_error (reviewedHeadMarker headSha) (\<lambda>marker.
           Inr (join_lines [withoutExisting, '''', marker])))"

definition createSpecPullRequestBody :: "int \<Rightarrow> int \<Rightarrow> string \<Rightarrow> marker_error + string" where
  "createSpecPullRequestBody rootIssueNumber implementedLeafNumber acceptedHeadSha =
     bind_error (issueNumber rootIssueNumber) (\<lambda>root.
       bind_error (implementationMarker implementedLeafNumber acceptedHeadSha) (\<lambda>marker.
         Inr (join_lines
           [''Implements the descendant issues of #'' @ nat_string root @ '' on one cumulative branch.'',
            '''', ''Tracks #'' @ nat_string root, '''', PRE_PUBLISH_REVIEW_MARKER, marker])))"

definition appendSpecProgress :: "string \<Rightarrow> int \<Rightarrow> int \<Rightarrow> string \<Rightarrow> marker_error + string" where
  "appendSpecProgress body rootIssueNumber implementedLeafNumber acceptedHeadSha =
     bind_error (issueNumber rootIssueNumber) (\<lambda>root.
       bind_error (implementationMarker implementedLeafNumber acceptedHeadSha) (\<lambda>marker.
         (let rootReference = ''Tracks #'' @ nat_string root;
              baseBody = (if js_contains body marker then body
                          else trimEnd (remove_all match_reviewed body));
              additions = filter (\<lambda>v. \<not> js_contains baseBody v)
                            [rootReference, PRE_PUBLISH_REVIEW_MARKER, marker]
          in Inr (if additions = [] then baseBody
                  else join_lines ([trimEnd baseBody, ''''] @ additions)))))"

fun map_error :: "('a \<Rightarrow> 'e + 'b) \<Rightarrow> 'a list \<Rightarrow> 'e + 'b list" where
  "map_error f [] = Inr []"
| "map_error f (x # xs) = bind_error (f x) (\<lambda>y. bind_error (map_error f xs) (\<lambda>ys. Inr (y # ys)))"

definition specClosureOrder :: "int list \<Rightarrow> int \<Rightarrow> marker_error + nat list" where
  "specClosureOrder descendantIssueNumbers rootIssueNumber =
     bind_error (issueNumber rootIssueNumber) (\<lambda>root.
       bind_error (map_error issueNumber descendantIssueNumbers) (\<lambda>descendants.
         if card (set descendants) \<noteq> length descendants then Inl DuplicateDescendants
         else if root \<in> set descendants then Inl RootIsDescendant
         else Inr (rev descendants @ [root])))"

definition assertPullRequestTargets :: "string \<Rightarrow> string \<Rightarrow> bool \<Rightarrow> string \<Rightarrow> string \<Rightarrow> marker_error + unit" where
  "assertPullRequestTargets baseRefName headRefName isCrossRepository expectedBase expectedHead =
     (if baseRefName \<noteq> expectedBase \<or> headRefName \<noteq> expectedHead \<or> isCrossRepository
      then Inl WrongPullRequestTarget else Inr ())"

section \<open>Matching written markers\<close>

lemma is_hex_chars [simp]: "\<not> is_hex (CHR '' '')" "\<not> is_hex newline"
  by (simp_all add: is_hex_def newline_def)

lemma is_digit_at [simp]: "\<not> is_digit (CHR ''@'')" "\<not> is_digit newline"
  by (simp_all add: is_digit_def newline_def)

lemma digit_char_is_digit:
  assumes "d < 10"
  shows "is_digit (digit_char d)"
proof -
  have "list_all (\<lambda>d. is_digit (digit_char d)) [0..<10]" by code_simp
  with assms show ?thesis by (simp add: list_all_iff)
qed

lemma nat_string_digits: "list_all is_digit (nat_string n)"
proof (induction n rule: nat_string.induct)
  case (1 n)
  then show ?case by (cases "n < 10") (simp_all add: nat_string.simps [of n] digit_char_is_digit)
qed

lemma nat_string_hd: "0 < n \<Longrightarrow> hd (nat_string n) \<noteq> CHR ''0''"
proof (induction n rule: nat_string.induct)
  case (1 n)
  show ?case
  proof (cases "n < 10")
    case True
    have "of_char (digit_char n) \<noteq> (of_char (CHR ''0'') :: nat)"
      using True 1(2) by (simp add: of_digit_char)
    then have "digit_char n \<noteq> CHR ''0''" by metis
    then show ?thesis using True by (simp add: nat_string.simps [of n])
  next
    case False
    then have "hd (nat_string (n div 10)) \<noteq> CHR ''0''" using 1(1) by simp
    then show ?thesis using False by (simp add: nat_string.simps [of n] nat_string_nonempty)
  qed
qed

lemma takeWhile_all: "list_all P xs \<Longrightarrow> \<not> P y \<Longrightarrow> takeWhile P (xs @ y # ys) = xs"
  by (induction xs) auto

lemma match_sha_end_marker:
  assumes "commitSha sha = Inr v"
  shows "match_sha_end (sha @ '' -->'' @ t) = Some (sha, length sha + 4)"
proof -
  have "takeWhile is_hex (sha @ '' -->'' @ t) = sha"
    using takeWhile_all [of is_hex sha "CHR '' ''" "''-->'' @ t"] assms
    by (simp add: commitSha_def split: if_splits)
  then show ?thesis
    using assms by (simp add: match_sha_end_def commitSha_def split: if_splits)
qed

lemma reviewedHeadMarker_Inr:
  "reviewedHeadMarker sha = Inr marker \<Longrightarrow>
     commitSha sha = Inr sha \<and> marker = reviewed_prefix @ sha @ '' -->''"
  by (auto simp: reviewedHeadMarker_def commitSha_def reviewed_prefix_def split: if_splits)

lemma match_reviewed_marker:
  assumes "reviewedHeadMarker sha = Inr marker"
  shows "match_reviewed (marker @ t) = Some (sha, length marker)"
  using reviewedHeadMarker_Inr [OF assms] match_sha_end_marker [of sha sha t]
  by (simp add: match_reviewed_def)

lemma implementationMarker_Inr:
  "implementationMarker n sha = Inr marker \<Longrightarrow>
     commitSha sha = Inr sha \<and> 0 < nat n \<and> n \<le> max_safe_integer \<and>
     marker = implemented_prefix @ nat_string (nat n) @ ''@'' @ sha @ '' -->''"
  by (auto simp: implementationMarker_def issueNumber_def commitSha_def implemented_prefix_def
      split: if_splits)

lemma match_implemented_marker:
  assumes "implementationMarker n sha = Inr marker"
  shows "match_implemented (marker @ t) = Some ((nat_string (nat n), sha), length marker)"
proof -
  let ?ds = "nat_string (nat n)"
  have m: "commitSha sha = Inr sha" "0 < nat n" "marker = implemented_prefix @ ?ds @ ''@'' @ sha @ '' -->''"
    using implementationMarker_Inr [OF assms] by auto
  have "takeWhile is_digit (?ds @ CHR ''@'' # sha @ '' -->'' @ t) = ?ds"
    by (rule takeWhile_all) (simp_all add: nat_string_digits)
  moreover have "?ds \<noteq> []" "hd ?ds \<noteq> CHR ''0''"
    using m(2) by (simp_all add: nat_string_nonempty nat_string_hd)
  ultimately show ?thesis
    using match_sha_end_marker [OF m(1), of t] by (simp add: match_implemented_def m(3) Let_def)
qed

section \<open>Markers on lines of their own\<close>

text \<open>No match reaches over the end of a line.\<close>

lemma prefix_line: "newline \<notin> set p \<Longrightarrow> prefix p (s @ newline # t) \<longleftrightarrow> prefix p s"
proof
  assume n: "newline \<notin> set p" and "prefix p (s @ newline # t)"
  then consider "prefix p s" | us where "p = s @ us" "prefix us (newline # t)" by (auto simp: prefix_append)
  then show "prefix p s"
  proof cases
    case (2 us)
    then have "us = []" using n by (cases us) auto
    with 2(1) show ?thesis by simp
  qed
qed (simp add: prefix_append)

lemma takeWhile_line: "\<not> P newline \<Longrightarrow> takeWhile P (s @ newline # t) = takeWhile P s"
  by (induction s) auto

lemma drop_takeWhile_line:
  "\<not> P newline \<Longrightarrow> drop (length (takeWhile P s)) (s @ newline # t) = drop (length (takeWhile P s)) s @ newline # t"
  using length_takeWhile_le [of P s] by simp

lemma newline_tail: "newline \<notin> set '' -->''"
  by (simp add: newline_def)

lemma match_sha_end_line: "match_sha_end (s @ newline # t) = match_sha_end s"
  by (simp add: match_sha_end_def takeWhile_line drop_takeWhile_line prefix_line [OF newline_tail] Let_def
      del: drop_append)

lemma match_reviewed_line: "match_reviewed (s @ newline # t) = match_reviewed s"
proof (cases "prefix reviewed_prefix s")
  case True
  then have "length reviewed_prefix \<le> length s" by (simp add: prefix_length_le)
  then show ?thesis using True by (simp add: match_reviewed_def match_sha_end_line)
next
  case False
  have "newline \<notin> set reviewed_prefix" by (simp add: newline_def reviewed_prefix_def)
  from prefix_line [OF this] False show ?thesis by (simp add: match_reviewed_def)
qed

lemma match_reviewed_newline: "match_reviewed (newline # t) = None"
  by (simp add: match_reviewed_def reviewed_prefix_def newline_def)

text \<open>A text without reviewed-head markers stays so when lines are added after it.\<close>

lemma match_all_append_line:
  "match_all match_reviewed s = [] \<Longrightarrow>
     match_all match_reviewed (s @ newline # t) = match_all match_reviewed t"
proof (induction s)
  case Nil
  then show ?case by (simp add: match_reviewed_newline)
next
  case (Cons c cs)
  then have none: "match_reviewed (c # cs) = None" by (auto split: option.splits)
  with Cons.prems have "match_all match_reviewed cs = []" by simp
  moreover have "match_reviewed ((c # cs) @ newline # t) = None" using none by (simp only: match_reviewed_line)
  ultimately show ?case using Cons.IH by simp
qed

lemma match_all_marker:
  assumes "reviewedHeadMarker sha = Inr marker"
  shows "match_all match_reviewed marker = [sha]"
proof -
  have ne: "marker \<noteq> []" using reviewedHeadMarker_Inr [OF assms] by (simp add: reviewed_prefix_def)
  then obtain c cs where m: "marker = c # cs" by (cases marker) auto
  have "match_reviewed (c # cs) = Some (sha, length (c # cs))"
    using match_reviewed_marker [OF assms, of "[]"] m by simp
  then show ?thesis by (simp add: m)
qed

lemma recordReviewedHead_reads_back:
  assumes "recordReviewedHead body sha = Inr body'"
    and "match_all match_reviewed (trimEnd (remove_all match_reviewed body)) = []"
  shows "reviewedHeadFromBody body' = Inr (Some sha)"
proof -
  obtain marker where marker: "reviewedHeadMarker sha = Inr marker"
    "body' = trimEnd (remove_all match_reviewed body) @ newline # newline # marker"
    using assms(1) by (cases "reviewedHeadMarker sha") (auto simp: recordReviewedHead_def Let_def)
  have "match_all match_reviewed body' = [sha]"
    using match_all_append_line [OF assms(2), of "newline # marker"]
      match_all_append_line [of "[]" marker] match_all_marker [OF marker(1)] marker(2) by simp
  then show ?thesis by (simp add: reviewedHeadFromBody_def)
qed

end
