(* ===== verification/Issue_Graph.thy ===== *)
theory Issue_Graph
  imports Pr_Markers "HOL-Library.Monad_Syntax"
begin

text \<open>
  The scheduler of \<open>.sandcastle/issue-graph-scheduler/index.ts\<close>. The source of issues and pull
  requests is a record of functions, arguments of the scheduler; it is read through a cache,
  so that one run sees one answer per issue, which a function gives by itself. \<open>issue n\<close> is
  \<open>None\<close> when the source throws. A thrown error is \<open>Inl\<close>; the recursions over parents and
  children follow links that may not end, so they are partial functions, \<open>None\<close> being no result.
\<close>

record issue_identity =
  ii_number :: nat
  ii_title :: string

datatype issue_state = IssueClosed | IssueOpen

record github_issue =
  gi_number :: nat
  gi_title :: string
  gi_childNumbers :: "nat list"
  gi_openBlockers :: "issue_identity list"
  gi_parentNumber :: "nat option"
  gi_state :: issue_state

datatype pr_state = PrClosed | PrMerged | PrOpen

record pull_request =
  pr_baseRefName :: string
  pr_body :: string
  pr_headRefName :: string
  pr_isCrossRepository :: bool
  pr_isDraft :: bool
  pr_state :: pr_state
  pr_url :: string

record issue_source =
  is_baseBranch :: string
  is_issue :: "nat \<Rightarrow> github_issue option"
  is_pullRequest :: "string \<Rightarrow> pull_request option"

datatype issue_kind = SpecLeaf | Standalone

record runnable_issue =
  ru_ancestorPath :: "issue_identity list"
  ru_branch :: string
  ru_descendantLeafNumbers :: "nat list"
  ru_issue :: issue_identity
  ru_kind :: issue_kind
  ru_latestImplementedHead :: "string option"
  ru_parent :: "issue_identity option"
  ru_pullRequest :: "pull_request option"
  ru_root :: issue_identity

record waiting_leaf =
  wa_ancestorPath :: "issue_identity list"
  wa_leaf :: issue_identity
  wa_openBlockers :: "issue_identity list"

record waiting_root =
  wr_blockedLeaves :: "waiting_leaf list"
  wr_branch :: string
  wr_descendantLeafNumbers :: "nat list"
  wr_pullRequest :: "pull_request option"
  wr_root :: issue_identity

record finalize_spec =
  fs_branch :: string
  fs_descendantIssueNumbers :: "nat list"
  fs_descendantLeafNumbers :: "nat list"
  fs_expectedHeadSha :: string
  fs_pullRequest :: pull_request
  fs_root :: issue_identity

record issue_schedule =
  sch_finalize :: "finalize_spec list"
  sch_runnable :: "runnable_issue list"
  sch_waiting :: "waiting_root list"

datatype graph_error =
    SourceFailed
  | WrongIssue
  | ParentCycle
  | NotOneDirectChild
  | AppearsTwice
  | NotItsParent
  | ClosedPullRequest
  | AmbiguousHead
  | MergedOmittedWork
  | ReadyTooEarly
  | OpenUnderClosed
  | ClosedBeforeMerge
  | NoImplementationHead
  | MarkerError marker_error

record descendant_leaf =
  dl_ancestorPath :: "issue_identity list"
  dl_issue :: github_issue
  dl_parent :: github_issue

definition issue_identity_of :: "github_issue \<Rightarrow> issue_identity" where
  "issue_identity_of i = \<lparr>ii_number = gi_number i, ii_title = gi_title i\<rparr>"

section \<open>Markers\<close>

definition implementedMarkers :: "pull_request option \<Rightarrow> (nat \<times> string) list" where
  "implementedMarkers pullRequest =
     (case pullRequest of
        None \<Rightarrow> []
      | Some pr \<Rightarrow>
          if pr_state pr = PrClosed then []
          else map (\<lambda>(ds, sha). (digits_value ds, sha))
                 (filter (\<lambda>(ds, sha). int (digits_value ds) \<le> max_safe_integer)
                   (match_all match_implemented (pr_body pr))))"

definition reviewedHead :: "pull_request option \<Rightarrow> graph_error + string option" where
  "reviewedHead pullRequest =
     (case pullRequest of
        None \<Rightarrow> Inr None
      | Some pr \<Rightarrow>
          (case reviewedHeadFromBody (pr_body pr) of Inl e \<Rightarrow> Inl (MarkerError e) | Inr h \<Rightarrow> Inr h))"

section \<open>Assertions\<close>

definition assertPullRequestIsRecoverable ::
    "string \<Rightarrow> pull_request option \<Rightarrow> string \<Rightarrow> graph_error + unit" where
  "assertPullRequestIsRecoverable branch pullRequest baseBranch =
     (case pullRequest of
        None \<Rightarrow> Inr ()
      | Some pr \<Rightarrow>
          if pr_state pr = PrClosed then Inl ClosedPullRequest
          else if pr_baseRefName pr \<noteq> baseBranch \<or> pr_headRefName pr \<noteq> branch \<or> pr_isCrossRepository pr
          then Inl AmbiguousHead
          else Inr ())"

definition assertPullRequestCanScheduleRemaining ::
    "pull_request option \<Rightarrow> nat \<Rightarrow> graph_error + unit" where
  "assertPullRequestCanScheduleRemaining pullRequest remainingCount =
     (if remainingCount = 0 then Inr ()
      else
        (case pullRequest of
           None \<Rightarrow> Inr ()
         | Some pr \<Rightarrow>
             if pr_state pr = PrMerged then Inl MergedOmittedWork
             else if pr_state pr = PrOpen \<and> \<not> pr_isDraft pr then Inl ReadyTooEarly
             else Inr ()))"

definition assertDescendantStateIsConsistent ::
    "github_issue list \<Rightarrow> descendant_leaf list \<Rightarrow> pull_request option \<Rightarrow> nat set \<Rightarrow> graph_error + unit" where
  "assertDescendantStateIsConsistent containers leaves pullRequest implemented =
     (let closedContainers = set (map gi_number (filter (\<lambda>c. gi_state c = IssueClosed) containers))
      in if list_ex (\<lambda>leaf. gi_state (dl_issue leaf) = IssueOpen \<and>
               list_ex (\<lambda>a. ii_number a \<in> closedContainers) (butlast (dl_ancestorPath leaf))) leaves
         then Inl OpenUnderClosed
         else if pullRequest \<noteq> None \<and>
               list_ex (\<lambda>leaf. gi_state (dl_issue leaf) = IssueClosed \<and>
                 gi_number (dl_issue leaf) \<notin> implemented) leaves
         then Inl ClosedBeforeMerge
         else Inr ())"

section \<open>Roots\<close>

definition loadIssue :: "issue_source \<Rightarrow> nat \<Rightarrow> graph_error + github_issue" where
  "loadIssue src number =
     (case is_issue src number of
        None \<Rightarrow> Inl SourceFailed
      | Some loaded \<Rightarrow> if gi_number loaded \<noteq> number then Inl WrongIssue else Inr loaded)"

partial_function (option) find_root_from ::
    "issue_source \<Rightarrow> github_issue \<Rightarrow> nat list \<Rightarrow> (graph_error + github_issue) option" where
  "find_root_from src current path =
     (case gi_parentNumber current of
        None \<Rightarrow> Some (Inr current)
      | Some parentNumber \<Rightarrow>
          if gi_number current \<in> set path then Some (Inl ParentCycle)
          else
            (case loadIssue src parentNumber of
               Inl e \<Rightarrow> Some (Inl e)
             | Inr parent \<Rightarrow>
                 if length (filter (\<lambda>n. n = gi_number current) (gi_childNumbers parent)) \<noteq> 1
                 then Some (Inl NotOneDirectChild)
                 else find_root_from src parent (gi_number current # path)))"

declare find_root_from.simps [code]

definition findRoot :: "issue_source \<Rightarrow> nat \<Rightarrow> (graph_error + github_issue) option" where
  "findRoot src readyNumber =
     (case loadIssue src readyNumber of
        Inl e \<Rightarrow> Some (Inl e)
      | Inr current \<Rightarrow> find_root_from src current [])"

text \<open>The loop over the ready issues; \<open>seenRoots\<close> is the set of the numbers of \<open>roots\<close>.\<close>

fun collect_roots ::
    "issue_source \<Rightarrow> nat list \<Rightarrow> github_issue list \<Rightarrow> (graph_error + github_issue list) option" where
  "collect_roots src [] roots = Some (Inr roots)"
| "collect_roots src (readyNumber # rest) roots =
     (case findRoot src readyNumber of
        None \<Rightarrow> None
      | Some (Inl e) \<Rightarrow> Some (Inl e)
      | Some (Inr rootIssue) \<Rightarrow>
          collect_roots src rest
            (if gi_number rootIssue \<in> gi_number ` set roots then roots else roots @ [rootIssue]))"

section \<open>Descendants\<close>

record visit_state =
  vs_leaves :: "descendant_leaf list"
  vs_containers :: "github_issue list"
  vs_descendants :: "nat list"
  vs_visited :: "nat list"

text \<open>The loop of \<open>visitChildren\<close> over the children that remain.\<close>

partial_function (option) visit_children ::
    "issue_source \<Rightarrow> github_issue \<Rightarrow> issue_identity list \<Rightarrow> nat list \<Rightarrow> nat list \<Rightarrow> visit_state
      \<Rightarrow> (graph_error + visit_state) option" where
  "visit_children src parent parentPath childNumbers directChildren s =
     (case childNumbers of
        [] \<Rightarrow> Some (Inr s)
      | childNumber # rest \<Rightarrow>
          if childNumber \<in> set directChildren \<or> childNumber \<in> set (vs_visited s)
          then Some (Inl AppearsTwice)
          else
            (let s1 = s\<lparr>vs_visited := childNumber # vs_visited s,
                        vs_descendants := vs_descendants s @ [childNumber]\<rparr>
             in case loadIssue src childNumber of
                  Inl e \<Rightarrow> Some (Inl e)
                | Inr child \<Rightarrow>
                    if gi_parentNumber child \<noteq> Some (gi_number parent) then Some (Inl NotItsParent)
                    else
                      (let childPath = parentPath @ [issue_identity_of child]
                       in if gi_childNumbers child = []
                          then visit_children src parent parentPath rest (childNumber # directChildren)
                                 (s1\<lparr>vs_leaves := vs_leaves s1 @
                                     [\<lparr>dl_ancestorPath = childPath, dl_issue = child, dl_parent = parent\<rparr>]\<rparr>)
                          else
                            Option.bind
                              (visit_children src child childPath (gi_childNumbers child) []
                                 (s1\<lparr>vs_containers := vs_containers s1 @ [child]\<rparr>))
                              (\<lambda>r. case r of
                                 Inl e \<Rightarrow> Some (Inl e)
                               | Inr s2 \<Rightarrow>
                                   visit_children src parent parentPath rest
                                     (childNumber # directChildren) s2))))"

declare visit_children.simps [code]

section \<open>The schedule\<close>

definition scheduleStandalone ::
    "github_issue \<Rightarrow> issue_source \<Rightarrow> issue_schedule \<Rightarrow> graph_error + issue_schedule" where
  "scheduleStandalone rootIssue src sch =
     (if gi_state rootIssue \<noteq> IssueOpen then Inr sch
      else
        (let rootIdentity = issue_identity_of rootIssue;
             branch = ''sandcastle/issue-'' @ nat_string (gi_number rootIssue);
             pullRequest = is_pullRequest src branch
         in bind_error (assertPullRequestIsRecoverable branch pullRequest (is_baseBranch src)) (\<lambda>_.
              if gi_openBlockers rootIssue = []
              then Inr (sch\<lparr>sch_runnable := sch_runnable sch @
                [\<lparr>ru_ancestorPath = [rootIdentity], ru_branch = branch, ru_descendantLeafNumbers = [],
                  ru_issue = rootIdentity, ru_kind = Standalone, ru_latestImplementedHead = None,
                  ru_parent = None, ru_pullRequest = pullRequest, ru_root = rootIdentity\<rparr>]\<rparr>)
              else Inr (sch\<lparr>sch_waiting := sch_waiting sch @
                [\<lparr>wr_blockedLeaves =
                    [\<lparr>wa_ancestorPath = [rootIdentity], wa_leaf = rootIdentity,
                      wa_openBlockers = gi_openBlockers rootIssue\<rparr>],
                  wr_branch = branch, wr_descendantLeafNumbers = [], wr_pullRequest = pullRequest,
                  wr_root = rootIdentity\<rparr>]\<rparr>))))"

definition unresolvedBlockers :: "nat set \<Rightarrow> descendant_leaf \<Rightarrow> issue_identity list" where
  "unresolvedBlockers implemented leaf =
     filter (\<lambda>b. ii_number b \<notin> implemented) (gi_openBlockers (dl_issue leaf))"

text \<open>From the visited descendants of a root to its entry of the schedule.\<close>

definition schedule_spec ::
    "github_issue \<Rightarrow> string \<Rightarrow> pull_request option \<Rightarrow> visit_state \<Rightarrow> issue_schedule
      \<Rightarrow> graph_error + issue_schedule" where
  "schedule_spec rootIssue branch pullRequest v sch =
     (let leaves = vs_leaves v;
          descendantLeafNumbers = map (\<lambda>l. gi_number (dl_issue l)) leaves;
          validMarkers = filter (\<lambda>m. fst m \<in> set descendantLeafNumbers) (implementedMarkers pullRequest);
          implemented = set (map fst validMarkers);
          latestImplementedHead = map_option snd (js_last validMarkers)
      in bind_error (reviewedHead pullRequest) (\<lambda>latestReviewedHead.
         bind_error (assertDescendantStateIsConsistent (vs_containers v) leaves pullRequest implemented) (\<lambda>_.
         (let remaining = filter (\<lambda>l. gi_state (dl_issue l) = IssueOpen \<and>
                gi_number (dl_issue l) \<notin> implemented) leaves
          in bind_error (assertPullRequestCanScheduleRemaining pullRequest (length remaining)) (\<lambda>_.
            case find (\<lambda>l. unresolvedBlockers implemented l = []) remaining of
              Some selected \<Rightarrow>
                Inr (sch\<lparr>sch_runnable := sch_runnable sch @
                  [\<lparr>ru_ancestorPath = dl_ancestorPath selected, ru_branch = branch,
                    ru_descendantLeafNumbers = descendantLeafNumbers,
                    ru_issue = issue_identity_of (dl_issue selected), ru_kind = SpecLeaf,
                    ru_latestImplementedHead = latestImplementedHead,
                    ru_parent = Some (issue_identity_of (dl_parent selected)),
                    ru_pullRequest = pullRequest, ru_root = issue_identity_of rootIssue\<rparr>]\<rparr>)
            | None \<Rightarrow>
                if 0 < length remaining
                then Inr (sch\<lparr>sch_waiting := sch_waiting sch @
                  [\<lparr>wr_blockedLeaves = map (\<lambda>l. \<lparr>wa_ancestorPath = dl_ancestorPath l,
                        wa_leaf = issue_identity_of (dl_issue l),
                        wa_openBlockers = unresolvedBlockers implemented l\<rparr>) remaining,
                    wr_branch = branch, wr_descendantLeafNumbers = descendantLeafNumbers,
                    wr_pullRequest = pullRequest, wr_root = issue_identity_of rootIssue\<rparr>]\<rparr>)
                else
                  (case pullRequest of
                     None \<Rightarrow> Inr sch
                   | Some pr \<Rightarrow>
                       if pr_state pr = PrOpen \<or> pr_state pr = PrMerged
                       then (case latestImplementedHead of
                               None \<Rightarrow> Inl NoImplementationHead
                             | Some head \<Rightarrow>
                                 Inr (sch\<lparr>sch_finalize := sch_finalize sch @
                                   [\<lparr>fs_branch = branch, fs_descendantIssueNumbers = vs_descendants v,
                                     fs_descendantLeafNumbers = descendantLeafNumbers,
                                     fs_expectedHeadSha =
                                       (case latestReviewedHead of Some h \<Rightarrow> h | None \<Rightarrow> head),
                                     fs_pullRequest = pr, fs_root = issue_identity_of rootIssue\<rparr>]\<rparr>))
                       else Inr sch))))))"

definition schedule_root ::
    "issue_source \<Rightarrow> github_issue \<Rightarrow> issue_schedule \<Rightarrow> (graph_error + issue_schedule) option" where
  "schedule_root src rootIssue sch =
     (if gi_childNumbers rootIssue = [] then Some (scheduleStandalone rootIssue src sch)
      else
        (let branch = ''sandcastle/spec-'' @ nat_string (gi_number rootIssue);
             pullRequest = is_pullRequest src branch
         in case assertPullRequestIsRecoverable branch pullRequest (is_baseBranch src) of
              Inl e \<Rightarrow> Some (Inl e)
            | Inr _ \<Rightarrow>
                map_option (\<lambda>r. bind_error r (\<lambda>v. schedule_spec rootIssue branch pullRequest v sch))
                  (visit_children src rootIssue [issue_identity_of rootIssue] (gi_childNumbers rootIssue) []
                     \<lparr>vs_leaves = [], vs_containers = [rootIssue], vs_descendants = [],
                      vs_visited = [gi_number rootIssue]\<rparr>)))"

fun schedule_roots ::
    "issue_source \<Rightarrow> github_issue list \<Rightarrow> issue_schedule \<Rightarrow> (graph_error + issue_schedule) option" where
  "schedule_roots src [] sch = Some (Inr sch)"
| "schedule_roots src (rootIssue # rest) sch =
     (case schedule_root src rootIssue sch of
        None \<Rightarrow> None
      | Some (Inl e) \<Rightarrow> Some (Inl e)
      | Some (Inr sch') \<Rightarrow> schedule_roots src rest sch')"

definition empty_schedule :: issue_schedule where
  "empty_schedule = \<lparr>sch_finalize = [], sch_runnable = [], sch_waiting = []\<rparr>"

definition scheduleIssueGraph ::
    "issue_source \<Rightarrow> nat list \<Rightarrow> (graph_error + issue_schedule) option" where
  "scheduleIssueGraph src readyIssueNumbers =
     (case collect_roots src readyIssueNumbers [] of
        None \<Rightarrow> None
      | Some (Inl e) \<Rightarrow> Some (Inl e)
      | Some (Inr roots) \<Rightarrow> schedule_roots src roots empty_schedule)"

end
