(* ===== verification/Issue_Graph_Facts.thy ===== *)
theory Issue_Graph_Facts
  imports Issue_Graph
begin

text \<open>
  Facts on the issue graph scheduler: over finitely many issues it always returns; what it
  offers for work is open, unblocked and not yet implemented; a root has at most one entry.
\<close>

definition known_issues :: "issue_source \<Rightarrow> nat set \<Rightarrow> bool" where
  "known_issues src ns \<longleftrightarrow> finite ns \<and> (\<forall>n. is_issue src n \<noteq> None \<longrightarrow> n \<in> ns)"

definition loaded :: "issue_source \<Rightarrow> github_issue \<Rightarrow> bool" where
  "loaded src i \<longleftrightarrow> is_issue src (gi_number i) = Some i"

lemma loadIssue_loaded: "loadIssue src n = Inr i \<Longrightarrow> loaded src i \<and> gi_number i = n"
  by (auto simp: loadIssue_def loaded_def split: option.splits if_splits)

lemma loaded_known: "known_issues src ns \<Longrightarrow> loaded src i \<Longrightarrow> gi_number i \<in> ns"
  by (auto simp: known_issues_def loaded_def)

lemma distinct_bounded: "finite ns \<Longrightarrow> distinct xs \<Longrightarrow> set xs \<subseteq> ns \<Longrightarrow> length xs \<le> card ns"
  by (metis card_mono distinct_card)

section \<open>Termination\<close>

lemma find_root_from_total:
  assumes "known_issues src ns"
  shows "loaded src current \<Longrightarrow> distinct path \<Longrightarrow> set path \<subseteq> ns \<Longrightarrow>
    \<exists>r. find_root_from src current path = Some r"
proof (induction "card ns - length path" arbitrary: current path rule: less_induct)
  case less
  have fin: "finite ns" using assms by (simp add: known_issues_def)
  have current: "gi_number current \<in> ns" by (rule loaded_known [OF assms less.prems(1)])
  have step: "\<exists>r. find_root_from src parent (gi_number current # path) = Some r"
    if "loaded src parent" "gi_number current \<notin> set path" for parent
  proof (rule less.hyps)
    have "length (gi_number current # path) \<le> card ns"
      by (rule distinct_bounded [OF fin]) (use less.prems that current in auto)
    then show "card ns - length (gi_number current # path) < card ns - length path" by simp
  qed (use less.prems that current in auto)
  show ?case
    by (subst find_root_from.simps)
      (use step loadIssue_loaded in \<open>auto split: option.split sum.split\<close>)
qed

lemma findRoot_total: "known_issues src ns \<Longrightarrow> \<exists>r. findRoot src n = Some r"
  using find_root_from_total [of src ns _ "[]"] loadIssue_loaded
  by (auto simp: findRoot_def split: sum.split)

lemma collect_roots_total: "known_issues src ns \<Longrightarrow> \<exists>r. collect_roots src ready roots = Some r"
proof (induction ready arbitrary: roots)
  case (Cons n ready)
  obtain r where "findRoot src n = Some r" using findRoot_total [OF Cons.prems] by blast
  then show ?case using Cons by (cases r) auto
qed simp

lemma visit_children_total:
  assumes "known_issues src ns"
  shows "distinct (vs_visited s) \<Longrightarrow> set (vs_visited s) \<subseteq> ns \<Longrightarrow>
    \<exists>r. visit_children src parent path cs direct s = Some r \<and>
      (\<forall>s'. r = Inr s' \<longrightarrow> distinct (vs_visited s') \<and> set (vs_visited s') \<subseteq> ns \<and>
         length (vs_visited s) \<le> length (vs_visited s'))"
proof (induction "card ns - length (vs_visited s)" arbitrary: parent path cs direct s rule: less_induct)
  case less
  have fin: "finite ns" using assms by (simp add: known_issues_def)
  show ?case
  proof (cases cs)
    case Nil
    then show ?thesis using less.prems by (subst visit_children.simps) simp
  next
    case (Cons c rest)
    let ?s1 = "s\<lparr>vs_visited := c # vs_visited s, vs_descendants := vs_descendants s @ [c]\<rparr>"
    show ?thesis
    proof (cases "c \<in> set direct \<or> c \<in> set (vs_visited s)")
      case True
      then show ?thesis by (subst visit_children.simps) (simp add: Cons)
    next
      case new: False
      show ?thesis
      proof (cases "loadIssue src c")
        case (Inl e)
        then show ?thesis using new by (subst visit_children.simps) (simp add: Cons Let_def)
      next
        case (Inr child)
        have c: "c \<in> ns" using loadIssue_loaded [OF Inr] loaded_known [OF assms] by blast
        have visited: "distinct (c # vs_visited s)" "set (c # vs_visited s) \<subseteq> ns"
          using less.prems new c by auto
        have bound: "length (c # vs_visited s) \<le> card ns" by (rule distinct_bounded [OF fin visited])
        have smaller: "\<exists>r. visit_children src p' path' cs' direct' s' = Some r \<and>
            (\<forall>s''. r = Inr s'' \<longrightarrow> distinct (vs_visited s'') \<and> set (vs_visited s'') \<subseteq> ns \<and>
               length (vs_visited s') \<le> length (vs_visited s''))"
          if "distinct (vs_visited s')" "set (vs_visited s') \<subseteq> ns"
            "length (vs_visited s) < length (vs_visited s')" for p' path' cs' direct' s'
        proof (rule less.hyps [OF _ that(1,2)])
          have "length (vs_visited s') \<le> card ns" by (rule distinct_bounded [OF fin that(1,2)])
          then show "card ns - length (vs_visited s') < card ns - length (vs_visited s)"
            using that(3) by simp
        qed
        consider "gi_parentNumber child \<noteq> Some (gi_number parent)"
          | "gi_parentNumber child = Some (gi_number parent)" "gi_childNumbers child = []"
          | "gi_parentNumber child = Some (gi_number parent)" "gi_childNumbers child \<noteq> []" by blast
        then show ?thesis
        proof cases
          case 1
          then show ?thesis using new Inr by (subst visit_children.simps) (simp add: Cons Let_def)
        next
          case 2
          let ?s2 = "?s1\<lparr>vs_leaves := vs_leaves s @ [\<lparr>dl_ancestorPath = path @ [issue_identity_of child],
            dl_issue = child, dl_parent = parent\<rparr>]\<rparr>"
          have eq: "visit_children src parent path cs direct s =
              visit_children src parent path rest (c # direct) ?s2"
            using 2 new Inr by (subst visit_children.simps) (simp add: Cons Let_def)
          show ?thesis
            unfolding eq
            using smaller [of ?s2 parent path rest "c # direct"] visited by auto
        next
          case 3
          let ?s2 = "?s1\<lparr>vs_containers := vs_containers s @ [child]\<rparr>"
          obtain r where r: "visit_children src child (path @ [issue_identity_of child])
              (gi_childNumbers child) [] ?s2 = Some r"
            "\<forall>s''. r = Inr s'' \<longrightarrow> distinct (vs_visited s'') \<and> set (vs_visited s'') \<subseteq> ns \<and>
               length (vs_visited ?s2) \<le> length (vs_visited s'')"
            using smaller [of ?s2 child "path @ [issue_identity_of child]" "gi_childNumbers child" "[]"]
              visited by auto
          have eq: "visit_children src parent path cs direct s =
              (case r of Inl e \<Rightarrow> Some (Inl e)
               | Inr s3 \<Rightarrow> visit_children src parent path rest (c # direct) s3)"
            using 3 new Inr r(1) by (subst visit_children.simps) (simp add: Cons Let_def)
          show ?thesis
          proof (cases r)
            case Inl
            then show ?thesis unfolding eq by simp
          next
            case s3: (Inr s3)
            have "distinct (vs_visited s3)" "set (vs_visited s3) \<subseteq> ns"
              "length (vs_visited s) < length (vs_visited s3)" using r(2) s3 by auto
            from smaller [OF this, of parent path rest "c # direct"] this(3)
            show ?thesis unfolding eq s3 by auto
          qed
        qed
      qed
    qed
  qed
qed

section \<open>Roots\<close>

lemma find_root_from_loaded:
  "find_root_from src current path = Some (Inr r) \<Longrightarrow> loaded src current \<Longrightarrow> loaded src r"
proof -
  have "loaded src current \<longrightarrow> (\<forall>r'. r = Inr r' \<longrightarrow> loaded src r')"
    if "find_root_from src current path = Some r" for r
  proof (rule find_root_from.raw_induct [where P = "\<lambda>src current path r.
      loaded src current \<longrightarrow> (\<forall>r'. r = Inr r' \<longrightarrow> loaded src r')", OF _ that])
    fix f src current path and r :: "graph_error + github_issue"
    assume IH: "\<And>src current path r. f src current path = Some r \<Longrightarrow>
        loaded src current \<longrightarrow> (\<forall>r'. r = Inr r' \<longrightarrow> loaded src r')"
      and step: "(case gi_parentNumber current of
        None \<Rightarrow> Some (Inr current)
      | Some parentNumber \<Rightarrow>
          if gi_number current \<in> set path then Some (Inl ParentCycle)
          else
            (case loadIssue src parentNumber of
               Inl e \<Rightarrow> Some (Inl e)
             | Inr parent \<Rightarrow>
                 if length (filter (\<lambda>n. n = gi_number current) (gi_childNumbers parent)) \<noteq> 1
                 then Some (Inl NotOneDirectChild)
                 else f src parent (gi_number current # path))) = Some r"
    show "loaded src current \<longrightarrow> (\<forall>r'. r = Inr r' \<longrightarrow> loaded src r')"
      using step IH loadIssue_loaded by (auto split: option.splits sum.splits if_splits)
  qed
  then show "find_root_from src current path = Some (Inr r) \<Longrightarrow> loaded src current \<Longrightarrow> loaded src r" by blast
qed

lemma findRoot_loaded: "findRoot src n = Some (Inr r) \<Longrightarrow> loaded src r"
  using find_root_from_loaded loadIssue_loaded by (auto simp: findRoot_def split: sum.splits)

lemma collect_roots_ok:
  "collect_roots src ready roots = Some (Inr roots') \<Longrightarrow> list_all (loaded src) roots \<Longrightarrow>
     distinct (map gi_number roots) \<Longrightarrow> list_all (loaded src) roots' \<and> distinct (map gi_number roots')"
proof (induction ready arbitrary: roots)
  case (Cons n ready)
  then obtain r where r: "findRoot src n = Some (Inr r)"
    "collect_roots src ready (if gi_number r \<in> gi_number ` set roots then roots else roots @ [r]) = Some (Inr roots')"
    by (auto split: option.splits sum.splits)
  show ?case
    by (rule Cons.IH [OF r(2)]) (use Cons.prems findRoot_loaded [OF r(1)] in auto)
qed simp

section \<open>Leaves\<close>

definition leaf_ok :: "issue_source \<Rightarrow> descendant_leaf \<Rightarrow> bool" where
  "leaf_ok src l \<longleftrightarrow> loaded src (dl_issue l) \<and> gi_childNumbers (dl_issue l) = [] \<and>
     gi_parentNumber (dl_issue l) = Some (gi_number (dl_parent l)) \<and>
     dl_ancestorPath l \<noteq> [] \<and> last (dl_ancestorPath l) = issue_identity_of (dl_issue l)"

lemma visit_children_leaves:
  "visit_children src parent path cs direct s = Some r \<Longrightarrow> list_all (leaf_ok src) (vs_leaves s) \<Longrightarrow>
     (\<forall>s'. r = Inr s' \<longrightarrow> list_all (leaf_ok src) (vs_leaves s'))"
proof -
  have "list_all (leaf_ok src) (vs_leaves s) \<longrightarrow> (\<forall>s'. r = Inr s' \<longrightarrow> list_all (leaf_ok src) (vs_leaves s'))"
    if "visit_children src parent path cs direct s = Some r"
  proof (rule visit_children.raw_induct [where P = "\<lambda>src parent path cs direct s r.
      list_all (leaf_ok src) (vs_leaves s) \<longrightarrow>
      (\<forall>s'. r = Inr s' \<longrightarrow> list_all (leaf_ok src) (vs_leaves s'))", OF _ that], goal_cases)
    case (1 f src parent path cs direct s r)
    note IH = 1(1) and step = 1(2)
    show ?case
    proof (cases cs)
      case Nil
      then show ?thesis using step by auto
    next
      case (Cons c rest)
      let ?s1 = "s\<lparr>vs_visited := c # vs_visited s, vs_descendants := vs_descendants s @ [c]\<rparr>"
      show ?thesis
      proof (intro impI allI)
        fix s' assume ok: "list_all (leaf_ok src) (vs_leaves s)" and r: "r = Inr s'"
        then obtain child where child: "loadIssue src c = Inr child"
          "gi_parentNumber child = Some (gi_number parent)"
          using step Cons by (auto simp: Let_def split: if_splits sum.splits)
        show "list_all (leaf_ok src) (vs_leaves s')"
        proof (cases "gi_childNumbers child = []")
          case True
          let ?leaf = "\<lparr>dl_ancestorPath = path @ [issue_identity_of child], dl_issue = child, dl_parent = parent\<rparr>"
          have "leaf_ok src ?leaf"
            using True child loadIssue_loaded by (simp add: leaf_ok_def)
          moreover have "f src parent path rest (c # direct)
              (?s1\<lparr>vs_leaves := vs_leaves s @ [?leaf]\<rparr>) = Some r"
            using step Cons child True r by (auto simp: Let_def split: if_splits)
          ultimately show ?thesis using IH [of src parent path rest "c # direct"] ok r by fastforce
        next
          case False
          let ?s2 = "?s1\<lparr>vs_containers := vs_containers s @ [child]\<rparr>"
          obtain y where y: "f src child (path @ [issue_identity_of child]) (gi_childNumbers child) [] ?s2 = Some y"
            "(case y of Inl e \<Rightarrow> Some (Inl e) | Inr s3 \<Rightarrow> f src parent path rest (c # direct) s3) = Some r"
            using step Cons child False r by (auto simp: Let_def bind_eq_Some_conv split: if_splits)
          then obtain s3 where s3: "f src child (path @ [issue_identity_of child]) (gi_childNumbers child) [] ?s2 = Some (Inr s3)"
            "f src parent path rest (c # direct) s3 = Some r"
            using r by (cases y) auto
          have "list_all (leaf_ok src) (vs_leaves ?s2)" using ok by simp
          then have "list_all (leaf_ok src) (vs_leaves s3)" using IH [OF s3(1)] by blast
          then show ?thesis using IH [OF s3(2)] r by blast
        qed
      qed
    qed
  qed
  then show "visit_children src parent path cs direct s = Some r \<Longrightarrow> list_all (leaf_ok src) (vs_leaves s) \<Longrightarrow>
     (\<forall>s'. r = Inr s' \<longrightarrow> list_all (leaf_ok src) (vs_leaves s'))" by blast
qed

section \<open>Entries of the schedule\<close>

text \<open>The roots that have an entry, and what a runnable entry promises.\<close>

definition sch_roots :: "issue_schedule \<Rightarrow> nat list" where
  "sch_roots sch =
     map (\<lambda>r. ii_number (ru_root r)) (sch_runnable sch) @
     map (\<lambda>w. ii_number (wr_root w)) (sch_waiting sch) @
     map (\<lambda>f. ii_number (fs_root f)) (sch_finalize sch)"

definition implemented_numbers :: "pull_request option \<Rightarrow> nat set" where
  "implemented_numbers pullRequest = set (map fst (implementedMarkers pullRequest))"

definition runnable_ok :: "issue_source \<Rightarrow> runnable_issue \<Rightarrow> bool" where
  "runnable_ok src r \<longleftrightarrow>
     (\<exists>issue. is_issue src (ii_number (ru_issue r)) = Some issue \<and> ru_issue r = issue_identity_of issue \<and>
        gi_state issue = IssueOpen \<and> gi_childNumbers issue = [] \<and>
        (\<forall>b\<in>set (gi_openBlockers issue). ru_kind r = SpecLeaf \<and>
           ii_number b \<in> implemented_numbers (ru_pullRequest r)) \<and>
        (ru_kind r = SpecLeaf \<longrightarrow>
           ii_number (ru_issue r) \<notin> implemented_numbers (ru_pullRequest r))) \<and>
     (case ru_pullRequest r of
        None \<Rightarrow> True
      | Some pr \<Rightarrow>
          pr_baseRefName pr = is_baseBranch src \<and> pr_headRefName pr = ru_branch r \<and>
          \<not> pr_isCrossRepository pr \<and> pr_state pr \<noteq> PrClosed \<and>
          (ru_kind r = SpecLeaf \<longrightarrow> pr_state pr = PrOpen \<and> pr_isDraft pr))"

definition finalize_ok :: "finalize_spec \<Rightarrow> bool" where
  "finalize_ok f \<longleftrightarrow> (\<exists>n\<in>set (fs_descendantLeafNumbers f).
     n \<in> implemented_numbers (Some (fs_pullRequest f))) \<and> pr_state (fs_pullRequest f) \<noteq> PrClosed"

text \<open>One step adds at most one entry, for its root.\<close>

definition one_entry :: "issue_source \<Rightarrow> github_issue \<Rightarrow> issue_schedule \<Rightarrow> issue_schedule \<Rightarrow> bool" where
  "one_entry src rootIssue sch sch' \<longleftrightarrow>
     (mset (sch_roots sch') = mset (sch_roots sch) \<or>
      mset (sch_roots sch') = add_mset (gi_number rootIssue) (mset (sch_roots sch))) \<and>
     (\<forall>r\<in>set (sch_runnable sch'). r \<in> set (sch_runnable sch) \<or> runnable_ok src r) \<and>
     (\<forall>f\<in>set (sch_finalize sch'). f \<in> set (sch_finalize sch) \<or> finalize_ok f)"

lemma recoverable_Inr:
  "assertPullRequestIsRecoverable branch pullRequest base = Inr u \<Longrightarrow> pullRequest = Some pr \<Longrightarrow>
     pr_baseRefName pr = base \<and> pr_headRefName pr = branch \<and> \<not> pr_isCrossRepository pr \<and> pr_state pr \<noteq> PrClosed"
  by (auto simp: assertPullRequestIsRecoverable_def split: if_splits)

lemma bind_error_Inr: "bind_error r f = Inr y \<longleftrightarrow> (\<exists>x. r = Inr x \<and> f x = Inr y)"
  by (cases r) auto

lemma scheduleStandalone_entry:
  assumes "scheduleStandalone rootIssue src sch = Inr sch'" and "loaded src rootIssue"
    and "gi_childNumbers rootIssue = []"
  shows "one_entry src rootIssue sch sch'"
proof (cases "gi_state rootIssue = IssueOpen")
  case False
  then show ?thesis using assms(1) by (simp add: scheduleStandalone_def one_entry_def)
next
  case True
  let ?branch = "''sandcastle/issue-'' @ nat_string (gi_number rootIssue)"
  obtain u where rec: "assertPullRequestIsRecoverable ?branch (is_pullRequest src ?branch) (is_baseBranch src) = Inr u"
    using assms(1) True by (auto simp: scheduleStandalone_def bind_error_Inr Let_def)
  show ?thesis
  proof (cases "gi_openBlockers rootIssue = []")
    case no_blockers: True
    have "runnable_ok src
        \<lparr>ru_ancestorPath = [issue_identity_of rootIssue], ru_branch = ?branch, ru_descendantLeafNumbers = [],
         ru_issue = issue_identity_of rootIssue, ru_kind = Standalone, ru_latestImplementedHead = None,
         ru_parent = None, ru_pullRequest = is_pullRequest src ?branch,
         ru_root = issue_identity_of rootIssue\<rparr>"
      using True no_blockers assms(2,3) recoverable_Inr [OF rec]
      by (auto simp: runnable_ok_def loaded_def issue_identity_of_def split: option.split)
    with True no_blockers assms(1) rec show ?thesis
      by (auto simp: scheduleStandalone_def one_entry_def sch_roots_def issue_identity_of_def Let_def)
  next
    case False
    with True assms(1) rec show ?thesis
      by (auto simp: scheduleStandalone_def one_entry_def sch_roots_def issue_identity_of_def Let_def)
  qed
qed

lemma find_Some_in: "find P xs = Some x \<Longrightarrow> x \<in> set xs \<and> P x"
  by (auto simp: find_Some_iff)

lemma js_last_in: "js_last xs = Some x \<Longrightarrow> x \<in> set xs"
  by (rule js_last_Some)

lemma schedule_spec_entry:
  assumes "schedule_spec rootIssue branch pullRequest v sch = Inr sch'"
    and "list_all (leaf_ok src) (vs_leaves v)"
    and "assertPullRequestIsRecoverable branch pullRequest (is_baseBranch src) = Inr u"
  shows "one_entry src rootIssue sch sch'"
proof -
  define numbers where "numbers = map (\<lambda>l. gi_number (dl_issue l)) (vs_leaves v)"
  define valid where "valid = filter (\<lambda>m. fst m \<in> set numbers) (implementedMarkers pullRequest)"
  define implemented where "implemented = set (map fst valid)"
  define remaining where "remaining = filter (\<lambda>l. gi_state (dl_issue l) = IssueOpen \<and>
    gi_number (dl_issue l) \<notin> implemented) (vs_leaves v)"
  note defs = numbers_def [symmetric] valid_def [symmetric] implemented_def [symmetric] remaining_def [symmetric]
  have impl: "implemented \<subseteq> implemented_numbers pullRequest"
    by (auto simp: implemented_def valid_def implemented_numbers_def)
  have impl_leaf: "n \<in> implemented" if "n \<in> implemented_numbers pullRequest" "n \<in> set numbers" for n
    using that by (force simp: implemented_def valid_def implemented_numbers_def)
  obtain reviewed u2 where remaining_ok: "assertPullRequestCanScheduleRemaining pullRequest (length remaining) = Inr u2"
    and rest: "(case find (\<lambda>l. unresolvedBlockers implemented l = []) remaining of
              Some selected \<Rightarrow>
                Inr (sch\<lparr>sch_runnable := sch_runnable sch @
                  [\<lparr>ru_ancestorPath = dl_ancestorPath selected, ru_branch = branch,
                    ru_descendantLeafNumbers = numbers,
                    ru_issue = issue_identity_of (dl_issue selected), ru_kind = SpecLeaf,
                    ru_latestImplementedHead = map_option snd (js_last valid),
                    ru_parent = Some (issue_identity_of (dl_parent selected)),
                    ru_pullRequest = pullRequest, ru_root = issue_identity_of rootIssue\<rparr>]\<rparr>)
            | None \<Rightarrow>
                if 0 < length remaining
                then Inr (sch\<lparr>sch_waiting := sch_waiting sch @
                  [\<lparr>wr_blockedLeaves = map (\<lambda>l. \<lparr>wa_ancestorPath = dl_ancestorPath l,
                        wa_leaf = issue_identity_of (dl_issue l),
                        wa_openBlockers = unresolvedBlockers implemented l\<rparr>) remaining,
                    wr_branch = branch, wr_descendantLeafNumbers = numbers,
                    wr_pullRequest = pullRequest, wr_root = issue_identity_of rootIssue\<rparr>]\<rparr>)
                else
                  (case pullRequest of
                     None \<Rightarrow> Inr sch
                   | Some pr \<Rightarrow>
                       if pr_state pr = PrOpen \<or> pr_state pr = PrMerged
                       then (case map_option snd (js_last valid) of
                               None \<Rightarrow> Inl NoImplementationHead
                             | Some head \<Rightarrow>
                                 Inr (sch\<lparr>sch_finalize := sch_finalize sch @
                                   [\<lparr>fs_branch = branch, fs_descendantIssueNumbers = vs_descendants v,
                                     fs_descendantLeafNumbers = numbers,
                                     fs_expectedHeadSha =
                                       (case reviewed of Some h \<Rightarrow> h | None \<Rightarrow> head),
                                     fs_pullRequest = pr, fs_root = issue_identity_of rootIssue\<rparr>]\<rparr>))
                       else Inr sch)) = Inr sch'"
    using assms(1) unfolding schedule_spec_def Let_def defs bind_error_Inr by blast
  show ?thesis
  proof (cases "find (\<lambda>l. unresolvedBlockers implemented l = []) remaining")
    case (Some selected)
    have sel: "selected \<in> set (vs_leaves v)" "gi_state (dl_issue selected) = IssueOpen"
      "gi_number (dl_issue selected) \<notin> implemented" "unresolvedBlockers implemented selected = []"
      "selected \<in> set remaining"
      using find_Some_in [OF Some] by (auto simp: remaining_def)
    then have leaf: "leaf_ok src selected" using assms(2) by (auto simp: list_all_iff)
    have "gi_number (dl_issue selected) \<in> set numbers" using sel(1) by (simp add: numbers_def)
    then have "gi_number (dl_issue selected) \<notin> implemented_numbers pullRequest"
      using sel(3) impl_leaf by blast
    moreover have "ii_number b \<in> implemented_numbers pullRequest"
      if "b \<in> set (gi_openBlockers (dl_issue selected))" for b
      using sel(4) that impl by (auto simp: unresolvedBlockers_def filter_empty_conv)
    moreover have "pr_state pr = PrOpen \<and> pr_isDraft pr" if "pullRequest = Some pr" for pr
      using remaining_ok recoverable_Inr [OF assms(3) that] sel(5) that
      by (cases "pr_state pr") (auto simp: assertPullRequestCanScheduleRemaining_def split: if_splits)
    ultimately have "runnable_ok src
        \<lparr>ru_ancestorPath = dl_ancestorPath selected, ru_branch = branch,
         ru_descendantLeafNumbers = numbers,
         ru_issue = issue_identity_of (dl_issue selected), ru_kind = SpecLeaf,
         ru_latestImplementedHead = map_option snd (js_last valid),
         ru_parent = Some (issue_identity_of (dl_parent selected)),
         ru_pullRequest = pullRequest, ru_root = issue_identity_of rootIssue\<rparr>"
      using leaf sel(2) recoverable_Inr [OF assms(3)]
      by (auto simp: runnable_ok_def leaf_ok_def loaded_def issue_identity_of_def split: option.split)
    with rest Some show ?thesis
      by (auto simp: one_entry_def sch_roots_def issue_identity_of_def)
  next
    case None
    show ?thesis
    proof (cases "js_last valid")
      case no_head: None
      show ?thesis
        using rest unfolding None no_head
        by (auto simp: one_entry_def sch_roots_def issue_identity_of_def split: if_splits option.splits)
    next
      case (Some m)
      have m: "m \<in> set valid" using js_last_in [OF Some] .
      have "finalize_ok \<lparr>fs_branch = branch, fs_descendantIssueNumbers = vs_descendants v,
          fs_descendantLeafNumbers = numbers, fs_expectedHeadSha = h, fs_pullRequest = pr,
          fs_root = issue_identity_of rootIssue\<rparr>" if "pullRequest = Some pr" for pr h
        using m that recoverable_Inr [OF assms(3) that]
        by (auto simp: finalize_ok_def valid_def implemented_numbers_def intro!: bexI [of _ "fst m"])
      then show ?thesis
        using rest unfolding None Some
        by (auto simp: one_entry_def sch_roots_def issue_identity_of_def split: if_splits option.splits)
    qed
  qed
qed

lemma schedule_root_entry:
  assumes "schedule_root src rootIssue sch = Some (Inr sch')" and "loaded src rootIssue"
  shows "one_entry src rootIssue sch sch'"
proof (cases "gi_childNumbers rootIssue = []")
  case True
  then show ?thesis using assms scheduleStandalone_entry by (simp add: schedule_root_def)
next
  case False
  let ?branch = "''sandcastle/spec-'' @ nat_string (gi_number rootIssue)"
  obtain u r where u: "assertPullRequestIsRecoverable ?branch (is_pullRequest src ?branch) (is_baseBranch src) = Inr u"
    and r: "visit_children src rootIssue [issue_identity_of rootIssue] (gi_childNumbers rootIssue) []
        \<lparr>vs_leaves = [], vs_containers = [rootIssue], vs_descendants = [], vs_visited = [gi_number rootIssue]\<rparr>
        = Some r"
    "bind_error r (\<lambda>v. schedule_spec rootIssue ?branch (is_pullRequest src ?branch) v sch) = Inr sch'"
    using assms(1) False by (auto simp: schedule_root_def Let_def split: sum.splits)
  then obtain v where v: "r = Inr v" "schedule_spec rootIssue ?branch (is_pullRequest src ?branch) v sch = Inr sch'"
    by (auto simp: bind_error_Inr)
  have "list_all (leaf_ok src) (vs_leaves v)" using visit_children_leaves [OF r(1)] v(1) by simp
  then show ?thesis by (rule schedule_spec_entry [OF v(2) _ u])
qed

lemma schedule_roots_entries:
  "schedule_roots src roots sch = Some (Inr sch') \<Longrightarrow> list_all (loaded src) roots \<Longrightarrow>
     mset (sch_roots sch') \<subseteq># mset (sch_roots sch) + mset (map gi_number roots) \<and>
     (\<forall>r\<in>set (sch_runnable sch'). r \<in> set (sch_runnable sch) \<or> runnable_ok src r) \<and>
     (\<forall>f\<in>set (sch_finalize sch'). f \<in> set (sch_finalize sch) \<or> finalize_ok f)"
proof (induction roots arbitrary: sch)
  case (Cons rootIssue roots)
  then obtain sch1 where s1: "schedule_root src rootIssue sch = Some (Inr sch1)"
    "schedule_roots src roots sch1 = Some (Inr sch')"
    by (auto split: option.splits sum.splits)
  have one: "one_entry src rootIssue sch sch1"
    by (rule schedule_root_entry [OF s1(1)]) (use Cons.prems(2) in simp)
  have rest: "mset (sch_roots sch') \<subseteq># mset (sch_roots sch1) + mset (map gi_number roots)"
    "\<forall>r\<in>set (sch_runnable sch'). r \<in> set (sch_runnable sch1) \<or> runnable_ok src r"
    "\<forall>f\<in>set (sch_finalize sch'). f \<in> set (sch_finalize sch1) \<or> finalize_ok f"
    using Cons.IH [OF s1(2)] Cons.prems(2) by auto
  have "mset (sch_roots sch1) \<subseteq># add_mset (gi_number rootIssue) (mset (sch_roots sch))"
    using one unfolding one_entry_def by (elim conjE disjE) simp_all
  then have "mset (sch_roots sch1) + mset (map gi_number roots)
      \<subseteq># mset (sch_roots sch) + mset (map gi_number (rootIssue # roots))"
    by (simp add: mset_subset_eq_mono_add)
  with rest(1) have "mset (sch_roots sch') \<subseteq># mset (sch_roots sch) + mset (map gi_number (rootIssue # roots))"
    by (rule subset_mset.order_trans)
  with rest(2,3) one show ?case unfolding one_entry_def by blast
qed simp

lemma distinct_counts: "distinct xs \<longleftrightarrow> (\<forall>x. count (mset xs) x \<le> 1)"
  unfolding distinct_count_atmost_1
  by (metis One_nat_def count_mset_0_iff le_Suc_eq le_zero_eq nat_le_linear zero_neq_one)

lemma scheduleIssueGraph_ok:
  assumes "scheduleIssueGraph src ready = Some (Inr sch)"
  shows "distinct (sch_roots sch) \<and> list_all (runnable_ok src) (sch_runnable sch) \<and>
    list_all finalize_ok (sch_finalize sch)"
proof -
  obtain roots where roots: "collect_roots src ready [] = Some (Inr roots)"
    "schedule_roots src roots empty_schedule = Some (Inr sch)"
    using assms by (auto simp: scheduleIssueGraph_def split: option.splits sum.splits)
  have ok: "list_all (loaded src) roots" "distinct (map gi_number roots)"
    using collect_roots_ok [OF roots(1)] by simp_all
  have entries: "mset (sch_roots sch) \<subseteq># mset (map gi_number roots)"
    "\<forall>r\<in>set (sch_runnable sch). runnable_ok src r" "\<forall>f\<in>set (sch_finalize sch). finalize_ok f"
    using schedule_roots_entries [OF roots(2) ok(1)] by (auto simp: empty_schedule_def sch_roots_def)
  have "distinct (sch_roots sch)"
    using entries(1) ok(2) unfolding distinct_counts
    by (blast intro: order.trans mset_subset_eq_count)
  with entries(2,3) show ?thesis by (simp add: list_all_iff)
qed

lemma schedule_roots_total:
  assumes "known_issues src ns"
  shows "list_all (loaded src) roots \<Longrightarrow> \<exists>r. schedule_roots src roots sch = Some r"
proof (induction roots arbitrary: sch)
  case (Cons rootIssue roots)
  have known: "gi_number rootIssue \<in> ns" using Cons.prems loaded_known [OF assms] by simp
  have "\<exists>r. schedule_root src rootIssue sch = Some r"
    using visit_children_total [OF assms, of "\<lparr>vs_leaves = [], vs_containers = [rootIssue],
        vs_descendants = [], vs_visited = [gi_number rootIssue]\<rparr>" rootIssue
        "[issue_identity_of rootIssue]" "gi_childNumbers rootIssue" "[]"] known
    by (auto simp: schedule_root_def Let_def split: sum.split)
  then obtain r where "schedule_root src rootIssue sch = Some r" by blast
  then show ?case using Cons by (cases r) auto
qed simp

lemma scheduleIssueGraph_total:
  assumes "known_issues src ns"
  shows "\<exists>r. scheduleIssueGraph src ready = Some r"
proof -
  obtain r where r: "collect_roots src ready [] = Some r" using collect_roots_total [OF assms] by blast
  show ?thesis
  proof (cases r)
    case (Inr roots)
    then have "list_all (loaded src) roots" using collect_roots_ok [of src ready "[]"] r by simp
    then show ?thesis using schedule_roots_total [OF assms] r Inr by (simp add: scheduleIssueGraph_def)
  qed (simp add: r scheduleIssueGraph_def)
qed

end
