(* ===== verification/More_Samples.thy ===== *)
theory More_Samples
  imports Samples Workspace_Tree Update_Machine Minimize_Layout Respawn Issue_Graph_Facts
begin

text \<open>Concrete inputs for the workspace tree, the updater, the respawn and the issue graph.\<close>

section \<open>A workspace tree with a cycle\<close>

definition sample_ws :: "string \<Rightarrow> string option \<Rightarrow> workspace_input" where
  "sample_ws i p = \<lparr>wi_id = i, wi_parentTaskId = p\<rparr>"

definition family :: "workspace_input list" where
  "family = [sample_ws ''a'' None, sample_ws ''b'' (Some ''a''), sample_ws ''c'' (Some ''b''),
     sample_ws ''d'' (Some ''e''), sample_ws ''e'' (Some ''d'')]"

lemma family_ok: "distinct (map wi_id family)" "[] \<notin> wi_id ` set family"
  by (simp_all add: family_def sample_ws_def)

section \<open>An updater with a downloaded version\<close>

definition ready_updater :: updater where
  "ready_updater = configureAutoUpdater ''darwin'' ''arm64'' False ''1.0'' True False"

definition offered :: updater where
  "offered = on_update_available (Some ''1.1'') ''t'' ready_updater"

definition downloaded :: updater where
  "downloaded = download_settles None (on_update_downloaded (Some ''1.1'') (snd (download_begins offered)))"

lemma downloaded_run: "updater_step\<^sup>*\<^sup>* ready_updater downloaded"
proof -
  have "updater_step\<^sup>*\<^sup>* ready_updater offered"
    unfolding offered_def by (rule r_into_rtranclp, rule updater_step.available)
  moreover have "updater_step offered (snd (download_begins offered))" by (rule updater_step.download)
  moreover have "updater_step (snd (download_begins offered))
      (on_update_downloaded (Some ''1.1'') (snd (download_begins offered)))"
    by (rule updater_step.complete)
  moreover have "updater_step (on_update_downloaded (Some ''1.1'') (snd (download_begins offered))) downloaded"
    unfolding downloaded_def by (rule updater_step.download_done) code_simp
  ultimately show ?thesis by (meson rtranclp.rtrancl_into_rtrancl)
qed

section \<open>Respawning\<close>

text \<open>The server is still initialising at the first call and refuses the third.\<close>

definition busy_server :: "nat \<Rightarrow> spawn_payload \<Rightarrow> spawn_result outcome" where
  "busy_server n p =
     (if n = 0 then RejectedError ''Server is still initializing''
      else if n = 2 then RejectedError ''no shell''
      else Resolved \<lparr>sr_command = ''sh'', sr_id = ''new'', sr_status = ''running''\<rparr>)"

definition two_retries :: retry_options where
  "two_retries = \<lparr>ro_baseDelayMs = None, ro_maxRetries = Some 2\<rparr>"

section \<open>An issue graph\<close>

definition sha40 :: string where
  "sha40 = replicate 40 (CHR ''a'')"

definition sample_issue :: "nat \<Rightarrow> nat list \<Rightarrow> issue_identity list \<Rightarrow> nat option \<Rightarrow> github_issue" where
  "sample_issue n cs bs p = \<lparr>gi_number = n, gi_title = ''t'', gi_childNumbers = cs, gi_openBlockers = bs,
     gi_parentNumber = p, gi_state = IssueOpen\<rparr>"

definition spec_pr :: pull_request where
  "spec_pr = \<lparr>pr_baseRefName = ''main'',
     pr_body = (case implementationMarker 2 sha40 of Inr m \<Rightarrow> m | Inl _ \<Rightarrow> ''''),
     pr_headRefName = ''sandcastle/spec-1'', pr_isCrossRepository = False, pr_isDraft = True,
     pr_state = PrOpen, pr_url = ''u''\<rparr>"

text \<open>Issue 3 is blocked by issue 2, which the pull request has implemented.\<close>

definition sample_source :: issue_source where
  "sample_source = \<lparr>is_baseBranch = ''main'',
     is_issue = (\<lambda>n. if n = 1 then Some (sample_issue 1 [2, 3] [] None)
       else if n = 2 then Some (sample_issue 2 [] [] (Some 1))
       else if n = 3 then Some (sample_issue 3 [] [\<lparr>ii_number = 2, ii_title = ''t''\<rparr>] (Some 1))
       else None),
     is_pullRequest = (\<lambda>b. if b = ''sandcastle/spec-1'' then Some spec_pr else None)\<rparr>"

lemma sample_known: "known_issues sample_source {1, 2, 3}"
  by (simp add: known_issues_def sample_source_def)

section \<open>A pull request body with an old marker\<close>

definition spec_body :: string where
  "spec_body = ''Tracks #1'' @ newline # ''<!-- sandcastle-reviewed-head:@'' @ replicate 40 (CHR ''b'') @ '' -->''"

lemma spec_body_records: "\<exists>b. recordReviewedHead spec_body sha40 = Inr b"
  by (simp add: recordReviewedHead_def reviewedHeadMarker_def commitSha_def sha40_def is_hex_def Let_def
      list_all_iff)

lemma spec_body_clean: "match_all match_reviewed (trimEnd (remove_all match_reviewed spec_body)) = []"
  by code_simp

section \<open>Respawning two panes of the sample window\<close>

definition sample_respawned :: respawn_state where
  "sample_respawned = \<lparr>rs_respawnedIds = [''t2'' \<mapsto> ''new''], rs_failedStaleIds = [''t3''],
     rs_spawned = [(\<lparr>sr_command = ''sh'', sr_id = ''new'', sr_status = ''running''\<rparr>, ''w1'')],
     rs_calls = 3, rs_delays = [500]\<rparr>"

lemma sample_stale:
  "getStaleTerminalLeavesHierarchical sample_window {''t1'', ''t4'', ''t5''} =
     [\<lparr>stale_command = None, stale_paneId = ''b'', stale_terminalId = ''t2'', stale_workspaceId = Some ''w1''\<rparr>,
      \<lparr>stale_command = None, stale_paneId = ''c'', stale_terminalId = ''t3'', stale_workspaceId = Some ''w1''\<rparr>]"
  by (simp add: getStaleTerminalLeavesHierarchical_def sample_defs)

lemma sample_respawn:
  "respawnStaleTerminals busy_server two_retries {''t1'', ''t4'', ''t5''}
      (getStaleTerminalLeavesHierarchical sample_window {''t1'', ''t4'', ''t5''})
     = ({''t1'', ''t4'', ''t5''} \<union> {''t3''}, [''t2'' \<mapsto> ''new''], sample_respawned)"
  unfolding sample_stale
  by (simp add: respawnStaleTerminals_def respawn_leaf_def respawn_start_def spawnWithRetry_def
      retryOnInitializing_def two_retries_def retry_loop.simps busy_server_def isInitializing_def
      sample_respawned_def Let_def)

lemma sample_reconciled:
  "map leaf_terminalId (map (reconcile_leaf ({''t1'', ''t4'', ''t5''} \<union> {''t3''}) [''t2'' \<mapsto> ''new''])
      (window_panes sample_window))
     = [Some ''t1'', Some ''new'', Some ''t3'', Some ''t4'', Some ''t5'']"
  by (simp add: window_panes_def tile_panes_def getAllWorkspaceTileLeaves_def sample_defs
      reconcile_leaf_def is_stale_def)

end
