(* ===== verification/Utf16.thy ===== *)
theory Utf16
  imports Prelude "HOL-Library.Word"
begin

text \<open>
  JavaScript strings as lists of 16-bit code units, the iteration of \<open>for (const c of s)\<close> over
  their code points, and the number of bytes that \<open>TextEncoder\<close> produces for them: a surrogate
  pair is one code point of four bytes, a lone surrogate is encoded as the three bytes of the
  replacement character.
\<close>

type_synonym js_string = "16 word list"

definition high_surrogate :: "16 word \<Rightarrow> bool" where
  "high_surrogate u \<longleftrightarrow> 0xD800 \<le> u \<and> u \<le> 0xDBFF"

definition low_surrogate :: "16 word \<Rightarrow> bool" where
  "low_surrogate u \<longleftrightarrow> 0xDC00 \<le> u \<and> u \<le> 0xDFFF"

fun code_points :: "js_string \<Rightarrow> js_string list" where
  "code_points [] = []"
| "code_points [u] = [[u]]"
| "code_points (u # v # us) =
     (if high_surrogate u \<and> low_surrogate v then [u, v] # code_points us
      else [u] # code_points (v # us))"

fun code_point_bytes :: "js_string \<Rightarrow> nat" where
  "code_point_bytes [u] = (if u < 0x80 then 1 else if u < 0x800 then 2 else 3)"
| "code_point_bytes _ = 4"

definition utf8Bytes :: "js_string \<Rightarrow> nat" where
  "utf8Bytes s = sum_list (map code_point_bytes (code_points s))"

section \<open>Code points\<close>

definition is_code_point :: "js_string \<Rightarrow> bool" where
  "is_code_point c \<longleftrightarrow>
     (\<exists>u. c = [u]) \<or> (\<exists>u v. c = [u, v] \<and> high_surrogate u \<and> low_surrogate v)"

definition pairs_up :: "js_string \<Rightarrow> js_string \<Rightarrow> bool" where
  "pairs_up c d \<longleftrightarrow> length c = 1 \<and> high_surrogate (hd c) \<and> low_surrogate (hd d)"

fun code_points_ok :: "js_string list \<Rightarrow> bool" where
  "code_points_ok [] = True"
| "code_points_ok [c] = is_code_point c"
| "code_points_ok (c # d # cs) =
     (is_code_point c \<and> \<not> pairs_up c d \<and> code_points_ok (d # cs))"

lemma concat_code_points [simp]: "concat (code_points s) = s"
  by (induction s rule: code_points.induct) auto

lemma code_points_hd: "s \<noteq> [] \<Longrightarrow> \<exists>c cs. code_points s = c # cs \<and> c \<noteq> [] \<and> hd c = hd s"
  by (cases s rule: code_points.cases) auto

lemma code_points_ok_Cons:
  "code_points_ok (c # cs) \<longleftrightarrow>
     is_code_point c \<and> code_points_ok cs \<and> (cs = [] \<or> \<not> pairs_up c (hd cs))"
  by (cases cs) auto

lemma code_points_code_points_ok: "code_points_ok (code_points s)"
proof (induction s rule: code_points.induct)
  case (3 u v us)
  show ?case
  proof (cases "high_surrogate u \<and> low_surrogate v")
    case True
    with 3(1) show ?thesis
      by (auto simp: code_points_ok_Cons is_code_point_def pairs_up_def)
  next
    case False
    from code_points_hd [of "v # us"] obtain c cs
      where cs: "code_points (v # us) = c # cs" "hd c = v" by auto
    with False 3(2) show ?thesis
      by (auto simp: code_points_ok_Cons is_code_point_def pairs_up_def)
  qed
qed (simp_all add: is_code_point_def)

lemma code_points_concat: "code_points_ok cs \<Longrightarrow> code_points (concat cs) = cs"
proof (induction cs)
  case Nil
  then show ?case by simp
next
  case (Cons c cs)
  then have IH: "code_points (concat cs) = cs" and c: "is_code_point c"
    and apart: "cs = [] \<or> \<not> pairs_up c (hd cs)" by (auto simp: code_points_ok_Cons)
  show ?case
  proof (cases "\<exists>u v. c = [u, v]")
    case True
    then show ?thesis using c IH by (auto simp: is_code_point_def)
  next
    case False
    then obtain u where u: "c = [u]" using c by (auto simp: is_code_point_def)
    show ?thesis
    proof (cases "concat cs")
      case Nil
      have "cs = []" using IH unfolding Nil by simp
      then show ?thesis using u by simp
    next
      case (Cons v us)
      with code_points_hd [of "concat cs"] IH have "cs \<noteq> []" "hd (hd cs) = v" by auto
      then have "\<not> (high_surrogate u \<and> low_surrogate v)" using apart u by (auto simp: pairs_up_def)
      then show ?thesis using u IH Cons by auto
    qed
  qed
qed

lemma code_points_ok_append:
  "code_points_ok (xs @ ys) \<Longrightarrow> code_points_ok xs \<and> code_points_ok ys"
proof (induction xs)
  case Nil
  then show ?case by simp
next
  case (Cons c xs)
  then show ?case by (cases xs) (auto simp: code_points_ok_Cons)
qed

lemma code_points_is_code_point: "code_points_ok cs \<Longrightarrow> c \<in> set cs \<Longrightarrow> is_code_point c"
  by (induction cs) (auto simp: code_points_ok_Cons)

section \<open>Encoded length\<close>

lemma utf8Bytes_concat: "code_points_ok cs \<Longrightarrow> utf8Bytes (concat cs) = sum_list (map code_point_bytes cs)"
  by (simp add: utf8Bytes_def code_points_concat)

lemma utf8Bytes_code_point: "is_code_point c \<Longrightarrow> utf8Bytes c = code_point_bytes c"
  using utf8Bytes_concat [of "[c]"] by simp

lemma code_point_bytes_bounds: "1 \<le> code_point_bytes c" "code_point_bytes c \<le> 4"
  by (cases c rule: code_point_bytes.cases; simp)+

lemma utf8Bytes_Nil [simp]: "utf8Bytes [] = 0"
  by (simp add: utf8Bytes_def)

lemma utf8Bytes_eq_0 [simp]: "utf8Bytes s = 0 \<longleftrightarrow> s = []"
proof (cases "s = []")
  case False
  then obtain c cs where "code_points s = c # cs" using code_points_hd by blast
  then have "1 \<le> utf8Bytes s" using code_point_bytes_bounds(1) [of c] by (simp add: utf8Bytes_def)
  with False show ?thesis by simp
qed simp

lemma utf8Bytes_pos [simp]: "0 < utf8Bytes s \<longleftrightarrow> s \<noteq> []"
  using utf8Bytes_eq_0 [of s] by (simp del: utf8Bytes_eq_0 flip: neq0_conv)

lemma utf8Bytes_bounds: "length s \<le> utf8Bytes s" "utf8Bytes s \<le> 3 * length s"
  by (induction s rule: code_points.induct) (auto simp: utf8Bytes_def)

end
