(* ===== verification/Terminal_Transport.thy ===== *)
theory Terminal_Transport
  imports Utf16
begin

text \<open>
  \<open>packages/terminal/src/services/terminal-transport.ts\<close>: splitting terminal output into wire
  chunks of bounded size, and the journal of the last output from which a client resumes. An
  exception is \<open>Inl\<close>. Byte counts and cursors are naturals: the code's numbers count bytes of
  one terminal's output, far below \<open>2^53\<close>.
\<close>

datatype transport_error =
    CodePointTooLarge
  | JournalBoundNotPositive
  | EntryExceedsJournal

section \<open>Wire chunks\<close>

text \<open>The \<open>for ... of\<close> loop over code points with its three local variables.\<close>

fun split_loop ::
    "nat \<Rightarrow> js_string list \<Rightarrow> js_string list \<Rightarrow> js_string \<Rightarrow> nat
      \<Rightarrow> transport_error + js_string list" where
  "split_loop maximumBytes [] chunks chunk bytes =
     Inr (if 0 < length chunk then chunks @ [chunk] else chunks)"
| "split_loop maximumBytes (codePoint # rest) chunks chunk bytes =
     (let size = utf8Bytes codePoint
      in if maximumBytes < size then Inl CodePointTooLarge
         else if maximumBytes < bytes + size \<and> 0 < length chunk
         then split_loop maximumBytes rest (chunks @ [chunk]) codePoint size
         else split_loop maximumBytes rest chunks (chunk @ codePoint) (bytes + size))"

definition splitByUtf8Bytes :: "js_string \<Rightarrow> nat \<Rightarrow> transport_error + js_string list" where
  "splitByUtf8Bytes data maximumBytes =
     (if length data = 0 then Inr []
      else split_loop maximumBytes (code_points data) [] [] 0)"

section \<open>The journal\<close>

record journal_entry =
  je_bytes :: nat
  je_chars :: nat
  je_data :: js_string
  je_end :: nat
  je_start :: nat

record journal =
  j_bytes :: nat
  j_cursor :: nat
  j_entries :: "journal_entry list"
  j_maximumBytes :: nat

definition fresh_journal :: "nat \<Rightarrow> journal" where
  "fresh_journal maximumBytes =
     \<lparr>j_bytes = 0, j_cursor = 0, j_entries = [], j_maximumBytes = maximumBytes\<rparr>"

text \<open>\<open>Number.isSafeInteger(maximumBytes) && maximumBytes > 0\<close>.\<close>

definition newJournal :: "int \<Rightarrow> transport_error + journal" where
  "newJournal maximumBytes =
     (if maximumBytes \<le> 2 ^ 53 - 1 \<and> 0 < maximumBytes
      then Inr (fresh_journal (nat maximumBytes))
      else Inl JournalBoundNotPositive)"

definition minimumCursor :: "journal \<Rightarrow> nat" where
  "minimumCursor j = (case j_entries j of e # es \<Rightarrow> je_start e | [] \<Rightarrow> j_cursor j)"

text \<open>
  The loop \<open>while (this.#bytes > this.#maximumBytes)\<close>: \<open>shift\<close> on an empty array removes
  nothing, so the loop would not end; its result is then \<open>None\<close>.
\<close>

partial_function (option) evict_loop ::
    "nat \<Rightarrow> nat \<Rightarrow> journal_entry list \<Rightarrow> (nat \<times> journal_entry list) option" where
  "evict_loop maximumBytes bytes entries =
     (if bytes \<le> maximumBytes then Some (bytes, entries)
      else (case entries of
              [] \<Rightarrow> evict_loop maximumBytes bytes []
            | removed # rest \<Rightarrow> evict_loop maximumBytes (bytes - je_bytes removed) rest))"

declare evict_loop.simps [code]

definition journal_append ::
    "js_string \<Rightarrow> journal \<Rightarrow> (transport_error + nat \<times> journal) option" where
  "journal_append data j =
     (let bytes = utf8Bytes data
      in if j_maximumBytes j < bytes then Some (Inl EntryExceedsJournal)
         else
           (let start = j_cursor j;
                cursor = start + bytes;
                entry = \<lparr>je_bytes = bytes, je_chars = length data, je_data = data,
                         je_end = cursor, je_start = start\<rparr>
            in map_option (\<lambda>(b, es). Inr (cursor, j\<lparr>j_bytes := b, j_cursor := cursor, j_entries := es\<rparr>))
                 (evict_loop (j_maximumBytes j) (j_bytes j + bytes) (j_entries j @ [entry]))))"

definition retains :: "journal \<Rightarrow> nat \<Rightarrow> bool" where
  "retains j cursor =
     (if cursor < minimumCursor j \<or> j_cursor j < cursor then False
      else cursor = minimumCursor j \<or> cursor = j_cursor j
             \<or> list_ex (\<lambda>entry. je_end entry = cursor) (j_entries j))"

datatype reset_reason = EpochChanged | CursorOutOfRange

datatype attach_event =
    Snapshot nat js_string
  | Delta nat js_string
  | Meta string bool
  | ReplayComplete
  | ResetEvent string reset_reason
  | ExitEvent int int

definition deltasAfter :: "journal \<Rightarrow> nat \<Rightarrow> attach_event list" where
  "deltasAfter j cursor =
     (if \<not> retains j cursor then []
      else map (\<lambda>entry. Delta (je_end entry) (je_data entry))
             (filter (\<lambda>entry. cursor < je_end entry) (j_entries j)))"

definition charactersBetween :: "journal \<Rightarrow> nat \<Rightarrow> nat \<Rightarrow> nat" where
  "charactersBetween j start end' =
     (if \<not> (retains j start \<and> retains j end' \<and> start \<le> end') then 0
      else foldl (\<lambda>sum entry. sum + je_chars entry) 0
             (filter (\<lambda>entry. start < je_end entry \<and> je_end entry \<le> end') (j_entries j)))"

end
