(* ===== verification/Journal_Facts.thy ===== *)
theory Journal_Facts
  imports Terminal_Transport
begin

text \<open>
  Facts on the wire chunks and the journal. The abstract journal is the list of everything ever
  appended; the code's journal is a function of it (\<open>journal_of\<close>): it holds the longest suffix
  that fits the byte bound, with the cursors those chunks have in the whole hist.
\<close>

section \<open>Wire chunks\<close>

lemma split_loop_ok:
  assumes "code_points_ok (cps0 @ cps)" and "concat chunks @ chunk = concat cps0"
    and "chunk = concat part" and "code_points_ok (part @ cps)" and "bytes = utf8Bytes chunk"
    and "bytes \<le> cap" and "list_all (\<lambda>c. c \<noteq> [] \<and> utf8Bytes c \<le> cap) chunks"
    and "concat (map code_points chunks) @ part = cps0"
  shows "case split_loop cap cps chunks chunk bytes of
      Inl e \<Rightarrow> e = CodePointTooLarge \<and> (\<exists>c\<in>set cps. cap < code_point_bytes c)
    | Inr out \<Rightarrow> concat out = concat (cps0 @ cps) \<and> (\<forall>c\<in>set cps. code_point_bytes c \<le> cap) \<and>
        list_all (\<lambda>c. c \<noteq> [] \<and> utf8Bytes c \<le> cap) out \<and>
        concat (map code_points out) = cps0 @ cps"
  using assms
proof (induction cps arbitrary: cps0 chunks chunk bytes part)
  case Nil
  have part: "code_points chunk = part" using Nil.prems(3,4) code_points_concat by simp
  show ?case
  proof (cases "chunk = []")
    case True
    then have "part = []" using part by simp
    then show ?thesis using Nil.prems True by simp
  next
    case False
    then show ?thesis using Nil.prems part by simp
  qed
next
  case (Cons c cps)
  have c: "is_code_point c" and ok: "code_points_ok part" "code_points_ok (c # cps)"
    using Cons.prems(4) code_points_ok_append [of part "c # cps"]
      code_points_is_code_point [of "c # cps" c] by auto
  note size = utf8Bytes_code_point [OF c]
  have part: "code_points chunk = part" using Cons.prems(3) ok(1) code_points_concat by simp
  show ?case
  proof (cases "cap < code_point_bytes c")
    case True
    then show ?thesis by (simp add: size)
  next
    case fits: False
    show ?thesis
    proof (cases "cap < bytes + code_point_bytes c \<and> 0 < length chunk")
      case True
      have "c \<noteq> []" using c by (auto simp: is_code_point_def)
      have "case split_loop cap cps (chunks @ [chunk]) c (code_point_bytes c) of
          Inl e \<Rightarrow> e = CodePointTooLarge \<and> (\<exists>c\<in>set cps. cap < code_point_bytes c)
        | Inr out \<Rightarrow> concat out = concat ((cps0 @ [c]) @ cps) \<and> (\<forall>c\<in>set cps. code_point_bytes c \<le> cap) \<and>
            list_all (\<lambda>c. c \<noteq> [] \<and> utf8Bytes c \<le> cap) out \<and>
            concat (map code_points out) = (cps0 @ [c]) @ cps"
        by (rule Cons.IH [of "cps0 @ [c]" "chunks @ [chunk]" c "[c]"])
          (use Cons.prems True fits ok size part in auto)
      with True fits show ?thesis by (auto simp: size Let_def split: sum.splits)
    next
      case False
      have "utf8Bytes (chunk @ c) = bytes + code_point_bytes c"
      proof -
        have "code_points_ok (part @ [c])"
          using Cons.prems(4) code_points_ok_append [of "part @ [c]" cps] by simp
        from utf8Bytes_concat [OF this] utf8Bytes_concat [OF ok(1)] show ?thesis
          using Cons.prems(3,5) by simp
      qed
      moreover have "bytes + code_point_bytes c \<le> cap"
      proof (cases "chunk = []")
        case True
        then show ?thesis using Cons.prems(5) fits by simp
      next
        case ne: False
        with False show ?thesis by simp
      qed
      ultimately have "case split_loop cap cps chunks (chunk @ c) (bytes + code_point_bytes c) of
          Inl e \<Rightarrow> e = CodePointTooLarge \<and> (\<exists>c\<in>set cps. cap < code_point_bytes c)
        | Inr out \<Rightarrow> concat out = concat ((cps0 @ [c]) @ cps) \<and> (\<forall>c\<in>set cps. code_point_bytes c \<le> cap) \<and>
            list_all (\<lambda>c. c \<noteq> [] \<and> utf8Bytes c \<le> cap) out \<and>
            concat (map code_points out) = (cps0 @ [c]) @ cps"
        by (intro Cons.IH [where part = "part @ [c]"]) (use Cons.prems in auto)
      with False fits show ?thesis by (auto simp: size Let_def split: sum.splits)
    qed
  qed
qed

lemma splitByUtf8Bytes_cases:
  "case splitByUtf8Bytes data cap of
     Inl e \<Rightarrow> e = CodePointTooLarge \<and> (\<exists>c\<in>set (code_points data). cap < code_point_bytes c)
   | Inr out \<Rightarrow> concat out = data \<and> (\<forall>c\<in>set (code_points data). code_point_bytes c \<le> cap) \<and>
       list_all (\<lambda>c. c \<noteq> [] \<and> utf8Bytes c \<le> cap) out \<and>
       concat (map code_points out) = code_points data"
  using split_loop_ok [of "[]" "code_points data" "[]" "[]" "[]" 0 cap]
  by (auto simp: splitByUtf8Bytes_def code_points_code_points_ok split: sum.splits)

lemma splitByUtf8Bytes_total: "4 \<le> cap \<Longrightarrow> \<exists>out. splitByUtf8Bytes data cap = Inr out"
  using splitByUtf8Bytes_cases [of data cap] code_point_bytes_bounds(2)
  by (auto split: sum.splits dest: order.strict_trans2 order.trans simp: not_le [symmetric])

section \<open>The abstract journal\<close>

definition log_bytes :: "js_string list \<Rightarrow> nat" where
  "log_bytes hist = sum_list (map utf8Bytes hist)"

fun entries_from :: "nat \<Rightarrow> js_string list \<Rightarrow> journal_entry list" where
  "entries_from start [] = []"
| "entries_from start (d # ds) =
     \<lparr>je_bytes = utf8Bytes d, je_chars = length d, je_data = d, je_end = start + utf8Bytes d,
      je_start = start\<rparr> # entries_from (start + utf8Bytes d) ds"

text \<open>The longest suffix of the log that fits.\<close>

fun kept :: "nat \<Rightarrow> js_string list \<Rightarrow> js_string list" where
  "kept m [] = []"
| "kept m (d # ds) = (if log_bytes (d # ds) \<le> m then d # ds else kept m ds)"

definition journal_of :: "nat \<Rightarrow> js_string list \<Rightarrow> journal" where
  "journal_of m hist =
     \<lparr>j_bytes = log_bytes (kept m hist), j_cursor = log_bytes hist,
      j_entries = entries_from (log_bytes hist - log_bytes (kept m hist)) (kept m hist),
      j_maximumBytes = m\<rparr>"

lemma log_bytes_simps [simp]:
  "log_bytes [] = 0" "log_bytes (d # ds) = utf8Bytes d + log_bytes ds"
  "log_bytes (ds @ es) = log_bytes ds + log_bytes es"
  by (simp_all add: log_bytes_def)

lemma kept_suffix: "\<exists>k\<le>length hist. kept m hist = drop k hist"
proof (induction hist)
  case (Cons d ds)
  then obtain k where "k \<le> length ds" "kept m ds = drop k ds" by auto
  then show ?case by (intro exI [of _ "if log_bytes (d # ds) \<le> m then 0 else Suc k"]) auto
qed simp

lemma kept_fits: "log_bytes (kept m hist) \<le> m"
  by (induction hist) auto

lemma kept_all: "log_bytes hist \<le> m \<Longrightarrow> kept m hist = hist"
  by (cases hist) auto

lemma kept_bytes: "log_bytes (kept m hist) \<le> log_bytes hist"
  by (induction hist) auto

lemma kept_longest: "log_bytes (drop k hist) \<le> m \<Longrightarrow> length (drop k hist) \<le> length (kept m hist)"
proof (induction hist arbitrary: k)
  case (Cons d ds)
  then show ?case by (cases k) auto
qed simp

lemma kept_append: "kept m (kept m ds @ es) = kept m (ds @ es)"
proof (induction ds)
  case (Cons d ds)
  then show ?case by (cases "log_bytes (d # ds) \<le> m") auto
qed simp

lemma entries_from_append:
  "entries_from s (ds @ es) = entries_from s ds @ entries_from (s + log_bytes ds) es"
  by (induction ds arbitrary: s) (simp_all add: add.assoc)

lemma evict_loop_kept:
  "evict_loop m (log_bytes ds) (entries_from s ds)
     = Some (log_bytes (kept m ds), entries_from (s + log_bytes ds - log_bytes (kept m ds)) (kept m ds))"
proof (induction ds arbitrary: s)
  case Nil
  show ?case by (subst evict_loop.simps) simp
next
  case (Cons d ds)
  have "log_bytes (kept m ds) \<le> log_bytes ds" by (rule kept_bytes)
  with Cons [of "s + utf8Bytes d"] show ?case
    by (subst evict_loop.simps) (simp add: add.assoc)
qed

lemma journal_append_of:
  "journal_append d (journal_of m hist) =
     Some (if m < utf8Bytes d then Inl EntryExceedsJournal
           else Inr (log_bytes (hist @ [d]), journal_of m (hist @ [d])))"
proof (cases "m < utf8Bytes d")
  case True
  then show ?thesis by (simp add: journal_append_def journal_of_def)
next
  case False
  let ?k = "kept m hist" and ?s = "log_bytes hist - log_bytes (kept m hist)"
  have le: "log_bytes ?k \<le> log_bytes hist" by (rule kept_bytes)
  have "entries_from ?s (?k @ [d]) = entries_from ?s ?k @
      [\<lparr>je_bytes = utf8Bytes d, je_chars = length d, je_data = d,
        je_end = log_bytes hist + utf8Bytes d, je_start = log_bytes hist\<rparr>]"
    using le by (simp add: entries_from_append)
  with evict_loop_kept [of m "?k @ [d]" ?s] le False show ?thesis
    by (simp add: journal_append_def journal_of_def Let_def kept_append)
qed

lemma fresh_journal_of: "fresh_journal m = journal_of m []"
  by (simp add: fresh_journal_def journal_of_def)

lemma newJournal_of: "newJournal m = Inr j \<Longrightarrow> j = journal_of (nat m) [] \<and> 0 < nat m"
  by (auto simp: newJournal_def fresh_journal_of split: if_splits)

section \<open>Cursors\<close>

lemma entries_from_ends:
  "je_end ` set (entries_from s ds) = {s + log_bytes (take (Suc i) ds) | i. i < length ds}"
proof (induction ds arbitrary: s)
  case (Cons d ds)
  have "{s + log_bytes (take (Suc i) (d # ds)) | i. i < Suc (length ds)}
      = insert (s + utf8Bytes d) {s + utf8Bytes d + log_bytes (take (Suc i) ds) | i. i < length ds}"
    (is "?L = ?R")
  proof (intro set_eqI iffI)
    fix x assume "x \<in> ?L"
    then obtain i where "i < Suc (length ds)" "x = s + log_bytes (take (Suc i) (d # ds))" by auto
    then show "x \<in> ?R" by (cases i) (auto simp: add.assoc)
  next
    fix x assume "x \<in> ?R"
    then consider "x = s + utf8Bytes d"
      | i where "i < length ds" "x = s + utf8Bytes d + log_bytes (take (Suc i) ds)" by auto
    then show "x \<in> ?L"
    proof cases
      case 1
      then show ?thesis by (intro CollectI exI [of _ 0]) simp
    next
      case (2 i)
      then show ?thesis by (intro CollectI exI [of _ "Suc i"]) (simp add: add.assoc)
    qed
  qed
  with Cons [of "s + utf8Bytes d"] show ?case by simp
qed simp

lemma log_bytes_take_le: "log_bytes (take k hist) \<le> log_bytes hist"
  by (metis append_take_drop_id le_add1 log_bytes_simps(3))

lemma log_bytes_take_mono: "i \<le> k \<Longrightarrow> log_bytes (take i hist) \<le> log_bytes (take k hist)"
  using log_bytes_take_le [of i "take k hist"] by (simp add: min_def)

text \<open>A chunk boundary at or after the first retained chunk.\<close>

lemma minimumCursor_of: "minimumCursor (journal_of m hist) = log_bytes hist - log_bytes (kept m hist)"
  using kept_bytes [of m hist]
  by (cases "kept m hist") (simp_all add: minimumCursor_def journal_of_def)

lemma kept_cut:
  obtains n where "n \<le> length hist" "kept m hist = drop n hist"
    "log_bytes hist - log_bytes (kept m hist) = log_bytes (take n hist)"
proof -
  obtain n where n: "n \<le> length hist" "kept m hist = drop n hist" using kept_suffix by blast
  have "log_bytes hist = log_bytes (take n hist) + log_bytes (drop n hist)"
    by (metis append_take_drop_id log_bytes_simps(3))
  with n that show thesis by simp
qed

lemma retains_of:
  "retains (journal_of m hist) c \<longleftrightarrow>
     (\<exists>k\<le>length hist. c = log_bytes (take k hist) \<and> log_bytes (take k hist) + log_bytes (kept m hist)
        \<ge> log_bytes hist)"
  (is "?L \<longleftrightarrow> ?R")
proof -
  obtain n where n: "n \<le> length hist" "kept m hist = drop n hist"
    and cut: "log_bytes hist - log_bytes (kept m hist) = log_bytes (take n hist)"
    by (rule kept_cut)
  have total: "log_bytes hist = log_bytes (take n hist) + log_bytes (kept m hist)"
    using cut kept_bytes [of m hist] by linarith
  have take_drop: "log_bytes (take n hist) + log_bytes (take i (drop n hist)) = log_bytes (take (n + i) hist)"
    for i by (simp add: take_add)
  have ends: "list_ex (\<lambda>e. je_end e = c) (j_entries (journal_of m hist)) \<longleftrightarrow>
      (\<exists>i<length hist - n. c = log_bytes (take (Suc (n + i)) hist))"
  proof -
    have "list_ex (\<lambda>e. je_end e = c) (j_entries (journal_of m hist)) \<longleftrightarrow>
        c \<in> je_end ` set (entries_from (log_bytes (take n hist)) (drop n hist))"
      by (auto simp: list_ex_iff journal_of_def cut [unfolded n(2)] n(2))
    also have "\<dots> \<longleftrightarrow> (\<exists>i<length hist - n. c = log_bytes (take (Suc (n + i)) hist))"
      unfolding entries_from_ends take_drop by auto
    finally show ?thesis .
  qed
  show ?thesis
  proof
    assume ?L
    then have "c = log_bytes (take n hist) \<or> c = log_bytes hist \<or>
        (\<exists>i<length hist - n. c = log_bytes (take (Suc (n + i)) hist))"
      unfolding retains_def minimumCursor_of cut ends by (auto simp: journal_of_def split: if_splits)
    then show ?R
    proof (elim disjE exE conjE)
      assume "c = log_bytes hist"
      then show ?R by (intro exI [of _ "length hist"]) (simp add: kept_bytes)
    next
      fix i assume "i < length hist - n" "c = log_bytes (take (Suc (n + i)) hist)"
      moreover have "log_bytes (take n hist) \<le> log_bytes (take (Suc (n + i)) hist)"
        by (rule log_bytes_take_mono) simp
      ultimately show ?R using total by (intro exI [of _ "Suc (n + i)"]) auto
    qed (use n(1) total in auto)
  next
    assume ?R
    then obtain k where k: "k \<le> length hist" "c = log_bytes (take k hist)"
      "log_bytes (take n hist) \<le> c" using total by auto
    have "c = log_bytes (take n hist) \<or> (\<exists>i<length hist - n. c = log_bytes (take (Suc (n + i)) hist))"
    proof (cases "k \<le> n")
      case True
      then show ?thesis using log_bytes_take_mono [OF True, of hist] k by auto
    next
      case False
      then have "k = Suc (n + (k - Suc n))" "k - Suc n < length hist - n" using k(1) by auto
      then show ?thesis using k(2) by metis
    qed
    then show ?L
      using k(2,3) log_bytes_take_le [of k hist]
      unfolding retains_def minimumCursor_of cut ends by (auto simp: journal_of_def)
  qed
qed

lemma entries_from_after:
  "\<forall>e\<in>set (entries_from s ds). s \<le> je_start e \<and> je_end e = je_start e + je_bytes e \<and>
     je_bytes e = utf8Bytes (je_data e) \<and> je_chars e = length (je_data e) \<and> je_end e \<le> s + log_bytes ds"
proof (induction ds arbitrary: s)
  case (Cons d ds)
  from Cons [of "s + utf8Bytes d"] show ?case by fastforce
qed simp

text \<open>What is sent after a cursor, and how many characters lie between two cursors.\<close>

lemma entry_after_start:
  assumes "e \<in> set (entries_from s ds)" and "je_data e \<noteq> []"
  shows "s < je_end e"
proof -
  from assms(1) entries_from_after [of s ds]
  have "s \<le> je_start e" "je_end e = je_start e + je_bytes e" "je_bytes e = utf8Bytes (je_data e)"
    by blast+
  moreover have "0 < utf8Bytes (je_data e)" using assms(2) by simp
  ultimately show ?thesis by linarith
qed

lemma concat_entries: "concat (map je_data (entries_from s ds)) = concat ds"
  by (induction ds arbitrary: s) auto

lemma entries_from_data: "map je_data (entries_from s ds) = ds" "length (entries_from s ds) = length ds"
  by (induction ds arbitrary: s) auto

lemma concat_filter_nonempty:
  "\<forall>e\<in>set es. je_data e \<noteq> [] \<longrightarrow> P e \<Longrightarrow>
     concat (map je_data (filter P es)) = concat (map je_data es)"
  by (induction es) auto

lemma replay_entries:
  "concat (map je_data (filter (\<lambda>e. s + log_bytes (take k ds) < je_end e) (entries_from s ds)))
     = concat (drop k ds)"
proof (induction ds arbitrary: s k)
  case (Cons d ds)
  show ?case
  proof (cases k)
    case 0
    have "concat (map je_data (filter (\<lambda>e. s < je_end e) (entries_from s (d # ds))))
        = concat (map je_data (entries_from s (d # ds)))"
      by (rule concat_filter_nonempty) (use entry_after_start in blast)
    with 0 show ?thesis by (simp only: concat_entries take_0 drop_0 log_bytes_simps add_0_right)
  next
    case (Suc k')
    then show ?thesis using Cons [of "s + utf8Bytes d" k'] by (simp add: add.assoc)
  qed
qed simp

lemma length_concat_foldl: "foldl (\<lambda>n e. n + je_chars e) a es = a + sum_list (map je_chars es)"
  by (induction es arbitrary: a) simp_all

lemma entries_chars:
  "sum_list (map je_chars (filter P (entries_from s ds)))
     = length (concat (map je_data (filter P (entries_from s ds))))"
  by (induction ds arbitrary: s) auto

lemma journal_replay:
  assumes "c = log_bytes (take k hist)" and "k \<le> length hist" and "retains (journal_of m hist) c"
  shows "concat (map je_data (filter (\<lambda>e. c < je_end e) (j_entries (journal_of m hist))))
    = concat (drop k hist)"
proof -
  obtain n where n: "n \<le> length hist" "kept m hist = drop n hist"
    and cut: "log_bytes hist - log_bytes (kept m hist) = log_bytes (take n hist)"
    by (rule kept_cut)
  have le: "log_bytes (take n hist) \<le> log_bytes (take k hist)"
    using assms(1,3) unfolding retains_def minimumCursor_of cut by (auto split: if_splits)
  have drop_empty: "concat (drop i hist) = concat (drop j hist)"
    if "i \<le> j" "log_bytes (take i hist) = log_bytes (take j hist)" for i j
  proof -
    have "take j hist = take i hist @ take (j - i) (drop i hist)" using that(1) by (metis le_add_diff_inverse take_add)
    then have "log_bytes (take (j - i) (drop i hist)) = 0" using that(2) by simp
    then have "concat (take (j - i) (drop i hist)) = []" by (auto simp: log_bytes_def)
    moreover have "drop i hist = take (j - i) (drop i hist) @ drop j hist"
      using that(1) by (metis append_take_drop_id drop_drop le_add_diff_inverse2)
    ultimately show ?thesis by (metis append_Nil concat_append)
  qed
  define i where "i = max n k"
  have i: "n \<le> i" "log_bytes (take i hist) = log_bytes (take k hist)"
    using le log_bytes_take_mono [of k n hist] by (auto simp: i_def max_def)
  have "concat (drop i hist) = concat (drop k hist)"
    using drop_empty [of k i] i(2) by (simp add: i_def)
  moreover have "c = log_bytes (take n hist) + log_bytes (take (i - n) (drop n hist))"
    using i assms(1) by (metis le_add_diff_inverse log_bytes_simps(3) take_add)
  ultimately show ?thesis
    using replay_entries [of "log_bytes (take n hist)" "i - n" "drop n hist"] i(1)
    by (simp add: journal_of_def cut [unfolded n(2)] n(2))
qed

lemma filter_split_sum:
  assumes "(a :: nat) \<le> b"
  shows "sum_list (map g (filter (\<lambda>e. a < je_end e \<and> je_end e \<le> b) es))
       + sum_list (map g (filter (\<lambda>e. b < je_end e) es))
     = (sum_list (map g (filter (\<lambda>e. a < je_end e) es)) :: nat)"
  using assms by (induction es) auto

lemma journal_replay_chars:
  assumes "c = log_bytes (take k hist)" and "k \<le> length hist" and "retains (journal_of m hist) c"
  shows "sum_list (map je_chars (filter (\<lambda>e. c < je_end e) (j_entries (journal_of m hist))))
    = length (concat (drop k hist))"
proof -
  have "sum_list (map je_chars (filter P (j_entries (journal_of m hist))))
      = length (concat (map je_data (filter P (j_entries (journal_of m hist)))))" for P
    by (simp add: journal_of_def entries_chars)
  then show ?thesis using journal_replay [OF assms] by simp
qed

lemma charactersBetween_of:
  assumes "a = log_bytes (take i hist)" and "i \<le> length hist" and "retains (journal_of m hist) a"
    and "b = log_bytes (take k hist)" and "k \<le> length hist" and "retains (journal_of m hist) b"
    and "a \<le> b"
  shows "charactersBetween (journal_of m hist) a b + length (concat (drop k hist))
    = length (concat (drop i hist))"
  using filter_split_sum [OF assms(7), of je_chars "j_entries (journal_of m hist)"]
    journal_replay_chars [OF assms(1-3)] journal_replay_chars [OF assms(4-6)] assms(3,6,7)
  by (simp add: charactersBetween_def length_concat_foldl)

lemma charactersBetween_lost: "\<not> retains j a \<Longrightarrow> charactersBetween j a b = 0"
  by (simp add: charactersBetween_def)

lemma retains_cursor: "retains (journal_of m hist) (log_bytes hist)"
  unfolding retains_of by (intro exI [of _ "length hist"]) (simp add: kept_bytes)

end
