(* ===== verification/Credit_Lane.thy ===== *)
theory Credit_Lane
  imports Prelude
begin

text \<open>
  The flow-control lane the terminal manager relies on, as a contract: consumers join and leave,
  emitted characters are debt, acknowledgements are credit. A provider promises how each call
  changes the debt and the number of consumers, and that a valid lane without debt, or without
  consumers, runs. What follows for a client is proved once.
\<close>

locale credit_lane =
  fixes emit credit :: "nat \<Rightarrow> 'f \<Rightarrow> 'f" and join leave :: "'f \<Rightarrow> 'f"
    and debt consumers :: "'f \<Rightarrow> nat" and valid running :: "'f \<Rightarrow> bool"
  assumes valid_emit: "valid f \<Longrightarrow> valid (emit n f)"
    and valid_credit: "valid f \<Longrightarrow> valid (credit n f)"
    and valid_join: "valid f \<Longrightarrow> valid (join f)"
    and valid_leave: "valid f \<Longrightarrow> valid (leave f)"
    and debt_emit: "debt (emit n f) \<le> debt f + n"
    and debt_credit: "debt (credit n f) = debt f - n"
    and debt_join: "debt (join f) = 0"
    and debt_leave: "debt (leave f) \<le> debt f"
    and consumers_credit: "consumers (credit n f) = consumers f"
    and consumers_join: "consumers (join f) = consumers f + 1"
    and consumers_leave: "consumers (leave f) = consumers f - 1"
    and no_debt_runs: "valid f \<Longrightarrow> debt f = 0 \<Longrightarrow> running f"
    and unwatched_runs: "valid f \<Longrightarrow> consumers f = 0 \<Longrightarrow> running f"
begin

lemma leave_all:
  "valid f \<Longrightarrow> valid ((leave ^^ n) f) \<and> consumers ((leave ^^ n) f) = consumers f - n"
  by (induction n) (simp_all add: valid_leave consumers_leave)

lemma all_left_runs: "valid f \<Longrightarrow> consumers f \<le> n \<Longrightarrow> running ((leave ^^ n) f)"
  using leave_all [of f n] unwatched_runs by simp

lemma credits:
  "valid f \<Longrightarrow> valid (fold credit ns f) \<and> debt (fold credit ns f) = debt f - sum_list ns \<and>
     consumers (fold credit ns f) = consumers f"
  by (induction ns arbitrary: f) (simp_all add: valid_credit debt_credit consumers_credit)

lemma settled_runs: "valid f \<Longrightarrow> debt f \<le> sum_list ns \<Longrightarrow> running (fold credit ns f)"
  using credits [of f ns] no_debt_runs by simp

lemma emits: "valid f \<Longrightarrow> valid (fold emit ns f) \<and> debt (fold emit ns f) \<le> debt f + sum_list ns"
proof (induction ns arbitrary: f)
  case (Cons n ns)
  then show ?case using debt_emit [of n f] valid_emit [of f n] by fastforce
qed simp

text \<open>What was emitted since a consumer joined is all it has to acknowledge.\<close>

lemma join_emit_settle:
  assumes "valid f" and "sum_list ns \<le> sum_list ms"
  shows "running (fold credit ms (fold emit ns (join f)))"
  using emits [OF valid_join [OF assms(1)], of ns] assms(2) debt_join [of f]
  by (intro settled_runs) auto

end

end
