(* ===== verification/Flow_Control.thy ===== *)
theory Flow_Control
  imports Credit_Lane
begin

text \<open>
  Flow control of one PTY in \<open>packages/terminal/src/services/pty-direct.ts\<close>: while a client is
  attached, emitted characters count as debt until they are acknowledged; above the high
  watermark the PTY is paused, below the low one it is resumed. \<open>flow_pty\<close> is the entry of
  \<open>ptys\<close>, with whether the process was told to pause.
\<close>

record flow_state =
  fs_paused :: bool
  fs_unacked :: nat

record pty_flow =
  flow_state :: "flow_state option"
  flow_consumers :: nat
  flow_pty :: "bool option"

definition pause_pty :: "pty_flow \<Rightarrow> pty_flow" where
  "pause_pty f = f\<lparr>flow_pty := map_option (\<lambda>_. True) (flow_pty f)\<rparr>"

definition resume_pty :: "pty_flow \<Rightarrow> pty_flow" where
  "resume_pty f = f\<lparr>flow_pty := map_option (\<lambda>_. False) (flow_pty f)\<rparr>"

definition clearFlowControl :: "pty_flow \<Rightarrow> pty_flow" where
  "clearFlowControl f =
     (case flow_state f of
        None \<Rightarrow> f
      | Some st \<Rightarrow>
          (if fs_paused st then resume_pty f else f)
            \<lparr>flow_state := Some \<lparr>fs_paused = False, fs_unacked = 0\<rparr>\<rparr>)"

definition trackEmittedChars :: "nat \<Rightarrow> nat \<Rightarrow> pty_flow \<Rightarrow> pty_flow" where
  "trackEmittedChars highWatermarkChars charCount f =
     (case flow_state f of
        None \<Rightarrow> f
      | Some st \<Rightarrow>
          if \<not> 0 < flow_consumers f then f
          else
            (let st' = st\<lparr>fs_unacked := fs_unacked st + charCount\<rparr>
             in if \<not> fs_paused st' \<and> highWatermarkChars < fs_unacked st' \<and> flow_pty f \<noteq> None
                then (pause_pty f)\<lparr>flow_state := Some (st'\<lparr>fs_paused := True\<rparr>)\<rparr>
                else f\<lparr>flow_state := Some st'\<rparr>))"

definition flow_ack :: "nat \<Rightarrow> nat \<Rightarrow> pty_flow \<Rightarrow> pty_flow" where
  "flow_ack lowWatermarkChars chars f =
     (case flow_state f of
        None \<Rightarrow> f
      | Some st \<Rightarrow>
          (let st' = st\<lparr>fs_unacked := fs_unacked st - chars\<rparr>
           in if fs_paused st' \<and> fs_unacked st' < lowWatermarkChars \<and> flow_pty f \<noteq> None
              then (resume_pty f)\<lparr>flow_state := Some (st'\<lparr>fs_paused := False\<rparr>)\<rparr>
              else f\<lparr>flow_state := Some st'\<rparr>))"

definition attachFlowControlConsumer :: "pty_flow \<Rightarrow> pty_flow" where
  "attachFlowControlConsumer f =
     clearFlowControl (f\<lparr>flow_consumers := flow_consumers f + 1\<rparr>)"

definition detachFlowControlConsumer :: "pty_flow \<Rightarrow> pty_flow" where
  "detachFlowControlConsumer f =
     (let n = flow_consumers f - 1
      in if n = 0 then clearFlowControl (f\<lparr>flow_consumers := 0\<rparr>) else f\<lparr>flow_consumers := n\<rparr>)"

text \<open>The flow-control part of a successful spawn and of the exit handler.\<close>

definition flow_spawn :: "pty_flow \<Rightarrow> pty_flow" where
  "flow_spawn f =
     f\<lparr>flow_pty := Some False, flow_state := Some \<lparr>fs_paused = False, fs_unacked = 0\<rparr>\<rparr>"

definition flow_exit :: "pty_flow \<Rightarrow> pty_flow" where
  "flow_exit f = f\<lparr>flow_pty := None, flow_state := None\<rparr>"

section \<open>The protocol\<close>

text \<open>
  The calls the rest of the system makes, with \<open>low < high\<close> checked at start-up.
\<close>

inductive flow_step :: "nat \<Rightarrow> nat \<Rightarrow> pty_flow \<Rightarrow> pty_flow \<Rightarrow> bool" for low high where
  spawn: "flow_step low high f (flow_spawn f)"
| exit: "flow_step low high f (flow_exit f)"
| emitted: "flow_step low high f (trackEmittedChars high n f)"
| acked: "flow_step low high f (flow_ack low n f)"
| attach: "flow_step low high f (attachFlowControlConsumer f)"
| detach: "flow_step low high f (detachFlowControlConsumer f)"

definition flow_init :: pty_flow where
  "flow_init = \<lparr>flow_state = None, flow_consumers = 0, flow_pty = None\<rparr>"

text \<open>
  The PTY is paused exactly when the state says so; unwatched terminals have no debt and run;
  a running one is not above the high watermark, a paused one not below the low one.
\<close>

definition flow_ok :: "nat \<Rightarrow> nat \<Rightarrow> pty_flow \<Rightarrow> bool" where
  "flow_ok low high f \<longleftrightarrow>
     flow_pty f = map_option fs_paused (flow_state f) \<and>
     (case flow_state f of
        None \<Rightarrow> True
      | Some st \<Rightarrow>
          (flow_consumers f = 0 \<longrightarrow> \<not> fs_paused st \<and> fs_unacked st = 0) \<and>
          (if fs_paused st then low \<le> fs_unacked st else fs_unacked st \<le> high))"

lemmas flow_defs = flow_ok_def clearFlowControl_def trackEmittedChars_def flow_ack_def
  attachFlowControlConsumer_def detachFlowControlConsumer_def flow_spawn_def flow_exit_def
  pause_pty_def resume_pty_def

lemma flow_step_ok:
  assumes "flow_step low high f f'" and "low < high" and "flow_ok low high f"
  shows "flow_ok low high f'"
  using assms
  by (induction rule: flow_step.induct)
    (auto simp: flow_defs Let_def split: option.splits if_splits)

lemma flow_steps_ok:
  "(flow_step low high)\<^sup>*\<^sup>* f f' \<Longrightarrow> low < high \<Longrightarrow> flow_ok low high f \<Longrightarrow> flow_ok low high f'"
  by (induction rule: rtranclp_induct) (auto intro: flow_step_ok)

lemma flow_init_ok: "flow_ok low high flow_init"
  by (simp add: flow_ok_def flow_init_def)

definition unacked_chars :: "pty_flow \<Rightarrow> nat" where
  "unacked_chars f = (case flow_state f of None \<Rightarrow> 0 | Some st \<Rightarrow> fs_unacked st)"

text \<open>Enough acknowledgements always resume a paused PTY.\<close>

lemma flow_ack_resumes:
  assumes "flow_ok low high f" and "flow_pty f \<noteq> None" and "0 < low"
    and "unacked_chars f < low + n"
  shows "flow_pty (flow_ack low n f) = Some False"
  using assms
  by (auto simp: flow_ok_def unacked_chars_def flow_ack_def resume_pty_def Let_def
      split: option.splits)

lemma unacked_simps [simp]:
  "flow_state f \<noteq> None \<Longrightarrow> 0 < flow_consumers f \<Longrightarrow>
     unacked_chars (trackEmittedChars high n f) = unacked_chars f + n"
  "unacked_chars (flow_ack low n f) = unacked_chars f - n"
  "unacked_chars (attachFlowControlConsumer f) = 0"
  "unacked_chars (clearFlowControl f) = 0"
  "unacked_chars (flow_spawn f) = 0"
  by (auto simp: unacked_chars_def flow_defs Let_def split: option.splits)

lemma flow_consumers_simps [simp]:
  "flow_consumers (trackEmittedChars high n f) = flow_consumers f"
  "flow_consumers (flow_ack low n f) = flow_consumers f"
  "flow_consumers (attachFlowControlConsumer f) = flow_consumers f + 1"
  "flow_consumers (detachFlowControlConsumer f) = flow_consumers f - 1"
  "flow_consumers (clearFlowControl f) = flow_consumers f"
  "flow_consumers (flow_spawn f) = flow_consumers f"
  by (auto simp: flow_defs Let_def split: option.splits)

lemma flow_ok_steps:
  assumes "flow_ok low high f" and "low < high"
  shows "flow_ok low high (flow_ack low n f)" "flow_ok low high (trackEmittedChars high n f)"
    "flow_ok low high (attachFlowControlConsumer f)" "flow_ok low high (detachFlowControlConsumer f)"
    "flow_ok low high (flow_spawn f)" "flow_ok low high (flow_exit f)"
  using assms flow_step_ok flow_step.intros by metis+

lemma trackEmittedChars_unacked: "unacked_chars (trackEmittedChars high n f) \<le> unacked_chars f + n"
  by (auto simp: unacked_chars_def trackEmittedChars_def pause_pty_def Let_def split: option.splits)

lemma detach_unacked: "unacked_chars (detachFlowControlConsumer f) \<le> unacked_chars f"
  by (simp add: detachFlowControlConsumer_def Let_def unacked_chars_def clearFlowControl_def
      resume_pty_def split: option.split)

text \<open>The lane of the PTY keeps the contract, for watermarks that the start-up check accepts.\<close>

definition lane_ok :: "nat \<Rightarrow> nat \<Rightarrow> pty_flow \<Rightarrow> bool" where
  "lane_ok low high f \<longleftrightarrow> 0 < low \<and> low < high \<and> flow_ok low high f"

definition pty_runs :: "pty_flow \<Rightarrow> bool" where
  "pty_runs f \<longleftrightarrow> flow_pty f \<noteq> Some True"

lemma lane_ok_steps:
  assumes "lane_ok low high f"
  shows "lane_ok low high (flow_ack low n f)" "lane_ok low high (trackEmittedChars high n f)"
    "lane_ok low high (attachFlowControlConsumer f)" "lane_ok low high (detachFlowControlConsumer f)"
  using assms by (simp_all add: lane_ok_def flow_ok_steps)

lemma lane_runs:
  assumes "lane_ok low high f" and "unacked_chars f = 0 \<or> flow_consumers f = 0"
  shows "pty_runs f"
  using assms
  by (auto simp: lane_ok_def pty_runs_def flow_ok_def unacked_chars_def split: option.splits if_splits)

interpretation pty_lane: credit_lane "trackEmittedChars high" "flow_ack low"
    attachFlowControlConsumer detachFlowControlConsumer unacked_chars flow_consumers
    "lane_ok low high" pty_runs for low high
  by unfold_locales (simp_all add: lane_ok_steps trackEmittedChars_unacked detach_unacked lane_runs)

end
