(* ===== verification/Terminal_Attach.thy ===== *)
theory Terminal_Attach
  imports Journal_Facts Flow_Control
begin

text \<open>
  The attach protocol of one terminal in \<open>packages/terminal/src/services/terminal-manager.ts\<close>.
  The maps keyed by terminal id are read at one id: \<open>attach_state\<close> holds that terminal's entry
  of each (\<open>None\<close>: no entry), a JavaScript \<open>Map\<close> of subscribers or lease cursors as its list of
  keys or entries in insertion order, and the terminal's flow control in the PTY host, whose
  calls are synchronous. \<open>ta_sent\<close> lists the events given to subscriber callbacks. A callback's
  answer, whether its queue took the event, is the parameter \<open>accepts\<close>, which may depend on
  everything sent before. Clock readings and random identifiers are arguments.
\<close>

record attach_config =
  cfg_journalBytes :: nat
  cfg_outputChunkBytes :: nat
  cfg_snapshotBytes :: nat
  cfg_highWatermarkChars :: nat
  cfg_lowWatermarkChars :: nat

datatype rpc_error = TerminalNotFound | InvalidCursor | SnapshotOverflow

record attach_state =
  ta_status :: "string option"
  ta_journal :: "journal option"
  ta_epoch :: "string option"
  ta_subscribers :: "string list option"
  ta_leases :: "(string \<times> nat) list option"
  ta_parsed :: "nat option"
  ta_acked :: "nat option"
  ta_oldestUnackedAt :: "int option"
  ta_resets :: "nat option"
  ta_ackLatency :: "int option"
  ta_claimed :: bool
  ta_flow :: pty_flow
  ta_sent :: "(string \<times> attach_event) list"

type_synonym acceptance = "(string \<times> attach_event) list \<Rightarrow> string \<Rightarrow> attach_event \<Rightarrow> bool"

section \<open>Journal and epoch on demand\<close>

definition journalFor :: "attach_config \<Rightarrow> attach_state \<Rightarrow> journal \<times> attach_state" where
  "journalFor cfg s =
     (case ta_journal s of
        Some j \<Rightarrow> (j, s)
      | None \<Rightarrow> (let j = fresh_journal (cfg_journalBytes cfg) in (j, s\<lparr>ta_journal := Some j\<rparr>)))"

definition transportEpochFor :: "string \<Rightarrow> attach_state \<Rightarrow> string \<times> attach_state" where
  "transportEpochFor freshEpoch s =
     (case ta_epoch s of
        Some e \<Rightarrow> (e, s)
      | None \<Rightarrow> (freshEpoch, s\<lparr>ta_epoch := Some freshEpoch\<rparr>))"

section \<open>Releasing debt and leaving\<close>

text \<open>
  The block shared by \<open>acknowledge\<close> and \<open>removeAttachSubscriber\<close>: the smallest lease cursor is
  committed and the characters up to it are acknowledged to the PTY host.
\<close>

definition commit_leases ::
    "attach_config \<Rightarrow> journal \<Rightarrow> (string \<times> nat) list \<Rightarrow> attach_state \<Rightarrow> attach_state" where
  "commit_leases cfg j cursors s =
     (let previous = (case ta_acked s of Some c \<Rightarrow> c | None \<Rightarrow> minimumCursor j);
          committed = Min (set (map snd cursors));
          chars = charactersBetween j previous committed
      in s\<lparr>ta_flow := (if 0 < chars then flow_ack (cfg_lowWatermarkChars cfg) chars (ta_flow s)
                        else ta_flow s),
           ta_acked := Some committed\<rparr>)"

definition removeAttachSubscriber ::
    "attach_config \<Rightarrow> string \<Rightarrow> attach_state \<Rightarrow> bool \<times> attach_state" where
  "removeAttachSubscriber cfg sid s =
     (case ta_subscribers s of
        None \<Rightarrow> (False, s)
      | Some subs \<Rightarrow>
          if sid \<notin> set subs then (False, s)
          else
            (let subs' = filter (\<lambda>i. i \<noteq> sid) subs;
                 s1 = s\<lparr>ta_subscribers := Some subs',
                        ta_flow := detachFlowControlConsumer (ta_flow s)\<rparr>;
                 s2 = (case ta_leases s1 of
                         None \<Rightarrow> s1
                       | Some cursors \<Rightarrow>
                           (let cursors' = filter (\<lambda>e. fst e \<noteq> sid) cursors;
                                (j, s1') = journalFor cfg s1
                            in if cursors' = []
                               then s1'\<lparr>ta_leases := None, ta_acked := Some (j_cursor j)\<rparr>
                               else commit_leases cfg j cursors'
                                      (s1'\<lparr>ta_leases := Some cursors'\<rparr>)))
             in (True, if subs' = [] then s2\<lparr>ta_subscribers := None\<rparr> else s2)))"

section \<open>Publishing\<close>

definition send_to ::
    "attach_config \<Rightarrow> acceptance \<Rightarrow> string \<Rightarrow> attach_event \<Rightarrow> attach_state \<Rightarrow> bool \<times> attach_state" where
  "send_to cfg accepts sid event s =
     (let ok = accepts (ta_sent s) sid event;
          s1 = s\<lparr>ta_sent := ta_sent s @ [(sid, event)]\<rparr>
      in if ok then (True, s1) else (False, snd (removeAttachSubscriber cfg sid s1)))"

text \<open>
  The loop over the subscriber map; deleting the entry being visited does not disturb it.
\<close>

definition publishAttachEvent ::
    "attach_config \<Rightarrow> acceptance \<Rightarrow> attach_event \<Rightarrow> attach_state \<Rightarrow> attach_state" where
  "publishAttachEvent cfg accepts event s =
     (case ta_subscribers s of
        None \<Rightarrow> s
      | Some subs \<Rightarrow> foldl (\<lambda>s sid. snd (send_to cfg accepts sid event s)) s subs)"

section \<open>Output\<close>

text \<open>
  The body of the loop of \<open>processOutput\<close>. Writing to the headless screen is outside the model;
  its callback is \<open>output_parsed\<close>. An exception leaves the state reached so far.
\<close>

definition output_chunk ::
    "attach_config \<Rightarrow> acceptance \<Rightarrow> int \<Rightarrow> js_string \<Rightarrow> attach_state
      \<Rightarrow> (transport_error option \<times> attach_state) option" where
  "output_chunk cfg accepts now chunk s =
     (case journalFor cfg s of (j, s1) \<Rightarrow>
       (case journal_append chunk j of
          None \<Rightarrow> None
        | Some (Inl e) \<Rightarrow> Some (Some e, s1)
        | Some (Inr (cursor, j')) \<Rightarrow>
            (let s2 = s1\<lparr>ta_journal := Some j'\<rparr>;
                 s3 = (if ta_subscribers s2 \<noteq> None \<and> ta_subscribers s2 \<noteq> Some []
                       then s2\<lparr>ta_oldestUnackedAt :=
                              (case ta_oldestUnackedAt s2 of Some t \<Rightarrow> Some t | None \<Rightarrow> Some now)\<rparr>
                       else s2)
             in Some (None, publishAttachEvent cfg accepts (Delta cursor chunk) s3))))"

fun output_chunks ::
    "attach_config \<Rightarrow> acceptance \<Rightarrow> int \<Rightarrow> js_string list \<Rightarrow> attach_state
      \<Rightarrow> (transport_error option \<times> attach_state) option" where
  "output_chunks cfg accepts now [] s = Some (None, s)"
| "output_chunks cfg accepts now (chunk # rest) s =
     (case output_chunk cfg accepts now chunk s of
        None \<Rightarrow> None
      | Some (Some e, s1) \<Rightarrow> Some (Some e, s1)
      | Some (None, s1) \<Rightarrow> output_chunks cfg accepts now rest s1)"

definition processOutput ::
    "attach_config \<Rightarrow> acceptance \<Rightarrow> int \<Rightarrow> js_string \<Rightarrow> attach_state
      \<Rightarrow> (transport_error option \<times> attach_state) option" where
  "processOutput cfg accepts now data s =
     (case splitByUtf8Bytes data (cfg_outputChunkBytes cfg) of
        Inl e \<Rightarrow> Some (Some e, s)
      | Inr chunks \<Rightarrow> output_chunks cfg accepts now chunks s)"

definition output_parsed :: "nat \<Rightarrow> attach_state \<Rightarrow> attach_state" where
  "output_parsed cursor s = s\<lparr>ta_parsed := Some cursor\<rparr>"

text \<open>The \<open>onFlush\<close> callback of the terminal's coalescer in \<open>pty-direct.ts\<close>.\<close>

definition pty_output ::
    "attach_config \<Rightarrow> acceptance \<Rightarrow> int \<Rightarrow> js_string \<Rightarrow> attach_state
      \<Rightarrow> (transport_error option \<times> attach_state) option" where
  "pty_output cfg accepts now joined s =
     map_option (\<lambda>(e, s1).
       (e, if e = None
           then s1\<lparr>ta_flow := trackEmittedChars (cfg_highWatermarkChars cfg) (length joined) (ta_flow s1)\<rparr>
           else s1))
       (processOutput cfg accepts now joined s)"

section \<open>Attaching\<close>

record attach_options =
  ao_cursor :: "nat option"
  ao_epoch :: "string option"
  ao_leaseId :: "string option"

fun send_all ::
    "attach_config \<Rightarrow> acceptance \<Rightarrow> string \<Rightarrow> attach_event list \<Rightarrow> attach_state \<Rightarrow> bool \<times> attach_state" where
  "send_all cfg accepts sid [] s = (True, s)"
| "send_all cfg accepts sid (event # rest) s =
     (case send_to cfg accepts sid event s of
        (True, s1) \<Rightarrow> send_all cfg accepts sid rest s1
      | (False, s1) \<Rightarrow> (False, s1))"

text \<open>From \<open>subscribers.set(subscriberId, subscriber)\<close> to the first \<open>emit\<close>.\<close>

definition register_subscriber :: "string \<Rightarrow> nat \<Rightarrow> attach_state \<Rightarrow> attach_state" where
  "register_subscriber sid cursor s =
     s\<lparr>ta_subscribers := Some ((case ta_subscribers s of Some subs \<Rightarrow> subs | None \<Rightarrow> []) @ [sid]),
       ta_claimed := True,
       ta_flow := attachFlowControlConsumer (ta_flow s),
       ta_acked := Some cursor,
       ta_leases :=
         (let cursors = (case ta_leases s of Some cursors \<Rightarrow> cursors | None \<Rightarrow> [])
          in Some (map (\<lambda>(lease, _). (lease, cursor)) cursors
                   @ (if list_ex (\<lambda>e. fst e = sid) cursors then [] else [(sid, cursor)]))),
       ta_oldestUnackedAt := None\<rparr>"

text \<open>The replay after the optional reset: deltas, then \<open>Meta\<close> and \<open>ReplayComplete\<close>.\<close>

definition replay_from ::
    "attach_config \<Rightarrow> acceptance \<Rightarrow> string \<Rightarrow> journal \<Rightarrow> string \<Rightarrow> string \<Rightarrow> nat \<Rightarrow> attach_state
      \<Rightarrow> attach_state" where
  "replay_from cfg accepts sid j epoch status cursor s =
     (case send_all cfg accepts sid (deltasAfter j cursor) s of
        (False, s1) \<Rightarrow> s1
      | (True, s1) \<Rightarrow>
          snd (send_to cfg accepts sid ReplayComplete
                (snd (send_to cfg accepts sid (Meta epoch (status = ''running'')) s1))))"

text \<open>
  Whether the client's cursor can be used: a reset is announced otherwise. The result says
  whether the client is still there, and the cursor to replay from, if any.
\<close>

definition check_cursor ::
    "attach_config \<Rightarrow> acceptance \<Rightarrow> string \<Rightarrow> journal \<Rightarrow> string \<Rightarrow> attach_options \<Rightarrow> attach_state
      \<Rightarrow> bool \<times> nat option \<times> attach_state" where
  "check_cursor cfg accepts sid j epoch opts s =
     (let epochChanged = (ao_epoch opts \<noteq> None \<and> ao_epoch opts \<noteq> Some epoch);
          cursorLost = (case ao_cursor opts of Some c \<Rightarrow> \<not> retains j c | None \<Rightarrow> False)
      in if epochChanged \<or> cursorLost
         then (case send_to cfg accepts sid
                      (ResetEvent epoch (if epochChanged then EpochChanged else CursorOutOfRange))
                      (s\<lparr>ta_resets := Some ((case ta_resets s of Some n \<Rightarrow> n | None \<Rightarrow> 0) + 1)\<rparr>) of
                 (ok, s1) \<Rightarrow> (ok, None, s1))
         else (True, ao_cursor opts, s))"

definition serve_client ::
    "attach_config \<Rightarrow> acceptance \<Rightarrow> string \<Rightarrow> journal \<Rightarrow> string \<Rightarrow> string \<Rightarrow> js_string
      \<Rightarrow> nat option \<Rightarrow> attach_state \<Rightarrow> (rpc_error + string) \<times> attach_state" where
  "serve_client cfg accepts sid j epoch status snapshot replayCursor s =
     (case replayCursor of
        Some c \<Rightarrow> (Inr sid, replay_from cfg accepts sid j epoch status c s)
      | None \<Rightarrow>
          if cfg_snapshotBytes cfg < utf8Bytes snapshot
          then (Inl SnapshotOverflow, snd (removeAttachSubscriber cfg sid s))
          else
            (let c = (case ta_parsed s of Some c \<Rightarrow> c | None \<Rightarrow> 0)
             in case send_to cfg accepts sid (Snapshot c snapshot) s of
                  (False, s1) \<Rightarrow> (Inr sid, s1)
                | (True, s1) \<Rightarrow> (Inr sid, replay_from cfg accepts sid j epoch status c s1)))"

definition attach ::
    "attach_config \<Rightarrow> acceptance \<Rightarrow> string \<Rightarrow> string \<Rightarrow> js_string \<Rightarrow> attach_options \<Rightarrow> attach_state
      \<Rightarrow> (rpc_error + string) \<times> attach_state" where
  "attach cfg accepts freshEpoch freshId snapshot opts s0 =
     (case ta_status s0 of
        None \<Rightarrow> (Inl TerminalNotFound, s0)
      | Some status \<Rightarrow>
          (let (j, s1) = journalFor cfg s0;
               (epoch, s2) = transportEpochFor freshEpoch s1;
               sid = (case ao_leaseId opts of Some i \<Rightarrow> i | None \<Rightarrow> freshId)
           in if sid \<in> set (case ta_subscribers s2 of Some subs \<Rightarrow> subs | None \<Rightarrow> [])
              then (Inl InvalidCursor, s2)
              else
                (case check_cursor cfg accepts sid j epoch opts
                        (register_subscriber sid (j_cursor j) s2) of
                   (False, _, s3) \<Rightarrow> (Inr sid, s3)
                 | (True, replayCursor, s3) \<Rightarrow>
                     serve_client cfg accepts sid j epoch status snapshot replayCursor s3)))"

section \<open>Acknowledging\<close>

definition acknowledge ::
    "attach_config \<Rightarrow> int \<Rightarrow> string \<Rightarrow> nat \<Rightarrow> attach_state \<Rightarrow> (rpc_error + unit) \<times> attach_state" where
  "acknowledge cfg now lease cursor s =
     (case ta_journal s of
        None \<Rightarrow> (Inl TerminalNotFound, s)
      | Some j \<Rightarrow>
          (case ta_leases s of
             None \<Rightarrow> (Inl TerminalNotFound, s)
           | Some cursors \<Rightarrow>
               (case map_of cursors lease of
                  None \<Rightarrow> (Inl TerminalNotFound, s)
                | Some previousLeaseCursor \<Rightarrow>
                    if cursor \<le> previousLeaseCursor then (Inr (), s)
                    else if \<not> retains j cursor then (Inl InvalidCursor, s)
                    else
                      (let cursors' = map (\<lambda>(i, c). (i, if i = lease then cursor else c)) cursors;
                           s1 = commit_leases cfg j cursors' (s\<lparr>ta_leases := Some cursors'\<rparr>);
                           s2 = (case ta_oldestUnackedAt s1 of
                                   Some startedAt \<Rightarrow>
                                     s1\<lparr>ta_ackLatency := Some (max 0 (now - startedAt))\<rparr>
                                 | None \<Rightarrow> s1);
                           s3 = (if j_cursor j \<le> Min (set (map snd cursors'))
                                 then s2\<lparr>ta_oldestUnackedAt := None\<rparr> else s2)
                       in (Inr (), s3)))))"

record transport_metrics =
  tm_ackLatencyMs :: int
  tm_backlogBytes :: nat
  tm_resetCount :: nat

definition transportMetrics :: "attach_state \<Rightarrow> rpc_error + transport_metrics" where
  "transportMetrics s =
     (case ta_journal s of
        None \<Rightarrow> Inl TerminalNotFound
      | Some j \<Rightarrow>
          Inr \<lparr>tm_ackLatencyMs = (case ta_ackLatency s of Some n \<Rightarrow> n | None \<Rightarrow> 0),
               tm_backlogBytes =
                 j_cursor j - max (case ta_acked s of Some c \<Rightarrow> c | None \<Rightarrow> minimumCursor j)
                                  (minimumCursor j),
               tm_resetCount = (case ta_resets s of Some n \<Rightarrow> n | None \<Rightarrow> 0)\<rparr>)"

section \<open>Exit, restart and removal\<close>

definition terminal_exit ::
    "attach_config \<Rightarrow> acceptance \<Rightarrow> int \<Rightarrow> int \<Rightarrow> attach_state \<Rightarrow> attach_state" where
  "terminal_exit cfg accepts exitCode sig s =
     publishAttachEvent cfg accepts (ExitEvent exitCode sig)
       (s\<lparr>ta_flow := flow_exit (ta_flow s),
          ta_status := map_option (\<lambda>_. ''stopped'') (ta_status s)\<rparr>)"

text \<open>
  \<open>restart\<close> from the new epoch to the spawn of the replacement PTY, which is taken to succeed.
\<close>

definition restart_transport ::
    "attach_config \<Rightarrow> acceptance \<Rightarrow> string \<Rightarrow> attach_state \<Rightarrow> attach_state" where
  "restart_transport cfg accepts restartedEpoch s =
     (let s1 = s\<lparr>ta_status := Some ''running'',
                 ta_epoch := Some restartedEpoch,
                 ta_journal := None,
                 ta_parsed := None,
                 ta_acked := Some 0,
                 ta_leases := map_option (map (\<lambda>(lease, _). (lease, 0))) (ta_leases s),
                 ta_oldestUnackedAt := None,
                 ta_ackLatency := None,
                 ta_resets := Some ((case ta_resets s of Some n \<Rightarrow> n | None \<Rightarrow> 0) + 1)\<rparr>;
          s2 = publishAttachEvent cfg accepts (ResetEvent restartedEpoch EpochChanged) s1;
          s3 = publishAttachEvent cfg accepts (Snapshot 0 []) s2;
          s4 = publishAttachEvent cfg accepts (Meta restartedEpoch True) s3;
          s5 = publishAttachEvent cfg accepts ReplayComplete s4
      in s5\<lparr>ta_flow := flow_spawn (ta_flow s5)\<rparr>)"

definition remove_transport :: "attach_state \<Rightarrow> attach_state" where
  "remove_transport s =
     s\<lparr>ta_status := None,
       ta_flow := (case ta_subscribers s of
                     None \<Rightarrow> ta_flow s
                   | Some subs \<Rightarrow> (detachFlowControlConsumer ^^ length subs) (ta_flow s)),
       ta_subscribers := None,
       ta_claimed := False,
       ta_journal := None,
       ta_epoch := None,
       ta_parsed := None,
       ta_acked := None,
       ta_leases := None,
       ta_oldestUnackedAt := None,
       ta_resets := None,
       ta_ackLatency := None\<rparr>"

end
