(* ===== verification/Attach_Facts.thy ===== *)
theory Attach_Facts
  imports Terminal_Attach
begin

text \<open>
  The invariant of a terminal's attach protocol, with the output history as a ghost: the journal
  is the abstract journal of the history, the subscribers are the lease holders and the PTY
  host's consumers, every lease is at a chunk boundary and the acknowledged cursor is the
  smallest lease. From it: what a resumed client receives, and when acknowledgements resume the
  PTY.
\<close>

section \<open>The invariant\<close>

definition boundary :: "js_string list \<Rightarrow> nat \<Rightarrow> bool" where
  "boundary hist c \<longleftrightarrow> (\<exists>k\<le>length hist. c = log_bytes (take k hist))"

definition nonempty :: "'a list \<Rightarrow> 'a list option" where
  "nonempty xs = (if xs = [] then None else Some xs)"

definition leases_of :: "attach_state \<Rightarrow> (string \<times> nat) list" where
  "leases_of s = (case ta_leases s of None \<Rightarrow> [] | Some cursors \<Rightarrow> cursors)"

definition journal_ok :: "attach_config \<Rightarrow> js_string list \<Rightarrow> attach_state \<Rightarrow> bool" where
  "journal_ok cfg hist s \<longleftrightarrow>
     ta_journal s = Some (journal_of (cfg_journalBytes cfg) hist) \<or> ta_journal s = None \<and> hist = []"

definition leases_ok :: "js_string list \<Rightarrow> attach_state \<Rightarrow> bool" where
  "leases_ok hist s \<longleftrightarrow>
     ta_leases s = nonempty (leases_of s) \<and>
     ta_subscribers s = nonempty (map fst (leases_of s)) \<and>
     distinct (map fst (leases_of s)) \<and>
     flow_consumers (ta_flow s) = length (leases_of s) \<and>
     (leases_of s \<noteq> [] \<longrightarrow> ta_acked s = Some (Min (set (map snd (leases_of s))))) \<and>
     list_all (\<lambda>e. boundary hist (snd e)) (leases_of s)"

definition attach_ok :: "attach_config \<Rightarrow> js_string list \<Rightarrow> attach_state \<Rightarrow> bool" where
  "attach_ok cfg hist s \<longleftrightarrow>
     journal_ok cfg hist s \<and> leases_ok hist s \<and>
     flow_ok (cfg_lowWatermarkChars cfg) (cfg_highWatermarkChars cfg) (ta_flow s)"

definition config_ok :: "attach_config \<Rightarrow> bool" where
  "config_ok cfg \<longleftrightarrow>
     4 \<le> cfg_outputChunkBytes cfg \<and> cfg_outputChunkBytes cfg \<le> cfg_journalBytes cfg \<and>
     0 < cfg_lowWatermarkChars cfg \<and> cfg_lowWatermarkChars cfg < cfg_highWatermarkChars cfg"

text \<open>A terminal that was just spawned.\<close>

definition attach_init :: attach_state where
  "attach_init =
     \<lparr>ta_status = Some ''running'', ta_journal = None, ta_epoch = None, ta_subscribers = None,
      ta_leases = None, ta_parsed = None, ta_acked = None, ta_oldestUnackedAt = None,
      ta_resets = None, ta_ackLatency = None, ta_claimed = False, ta_flow = flow_spawn flow_init,
      ta_sent = []\<rparr>"

lemma boundary_mono: "boundary hist c \<Longrightarrow> boundary (hist @ ds) c"
  unfolding boundary_def by (metis le_add1 length_append order.trans take_append diff_is_0_eq take_0 append_Nil2)

lemma boundary_0 [simp]: "boundary hist 0"
  unfolding boundary_def by (rule exI [of _ 0]) simp

lemma boundary_end [simp]: "boundary hist (log_bytes hist)"
  unfolding boundary_def by (rule exI [of _ "length hist"]) simp

lemma nonempty_simps [simp]:
  "nonempty [] = None" "nonempty (x # xs) = Some (x # xs)" "nonempty (xs @ [x]) = Some (xs @ [x])"
  "nonempty xs = None \<longleftrightarrow> xs = []" "nonempty xs = Some ys \<longleftrightarrow> xs = ys \<and> ys \<noteq> []"
  by (auto simp: nonempty_def)

text \<open>The invariant reads only some of the fields.\<close>

definition same_core :: "attach_state \<Rightarrow> attach_state \<Rightarrow> bool" where
  "same_core s s' \<longleftrightarrow> ta_journal s = ta_journal s' \<and> ta_leases s = ta_leases s' \<and>
     ta_subscribers s = ta_subscribers s' \<and> ta_acked s = ta_acked s' \<and> ta_flow s = ta_flow s'"

lemma attach_ok_core: "same_core s s' \<Longrightarrow> attach_ok cfg hist s = attach_ok cfg hist s'"
  by (simp add: attach_ok_def journal_ok_def leases_ok_def leases_of_def same_core_def)

lemma journalFor_ok:
  assumes "journal_ok cfg hist s"
  shows "journalFor cfg s =
    (journal_of (cfg_journalBytes cfg) hist,
     s\<lparr>ta_journal := Some (journal_of (cfg_journalBytes cfg) hist)\<rparr>)"
  using assms by (cases "ta_journal s") (auto simp: journal_ok_def journalFor_def fresh_journal_of Let_def)

section \<open>Flow control under the protocol\<close>

lemma flow_exit_consumers [simp]: "flow_consumers (flow_exit f) = flow_consumers f"
  by (simp add: flow_exit_def)

lemma commit_leases_fields [simp]:
  "ta_journal (commit_leases cfg j ls s) = ta_journal s"
  "ta_leases (commit_leases cfg j ls s) = ta_leases s"
  "ta_subscribers (commit_leases cfg j ls s) = ta_subscribers s"
  "ta_acked (commit_leases cfg j ls s) = Some (Min (set (map snd ls)))"
  "flow_consumers (ta_flow (commit_leases cfg j ls s)) = flow_consumers (ta_flow s)"
  "ta_status (commit_leases cfg j ls s) = ta_status s"
  "ta_sent (commit_leases cfg j ls s) = ta_sent s"
  by (simp_all add: commit_leases_def Let_def)

lemma commit_leases_flow_ok:
  "flow_ok (cfg_lowWatermarkChars cfg) high (ta_flow s) \<Longrightarrow> cfg_lowWatermarkChars cfg < high \<Longrightarrow>
     flow_ok (cfg_lowWatermarkChars cfg) high (ta_flow (commit_leases cfg j ls s))"
  by (simp add: commit_leases_def Let_def flow_ok_steps)

section \<open>Leaving, sending and publishing\<close>

lemma filter_fst_neq:
  "filter (\<lambda>i. i \<noteq> sid) (map fst ls) = map fst (filter (\<lambda>e. fst e \<noteq> sid) ls)"
  by (induction ls) auto

lemma length_filter_neq:
  assumes "distinct (map fst ls)" and "sid \<in> set (map fst ls)"
  shows "length (filter (\<lambda>e. fst e \<noteq> sid) ls) = length ls - 1"
proof -
  have "length (filter (\<lambda>e. fst e \<noteq> sid) ls) = length (filter (\<lambda>i. i \<noteq> sid) (map fst ls))"
    by (simp add: filter_fst_neq)
  also have "\<dots> = length (remove1 sid (map fst ls))"
    using assms(1) by (simp add: distinct_remove1_removeAll removeAll_filter_not_eq neq_commute)
  also have "\<dots> = length ls - 1" using assms(2) by (simp add: length_remove1)
  finally show ?thesis .
qed

lemma removeAttachSubscriber_ok:
  assumes "attach_ok cfg hist s" and "config_ok cfg"
  shows "attach_ok cfg hist (snd (removeAttachSubscriber cfg sid s))"
proof -
  have ok: "journal_ok cfg hist s" "leases_ok hist s"
    "flow_ok (cfg_lowWatermarkChars cfg) (cfg_highWatermarkChars cfg) (ta_flow s)"
    and wm: "cfg_lowWatermarkChars cfg < cfg_highWatermarkChars cfg"
    using assms by (auto simp: attach_ok_def config_ok_def)
  let ?ls = "leases_of s" and ?ls' = "filter (\<lambda>e. fst e \<noteq> sid) (leases_of s)"
  show ?thesis
  proof (cases "sid \<in> fst ` set ?ls")
    case False
    then have "snd (removeAttachSubscriber cfg sid s) = s"
      using ok(2) by (auto simp: removeAttachSubscriber_def leases_ok_def nonempty_def)
    then show ?thesis using assms(1) by simp
  next
    case True
    then have ne: "?ls \<noteq> []" by auto
    have ls: "ta_leases s = Some ?ls" "ta_subscribers s = Some (map fst ?ls)"
      using ok(2) ne by (auto simp: leases_ok_def nonempty_def)
    have len: "length ?ls' = length ?ls - 1"
      by (rule length_filter_neq) (use True ok(2) in \<open>simp_all add: leases_ok_def\<close>)
    have dist: "distinct (map fst ?ls')" "list_all (\<lambda>e. boundary hist (snd e)) ?ls'"
      using ok(2) by (auto simp: leases_ok_def distinct_map_filter list_all_iff)
    let ?s1 = "s\<lparr>ta_subscribers := Some (map fst ?ls'), ta_flow := detachFlowControlConsumer (ta_flow s)\<rparr>"
    have jf: "journalFor cfg ?s1 = (journal_of (cfg_journalBytes cfg) hist,
        ?s1\<lparr>ta_journal := Some (journal_of (cfg_journalBytes cfg) hist)\<rparr>)"
      by (rule journalFor_ok) (use ok(1) in \<open>simp add: journal_ok_def\<close>)
    show ?thesis
    proof (cases "?ls' = []")
      case True
      let ?s3 = "?s1\<lparr>ta_journal := Some (journal_of (cfg_journalBytes cfg) hist), ta_leases := None,
        ta_acked := Some (log_bytes hist), ta_subscribers := None\<rparr>"
      have eq: "snd (removeAttachSubscriber cfg sid s) = ?s3"
        using True \<open>sid \<in> fst ` set ?ls\<close> jf
        by (simp add: removeAttachSubscriber_def ls filter_fst_neq journal_of_def)
      have "leases_of ?s3 = []" by (simp add: leases_of_def)
      with True len ok(2,3) show ?thesis
        unfolding eq attach_ok_def
        by (simp add: journal_ok_def leases_ok_def flow_ok_steps(4) wm)
    next
      case False
      let ?s2 = "commit_leases cfg (journal_of (cfg_journalBytes cfg) hist) ?ls'
        (?s1\<lparr>ta_journal := Some (journal_of (cfg_journalBytes cfg) hist), ta_leases := Some ?ls'\<rparr>)"
      have eq: "snd (removeAttachSubscriber cfg sid s) = ?s2"
        using True False jf by (simp add: removeAttachSubscriber_def ls filter_fst_neq Let_def)
      have "leases_of ?s2 = ?ls'" by (simp add: leases_of_def)
      with False len dist ok show ?thesis
        unfolding eq attach_ok_def
        by (auto simp: journal_ok_def leases_ok_def nonempty_def commit_leases_flow_ok wm
            flow_ok_steps(4) leases_ok_def)
    qed
  qed
qed

lemma send_to_ok:
  assumes "attach_ok cfg hist s" and "config_ok cfg"
  shows "attach_ok cfg hist (snd (send_to cfg accepts sid event s))"
proof -
  have "attach_ok cfg hist (s\<lparr>ta_sent := xs\<rparr>)" for xs
    using assms(1) by (subst attach_ok_core [of _ s]) (simp_all add: same_core_def)
  then show ?thesis
    using removeAttachSubscriber_ok [OF _ assms(2)] by (simp add: send_to_def Let_def)
qed

lemma fold_ok: "P s \<Longrightarrow> (\<And>s x. P s \<Longrightarrow> P (f s x)) \<Longrightarrow> P (foldl f s xs)"
  by (induction xs arbitrary: s) auto

lemma publishAttachEvent_ok:
  assumes "attach_ok cfg hist s" and "config_ok cfg"
  shows "attach_ok cfg hist (publishAttachEvent cfg accepts event s)"
  unfolding publishAttachEvent_def
  using assms fold_ok [of "attach_ok cfg hist", OF assms(1) send_to_ok [OF _ assms(2)]]
  by (auto split: option.splits)

lemma send_all_ok:
  assumes "config_ok cfg"
  shows "attach_ok cfg hist s \<Longrightarrow> attach_ok cfg hist (snd (send_all cfg accepts sid events s))"
proof (induction events arbitrary: s)
  case (Cons e es)
  have "attach_ok cfg hist (snd (send_to cfg accepts sid e s))"
    by (rule send_to_ok [OF Cons.prems assms])
  with Cons.IH show ?case by (auto split: prod.splits bool.splits)
qed simp

section \<open>Output\<close>

lemma output_chunk_publishes:
  assumes "attach_ok cfg hist s" and "utf8Bytes chunk \<le> cfg_journalBytes cfg"
  shows "\<exists>t. output_chunk cfg accepts now chunk s
        = Some (None, publishAttachEvent cfg accepts (Delta (log_bytes (hist @ [chunk])) chunk) t) \<and>
    attach_ok cfg (hist @ [chunk]) t \<and> ta_sent t = ta_sent s \<and> leases_of t = leases_of s"
proof -
  let ?s1 = "s\<lparr>ta_journal := Some (journal_of (cfg_journalBytes cfg) (hist @ [chunk]))\<rparr>"
  let ?t = "if ta_subscribers s \<noteq> None \<and> ta_subscribers s \<noteq> Some []
    then ?s1\<lparr>ta_oldestUnackedAt := (case ta_oldestUnackedAt s of Some t \<Rightarrow> Some t | None \<Rightarrow> Some now)\<rparr>
    else ?s1"
  have jf: "journalFor cfg s = (journal_of (cfg_journalBytes cfg) hist,
      s\<lparr>ta_journal := Some (journal_of (cfg_journalBytes cfg) hist)\<rparr>)"
    by (rule journalFor_ok) (use assms(1) in \<open>simp add: attach_ok_def\<close>)
  have leases: "leases_ok (hist @ [chunk]) s"
    using assms(1) boundary_mono [of hist _ "[chunk]"]
    by (auto simp: attach_ok_def leases_ok_def list_all_iff)
  have "attach_ok cfg (hist @ [chunk]) (?s1\<lparr>ta_oldestUnackedAt := t\<rparr>)" for t
    using assms(1) leases
    by (simp add: attach_ok_def journal_ok_def leases_ok_def leases_of_def)
  moreover have "attach_ok cfg (hist @ [chunk]) ?s1"
    using assms(1) leases
    by (simp add: attach_ok_def journal_ok_def leases_ok_def leases_of_def)
  ultimately have "attach_ok cfg (hist @ [chunk]) ?t" by simp
  moreover have "output_chunk cfg accepts now chunk s
      = Some (None, publishAttachEvent cfg accepts (Delta (log_bytes (hist @ [chunk])) chunk) ?t)"
    using assms(2) by (simp add: output_chunk_def jf journal_append_of Let_def)
  ultimately show ?thesis by (intro exI [of _ ?t]) (simp add: leases_of_def)
qed

lemma output_chunk_ok:
  assumes "attach_ok cfg hist s" and "config_ok cfg" and "utf8Bytes chunk \<le> cfg_journalBytes cfg"
  shows "\<exists>s'. output_chunk cfg accepts now chunk s = Some (None, s') \<and> attach_ok cfg (hist @ [chunk]) s'"
  using output_chunk_publishes [OF assms(1,3)] publishAttachEvent_ok [OF _ assms(2)] by metis

lemma output_chunks_ok:
  assumes "config_ok cfg"
  shows "attach_ok cfg hist s \<Longrightarrow> list_all (\<lambda>c. utf8Bytes c \<le> cfg_journalBytes cfg) chunks \<Longrightarrow>
    \<exists>s'. output_chunks cfg accepts now chunks s = Some (None, s') \<and> attach_ok cfg (hist @ chunks) s'"
proof (induction chunks arbitrary: hist s)
  case (Cons chunk rest)
  then obtain s1 where "output_chunk cfg accepts now chunk s = Some (None, s1)"
    "attach_ok cfg (hist @ [chunk]) s1"
    using output_chunk_ok [OF Cons.prems(1) assms, of chunk accepts now] by auto
  with Cons.IH [of "hist @ [chunk]" s1] Cons.prems(2) show ?case by simp
qed simp

text \<open>The chunks one piece of output is cut into, with the configured bounds.\<close>

definition wire_chunks :: "attach_config \<Rightarrow> js_string \<Rightarrow> js_string list" where
  "wire_chunks cfg data =
     (case splitByUtf8Bytes data (cfg_outputChunkBytes cfg) of Inr chunks \<Rightarrow> chunks | Inl _ \<Rightarrow> [])"

lemma wire_chunks_ok:
  assumes "config_ok cfg"
  shows "splitByUtf8Bytes data (cfg_outputChunkBytes cfg) = Inr (wire_chunks cfg data)"
    "concat (wire_chunks cfg data) = data"
    "list_all (\<lambda>c. utf8Bytes c \<le> cfg_journalBytes cfg) (wire_chunks cfg data)"
proof -
  obtain out where out: "splitByUtf8Bytes data (cfg_outputChunkBytes cfg) = Inr out"
    using splitByUtf8Bytes_total assms by (auto simp: config_ok_def)
  with splitByUtf8Bytes_cases [of data "cfg_outputChunkBytes cfg"] assms
  show "splitByUtf8Bytes data (cfg_outputChunkBytes cfg) = Inr (wire_chunks cfg data)"
    "concat (wire_chunks cfg data) = data"
    "list_all (\<lambda>c. utf8Bytes c \<le> cfg_journalBytes cfg) (wire_chunks cfg data)"
    by (auto simp: wire_chunks_def config_ok_def list_all_iff)
qed

lemma processOutput_ok:
  assumes "attach_ok cfg hist s" and "config_ok cfg"
  shows "\<exists>s'. processOutput cfg accepts now data s = Some (None, s') \<and>
    attach_ok cfg (hist @ wire_chunks cfg data) s'"
  using output_chunks_ok [OF assms(2,1) wire_chunks_ok(3) [OF assms(2)]]
  by (simp add: processOutput_def wire_chunks_ok(1) [OF assms(2)])

lemma attach_ok_flow:
  assumes "attach_ok cfg hist s" and "flow_consumers f = flow_consumers (ta_flow s)"
    and "flow_ok (cfg_lowWatermarkChars cfg) (cfg_highWatermarkChars cfg) f"
  shows "attach_ok cfg hist (s\<lparr>ta_flow := f\<rparr>)"
  using assms by (simp add: attach_ok_def journal_ok_def leases_ok_def leases_of_def)

lemma pty_output_ok:
  assumes "attach_ok cfg hist s" and "config_ok cfg"
  shows "\<exists>s'. pty_output cfg accepts now data s = Some (None, s') \<and>
    attach_ok cfg (hist @ wire_chunks cfg data) s'"
proof -
  obtain s1 where s1: "processOutput cfg accepts now data s = Some (None, s1)"
    "attach_ok cfg (hist @ wire_chunks cfg data) s1"
    using processOutput_ok [OF assms] by blast
  have "attach_ok cfg (hist @ wire_chunks cfg data)
      (s1\<lparr>ta_flow := trackEmittedChars (cfg_highWatermarkChars cfg) n (ta_flow s1)\<rparr>)" for n
    by (rule attach_ok_flow [OF s1(2)])
      (use s1(2) assms(2) in \<open>auto simp: flow_ok_steps attach_ok_def config_ok_def\<close>)
  then show ?thesis by (simp add: pty_output_def s1(1))
qed

section \<open>Acknowledging\<close>

lemma map_of_boundary:
  "list_all (\<lambda>e. P (snd e)) ls \<Longrightarrow> P c \<Longrightarrow>
     list_all (\<lambda>e. P (snd e)) (map (\<lambda>(i, c'). (i, if i = lease then c else c')) ls)"
  by (induction ls) auto

lemma retains_boundary: "retains (journal_of m hist) c \<Longrightarrow> boundary hist c"
  by (auto simp: retains_of boundary_def)

lemma acknowledge_ok:
  assumes "attach_ok cfg hist s" and "config_ok cfg"
  shows "attach_ok cfg hist (snd (acknowledge cfg now lease cursor s))"
proof -
  let ?ls = "leases_of s"
  let ?ls' = "map (\<lambda>(i, c). (i, if i = lease then cursor else c)) ?ls"
  let ?j = "journal_of (cfg_journalBytes cfg) hist"
  let ?s1 = "commit_leases cfg ?j ?ls' (s\<lparr>ta_leases := Some ?ls'\<rparr>)"
  have ok: "journal_ok cfg hist s" "leases_ok hist s"
    "flow_ok (cfg_lowWatermarkChars cfg) (cfg_highWatermarkChars cfg) (ta_flow s)"
    and wm: "cfg_lowWatermarkChars cfg < cfg_highWatermarkChars cfg"
    using assms by (auto simp: attach_ok_def config_ok_def)
  have keys: "map fst ?ls' = map fst ?ls" by (induction ?ls) auto
  have moved: "attach_ok cfg hist ?s1"
    if "ta_journal s = Some ?j" "?ls \<noteq> []" "retains ?j cursor"
  proof -
    have ls: "leases_of ?s1 = ?ls'" by (simp add: leases_of_def)
    have "?ls' \<noteq> []" using that(2) by simp
    moreover have "list_all (\<lambda>e. boundary hist (snd e)) ?ls'"
      by (rule map_of_boundary) (use ok(2) retains_boundary [OF that(3)] in \<open>simp_all add: leases_ok_def\<close>)
    moreover have "flow_ok (cfg_lowWatermarkChars cfg) (cfg_highWatermarkChars cfg) (ta_flow ?s1)"
      by (rule commit_leases_flow_ok) (use ok(3) wm in simp_all)
    ultimately show ?thesis
      using ok(2) that(1) unfolding attach_ok_def leases_ok_def ls keys
      by (simp add: journal_ok_def nonempty_def)
  qed
  have core: "attach_ok cfg hist s'" if "same_core s' ?s1" "attach_ok cfg hist ?s1" for s'
    using attach_ok_core [OF that(1)] that(2) by simp
  show ?thesis
  proof (cases "\<exists>prev. ta_journal s = Some ?j \<and> ta_leases s = Some ?ls \<and> map_of ?ls lease = Some prev \<and>
      prev < cursor \<and> retains ?j cursor")
    case True
    then have "?ls \<noteq> []" by auto
    with True moved have "attach_ok cfg hist ?s1" by blast
    moreover from True have "same_core (snd (acknowledge cfg now lease cursor s)) ?s1"
      by (auto simp: acknowledge_def same_core_def Let_def split: option.splits)
    ultimately show ?thesis using core by blast
  next
    case False
    then have "snd (acknowledge cfg now lease cursor s) = s"
      using ok(1,2)
      by (auto simp: acknowledge_def journal_ok_def leases_of_def not_le split: option.splits if_splits)
    then show ?thesis using assms(1) by simp
  qed
qed

section \<open>Attaching\<close>

lemma register_ok:
  assumes "attach_ok cfg hist s" and "config_ok cfg"
    and "ta_journal s = Some (journal_of (cfg_journalBytes cfg) hist)"
    and "sid \<notin> set (map fst (leases_of s))"
  shows "attach_ok cfg hist (register_subscriber sid (log_bytes hist) s)"
    (is "attach_ok cfg hist ?s1")
proof -
  have ok: "leases_ok hist s"
    "flow_ok (cfg_lowWatermarkChars cfg) (cfg_highWatermarkChars cfg) (ta_flow s)"
    and wm: "cfg_lowWatermarkChars cfg < cfg_highWatermarkChars cfg"
    using assms(1,2) by (auto simp: attach_ok_def config_ok_def)
  let ?moved = "map (\<lambda>(lease, _). (lease, log_bytes hist)) (leases_of s)"
  have new: "\<not> list_ex (\<lambda>e. fst e = sid) (leases_of s)"
    using assms(4) by (auto simp: list_ex_iff)
  have ls: "leases_of ?s1 = ?moved @ [(sid, log_bytes hist)]"
    "ta_leases ?s1 = Some (?moved @ [(sid, log_bytes hist)])"
    using new by (simp_all add: register_subscriber_def leases_of_def Let_def)
  have keys: "map fst ?moved = map fst (leases_of s)" by (induction "leases_of s") auto
  have subs: "ta_subscribers ?s1 = Some (map fst (leases_of s) @ [sid])"
    using ok(1) by (auto simp: register_subscriber_def leases_ok_def nonempty_def)
  have "set (map snd (?moved @ [(sid, log_bytes hist)])) = {log_bytes hist}" by auto
  then have "Min (set (map snd (?moved @ [(sid, log_bytes hist)]))) = log_bytes hist"
    by (simp only: Min_singleton)
  moreover have "ta_acked ?s1 = Some (log_bytes hist)" by (simp add: register_subscriber_def)
  moreover have "distinct (map fst (?moved @ [(sid, log_bytes hist)]))"
    unfolding map_append keys using ok(1) assms(4) by (simp add: leases_ok_def)
  moreover have "list_all (\<lambda>e. boundary hist (snd e)) (?moved @ [(sid, log_bytes hist)])"
    by (auto simp: list_all_iff)
  moreover have "flow_consumers (ta_flow ?s1) = length (leases_of s) + 1"
    using ok(1) by (simp add: register_subscriber_def leases_ok_def)
  ultimately have "leases_ok hist ?s1"
    unfolding leases_ok_def ls subs map_append keys by simp
  then show ?thesis
    using assms(3) ok(2) wm
    by (simp add: attach_ok_def journal_ok_def register_subscriber_def flow_ok_steps)
qed

lemma attach_ok_reset_count: "attach_ok cfg hist s \<Longrightarrow> attach_ok cfg hist (s\<lparr>ta_resets := n\<rparr>)"
  by (subst attach_ok_core [of _ s]) (simp_all add: same_core_def)

lemma replay_from_ok:
  assumes "attach_ok cfg hist s" and "config_ok cfg"
  shows "attach_ok cfg hist (replay_from cfg accepts sid j epoch status c s)"
  using send_all_ok [OF assms(2,1), of accepts sid "deltasAfter j c"] assms(2)
  by (auto simp: replay_from_def intro!: send_to_ok split: prod.splits bool.splits)

lemma check_cursor_ok:
  assumes "attach_ok cfg hist s" and "config_ok cfg"
    and "check_cursor cfg accepts sid j epoch opts s = (ok, c, s')"
  shows "attach_ok cfg hist s'"
proof (cases "\<exists>event n. s' = snd (send_to cfg accepts sid event (s\<lparr>ta_resets := n\<rparr>))")
  case True
  then show ?thesis using send_to_ok [OF attach_ok_reset_count [OF assms(1)] assms(2)] by blast
next
  case False
  then have "s' = s"
    using assms(3) by (auto simp: check_cursor_def Let_def split: if_splits prod.splits) (metis snd_conv)+
  then show ?thesis using assms(1) by simp
qed

lemma serve_client_ok:
  assumes "attach_ok cfg hist s" and "config_ok cfg"
  shows "attach_ok cfg hist (snd (serve_client cfg accepts sid j epoch status snapshot c s))"
proof -
  have "attach_ok cfg hist s'" if "send_to cfg accepts sid event s = (ok, s')" for event ok s'
    using send_to_ok [OF assms, of accepts sid event] that by simp
  then show ?thesis
    using assms by (auto simp: serve_client_def Let_def removeAttachSubscriber_ok replay_from_ok
        split: option.split prod.split bool.split)
qed

lemma transportEpochFor_core:
  "transportEpochFor e s = (e', s') \<Longrightarrow> same_core s' s \<and> ta_status s' = ta_status s \<and>
     ta_sent s' = ta_sent s \<and> ta_parsed s' = ta_parsed s"
  by (auto simp: transportEpochFor_def same_core_def split: option.splits)

lemma attach_protocol_ok:
  assumes "attach_ok cfg hist s" and "config_ok cfg"
  shows "attach_ok cfg hist (snd (attach cfg accepts freshEpoch freshId snapshot opts s))"
proof (cases "ta_status s")
  case None
  then show ?thesis using assms(1) by (simp add: attach_def)
next
  case (Some status)
  let ?j = "journal_of (cfg_journalBytes cfg) hist"
  let ?s1 = "s\<lparr>ta_journal := Some ?j\<rparr>"
  obtain epoch s2 where s2: "transportEpochFor freshEpoch ?s1 = (epoch, s2)" by (cases "transportEpochFor freshEpoch ?s1")
  have jf: "journalFor cfg s = (?j, ?s1)"
    by (rule journalFor_ok) (use assms(1) in \<open>simp add: attach_ok_def\<close>)
  have s1_ok: "attach_ok cfg hist ?s1"
    using assms(1) by (simp add: attach_ok_def journal_ok_def leases_ok_def leases_of_def)
  have core: "same_core s2 ?s1" using transportEpochFor_core [OF s2] by blast
  have s2_ok: "attach_ok cfg hist s2" using attach_ok_core [OF core] s1_ok by simp
  define sid where "sid = (case ao_leaseId opts of Some i \<Rightarrow> i | None \<Rightarrow> freshId)"
  show ?thesis
  proof (cases "sid \<in> set (case ta_subscribers s2 of Some subs \<Rightarrow> subs | None \<Rightarrow> [])")
    case True
    then show ?thesis using s2_ok by (simp add: attach_def Some jf s2 sid_def Let_def)
  next
    case False
    then have "sid \<notin> set (map fst (leases_of s2))"
      using s2_ok by (auto simp: attach_ok_def leases_ok_def nonempty_def split: option.splits if_splits)
    then have s3_ok: "attach_ok cfg hist (register_subscriber sid (log_bytes hist) s2)"
      using s2_ok assms(2) core by (intro register_ok) (simp_all add: same_core_def)
    obtain ok c s4 where s4:
      "check_cursor cfg accepts sid ?j epoch opts (register_subscriber sid (log_bytes hist) s2) = (ok, c, s4)"
      by (rule prod_cases3)
    have "j_cursor ?j = log_bytes hist" by (simp add: journal_of_def)
    with False s4 check_cursor_ok [OF s3_ok assms(2) s4] show ?thesis
      by (cases ok) (simp_all add: attach_def Some jf s2 sid_def [symmetric] Let_def serve_client_ok s2_ok assms(2))
  qed
qed

section \<open>Exit, restart, removal\<close>

lemma terminal_exit_ok:
  assumes "attach_ok cfg hist s" and "config_ok cfg"
  shows "attach_ok cfg hist (terminal_exit cfg accepts code sig s)"
proof -
  have "attach_ok cfg hist (s\<lparr>ta_flow := flow_exit (ta_flow s)\<rparr>)"
    by (rule attach_ok_flow [OF assms(1)])
      (use assms in \<open>simp_all add: attach_ok_def config_ok_def flow_ok_steps\<close>)
  then have "attach_ok cfg hist (s\<lparr>ta_flow := flow_exit (ta_flow s), ta_status := st\<rparr>)" for st
    by (subst attach_ok_core) (simp_all add: same_core_def)
  then show ?thesis
    unfolding terminal_exit_def by (rule publishAttachEvent_ok [OF _ assms(2)])
qed

text \<open>The state \<open>restart\<close> publishes from.\<close>

lemma restart_setup:
  fixes epoch :: string
  assumes "attach_ok cfg hist s" and "config_ok cfg"
  defines "s1 \<equiv> s\<lparr>ta_status := Some ''running'', ta_epoch := Some epoch, ta_journal := None,
     ta_parsed := None, ta_acked := Some 0,
     ta_leases := map_option (map (\<lambda>(lease, _). (lease, 0))) (ta_leases s),
     ta_oldestUnackedAt := None, ta_ackLatency := None,
     ta_resets := Some ((case ta_resets s of Some n \<Rightarrow> n | None \<Rightarrow> 0) + 1)\<rparr>"
  shows "attach_ok cfg [] s1 \<and> ta_sent s1 = ta_sent s \<and> map fst (leases_of s1) = map fst (leases_of s)"
proof -
  have ls: "leases_of s1 = map (\<lambda>(lease, _). (lease, 0)) (leases_of s)"
    by (simp add: s1_def leases_of_def split: option.splits)
  have keys: "map fst (map (\<lambda>(lease, _). (lease, 0)) ls) = map fst ls" for ls :: "(string \<times> nat) list"
    by (induction ls) auto
  have zero: "Min (set (map snd (map (\<lambda>(lease, _). (lease, 0::nat)) ls))) = 0" if "ls \<noteq> []"
    for ls :: "(string \<times> nat) list"
  proof -
    have "set (map snd (map (\<lambda>(lease, _). (lease, 0::nat)) ls)) = {0}"
      using that by (cases ls) auto
    then show ?thesis by simp
  qed
  have "attach_ok cfg [] s1"
    unfolding attach_ok_def leases_ok_def ls keys
    using assms(1) zero unfolding s1_def
    by (auto simp: attach_ok_def leases_ok_def journal_ok_def nonempty_def list_all_iff)
  then show ?thesis unfolding ls keys by (simp add: s1_def)
qed

lemma restart_ok:
  assumes "attach_ok cfg hist s" and "config_ok cfg"
  shows "attach_ok cfg [] (restart_transport cfg accepts epoch s)"
proof -
  note s1 = conjunct1 [OF restart_setup [OF assms, of epoch]]
  note pub = publishAttachEvent_ok [OF publishAttachEvent_ok [OF publishAttachEvent_ok
      [OF publishAttachEvent_ok [OF s1 assms(2)] assms(2)] assms(2)] assms(2)]
  show ?thesis
    unfolding restart_transport_def Let_def
    by (rule attach_ok_flow [OF pub])
      (use pub assms(2) in \<open>auto simp: attach_ok_def config_ok_def flow_ok_steps\<close>)
qed

lemma remove_ok:
  assumes "attach_ok cfg hist s" and "config_ok cfg"
  shows "attach_ok cfg [] (remove_transport s)"
proof -
  have "flow_ok (cfg_lowWatermarkChars cfg) (cfg_highWatermarkChars cfg)
      ((detachFlowControlConsumer ^^ length (leases_of s)) (ta_flow s)) \<and>
    flow_consumers ((detachFlowControlConsumer ^^ length (leases_of s)) (ta_flow s)) = 0"
    using assms pty_lane.leave_all [of "cfg_lowWatermarkChars cfg" "cfg_highWatermarkChars cfg" "ta_flow s"]
    by (auto simp: attach_ok_def leases_ok_def config_ok_def lane_ok_def)
  then show ?thesis
    using assms(1)
    by (auto simp: remove_transport_def attach_ok_def leases_ok_def journal_ok_def leases_of_def
        nonempty_def split: option.splits)
qed

section \<open>Runs\<close>

text \<open>
  Everything that happens to one terminal, with the output history of its current generation:
  output of the PTY, output replayed from a revived session, attaches, departures,
  acknowledgements, exit, restart and removal.
\<close>

inductive attach_step ::
    "attach_config \<Rightarrow> acceptance \<Rightarrow> js_string list \<times> attach_state \<Rightarrow> js_string list \<times> attach_state \<Rightarrow> bool"
  for cfg accepts where
  emitted_output: "pty_output cfg accepts now data s = Some (e, s') \<Longrightarrow>
    attach_step cfg accepts (hist, s) (hist @ wire_chunks cfg data, s')"
| revived: "processOutput cfg accepts now data s = Some (e, s') \<Longrightarrow>
    attach_step cfg accepts (hist, s) (hist @ wire_chunks cfg data, s')"
| parsed: "attach_step cfg accepts (hist, s) (hist, output_parsed cursor s)"
| attached: "attach_step cfg accepts (hist, s)
    (hist, snd (attach cfg accepts freshEpoch freshId snapshot opts s))"
| left: "attach_step cfg accepts (hist, s) (hist, snd (removeAttachSubscriber cfg sid s))"
| acked: "attach_step cfg accepts (hist, s) (hist, snd (acknowledge cfg now lease cursor s))"
| exited: "attach_step cfg accepts (hist, s) (hist, terminal_exit cfg accepts code sig s)"
| restarted: "attach_step cfg accepts (hist, s) ([], restart_transport cfg accepts epoch s)"
| removed: "attach_step cfg accepts (hist, s) ([], remove_transport s)"

lemma attach_step_ok:
  assumes "attach_step cfg accepts x y" and "config_ok cfg" and "attach_ok cfg (fst x) (snd x)"
  shows "attach_ok cfg (fst y) (snd y)"
  using assms(1,3)
proof (induction rule: attach_step.induct)
  case (emitted_output now data s e s' hist)
  then show ?case using pty_output_ok [of cfg hist s accepts now data] assms(2) by auto
next
  case (revived now data s e s' hist)
  then show ?case using processOutput_ok [of cfg hist s accepts now data] assms(2) by auto
next
  case (parsed hist s cursor)
  have "same_core (output_parsed cursor s) s" by (simp add: output_parsed_def same_core_def)
  with parsed show ?case by (simp add: attach_ok_core)
qed (simp_all add: attach_protocol_ok removeAttachSubscriber_ok acknowledge_ok terminal_exit_ok
    restart_ok remove_ok assms(2))

lemma attach_runs_ok:
  assumes "(attach_step cfg accepts)\<^sup>*\<^sup>* x y" and "config_ok cfg" and "attach_ok cfg (fst x) (snd x)"
  shows "attach_ok cfg (fst y) (snd y)"
  using assms by (induction rule: rtranclp_induct) (auto intro: attach_step_ok)

lemma attach_init_ok: "attach_ok cfg [] attach_init"
  by (simp add: attach_ok_def attach_init_def journal_ok_def leases_ok_def leases_of_def
      flow_ok_def flow_spawn_def flow_init_def)

end
