(* ===== verification/Attach_Delivery.thy ===== *)
theory Attach_Delivery
  imports Attach_Facts
begin

text \<open>
  What a client receives when it attaches, and how acknowledgements release the debt of the
  PTY. \<open>willing\<close> is a client that takes every event. The debt is covered when it is at most the
  number of characters after the acknowledged cursor; it stays so as long as that cursor is
  still in the journal whenever the leases are committed (\<open>kept_up\<close>).
\<close>

definition willing :: acceptance where
  "willing sent sid event = True"

section \<open>Sending to willing clients\<close>

lemma send_to_willing:
  "send_to cfg willing sid event s = (True, s\<lparr>ta_sent := ta_sent s @ [(sid, event)]\<rparr>)"
  by (simp add: send_to_def willing_def)

lemma send_all_willing:
  "send_all cfg willing sid events s = (True, s\<lparr>ta_sent := ta_sent s @ map (Pair sid) events\<rparr>)"
  by (induction events arbitrary: s) (simp_all add: send_to_willing)

lemma publish_fold_willing:
  "foldl (\<lambda>s sid. snd (send_to cfg willing sid event s)) s subs
     = s\<lparr>ta_sent := ta_sent s @ map (\<lambda>sid. (sid, event)) subs\<rparr>"
  by (induction subs arbitrary: s) (simp_all add: send_to_willing)

lemma publish_willing:
  "publishAttachEvent cfg willing event s =
     s\<lparr>ta_sent := ta_sent s @ map (\<lambda>sid. (sid, event))
        (case ta_subscribers s of None \<Rightarrow> [] | Some subs \<Rightarrow> subs)\<rparr>"
  by (simp add: publishAttachEvent_def publish_fold_willing split: option.split)

section \<open>Attaching\<close>

fun event_data :: "attach_event \<Rightarrow> js_string" where
  "event_data (Delta _ d) = d"
| "event_data _ = []"

lemma deltasAfter_data:
  assumes "c = log_bytes (take k hist)" and "k \<le> length hist" and "retains (journal_of m hist) c"
  shows "concat (map event_data (deltasAfter (journal_of m hist) c)) = concat (drop k hist)"
  using journal_replay [OF assms] assms(3) by (simp add: deltasAfter_def comp_def)

lemma deltasAfter_Delta: "e \<in> set (deltasAfter j c) \<Longrightarrow> \<exists>n d. e = Delta n d"
  by (auto simp: deltasAfter_def split: if_splits)

lemma replay_from_willing:
  "replay_from cfg willing sid j epoch status c s =
     s\<lparr>ta_sent := ta_sent s @ map (Pair sid)
        (deltasAfter j c @ [Meta epoch (status = ''running''), ReplayComplete])\<rparr>"
  by (simp add: replay_from_def send_all_willing send_to_willing)

lemma register_fields [simp]:
  "ta_sent (register_subscriber sid c s) = ta_sent s"
  "ta_parsed (register_subscriber sid c s) = ta_parsed s"
  "ta_journal (register_subscriber sid c s) = ta_journal s"
  "ta_acked (register_subscriber sid c s) = Some c"
  "ta_resets (register_subscriber sid c s) = ta_resets s"
  by (simp_all add: register_subscriber_def)

text \<open>An attach that is not refused, with the journal and epoch in place.\<close>

lemma attach_known:
  assumes "ta_status s = Some status" and "ta_journal s = Some j" and "ta_epoch s = Some epoch"
    and "ao_leaseId opts = Some sid"
    and "sid \<notin> set (case ta_subscribers s of Some subs \<Rightarrow> subs | None \<Rightarrow> [])"
  shows "attach cfg accepts freshEpoch freshId snapshot opts s =
    (case check_cursor cfg accepts sid j epoch opts (register_subscriber sid (j_cursor j) s) of
       (False, _, s3) \<Rightarrow> (Inr sid, s3)
     | (True, c, s3) \<Rightarrow> serve_client cfg accepts sid j epoch status snapshot c s3)"
  using assms by (auto simp: attach_def journalFor_def transportEpochFor_def)

section \<open>Covered debt\<close>

definition covered :: "js_string list \<Rightarrow> attach_state \<Rightarrow> bool" where
  "covered hist s \<longleftrightarrow>
     leases_of s = [] \<or>
     (\<exists>k\<le>length hist. ta_acked s = Some (log_bytes (take k hist)) \<and>
        unacked_chars (ta_flow s) \<le> length (concat (drop k hist)))"

definition kept_up :: "js_string list \<times> attach_state \<Rightarrow> bool" where
  "kept_up x \<longleftrightarrow>
     (case ta_journal (snd x) of
        None \<Rightarrow> True
      | Some j \<Rightarrow>
          leases_of (snd x) = [] \<or>
          (case ta_acked (snd x) of Some c \<Rightarrow> retains j c | None \<Rightarrow> False))"

lemma retains_later:
  "retains (journal_of m hist) a \<Longrightarrow> boundary hist c \<Longrightarrow> a \<le> c \<Longrightarrow> retains (journal_of m hist) c"
  unfolding retains_of boundary_def by (metis add_le_mono1 order.trans)

lemma commit_covered:
  assumes "ta_acked s = Some (log_bytes (take k hist))" and "k \<le> length hist"
    and "unacked_chars (ta_flow s) \<le> length (concat (drop k hist))"
    and "retains (journal_of m hist) (log_bytes (take k hist))"
    and "boundary hist (Min (set (map snd ls)))" and "log_bytes (take k hist) \<le> Min (set (map snd ls))"
  shows "covered hist (commit_leases cfg (journal_of m hist) ls s)"
proof -
  obtain i where i: "i \<le> length hist" "Min (set (map snd ls)) = log_bytes (take i hist)"
    using assms(5) by (auto simp: boundary_def)
  let ?n = "charactersBetween (journal_of m hist) (log_bytes (take k hist)) (log_bytes (take i hist))"
  have later: "retains (journal_of m hist) (log_bytes (take i hist))"
    using retains_later [OF assms(4-6)] i(2) by simp
  have "?n + length (concat (drop i hist)) = length (concat (drop k hist))"
    using charactersBetween_of [OF refl assms(2,4) refl i(1) later] assms(6) i(2) by simp
  moreover have "unacked_chars (ta_flow (commit_leases cfg (journal_of m hist) ls s))
      = unacked_chars (ta_flow s) - ?n"
    using assms(1) i(2) by (simp add: commit_leases_def Let_def)
  ultimately have "unacked_chars (ta_flow (commit_leases cfg (journal_of m hist) ls s))
      \<le> length (concat (drop i hist))"
    using assms(3) by linarith
  then show ?thesis
    using i unfolding covered_def by (intro disjI2 exI [of _ i]) simp
qed

lemma covered_core: "same_core s s' \<Longrightarrow> covered hist s = covered hist s'"
  by (simp add: covered_def same_core_def leases_of_def)

lemma Min_boundary:
  assumes "ls \<noteq> []" and "list_all (\<lambda>e. boundary hist (snd e)) ls"
  shows "boundary hist (Min (set (map snd ls)))"
proof -
  have "Min (set (map snd ls)) \<in> set (map snd ls)" by (rule Min_in) (use assms(1) in auto)
  then obtain e where "e \<in> set ls" "Min (set (map snd ls)) = snd e" by (auto simp del: Min_in)
  with assms(2) show ?thesis by (simp add: list_all_iff)
qed

lemma commit_leases_covered:
  assumes "attach_ok cfg hist s" and "kept_up (hist, s)" and "covered hist s"
    and "leases_of s \<noteq> []" and "ls \<noteq> []" and "list_all (\<lambda>e. boundary hist (snd e)) ls"
    and "Min (set (map snd (leases_of s))) \<le> Min (set (map snd ls))"
    and "ta_acked s' = ta_acked s" and "unacked_chars (ta_flow s') \<le> unacked_chars (ta_flow s)"
  shows "covered hist (commit_leases cfg (journal_of (cfg_journalBytes cfg) hist) ls s')"
proof -
  obtain k where k: "k \<le> length hist" "ta_acked s = Some (log_bytes (take k hist))"
    "unacked_chars (ta_flow s) \<le> length (concat (drop k hist))"
    using assms(3,4) by (auto simp: covered_def)
  have acked: "Min (set (map snd (leases_of s))) = log_bytes (take k hist)"
    using assms(1,4) k(2) by (simp add: attach_ok_def leases_ok_def)
  have "retains (journal_of (cfg_journalBytes cfg) hist) (log_bytes (take k hist))"
  proof (cases "ta_journal s")
    case None
    then have "hist = []" using assms(1) by (auto simp: attach_ok_def journal_ok_def)
    then show ?thesis using retains_cursor [of "cfg_journalBytes cfg" "[]"] by simp
  next
    case (Some j)
    then show ?thesis
      using assms(1,2,4) k(2) by (auto simp: kept_up_def attach_ok_def journal_ok_def)
  qed
  with k assms(5-9) acked Min_boundary show ?thesis
    by (intro commit_covered [of _ k]) auto
qed

lemma removeAttachSubscriber_covered:
  assumes "attach_ok cfg hist s" and "kept_up (hist, s)" and "covered hist s"
  shows "covered hist (snd (removeAttachSubscriber cfg sid s))"
proof -
  have ok: "journal_ok cfg hist s" "leases_ok hist s" using assms(1) by (auto simp: attach_ok_def)
  let ?ls = "leases_of s" and ?ls' = "filter (\<lambda>e. fst e \<noteq> sid) (leases_of s)"
  let ?j = "journal_of (cfg_journalBytes cfg) hist"
  let ?s1 = "s\<lparr>ta_subscribers := Some (map fst ?ls'), ta_flow := detachFlowControlConsumer (ta_flow s)\<rparr>"
  show ?thesis
  proof (cases "sid \<in> fst ` set ?ls")
    case False
    then have "snd (removeAttachSubscriber cfg sid s) = s"
      using ok(2) by (auto simp: removeAttachSubscriber_def leases_ok_def nonempty_def)
    then show ?thesis using assms(3) by simp
  next
    case True
    then have ls: "ta_leases s = Some ?ls" "ta_subscribers s = Some (map fst ?ls)"
      using ok(2) by (auto simp: leases_ok_def nonempty_def)
    have jf: "journalFor cfg ?s1 = (?j, ?s1\<lparr>ta_journal := Some ?j\<rparr>)"
      by (rule journalFor_ok) (use ok(1) in \<open>simp add: journal_ok_def\<close>)
    show ?thesis
    proof (cases "?ls' = []")
      case True
      with \<open>sid \<in> fst ` set ?ls\<close> jf
      have "ta_leases (snd (removeAttachSubscriber cfg sid s)) = None"
        by (simp add: removeAttachSubscriber_def ls filter_fst_neq)
      then show ?thesis by (simp add: covered_def leases_of_def)
    next
      case False
      have "Min (set (map snd ?ls)) \<le> Min (set (map snd ?ls'))"
        by (rule Min_antimono) (use False in \<open>auto simp: filter_empty_conv\<close>)
      moreover have "list_all (\<lambda>e. boundary hist (snd e)) ?ls'"
        using ok(2) by (auto simp: leases_ok_def list_all_iff)
      moreover have "?ls \<noteq> []" using False by auto
      ultimately have "covered hist (commit_leases cfg ?j ?ls' (?s1\<lparr>ta_journal := Some ?j, ta_leases := Some ?ls'\<rparr>))"
        using False by (intro commit_leases_covered [OF assms]) (simp_all add: detach_unacked)
      then show ?thesis
        using True False jf by (simp add: removeAttachSubscriber_def ls filter_fst_neq Let_def)
    qed
  qed
qed

text \<open>What an acknowledgement of the whole output does to the leases.\<close>

definition moved_leases :: "string \<Rightarrow> nat \<Rightarrow> (string \<times> nat) list \<Rightarrow> (string \<times> nat) list" where
  "moved_leases lease cursor ls = map (\<lambda>(i, c). (i, if i = lease then cursor else c)) ls"

lemma moved_leases_simps [simp]:
  "map fst (moved_leases lease cursor ls) = map fst ls"
  "moved_leases lease cursor ls = [] \<longleftrightarrow> ls = []"
  by (auto simp: moved_leases_def)

lemma moved_leases_boundary:
  "list_all (\<lambda>e. boundary hist (snd e)) ls \<Longrightarrow> boundary hist c \<Longrightarrow>
     list_all (\<lambda>e. boundary hist (snd e)) (moved_leases lease c ls)"
  unfolding moved_leases_def by (rule map_of_boundary)

lemma moved_leases_Min:
  assumes "map_of ls lease = Some prev" and "prev < cursor"
  shows "Min (set (map snd ls)) \<le> Min (set (map snd (moved_leases lease cursor ls)))"
proof (rule Min.boundedI)
  have member: "prev \<in> set (map snd ls)" using map_of_SomeD [OF assms(1)] by force
  show "set (map snd (moved_leases lease cursor ls)) \<noteq> {}"
    using member by (auto simp: moved_leases_def)
  fix c assume "c \<in> set (map snd (moved_leases lease cursor ls))"
  then consider "c = cursor" | "c \<in> set (map snd ls)"
    by (force simp: moved_leases_def split: if_splits)
  then show "Min (set (map snd ls)) \<le> c"
  proof cases
    case 1
    have "Min (set (map snd ls)) \<le> prev" by (rule Min_le) (use member in simp_all)
    with 1 assms(2) show ?thesis by simp
  qed (rule Min_le, simp_all)
qed simp

text \<open>An acknowledgement either changes nothing or commits the moved lease.\<close>

lemma acknowledge_cases:
  assumes "attach_ok cfg hist s"
  obtains "snd (acknowledge cfg now lease cursor s) = s"
      "\<And>prev. ta_journal s \<noteq> None \<Longrightarrow> map_of (leases_of s) lease = Some prev \<Longrightarrow>
         cursor \<le> prev \<or> \<not> retains (journal_of (cfg_journalBytes cfg) hist) cursor"
  | prev where "ta_journal s = Some (journal_of (cfg_journalBytes cfg) hist)"
      "map_of (leases_of s) lease = Some prev" "prev < cursor"
      "retains (journal_of (cfg_journalBytes cfg) hist) cursor"
      "same_core (snd (acknowledge cfg now lease cursor s))
         (commit_leases cfg (journal_of (cfg_journalBytes cfg) hist) (moved_leases lease cursor (leases_of s))
           (s\<lparr>ta_leases := Some (moved_leases lease cursor (leases_of s))\<rparr>))"
proof -
  let ?j = "journal_of (cfg_journalBytes cfg) hist"
  have journal: "ta_journal s = Some ?j \<or> ta_journal s = None"
    using assms by (auto simp: attach_ok_def journal_ok_def)
  show thesis
  proof (cases "\<exists>prev. ta_journal s = Some ?j \<and> map_of (leases_of s) lease = Some prev \<and>
      prev < cursor \<and> retains ?j cursor")
    case True
    then obtain prev where prev: "ta_journal s = Some ?j" "map_of (leases_of s) lease = Some prev"
      "prev < cursor" "retains ?j cursor" by blast
    then have "ta_leases s = Some (leases_of s)" by (auto simp: leases_of_def split: option.splits)
    with prev have "same_core (snd (acknowledge cfg now lease cursor s))
        (commit_leases cfg ?j (moved_leases lease cursor (leases_of s))
          (s\<lparr>ta_leases := Some (moved_leases lease cursor (leases_of s))\<rparr>))"
      by (auto simp: acknowledge_def same_core_def Let_def moved_leases_def split: option.splits)
    then show thesis using that(2) prev by blast
  next
    case False
    have "snd (acknowledge cfg now lease cursor s) = s"
      using journal False
      by (auto simp: acknowledge_def leases_of_def not_le split: option.splits if_splits)
    moreover have "cursor \<le> prev \<or> \<not> retains ?j cursor"
      if "ta_journal s \<noteq> None" "map_of (leases_of s) lease = Some prev" for prev
      using False journal that by (auto simp: not_less [symmetric])
    ultimately show thesis using that(1) by blast
  qed
qed

lemma acknowledge_covered:
  assumes "attach_ok cfg hist s" and "kept_up (hist, s)" and "covered hist s"
  shows "covered hist (snd (acknowledge cfg now lease cursor s))"
proof (cases rule: acknowledge_cases [OF assms(1), of now lease cursor])
  case 1
  then show ?thesis using assms(3) by simp
next
  case (2 prev)
  have ls: "leases_of s \<noteq> []" "list_all (\<lambda>e. boundary hist (snd e)) (leases_of s)"
    using 2(2) assms(1) by (auto simp: attach_ok_def leases_ok_def)
  have "covered hist (commit_leases cfg (journal_of (cfg_journalBytes cfg) hist)
      (moved_leases lease cursor (leases_of s)) (s\<lparr>ta_leases := Some (moved_leases lease cursor (leases_of s))\<rparr>))"
    using ls moved_leases_Min [OF 2(2,3)] moved_leases_boundary [OF ls(2) retains_boundary [OF 2(4)]]
    by (intro commit_leases_covered [OF assms]) simp_all
  then show ?thesis using covered_core [OF 2(5)] by simp
qed

section \<open>Runs with willing clients\<close>

lemma publish_willing_core: "same_core (publishAttachEvent cfg willing event s) s"
  by (simp add: publish_willing same_core_def)

text \<open>Output to willing clients changes nothing but the journal and the log of what was sent.\<close>

definition same_leases :: "attach_state \<Rightarrow> attach_state \<Rightarrow> bool" where
  "same_leases s s' \<longleftrightarrow> ta_leases s = ta_leases s' \<and> ta_acked s = ta_acked s' \<and>
     ta_subscribers s = ta_subscribers s' \<and> ta_flow s = ta_flow s'"

lemma output_chunk_willing:
  "output_chunk cfg willing now chunk s = Some (e, s') \<Longrightarrow> same_leases s' s"
  by (auto simp: output_chunk_def same_leases_def journalFor_def publish_willing Let_def
      split: option.splits sum.splits prod.splits if_splits)

lemma output_chunks_willing:
  "output_chunks cfg willing now chunks s = Some (e, s') \<Longrightarrow> same_leases s' s"
proof (induction chunks arbitrary: s)
  case (Cons chunk rest)
  then obtain e1 s1 where s1: "output_chunk cfg willing now chunk s = Some (e1, s1)"
    by (auto split: option.splits)
  have "same_leases s' s1"
    using Cons s1 by (cases e1) (auto simp: same_leases_def)
  with output_chunk_willing [OF s1] show ?case by (simp add: same_leases_def)
qed (simp add: same_leases_def)

lemma processOutput_willing:
  "processOutput cfg willing now data s = Some (e, s') \<Longrightarrow> same_leases s' s"
  by (auto simp: processOutput_def same_leases_def split: sum.splits dest!: output_chunks_willing)

lemma covered_append:
  assumes "covered hist s" and "same_leases s' s" and "concat ds = data"
    and "unacked_chars f \<le> unacked_chars (ta_flow s) + length data"
  shows "covered (hist @ ds) (s'\<lparr>ta_flow := f\<rparr>)"
proof (cases "leases_of s = []")
  case True
  then show ?thesis using assms(2) by (simp add: covered_def leases_of_def same_leases_def)
next
  case False
  then obtain k where k: "k \<le> length hist" "ta_acked s = Some (log_bytes (take k hist))"
    "unacked_chars (ta_flow s) \<le> length (concat (drop k hist))"
    using assms(1) by (auto simp: covered_def)
  have "length (concat (drop k (hist @ ds))) = length (concat (drop k hist)) + length data"
    using k(1) assms(3) by simp
  with k assms(2,4) show ?thesis
    unfolding covered_def by (intro disjI2 exI [of _ k]) (simp add: same_leases_def)
qed

lemma kept_up_core: "same_core s s' \<Longrightarrow> kept_up (hist, s) = kept_up (hist, s')"
  by (simp add: kept_up_def same_core_def leases_of_def cong: option.case_cong)

lemma same_leases_refl [simp]: "same_leases s s"
  by (simp add: same_leases_def)

lemma covered_leases:
  assumes "leases_of s = leases_of s'" "ta_acked s = ta_acked s'"
    "unacked_chars (ta_flow s) \<le> unacked_chars (ta_flow s')" "covered hist s'"
  shows "covered hist s"
  using assms unfolding covered_def by (metis order.trans)

lemma attach_covered:
  assumes "attach_ok cfg hist s" and "config_ok cfg" and "covered hist s"
  shows "covered hist (snd (attach cfg willing freshEpoch freshId snapshot opts s))"
proof (cases "ta_status s")
  case None
  then show ?thesis using assms(3) by (simp add: attach_def)
next
  case (Some status)
  let ?j = "journal_of (cfg_journalBytes cfg) hist"
  let ?s1 = "s\<lparr>ta_journal := Some ?j\<rparr>"
  obtain epoch s2 where s2: "transportEpochFor freshEpoch ?s1 = (epoch, s2)" by (cases "transportEpochFor freshEpoch ?s1")
  have jf: "journalFor cfg s = (?j, ?s1)"
    by (rule journalFor_ok) (use assms(1) in \<open>simp add: attach_ok_def\<close>)
  have s1_ok: "attach_ok cfg hist ?s1"
    using assms(1) by (simp add: attach_ok_def journal_ok_def leases_ok_def leases_of_def)
  have core: "same_core s2 ?s1" using transportEpochFor_core [OF s2] by blast
  have s2_ok: "attach_ok cfg hist s2" using attach_ok_core [OF core] s1_ok by simp
  have "covered hist ?s1" using assms(3) by (simp add: covered_def leases_of_def)
  then have s2_covered: "covered hist s2" using covered_core [OF core] by simp
  define sid where "sid = (case ao_leaseId opts of Some i \<Rightarrow> i | None \<Rightarrow> freshId)"
  define s3 where "s3 = register_subscriber sid (log_bytes hist) s2"
  show ?thesis
  proof (cases "sid \<in> set (case ta_subscribers s2 of Some subs \<Rightarrow> subs | None \<Rightarrow> [])")
    case True
    then show ?thesis using s2_covered by (simp add: attach_def Some jf s2 sid_def Let_def)
  next
    case False
    then have "sid \<notin> set (map fst (leases_of s2))"
      using s2_ok by (auto simp: attach_ok_def leases_ok_def nonempty_def split: option.splits if_splits)
    then have s3_ok: "attach_ok cfg hist s3"
      using s2_ok assms(2) core unfolding s3_def by (intro register_ok) (simp_all add: same_core_def)
    have journal: "ta_journal s3 = Some ?j" using core by (simp add: s3_def same_core_def)
    have acked: "ta_acked s3 = Some (log_bytes hist)" by (simp add: s3_def)
    have debt: "unacked_chars (ta_flow s3) = 0" by (simp add: s3_def register_subscriber_def)
    have good: "covered hist s' \<and> kept_up (hist, s') \<and> attach_ok cfg hist s'"
      if "same_core s' s3" for s'
    proof -
      have "covered hist s3"
        unfolding covered_def
        by (intro disjI2 exI [of _ "length hist"]) (simp add: acked debt)
      moreover have "kept_up (hist, s3)" by (simp add: kept_up_def journal acked retains_cursor)
      ultimately show ?thesis
        using s3_ok covered_core [OF that] attach_ok_core [OF that] kept_up_core [OF that] by blast
    qed
    obtain ok c s4 where s4: "check_cursor cfg willing sid ?j epoch opts s3 = (ok, c, s4)"
      by (rule prod_cases3)
    have s4_core: "same_core s4 s3"
      using s4 by (auto simp: check_cursor_def send_to_willing same_core_def Let_def split: if_splits)
    have "covered hist (snd (serve_client cfg willing sid ?j epoch status snapshot c s4))"
    proof (cases "c = None \<and> cfg_snapshotBytes cfg < utf8Bytes snapshot")
      case True
      then show ?thesis
        using removeAttachSubscriber_covered good [OF s4_core] by (simp add: serve_client_def)
    next
      case False
      then have "same_core (snd (serve_client cfg willing sid ?j epoch status snapshot c s4)) s3"
        using s4_core by (auto simp: serve_client_def replay_from_willing send_to_willing
            same_core_def Let_def split: option.split)
      then show ?thesis using good by blast
    qed
    moreover have "j_cursor ?j = log_bytes hist" by (simp add: journal_of_def)
    ultimately show ?thesis
      using False s4 good [OF s4_core]
      by (cases ok) (simp_all add: attach_def Some jf s2 s3_def sid_def [symmetric] Let_def s2_covered)
  qed
qed

lemma covered_no_debt:
  assumes "leases_ok hist s" and "unacked_chars (ta_flow s) = 0"
  shows "covered hist s"
proof (cases "leases_of s = []")
  case False
  then have "ta_acked s = Some (Min (set (map snd (leases_of s))))"
    "list_all (\<lambda>e. boundary hist (snd e)) (leases_of s)"
    using assms(1) by (simp_all add: leases_ok_def)
  with Min_boundary [OF False] assms(2) show ?thesis by (auto simp: covered_def boundary_def)
qed (simp add: covered_def)

lemma covered_step:
  assumes "attach_step cfg willing x y" and "config_ok cfg" and "kept_up x"
    and "attach_ok cfg (fst x) (snd x)" and "covered (fst x) (snd x)"
  shows "covered (fst y) (snd y)"
  using assms(1,3-5)
proof (induction rule: attach_step.induct)
  case (emitted_output now data s e s' hist)
  then obtain s1 where s1: "processOutput cfg willing now data s = Some (e, s1)"
    and s': "s' = (if e = None
      then s1\<lparr>ta_flow := trackEmittedChars (cfg_highWatermarkChars cfg) (length data) (ta_flow s1)\<rparr> else s1)"
    by (auto simp: pty_output_def)
  have same: "same_leases s1 s" by (rule processOutput_willing [OF s1])
  have len: "concat (wire_chunks cfg data) = data" by (rule wire_chunks_ok(2) [OF assms(2)])
  have "covered (hist @ wire_chunks cfg data) (s1\<lparr>ta_flow := f\<rparr>)"
    if "unacked_chars f \<le> unacked_chars (ta_flow s) + length data" for f
    by (rule covered_append [OF _ same len that]) (use emitted_output.prems in simp)
  from this [of "ta_flow s1"]
    this [of "trackEmittedChars (cfg_highWatermarkChars cfg) (length data) (ta_flow s1)"]
  show ?case
    using same trackEmittedChars_unacked [of "cfg_highWatermarkChars cfg" "length data" "ta_flow s"]
    by (simp add: s' same_leases_def)
next
  case (revived now data s e s' hist)
  have same: "same_leases s' s" by (rule processOutput_willing [OF revived.hyps])
  have "covered (hist @ wire_chunks cfg data) (s'\<lparr>ta_flow := ta_flow s'\<rparr>)"
    by (rule covered_append [OF _ same wire_chunks_ok(2) [OF assms(2)]])
      (use revived.prems same in \<open>simp_all add: same_leases_def\<close>)
  then show ?case by simp
next
  case (parsed hist s cursor)
  have "same_core (output_parsed cursor s) s" by (simp add: output_parsed_def same_core_def)
  with parsed show ?case by (simp add: covered_core)
next
  case (exited hist s code sig)
  have "same_core (terminal_exit cfg willing code sig s)
      (s\<lparr>ta_flow := flow_exit (ta_flow s), ta_status := map_option (\<lambda>_. ''stopped'') (ta_status s)\<rparr>)"
    unfolding terminal_exit_def by (rule publish_willing_core)
  moreover have "covered hist (s\<lparr>ta_flow := flow_exit (ta_flow s), ta_status := st\<rparr>)" for st
    by (rule covered_leases [of _ s])
      (use exited.prems(3) in \<open>simp_all add: leases_of_def unacked_chars_def flow_exit_def\<close>)
  ultimately show ?case by (simp add: covered_core)
next
  case (restarted hist s epoch)
  have "leases_ok [] (restart_transport cfg willing epoch s)"
    using restart_ok [OF _ assms(2), of hist s willing epoch] restarted.prems(2)
    by (simp add: attach_ok_def)
  then show ?case by (simp add: covered_no_debt restart_transport_def Let_def)
next
  case (removed hist s)
  then show ?case by (simp add: covered_def leases_of_def remove_transport_def)
qed (simp_all add: attach_covered assms(2) removeAttachSubscriber_covered acknowledge_covered)

text \<open>
  A run in which clients take every event and the acknowledged cursor is never evicted.
\<close>

definition kept_up_step ::
    "attach_config \<Rightarrow> js_string list \<times> attach_state \<Rightarrow> js_string list \<times> attach_state \<Rightarrow> bool" where
  "kept_up_step cfg x y \<longleftrightarrow> attach_step cfg willing x y \<and> kept_up x"

lemma kept_up_runs:
  assumes "(kept_up_step cfg)\<^sup>*\<^sup>* x y" and "config_ok cfg"
    and "attach_ok cfg (fst x) (snd x)" and "covered (fst x) (snd x)"
  shows "attach_ok cfg (fst y) (snd y) \<and> covered (fst y) (snd y)"
  using assms
proof (induction rule: rtranclp_induct)
  case (step y z)
  then show ?case
    using attach_step_ok [of cfg willing y z] covered_step [of cfg y z] by (auto simp: kept_up_step_def)
qed simp

section \<open>Acknowledging everything\<close>

fun ack_all :: "attach_config \<Rightarrow> int \<Rightarrow> nat \<Rightarrow> string list \<Rightarrow> attach_state \<Rightarrow> attach_state" where
  "ack_all cfg now cursor [] s = s"
| "ack_all cfg now cursor (lease # rest) s =
     ack_all cfg now cursor rest (snd (acknowledge cfg now lease cursor s))"

lemma map_of_moved_leases:
  "map_of (moved_leases lease cursor ls) i =
     (if i = lease then map_option (\<lambda>_. cursor) (map_of ls i) else map_of ls i)"
  by (induction ls) (auto simp: moved_leases_def)

lemma acknowledge_step:
  fixes now :: int and lease :: string
  assumes "attach_ok cfg hist s" and "config_ok cfg" and "kept_up (hist, s)" and "covered hist s"
    and "ta_journal s = Some (journal_of (cfg_journalBytes cfg) hist)" and "leases_of s \<noteq> []"
  defines "s' \<equiv> snd (acknowledge cfg now lease (log_bytes hist) s)"
  shows "attach_ok cfg hist s' \<and> kept_up (hist, s') \<and> covered hist s' \<and>
    ta_journal s' = ta_journal s \<and> map fst (leases_of s') = map fst (leases_of s) \<and>
    (\<forall>i. map_of (leases_of s') i = (if i = lease then map_option (\<lambda>_. log_bytes hist) (map_of (leases_of s) i)
       else map_of (leases_of s) i)) \<and>
    (flow_pty (ta_flow s') = None \<longleftrightarrow> flow_pty (ta_flow s) = None)"
proof (cases rule: acknowledge_cases [OF assms(1), of now lease "log_bytes hist"])
  case 1
  have "c = log_bytes hist" if "map_of (leases_of s) lease = Some c" for c
  proof -
    have "(lease, c) \<in> set (leases_of s)" by (rule map_of_SomeD [OF that])
    then have "boundary hist c"
      using assms(1) by (auto simp: attach_ok_def leases_ok_def list_all_iff)
    then have "c \<le> log_bytes hist" using log_bytes_take_le by (auto simp: boundary_def)
    with 1(2) [of c] that assms(5) retains_cursor show ?thesis by auto
  qed
  then show ?thesis using assms 1(1) by (auto split: option.splits) (metis option.collapse option.simps(8,9))
next
  case (2 prev)
  let ?ls' = "moved_leases lease (log_bytes hist) (leases_of s)"
  let ?s1 = "commit_leases cfg (journal_of (cfg_journalBytes cfg) hist) ?ls' (s\<lparr>ta_leases := Some ?ls'\<rparr>)"
  have core: "same_core s' ?s1" using 2(5) by (simp add: s'_def)
  have ok: "attach_ok cfg hist s'" "covered hist s'"
    unfolding s'_def using acknowledge_ok [OF assms(1,2)] acknowledge_covered [OF assms(1,3,4)] by auto
  have ls: "leases_of s' = ?ls'" using core by (simp add: same_core_def leases_of_def)
  have acked: "ta_acked s' = Some (Min (set (map snd ?ls')))" using core by (simp add: same_core_def)
  have journal: "ta_journal s' = ta_journal s" using core by (simp add: same_core_def)
  have "boundary hist (Min (set (map snd ?ls')))"
    using Min_boundary [of ?ls' hist] ok(1) assms(6) ls by (simp add: attach_ok_def leases_ok_def)
  moreover have "retains (journal_of (cfg_journalBytes cfg) hist) (Min (set (map snd (leases_of s))))"
    using assms(1,3,5,6) by (simp add: kept_up_def attach_ok_def leases_ok_def)
  ultimately have "retains (journal_of (cfg_journalBytes cfg) hist) (Min (set (map snd ?ls')))"
    using retains_later moved_leases_Min [OF 2(2,3)] by blast
  then have "kept_up (hist, s')" by (simp add: kept_up_def journal assms(5) acked)
  moreover have "flow_pty (ta_flow s') = None \<longleftrightarrow> flow_pty (ta_flow s) = None"
    using core by (simp add: same_core_def commit_leases_def Let_def flow_ack_def resume_pty_def
        split: option.split)
  ultimately show ?thesis using ok by (simp add: ls journal map_of_moved_leases)
qed

lemma ack_all_step:
  assumes "config_ok cfg"
  shows "attach_ok cfg hist s \<Longrightarrow> kept_up (hist, s) \<Longrightarrow> covered hist s \<Longrightarrow>
    ta_journal s = Some (journal_of (cfg_journalBytes cfg) hist) \<Longrightarrow> leases_of s \<noteq> [] \<Longrightarrow>
    (\<forall>i c. map_of (leases_of s) i = Some c \<longrightarrow> i \<notin> set ids \<longrightarrow> c = log_bytes hist) \<Longrightarrow>
    flow_pty (ta_flow s) \<noteq> None \<Longrightarrow>
    unacked_chars (ta_flow (ack_all cfg now (log_bytes hist) ids s)) = 0 \<and>
    flow_pty (ta_flow (ack_all cfg now (log_bytes hist) ids s)) = Some False"
proof (induction ids arbitrary: s)
  case Nil
  have ls: "leases_ok hist s"
    "flow_ok (cfg_lowWatermarkChars cfg) (cfg_highWatermarkChars cfg) (ta_flow s)"
    using Nil.prems(1) by (simp_all add: attach_ok_def)
  have "c = log_bytes hist" if c: "c \<in> set (map snd (leases_of s))" for c
  proof -
    obtain i where "(i, c) \<in> set (leases_of s)" using c by force
    moreover have "distinct (map fst (leases_of s))" using ls(1) by (simp add: leases_ok_def)
    ultimately have "map_of (leases_of s) i = Some c" by simp
    then show ?thesis using Nil.prems(6) by simp
  qed
  then have "set (map snd (leases_of s)) = {log_bytes hist}"
    using Nil.prems(5) by (cases "leases_of s") auto
  then have "Min (set (map snd (leases_of s))) = log_bytes hist" by (simp only: Min_singleton)
  then have "ta_acked s = Some (log_bytes hist)"
    using ls(1) Nil.prems(5) by (simp add: leases_ok_def)
  then obtain k where k: "k \<le> length hist" "log_bytes hist = log_bytes (take k hist)"
    "unacked_chars (ta_flow s) \<le> length (concat (drop k hist))"
    using Nil.prems(3,5) by (auto simp: covered_def)
  have "log_bytes hist = log_bytes (take k hist) + log_bytes (drop k hist)"
    by (metis append_take_drop_id log_bytes_simps(3))
  then have "log_bytes (drop k hist) = 0" using k(2) by simp
  then have "concat (drop k hist) = []" by (auto simp: log_bytes_def)
  then have "length (concat (drop k hist)) = 0" by (simp only: list.size)
  then have "unacked_chars (ta_flow s) = 0" using k(3) by linarith
  moreover from this have "pty_runs (ta_flow s)"
    using ls(2) assms
      pty_lane.no_debt_runs [of "cfg_lowWatermarkChars cfg" "cfg_highWatermarkChars cfg" "ta_flow s"]
    by (simp add: lane_ok_def config_ok_def)
  ultimately show ?case using Nil.prems(7) by (auto simp: pty_runs_def)
next
  case (Cons lease rest)
  note step = acknowledge_step [OF Cons.prems(1) assms Cons.prems(2-5), of now lease]
  show ?case
    unfolding ack_all.simps
    by (rule Cons.IH) (use step Cons.prems in \<open>auto split: if_splits\<close>)
qed

text \<open>Nothing is released when the acknowledged cursor is no longer in the journal.\<close>

lemma commit_leases_evicted:
  "ta_acked s = Some c \<Longrightarrow> \<not> retains j c \<Longrightarrow> ta_flow (commit_leases cfg j ls s) = ta_flow s"
  by (simp add: commit_leases_def charactersBetween_lost)

lemma acknowledge_evicted:
  assumes "ta_journal s = Some j" and "ta_acked s = Some c" and "\<not> retains j c"
  shows "ta_flow (snd (acknowledge cfg now lease cursor s)) = ta_flow s"
  using assms
  by (auto simp: acknowledge_def Let_def commit_leases_evicted [of _ c] split: option.splits)

end
