(* ===== verification/Coalescer.thy ===== *)
theory Coalescer
  imports Utf16
begin

text \<open>
  The frame-aligned output coalescer of \<open>packages/terminal/src/lib/coalescing-data-handler.ts\<close>.
  The closure's variables are a record; \<open>performance.now()\<close> and the value of the window getter
  are arguments of the calls that read them; a pending \<open>setTimeout\<close> is its deadline, and its
  callback is the operation \<open>timer_fires\<close>. \<open>co_out\<close> lists the calls of \<open>onFlush\<close>.
\<close>

definition COALESCE_WINDOW_MS_DEFAULT :: rat where "COALESCE_WINDOW_MS_DEFAULT = 16"
definition INPUT_COALESCE_WINDOW_MS :: rat where "INPUT_COALESCE_WINDOW_MS = 1"
definition INPUT_PRIORITY_DURATION_MS :: rat where "INPUT_PRIORITY_DURATION_MS = 100"
definition COALESCE_MAX_BUFFER_BYTES_DEFAULT :: nat where
  "COALESCE_MAX_BUFFER_BYTES_DEFAULT = 256 * 1024"

section \<open>The runtime window\<close>

record runtime_window =
  rw_envOverrideMs :: "rat option"
  rw_windowMs :: rat

definition createRuntimeCoalesceWindow :: "rat option \<Rightarrow> rat option \<Rightarrow> runtime_window" where
  "createRuntimeCoalesceWindow defaultMs envOverrideMs =
     \<lparr>rw_envOverrideMs = envOverrideMs,
      rw_windowMs =
        (case envOverrideMs of Some ms \<Rightarrow> ms
         | None \<Rightarrow> (case defaultMs of Some ms \<Rightarrow> ms | None \<Rightarrow> COALESCE_WINDOW_MS_DEFAULT))\<rparr>"

definition setWindow :: "rat \<Rightarrow> runtime_window \<Rightarrow> runtime_window" where
  "setWindow nextWindowMs r =
     (if rw_envOverrideMs r \<noteq> None then r
      else if of_int \<lfloor>nextWindowMs\<rfloor> = nextWindowMs \<and> 0 < nextWindowMs
      then r\<lparr>rw_windowMs := nextWindowMs\<rparr>
      else r)"

section \<open>The handler\<close>

record coalesce_options =
  opt_maxBufferBytes :: "nat option"
  opt_prioritizeInput :: "bool option"

record coalescer =
  co_chunks :: "js_string list"
  co_bufferedBytes :: nat
  co_timer :: "rat option"
  co_flushAt :: rat
  co_inputPriorityUntil :: rat
  co_out :: "js_string list"

definition new_coalescer :: coalescer where
  "new_coalescer = \<lparr>co_chunks = [], co_bufferedBytes = 0, co_timer = None, co_flushAt = 0,
     co_inputPriorityUntil = 0, co_out = []\<rparr>"

definition maxBufferBytes :: "coalesce_options \<Rightarrow> nat" where
  "maxBufferBytes opts =
     (case opt_maxBufferBytes opts of Some n \<Rightarrow> n | None \<Rightarrow> COALESCE_MAX_BUFFER_BYTES_DEFAULT)"

definition currentWindowMs :: "rat \<Rightarrow> rat \<Rightarrow> coalescer \<Rightarrow> rat" where
  "currentWindowMs now configured c =
     (if now < co_inputPriorityUntil c then min INPUT_COALESCE_WINDOW_MS configured else configured)"

definition emit_buffered :: "coalescer \<Rightarrow> coalescer" where
  "emit_buffered c =
     (if length (co_chunks c) = 0 then c
      else c\<lparr>co_chunks := [], co_bufferedBytes := 0, co_out := co_out c @ [concat (co_chunks c)]\<rparr>)"

definition openWindow :: "rat \<Rightarrow> rat \<Rightarrow> coalescer \<Rightarrow> coalescer" where
  "openWindow now configured c =
     (let windowMs = currentWindowMs now configured c
      in c\<lparr>co_flushAt := now + windowMs, co_timer := Some (now + windowMs)\<rparr>)"

definition timer_fires :: "rat \<Rightarrow> rat \<Rightarrow> coalescer \<Rightarrow> coalescer" where
  "timer_fires now configured c =
     (let c1 = c\<lparr>co_timer := None\<rparr>
      in if 0 < length (co_chunks c1) then openWindow now configured (emit_buffered c1) else c1)"

definition onInput :: "coalesce_options \<Rightarrow> rat \<Rightarrow> rat \<Rightarrow> coalescer \<Rightarrow> coalescer" where
  "onInput opts now configured c =
     (if opt_prioritizeInput opts = Some False then c
      else
        (let c1 = c\<lparr>co_inputPriorityUntil := now + INPUT_PRIORITY_DURATION_MS\<rparr>
         in if co_timer c1 \<noteq> None \<and> now + currentWindowMs now configured c1 < co_flushAt c1
            then openWindow now configured c1
            else c1))"

definition flush_buffered :: "coalescer \<Rightarrow> coalescer" where
  "flush_buffered c = emit_buffered (c\<lparr>co_timer := None\<rparr>)"

definition coalescer_write ::
    "coalesce_options \<Rightarrow> rat \<Rightarrow> rat \<Rightarrow> js_string \<Rightarrow> coalescer \<Rightarrow> coalescer" where
  "coalescer_write opts now configured data c =
     (if length data = 0 then c
      else
        (let c1 = c\<lparr>co_chunks := co_chunks c @ [data],
                  co_bufferedBytes := co_bufferedBytes c + utf8Bytes data\<rparr>
         in if maxBufferBytes opts \<le> co_bufferedBytes c1 then flush_buffered c1
            else if co_timer c1 = None then openWindow now configured (emit_buffered c1)
            else c1))"

section \<open>Runs\<close>

text \<open>The events of one handler, with everything written so far; a timer fires at its deadline or later.\<close>

inductive coalescer_step ::
    "coalesce_options \<Rightarrow> coalescer \<times> js_string \<Rightarrow> coalescer \<times> js_string \<Rightarrow> bool" for opts where
  received: "coalescer_step opts (c, w) (coalescer_write opts now ms data c, w @ data)"
| input: "coalescer_step opts (c, w) (onInput opts now ms c, w)"
| flush: "coalescer_step opts (c, w) (flush_buffered c, w)"
| fire: "co_timer c = Some deadline \<Longrightarrow> deadline \<le> now \<Longrightarrow>
    coalescer_step opts (c, w) (timer_fires now ms c, w)"

definition coalescer_ok :: "coalesce_options \<Rightarrow> coalescer \<times> js_string \<Rightarrow> bool" where
  "coalescer_ok opts cw \<longleftrightarrow>
     (case cw of (c, written) \<Rightarrow>
       concat (co_out c) @ concat (co_chunks c) = written \<and>
       co_bufferedBytes c = sum_list (map utf8Bytes (co_chunks c)) \<and>
       (co_chunks c = [] \<or> co_bufferedBytes c < maxBufferBytes opts) \<and>
       [] \<notin> set (co_chunks c) \<and> [] \<notin> set (co_out c) \<and>
       (case co_timer c of None \<Rightarrow> co_chunks c = [] | Some deadline \<Rightarrow> deadline = co_flushAt c))"

lemmas coalescer_defs = coalescer_ok_def coalescer_write_def onInput_def flush_buffered_def
  timer_fires_def openWindow_def emit_buffered_def

lemma concat_nonempty: "xs \<noteq> [] \<Longrightarrow> [] \<notin> set xs \<Longrightarrow> \<exists>x\<in>set xs. x \<noteq> []"
  by (cases xs) auto

lemma coalescer_step_ok:
  assumes "coalescer_step opts cw cw'" and "coalescer_ok opts cw"
  shows "coalescer_ok opts cw'"
  using assms
  by (induction rule: coalescer_step.induct)
    (auto simp: coalescer_defs Let_def concat_nonempty split: option.splits if_splits)

lemma coalescer_runs_ok:
  "(coalescer_step opts)\<^sup>*\<^sup>* cw cw' \<Longrightarrow> coalescer_ok opts cw \<Longrightarrow> coalescer_ok opts cw'"
  by (induction rule: rtranclp_induct) (auto intro: coalescer_step_ok)

lemma new_coalescer_ok: "coalescer_ok opts (new_coalescer, [])"
  by (simp add: coalescer_ok_def new_coalescer_def)

text \<open>A timer that fires, and a flush, leave nothing behind; input never postpones a deadline.\<close>

lemma timer_fires_delivers:
  "co_chunks (timer_fires now ms c) = [] \<and>
   concat (co_out (timer_fires now ms c)) = concat (co_out c) @ concat (co_chunks c)"
  by (simp add: timer_fires_def openWindow_def emit_buffered_def Let_def)

lemma flush_delivers:
  "co_chunks (flush_buffered c) = [] \<and> co_timer (flush_buffered c) = None \<and>
   concat (co_out (flush_buffered c)) = concat (co_out c) @ concat (co_chunks c)"
  by (simp add: flush_buffered_def emit_buffered_def)

lemma onInput_deadline:
  assumes "coalescer_ok opts (c, w)" and "co_timer c = Some deadline"
  shows "\<exists>deadline'. co_timer (onInput opts now ms c) = Some deadline' \<and> deadline' \<le> deadline"
  using assms
  by (auto simp: coalescer_ok_def onInput_def openWindow_def currentWindowMs_def Let_def)

end
