(* ===== verification/Status_Engine.thy ===== *)
theory Status_Engine
  imports Prelude
begin

text \<open>
  \<open>TerminalStatusEngine\<close> of \<open>packages/terminal/src/services/terminal-status-engine.ts\<close>: it
  arbitrates process inspection and hook reports into one agent status per terminal. The private
  fields are a record; each method is a function of the engine, and its result, the snapshot,
  is the new engine's. Process ids and milliseconds are integers. The set of the last process
  ids may be shared with the hook authority, but is only cleared when the authority is dropped.
\<close>

datatype agent_status = Working | NeedsInput | Idle | UnknownStatus

datatype status_source = Hook | Ps

record status_snapshot =
  ss_status :: agent_status
  ss_source :: status_source
  ss_changedAt :: int
  ss_stale :: bool
  ss_seen :: bool

record status_report =
  rep_status :: agent_status
  rep_sequence :: nat

record agent_process =
  ap_pid :: int
  ap_rawName :: string

record process_sample =
  ps_agentProcesses :: "agent_process list"
  ps_hasNonAgentProcess :: "bool option"
  ps_sampledAt :: int

record hook_authority =
  ha_processIds :: "int set"
  ha_status :: agent_status

record status_engine =
  se_downwardConfirmations :: nat
  se_staleAfterMs :: int
  se_snapshot :: "status_snapshot option"
  se_lastAgentProcessIds :: "int set"
  se_hookAuthority :: "hook_authority option"
  se_lastHookSequence :: int
  se_downwardSamples :: nat
  se_firstFailureAt :: "int option"
  se_hasSuccessfulSample :: bool
  se_observed :: bool

definition DEFAULT_DOWNWARD_CONFIRMATIONS :: nat where "DEFAULT_DOWNWARD_CONFIRMATIONS = 3"
definition DEFAULT_STALE_AFTER_MS :: int where "DEFAULT_STALE_AFTER_MS = 10000"
definition HOOK_BACKED_AGENTS :: "string list" where
  "HOOK_BACKED_AGENTS = [''claude'', ''opencode'', ''opencode2'']"

definition new_engine :: "nat option \<Rightarrow> int option \<Rightarrow> status_engine" where
  "new_engine downwardConfirmations staleAfterMs =
     \<lparr>se_downwardConfirmations =
        (case downwardConfirmations of Some n \<Rightarrow> n | None \<Rightarrow> DEFAULT_DOWNWARD_CONFIRMATIONS),
      se_staleAfterMs = (case staleAfterMs of Some n \<Rightarrow> n | None \<Rightarrow> DEFAULT_STALE_AFTER_MS),
      se_snapshot = None, se_lastAgentProcessIds = {}, se_hookAuthority = None,
      se_lastHookSequence = -1, se_downwardSamples = 0, se_firstFailureAt = None,
      se_hasSuccessfulSample = False, se_observed = False\<rparr>"

definition sharesProcessGeneration :: "int set \<Rightarrow> int set \<Rightarrow> bool" where
  "sharesProcessGeneration authorityPids processIds \<longleftrightarrow> (\<exists>pid\<in>authorityPids. pid \<in> processIds)"

section \<open>Private methods\<close>

definition statusFromProcesses :: "agent_process list \<Rightarrow> agent_status" where
  "statusFromProcesses agentProcesses =
     (if list_all (\<lambda>p. ap_rawName p \<in> set HOOK_BACKED_AGENTS) agentProcesses
      then UnknownStatus else Working)"

definition recoverDetection :: "status_engine \<Rightarrow> status_engine" where
  "recoverDetection e =
     e\<lparr>se_firstFailureAt := None,
       se_snapshot := map_option (\<lambda>s. if ss_stale s then s\<lparr>ss_stale := False\<rparr> else s) (se_snapshot e)\<rparr>"

definition transition ::
    "agent_status \<Rightarrow> status_source \<Rightarrow> int \<Rightarrow> status_engine \<Rightarrow> status_engine" where
  "transition status source changedAt e =
     (case se_snapshot e of
        Some s \<Rightarrow>
          if ss_status s = status \<and> ss_source s = source
          then (if status \<noteq> Idle \<and> \<not> ss_seen s
                then e\<lparr>se_snapshot := Some (s\<lparr>ss_seen := True\<rparr>)\<rparr> else e)
          else
            (let completed = (status = Idle \<and> ss_status s \<noteq> Idle);
                 seen = (status \<noteq> Idle \<or>
                         (if completed then se_observed e else ss_seen s \<or> se_observed e))
             in e\<lparr>se_snapshot := Some \<lparr>ss_status = status, ss_source = source,
                    ss_changedAt = changedAt, ss_stale = False, ss_seen = seen\<rparr>\<rparr>)
      | None \<Rightarrow>
          e\<lparr>se_snapshot := Some \<lparr>ss_status = status, ss_source = source, ss_changedAt = changedAt,
              ss_stale = False, ss_seen = True\<rparr>\<rparr>)"

section \<open>Public methods\<close>

definition setObserved :: "bool \<Rightarrow> status_engine \<Rightarrow> status_engine" where
  "setObserved observed e =
     (let e1 = e\<lparr>se_observed := observed\<rparr>
      in case se_snapshot e1 of
           Some s \<Rightarrow> if observed \<and> \<not> ss_seen s then e1\<lparr>se_snapshot := Some (s\<lparr>ss_seen := True\<rparr>)\<rparr> else e1
         | None \<Rightarrow> e1)"

definition engine_sample :: "process_sample \<Rightarrow> status_engine \<Rightarrow> status_engine" where
  "engine_sample smp e =
     (let processIds = set (map ap_pid (ps_agentProcesses smp));
          e1 = (recoverDetection e)\<lparr>se_hasSuccessfulSample := True, se_lastAgentProcessIds := processIds\<rparr>
      in if processIds \<noteq> {}
         then
           (let e2 = e1\<lparr>se_downwardSamples := 0,
                se_hookAuthority :=
                  (case se_hookAuthority e1 of
                     None \<Rightarrow> None
                   | Some a \<Rightarrow>
                       if ha_processIds a = {} then Some (a\<lparr>ha_processIds := processIds\<rparr>)
                       else if \<not> sharesProcessGeneration (ha_processIds a) processIds then None
                       else Some a)\<rparr>
            in case se_hookAuthority e2 of
                 Some a \<Rightarrow> transition (ha_status a) Hook (ps_sampledAt smp) e2
               | None \<Rightarrow>
                   transition (statusFromProcesses (ps_agentProcesses smp)) Ps (ps_sampledAt smp) e2)
         else if se_snapshot e1 = None
         then e1\<lparr>se_hookAuthority := None, se_downwardSamples := 0\<rparr>
         else
           (let e2 = e1\<lparr>se_downwardSamples := se_downwardSamples e1 + 1\<rparr>
            in if se_downwardSamples e2 < se_downwardConfirmations e2 then e2
               else
                 (let e3 = e2\<lparr>se_hookAuthority := None\<rparr>
                  in if ps_hasNonAgentProcess smp = Some True then e3\<lparr>se_snapshot := None\<rparr>
                     else transition Idle Ps (ps_sampledAt smp) e3)))"

definition engine_unavailable :: "int \<Rightarrow> status_engine \<Rightarrow> status_engine" where
  "engine_unavailable observedAt e =
     (let first = (case se_firstFailureAt e of Some t \<Rightarrow> t | None \<Rightarrow> observedAt);
          e1 = e\<lparr>se_downwardSamples := 0, se_firstFailureAt := Some first\<rparr>
      in case se_snapshot e1 of
           Some s \<Rightarrow>
             if \<not> ss_stale s \<and> se_staleAfterMs e1 \<le> observedAt - first
             then e1\<lparr>se_snapshot := Some (s\<lparr>ss_stale := True\<rparr>)\<rparr> else e1
         | None \<Rightarrow> e1)"

definition processExited :: "int \<Rightarrow> status_engine \<Rightarrow> status_engine" where
  "processExited observedAt e =
     (let e1 = e\<lparr>se_lastAgentProcessIds := {}, se_hookAuthority := None, se_downwardSamples := 0\<rparr>
      in if se_snapshot e1 = None then e1 else transition Idle Ps observedAt e1)"

definition engine_report :: "status_report \<Rightarrow> int \<Rightarrow> status_engine \<Rightarrow> status_engine" where
  "engine_report r reportedAt e =
     (if int (rep_sequence r) \<le> se_lastHookSequence e then e
      else
        (let e1 = e\<lparr>se_lastHookSequence := int (rep_sequence r)\<rparr>
         in if se_hasSuccessfulSample e1 \<and> se_lastAgentProcessIds e1 = {} then e1
            else
              transition (rep_status r) Hook reportedAt
                (e1\<lparr>se_hookAuthority :=
                      Some \<lparr>ha_processIds = se_lastAgentProcessIds e1, ha_status = rep_status r\<rparr>,
                    se_downwardSamples := 0\<rparr>)))"

section \<open>Runs\<close>

inductive engine_step :: "status_engine \<Rightarrow> status_engine \<Rightarrow> bool" where
  observed: "engine_step e (setObserved b e)"
| sampled: "engine_step e (engine_sample smp e)"
| failed: "engine_step e (engine_unavailable t e)"
| exited: "engine_step e (processExited t e)"
| reported: "engine_step e (engine_report r t e)"

text \<open>
  A hook in authority decides the status shown; only a completion can be unseen; staleness is
  only shown while detection fails; the window of downward samples is only open while an agent
  is shown.
\<close>

definition engine_ok :: "status_engine \<Rightarrow> bool" where
  "engine_ok e \<longleftrightarrow>
     (case se_hookAuthority e of
        None \<Rightarrow> True
      | Some a \<Rightarrow> (\<exists>s. se_snapshot e = Some s \<and> ss_status s = ha_status a \<and> ss_source s = Hook)) \<and>
     (case se_snapshot e of
        None \<Rightarrow> True
      | Some s \<Rightarrow>
          (ss_seen s \<or> ss_status s = Idle) \<and> (ss_stale s \<longrightarrow> se_firstFailureAt e \<noteq> None) \<and>
          (se_observed e \<longrightarrow> ss_seen s))"

lemmas engine_defs = setObserved_def engine_sample_def engine_unavailable_def processExited_def
  engine_report_def transition_def recoverDetection_def

lemma engine_ok_steps:
  assumes "engine_ok e"
  shows "engine_ok (setObserved b e)" "engine_ok (engine_unavailable t e)"
    "engine_ok (processExited t e)" "engine_ok (engine_report r t e)"
  using assms
  by (auto simp: engine_ok_def engine_defs Let_def split: option.splits if_splits)

lemma transition_fields [simp]:
  "se_hookAuthority (transition st so t e) = se_hookAuthority e"
  "se_downwardSamples (transition st so t e) = se_downwardSamples e"
  "se_downwardConfirmations (transition st so t e) = se_downwardConfirmations e"
  "se_firstFailureAt (transition st so t e) = se_firstFailureAt e"
  "se_observed (transition st so t e) = se_observed e"
  "\<exists>s. se_snapshot (transition st so t e) = Some s \<and> ss_status s = st \<and> ss_source s = so"
  by (auto simp: transition_def Let_def split: option.splits)

lemma engine_ok_sample:
  assumes "engine_ok e"
  shows "engine_ok (engine_sample smp e)"
proof (cases "ps_agentProcesses smp = []")
  case True
  then show ?thesis
    using assms
    by (cases "se_snapshot e"; cases "se_hookAuthority e")
      (auto simp: engine_ok_def engine_sample_def transition_def recoverDetection_def Let_def)
next
  case False
  then show ?thesis
    using assms
    by (cases "se_snapshot e"; cases "se_hookAuthority e")
      (auto simp: engine_ok_def engine_sample_def transition_def recoverDetection_def Let_def)
qed

lemma engine_runs_ok: "engine_step\<^sup>*\<^sup>* e e' \<Longrightarrow> engine_ok e \<Longrightarrow> engine_ok e'"
proof (induction rule: rtranclp_induct)
  case (step y z)
  from step.hyps(2) show ?case
    by cases (use step.IH step.prems engine_ok_steps engine_ok_sample in auto)
qed simp

lemma new_engine_ok: "engine_ok (new_engine d st)"
  by (simp add: engine_ok_def new_engine_def)

section \<open>Detection failures\<close>

text \<open>What the operator sees of a snapshot, apart from the staleness mark.\<close>

definition shown :: "status_engine \<Rightarrow> (agent_status \<times> status_source \<times> int \<times> bool) option" where
  "shown e = map_option (\<lambda>s. (ss_status s, ss_source s, ss_changedAt s, ss_seen s)) (se_snapshot e)"

lemma unavailable_shown: "shown (engine_unavailable t e) = shown e"
  by (simp add: shown_def engine_unavailable_def Let_def split: option.split)

lemma unavailable_runs_shown: "shown (fold engine_unavailable ts e) = shown e"
  by (induction ts arbitrary: e) (simp_all add: unavailable_shown)

section \<open>Downward confirmations\<close>

text \<open>Samples without an agent process, ending in the last of the list.\<close>

definition agentless :: "process_sample \<Rightarrow> bool" where
  "agentless smp \<longleftrightarrow> ps_agentProcesses smp = []"

lemma recover_simps [simp]:
  "se_snapshot (recoverDetection e) = None \<longleftrightarrow> se_snapshot e = None"
  "se_downwardSamples (recoverDetection e) = se_downwardSamples e"
  "se_downwardConfirmations (recoverDetection e) = se_downwardConfirmations e"
  by (simp_all add: recoverDetection_def)

lemma shown_recover [simp]: "shown (recoverDetection e) = shown e"
  by (cases "se_snapshot e") (simp_all add: shown_def recoverDetection_def)

lemma sample_waits:
  assumes "agentless smp" and "se_snapshot e \<noteq> None"
    and "se_downwardSamples e + 1 < se_downwardConfirmations e"
  shows "shown (engine_sample smp e) = shown e"
    and "se_snapshot (engine_sample smp e) \<noteq> None"
    and "se_downwardSamples (engine_sample smp e) = se_downwardSamples e + 1"
    and "se_downwardConfirmations (engine_sample smp e) = se_downwardConfirmations e"
proof -
  have "engine_sample smp e = (recoverDetection e)\<lparr>se_hasSuccessfulSample := True,
      se_lastAgentProcessIds := {}, se_downwardSamples := se_downwardSamples e + 1\<rparr>"
    using assms by (auto simp: engine_sample_def agentless_def Let_def)
  then show "shown (engine_sample smp e) = shown e" "se_snapshot (engine_sample smp e) \<noteq> None"
    "se_downwardSamples (engine_sample smp e) = se_downwardSamples e + 1"
    "se_downwardConfirmations (engine_sample smp e) = se_downwardConfirmations e"
    using assms(2) shown_recover [of e] by (simp_all add: shown_def)
qed

lemma samples_wait:
  assumes "list_all agentless smps" and "se_snapshot e \<noteq> None"
    and "se_downwardSamples e + length smps < se_downwardConfirmations e"
  shows "shown (fold engine_sample smps e) = shown e \<and>
    se_snapshot (fold engine_sample smps e) \<noteq> None \<and>
    se_downwardSamples (fold engine_sample smps e) = se_downwardSamples e + length smps \<and>
    se_downwardConfirmations (fold engine_sample smps e) = se_downwardConfirmations e"
  using assms
proof (induction smps arbitrary: e)
  case (Cons smp smps)
  note w = sample_waits [of smp e]
  show ?case using Cons.IH [of "engine_sample smp e"] Cons.prems w by simp
qed simp

lemma sample_confirms:
  assumes "agentless smp" and "se_snapshot e \<noteq> None"
    and "se_downwardConfirmations e \<le> se_downwardSamples e + 1"
  shows "se_hookAuthority (engine_sample smp e) = None \<and>
    (if ps_hasNonAgentProcess smp = Some True then se_snapshot (engine_sample smp e) = None
     else \<exists>s. se_snapshot (engine_sample smp e) = Some s \<and> ss_status s = Idle \<and> ss_source s = Ps)"
  using assms by (auto simp: engine_sample_def agentless_def Let_def)

text \<open>A first failure followed by failures within the allowed time marks nothing.\<close>

lemma unavailable_within:
  assumes "se_firstFailureAt e = Some t" and "\<forall>u\<in>set ts. u - t < se_staleAfterMs e"
  shows "se_snapshot (fold engine_unavailable ts e) = se_snapshot e"
  using assms
proof (induction ts arbitrary: e)
  case (Cons u ts)
  have "se_snapshot (engine_unavailable u e) = se_snapshot e \<and>
      se_firstFailureAt (engine_unavailable u e) = Some t \<and>
      se_staleAfterMs (engine_unavailable u e) = se_staleAfterMs e"
    using Cons.prems by (auto simp: engine_unavailable_def Let_def split: option.split)
  with Cons.IH [of "engine_unavailable u e"] Cons.prems show ?case by simp
qed simp

lemma unavailable_not_stale:
  assumes "se_firstFailureAt e = None \<and> (\<forall>u\<in>set ts. u - t < se_staleAfterMs e) \<and> 0 < se_staleAfterMs e"
  shows "se_snapshot (fold engine_unavailable (t # ts) e) = se_snapshot e"
proof -
  have "se_snapshot (engine_unavailable t e) = se_snapshot e \<and>
      se_firstFailureAt (engine_unavailable t e) = Some t \<and>
      se_staleAfterMs (engine_unavailable t e) = se_staleAfterMs e"
    using assms by (auto simp: engine_unavailable_def Let_def split: option.split)
  with unavailable_within [of "engine_unavailable t e" t ts] assms show ?thesis by simp
qed

end
