(* ===== verification/Terminal_Samples.thy ===== *)
theory Terminal_Samples
  imports Attach_Delivery Coalescer Status_Engine
begin

text \<open>
  Concrete terminals: a configuration whose journal holds three box-drawing characters of three
  bytes each, and the states of a short session.
\<close>

definition box :: "16 word" where "box = 0x2500"

definition small_config :: attach_config where
  "small_config = \<lparr>cfg_journalBytes = 9, cfg_outputChunkBytes = 4, cfg_snapshotBytes = 64,
     cfg_highWatermarkChars = 2, cfg_lowWatermarkChars = 1\<rparr>"

definition client_options :: attach_options where
  "client_options = \<lparr>ao_cursor = None, ao_epoch = None, ao_leaseId = Some ''a''\<rparr>"

definition watched :: attach_state where
  "watched = snd (attach small_config willing ''e'' ''x'' [] client_options attach_init)"

definition after_output :: "nat \<Rightarrow> attach_state" where
  "after_output n = snd (the (pty_output small_config willing 0 (replicate n box) watched))"

lemma small_config_ok: "config_ok small_config"
  by (simp add: config_ok_def small_config_def)

lemma watched_step: "attach_step small_config willing ([], attach_init) ([], watched)"
  unfolding watched_def by (rule attach_step.attached)

lemma box_chunks:
  "wire_chunks small_config [box, box, box] = [[box], [box], [box]]"
  "wire_chunks small_config [box, box, box, box] = [[box], [box], [box], [box]]"
  by code_simp+

lemma box_output:
  "pty_output small_config willing 0 [box, box, box] watched = Some (None, after_output 3)"
  "pty_output small_config willing 0 [box, box, box, box] watched = Some (None, after_output 4)"
  by code_simp+

lemma box_step:
  "attach_step small_config willing ([], watched) ([[box], [box], [box]], after_output 3)"
  "attach_step small_config willing ([], watched) ([[box], [box], [box], [box]], after_output 4)"
  using attach_step.emitted_output [OF box_output(1), of "[]"]
    attach_step.emitted_output [OF box_output(2), of "[]"]
  by (simp_all add: box_chunks)

lemma kept_up_samples: "kept_up ([], attach_init)" "kept_up ([], watched)" "kept_up ([[box], [box], [box]], after_output 3)"
  by code_simp+

lemma kept_up_run: "(kept_up_step small_config)\<^sup>*\<^sup>* ([], attach_init) ([[box], [box], [box]], after_output 3)"
proof (rule rtranclp_trans)
  show "(kept_up_step small_config)\<^sup>*\<^sup>* ([], attach_init) ([], watched)"
    by (rule r_into_rtranclp) (simp add: kept_up_step_def watched_step kept_up_samples)
  show "(kept_up_step small_config)\<^sup>*\<^sup>* ([], watched) ([[box], [box], [box]], after_output 3)"
    by (rule r_into_rtranclp) (simp add: kept_up_step_def box_step kept_up_samples)
qed

lemma box_run: "(attach_step small_config willing)\<^sup>*\<^sup>* ([], attach_init) ([[box], [box], [box], [box]], after_output 4)"
proof (rule rtranclp_trans)
  show "(attach_step small_config willing)\<^sup>*\<^sup>* ([], attach_init) ([], watched)"
    by (rule r_into_rtranclp) (rule watched_step)
  show "(attach_step small_config willing)\<^sup>*\<^sup>* ([], watched) ([[box], [box], [box], [box]], after_output 4)"
    by (rule r_into_rtranclp) (rule box_step)
qed

definition small_options :: coalesce_options where
  "small_options = \<lparr>opt_maxBufferBytes = Some 8, opt_prioritizeInput = None\<rparr>"

definition first_write :: coalescer where
  "first_write = coalescer_write small_options 0 16 [box, box] new_coalescer"

definition busy_coalescer :: coalescer where
  "busy_coalescer = coalescer_write small_options 3 16 [box] first_write"

lemma busy_coalescer_run:
  "(coalescer_step small_options)\<^sup>*\<^sup>* (new_coalescer, []) (busy_coalescer, [box, box, box])"
proof (rule rtranclp.rtrancl_into_rtrancl)
  have "coalescer_step small_options (new_coalescer, []) (first_write, [] @ [box, box])"
    unfolding first_write_def by (rule coalescer_step.received)
  then show "(coalescer_step small_options)\<^sup>*\<^sup>* (new_coalescer, []) (first_write, [box, box])"
    by (simp add: r_into_rtranclp)
  have "coalescer_step small_options (first_write, [box, box]) (busy_coalescer, [box, box] @ [box])"
    unfolding busy_coalescer_def by (rule coalescer_step.received)
  then show "coalescer_step small_options (first_write, [box, box]) (busy_coalescer, [box, box, box])"
    by simp
qed

lemma busy_coalescer_state:
  "co_out busy_coalescer = [[box, box]]" "co_chunks busy_coalescer = [[box]]"
  by code_simp+

section \<open>Agent status\<close>

definition empty_sample :: "int \<Rightarrow> process_sample" where
  "empty_sample t = \<lparr>ps_agentProcesses = [], ps_hasNonAgentProcess = None, ps_sampledAt = t\<rparr>"

definition working_engine :: status_engine where
  "working_engine = engine_sample
     \<lparr>ps_agentProcesses = [\<lparr>ap_pid = 7, ap_rawName = ''aider''\<rparr>], ps_hasNonAgentProcess = None, ps_sampledAt = 0\<rparr>
     (new_engine None None)"

definition hooked_engine :: status_engine where
  "hooked_engine = engine_report \<lparr>rep_status = NeedsInput, rep_sequence = 0\<rparr> 1 working_engine"

lemma working_engine_fields:
  "se_firstFailureAt working_engine = None" "se_staleAfterMs working_engine = 10000"
  "se_downwardSamples working_engine = 0" "se_downwardConfirmations working_engine = 3"
  "se_snapshot working_engine \<noteq> None"
  by (simp_all add: working_engine_def engine_sample_def transition_def recoverDetection_def
      new_engine_def DEFAULT_STALE_AFTER_MS_def DEFAULT_DOWNWARD_CONFIRMATIONS_def Let_def)

lemma hooked_engine_run: "engine_step\<^sup>*\<^sup>* (new_engine None None) hooked_engine"
proof (rule rtranclp.rtrancl_into_rtrancl)
  show "engine_step\<^sup>*\<^sup>* (new_engine None None) working_engine"
    unfolding working_engine_def by (rule r_into_rtranclp, rule engine_step.sampled)
  show "engine_step working_engine hooked_engine"
    unfolding hooked_engine_def by (rule engine_step.reported)
qed

end
