(* ===== verification/Right_Panel.thy ===== *)
theory Right_Panel
  imports Prelude
begin

text \<open>
  The right panel of a window, \<open>apps/web/src/right-panel-store.ts\<close>: one strip of surfaces per
  workspace, one panel per window. A surface's id is a function of the surface, as in the
  template-literal types of the source. \<open>byWorkspaceId\<close> is a map; whether an updater returns the
  object it was given makes no difference to it. A line number is \<open>None\<close> when it is undefined or
  not finite.
\<close>

section \<open>Surfaces\<close>

datatype panel_kind = DiffKind | FilesKind | FileKind | PreviewKind | PullRequestKind

datatype right_panel_surface =
    BrowserSurface string
  | NewBrowserSurface
  | DiffSurface
  | FilesSurface
  | FileSurface string "nat option" nat
  | PullRequestSurface

fun surface_id :: "right_panel_surface \<Rightarrow> string" where
  "surface_id (BrowserSurface resourceId) = ''browser:'' @ resourceId"
| "surface_id NewBrowserSurface = ''browser:new''"
| "surface_id DiffSurface = ''diff''"
| "surface_id FilesSurface = ''files''"
| "surface_id (FileSurface relativePath _ _) = ''file:'' @ relativePath"
| "surface_id PullRequestSurface = ''pull-request''"

fun surface_kind :: "right_panel_surface \<Rightarrow> panel_kind" where
  "surface_kind (BrowserSurface _) = PreviewKind"
| "surface_kind NewBrowserSurface = PreviewKind"
| "surface_kind DiffSurface = DiffKind"
| "surface_kind FilesSurface = FilesKind"
| "surface_kind (FileSurface _ _ _) = FileKind"
| "surface_kind PullRequestSurface = PullRequestKind"

fun revealRequestId :: "right_panel_surface \<Rightarrow> nat" where
  "revealRequestId (FileSurface _ _ n) = n"
| "revealRequestId _ = 0"

datatype singleton_kind = SingletonDiff | SingletonFiles | SingletonPullRequest

datatype open_kind = OpenSingleton singleton_kind | OpenPreview

fun singletonSurface :: "singleton_kind \<Rightarrow> right_panel_surface" where
  "singletonSurface SingletonDiff = DiffSurface"
| "singletonSurface SingletonFiles = FilesSurface"
| "singletonSurface SingletonPullRequest = PullRequestSurface"

fun open_panel_kind :: "open_kind \<Rightarrow> panel_kind" where
  "open_panel_kind (OpenSingleton k) = surface_kind (singletonSurface k)"
| "open_panel_kind OpenPreview = PreviewKind"

definition browserSurface :: "string option \<Rightarrow> right_panel_surface" where
  "browserSurface tabId =
     (case tabId of
        Some t \<Rightarrow> if t \<noteq> [] then BrowserSurface t else NewBrowserSurface
      | None \<Rightarrow> NewBrowserSurface)"

definition normalizeRevealLine :: "rat option \<Rightarrow> nat option" where
  "normalizeRevealLine line =
     (case line of
        None \<Rightarrow> None
      | Some x \<Rightarrow> Some (nat (max 1 (if 0 \<le> x then \<lfloor>x\<rfloor> else \<lceil>x\<rceil>))))"

section \<open>One workspace\<close>

record workspace_panel =
  wp_activeSurfaceId :: "string option"
  wp_surfaces :: "right_panel_surface list"

definition EMPTY_WORKSPACE_STATE :: workspace_panel where
  "EMPTY_WORKSPACE_STATE = \<lparr>wp_activeSurfaceId = None, wp_surfaces = []\<rparr>"

definition upsertSurface :: "workspace_panel \<Rightarrow> right_panel_surface \<Rightarrow> workspace_panel" where
  "upsertSurface current surface =
     \<lparr>wp_activeSurfaceId = Some (surface_id surface),
      wp_surfaces =
        (if list_ex (\<lambda>entry. surface_id entry = surface_id surface) (wp_surfaces current)
         then wp_surfaces current else wp_surfaces current @ [surface])\<rparr>"

text \<open>The updater that \<open>open\<close> and \<open>toggle\<close> have in common.\<close>

definition open_surface :: "open_kind \<Rightarrow> workspace_panel \<Rightarrow> workspace_panel" where
  "open_surface kind current =
     (case kind of
        OpenPreview \<Rightarrow>
          (case find (\<lambda>surface. surface_kind surface = PreviewKind) (wp_surfaces current) of
             Some existing \<Rightarrow> upsertSurface current existing
           | None \<Rightarrow> upsertSurface current (browserSurface None))
      | OpenSingleton k \<Rightarrow> upsertSurface current (singletonSurface k))"

definition open_browser_surface :: "string option \<Rightarrow> workspace_panel \<Rightarrow> workspace_panel" where
  "open_browser_surface tabId current =
     (let surface = browserSurface tabId;
          withoutPlaceholder =
            (if truthy tabId
             then filter (\<lambda>entry. surface_id entry \<noteq> ''browser:new'') (wp_surfaces current)
             else wp_surfaces current)
      in upsertSurface (current\<lparr>wp_surfaces := withoutPlaceholder\<rparr>) surface)"

definition open_file_surface :: "string \<Rightarrow> rat option \<Rightarrow> workspace_panel \<Rightarrow> workspace_panel" where
  "open_file_surface relativePath line current =
     (let withoutStandaloneExplorer =
            filter (\<lambda>surface. surface_kind surface \<noteq> FilesKind) (wp_surfaces current);
          surfaceId = ''file:'' @ relativePath;
          existing = find (\<lambda>surface. surface_id surface = surfaceId \<and> surface_kind surface = FileKind)
            withoutStandaloneExplorer;
          surface = FileSurface relativePath (normalizeRevealLine line)
            ((case existing of Some e \<Rightarrow> revealRequestId e | None \<Rightarrow> 0) + 1)
      in \<lparr>wp_activeSurfaceId = Some (surface_id surface),
          wp_surfaces =
            (if existing \<noteq> None
             then map (\<lambda>entry. if surface_id entry = surface_id surface then surface else entry)
                    withoutStandaloneExplorer
             else withoutStandaloneExplorer @ [surface])\<rparr>)"

definition reconcile_surfaces :: "string list \<Rightarrow> workspace_panel \<Rightarrow> workspace_panel" where
  "reconcile_surfaces tabIds current =
     (let validIds = set (map (\<lambda>tabId. ''browser:'' @ tabId) tabIds);
          nonBrowser = filter (\<lambda>surface. surface_kind surface \<noteq> PreviewKind) (wp_surfaces current);
          existingBrowser =
            filter (\<lambda>surface. surface_kind surface = PreviewKind \<and> surface_id surface \<noteq> ''browser:new'' \<and>
                surface_id surface \<in> validIds)
              (wp_surfaces current);
          knownIds = set (map surface_id existingBrowser);
          added = map (\<lambda>tabId. browserSurface (Some tabId))
            (filter (\<lambda>tabId. ''browser:'' @ tabId \<notin> knownIds) tabIds);
          surfaces = nonBrowser @ existingBrowser @ added;
          activeStillExists =
            list_ex (\<lambda>surface. Some (surface_id surface) = wp_activeSurfaceId current) surfaces;
          fallbackBrowser = find (\<lambda>surface. surface_kind surface = PreviewKind) surfaces
      in current\<lparr>wp_surfaces := surfaces,
           wp_activeSurfaceId :=
             (if activeStillExists then wp_activeSurfaceId current
              else case fallbackBrowser of
                     Some surface \<Rightarrow> Some (surface_id surface)
                   | None \<Rightarrow> map_option surface_id (js_nth surfaces 0))\<rparr>)"

definition close_surface :: "workspace_panel \<Rightarrow> string \<Rightarrow> workspace_panel" where
  "close_surface current surfaceId =
     (case findIndex (\<lambda>surface. surface_id surface = surfaceId) (wp_surfaces current) of
        None \<Rightarrow> current
      | Some index \<Rightarrow>
          (let surfaces = filter (\<lambda>surface. surface_id surface \<noteq> surfaceId) (wp_surfaces current)
           in if wp_activeSurfaceId current \<noteq> Some surfaceId then current\<lparr>wp_surfaces := surfaces\<rparr>
              else
                (let fallback = js_nth surfaces (min (int index) (int (length surfaces) - 1))
                 in current\<lparr>wp_surfaces := surfaces,
                      wp_activeSurfaceId := map_option surface_id fallback\<rparr>)))"

definition close_other_surfaces :: "string \<Rightarrow> workspace_panel \<Rightarrow> workspace_panel" where
  "close_other_surfaces surfaceId current =
     (case find (\<lambda>entry. surface_id entry = surfaceId) (wp_surfaces current) of
        None \<Rightarrow> current
      | Some surface \<Rightarrow>
          if length (wp_surfaces current) = 1 then current
          else current\<lparr>wp_surfaces := [surface], wp_activeSurfaceId := Some (surface_id surface)\<rparr>)"

definition close_surfaces_to_right :: "string \<Rightarrow> workspace_panel \<Rightarrow> workspace_panel" where
  "close_surfaces_to_right surfaceId current =
     (case findIndex (\<lambda>surface. surface_id surface = surfaceId) (wp_surfaces current) of
        None \<Rightarrow> current
      | Some index \<Rightarrow>
          if index = length (wp_surfaces current) - 1 then current
          else
            (let surfaces = take (index + 1) (wp_surfaces current);
                 activeStillExists =
                   list_ex (\<lambda>surface. Some (surface_id surface) = wp_activeSurfaceId current) surfaces
             in current\<lparr>wp_surfaces := surfaces,
                  wp_activeSurfaceId :=
                    (if activeStillExists then wp_activeSurfaceId current else Some surfaceId)\<rparr>))"

definition close_all_surfaces :: "workspace_panel \<Rightarrow> workspace_panel" where
  "close_all_surfaces current =
     (if length (wp_surfaces current) = 0 then current
      else current\<lparr>wp_surfaces := [], wp_activeSurfaceId := None\<rparr>)"

section \<open>The store\<close>

record right_panel =
  rp_byWorkspaceId :: "string \<Rightarrow> workspace_panel option"
  rp_isOpen :: bool
  rp_selectedWorkspaceId :: "string option"

definition initial_right_panel :: right_panel where
  "initial_right_panel =
     \<lparr>rp_byWorkspaceId = Map.empty, rp_isOpen = False, rp_selectedWorkspaceId = None\<rparr>"

definition updateWorkspace ::
    "string \<Rightarrow> (workspace_panel \<Rightarrow> workspace_panel) \<Rightarrow> (string \<Rightarrow> workspace_panel option)
      \<Rightarrow> string \<Rightarrow> workspace_panel option" where
  "updateWorkspace workspaceId updater byWorkspaceId =
     (let current = (case byWorkspaceId workspaceId of Some c \<Rightarrow> c | None \<Rightarrow> EMPTY_WORKSPACE_STATE);
          next = updater current
      in if wp_activeSurfaceId next = None \<and> length (wp_surfaces next) = 0
         then byWorkspaceId(workspaceId := None)
         else byWorkspaceId(workspaceId \<mapsto> next))"

definition update_panel ::
    "string \<Rightarrow> (workspace_panel \<Rightarrow> workspace_panel) \<Rightarrow> right_panel \<Rightarrow> right_panel" where
  "update_panel workspaceId updater p =
     p\<lparr>rp_byWorkspaceId := updateWorkspace workspaceId updater (rp_byWorkspaceId p)\<rparr>"

definition show_panel :: "string \<Rightarrow> right_panel \<Rightarrow> right_panel" where
  "show_panel workspaceId p = p\<lparr>rp_isOpen := True, rp_selectedWorkspaceId := Some workspaceId\<rparr>"

definition open_panel :: "string \<Rightarrow> open_kind \<Rightarrow> right_panel \<Rightarrow> right_panel" where
  "open_panel workspaceId kind p =
     show_panel workspaceId (update_panel workspaceId (open_surface kind) p)"

definition openBrowser :: "string \<Rightarrow> string option \<Rightarrow> right_panel \<Rightarrow> right_panel" where
  "openBrowser workspaceId tabId p =
     show_panel workspaceId (update_panel workspaceId (open_browser_surface tabId) p)"

definition openFile :: "string \<Rightarrow> string \<Rightarrow> rat option \<Rightarrow> right_panel \<Rightarrow> right_panel" where
  "openFile workspaceId relativePath line p =
     show_panel workspaceId (update_panel workspaceId (open_file_surface relativePath line) p)"

definition reconcileBrowserSurfaces :: "string \<Rightarrow> string list \<Rightarrow> right_panel \<Rightarrow> right_panel" where
  "reconcileBrowserSurfaces workspaceId tabIds p =
     update_panel workspaceId (reconcile_surfaces tabIds) p"

definition activateSurface :: "string \<Rightarrow> string \<Rightarrow> right_panel \<Rightarrow> right_panel" where
  "activateSurface workspaceId surfaceId p =
     (let known = (case rp_byWorkspaceId p workspaceId of
                     Some c \<Rightarrow> list_ex (\<lambda>surface. surface_id surface = surfaceId) (wp_surfaces c)
                   | None \<Rightarrow> False)
      in if \<not> known then p
         else show_panel workspaceId
                (update_panel workspaceId (\<lambda>current. current\<lparr>wp_activeSurfaceId := Some surfaceId\<rparr>) p))"

definition closeSurface :: "string \<Rightarrow> string \<Rightarrow> right_panel \<Rightarrow> right_panel" where
  "closeSurface workspaceId surfaceId p =
     update_panel workspaceId (\<lambda>current. close_surface current surfaceId) p"

definition closeOtherSurfaces :: "string \<Rightarrow> string \<Rightarrow> right_panel \<Rightarrow> right_panel" where
  "closeOtherSurfaces workspaceId surfaceId p =
     update_panel workspaceId (close_other_surfaces surfaceId) p"

definition closeSurfacesToRight :: "string \<Rightarrow> string \<Rightarrow> right_panel \<Rightarrow> right_panel" where
  "closeSurfacesToRight workspaceId surfaceId p =
     update_panel workspaceId (close_surfaces_to_right surfaceId) p"

definition closeAllSurfaces :: "string \<Rightarrow> right_panel \<Rightarrow> right_panel" where
  "closeAllSurfaces workspaceId p = update_panel workspaceId close_all_surfaces p"

definition close_panel :: "right_panel \<Rightarrow> right_panel" where
  "close_panel p = p\<lparr>rp_isOpen := False\<rparr>"

definition selectWorkspace :: "string \<Rightarrow> right_panel \<Rightarrow> right_panel" where
  "selectWorkspace workspaceId p = p\<lparr>rp_selectedWorkspaceId := Some workspaceId\<rparr>"

definition toggleVisibility :: "right_panel \<Rightarrow> right_panel" where
  "toggleVisibility p = p\<lparr>rp_isOpen := \<not> rp_isOpen p\<rparr>"

definition toggle :: "string \<Rightarrow> open_kind \<Rightarrow> right_panel \<Rightarrow> right_panel" where
  "toggle workspaceId kind p =
     (let active = (case rp_byWorkspaceId p workspaceId of
                      None \<Rightarrow> None
                    | Some current \<Rightarrow>
                        find (\<lambda>surface. Some (surface_id surface) = wp_activeSurfaceId current)
                          (wp_surfaces current))
      in if rp_isOpen p \<and> rp_selectedWorkspaceId p = Some workspaceId \<and>
            map_option surface_kind active = Some (open_panel_kind kind)
         then p\<lparr>rp_isOpen := False\<rparr>
         else show_panel workspaceId (update_panel workspaceId (open_surface kind) p))"

definition removeWorkspaces :: "string list \<Rightarrow> right_panel \<Rightarrow> right_panel" where
  "removeWorkspaces workspaceIds p =
     (let removable = filter (\<lambda>w. rp_byWorkspaceId p w \<noteq> None) workspaceIds;
          selectionRemoved = (case rp_selectedWorkspaceId p of
                                None \<Rightarrow> False
                              | Some w \<Rightarrow> w \<in> set workspaceIds)
      in if length removable = 0 \<and> \<not> selectionRemoved then p
         else p\<lparr>rp_byWorkspaceId := fold (\<lambda>w rest. rest(w := None)) removable (rp_byWorkspaceId p),
                rp_selectedWorkspaceId :=
                  (if selectionRemoved then None else rp_selectedWorkspaceId p)\<rparr>)"

section \<open>Selectors\<close>

definition selectWorkspaceRightPanelState ::
    "(string \<Rightarrow> workspace_panel option) \<Rightarrow> string option \<Rightarrow> workspace_panel" where
  "selectWorkspaceRightPanelState byWorkspaceId workspaceId =
     (case workspaceId of
        None \<Rightarrow> EMPTY_WORKSPACE_STATE
      | Some w \<Rightarrow>
          if w = [] then EMPTY_WORKSPACE_STATE
          else (case byWorkspaceId w of Some c \<Rightarrow> c | None \<Rightarrow> EMPTY_WORKSPACE_STATE))"

definition isShowingWorkspace :: "right_panel \<Rightarrow> string option \<Rightarrow> bool" where
  "isShowingWorkspace p workspaceId \<longleftrightarrow>
     truthy workspaceId \<and> rp_isOpen p \<and> rp_selectedWorkspaceId p = workspaceId"

definition selectSelectedRightPanelSurface ::
    "(string \<Rightarrow> workspace_panel option) \<Rightarrow> string option \<Rightarrow> right_panel_surface option" where
  "selectSelectedRightPanelSurface byWorkspaceId workspaceId =
     (let state = selectWorkspaceRightPanelState byWorkspaceId workspaceId
      in find (\<lambda>surface. Some (surface_id surface) = wp_activeSurfaceId state) (wp_surfaces state))"

definition selectActiveRightPanelSurface ::
    "right_panel \<Rightarrow> string option \<Rightarrow> right_panel_surface option" where
  "selectActiveRightPanelSurface p workspaceId =
     (if \<not> isShowingWorkspace p workspaceId then None
      else selectSelectedRightPanelSurface (rp_byWorkspaceId p) workspaceId)"

definition selectActiveRightPanel :: "right_panel \<Rightarrow> string option \<Rightarrow> panel_kind option" where
  "selectActiveRightPanel p workspaceId =
     (if \<not> isShowingWorkspace p workspaceId then None
      else map_option surface_kind
             (selectSelectedRightPanelSurface (rp_byWorkspaceId p) workspaceId))"

definition selectRightPanelSurfaceCount ::
    "(string \<Rightarrow> workspace_panel option) \<Rightarrow> string option \<Rightarrow> nat" where
  "selectRightPanelSurfaceCount byWorkspaceId workspaceId =
     length (wp_surfaces (selectWorkspaceRightPanelState byWorkspaceId workspaceId))"

definition resolveRightPanelWorkspaceId ::
    "right_panel \<Rightarrow> string option \<Rightarrow> string list \<Rightarrow> string option" where
  "resolveRightPanelWorkspaceId p activeWorkspaceId openWorkspaceIds =
     (case rp_selectedWorkspaceId p of
        Some selected \<Rightarrow>
          if selected \<in> set openWorkspaceIds then Some selected
          else (case activeWorkspaceId of
                  Some a \<Rightarrow> if a \<in> set openWorkspaceIds then Some a else js_nth openWorkspaceIds 0
                | None \<Rightarrow> js_nth openWorkspaceIds 0)
      | None \<Rightarrow>
          (case activeWorkspaceId of
             Some a \<Rightarrow> if a \<in> set openWorkspaceIds then Some a else js_nth openWorkspaceIds 0
           | None \<Rightarrow> js_nth openWorkspaceIds 0))"

end
