(* ===== verification/Right_Panel_Facts.thy ===== *)
theory Right_Panel_Facts
  imports Right_Panel Tab_Strip
begin

text \<open>
  The strips of the right panel keep the contract of a closable strip; every stored strip is
  non-empty, has unique ids and an active surface of its own, whatever the panel is asked to do;
  and a reconciliation shows exactly the live browser tabs.
\<close>

section \<open>The strip contract\<close>

lemma list_ex_id: "list_ex (\<lambda>e. surface_id e = i) xs \<longleftrightarrow> i \<in> surface_id ` set xs"
  by (auto simp: list_ex_iff)

lemma list_ex_active: "list_ex (\<lambda>e. Some (surface_id e) = a) xs \<longleftrightarrow> a \<in> Some ` surface_id ` set xs"
  by (auto simp: list_ex_iff)

lemma close_surface_tabs:
  "wp_surfaces (close_surface c i) = filter (\<lambda>t. surface_id t \<noteq> i) (wp_surfaces c)"
  by (cases "findIndex (\<lambda>t. surface_id t = i) (wp_surfaces c)")
    (simp_all add: close_surface_def Let_def findIndex_None_filter)

lemma close_surface_active:
  assumes "findIndex (\<lambda>t. surface_id t = i) (wp_surfaces c) = Some k"
  shows "wp_activeSurfaceId (close_surface c i) =
    (if wp_activeSurfaceId c \<noteq> Some i then wp_activeSurfaceId c
     else let new = filter (\<lambda>t. surface_id t \<noteq> i) (wp_surfaces c)
       in if new = [] then None else Some (surface_id (new ! min k (length new - 1))))"
proof -
  have "js_nth xs (min (int k) (int (length xs) - 1))
      = (if xs = [] then None else Some (xs ! min k (length xs - 1)))" for xs :: "right_panel_surface list"
    by (cases xs) (auto simp: js_nth_def min_def nat_less_iff)
  then show ?thesis using assms by (simp add: close_surface_def Let_def)
qed

interpretation surface_strip: closable_strip wp_surfaces wp_activeSurfaceId surface_id
    "\<lambda>surface current. upsertSurface current surface" close_surface
proof (unfold_locales, goal_cases)
  case (1 t s)
  then show ?case by (simp add: upsertSurface_def list_ex_id)
next
  case (3 i s)
  then have "findIndex (\<lambda>t. surface_id t = i) (wp_surfaces s) = None" by (auto simp: findIndex_None)
  then show ?case by (simp add: close_surface_def)
next
  case (5 i s)
  obtain k where k: "findIndex (\<lambda>t. surface_id t = i) (wp_surfaces s) = Some k"
    using 5(1) by (cases "findIndex (\<lambda>t. surface_id t = i) (wp_surfaces s)") (auto simp: findIndex_None)
  have none: "filter (\<lambda>t. surface_id t \<noteq> i) (wp_surfaces s) = []"
    using 5(2) by (simp only: close_surface_tabs)
  then have "wp_activeSurfaceId s = None \<or> wp_activeSurfaceId s = Some i"
    using 5(3) by (auto simp: filter_empty_conv)
  then show ?case using none by (auto simp: close_surface_active [OF k] Let_def)
next
  case (6 s i)
  then show ?case
    by (cases "findIndex (\<lambda>t. surface_id t = i) (wp_surfaces s)")
      (simp_all add: close_surface_active, simp add: close_surface_def)
next
  case (7 i s k)
  then show ?case by (simp add: close_surface_active [OF 7(1)] close_surface_tabs Let_def)
qed (simp_all add: upsertSurface_def close_surface_tabs)

section \<open>Valid strips\<close>

lemma image_apart: "\<forall>t\<in>B. f t \<notin> A \<Longrightarrow> A \<inter> f ` B = {}"
  by blast

lemma filter_two_parts:
  "\<forall>x\<in>set xs. \<not> P x \<Longrightarrow> \<forall>x\<in>set ys. P x \<Longrightarrow> \<forall>x\<in>set zs. P x \<Longrightarrow> filter P (xs @ ys @ zs) = ys @ zs"
  by (simp add: filter_empty_conv filter_id_conv)

lemma list_all_replace: "list_all P xs \<Longrightarrow> P x \<Longrightarrow> list_all P (map (\<lambda>e. if Q e then x else e) xs)"
  by (induction xs) simp_all

text \<open>Browser tabs have ids of their own, other than the one of the placeholder.\<close>

definition tab_name :: "string \<Rightarrow> bool" where
  "tab_name t \<longleftrightarrow> t \<noteq> [] \<and> t \<noteq> ''new''"

fun named :: "right_panel_surface \<Rightarrow> bool" where
  "named (BrowserSurface t) = tab_name t"
| "named _ = True"

definition strip_ok :: "workspace_panel \<Rightarrow> bool" where
  "strip_ok c \<longleftrightarrow>
     strip_valid surface_id (wp_surfaces c) (wp_activeSurfaceId c) \<and> list_all named (wp_surfaces c)"

lemma strip_ok_empty [simp]: "strip_ok EMPTY_WORKSPACE_STATE"
  by (simp add: strip_ok_def strip_valid_def EMPTY_WORKSPACE_STATE_def)

lemma upsertSurface_ok:
  assumes "distinct (map surface_id (wp_surfaces c))" and "list_all named (wp_surfaces c)" and "named x"
  shows "strip_ok (upsertSurface c x)"
  using assms by (simp add: strip_ok_def strip_valid_def upsertSurface_def list_ex_id)

lemma strip_okD: "strip_ok c \<Longrightarrow> distinct (map surface_id (wp_surfaces c)) \<and> list_all named (wp_surfaces c)"
  by (simp add: strip_ok_def strip_valid_def)

lemma find_in: "find P xs = Some x \<Longrightarrow> x \<in> set xs \<and> P x"
  by (auto simp: find_Some_iff)

lemma named_singleton [simp]: "named (singletonSurface k)" "named (browserSurface None)"
  by (cases k) (simp_all add: browserSurface_def)

lemma named_browser: "t \<noteq> ''new'' \<Longrightarrow> named (browserSurface (Some t))"
  by (simp add: browserSurface_def tab_name_def)

lemma open_surface_ok: "strip_ok c \<Longrightarrow> strip_ok (open_surface kind c)"
  using strip_okD [of c]
  by (auto simp: open_surface_def find_Some_iff list_all_iff intro!: upsertSurface_ok
      split: open_kind.split option.split)

lemma open_browser_ok:
  assumes "strip_ok c" and "tabId \<noteq> Some ''new''"
  shows "strip_ok (open_browser_surface tabId c)"
proof -
  have "named (browserSurface tabId)" using assms(2) by (cases tabId) (simp_all add: named_browser)
  then show ?thesis
    using strip_okD [OF assms(1)]
    by (auto simp: open_browser_surface_def Let_def list_all_iff distinct_map_filter
        intro!: upsertSurface_ok)
qed

lemma open_file_ok:
  assumes "strip_ok c"
  shows "strip_ok (open_file_surface path line c)"
proof -
  let ?rest = "filter (\<lambda>s. surface_kind s \<noteq> FilesKind) (wp_surfaces c)"
  let ?p = "\<lambda>s. surface_id s = ''file:'' @ path \<and> surface_kind s = FileKind"
  have d: "distinct (map surface_id ?rest)" "list_all named ?rest"
    using strip_okD [OF assms] by (auto simp: distinct_map_filter list_all_iff)
  have kind: "surface_kind s = FileKind" if "surface_id s = ''file:'' @ path" for s
    using that by (cases s) auto
  have same: "map surface_id (map (\<lambda>e. if surface_id e = ''file:'' @ path then FileSurface path l n else e) xs)
      = map surface_id xs" for l n xs
    by simp
  show ?thesis
  proof (cases "find ?p ?rest")
    case None
    then have "''file:'' @ path \<notin> surface_id ` set ?rest"
      using kind by (auto simp: find_None_iff)
    with None d show ?thesis
      by (simp add: open_file_surface_def Let_def strip_ok_def strip_valid_def)
  next
    case (Some e)
    then have "''file:'' @ path \<in> surface_id ` set ?rest" using find_in [OF Some] by (metis imageI)
    let ?x = "FileSurface path (normalizeRevealLine line) (revealRequestId e + 1)"
    let ?xs = "map (\<lambda>e. if surface_id e = ''file:'' @ path then ?x else e) ?rest"
    have new: "wp_surfaces (open_file_surface path line c) = ?xs"
      "wp_activeSurfaceId (open_file_surface path line c) = Some (''file:'' @ path)"
      using Some by (simp_all add: open_file_surface_def Let_def)
    have ids: "map surface_id ?xs = map surface_id ?rest" by (rule same)
    have "list_all named ?xs"
      by (rule list_all_replace [OF d(2)]) simp
    moreover have "''file:'' @ path \<in> surface_id ` set ?xs"
      unfolding set_map [symmetric] ids unfolding set_map
      by (rule \<open>''file:'' @ path \<in> surface_id ` set ?rest\<close>)
    ultimately show ?thesis
      unfolding strip_ok_def strip_valid_def new ids option.case using d(1) by blast
  qed
qed

section \<open>Reconciling browser tabs\<close>

lemma preview_id:
  "named s \<Longrightarrow> surface_kind s = PreviewKind \<Longrightarrow> surface_id s \<noteq> ''browser:new'' \<Longrightarrow>
     \<exists>t. s = BrowserSurface t \<and> tab_name t"
  by (cases s) auto

lemma browser_id_kind:
  "surface_id s \<in> (\<lambda>t. ''browser:'' @ t) ` A \<Longrightarrow> surface_kind s = PreviewKind"
  by (cases s) auto

definition browser_tabs :: "right_panel_surface list \<Rightarrow> string list" where
  "browser_tabs xs = map surface_id (filter (\<lambda>s. surface_kind s = PreviewKind) xs)"

lemma reconcile_surfaces_parts:
  fixes tabIds c
  defines "kept \<equiv> filter (\<lambda>s. surface_kind s = PreviewKind \<and> surface_id s \<noteq> ''browser:new'' \<and>
      surface_id s \<in> (\<lambda>t. ''browser:'' @ t) ` set tabIds) (wp_surfaces c)"
  shows "wp_surfaces (reconcile_surfaces tabIds c) =
    filter (\<lambda>s. surface_kind s \<noteq> PreviewKind) (wp_surfaces c) @ kept @
    map (\<lambda>t. browserSurface (Some t)) (filter (\<lambda>t. ''browser:'' @ t \<notin> surface_id ` set kept) tabIds)"
  by (simp add: reconcile_surfaces_def Let_def kept_def)

lemma browserSurface_tab [simp]:
  "tab_name t \<Longrightarrow> browserSurface (Some t) = BrowserSurface t"
  by (simp add: browserSurface_def tab_name_def)

text \<open>The previews are exactly the given tabs, each once; other surfaces stay as they were.\<close>

lemma reconcile_surfaces_exact:
  assumes "strip_ok c" and "distinct tabIds" and "list_all tab_name tabIds"
  shows "filter (\<lambda>s. surface_kind s \<noteq> PreviewKind) (wp_surfaces (reconcile_surfaces tabIds c))
      = filter (\<lambda>s. surface_kind s \<noteq> PreviewKind) (wp_surfaces c)"
    and "mset (browser_tabs (wp_surfaces (reconcile_surfaces tabIds c)))
      = mset (map (\<lambda>t. ''browser:'' @ t) tabIds)"
    and "distinct (map surface_id (wp_surfaces (reconcile_surfaces tabIds c)))"
    and "list_all named (wp_surfaces (reconcile_surfaces tabIds c))"
proof -
  let ?ids = "(\<lambda>t. ''browser:'' @ t) ` set tabIds"
  let ?kept = "filter (\<lambda>s. surface_kind s = PreviewKind \<and> surface_id s \<noteq> ''browser:new'' \<and>
      surface_id s \<in> ?ids) (wp_surfaces c)"
  let ?new = "filter (\<lambda>t. ''browser:'' @ t \<notin> surface_id ` set ?kept) tabIds"
  let ?added = "map (\<lambda>t. browserSurface (Some t)) ?new"
  have d: "distinct (map surface_id (wp_surfaces c))" "list_all named (wp_surfaces c)"
    using strip_okD [OF assms(1)] by auto
  have names: "tab_name t" if "t \<in> set tabIds" for t using assms(3) that by (simp add: list_all_iff)
  have added: "?added = map BrowserSurface ?new"
    using names by (auto intro!: map_cong)
  have kinds: "\<forall>s\<in>set ?added. surface_kind s = PreviewKind" unfolding added by auto
  have parts: "wp_surfaces (reconcile_surfaces tabIds c)
      = filter (\<lambda>s. surface_kind s \<noteq> PreviewKind) (wp_surfaces c) @ ?kept @ ?added"
    by (rule reconcile_surfaces_parts)
  show "filter (\<lambda>s. surface_kind s \<noteq> PreviewKind) (wp_surfaces (reconcile_surfaces tabIds c))
      = filter (\<lambda>s. surface_kind s \<noteq> PreviewKind) (wp_surfaces c)"
    unfolding parts using kinds by (auto simp: filter_empty_conv)
  have kept_ids: "distinct (map surface_id ?kept)" using d(1) by (simp add: distinct_map_filter)
  have new_ids: "map surface_id ?added = map (\<lambda>t. ''browser:'' @ t) ?new" unfolding added by simp
  have new_distinct: "distinct (map surface_id ?added)"
    unfolding new_ids using assms(2) by (simp add: distinct_map inj_on_def)
  have apart: "set (map surface_id ?kept) \<inter> set (map surface_id ?added) = {}"
  proof -
    have "''browser:'' @ t \<notin> surface_id ` set ?kept" if "t \<in> set ?new" for t
      using that by (simp only: set_filter mem_Collect_eq simp_thms)
    then show ?thesis unfolding new_ids set_map by (intro image_apart) blast
  qed
  have all: "set (map surface_id ?kept) \<union> set (map surface_id ?added) = ?ids"
  proof
    show "set (map surface_id ?kept) \<union> set (map surface_id ?added) \<subseteq> ?ids"
      unfolding new_ids by auto
    show "?ids \<subseteq> set (map surface_id ?kept) \<union> set (map surface_id ?added)"
    proof
      fix x assume "x \<in> ?ids"
      then obtain t where t: "x = ''browser:'' @ t" "t \<in> set tabIds" by (rule imageE)
      show "x \<in> set (map surface_id ?kept) \<union> set (map surface_id ?added)"
      proof (cases "x \<in> surface_id ` set ?kept")
        case False
        then have "t \<in> set ?new" using t by (simp only: set_filter mem_Collect_eq simp_thms)
        then show ?thesis unfolding new_ids set_map t(1) by (intro UnI2 imageI)
      qed (simp only: set_map Un_iff simp_thms)
    qed
  qed
  have "filter (\<lambda>s. surface_kind s = PreviewKind) (filter (\<lambda>s. surface_kind s \<noteq> PreviewKind) (wp_surfaces c)
      @ ?kept @ ?added) = ?kept @ ?added"
    by (intro filter_two_parts) (use kinds in auto)
  then have "browser_tabs (wp_surfaces (reconcile_surfaces tabIds c)) = map surface_id (?kept @ ?added)"
    unfolding parts browser_tabs_def by (rule arg_cong)
  moreover have "distinct (map surface_id (?kept @ ?added))"
    using kept_ids new_distinct apart by simp
  moreover have "set (map surface_id (?kept @ ?added)) = set (map (\<lambda>t. ''browser:'' @ t) tabIds)"
    using all by simp
  moreover have "distinct (map (\<lambda>t. ''browser:'' @ t) tabIds)"
    using assms(2) by (simp add: distinct_map inj_on_def)
  ultimately show "mset (browser_tabs (wp_surfaces (reconcile_surfaces tabIds c)))
      = mset (map (\<lambda>t. ''browser:'' @ t) tabIds)"
    by (simp only: set_eq_iff_mset_eq_distinct)
  have "set (map surface_id (filter (\<lambda>s. surface_kind s \<noteq> PreviewKind) (wp_surfaces c))) \<inter> ?ids = {}"
    unfolding set_map set_filter using browser_id_kind by blast
  with all have "set (map surface_id (filter (\<lambda>s. surface_kind s \<noteq> PreviewKind) (wp_surfaces c)))
      \<inter> set (map surface_id (?kept @ ?added)) = {}"
    by simp
  then show "distinct (map surface_id (wp_surfaces (reconcile_surfaces tabIds c)))"
    unfolding parts using kept_ids new_distinct apart d(1) by (simp add: distinct_map_filter)
  show "list_all named (wp_surfaces (reconcile_surfaces tabIds c))"
    unfolding parts added using d(2) names by (auto simp: list_all_iff)
qed

lemma strip_update:
  "wp_activeSurfaceId (c\<lparr>wp_surfaces := xs, wp_activeSurfaceId := a\<rparr>) = a"
  "wp_surfaces (c\<lparr>wp_surfaces := xs, wp_activeSurfaceId := a\<rparr>) = xs"
  by simp_all

lemma reconcile_active:
  "wp_activeSurfaceId (reconcile_surfaces tabIds c) =
    (let xs = wp_surfaces (reconcile_surfaces tabIds c) in
     if wp_activeSurfaceId c \<in> Some ` surface_id ` set xs then wp_activeSurfaceId c
     else case find (\<lambda>s. surface_kind s = PreviewKind) xs of
            Some s \<Rightarrow> Some (surface_id s)
          | None \<Rightarrow> map_option surface_id (js_nth xs 0))"
  unfolding reconcile_surfaces_def Let_def strip_update list_ex_active by (rule refl)

lemma reconcile_ok:
  assumes "strip_ok c" and "distinct tabIds" and "list_all tab_name tabIds"
  shows "strip_ok (reconcile_surfaces tabIds c)"
proof -
  let ?xs = "wp_surfaces (reconcile_surfaces tabIds c)"
  let ?a = "wp_activeSurfaceId (reconcile_surfaces tabIds c)"
  have "case ?a of None \<Rightarrow> ?xs = [] | Some i \<Rightarrow> i \<in> surface_id ` set ?xs"
  proof (cases "wp_activeSurfaceId c \<in> Some ` surface_id ` set ?xs")
    case True
    then show ?thesis by (auto simp: reconcile_active Let_def)
  next
    case False
    show ?thesis
    proof (cases "find (\<lambda>s. surface_kind s = PreviewKind) ?xs")
      case None
      with False show ?thesis by (cases ?xs) (auto simp: reconcile_active Let_def js_nth_def)
    next
      case (Some s)
      with False find_in [OF Some] show ?thesis by (simp add: reconcile_active Let_def)
    qed
  qed
  then show ?thesis
    using reconcile_surfaces_exact(3,4) [OF assms] by (simp add: strip_ok_def strip_valid_def)
qed

section \<open>Closing\<close>

lemma close_surface_ok: "strip_ok c \<Longrightarrow> strip_ok (close_surface c i)"
  using surface_strip.valid_remove [of c i]
  by (simp add: strip_ok_def surface_strip.valid_def close_surface_tabs list_all_iff)

lemma close_other_ok: "strip_ok c \<Longrightarrow> strip_ok (close_other_surfaces i c)"
  by (auto simp: close_other_surfaces_def strip_ok_def strip_valid_def list_all_iff
      dest!: find_in split: option.split)

lemma close_right_ok:
  assumes "strip_ok c"
  shows "strip_ok (close_surfaces_to_right i c)"
proof (cases "findIndex (\<lambda>s. surface_id s = i) (wp_surfaces c)")
  case None
  then show ?thesis using assms by (simp add: close_surfaces_to_right_def)
next
  case (Some k)
  let ?xs = "take (k + 1) (wp_surfaces c)"
  have "wp_surfaces c ! k \<in> set ?xs"
    using findIndex_SomeD(1) [OF Some] by (auto simp: in_set_conv_nth intro!: exI [of _ k])
  then have "i \<in> surface_id ` set ?xs" using findIndex_SomeD(2) [OF Some] by force
  moreover have "distinct (map surface_id ?xs)"
    using strip_okD [OF assms] by (simp add: take_map [symmetric] distinct_take)
  moreover have "list_all named ?xs"
    using strip_okD [OF assms] by (auto simp: list_all_iff dest: in_set_takeD)
  ultimately have "strip_ok (c\<lparr>wp_surfaces := ?xs, wp_activeSurfaceId :=
      (if wp_activeSurfaceId c \<in> Some ` surface_id ` set ?xs then wp_activeSurfaceId c else Some i)\<rparr>)"
    by (auto simp: strip_ok_def strip_valid_def)
  then show ?thesis
    using assms Some by (simp add: close_surfaces_to_right_def list_ex_active Let_def del: take_Suc)
qed

lemma close_all_ok: "strip_ok c \<Longrightarrow> strip_ok (close_all_surfaces c)"
  by (simp add: close_all_surfaces_def strip_ok_def strip_valid_def)

lemma activate_ok: "strip_ok c \<Longrightarrow> i \<in> surface_id ` set (wp_surfaces c) \<Longrightarrow> strip_ok (c\<lparr>wp_activeSurfaceId := Some i\<rparr>)"
  by (simp add: strip_ok_def strip_valid_def)

section \<open>The store\<close>

definition panel_ok :: "right_panel \<Rightarrow> bool" where
  "panel_ok p \<longleftrightarrow>
     (\<forall>w c. rp_byWorkspaceId p w = Some c \<longrightarrow> strip_ok c \<and> wp_surfaces c \<noteq> [])"

lemma strip_ok_nonempty:
  "strip_ok c \<Longrightarrow> \<not> (wp_activeSurfaceId c = None \<and> wp_surfaces c = []) \<Longrightarrow> wp_surfaces c \<noteq> []"
  by (auto simp: strip_ok_def strip_valid_def split: option.splits)

lemma panel_ok_map: "rp_byWorkspaceId p = rp_byWorkspaceId q \<Longrightarrow> panel_ok p = panel_ok q"
  by (simp add: panel_ok_def)

lemma panel_ok_show [simp]:
  "panel_ok (show_panel w p) = panel_ok p" "panel_ok (p\<lparr>rp_isOpen := b\<rparr>) = panel_ok p"
  "panel_ok (p\<lparr>rp_selectedWorkspaceId := s\<rparr>) = panel_ok p"
  by (simp_all add: panel_ok_def show_panel_def)

lemma update_panel_ok:
  assumes "panel_ok p"
    and "strip_ok (updater (case rp_byWorkspaceId p w of Some c \<Rightarrow> c | None \<Rightarrow> EMPTY_WORKSPACE_STATE))"
  shows "panel_ok (update_panel w updater p)"
  using assms strip_ok_nonempty [OF assms(2)]
  by (auto simp: panel_ok_def update_panel_def updateWorkspace_def Let_def)

lemma current_ok:
  "panel_ok p \<Longrightarrow> strip_ok (case rp_byWorkspaceId p w of Some c \<Rightarrow> c | None \<Rightarrow> EMPTY_WORKSPACE_STATE)"
  by (auto simp: panel_ok_def split: option.split)

lemma update_ok: "panel_ok p \<Longrightarrow> (\<And>c. strip_ok c \<Longrightarrow> strip_ok (updater c)) \<Longrightarrow> panel_ok (update_panel w updater p)"
  by (rule update_panel_ok) (simp_all add: current_ok)

inductive panel_step :: "right_panel \<Rightarrow> right_panel \<Rightarrow> bool" where
  opened: "panel_step p (open_panel w kind p)"
| browser: "tabId \<noteq> Some ''new'' \<Longrightarrow> panel_step p (openBrowser w tabId p)"
| file_opened: "panel_step p (openFile w path line p)"
| reconciled: "distinct tabIds \<Longrightarrow> list_all tab_name tabIds \<Longrightarrow>
    panel_step p (reconcileBrowserSurfaces w tabIds p)"
| activated: "panel_step p (activateSurface w i p)"
| closed: "panel_step p (closeSurface w i p)"
| closed_others: "panel_step p (closeOtherSurfaces w i p)"
| closed_right: "panel_step p (closeSurfacesToRight w i p)"
| closed_all: "panel_step p (closeAllSurfaces w p)"
| shown_workspace: "panel_step p (show_panel w p)"
| hidden: "panel_step p (close_panel p)"
| selected: "panel_step p (selectWorkspace w p)"
| visibility: "panel_step p (toggleVisibility p)"
| toggled: "panel_step p (toggle w kind p)"
| removed_workspaces: "panel_step p (removeWorkspaces ws p)"

lemma removeWorkspaces_map:
  "rp_byWorkspaceId (removeWorkspaces ws p) = (\<lambda>w. if w \<in> set ws then None else rp_byWorkspaceId p w)"
proof -
  have f: "fold (\<lambda>w rest. rest(w := None)) vs m = (\<lambda>w. if w \<in> set vs then None else m w)"
    for vs and m :: "string \<Rightarrow> workspace_panel option"
    by (induction vs arbitrary: m) (auto simp: fun_eq_iff)
  show ?thesis
    by (cases "\<exists>w\<in>set ws. rp_byWorkspaceId p w \<noteq> None")
      (auto simp: removeWorkspaces_def Let_def f fun_eq_iff filter_empty_conv)
qed

lemma activateSurface_ok:
  assumes "panel_ok p"
  shows "panel_ok (activateSurface w i p)"
proof (cases "rp_byWorkspaceId p w")
  case (Some c)
  then have "strip_ok (c\<lparr>wp_activeSurfaceId := Some i\<rparr>)" if "i \<in> surface_id ` set (wp_surfaces c)"
    using that assms activate_ok by (simp add: panel_ok_def)
  with Some assms show ?thesis
    by (auto simp: activateSurface_def list_ex_id intro!: update_panel_ok)
qed (simp add: activateSurface_def assms)

lemma panel_step_ok: "panel_step p q \<Longrightarrow> panel_ok p \<Longrightarrow> panel_ok q"
proof (induction rule: panel_step.induct)
  case (removed_workspaces p ws)
  then show ?case by (simp add: panel_ok_def removeWorkspaces_map)
qed (auto simp: open_panel_def openBrowser_def openFile_def reconcileBrowserSurfaces_def closeSurface_def
    closeOtherSurfaces_def closeSurfacesToRight_def closeAllSurfaces_def close_panel_def
    selectWorkspace_def toggleVisibility_def toggle_def Let_def
    intro!: update_ok open_surface_ok open_browser_ok open_file_ok reconcile_ok close_surface_ok
      close_other_ok close_right_ok close_all_ok activateSurface_ok)

lemma panel_runs_ok: "panel_step\<^sup>*\<^sup>* p q \<Longrightarrow> panel_ok p \<Longrightarrow> panel_ok q"
  by (induction rule: rtranclp_induct) (auto intro: panel_step_ok)

lemma initial_panel_ok: "panel_ok initial_right_panel"
  by (simp add: panel_ok_def initial_right_panel_def)

lemma panel_ok_strip:
  assumes "panel_ok p" and "rp_byWorkspaceId p w = Some c"
  shows "wp_surfaces c \<noteq> [] \<and> distinct (map surface_id (wp_surfaces c)) \<and>
    wp_activeSurfaceId c \<in> Some ` surface_id ` set (wp_surfaces c)"
proof -
  have "strip_ok c" "wp_surfaces c \<noteq> []" using assms by (auto simp: panel_ok_def)
  then show ?thesis by (cases "wp_activeSurfaceId c") (simp_all add: strip_ok_def strip_valid_def)
qed

section \<open>Toggling\<close>

lemma surface_id_kind: "surface_id s = surface_id t \<Longrightarrow> surface_kind s = surface_kind t"
  by (cases s; cases t) auto

definition active_kind :: "workspace_panel \<Rightarrow> panel_kind option" where
  "active_kind c =
     map_option surface_kind (find (\<lambda>s. Some (surface_id s) = wp_activeSurfaceId c) (wp_surfaces c))"

lemma upsert_active_kind: "active_kind (upsertSurface c x) = Some (surface_kind x)"
proof -
  let ?xs = "wp_surfaces (upsertSurface c x)"
  have "surface_id x \<in> surface_id ` set ?xs" by (auto simp: upsertSurface_def list_ex_id)
  then obtain y where y: "find (\<lambda>s. surface_id s = surface_id x) ?xs = Some y"
    by (cases "find (\<lambda>s. surface_id s = surface_id x) ?xs") (auto simp: find_None_iff)
  then have "surface_kind y = surface_kind x" using surface_id_kind [of y x] find_in [OF y] by simp
  with y show ?thesis by (simp add: active_kind_def upsertSurface_def)
qed

lemma open_surface_kind: "active_kind (open_surface kind c) = Some (open_panel_kind kind)"
proof (cases kind)
  case OpenPreview
  show ?thesis
    using find_in [of "\<lambda>s. surface_kind s = PreviewKind" "wp_surfaces c"]
    by (cases "find (\<lambda>s. surface_kind s = PreviewKind) (wp_surfaces c)")
      (simp_all add: OpenPreview open_surface_def upsert_active_kind browserSurface_def)
qed (simp add: open_surface_def upsert_active_kind)

lemma open_surface_nonempty: "wp_activeSurfaceId (open_surface kind c) \<noteq> None"
  by (simp add: open_surface_def upsertSurface_def split: open_kind.split option.split)

lemma opened_map:
  "rp_byWorkspaceId (show_panel w (update_panel w (open_surface kind) p)) w =
     Some (open_surface kind (case rp_byWorkspaceId p w of Some c \<Rightarrow> c | None \<Rightarrow> EMPTY_WORKSPACE_STATE))"
  using open_surface_nonempty by (simp add: show_panel_def update_panel_def updateWorkspace_def Let_def)

lemma selectActive_eq:
  "w \<noteq> [] \<Longrightarrow> selectActiveRightPanel p (Some w) =
     (if rp_isOpen p \<and> rp_selectedWorkspaceId p = Some w
      then active_kind (case rp_byWorkspaceId p w of Some c \<Rightarrow> c | None \<Rightarrow> EMPTY_WORKSPACE_STATE) else None)"
  by (simp add: selectActiveRightPanel_def isShowingWorkspace_def selectSelectedRightPanelSurface_def
      selectWorkspaceRightPanelState_def active_kind_def Let_def)

lemma toggle_eq:
  "w \<noteq> [] \<Longrightarrow> toggle w kind p =
     (if selectActiveRightPanel p (Some w) = Some (open_panel_kind kind) then p\<lparr>rp_isOpen := False\<rparr>
      else show_panel w (update_panel w (open_surface kind) p))"
  by (auto simp: toggle_def selectActive_eq active_kind_def Let_def EMPTY_WORKSPACE_STATE_def
      split: option.splits)

lemma toggle_shows:
  assumes "w \<noteq> []" and "selectActiveRightPanel p (Some w) \<noteq> Some (open_panel_kind kind)"
  shows "selectActiveRightPanel (toggle w kind p) (Some w) = Some (open_panel_kind kind)"
  using assms
  by (simp add: toggle_eq selectActive_eq [of w "show_panel w (update_panel w (open_surface kind) p)"]
      opened_map open_surface_kind) (simp add: show_panel_def)

lemma toggle_hides:
  assumes "w \<noteq> []" and "selectActiveRightPanel p (Some w) = Some (open_panel_kind kind)"
  shows "toggle w kind p = p\<lparr>rp_isOpen := False\<rparr>"
  using assms by (simp add: toggle_eq)

end
