(* ===== verification/Right_Panel_Migration.thy ===== *)
theory Right_Panel_Migration
  imports Window_Repair "HOL-Library.AList"
begin

text \<open>
  The migration of a persisted right panel in \<open>apps/web/src/right-panel-store.ts\<close>. What was
  persisted is any JSON value, and a surface that passes is the JSON object itself, with the
  reveal fields of a file surface put into range; \<open>null\<close> is \<open>JNull\<close>, an absent field \<open>None\<close>. The
  selection always starts as \<open>null\<close> and is left out of the result.
\<close>

definition RIGHT_PANEL_KINDS :: "string list" where
  "RIGHT_PANEL_KINDS = [''diff'', ''files'', ''file'', ''preview'', ''pull-request'']"

text \<open>\<open>===\<close>, where two objects or arrays of a parsed document are never the same.\<close>

fun strictly_equal :: "json option \<Rightarrow> json option \<Rightarrow> bool" where
  "strictly_equal (Some (JObj _)) _ = False"
| "strictly_equal (Some (JArr _)) _ = False"
| "strictly_equal a b = (a = b)"

definition nullish :: "json option \<Rightarrow> json \<Rightarrow> json" where
  "nullish v d = (case v of None \<Rightarrow> d | Some JNull \<Rightarrow> d | Some x \<Rightarrow> x)"

fun object_update :: "string \<Rightarrow> json \<Rightarrow> json \<Rightarrow> json" where
  "object_update k v (JObj kvs) = JObj (AList.update k v kvs)"
| "object_update k v j = j"

definition trunc :: "rat \<Rightarrow> int" where
  "trunc x = (if 0 \<le> x then \<lfloor>x\<rfloor> else \<lceil>x\<rceil>)"

definition sanitizeFileSurface :: "json \<Rightarrow> json list" where
  "sanitizeFileSurface surface =
     (case jfield surface ''relativePath'' of
        Some (JStr _) \<Rightarrow>
          (let revealLine = (case jfield surface ''revealLine'' of
                               Some (JNum x) \<Rightarrow> JNum (of_int (max 1 (trunc x)))
                             | _ \<Rightarrow> JNull);
               revealRequestId = (case jfield surface ''revealRequestId'' of
                               Some (JNum x) \<Rightarrow>
                                 if x = of_int \<lfloor>x\<rfloor> \<and> x \<le> 9007199254740991 \<and> 0 \<le> x then JNum x else JNum 0
                             | _ \<Rightarrow> JNum 0)
           in [object_update ''revealRequestId'' revealRequestId
                 (object_update ''revealLine'' revealLine surface)])
      | _ \<Rightarrow> [])"

definition sanitizePersistedSurface :: "json \<Rightarrow> json list" where
  "sanitizePersistedSurface surface =
     (case jfield surface ''kind'' of
        Some (JStr k) \<Rightarrow>
          if k \<notin> set RIGHT_PANEL_KINDS then []
          else if k = ''file'' then sanitizeFileSurface surface
          else [surface]
      | _ \<Rightarrow> [])"

definition id_field :: "json \<Rightarrow> json" where
  "id_field s = nullish (jfield s ''id'') JNull"

record migrated_workspace =
  mw_surfaces :: "json list"
  mw_activeSurfaceId :: json

definition sanitizePersistedWorkspaceState :: "json \<Rightarrow> migrated_workspace \<times> bool" where
  "sanitizePersistedWorkspaceState workspaceState =
     (let surfaces = (case jfield workspaceState ''surfaces'' of
                        Some (JArr xs) \<Rightarrow> concat (map sanitizePersistedSurface xs)
                      | _ \<Rightarrow> []);
          rawActiveSurfaceId = jfield workspaceState ''activeSurfaceId'';
          persistedActiveSurfaceId =
            (if list_ex (\<lambda>s. strictly_equal (jfield s ''id'') rawActiveSurfaceId) surfaces
             then nullish rawActiveSurfaceId JNull else JNull);
          wasOpen = (0 < length surfaces \<and>
            (case jfield workspaceState ''isOpen'' of
               Some (JBool b) \<Rightarrow> b
             | _ \<Rightarrow> persistedActiveSurfaceId \<noteq> JNull));
          activeSurfaceId =
            nullish (Some persistedActiveSurfaceId)
              (if wasOpen
               then (case surfaces of [] \<Rightarrow> JNull | s # _ \<Rightarrow> id_field s)
               else JNull)
      in (\<lparr>mw_surfaces = surfaces, mw_activeSurfaceId = activeSurfaceId\<rparr>, wasOpen))"

text \<open>\<open>Object.entries\<close>: an array has its indices as keys.\<close>

fun object_entries :: "json \<Rightarrow> (string \<times> json) list option" where
  "object_entries (JObj kvs) = Some kvs"
| "object_entries (JArr xs) = Some (zip (map nat_string [0..<length xs]) xs)"
| "object_entries _ = None"

definition migratePersistedRightPanelState ::
    "json \<Rightarrow> (string \<times> migrated_workspace) list \<times> bool" where
  "migratePersistedRightPanelState persistedState =
     (case Option.bind (jfield persistedState ''byWorkspaceId'') object_entries of
        None \<Rightarrow> ([], False)
      | Some kvs \<Rightarrow>
          (let entries = map (\<lambda>(w, st). (w, sanitizePersistedWorkspaceState st)) kvs
           in (map (\<lambda>(w, entry). (w, fst entry)) entries,
               list_ex (\<lambda>(w, entry). snd entry) entries)))"

section \<open>What the migration guarantees\<close>

definition known_surface :: "json \<Rightarrow> bool" where
  "known_surface s \<longleftrightarrow> (\<exists>k. jfield s ''kind'' = Some (JStr k) \<and> k \<in> set RIGHT_PANEL_KINDS)"

text \<open>
  The active surface is none or one of the strip; an open strip has surfaces and, when they have
  ids, an active one.
\<close>

definition migrated_ok :: "migrated_workspace \<Rightarrow> bool \<Rightarrow> bool" where
  "migrated_ok st wasOpen \<longleftrightarrow>
     list_all known_surface (mw_surfaces st) \<and>
     (mw_activeSurfaceId st = JNull \<or> mw_activeSurfaceId st \<in> id_field ` set (mw_surfaces st)) \<and>
     (wasOpen \<longrightarrow> mw_surfaces st \<noteq> [] \<and>
        (mw_activeSurfaceId st = JNull \<longrightarrow> id_field (hd (mw_surfaces st)) = JNull))"

lemma map_of_update_other: "k \<noteq> k' \<Longrightarrow> map_of (AList.update k v kvs) k' = map_of kvs k'"
  by (simp add: update_conv')

lemma jfield_update_other: "k \<noteq> k' \<Longrightarrow> jfield (object_update k v j) k' = jfield j k'"
  by (cases j) (simp_all add: map_of_update_other)

lemma string_case:
  assumes "x \<in> set (case v of Some (JStr k) \<Rightarrow> f k | _ \<Rightarrow> [])"
  shows "\<exists>k. v = Some (JStr k) \<and> x \<in> set (f k)"
proof (cases v)
  case (Some j)
  with assms show ?thesis by (cases j) simp_all
qed (use assms in simp)

lemma sanitize_known:
  assumes "s \<in> set (sanitizePersistedSurface x)"
  shows "known_surface s"
proof -
  obtain k where k: "jfield x ''kind'' = Some (JStr k)" and "s \<in> set (if k \<notin> set RIGHT_PANEL_KINDS then []
      else if k = ''file'' then sanitizeFileSurface x else [x])"
    using string_case [OF assms [unfolded sanitizePersistedSurface_def]] by blast
  then have known: "k \<in> set RIGHT_PANEL_KINDS" and s: "s \<in> set (if k = ''file'' then sanitizeFileSurface x else [x])"
    by (cases "k \<in> set RIGHT_PANEL_KINDS"; simp)+
  show ?thesis
  proof (cases "k = ''file''")
    case True
    then have "s \<in> set (sanitizeFileSurface x)" using s by simp
    from string_case [OF this [unfolded sanitizeFileSurface_def]]
    obtain v w where "s = object_update ''revealRequestId'' v (object_update ''revealLine'' w x)"
      unfolding Let_def by auto
    then have "jfield s ''kind'' = jfield x ''kind''" by (simp add: jfield_update_other)
    with k known s show ?thesis by (simp add: known_surface_def)
  next
    case False
    with k known s show ?thesis by (simp add: known_surface_def)
  qed
qed

lemma strictly_equal_eq: "strictly_equal a b \<Longrightarrow> a = b"
  by (induction a b rule: strictly_equal.induct) auto

lemma nullish_cases: "nullish v d = d \<or> (\<exists>x. v = Some x \<and> x \<noteq> JNull \<and> nullish v d = x)"
  by (cases v; cases "the v") (auto simp: nullish_def)

lemma sanitize_state_ok: "case sanitizePersistedWorkspaceState x of (st, wasOpen) \<Rightarrow> migrated_ok st wasOpen"
proof -
  obtain st wasOpen where r: "sanitizePersistedWorkspaceState x = (st, wasOpen)" by fastforce
  define surfaces where "surfaces = (case jfield x ''surfaces'' of
      Some (JArr xs) \<Rightarrow> concat (map sanitizePersistedSurface xs) | _ \<Rightarrow> [])"
  define raw where "raw = jfield x ''activeSurfaceId''"
  define act where "act = (if list_ex (\<lambda>s. strictly_equal (jfield s ''id'') raw) surfaces
      then nullish raw JNull else JNull)"
  have st: "mw_surfaces st = surfaces"
    "mw_activeSurfaceId st = nullish (Some act) (if wasOpen
       then (case surfaces of [] \<Rightarrow> JNull | s # _ \<Rightarrow> id_field s) else JNull)"
    and wo: "wasOpen \<Longrightarrow> surfaces \<noteq> []"
    using r by (auto simp: sanitizePersistedWorkspaceState_def Let_def surfaces_def raw_def act_def)
  have known: "list_all known_surface surfaces"
    unfolding surfaces_def list_all_iff using sanitize_known
    by (cases "jfield x ''surfaces''"; cases "the (jfield x ''surfaces'')") auto
  have active: "act = JNull \<or> act \<in> id_field ` set surfaces"
    by (auto simp: act_def list_ex_iff id_field_def dest!: strictly_equal_eq)
  have eq: "mw_activeSurfaceId st = (if act \<noteq> JNull then act
      else if wasOpen then (case surfaces of [] \<Rightarrow> JNull | s # _ \<Rightarrow> id_field s) else JNull)"
    unfolding st by (cases act) (simp_all add: nullish_def)
  show ?thesis
    using known active wo unfolding r migrated_ok_def prod.case st(1) eq
    by (cases surfaces) auto
qed

lemma migrated_ok_weaken: "migrated_ok st b \<Longrightarrow> migrated_ok st False"
  by (simp add: migrated_ok_def)

lemma migrate_ok:
  "list_all (\<lambda>(w, st). migrated_ok st False) (fst (migratePersistedRightPanelState j)) \<and>
   (snd (migratePersistedRightPanelState j) \<longrightarrow>
      list_ex (\<lambda>(w, st). mw_surfaces st \<noteq> []) (fst (migratePersistedRightPanelState j)))"
proof (cases "Option.bind (jfield j ''byWorkspaceId'') object_entries")
  case None
  then show ?thesis by (simp add: migratePersistedRightPanelState_def)
next
  case (Some kvs)
  have ok: "migrated_ok (fst (sanitizePersistedWorkspaceState st)) (snd (sanitizePersistedWorkspaceState st))" for st
    using sanitize_state_ok [of st] by (simp add: case_prod_beta)
  have "list_all (\<lambda>(w, st). migrated_ok st False)
      (map (\<lambda>x. (fst x, fst (sanitizePersistedWorkspaceState (snd x)))) kvs)"
    using migrated_ok_weaken [OF ok] by (auto simp: list_all_iff)
  moreover have "mw_surfaces (fst (sanitizePersistedWorkspaceState st)) \<noteq> []"
    if "snd (sanitizePersistedWorkspaceState st)" for st
    using ok [of st] that by (simp add: migrated_ok_def)
  ultimately show ?thesis
    using Some by (auto simp: migratePersistedRightPanelState_def Let_def case_prod_beta comp_def list_ex_iff)
qed

end
