(* ===== verification/Panel_Samples.thy ===== *)
theory Panel_Samples
  imports Right_Panel_Facts Right_Panel_Migration
begin

text \<open>Concrete right panels for the properties of the root theory.\<close>

text \<open>A strip with a diff and two browser tabs, the first of them active.\<close>

definition browsing :: workspace_panel where
  "browsing = \<lparr>wp_activeSurfaceId = Some ''browser:t1'',
     wp_surfaces = [DiffSurface, BrowserSurface ''t1'', BrowserSurface ''t2'']\<rparr>"

lemma browsing_ok: "strip_ok browsing"
  by (simp add: browsing_def strip_ok_def strip_valid_def tab_name_def)

lemma browsing_reconciled:
  "wp_activeSurfaceId (reconcile_surfaces [''t2'', ''t3''] browsing) = Some ''browser:t2''"
  by code_simp

text \<open>A panel that was opened, showed a file, and lost the first of two browser tabs.\<close>

definition used_panel :: right_panel where
  "used_panel =
     reconcileBrowserSurfaces ''w'' [''t2'']
       (closeSurface ''w'' ''file:a''
         (openBrowser ''w'' (Some ''t1'')
           (openFile ''w'' ''a'' (Some 7)
             (open_panel ''w'' (OpenSingleton SingletonDiff) initial_right_panel))))"

lemma used_panel_run: "panel_step\<^sup>*\<^sup>* initial_right_panel used_panel"
proof -
  let ?p1 = "open_panel ''w'' (OpenSingleton SingletonDiff) initial_right_panel"
  let ?p2 = "openFile ''w'' ''a'' (Some 7) ?p1"
  let ?p3 = "openBrowser ''w'' (Some ''t1'') ?p2"
  let ?p4 = "closeSurface ''w'' ''file:a'' ?p3"
  have steps: "panel_step initial_right_panel ?p1" "panel_step ?p1 ?p2" "panel_step ?p2 ?p3"
    "panel_step ?p3 ?p4" "panel_step ?p4 used_panel"
    unfolding used_panel_def by (rule panel_step.intros; simp add: tab_name_def)+
  note more = rtranclp.rtrancl_into_rtrancl [where r = panel_step]
  from steps(1) have "panel_step\<^sup>*\<^sup>* initial_right_panel ?p1" by (rule r_into_rtranclp)
  from this steps(2) have "panel_step\<^sup>*\<^sup>* initial_right_panel ?p2" by (rule more)
  from this steps(3) have "panel_step\<^sup>*\<^sup>* initial_right_panel ?p3" by (rule more)
  from this steps(4) have "panel_step\<^sup>*\<^sup>* initial_right_panel ?p4" by (rule more)
  from this steps(5) show ?thesis by (rule more)
qed

lemma used_panel_surfaces:
  "map_option (\<lambda>c. (wp_activeSurfaceId c, map surface_id (wp_surfaces c))) (rp_byWorkspaceId used_panel ''w'')
     = Some (Some ''browser:t2'', [''diff'', ''browser:t2''])"
  by code_simp

lemma used_panel_shows: "selectActiveRightPanel used_panel (Some ''w'') = Some PreviewKind"
  by code_simp

end
