(* ===== verification/Permission_Authority.thy ===== *)
theory Permission_Authority
  imports Prelude "HOL-Library.Multiset"
begin

text \<open>
  The durable permission records of the bot, \<open>apps/bot/src/acp-runtime/acp-authority.ts\<close>: the
  record, its capacity rules, the compaction of the stored list and the transaction that applies
  an update to it. Digests are strings, times integers (milliseconds); reading and writing the
  file is left out, an exception of the bounds check is \<open>Inl\<close>.
\<close>

datatype permission_state = Pending | Allowed | Rejected | Cancelled

datatype permission_category = FileEdit | FileRead | GuardedTool | Network | Shell

datatype decision_intent = Allow | Reject

record authority_record =
  ar_argumentDigest :: string
  ar_authorizedUserDigest :: string
  ar_bindingGeneration :: nat
  ar_capabilityDigest :: string
  ar_category :: permission_category
  ar_channelDigest :: string
  ar_conversationDigest :: string
  ar_createdAt :: int
  ar_expiresAt :: int
  ar_decisionClaimedAt :: "int option"
  ar_decisionIntent :: "decision_intent option"
  ar_inputDigest :: string
  ar_messageDigest :: "string option"
  ar_optionAllowDigest :: string
  ar_optionRejectDigest :: string
  ar_presentationMarkerDigest :: "string option"
  ar_processGeneration :: nat
  ar_promptDigest :: string
  ar_recordId :: string
  ar_requestIdentityDigest :: string
  ar_rootDigest :: string
  ar_sessionDigest :: string
  ar_state :: permission_state
  ar_toolCallDigest :: string
  ar_turnDigest :: string
  ar_updatedAt :: int
  ar_workspaceDigest :: string

definition ACP_AUTHORITY_MAX_PENDING_PER_CONVERSATION :: nat where
  "ACP_AUTHORITY_MAX_PENDING_PER_CONVERSATION = 16"

definition ACP_AUTHORITY_MAX_PENDING_PER_TURN :: nat where
  "ACP_AUTHORITY_MAX_PENDING_PER_TURN = 4"

definition ACP_AUTHORITY_MAX_PENDING_PER_WORKSPACE :: nat where
  "ACP_AUTHORITY_MAX_PENDING_PER_WORKSPACE = 64"

definition MAX_TERMINAL_RECORDS :: nat where
  "MAX_TERMINAL_RECORDS = 256"

definition MAX_AUTHORITY_RECORDS :: nat where
  "MAX_AUTHORITY_RECORDS = ACP_AUTHORITY_MAX_PENDING_PER_WORKSPACE + MAX_TERMINAL_RECORDS"

definition ACP_AUTHORITY_TERMINAL_RETENTION_MILLIS :: int where
  "ACP_AUTHORITY_TERMINAL_RETENTION_MILLIS = 7 * 24 * 60 * 60 * 1000"

lemmas authority_limits = ACP_AUTHORITY_MAX_PENDING_PER_CONVERSATION_def
  ACP_AUTHORITY_MAX_PENDING_PER_TURN_def ACP_AUTHORITY_MAX_PENDING_PER_WORKSPACE_def
  MAX_TERMINAL_RECORDS_def MAX_AUTHORITY_RECORDS_def

section \<open>Capacity\<close>

datatype capacity_scope = ConversationScope | TurnScope | WorkspaceScope

definition is_pending :: "authority_record \<Rightarrow> bool" where
  "is_pending r \<longleftrightarrow> ar_state r = Pending"

text \<open>The number of pending records that agree on a digest, as the counting loops compute it.\<close>

fun pending_count :: "(authority_record \<Rightarrow> string) \<Rightarrow> string \<Rightarrow> authority_record list \<Rightarrow> nat" where
  "pending_count key v [] = 0"
| "pending_count key v (r # rs) =
     (if is_pending r \<and> key r = v then 1 else 0) + pending_count key v rs"

definition pendingPermissionCapacityExceeded ::
    "authority_record list \<Rightarrow> authority_record \<Rightarrow> capacity_scope option" where
  "pendingPermissionCapacityExceeded records candidate =
     (let conversationCount = pending_count ar_conversationDigest (ar_conversationDigest candidate) records;
          turnCount = pending_count ar_turnDigest (ar_turnDigest candidate) records;
          workspaceCount = pending_count ar_workspaceDigest (ar_workspaceDigest candidate) records
      in if ACP_AUTHORITY_MAX_PENDING_PER_TURN \<le> turnCount then Some TurnScope
         else if ACP_AUTHORITY_MAX_PENDING_PER_CONVERSATION \<le> conversationCount then Some ConversationScope
         else if ACP_AUTHORITY_MAX_PENDING_PER_WORKSPACE \<le> workspaceCount then Some WorkspaceScope
         else None)"

datatype authority_error = RecordCapacity | PendingWorkspaceCapacity | PendingScopeCapacity

definition some_count_above ::
    "nat \<Rightarrow> (authority_record \<Rightarrow> string) \<Rightarrow> authority_record list \<Rightarrow> bool" where
  "some_count_above n key records \<longleftrightarrow>
     list_ex (\<lambda>r. is_pending r \<and> n < pending_count key (key r) records) records"

definition assertAuthorityRecordBounds :: "authority_record list \<Rightarrow> authority_error + unit" where
  "assertAuthorityRecordBounds records =
     (if MAX_AUTHORITY_RECORDS < length records then Inl RecordCapacity
      else if ACP_AUTHORITY_MAX_PENDING_PER_WORKSPACE < length (filter is_pending records)
      then Inl PendingWorkspaceCapacity
      else if some_count_above ACP_AUTHORITY_MAX_PENDING_PER_CONVERSATION ar_conversationDigest records \<or>
              some_count_above ACP_AUTHORITY_MAX_PENDING_PER_TURN ar_turnDigest records \<or>
              some_count_above ACP_AUTHORITY_MAX_PENDING_PER_WORKSPACE ar_workspaceDigest records
      then Inl PendingScopeCapacity
      else Inr ())"

section \<open>Compaction and transactions\<close>

text \<open>JavaScript's \<open>sort\<close> is stable, as is \<open>sort_key\<close>.\<close>

definition compacted_records :: "int \<Rightarrow> authority_record list \<Rightarrow> authority_record list" where
  "compacted_records now records =
     (let pending = filter is_pending records;
          terminal = filter (\<lambda>r. \<not> is_pending r \<and>
            now - ar_updatedAt r \<le> ACP_AUTHORITY_TERMINAL_RETENTION_MILLIS) records;
          retainedTerminal = take MAX_TERMINAL_RECORDS (sort_key (\<lambda>r. - ar_updatedAt r) terminal)
      in take ACP_AUTHORITY_MAX_PENDING_PER_WORKSPACE pending @ retainedTerminal)"

definition compactRecords ::
    "authority_record list \<Rightarrow> int \<Rightarrow> authority_error + authority_record list" where
  "compactRecords records now =
     (let compacted = compacted_records now records
      in case assertAuthorityRecordBounds compacted of Inl e \<Rightarrow> Inl e | Inr _ \<Rightarrow> Inr compacted)"

definition transact ::
    "int \<Rightarrow> (authority_record list \<Rightarrow> 'a \<times> authority_record list) \<Rightarrow> authority_record list
      \<Rightarrow> authority_error + ('a \<times> authority_record list)" where
  "transact now update current =
     (case update current of
        (value, records) \<Rightarrow>
          (case compactRecords records now of
             Inl e \<Rightarrow> Inl e
           | Inr compacted \<Rightarrow> Inr (value, compacted)))"

section \<open>What compaction keeps\<close>

lemma pending_count_filter: "pending_count key v rs = length (filter (\<lambda>r. is_pending r \<and> key r = v) rs)"
  by (induction rs) simp_all

lemma pending_count_append [simp]: "pending_count key v (rs @ ss) = pending_count key v rs + pending_count key v ss"
  by (induction rs) simp_all

lemma pending_count_le: "pending_count key v rs \<le> length (filter is_pending rs)"
  by (induction rs) auto

lemma pending_count_none: "\<forall>r\<in>set rs. \<not> is_pending r \<Longrightarrow> pending_count key v rs = 0"
  by (induction rs) auto

lemma pending_count_take: "pending_count key v (take n rs) \<le> pending_count key v rs"
  by (induction rs arbitrary: n) (auto simp: take_Cons' intro: le_SucI)

lemma pending_count_pending: "pending_count key v (filter is_pending rs) = pending_count key v rs"
  by (induction rs) auto

lemma compacted_parts:
  "\<exists>ts. compacted_records now rs = take ACP_AUTHORITY_MAX_PENDING_PER_WORKSPACE (filter is_pending rs) @ ts \<and>
     length ts \<le> MAX_TERMINAL_RECORDS \<and> (\<forall>t\<in>set ts. \<not> is_pending t \<and> t \<in> set rs)"
  unfolding compacted_records_def Let_def
  by (rule exI, rule conjI, rule refl) (auto dest: in_set_takeD)

lemma compacted_pending:
  "filter is_pending (compacted_records now rs) =
     take ACP_AUTHORITY_MAX_PENDING_PER_WORKSPACE (filter is_pending rs)"
proof -
  obtain ts where ts: "compacted_records now rs
      = take ACP_AUTHORITY_MAX_PENDING_PER_WORKSPACE (filter is_pending rs) @ ts"
    "\<forall>t\<in>set ts. \<not> is_pending t"
    using compacted_parts by blast
  have "filter is_pending (take n (filter is_pending rs)) = take n (filter is_pending rs)" for n
    by (auto simp: filter_id_conv dest: in_set_takeD)
  with ts(2) show ?thesis unfolding ts(1) by (simp add: filter_empty_conv)
qed

lemma compacted_subset: "r \<in> set (compacted_records now rs) \<Longrightarrow> r \<in> set rs"
proof -
  assume r: "r \<in> set (compacted_records now rs)"
  obtain ts where "compacted_records now rs
      = take ACP_AUTHORITY_MAX_PENDING_PER_WORKSPACE (filter is_pending rs) @ ts" "\<forall>t\<in>set ts. t \<in> set rs"
    using compacted_parts by blast
  with r show ?thesis by (auto dest: in_set_takeD)
qed

lemma compacted_length: "length (compacted_records now rs) \<le> MAX_AUTHORITY_RECORDS"
  using compacted_parts [of now rs] by (auto simp: MAX_AUTHORITY_RECORDS_def)

lemma compacted_count: "pending_count key v (compacted_records now rs) \<le> pending_count key v rs"
proof -
  have "pending_count key v (compacted_records now rs) = pending_count key v (filter is_pending (compacted_records now rs))"
    by (simp add: pending_count_pending)
  also have "\<dots> \<le> pending_count key v (filter is_pending rs)"
    unfolding compacted_pending by (rule pending_count_take)
  finally show ?thesis by (simp add: pending_count_pending)
qed

text \<open>What the bounds check accepts, as a statement about counts.\<close>

definition within_bounds :: "authority_record list \<Rightarrow> bool" where
  "within_bounds rs \<longleftrightarrow> assertAuthorityRecordBounds rs = Inr ()"

definition counts_ok :: "authority_record list \<Rightarrow> bool" where
  "counts_ok rs \<longleftrightarrow>
     (\<forall>v. pending_count ar_conversationDigest v rs \<le> ACP_AUTHORITY_MAX_PENDING_PER_CONVERSATION \<and>
          pending_count ar_turnDigest v rs \<le> ACP_AUTHORITY_MAX_PENDING_PER_TURN \<and>
          pending_count ar_workspaceDigest v rs \<le> ACP_AUTHORITY_MAX_PENDING_PER_WORKSPACE)"

lemma some_count_above_iff: "some_count_above n key rs \<longleftrightarrow> (\<exists>v. n < pending_count key v rs)"
proof
  assume "\<exists>v. n < pending_count key v rs"
  then obtain v where v: "n < pending_count key v rs" ..
  then have "filter (\<lambda>r. is_pending r \<and> key r = v) rs \<noteq> []" by (auto simp: pending_count_filter)
  then obtain r where "r \<in> set rs" "is_pending r" "key r = v" by (auto simp: filter_empty_conv)
  with v show "some_count_above n key rs" by (auto simp: some_count_above_def list_ex_iff)
qed (auto simp: some_count_above_def list_ex_iff)

lemma counts_ok_iff:
  "counts_ok rs \<longleftrightarrow>
     \<not> some_count_above ACP_AUTHORITY_MAX_PENDING_PER_CONVERSATION ar_conversationDigest rs \<and>
     \<not> some_count_above ACP_AUTHORITY_MAX_PENDING_PER_TURN ar_turnDigest rs \<and>
     \<not> some_count_above ACP_AUTHORITY_MAX_PENDING_PER_WORKSPACE ar_workspaceDigest rs"
  unfolding counts_ok_def some_count_above_iff not_ex not_less by blast

lemma within_bounds_iff:
  "within_bounds rs \<longleftrightarrow> length rs \<le> MAX_AUTHORITY_RECORDS \<and>
     length (filter is_pending rs) \<le> ACP_AUTHORITY_MAX_PENDING_PER_WORKSPACE \<and> counts_ok rs"
  by (simp add: within_bounds_def assertAuthorityRecordBounds_def counts_ok_iff not_less)

lemma compacted_within_bounds:
  assumes "counts_ok rs"
  shows "within_bounds (compacted_records now rs)"
proof -
  have "counts_ok (compacted_records now rs)"
    using assms compacted_count order.trans unfolding counts_ok_def by metis
  moreover have "length (filter is_pending (compacted_records now rs)) \<le> ACP_AUTHORITY_MAX_PENDING_PER_WORKSPACE"
    by (simp add: compacted_pending)
  ultimately show ?thesis using compacted_length by (simp add: within_bounds_iff)
qed

lemma compactRecords_Inr:
  "compactRecords rs now = Inr cs \<longleftrightarrow> cs = compacted_records now rs \<and> within_bounds (compacted_records now rs)"
  by (auto simp: compactRecords_def within_bounds_def Let_def split: sum.split)

text \<open>An update that adds a record only under the capacity rule never fails.\<close>

lemma capacity_counts:
  assumes "counts_ok rs" and "pendingPermissionCapacityExceeded rs r = None"
  shows "counts_ok (rs @ [r])"
  using assms
  by (auto simp: counts_ok_def pendingPermissionCapacityExceeded_def Let_def not_le Suc_le_eq
      split: if_splits)

lemma transact_Inr:
  assumes "counts_ok (snd (update rs))"
  shows "transact now update rs = Inr (fst (update rs), compacted_records now (snd (update rs)))"
proof -
  have "compactRecords (snd (update rs)) now = Inr (compacted_records now (snd (update rs)))"
    using compacted_within_bounds [OF assms] by (simp add: compactRecords_Inr)
  then show ?thesis by (simp add: transact_def case_prod_beta)
qed

lemma transact_bounds: "transact now update rs = Inr (v, rs') \<Longrightarrow> within_bounds rs'"
  by (auto simp: transact_def compactRecords_Inr split: prod.splits sum.splits)

lemma transact_result:
  "transact now update rs = Inr (v, rs') \<Longrightarrow>
     v = fst (update rs) \<and> rs' = compacted_records now (snd (update rs))"
  by (auto simp: transact_def compactRecords_Inr split: prod.splits sum.splits)

text \<open>A pending record survives unless more than the limit of one workspace are pending.\<close>

lemma pending_kept:
  assumes "r \<in> set rs" and "is_pending r"
    and "length (filter is_pending rs) \<le> ACP_AUTHORITY_MAX_PENDING_PER_WORKSPACE"
  shows "r \<in> set (compacted_records now rs)"
proof -
  have "r \<in> set (filter is_pending (compacted_records now rs))"
    unfolding compacted_pending using assms by simp
  then show ?thesis by simp
qed

text \<open>With the limit reached in several workspaces together, the newest pending record is dropped.\<close>

lemma newest_pending_dropped:
  assumes "length (filter is_pending rs) = ACP_AUTHORITY_MAX_PENDING_PER_WORKSPACE" and "is_pending r"
    and "r \<notin> set rs"
  shows "r \<notin> set (compacted_records now (rs @ [r]))"
proof -
  have "filter is_pending (compacted_records now (rs @ [r])) = filter is_pending rs"
    using assms(1) by (simp add: compacted_pending)
  then have "r \<notin> set (filter is_pending (compacted_records now (rs @ [r])))" using assms(3) by simp
  then show ?thesis using assms(2) by simp
qed

end
