(* ===== verification/Permission_Broker.thy ===== *)
theory Permission_Broker
  imports Permission_Authority
begin

text \<open>
  The permission broker of the bot, \<open>apps/bot/src/acp-runtime/acp-permission-broker.ts\<close>. An agent
  asks for a permission, the user who started the turn answers in Slack. Everything under the
  broker's semaphore is one function on its state; what runs between two such sections is a step
  of its own. Live permissions are objects shared by two maps, so they are kept in a store and
  the maps hold references. A turn authority is compared by identity, which \<open>pa_ref\<close> stands for.
  The keyed digests (of values and of the JSON text of objects), the random capability and
  presentation marker and the clock are arguments; a defect (\<open>orDie\<close>) is \<open>None\<close>.
\<close>

definition DEFAULT_PERMISSION_TIMEOUT_MILLIS :: int where
  "DEFAULT_PERMISSION_TIMEOUT_MILLIS = 5 * 60 * 1000"

definition ACP_PERMISSION_ALLOW_ACTION_ID :: string where
  "ACP_PERMISSION_ALLOW_ACTION_ID = ''laborer_permission_allow_once''"

definition ACP_PERMISSION_REJECT_ACTION_ID :: string where
  "ACP_PERMISSION_REJECT_ACTION_ID = ''laborer_permission_reject_once''"

record turn_authority =
  pa_ref :: nat
  pa_bindingGeneration :: nat
  pa_channelId :: string
  pa_conversationId :: string
  pa_processGeneration :: nat
  pa_promptId :: string
  pa_rootTs :: string
  pa_sessionId :: string
  pa_turnId :: string
  pa_workspaceId :: string
  pa_authorizedSlackUserId :: "string option"

record permission_option =
  po_kind :: string
  po_optionId :: string

record tool_call =
  tc_toolCallId :: string
  tc_kind :: "string option"
  tc_content :: string

record permission_request =
  rq_sessionId :: string
  rq_options :: "permission_option list"
  rq_toolCall :: tool_call

datatype permission_response = CancelledOutcome | SelectedOutcome string

datatype interaction_result = Claimed | Ignored | Retry

record interaction =
  in_actionId :: string
  in_capability :: string
  in_channelId :: string
  in_messageTs :: string
  in_rootTs :: string
  in_slackUserId :: string
  in_workspaceId :: string

record live_permission =
  lp_allowOptionId :: string
  lp_argumentDigest :: string
  lp_authority :: turn_authority
  lp_capability :: string
  lp_capabilityDigest :: string
  lp_category :: permission_category
  lp_expiresAt :: int
  lp_inputDigest :: string
  lp_messageTs :: "string option"
  lp_presentationMarker :: string
  lp_recordId :: string
  lp_rejectOptionId :: string
  lp_requestIdentityDigest :: string
  lp_toolCallDigest :: string

record claim_decision =
  de_intent :: decision_intent
  de_optionId :: string
  de_state :: permission_state

datatype presentation_state = ShownAllowed | ShownCancelled | ShownExpired | ShownRejected

record digests =
  dg_digest :: "string \<Rightarrow> string \<Rightarrow> string"
  dg_identity :: "string \<Rightarrow> string \<Rightarrow> string \<Rightarrow> string \<Rightarrow> string"
  dg_arguments :: "tool_call \<Rightarrow> string"
  dg_input :: "permission_option list \<Rightarrow> tool_call \<Rightarrow> string"
  dg_message :: "string \<Rightarrow> string \<Rightarrow> string option \<Rightarrow> string"

record broker =
  pb_activeTurns :: "string \<Rightarrow> turn_authority option"
  pb_closedTurns :: "nat set"
  pb_heap :: "nat \<Rightarrow> live_permission option"
  pb_nextRef :: nat
  pb_byCapability :: "(string \<times> nat) list"
  pb_byRequestIdentity :: "string \<Rightarrow> nat option"
  pb_completions :: "string \<Rightarrow> (nat \<times> claim_decision) option"
  pb_messageReady :: "nat set"
  pb_decisions :: "nat \<Rightarrow> permission_response option"
  pb_records :: "authority_record list"
  pb_presented :: "(string \<times> presentation_state) list"

section \<open>Pure parts\<close>

definition permissionPreparationContext ::
    "turn_authority option \<Rightarrow> permission_request
      \<Rightarrow> (turn_authority \<times> string \<times> permission_option \<times> permission_option) option" where
  "permissionPreparationContext authority request =
     (case authority of
        None \<Rightarrow> None
      | Some a \<Rightarrow>
          (case pa_authorizedSlackUserId a of
             None \<Rightarrow> None
           | Some user \<Rightarrow>
               (case (find (\<lambda>opt. po_kind opt = ''allow_once'') (rq_options request),
                      find (\<lambda>opt. po_kind opt = ''reject_once'') (rq_options request)) of
                  (Some allowOption, Some rejectOption) \<Rightarrow> Some (a, user, allowOption, rejectOption)
                | _ \<Rightarrow> None)))"

definition safeCategory :: "string option \<Rightarrow> permission_category" where
  "safeCategory kind =
     (if kind = Some ''execute'' then Shell
      else if kind \<in> {Some ''edit'', Some ''delete'', Some ''move''} then FileEdit
      else if kind \<in> {Some ''read'', Some ''search''} then FileRead
      else if kind = Some ''fetch'' then Network
      else GuardedTool)"

text \<open>The candidate is an integer; one that is not a safe integer is passed as \<open>None\<close>.\<close>

definition positiveTimeout :: "int option \<Rightarrow> int" where
  "positiveTimeout candidate =
     (case candidate of
        Some n \<Rightarrow> if 0 < n then n else DEFAULT_PERMISSION_TIMEOUT_MILLIS
      | None \<Rightarrow> DEFAULT_PERMISSION_TIMEOUT_MILLIS)"

definition terminalRecord :: "authority_record \<Rightarrow> permission_state \<Rightarrow> int \<Rightarrow> authority_record" where
  "terminalRecord record' state now = record'\<lparr>ar_state := state, ar_updatedAt := now\<rparr>"

definition interactionMatchesPermission ::
    "interaction \<Rightarrow> live_permission \<Rightarrow> turn_authority option \<Rightarrow> bool" where
  "interactionMatchesPermission i permission active \<longleftrightarrow>
     active = Some (lp_authority permission) \<and>
     pa_workspaceId (lp_authority permission) = in_workspaceId i \<and>
     pa_channelId (lp_authority permission) = in_channelId i \<and>
     pa_rootTs (lp_authority permission) = in_rootTs i \<and>
     pa_authorizedSlackUserId (lp_authority permission) = Some (in_slackUserId i) \<and>
     lp_messageTs permission = Some (in_messageTs i)"

definition decisionForInteraction :: "interaction \<Rightarrow> live_permission \<Rightarrow> claim_decision option" where
  "decisionForInteraction i permission =
     (if in_actionId i = ACP_PERMISSION_ALLOW_ACTION_ID
      then Some \<lparr>de_intent = Allow, de_optionId = lp_allowOptionId permission, de_state = Allowed\<rparr>
      else if in_actionId i = ACP_PERMISSION_REJECT_ACTION_ID
      then Some \<lparr>de_intent = Reject, de_optionId = lp_rejectOptionId permission, de_state = Rejected\<rparr>
      else None)"

definition authorityRecordMatches ::
    "digests \<Rightarrow> int option \<Rightarrow> live_permission \<Rightarrow> authority_record \<Rightarrow> bool" where
  "authorityRecordMatches dg currentTime permission r \<longleftrightarrow>
     (let a = lp_authority permission;
          digest = dg_digest dg
      in (case currentTime of None \<Rightarrow> True | Some t \<Rightarrow> t < ar_expiresAt r) \<and>
         ar_capabilityDigest r = lp_capabilityDigest permission \<and>
         ar_inputDigest r = lp_inputDigest permission \<and>
         ar_argumentDigest r = lp_argumentDigest permission \<and>
         ar_workspaceDigest r = digest ''workspace'' (pa_workspaceId a) \<and>
         ar_channelDigest r = digest ''slack-channel'' (pa_channelId a) \<and>
         ar_rootDigest r = digest ''slack-root'' (pa_rootTs a) \<and>
         ar_conversationDigest r = digest ''conversation'' (pa_conversationId a) \<and>
         ar_sessionDigest r = digest ''acp-session'' (pa_sessionId a) \<and>
         ar_turnDigest r = digest ''turn'' (pa_turnId a) \<and>
         ar_promptDigest r = digest ''prompt'' (pa_promptId a) \<and>
         ar_authorizedUserDigest r = digest ''slack-user''
           (case pa_authorizedSlackUserId a of Some u \<Rightarrow> u | None \<Rightarrow> '''') \<and>
         ar_optionAllowDigest r = digest ''permission-option'' (lp_allowOptionId permission) \<and>
         ar_optionRejectDigest r = digest ''permission-option'' (lp_rejectOptionId permission) \<and>
         ar_presentationMarkerDigest r =
           Some (digest ''permission-presentation-marker'' (lp_presentationMarker permission)) \<and>
         ar_messageDigest r = Some (dg_message dg (pa_channelId a) (pa_rootTs a) (lp_messageTs permission)) \<and>
         ar_toolCallDigest r = lp_toolCallDigest permission \<and>
         ar_requestIdentityDigest r = lp_requestIdentityDigest permission \<and>
         ar_bindingGeneration r = pa_bindingGeneration a \<and>
         ar_processGeneration r = pa_processGeneration a)"

definition decisionRecordMatches ::
    "digests \<Rightarrow> authority_record \<Rightarrow> live_permission \<Rightarrow> claim_decision \<Rightarrow> bool" where
  "decisionRecordMatches dg r permission decision \<longleftrightarrow>
     ar_decisionIntent r = Some (de_intent decision) \<and>
     (case ar_decisionClaimedAt r of None \<Rightarrow> False | Some t \<Rightarrow> t \<le> ar_expiresAt r) \<and>
     authorityRecordMatches dg None permission r"

section \<open>Settling\<close>

definition removeLive :: "nat \<Rightarrow> live_permission \<Rightarrow> broker \<Rightarrow> broker" where
  "removeLive ref permission s =
     s\<lparr>pb_byCapability := filter (\<lambda>e. fst e \<noteq> lp_capability permission) (pb_byCapability s),
       pb_byRequestIdentity :=
         (if pb_byRequestIdentity s (lp_requestIdentityDigest permission) = Some ref
          then (pb_byRequestIdentity s)(lp_requestIdentityDigest permission := None)
          else pb_byRequestIdentity s)\<rparr>"

text \<open>\<open>Deferred.succeed\<close>: the first completion stays.\<close>

definition succeed :: "nat \<Rightarrow> permission_response \<Rightarrow> broker \<Rightarrow> broker" where
  "succeed ref response s =
     (if pb_decisions s ref = None
      then s\<lparr>pb_decisions := (pb_decisions s)(ref \<mapsto> response)\<rparr> else s)"

definition settle_update ::
    "string \<Rightarrow> permission_state \<Rightarrow> int \<Rightarrow> authority_record list \<Rightarrow> bool \<times> authority_record list" where
  "settle_update recordId state settledAt records =
     (list_ex (\<lambda>r. ar_recordId r = recordId \<and> (ar_state r = state \<or> ar_state r = Pending)) records,
      map (\<lambda>r. if ar_recordId r = recordId \<and> ar_state r \<noteq> state \<and> ar_state r = Pending
               then terminalRecord r state settledAt else r) records)"

definition settleLive ::
    "int \<Rightarrow> nat \<Rightarrow> permission_state \<Rightarrow> permission_response \<Rightarrow> presentation_state \<Rightarrow> broker
      \<Rightarrow> (bool \<times> broker) option" where
  "settleLive now ref state response presentation s =
     (case pb_heap s ref of
        None \<Rightarrow> Some (False, s)
      | Some permission \<Rightarrow>
          (case transact now (settle_update (lp_recordId permission) state now) (pb_records s) of
             Inl _ \<Rightarrow> None
           | Inr (settled, records) \<Rightarrow>
               (let s1 = s\<lparr>pb_records := records\<rparr>
                in if \<not> settled then Some (False, s1)
                   else
                     (let s2 = (removeLive ref permission s1)
                            \<lparr>pb_messageReady := insert ref (pb_messageReady s),
                             pb_presented := pb_presented s @ [(lp_presentationMarker permission, presentation)]\<rparr>
                      in Some (True, succeed ref response s2)))))"

fun settle_all :: "int \<Rightarrow> nat list \<Rightarrow> broker \<Rightarrow> broker option" where
  "settle_all now [] s = Some s"
| "settle_all now (ref # refs) s =
     (case settleLive now ref Cancelled CancelledOutcome ShownCancelled s of
        None \<Rightarrow> None
      | Some (_, s') \<Rightarrow> settle_all now refs s')"

definition cancelMatching :: "int \<Rightarrow> (live_permission \<Rightarrow> bool) \<Rightarrow> broker \<Rightarrow> broker option" where
  "cancelMatching now predicate s =
     settle_all now
       (filter (\<lambda>ref. case pb_heap s ref of Some p \<Rightarrow> predicate p | None \<Rightarrow> False)
         (map snd (pb_byCapability s))) s"

definition activateTurn :: "int \<Rightarrow> turn_authority \<Rightarrow> broker \<Rightarrow> broker option" where
  "activateTurn now authority s =
     map_option (\<lambda>s. s\<lparr>pb_activeTurns := (pb_activeTurns s)(pa_sessionId authority \<mapsto> authority)\<rparr>)
       (cancelMatching now (\<lambda>p. pa_sessionId (lp_authority p) = pa_sessionId authority) s)"

definition close_turn :: "int \<Rightarrow> turn_authority \<Rightarrow> broker \<Rightarrow> broker option" where
  "close_turn now authority s =
     (if pa_ref authority \<in> pb_closedTurns s then Some s
      else
        (let s1 = s\<lparr>pb_closedTurns := insert (pa_ref authority) (pb_closedTurns s)\<rparr>;
             s2 = (if pb_activeTurns s1 (pa_sessionId authority) = Some authority
                   then s1\<lparr>pb_activeTurns := (pb_activeTurns s1)(pa_sessionId authority := None)\<rparr> else s1)
         in cancelMatching now (\<lambda>p. lp_authority p = authority) s2))"

definition cancelAll :: "int \<Rightarrow> broker \<Rightarrow> broker option" where
  "cancelAll now s = cancelMatching now (\<lambda>_. True) (s\<lparr>pb_activeTurns := Map.empty\<rparr>)"

text \<open>The broker at start-up: what was still pending is cancelled.\<close>

definition make_broker :: "int \<Rightarrow> authority_record list \<Rightarrow> broker option" where
  "make_broker now stored =
     (case transact now (\<lambda>records. let updated =
              map (\<lambda>r. if ar_state r = Pending then terminalRecord r Cancelled now else r) records
            in (updated, updated)) stored of
        Inl _ \<Rightarrow> None
      | Inr (_, records) \<Rightarrow>
          Some \<lparr>pb_activeTurns = Map.empty, pb_closedTurns = {}, pb_heap = Map.empty, pb_nextRef = 0,
            pb_byCapability = [], pb_byRequestIdentity = Map.empty, pb_completions = Map.empty,
            pb_messageReady = {}, pb_decisions = Map.empty, pb_records = records, pb_presented = []\<rparr>)"

section \<open>Requests\<close>

datatype preparation = PrepCancelled | PrepAttached nat | PrepCreated nat

definition new_permission ::
    "digests \<Rightarrow> turn_authority \<Rightarrow> permission_option \<Rightarrow> permission_option \<Rightarrow> tool_call \<Rightarrow> string \<Rightarrow> string
      \<Rightarrow> string \<Rightarrow> string \<Rightarrow> string \<Rightarrow> int \<Rightarrow> live_permission" where
  "new_permission dg authority allowOption rejectOption toolCall identityDigest inputDigest
      token tokenDigest marker expiresAt =
     \<lparr>lp_allowOptionId = po_optionId allowOption,
      lp_argumentDigest = dg_arguments dg toolCall,
      lp_authority = authority,
      lp_capability = token,
      lp_capabilityDigest = tokenDigest,
      lp_category = safeCategory (tc_kind toolCall),
      lp_expiresAt = expiresAt,
      lp_inputDigest = inputDigest,
      lp_messageTs = None,
      lp_presentationMarker = marker,
      lp_recordId = dg_digest dg ''permission-record'' (identityDigest @ [CHR 0x00] @ tokenDigest),
      lp_rejectOptionId = po_optionId rejectOption,
      lp_requestIdentityDigest = identityDigest,
      lp_toolCallDigest = dg_digest dg ''tool-call'' (tc_toolCallId toolCall)\<rparr>"

definition new_record :: "digests \<Rightarrow> live_permission \<Rightarrow> string \<Rightarrow> int \<Rightarrow> authority_record" where
  "new_record dg permission user createdAt =
     (let a = lp_authority permission; digest = dg_digest dg
      in \<lparr>ar_argumentDigest = lp_argumentDigest permission,
          ar_authorizedUserDigest = digest ''slack-user'' user,
          ar_bindingGeneration = pa_bindingGeneration a,
          ar_capabilityDigest = lp_capabilityDigest permission,
          ar_category = lp_category permission,
          ar_channelDigest = digest ''slack-channel'' (pa_channelId a),
          ar_conversationDigest = digest ''conversation'' (pa_conversationId a),
          ar_createdAt = createdAt,
          ar_expiresAt = lp_expiresAt permission,
          ar_decisionClaimedAt = None,
          ar_decisionIntent = None,
          ar_inputDigest = lp_inputDigest permission,
          ar_messageDigest = None,
          ar_optionAllowDigest = digest ''permission-option'' (lp_allowOptionId permission),
          ar_optionRejectDigest = digest ''permission-option'' (lp_rejectOptionId permission),
          ar_presentationMarkerDigest =
            Some (digest ''permission-presentation-marker'' (lp_presentationMarker permission)),
          ar_processGeneration = pa_processGeneration a,
          ar_promptDigest = digest ''prompt'' (pa_promptId a),
          ar_recordId = lp_recordId permission,
          ar_requestIdentityDigest = lp_requestIdentityDigest permission,
          ar_rootDigest = digest ''slack-root'' (pa_rootTs a),
          ar_sessionDigest = digest ''acp-session'' (pa_sessionId a),
          ar_state = Pending,
          ar_toolCallDigest = lp_toolCallDigest permission,
          ar_turnDigest = digest ''turn'' (pa_turnId a),
          ar_updatedAt = createdAt,
          ar_workspaceDigest = digest ''workspace'' (pa_workspaceId a)\<rparr>)"

definition insert_record ::
    "authority_record \<Rightarrow> authority_record list \<Rightarrow> capacity_scope option \<times> authority_record list" where
  "insert_record r records =
     (let exceeded = pendingPermissionCapacityExceeded records r
      in (exceeded, if exceeded = None then records @ [r] else records))"

text \<open>The first section of \<open>request\<close>: refused, attached to an equal request, or created.\<close>

definition prepare_request ::
    "digests \<Rightarrow> int \<Rightarrow> string \<Rightarrow> string \<Rightarrow> int \<Rightarrow> permission_request \<Rightarrow> broker
      \<Rightarrow> (preparation \<times> broker) option" where
  "prepare_request dg timeoutMillis token marker now request s =
     (case permissionPreparationContext (pb_activeTurns s (rq_sessionId request)) request of
        None \<Rightarrow> Some (PrepCancelled, s)
      | Some (authority, user, allowOption, rejectOption) \<Rightarrow>
          (let toolCall = rq_toolCall request;
               identityDigest = dg_identity dg (pa_promptId authority) (pa_sessionId authority)
                 (tc_toolCallId toolCall) (pa_turnId authority);
               inputDigest = dg_input dg (rq_options request) toolCall
           in case pb_byRequestIdentity s identityDigest of
                Some existing \<Rightarrow>
                  if map_option lp_inputDigest (pb_heap s existing) = Some inputDigest
                  then Some (PrepAttached existing, s)
                  else map_option (\<lambda>(_, s'). (PrepCancelled, s'))
                         (settleLive now existing Cancelled CancelledOutcome ShownCancelled s)
              | None \<Rightarrow>
                  (let tokenDigest = dg_digest dg ''permission-capability'' token;
                       permission = new_permission dg authority allowOption rejectOption toolCall
                         identityDigest inputDigest token tokenDigest marker (now + timeoutMillis);
                       r = new_record dg permission user now
                   in case transact now (insert_record r) (pb_records s) of
                        Inl _ \<Rightarrow> None
                      | Inr (Some _, records) \<Rightarrow> Some (PrepCancelled, s\<lparr>pb_records := records\<rparr>)
                      | Inr (None, records) \<Rightarrow>
                          Some (PrepCreated (pb_nextRef s),
                            s\<lparr>pb_records := records,
                              pb_heap := (pb_heap s)(pb_nextRef s \<mapsto> permission),
                              pb_nextRef := pb_nextRef s + 1,
                              pb_byCapability := pb_byCapability s @ [(token, pb_nextRef s)],
                              pb_byRequestIdentity :=
                                (pb_byRequestIdentity s)(identityDigest \<mapsto> pb_nextRef s)\<rparr>))))"

text \<open>
  Later in \<open>request\<close>: the message was posted, could not be posted or interrupted, or the time is up.
\<close>

definition bind_update ::
    "string \<Rightarrow> string \<Rightarrow> authority_record list \<Rightarrow> unit \<times> authority_record list" where
  "bind_update recordId messageDigest records =
     ((), map (\<lambda>r. if ar_recordId r = recordId \<and> ar_state r = Pending
                   then r\<lparr>ar_messageDigest := Some messageDigest\<rparr> else r) records)"

definition bind_message :: "digests \<Rightarrow> int \<Rightarrow> nat \<Rightarrow> string \<Rightarrow> broker \<Rightarrow> (bool \<times> broker) option" where
  "bind_message dg now ref messageTs s =
     (case pb_heap s ref of
        None \<Rightarrow> Some (False, s)
      | Some permission \<Rightarrow>
          if map_of (pb_byCapability s) (lp_capability permission) \<noteq> Some ref
          then Some (False, s\<lparr>pb_presented := pb_presented s @
                 [(lp_presentationMarker permission, ShownCancelled)]\<rparr>)
          else
            (let permission' = permission\<lparr>lp_messageTs := Some messageTs\<rparr>;
                 messageDigest = dg_message dg (pa_channelId (lp_authority permission))
                   (pa_rootTs (lp_authority permission)) (Some messageTs)
             in case transact now (bind_update (lp_recordId permission) messageDigest) (pb_records s) of
                  Inl _ \<Rightarrow> None
                | Inr (_, records) \<Rightarrow>
                    Some (True, s\<lparr>pb_heap := (pb_heap s)(ref \<mapsto> permission'), pb_records := records,
                      pb_messageReady := insert ref (pb_messageReady s)\<rparr>)))"

definition expire_request :: "int \<Rightarrow> nat \<Rightarrow> broker \<Rightarrow> (bool \<times> broker) option" where
  "expire_request now ref s = settleLive now ref Cancelled CancelledOutcome ShownExpired s"

definition abandon_request :: "int \<Rightarrow> nat \<Rightarrow> broker \<Rightarrow> (bool \<times> broker) option" where
  "abandon_request now ref s = settleLive now ref Cancelled CancelledOutcome ShownCancelled s"

section \<open>Interactions\<close>

text \<open>
  A transaction of the claim may fail, before or after the file was replaced; then the records are
  read again, which may fail too.
\<close>

datatype txn_io = TxnOk | TxnFailed bool

definition run_transact ::
    "txn_io \<Rightarrow> int \<Rightarrow> (authority_record list \<Rightarrow> 'a \<times> authority_record list) \<Rightarrow> authority_record list
      \<Rightarrow> 'a option \<times> authority_record list" where
  "run_transact io now update records =
     (case transact now update records of
        Inl _ \<Rightarrow> (None, records)
      | Inr (value, records') \<Rightarrow>
          (case io of
             TxnOk \<Rightarrow> (Some value, records')
           | TxnFailed written \<Rightarrow> (None, if written then records' else records)))"

definition find_record :: "string \<Rightarrow> authority_record list \<Rightarrow> authority_record option" where
  "find_record recordId records = find (\<lambda>r. ar_recordId r = recordId) records"

definition claim_update ::
    "digests \<Rightarrow> live_permission \<Rightarrow> claim_decision \<Rightarrow> int \<Rightarrow> authority_record list
      \<Rightarrow> interaction_result \<times> authority_record list" where
  "claim_update dg permission decision currentTime records =
     (case find_record (lp_recordId permission) records of
        None \<Rightarrow> (Ignored, records)
      | Some r \<Rightarrow>
          if decisionRecordMatches dg r permission decision \<and>
             (ar_state r = Pending \<or> ar_state r = de_state decision)
          then (Claimed, records)
          else if ar_state r \<noteq> Pending \<or> \<not> authorityRecordMatches dg (Some currentTime) permission r
          then (Ignored, records)
          else if ar_decisionIntent r = Some (de_intent decision) then (Claimed, records)
          else if ar_decisionIntent r \<noteq> None then (Ignored, records)
          else (Claimed, map (\<lambda>c. if ar_recordId c = lp_recordId permission
                 then c\<lparr>ar_decisionClaimedAt := Some currentTime,
                        ar_decisionIntent := Some (de_intent decision),
                        ar_updatedAt := currentTime\<rparr>
                 else c) records))"

definition persist_update ::
    "digests \<Rightarrow> live_permission \<Rightarrow> claim_decision \<Rightarrow> int \<Rightarrow> authority_record list
      \<Rightarrow> interaction_result \<times> authority_record list" where
  "persist_update dg permission decision settledAt records =
     (case find_record (lp_recordId permission) records of
        None \<Rightarrow> (Ignored, records)
      | Some r \<Rightarrow>
          if \<not> decisionRecordMatches dg r permission decision then (Ignored, records)
          else if ar_state r = de_state decision then (Claimed, records)
          else if ar_state r \<noteq> Pending then (Ignored, records)
          else (Claimed, map (\<lambda>c. if ar_recordId c = lp_recordId permission
                 then terminalRecord c (de_state decision) settledAt else c) records))"

definition persistClaimOutcome ::
    "digests \<Rightarrow> txn_io \<Rightarrow> bool \<Rightarrow> int \<Rightarrow> live_permission \<Rightarrow> claim_decision \<Rightarrow> authority_record list
      \<Rightarrow> interaction_result \<times> authority_record list" where
  "persistClaimOutcome dg io reread now permission decision records =
     (case run_transact io now (persist_update dg permission decision now) records of
        (Some outcome, records') \<Rightarrow> (outcome, records')
      | (None, records') \<Rightarrow>
          if \<not> reread then (Retry, records')
          else
            (case find_record (lp_recordId permission) records' of
               None \<Rightarrow> (Retry, records')
             | Some r \<Rightarrow>
                 if ar_state r \<noteq> de_state decision \<or> \<not> decisionRecordMatches dg r permission decision
                 then (Retry, records')
                 else (Claimed, records')))"

definition startSharedCompletion ::
    "digests \<Rightarrow> txn_io \<Rightarrow> bool \<Rightarrow> int \<Rightarrow> nat \<Rightarrow> live_permission \<Rightarrow> claim_decision \<Rightarrow> broker
      \<Rightarrow> interaction_result \<times> broker" where
  "startSharedCompletion dg io reread now ref permission decision s =
     (case pb_completions s (lp_recordId permission) of
        Some _ \<Rightarrow> (Claimed, s)
      | None \<Rightarrow>
          (case persistClaimOutcome dg io reread now permission decision (pb_records s) of
             (outcome, records) \<Rightarrow>
               (outcome,
                s\<lparr>pb_records := records,
                  pb_completions :=
                    (if outcome = Claimed
                     then (pb_completions s)(lp_recordId permission \<mapsto> (ref, decision))
                     else pb_completions s)\<rparr>)))"

text \<open>
  \<open>claimInteraction\<close>, from the lookup after the message is ready; \<open>io\<close> and \<open>reread\<close> are what happens
  to the transaction of the claim, \<open>io'\<close> and \<open>reread'\<close> to the one of the outcome.
\<close>

definition claim_section ::
    "digests \<Rightarrow> txn_io \<Rightarrow> bool \<Rightarrow> txn_io \<Rightarrow> bool \<Rightarrow> int \<Rightarrow> nat \<Rightarrow> live_permission \<Rightarrow> claim_decision \<Rightarrow> broker
      \<Rightarrow> interaction_result \<times> broker" where
  "claim_section dg io reread io' reread' now ref permission decision s =
     (case run_transact io now (claim_update dg permission decision now) (pb_records s) of
        (Some outcome, records) \<Rightarrow>
          (let s1 = s\<lparr>pb_records := records\<rparr>
           in if outcome = Claimed
              then startSharedCompletion dg io' reread' now ref permission decision s1
              else (Ignored, s1))
      | (None, records) \<Rightarrow>
          (let s1 = s\<lparr>pb_records := records\<rparr>
           in if \<not> reread then (Retry, s1)
              else
                (case find_record (lp_recordId permission) records of
                   None \<Rightarrow> (Retry, s1)
                 | Some r \<Rightarrow>
                     if \<not> decisionRecordMatches dg r permission decision then (Retry, s1)
                     else if ar_state r = de_state decision \<or> ar_state r = Pending
                     then startSharedCompletion dg io' reread' now ref permission decision s1
                     else (Ignored, s1))))"

definition claimInteraction ::
    "digests \<Rightarrow> txn_io \<Rightarrow> bool \<Rightarrow> txn_io \<Rightarrow> bool \<Rightarrow> int \<Rightarrow> interaction \<Rightarrow> broker
      \<Rightarrow> interaction_result \<times> broker" where
  "claimInteraction dg io reread io' reread' now i s =
     (case map_of (pb_byCapability s) (in_capability i) of
        None \<Rightarrow> (Ignored, s)
      | Some ref \<Rightarrow>
          (case pb_heap s ref of
             None \<Rightarrow> (Ignored, s)
           | Some permission \<Rightarrow>
               if lp_messageTs permission = None then (Ignored, s)
               else
                 (case decisionForInteraction i permission of
                    None \<Rightarrow> (Ignored, s)
                  | Some decision \<Rightarrow>
                      if \<not> interactionMatchesPermission i permission
                            (pb_activeTurns s (pa_sessionId (lp_authority permission)))
                      then (Ignored, s)
                      else claim_section dg io reread io' reread' now ref permission decision s)))"

text \<open>The completion fiber after its outcome was published as claimed.\<close>

definition shown_state :: "permission_state \<Rightarrow> presentation_state" where
  "shown_state st = (case st of Allowed \<Rightarrow> ShownAllowed | Rejected \<Rightarrow> ShownRejected | _ \<Rightarrow> ShownCancelled)"

definition finish_completion :: "string \<Rightarrow> broker \<Rightarrow> broker" where
  "finish_completion recordId s =
     (case pb_completions s recordId of
        None \<Rightarrow> s
      | Some (ref, decision) \<Rightarrow>
          (case pb_heap s ref of
             None \<Rightarrow> s
           | Some permission \<Rightarrow>
               (let s1 = removeLive ref permission s
                in (succeed ref (SelectedOutcome (de_optionId decision))
                     (s1\<lparr>pb_messageReady := insert ref (pb_messageReady s1)\<rparr>))
                   \<lparr>pb_presented := pb_presented s @
                      [(lp_presentationMarker permission, shown_state (de_state decision))],
                    pb_completions := (pb_completions s)(recordId := None)\<rparr>)))"

end
