(* ===== verification/Permission_Facts.thy ===== *)
theory Permission_Facts
  imports Permission_Broker
begin

text \<open>
  The permission broker as a transition system. A state is the interactions received so far and the
  broker; a step is one section of the code. \<open>broker_reachable\<close> starts from the broker made from
  stored records. Two inductive invariants give the properties: who may have caused an answer, and
  how answers and stored records agree.
\<close>

named_theorems broker_ops

text \<open>
  A capability is a random token and a record id is a keyed digest of it: a new one differs from
  those in use. A request binds its message once.
\<close>

definition fresh_request :: "broker \<Rightarrow> live_permission \<Rightarrow> bool" where
  "fresh_request s p \<longleftrightarrow>
     lp_capability p \<notin> fst ` set (pb_byCapability s) \<and>
     lp_recordId p \<notin> ar_recordId ` set (pb_records s) \<and>
     (\<forall>ref q. pb_heap s ref = Some q \<longrightarrow> lp_recordId q \<noteq> lp_recordId p)"

definition unbound :: "broker \<Rightarrow> nat \<Rightarrow> bool" where
  "unbound s ref \<longleftrightarrow> (case pb_heap s ref of None \<Rightarrow> True | Some p \<Rightarrow> lp_messageTs p = None)"

inductive broker_step :: "digests \<Rightarrow> interaction list \<times> broker \<Rightarrow> interaction list \<times> broker \<Rightarrow> bool"
  for dg :: digests where
  activate: "activateTurn now a s = Some s' \<Longrightarrow> broker_step dg (h, s) (h, s')"
| close_turn: "close_turn now a s = Some s' \<Longrightarrow> broker_step dg (h, s) (h, s')"
| cancel_all: "cancelAll now s = Some s' \<Longrightarrow> broker_step dg (h, s) (h, s')"
| request: "prepare_request dg timeoutMillis token marker now rq s = Some (PrepCreated ref, s') \<Longrightarrow>
    pb_heap s' ref = Some p \<Longrightarrow> fresh_request s p \<Longrightarrow> broker_step dg (h, s) (h, s')"
| answered_request: "prepare_request dg timeoutMillis token marker now rq s = Some (prep, s') \<Longrightarrow>
    (\<And>ref. prep \<noteq> PrepCreated ref) \<Longrightarrow> broker_step dg (h, s) (h, s')"
| bind: "bind_message dg now ref ts s = Some (b, s') \<Longrightarrow> unbound s ref \<Longrightarrow> broker_step dg (h, s) (h, s')"
| expire: "expire_request now ref s = Some (b, s') \<Longrightarrow> broker_step dg (h, s) (h, s')"
| abandon: "abandon_request now ref s = Some (b, s') \<Longrightarrow> broker_step dg (h, s) (h, s')"
| interact: "claimInteraction dg io reread io' reread' now i s = (res, s') \<Longrightarrow>
    broker_step dg (h, s) (h @ [i], s')"
| completed: "broker_step dg (h, s) (h, finish_completion recordId s)"

inductive broker_reachable ::
    "digests \<Rightarrow> authority_record list \<Rightarrow> interaction list \<times> broker \<Rightarrow> bool"
  for dg :: digests and stored :: "authority_record list" where
  start: "make_broker now stored = Some s \<Longrightarrow> broker_reachable dg stored ([], s)"
| more: "broker_reachable dg stored c \<Longrightarrow> broker_step dg c c' \<Longrightarrow> broker_reachable dg stored c'"

section \<open>How the stored records change\<close>

text \<open>
  \<open>evolves rs rs'\<close>: every record of \<open>rs'\<close> comes from one of \<open>rs\<close> with the same id, and a settled
  record keeps its state.
\<close>

definition successor_of :: "authority_record \<Rightarrow> authority_record \<Rightarrow> bool" where
  "successor_of r r' \<longleftrightarrow> ar_recordId r' = ar_recordId r \<and> (ar_state r \<noteq> Pending \<longrightarrow> ar_state r' = ar_state r)"

definition evolves :: "authority_record list \<Rightarrow> authority_record list \<Rightarrow> bool" where
  "evolves rs rs' \<longleftrightarrow> (\<forall>r'\<in>set rs'. \<exists>r\<in>set rs. successor_of r r')"

lemma successor_of_refl [simp]: "successor_of r r"
  by (simp add: successor_of_def)

lemma successor_of_trans: "successor_of a b \<Longrightarrow> successor_of b c \<Longrightarrow> successor_of a c"
  by (auto simp: successor_of_def)

lemma evolves_refl [simp]: "evolves rs rs"
  by (auto simp: evolves_def intro: successor_of_refl)

lemma evolves_trans: "evolves a b \<Longrightarrow> evolves b c \<Longrightarrow> evolves a c"
  unfolding evolves_def by (meson successor_of_trans)

lemma evolves_compacted [simp]: "evolves rs (compacted_records now rs)"
  by (auto simp: evolves_def intro: compacted_subset successor_of_refl)

lemma evolves_map: "(\<And>r. r \<in> set rs \<Longrightarrow> successor_of r (f r)) \<Longrightarrow> evolves rs (map f rs)"
  by (auto simp: evolves_def)

text \<open>The state of a settled record, where the record is still stored.\<close>

definition settled_as :: "string \<Rightarrow> permission_state \<Rightarrow> authority_record list \<Rightarrow> bool" where
  "settled_as recordId st rs \<longleftrightarrow> (\<forall>r\<in>set rs. ar_recordId r = recordId \<longrightarrow> ar_state r = st)"

lemma settled_as_evolves: "settled_as rid st rs \<Longrightarrow> evolves rs rs' \<Longrightarrow> st \<noteq> Pending \<Longrightarrow> settled_as rid st rs'"
  unfolding settled_as_def evolves_def successor_of_def by metis

abbreviation unique_ids :: "authority_record list \<Rightarrow> bool" where
  "unique_ids rs \<equiv> distinct (map ar_recordId rs)"

lemma distinct_sort_key: "distinct (map f xs) \<Longrightarrow> distinct (map f (sort_key k xs))"
  by (simp add: distinct_map)

lemma unique_ids_take: "unique_ids rs \<Longrightarrow> unique_ids (take n rs)"
  by (simp add: take_map [symmetric])

lemma unique_ids_parts:
  assumes "unique_ids rs" and "set xs \<subseteq> set (filter P rs)" and "set ys \<subseteq> set (filter (\<lambda>r. \<not> P r) rs)"
  shows "ar_recordId ` set xs \<inter> ar_recordId ` set ys = {}"
proof -
  have False if "x \<in> set xs" "y \<in> set ys" "ar_recordId x = ar_recordId y" for x y
  proof -
    have mem: "x \<in> set rs" "P x" "y \<in> set rs" "\<not> P y" using that assms(2,3) by auto
    have "inj_on ar_recordId (set rs)" using assms(1) by (simp add: distinct_map)
    from inj_onD [OF this that(3) mem(1,3)] mem(2,4) show False by simp
  qed
  then show ?thesis by blast
qed

lemma unique_ids_compacted:
  assumes "unique_ids rs"
  shows "unique_ids (compacted_records now rs)"
proof -
  have "unique_ids (filter P rs)" for P using assms by (rule distinct_map_filter)
  then show ?thesis
    unfolding compacted_records_def Let_def map_append distinct_append set_map
    by (intro conjI unique_ids_take distinct_sort_key unique_ids_parts [OF assms, where P = is_pending])
      (auto dest!: in_set_takeD)
qed

lemma unique_settled:
  assumes "unique_ids rs" and "r \<in> set rs" and "ar_recordId r = rid"
  shows "settled_as rid (ar_state r) rs"
proof -
  have inj: "inj_on ar_recordId (set rs)" using assms(1) by (simp add: distinct_map)
  have "q = r" if "q \<in> set rs" "ar_recordId q = rid" for q
    using inj_onD [OF inj] that assms(2,3) by simp
  then show ?thesis by (auto simp: settled_as_def)
qed

text \<open>An update of the records that keeps their ids and order of states.\<close>

lemma transact_evolves:
  assumes "transact now update rs = Inr (v, rs')" and "evolves rs (snd (update rs))"
  shows "evolves rs rs'"
  by (simp add: transact_result [OF assms(1)] evolves_trans [OF assms(2)])

lemma run_transact_cases:
  assumes "run_transact io now update rs = (v, rs')"
  obtains (kept) "rs' = rs" "v = None"
  | (written) "rs' = compacted_records now (snd (update rs))" "v = None \<or> v = Some (fst (update rs))"
proof (cases "transact now update rs")
  case (Inl e)
  with assms that show thesis by (auto simp: run_transact_def)
next
  case (Inr c)
  obtain w cs where c: "c = (w, cs)" by (cases c)
  note res = transact_result [OF Inr [unfolded c]]
  show thesis
  proof (cases io)
    case TxnOk
    with assms that(2) res Inr c show thesis by (simp add: run_transact_def)
  next
    case (TxnFailed written)
    with assms that res Inr c show thesis by (cases written) (simp_all add: run_transact_def)
  qed
qed

text \<open>Every update replaces some of the records.\<close>

lemma replaced_mem:
  assumes "q' \<in> set (map (\<lambda>r. if P r then f r else r) rs)"
  obtains (replaced) q where "q \<in> set rs" "P q" "q' = f q" | (kept) "q' \<in> set rs" "\<not> P q'"
  using assms by (auto split: if_splits)

section \<open>What settling does\<close>

text \<open>
  The effect on the broker of everything that only cancels: objects and completions stay, a request
  without an answer may get the answer cancelled, and then its record is cancelled.
\<close>

definition only_cancels :: "broker \<Rightarrow> broker \<Rightarrow> bool" where
  "only_cancels s s' \<longleftrightarrow>
     pb_heap s' = pb_heap s \<and> pb_nextRef s' = pb_nextRef s \<and> pb_completions s' = pb_completions s \<and>
     set (pb_byCapability s') \<subseteq> set (pb_byCapability s) \<and>
     evolves (pb_records s) (pb_records s') \<and>
     (unique_ids (pb_records s) \<longrightarrow> unique_ids (pb_records s')) \<and>
     (\<forall>ref. pb_decisions s' ref = pb_decisions s ref \<or>
        (pb_decisions s' ref = Some CancelledOutcome \<and>
         (\<exists>p. pb_heap s ref = Some p \<and>
           (unique_ids (pb_records s) \<longrightarrow> settled_as (lp_recordId p) Cancelled (pb_records s')))))"

lemma only_cancels_refl [simp]: "only_cancels s s"
  by (simp add: only_cancels_def)

lemma only_cancels_trans:
  assumes "only_cancels s s'" and "only_cancels s' s''"
  shows "only_cancels s s''"
proof -
  note a = assms(1) [unfolded only_cancels_def] and b = assms(2) [unfolded only_cancels_def]
  have "pb_decisions s'' ref = pb_decisions s ref \<or>
      (pb_decisions s'' ref = Some CancelledOutcome \<and>
       (\<exists>p. pb_heap s ref = Some p \<and>
         (unique_ids (pb_records s) \<longrightarrow> settled_as (lp_recordId p) Cancelled (pb_records s''))))" for ref
  proof (cases "pb_decisions s'' ref = pb_decisions s' ref")
    case True
    with a b show ?thesis using settled_as_evolves by (metis permission_state.distinct(5))
  next
    case False
    with a b show ?thesis by metis
  qed
  moreover have "evolves (pb_records s) (pb_records s'')" using a b evolves_trans by blast
  ultimately show ?thesis using a b unfolding only_cancels_def by auto
qed

lemma settle_update_evolves: "st \<noteq> Pending \<Longrightarrow> evolves rs (snd (settle_update rid st now rs))"
  unfolding settle_update_def snd_conv by (rule evolves_map) (simp add: terminalRecord_def successor_of_def)

lemma settle_update_ids: "map ar_recordId (snd (settle_update rid st now rs)) = map ar_recordId rs"
  by (simp add: settle_update_def terminalRecord_def comp_def if_distrib cong: if_cong)

lemma settle_update_settles:
  assumes "unique_ids rs" and "fst (settle_update rid st now rs)"
  shows "settled_as rid st (snd (settle_update rid st now rs))"
proof -
  obtain r where r: "r \<in> set rs" "ar_recordId r = rid" "ar_state r = st \<or> ar_state r = Pending"
    using assms(2) unfolding settle_update_def fst_conv list_ex_iff by blast
  have old: "ar_state q = st \<or> ar_state q = Pending" if "q \<in> set rs" "ar_recordId q = rid" for q
    using unique_settled [OF assms(1) r(1,2)] that r(3) by (simp add: settled_as_def)
  have "ar_state q' = st"
    if "q' \<in> set (snd (settle_update rid st now rs))" and id: "ar_recordId q' = rid" for q'
  proof -
    show ?thesis using that(1) unfolding settle_update_def snd_conv
    proof (cases rule: replaced_mem)
      case (replaced q)
      then show ?thesis by (simp add: terminalRecord_def)
    next
      case kept
      with old [OF kept(1) id] id show ?thesis by auto
    qed
  qed
  then show ?thesis by (simp add: settled_as_def)
qed

lemma settleLive_cancels:
  assumes "settleLive now ref Cancelled CancelledOutcome shown s = Some (b, s')"
  shows "only_cancels s s'"
proof (cases "pb_heap s ref")
  case None
  with assms show ?thesis by (simp add: settleLive_def)
next
  case (Some p)
  let ?u = "settle_update (lp_recordId p) Cancelled now"
  obtain v rs where t: "transact now ?u (pb_records s) = Inr (v, rs)"
    using assms Some by (auto simp: settleLive_def split: sum.splits)
  have rs: "v = fst (?u (pb_records s))" "rs = compacted_records now (snd (?u (pb_records s)))"
    using transact_result [OF t] by auto
  have ev: "evolves (pb_records s) rs" using transact_evolves [OF t] by (simp add: settle_update_evolves)
  have un: "unique_ids rs" if "unique_ids (pb_records s)"
    unfolding rs(2) using that by (intro unique_ids_compacted) (simp add: settle_update_ids)
  have "settled_as (lp_recordId p) Cancelled rs" if "unique_ids (pb_records s)" v
    unfolding rs(2)
    by (rule settled_as_evolves [OF settle_update_settles evolves_compacted]) (use that rs(1) in auto)
  then show ?thesis
    using assms Some t ev un
    by (auto simp: settleLive_def only_cancels_def removeLive_def succeed_def Let_def split: if_splits)
qed

lemma settle_all_cancels: "settle_all now refs s = Some s' \<Longrightarrow> only_cancels s s'"
proof (induction now refs s rule: settle_all.induct)
  case (2 now ref refs s)
  then show ?case
    by (auto split: option.splits dest!: settleLive_cancels intro: only_cancels_trans)
qed simp

lemma cancelMatching_cancels: "cancelMatching now P s = Some s' \<Longrightarrow> only_cancels s s'"
  by (simp add: cancelMatching_def settle_all_cancels)

lemma only_cancels_turns:
  "only_cancels (s\<lparr>pb_activeTurns := f\<rparr>) s' = only_cancels s s'"
  "only_cancels (s\<lparr>pb_closedTurns := c\<rparr>) s' = only_cancels s s'"
  "only_cancels s (s'\<lparr>pb_activeTurns := f\<rparr>) = only_cancels s s'"
  by (simp_all add: only_cancels_def)

lemma activateTurn_cancels: "activateTurn now a s = Some s' \<Longrightarrow> only_cancels s s'"
  by (auto simp: activateTurn_def only_cancels_turns dest!: cancelMatching_cancels)

lemma close_turn_cancels: "close_turn now a s = Some s' \<Longrightarrow> only_cancels s s'"
  by (auto simp: close_turn_def Let_def only_cancels_turns split: if_splits dest!: cancelMatching_cancels)

lemma cancelAll_cancels: "cancelAll now s = Some s' \<Longrightarrow> only_cancels s s'"
  by (auto simp: cancelAll_def only_cancels_turns dest!: cancelMatching_cancels)

lemmas cancelling_steps = activateTurn_cancels close_turn_cancels cancelAll_cancels settleLive_cancels

section \<open>What a claim does\<close>

definition moves_to :: "authority_record list \<Rightarrow> authority_record list \<Rightarrow> bool" where
  "moves_to rs rs' \<longleftrightarrow> (unique_ids rs \<longrightarrow> evolves rs rs' \<and> unique_ids rs')"

lemma moves_to_refl [simp]: "moves_to rs rs"
  by (simp add: moves_to_def)

lemma moves_to_trans: "moves_to a b \<Longrightarrow> moves_to b c \<Longrightarrow> moves_to a c"
  unfolding moves_to_def using evolves_trans by blast

lemma moves_to_compacted: "moves_to rs (compacted_records now rs)"
  by (simp add: moves_to_def unique_ids_compacted)

lemma moves_to_map:
  assumes "\<And>r. ar_recordId (f r) = ar_recordId r"
    and "\<And>r. unique_ids rs \<Longrightarrow> r \<in> set rs \<Longrightarrow> successor_of r (f r)"
  shows "moves_to rs (map f rs)"
  using assms by (auto simp: moves_to_def comp_def intro!: evolves_map)

lemma run_transact_moves:
  assumes "run_transact io now update rs = (v, rs')" and "moves_to rs (snd (update rs))"
  shows "moves_to rs rs'"
  using assms(1)
  by (cases rule: run_transact_cases) (use assms(2) moves_to_trans moves_to_compacted in auto)

lemma find_record_SomeD:
  assumes "find_record rid rs = Some r"
  shows "r \<in> set rs" and "ar_recordId r = rid"
  using assms by (auto simp: find_record_def find_Some_iff)

lemma find_record_unique:
  assumes "find_record rid rs = Some r" and "unique_ids rs"
  shows "settled_as rid (ar_state r) rs"
  by (rule unique_settled [OF assms(2) find_record_SomeD [OF assms(1)]])

lemma claim_update_moves: "moves_to rs (snd (claim_update dg p d t rs))"
  by (auto simp: claim_update_def successor_of_def split: option.splits intro!: moves_to_map)

lemma persist_update_moves:
  assumes "de_state d \<noteq> Pending"
  shows "moves_to rs (snd (persist_update dg p d t rs))"
proof (cases "find_record (lp_recordId p) rs")
  case None
  then show ?thesis by (simp add: persist_update_def)
next
  case (Some r)
  show ?thesis
  proof (cases "ar_state r = Pending")
    case True
    have "ar_state q = Pending" if "unique_ids rs" "q \<in> set rs" "ar_recordId q = lp_recordId p" for q
      using find_record_unique [OF Some that(1)] that(2,3) True by (simp add: settled_as_def)
    then have "moves_to rs (map (\<lambda>c. if ar_recordId c = lp_recordId p
        then terminalRecord c (de_state d) t else c) rs)"
      by (intro moves_to_map) (simp_all add: terminalRecord_def successor_of_def)
    then show ?thesis by (simp add: persist_update_def Some)
  next
    case False
    then show ?thesis by (simp add: persist_update_def Some)
  qed
qed

lemma persist_update_settles:
  assumes "fst (persist_update dg p d t rs) = Claimed" and "unique_ids rs"
  shows "settled_as (lp_recordId p) (de_state d) (snd (persist_update dg p d t rs))"
proof (cases "find_record (lp_recordId p) rs")
  case None
  with assms(1) show ?thesis by (simp add: persist_update_def)
next
  case (Some r)
  show ?thesis
  proof (cases "ar_state r = de_state d")
    case True
    then have "snd (persist_update dg p d t rs) = rs" by (simp add: persist_update_def Some)
    with find_record_unique [OF Some assms(2)] True show ?thesis by simp
  next
    case False
    then have "snd (persist_update dg p d t rs) = map (\<lambda>c. if ar_recordId c = lp_recordId p
        then terminalRecord c (de_state d) t else c) rs"
      using assms(1) by (simp add: persist_update_def Some split: if_splits)
    then show ?thesis by (auto simp: settled_as_def terminalRecord_def split: if_splits)
  qed
qed

lemma persistClaimOutcome_moves:
  assumes "persistClaimOutcome dg io reread now p d rs = (res, rs')" and "de_state d \<noteq> Pending"
  shows "moves_to rs rs'"
    and "res = Claimed \<Longrightarrow> unique_ids rs \<Longrightarrow> settled_as (lp_recordId p) (de_state d) rs'"
proof -
  let ?u = "persist_update dg p d now"
  obtain v rs1 where run: "run_transact io now ?u rs = (v, rs1)" by (cases "run_transact io now ?u rs")
  have rs1: "rs1 = rs'"
    using assms(1) run by (auto simp: persistClaimOutcome_def split: option.splits if_splits)
  show moves: "moves_to rs rs'"
    using run_transact_moves [OF run persist_update_moves [OF assms(2)]] by (simp add: rs1)
  assume claimed: "res = Claimed" and uniq: "unique_ids rs"
  show "settled_as (lp_recordId p) (de_state d) rs'"
  proof (cases v)
    case None
    then obtain r where "find_record (lp_recordId p) rs' = Some r" "ar_state r = de_state d"
      using assms(1) run claimed by (auto simp: persistClaimOutcome_def split: option.splits if_splits)
    moreover have "unique_ids rs'" using moves uniq by (simp add: moves_to_def)
    ultimately show ?thesis using find_record_unique by metis
  next
    case (Some w)
    then have w: "w = Claimed" using assms(1) run claimed by (simp add: persistClaimOutcome_def)
    from run show ?thesis
    proof (cases rule: run_transact_cases)
      case kept
      with Some show ?thesis by simp
    next
      case written
      then have "fst (?u rs) = Claimed" using Some w by simp
      from settled_as_evolves [OF persist_update_settles [OF this uniq] evolves_compacted assms(2)]
      show ?thesis using written(1) by (simp add: rs1)
    qed
  qed
qed

text \<open>An interaction that fits the live permission and means the decision.\<close>

definition fits :: "interaction \<Rightarrow> live_permission \<Rightarrow> claim_decision \<Rightarrow> bool" where
  "fits i p d \<longleftrightarrow> in_capability i = lp_capability p \<and> decisionForInteraction i p = Some d \<and>
     interactionMatchesPermission i p (Some (lp_authority p))"

definition claims :: "nat \<Rightarrow> live_permission \<Rightarrow> claim_decision \<Rightarrow> broker \<Rightarrow> broker \<Rightarrow> bool" where
  "claims ref p d s s' \<longleftrightarrow>
     (\<exists>rs c. s' = s\<lparr>pb_records := rs, pb_completions := c\<rparr> \<and> moves_to (pb_records s) rs \<and>
       (c = pb_completions s \<or>
        c = (pb_completions s)(lp_recordId p \<mapsto> (ref, d)) \<and>
          (unique_ids (pb_records s) \<longrightarrow> settled_as (lp_recordId p) (de_state d) rs)))"

lemma decision_not_pending: "decisionForInteraction i p = Some d \<Longrightarrow> de_state d \<noteq> Pending"
  by (auto simp: decisionForInteraction_def split: if_splits)

lemma startSharedCompletion_claims:
  assumes "startSharedCompletion dg io reread now ref p d s = (res, s')" and "de_state d \<noteq> Pending"
  shows "claims ref p d s s'"
proof (cases "pb_completions s (lp_recordId p)")
  case (Some c)
  with assms(1) have "s' = s\<lparr>pb_records := pb_records s, pb_completions := pb_completions s\<rparr>"
    by (simp add: startSharedCompletion_def)
  then show ?thesis unfolding claims_def using moves_to_refl by blast
next
  case None
  obtain v rs where run: "persistClaimOutcome dg io reread now p d (pb_records s) = (v, rs)"
    by (cases "persistClaimOutcome dg io reread now p d (pb_records s)")
  note moves = persistClaimOutcome_moves [OF run assms(2)]
  from assms(1) None run have "s' = s\<lparr>pb_records := rs, pb_completions :=
      if v = Claimed then (pb_completions s)(lp_recordId p \<mapsto> (ref, d)) else pb_completions s\<rparr>"
    by (auto simp: startSharedCompletion_def)
  then show ?thesis unfolding claims_def
    by (intro exI [of _ rs] exI [of _ "if v = Claimed then (pb_completions s)(lp_recordId p \<mapsto> (ref, d))
        else pb_completions s"]) (simp add: moves)
qed

lemma claims_after_records:
  assumes "moves_to (pb_records s) rs" and "claims ref p d (s\<lparr>pb_records := rs\<rparr>) s'"
  shows "claims ref p d s s'"
proof -
  obtain rs' c where c: "s' = s\<lparr>pb_records := rs', pb_completions := c\<rparr>" "moves_to rs rs'"
    "c = pb_completions s \<or> c = (pb_completions s)(lp_recordId p \<mapsto> (ref, d)) \<and>
       (unique_ids rs \<longrightarrow> settled_as (lp_recordId p) (de_state d) rs')"
    using assms(2) by (auto simp: claims_def)
  then show ?thesis unfolding claims_def
    using assms(1) moves_to_trans by (intro exI [of _ rs'] exI [of _ c]) (auto simp: moves_to_def)
qed

lemma claims_records: "moves_to (pb_records s) rs \<Longrightarrow> claims ref p d s (s\<lparr>pb_records := rs\<rparr>)"
  unfolding claims_def by (intro exI [of _ rs] exI [of _ "pb_completions s"]) simp

lemma claim_section_claims:
  assumes "claim_section dg io reread io' reread' now ref p d s = (res, s')" and "de_state d \<noteq> Pending"
  shows "claims ref p d s s'"
proof -
  let ?u = "claim_update dg p d now"
  obtain v rs where run: "run_transact io now ?u (pb_records s) = (v, rs)"
    by (cases "run_transact io now ?u (pb_records s)")
  have moves: "moves_to (pb_records s) rs" using run_transact_moves [OF run claim_update_moves] .
  have "s' = s\<lparr>pb_records := rs\<rparr> \<or>
      (\<exists>res'. startSharedCompletion dg io' reread' now ref p d (s\<lparr>pb_records := rs\<rparr>) = (res', s'))"
    using assms(1) run by (auto simp: claim_section_def Let_def split: option.splits if_splits)
  then show ?thesis
    using claims_records [OF moves] claims_after_records [OF moves]
      startSharedCompletion_claims [OF _ assms(2)] by blast
qed

lemma claimInteraction_claims:
  assumes "claimInteraction dg io reread io' reread' now i s = (res, s')"
    and cap: "\<And>c ref. (c, ref) \<in> set (pb_byCapability s) \<Longrightarrow> \<exists>p. pb_heap s ref = Some p \<and> lp_capability p = c"
  shows "s' = s \<or> (\<exists>ref p d. pb_heap s ref = Some p \<and> fits i p d \<and> claims ref p d s s')"
proof (rule disjCI)
  assume no: "\<not> (\<exists>ref p d. pb_heap s ref = Some p \<and> fits i p d \<and> claims ref p d s s')"
  show "s' = s"
  proof (rule ccontr)
    assume ne: "s' \<noteq> s"
    obtain ref p d where at: "map_of (pb_byCapability s) (in_capability i) = Some ref"
      "pb_heap s ref = Some p" "decisionForInteraction i p = Some d"
      "interactionMatchesPermission i p (pb_activeTurns s (pa_sessionId (lp_authority p)))"
      "claim_section dg io reread io' reread' now ref p d s = (res, s')"
      using assms(1) ne by (auto simp: claimInteraction_def split: option.splits if_splits)
    have "lp_capability p = in_capability i" using cap [OF map_of_SomeD [OF at(1)]] at(2) by auto
    moreover have "interactionMatchesPermission i p (Some (lp_authority p))"
      using at(4) by (simp add: interactionMatchesPermission_def)
    ultimately have "fits i p d" using at(3) by (simp add: fits_def)
    with no at(2) claim_section_claims [OF at(5) decision_not_pending [OF at(3)]] show False by blast
  qed
qed

section \<open>The invariant\<close>

text \<open>
  An answer is backed by an interaction that was received; \<open>u\<close> tells whether record ids are unique,
  then an answer also agrees with the stored record.
\<close>

definition answered :: "bool \<Rightarrow> interaction list \<Rightarrow> live_permission \<Rightarrow> permission_response
    \<Rightarrow> authority_record list \<Rightarrow> bool" where
  "answered u h p response rs \<longleftrightarrow>
     (case response of
        CancelledOutcome \<Rightarrow> u \<longrightarrow> settled_as (lp_recordId p) Cancelled rs
      | SelectedOutcome opt \<Rightarrow>
          (\<exists>i\<in>set h. \<exists>d. fits i p d \<and> de_optionId d = opt \<and>
             (u \<longrightarrow> settled_as (lp_recordId p) (de_state d) rs)))"

definition broker_inv :: "bool \<Rightarrow> interaction list \<Rightarrow> broker \<Rightarrow> bool" where
  "broker_inv u h s \<longleftrightarrow>
     (\<forall>ref p. pb_heap s ref = Some p \<longrightarrow> ref < pb_nextRef s) \<and>
     (\<forall>c ref. (c, ref) \<in> set (pb_byCapability s) \<longrightarrow> (\<exists>p. pb_heap s ref = Some p \<and> lp_capability p = c)) \<and>
     (u \<longrightarrow> unique_ids (pb_records s)) \<and>
     (\<forall>rid ref d. pb_completions s rid = Some (ref, d) \<longrightarrow>
        (\<exists>p. pb_heap s ref = Some p \<and> lp_recordId p = rid \<and>
          answered u h p (SelectedOutcome (de_optionId d)) (pb_records s))) \<and>
     (\<forall>ref response. pb_decisions s ref = Some response \<longrightarrow>
        (\<exists>p. pb_heap s ref = Some p \<and> answered u h p response (pb_records s)))"

lemma broker_invD:
  assumes "broker_inv u h s"
  shows inv_ref: "pb_heap s ref = Some p \<Longrightarrow> ref < pb_nextRef s"
    and inv_cap: "(c, ref) \<in> set (pb_byCapability s) \<Longrightarrow> \<exists>p. pb_heap s ref = Some p \<and> lp_capability p = c"
    and inv_unique: "u \<Longrightarrow> unique_ids (pb_records s)"
    and inv_completion: "pb_completions s rid = Some (ref, d) \<Longrightarrow>
      \<exists>p. pb_heap s ref = Some p \<and> lp_recordId p = rid \<and>
        answered u h p (SelectedOutcome (de_optionId d)) (pb_records s)"
    and inv_decision: "pb_decisions s ref = Some response \<Longrightarrow>
      \<exists>p. pb_heap s ref = Some p \<and> answered u h p response (pb_records s)"
  using assms unfolding broker_inv_def by blast+

lemma fits_not_pending: "fits i p d \<Longrightarrow> de_state d \<noteq> Pending"
  unfolding fits_def by (blast dest: decision_not_pending)

lemma answered_evolves:
  assumes "answered u h p response rs" and "u \<Longrightarrow> evolves rs rs'"
  shows "answered u h p response rs'"
proof (cases response)
  case CancelledOutcome
  then show ?thesis using assms settled_as_evolves [of "lp_recordId p" Cancelled rs rs']
    by (simp add: answered_def)
next
  case (SelectedOutcome opt)
  then obtain i d where i: "i \<in> set h" "fits i p d" "de_optionId d = opt"
    "u \<Longrightarrow> settled_as (lp_recordId p) (de_state d) rs"
    using assms(1) by (auto simp: answered_def)
  then have "u \<Longrightarrow> settled_as (lp_recordId p) (de_state d) rs'"
    using assms(2) settled_as_evolves fits_not_pending by blast
  with i SelectedOutcome show ?thesis by (auto simp: answered_def)
qed

lemma answered_more: "answered u h p response rs \<Longrightarrow> answered u (h @ [i]) p response rs"
  by (auto simp: answered_def split: permission_response.splits)

lemma answered_appended:
  assumes "answered u h p response rs" and "lp_recordId p \<noteq> ar_recordId r"
  shows "answered u h p response (rs @ [r])"
  using assms by (auto simp: answered_def settled_as_def split: permission_response.splits)

lemma broker_inv_start: "make_broker now stored = Some s \<Longrightarrow> (u \<Longrightarrow> unique_ids stored) \<Longrightarrow> broker_inv u [] s"
proof -
  let ?f = "\<lambda>r. if ar_state r = Pending then terminalRecord r Cancelled now else r"
  assume m: "make_broker now stored = Some s" and u: "u \<Longrightarrow> unique_ids stored"
  have ids: "map ar_recordId (map ?f stored) = map ar_recordId stored"
    by (simp add: terminalRecord_def)
  obtain v rs where t: "transact now (\<lambda>records. let updated = map ?f records in (updated, updated)) stored
      = Inr (v, rs)"
    using m by (auto simp: make_broker_def split: sum.splits)
  have "rs = compacted_records now (map ?f stored)" using transact_result [OF t] by (simp add: Let_def)
  then have "u \<Longrightarrow> unique_ids rs" using unique_ids_compacted u ids by metis
  then show ?thesis using m t by (auto simp: make_broker_def broker_inv_def)
qed

lemma broker_inv_cancels:
  assumes inv: "broker_inv u h s" and c: "only_cancels s s'"
  shows "broker_inv u h s'"
proof -
  note c' = c [unfolded only_cancels_def]
  have ev: "u \<Longrightarrow> evolves (pb_records s) (pb_records s')" using c' by blast
  have "\<exists>p. pb_heap s' ref = Some p \<and> answered u h p response (pb_records s')"
    if d: "pb_decisions s' ref = Some response" for ref response
  proof (cases "pb_decisions s' ref = pb_decisions s ref")
    case True
    then obtain p where "pb_heap s ref = Some p" "answered u h p response (pb_records s)"
      using inv_decision [OF inv] d by metis
    then show ?thesis using c' answered_evolves ev by metis
  next
    case False
    then have n: "pb_decisions s' ref = Some CancelledOutcome" "\<exists>p. pb_heap s ref = Some p \<and>
        (unique_ids (pb_records s) \<longrightarrow> settled_as (lp_recordId p) Cancelled (pb_records s'))"
      using c' by blast+
    then have "response = CancelledOutcome" using d by simp
    with n(2) show ?thesis using c' inv_unique [OF inv] by (auto simp: answered_def)
  qed
  moreover have "\<exists>p. pb_heap s' ref = Some p \<and> lp_recordId p = rid \<and>
      answered u h p (SelectedOutcome (de_optionId d)) (pb_records s')"
    if "pb_completions s' rid = Some (ref, d)" for rid ref d
    using inv_completion [OF inv] that c' answered_evolves ev by metis
  moreover have "\<exists>p. pb_heap s' ref = Some p \<and> lp_capability p = c" if "(c, ref) \<in> set (pb_byCapability s')" for c ref
  proof -
    have "(c, ref) \<in> set (pb_byCapability s)" using that c' by blast
    then show ?thesis using inv_cap [OF inv] c' by simp
  qed
  moreover have "ref < pb_nextRef s'" if "pb_heap s' ref = Some p" for ref p
    using inv_ref [OF inv] that c' by simp
  moreover have "u \<Longrightarrow> unique_ids (pb_records s')" using inv_unique [OF inv] c' by blast
  ultimately show ?thesis unfolding broker_inv_def by simp
qed

lemma broker_inv_more: "broker_inv u h s \<Longrightarrow> broker_inv u (h @ [i]) s"
  unfolding broker_inv_def using answered_more by metis

lemma broker_inv_claims:
  assumes inv: "broker_inv u h s" and p: "pb_heap s ref = Some p" and fit: "fits i p d" and i: "i \<in> set h"
    and c: "claims ref p d s s'"
  shows "broker_inv u h s'"
proof -
  obtain rs c where s': "s' = s\<lparr>pb_records := rs, pb_completions := c\<rparr>" and moves: "moves_to (pb_records s) rs"
    and c: "c = pb_completions s \<or> c = (pb_completions s)(lp_recordId p \<mapsto> (ref, d)) \<and>
      (unique_ids (pb_records s) \<longrightarrow> settled_as (lp_recordId p) (de_state d) rs)"
    using c by (auto simp: claims_def)
  have ev: "u \<Longrightarrow> evolves (pb_records s) rs" and un: "u \<Longrightarrow> unique_ids rs"
    using moves inv_unique [OF inv] by (auto simp: moves_to_def)
  have old: "\<exists>q. pb_heap s r = Some q \<and> lp_recordId q = rid \<and> answered u h q (SelectedOutcome (de_optionId e)) rs"
    if "pb_completions s rid = Some (r, e)" for rid r e
    using inv_completion [OF inv that] answered_evolves [OF _ ev] by blast
  have "\<exists>q. pb_heap s r = Some q \<and> lp_recordId q = rid \<and> answered u h q (SelectedOutcome (de_optionId e)) rs"
    if e: "c rid = Some (r, e)" for rid r e
  proof (cases "pb_completions s rid = Some (r, e)")
    case False
    with c e have new: "rid = lp_recordId p" "r = ref" "e = d"
      and st: "unique_ids (pb_records s) \<Longrightarrow> settled_as (lp_recordId p) (de_state d) rs"
      by (auto split: if_splits)
    have "answered u h p (SelectedOutcome (de_optionId d)) rs"
      using i fit st inv_unique [OF inv] by (auto simp: answered_def)
    with p new show ?thesis by blast
  qed (rule old)
  moreover have "\<exists>q. pb_heap s r = Some q \<and> answered u h q response rs"
    if "pb_decisions s r = Some response" for r response
    using inv_decision [OF inv that] answered_evolves [OF _ ev] by blast
  ultimately show ?thesis
    using inv_ref [OF inv] inv_cap [OF inv] un by (simp add: s' broker_inv_def)
qed

lemma broker_inv_completed:
  assumes inv: "broker_inv u h s"
  shows "broker_inv u h (finish_completion rid s)"
proof (cases "pb_completions s rid")
  case None
  with inv show ?thesis by (simp add: finish_completion_def)
next
  case (Some c)
  obtain ref d where c: "c = (ref, d)" by (cases c)
  obtain p where p: "pb_heap s ref = Some p" "answered u h p (SelectedOutcome (de_optionId d)) (pb_records s)"
    using inv_completion [OF inv] Some c by blast
  let ?s = "finish_completion rid s"
  have s: "pb_heap ?s = pb_heap s" "pb_nextRef ?s = pb_nextRef s" "pb_records ?s = pb_records s"
    "set (pb_byCapability ?s) \<subseteq> set (pb_byCapability s)"
    "pb_completions ?s = (pb_completions s)(rid := None)"
    using Some c p(1) by (auto simp: finish_completion_def removeLive_def succeed_def Let_def)
  have dec: "pb_decisions ?s r = pb_decisions s r \<or>
      r = ref \<and> pb_decisions ?s r = Some (SelectedOutcome (de_optionId d))" for r
    using Some c p(1) by (auto simp: finish_completion_def removeLive_def succeed_def Let_def)
  have "\<exists>q. pb_heap s r = Some q \<and> answered u h q response (pb_records s)"
    if "pb_decisions ?s r = Some response" for r response
    using dec [of r] that p inv_decision [OF inv, of r response] by fastforce
  moreover have "\<exists>q. pb_heap s r = Some q \<and> lp_capability q = cap"
    if "(cap, r) \<in> set (pb_byCapability ?s)" for cap r
    using inv_cap [OF inv] that s(4) by blast
  ultimately show ?thesis
    using inv_ref [OF inv] inv_unique [OF inv] inv_completion [OF inv]
    unfolding broker_inv_def s by (simp add: fun_upd_def)
qed

lemma bind_update_evolves: "evolves rs (snd (bind_update rid m rs))"
  unfolding bind_update_def snd_conv by (rule evolves_map) (simp add: successor_of_def)

lemma bind_update_ids: "map ar_recordId (snd (bind_update rid m rs)) = map ar_recordId rs"
  by (simp add: bind_update_def)

lemma answered_rebound:
  assumes "answered u h p response rs" and "lp_messageTs p = None" and "lp_recordId q = lp_recordId p"
  shows "answered u h q response rs"
  using assms by (auto simp: answered_def fits_def interactionMatchesPermission_def split: permission_response.splits)

text \<open>A message is bound: one object changes, and the records keep their states.\<close>

lemma broker_inv_bind:
  assumes inv: "broker_inv u h s" and b: "bind_message dg now ref ts s = Some (b, s')" and un: "unbound s ref"
  shows "broker_inv u h s'"
proof (cases "\<exists>p. pb_heap s ref = Some p \<and> map_of (pb_byCapability s) (lp_capability p) = Some ref")
  case False
  then have "pb_heap s' = pb_heap s \<and> pb_nextRef s' = pb_nextRef s \<and> pb_records s' = pb_records s \<and>
      pb_byCapability s' = pb_byCapability s \<and> pb_completions s' = pb_completions s \<and>
      pb_decisions s' = pb_decisions s"
    using b by (auto simp: bind_message_def split: option.splits)
  then show ?thesis using inv by (simp add: broker_inv_def)
next
  case True
  then obtain p where p: "pb_heap s ref = Some p" "map_of (pb_byCapability s) (lp_capability p) = Some ref" by blast
  let ?q = "p\<lparr>lp_messageTs := Some ts\<rparr>"
  let ?u = "bind_update (lp_recordId p) (dg_message dg (pa_channelId (lp_authority p))
    (pa_rootTs (lp_authority p)) (Some ts))"
  obtain v rs where t: "transact now ?u (pb_records s) = Inr (v, rs)"
    using b p by (auto simp: bind_message_def Let_def split: sum.splits)
  have s': "pb_heap s' = (pb_heap s)(ref \<mapsto> ?q)" "pb_records s' = rs" "pb_nextRef s' = pb_nextRef s"
    "pb_byCapability s' = pb_byCapability s" "pb_completions s' = pb_completions s"
    "pb_decisions s' = pb_decisions s"
    using b p t by (auto simp: bind_message_def Let_def)
  have rs: "rs = compacted_records now (snd (?u (pb_records s)))" using transact_result [OF t] by simp
  have ev: "evolves (pb_records s) rs" using transact_evolves [OF t bind_update_evolves] .
  have ids: "u \<Longrightarrow> unique_ids rs"
    unfolding rs by (intro unique_ids_compacted) (use inv_unique [OF inv] in \<open>simp add: bind_update_ids\<close>)
  have p0: "lp_messageTs p = None" using un p(1) by (simp add: unbound_def)
  have keep: "\<exists>q. pb_heap s' r = Some q \<and> lp_recordId q = lp_recordId q0 \<and>
      lp_capability q = lp_capability q0 \<and> (answered u h q0 response (pb_records s) \<longrightarrow> answered u h q response rs)"
    if "pb_heap s r = Some q0" for r q0 response
  proof (cases "r = ref")
    case True
    with that p have q0: "q0 = p" by simp
    have "answered u h p response (pb_records s) \<longrightarrow> answered u h ?q response rs"
    proof
      assume "answered u h p response (pb_records s)"
      from answered_rebound [OF answered_evolves [OF this ev] p0]
      show "answered u h ?q response rs" by simp
    qed
    then show ?thesis by (simp add: q0 s'(1) True)
  next
    case False
    then show ?thesis using that answered_evolves [OF _ ev] by (simp add: s'(1))
  qed
  have "\<exists>q. pb_heap s' r = Some q \<and> lp_recordId q = rid \<and> answered u h q (SelectedOutcome (de_optionId d)) rs"
    if "pb_completions s rid = Some (r, d)" for rid r d
    using inv_completion [OF inv that] keep by meson
  moreover have "\<exists>q. pb_heap s' r = Some q \<and> answered u h q response rs"
    if "pb_decisions s r = Some response" for r response
    using inv_decision [OF inv that] keep by meson
  moreover have "\<exists>q. pb_heap s' r = Some q \<and> lp_capability q = c" if "(c, r) \<in> set (pb_byCapability s)" for c r
    using inv_cap [OF inv that] keep by metis
  moreover have "r < pb_nextRef s" if "pb_heap s' r = Some q" for r q
    using that inv_ref [OF inv] p(1) by (auto simp: s'(1) split: if_splits)
  ultimately show ?thesis unfolding broker_inv_def s'(2-6) using ids by simp
qed

text \<open>A request: a new object and its record, both unknown before.\<close>

lemma prepare_request_created:
  assumes "prepare_request dg timeoutMillis token marker now rq s = Some (PrepCreated ref, s')"
  obtains p r where "ref = pb_nextRef s" and "ar_recordId r = lp_recordId p" and "ar_state r = Pending"
    and "lp_capability p = token"
    and "pb_heap s' = (pb_heap s)(ref \<mapsto> p)" and "pb_nextRef s' = pb_nextRef s + 1"
    and "pb_records s' = compacted_records now (pb_records s @ [r])"
    and "pendingPermissionCapacityExceeded (pb_records s) r = None"
    and "pb_byCapability s' = pb_byCapability s @ [(token, ref)]"
    and "pb_completions s' = pb_completions s" and "pb_decisions s' = pb_decisions s"
proof -
  obtain authority user allowOption rejectOption where ctx:
    "permissionPreparationContext (pb_activeTurns s (rq_sessionId rq)) rq
       = Some (authority, user, allowOption, rejectOption)"
    using assms by (auto simp: prepare_request_def split: option.splits)
  define identity where "identity = dg_identity dg (pa_promptId authority) (pa_sessionId authority)
    (tc_toolCallId (rq_toolCall rq)) (pa_turnId authority)"
  define p where "p = new_permission dg authority allowOption rejectOption (rq_toolCall rq) identity
    (dg_input dg (rq_options rq) (rq_toolCall rq)) token (dg_digest dg ''permission-capability'' token)
    marker (now + timeoutMillis)"
  define r where "r = new_record dg p user now"
  have none: "pb_byRequestIdentity s identity = None"
    using assms ctx by (auto simp: prepare_request_def Let_def identity_def split: option.splits if_splits)
  obtain v rs where t: "transact now (insert_record r) (pb_records s) = Inr (v, rs)"
    using assms ctx none
    by (auto simp: prepare_request_def Let_def identity_def [symmetric] p_def [symmetric] r_def [symmetric]
        split: sum.splits)
  have v: "v = None"
    using assms ctx none t
    by (auto simp: prepare_request_def Let_def identity_def [symmetric] p_def [symmetric] r_def [symmetric]
        split: option.splits)
  have res: "ref = pb_nextRef s" "s' = s\<lparr>pb_records := rs, pb_heap := (pb_heap s)(pb_nextRef s \<mapsto> p),
      pb_nextRef := pb_nextRef s + 1, pb_byCapability := pb_byCapability s @ [(token, pb_nextRef s)],
      pb_byRequestIdentity := (pb_byRequestIdentity s)(identity \<mapsto> pb_nextRef s)\<rparr>"
    using assms ctx none t v
    by (auto simp: prepare_request_def Let_def identity_def [symmetric] p_def [symmetric] r_def [symmetric])
  have cap: "pendingPermissionCapacityExceeded (pb_records s) r = None"
    "rs = compacted_records now (pb_records s @ [r])"
    using transact_result [OF t] v by (simp_all add: insert_record_def Let_def)
  have "ar_recordId r = lp_recordId p" "ar_state r = Pending" "lp_capability p = token"
    by (simp_all add: r_def new_record_def p_def new_permission_def Let_def)
  then show thesis by (rule that [OF res(1)]) (simp_all add: res cap(2) cap(1))
qed

lemma broker_inv_request:
  assumes inv: "broker_inv u h s"
    and req: "prepare_request dg timeoutMillis token marker now rq s = Some (PrepCreated ref, s')"
    and new: "pb_heap s' ref = Some p" and fresh: "fresh_request s p"
  shows "broker_inv u h s'"
proof -
  obtain q r where ref: "ref = pb_nextRef s" and r: "ar_recordId r = lp_recordId q"
    and tok: "lp_capability q = token"
    and s': "pb_heap s' = (pb_heap s)(ref \<mapsto> q)" "pb_nextRef s' = pb_nextRef s + 1"
      "pb_records s' = compacted_records now (pb_records s @ [r])"
      "pb_byCapability s' = pb_byCapability s @ [(token, ref)]"
      "pb_completions s' = pb_completions s" "pb_decisions s' = pb_decisions s"
    using prepare_request_created [OF req] by metis
  have q: "q = p" using new s'(1) by simp
  have ids: "u \<Longrightarrow> unique_ids (pb_records s')"
    unfolding s'(3)
    by (rule unique_ids_compacted) (use inv_unique [OF inv] fresh r q in \<open>auto simp: fresh_request_def\<close>)
  have keep: "pb_heap s' x = Some y \<and> (answered u h y response (pb_records s) \<longrightarrow>
      answered u h y response (pb_records s'))" if y: "pb_heap s x = Some y" for x y response
  proof
    have "x \<noteq> ref" using inv_ref [OF inv y] ref by simp
    with y show "pb_heap s' x = Some y" by (simp add: s'(1))
    have "lp_recordId y \<noteq> ar_recordId r" using fresh y r q by (auto simp: fresh_request_def)
    then show "answered u h y response (pb_records s) \<longrightarrow> answered u h y response (pb_records s')"
      unfolding s'(3) using answered_evolves [OF answered_appended evolves_compacted] by blast
  qed
  have "\<exists>y. pb_heap s' x = Some y \<and> lp_recordId y = rid \<and>
      answered u h y (SelectedOutcome (de_optionId d)) (pb_records s')"
    if "pb_completions s rid = Some (x, d)" for rid x d
    using inv_completion [OF inv that] keep by blast
  moreover have "\<exists>y. pb_heap s' x = Some y \<and> answered u h y response (pb_records s')"
    if "pb_decisions s x = Some response" for x response
    using inv_decision [OF inv that] keep by blast
  moreover have "\<exists>y. pb_heap s' x = Some y \<and> lp_capability y = c" if "(c, x) \<in> set (pb_byCapability s')" for c x
  proof (cases "(c, x) \<in> set (pb_byCapability s)")
    case True
    then show ?thesis using inv_cap [OF inv] keep by metis
  next
    case False
    with that tok show ?thesis by (simp add: s'(1,4))
  qed
  moreover have "x < pb_nextRef s'" if "pb_heap s' x = Some y" for x y
    using that inv_ref [OF inv, of x y] ref by (auto simp: s'(1,2) split: if_splits)
  ultimately show ?thesis unfolding broker_inv_def s'(5,6) using ids by simp
qed

lemma answered_request_cancels:
  assumes req: "prepare_request dg timeoutMillis token marker now rq s = Some (prep, s')"
    and no: "\<And>ref. prep \<noteq> PrepCreated ref"
  shows "only_cancels s s'"
proof -
  have "s' = s \<or> (\<exists>ref b shown. settleLive now ref Cancelled CancelledOutcome shown s = Some (b, s')) \<or>
      (\<exists>r c. transact now (insert_record r) (pb_records s) = Inr (Some c, pb_records s') \<and>
         s' = s\<lparr>pb_records := pb_records s'\<rparr>)"
    using assms by (auto simp: prepare_request_def Let_def split: option.splits sum.splits prod.splits if_splits)
  then consider "s' = s"
    | ref b shown where "settleLive now ref Cancelled CancelledOutcome shown s = Some (b, s')"
    | r c where "transact now (insert_record r) (pb_records s) = Inr (Some c, pb_records s')"
        "s' = s\<lparr>pb_records := pb_records s'\<rparr>" by blast
  then show ?thesis
  proof cases
    case 3
    have "pb_records s' = compacted_records now (pb_records s)"
      using transact_result [OF 3(1)] by (auto simp: insert_record_def Let_def split: if_splits)
    moreover have "only_cancels s (s\<lparr>pb_records := compacted_records now (pb_records s)\<rparr>)"
      by (simp add: only_cancels_def unique_ids_compacted)
    ultimately show ?thesis using 3(2) by simp
  qed (auto intro: settleLive_cancels)
qed

lemma broker_inv_step:
  assumes "broker_step dg (h, s) (h', s')" and inv: "broker_inv u h s"
  shows "broker_inv u h' s'"
  using assms(1)
proof cases
  case (request timeoutMillis token marker now rq ref p)
  with broker_inv_request [OF inv] show ?thesis by simp
next
  case (answered_request timeoutMillis token marker now rq prep)
  with broker_inv_cancels [OF inv answered_request_cancels] show ?thesis by simp
next
  case (bind now ref ts b)
  with broker_inv_bind [OF inv] show ?thesis by simp
next
  case (interact io reread io' reread' now i res)
  then have "claimInteraction dg io reread io' reread' now i s = (res, s')" by simp
  then have "s' = s \<or> (\<exists>ref p d. pb_heap s ref = Some p \<and> fits i p d \<and> claims ref p d s s')"
    by (rule claimInteraction_claims) (rule inv_cap [OF inv])
  then have "broker_inv u (h @ [i]) s'"
    using broker_inv_claims [OF broker_inv_more [OF inv]] broker_inv_more [OF inv] by fastforce
  with interact(1) show ?thesis by simp
next
  case completed
  with broker_inv_completed [OF inv] show ?thesis by simp
qed (use broker_inv_cancels [OF inv] cancelling_steps in \<open>auto simp: expire_request_def abandon_request_def\<close>)

lemma broker_inv_reachable:
  assumes "broker_reachable dg stored c" and "u \<Longrightarrow> unique_ids stored"
  shows "broker_inv u (fst c) (snd c)"
  using assms
proof (induction rule: broker_reachable.induct)
  case (start now s)
  then show ?case by (simp add: broker_inv_start)
next
  case (more c c')
  then show ?case using broker_inv_step by (cases c; cases c') auto
qed

end
