(* ===== verification/Permission_Records.thy ===== *)
theory Permission_Records
  imports Permission_Facts
begin

text \<open>
  The stored records of the broker: what every step keeps of each single record, stated as the
  interface \<open>record_law\<close> over the updates the broker makes, and the capacity of the store, which no
  update of the broker ever exceeds.
\<close>

section \<open>A law of every record\<close>

locale record_law =
  fixes dg :: digests and I :: "authority_record \<Rightarrow> bool"
  assumes new: "I (new_record dg p user t)"
    and cancel: "I r \<Longrightarrow> is_pending r \<Longrightarrow> I (terminalRecord r Cancelled t)"
    and bind: "I r \<Longrightarrow> is_pending r \<Longrightarrow> I (r\<lparr>ar_messageDigest := Some m\<rparr>)"
    and claim: "I r \<Longrightarrow> is_pending r \<Longrightarrow> ar_decisionIntent r = None \<Longrightarrow> authorityRecordMatches dg (Some t) p r \<Longrightarrow>
      I (r\<lparr>ar_decisionClaimedAt := Some t, ar_decisionIntent := Some k, ar_updatedAt := t\<rparr>)"
    and decide: "I r \<Longrightarrow> is_pending r \<Longrightarrow> decisionRecordMatches dg r p d \<Longrightarrow>
      decisionForInteraction i p = Some d \<Longrightarrow> I (terminalRecord r (de_state d) t)"
begin

abbreviation all_ok :: "authority_record list \<Rightarrow> bool" where
  "all_ok rs \<equiv> \<forall>r\<in>set rs. I r"

lemma all_compacted: "all_ok rs \<Longrightarrow> all_ok (compacted_records now rs)"
  using compacted_subset by blast

lemma all_transact:
  assumes "transact now update rs = Inr (v, rs')" and "all_ok (snd (update rs))"
  shows "all_ok rs'"
  using transact_result [OF assms(1)] all_compacted [OF assms(2)] by simp

lemma all_run:
  assumes "run_transact io now update rs = (v, rs')" and "all_ok rs" and "all_ok (snd (update rs))"
  shows "all_ok rs'"
  using assms(1) by (cases rule: run_transact_cases) (use assms(2,3) all_compacted in auto)

lemma all_settle: "all_ok rs \<Longrightarrow> all_ok (snd (settle_update rid Cancelled now rs))"
  by (auto simp: settle_update_def cancel is_pending_def)

lemma all_bind: "all_ok rs \<Longrightarrow> all_ok (snd (bind_update rid m rs))"
  by (auto simp: bind_update_def bind is_pending_def)

lemma same_record:
  assumes "unique_ids rs" and "find_record rid rs = Some r" and "q \<in> set rs" and "ar_recordId q = rid"
  shows "q = r"
proof -
  have "inj_on ar_recordId (set rs)" using assms(1) by (simp add: distinct_map)
  from inj_onD [OF this] show ?thesis using assms(3,4) find_record_SomeD [OF assms(2)] by simp
qed

lemma all_replaced:
  assumes "unique_ids rs" and "find_record rid rs = Some r" and "all_ok rs" and "I (f r)"
  shows "all_ok (map (\<lambda>c. if ar_recordId c = rid then f c else c) rs)"
proof
  fix q assume "q \<in> set (map (\<lambda>c. if ar_recordId c = rid then f c else c) rs)"
  then show "I q"
  proof (cases rule: replaced_mem)
    case (replaced c)
    with same_record [OF assms(1,2)] assms(4) show ?thesis by simp
  next
    case kept
    with assms(3) show ?thesis by simp
  qed
qed

lemma all_claim:
  assumes "unique_ids rs" and "all_ok rs"
  shows "all_ok (snd (claim_update dg p d t rs))"
proof (cases "find_record (lp_recordId p) rs")
  case None
  then show ?thesis using assms(2) by (simp add: claim_update_def)
next
  case (Some r)
  have "I r" using assms(2) find_record_SomeD [OF Some] by blast
  then have "I (r\<lparr>ar_decisionClaimedAt := Some t, ar_decisionIntent := Some (de_intent d), ar_updatedAt := t\<rparr>)"
    if "ar_state r = Pending" "authorityRecordMatches dg (Some t) p r" "ar_decisionIntent r = None"
    using that claim by (simp add: is_pending_def)
  with all_replaced [OF assms(1) Some assms(2), where f = "\<lambda>c. c\<lparr>ar_decisionClaimedAt := Some t,
      ar_decisionIntent := Some (de_intent d), ar_updatedAt := t\<rparr>"] show ?thesis
    using assms(2) by (auto simp: claim_update_def Some simp del: set_map)
qed

lemma all_persist:
  assumes "unique_ids rs" and "all_ok rs" and "decisionForInteraction i p = Some d"
  shows "all_ok (snd (persist_update dg p d t rs))"
proof (cases "find_record (lp_recordId p) rs")
  case None
  then show ?thesis using assms(2) by (simp add: persist_update_def)
next
  case (Some r)
  have "I r" using assms(2) find_record_SomeD [OF Some] by blast
  then have "I (terminalRecord r (de_state d) t)" if "ar_state r = Pending" "decisionRecordMatches dg r p d"
    using that decide [OF _ _ _ assms(3)] by (simp add: is_pending_def)
  with all_replaced [OF assms(1) Some assms(2), where f = "\<lambda>c. terminalRecord c (de_state d) t"]
  show ?thesis using assms(2) by (auto simp: persist_update_def Some simp del: set_map)
qed

lemma all_completion:
  assumes "startSharedCompletion dg io reread now ref p d s = (res, s')" and "decisionForInteraction i p = Some d"
    and "unique_ids (pb_records s)" and "all_ok (pb_records s)"
  shows "all_ok (pb_records s')"
proof (cases "pb_completions s (lp_recordId p)")
  case None
  let ?u = "persist_update dg p d now"
  obtain v rs where run: "run_transact io now ?u (pb_records s) = (v, rs)"
    by (cases "run_transact io now ?u (pb_records s)")
  have "pb_records s' = rs"
    using assms(1) None run
    by (auto simp: startSharedCompletion_def persistClaimOutcome_def split: option.splits if_splits)
  then show ?thesis using all_run [OF run assms(4) all_persist [OF assms(3,4,2)]] by simp
next
  case Some
  then show ?thesis using assms(1,4) by (simp add: startSharedCompletion_def)
qed

lemma all_claimed:
  assumes c: "claimInteraction dg io reread io' reread' now i s = (res, s')"
    and un: "unique_ids (pb_records s)" and ok: "all_ok (pb_records s)"
  shows "all_ok (pb_records s')"
proof (cases "s' = s")
  case False
  then obtain ref p d where d: "decisionForInteraction i p = Some d"
    "claim_section dg io reread io' reread' now ref p d s = (res, s')"
    using c by (auto simp: claimInteraction_def split: option.splits if_splits)
  let ?u = "claim_update dg p d now"
  obtain v rs where run: "run_transact io now ?u (pb_records s) = (v, rs)"
    by (cases "run_transact io now ?u (pb_records s)")
  have rs: "all_ok rs" using all_run [OF run ok all_claim [OF un ok]] .
  have "unique_ids rs" using run_transact_moves [OF run claim_update_moves] un by (simp add: moves_to_def)
  moreover have "s' = s\<lparr>pb_records := rs\<rparr> \<or>
      (\<exists>res'. startSharedCompletion dg io' reread' now ref p d (s\<lparr>pb_records := rs\<rparr>) = (res', s'))"
    using d(2) run by (auto simp: claim_section_def Let_def split: option.splits if_splits)
  ultimately show ?thesis using all_completion [OF _ d(1), of io' reread' now ref] rs by auto
qed (use ok in simp)

lemma all_settleLive:
  assumes "settleLive now ref Cancelled CancelledOutcome shown s = Some (b, s')" and "all_ok (pb_records s)"
  shows "all_ok (pb_records s')"
proof (cases "pb_heap s ref")
  case None
  then show ?thesis using assms by (simp add: settleLive_def)
next
  case (Some p)
  then obtain v rs where t: "transact now (settle_update (lp_recordId p) Cancelled now) (pb_records s) = Inr (v, rs)"
    and "pb_records s' = rs"
    using assms(1) by (auto simp: settleLive_def removeLive_def succeed_def Let_def split: sum.splits if_splits)
  with all_transact [OF t all_settle [OF assms(2)]] show ?thesis by simp
qed

lemma all_cancelMatching:
  "cancelMatching now P s = Some s' \<Longrightarrow> all_ok (pb_records s) \<Longrightarrow> all_ok (pb_records s')"
proof -
  have "settle_all now refs s = Some s' \<Longrightarrow> all_ok (pb_records s) \<Longrightarrow> all_ok (pb_records s')" for refs s s'
  proof (induction now refs s rule: settle_all.induct)
    case (2 now ref refs s)
    then show ?case by (auto split: option.splits dest: all_settleLive)
  qed simp
  then show "cancelMatching now P s = Some s' \<Longrightarrow> all_ok (pb_records s) \<Longrightarrow> all_ok (pb_records s')"
    unfolding cancelMatching_def by blast
qed

lemma all_requested:
  assumes "prepare_request dg timeoutMillis token marker now rq s = Some (prep, s')" and "all_ok (pb_records s)"
  shows "all_ok (pb_records s')"
proof -
  consider "s' = s" | ref b shown where "settleLive now ref Cancelled CancelledOutcome shown s = Some (b, s')"
    | p user v where "transact now (insert_record (new_record dg p user now)) (pb_records s) = Inr (v, pb_records s')"
    using assms(1)
    by (auto simp: prepare_request_def Let_def split: option.splits sum.splits prod.splits if_splits)
  then show ?thesis
  proof cases
    case (3 p user v)
    have "all_ok (snd (insert_record (new_record dg p user now) (pb_records s)))"
      using assms(2) new by (auto simp: insert_record_def Let_def)
    from all_transact [OF 3 this] show ?thesis .
  qed (use assms(2) all_settleLive in auto)
qed

lemma all_bound:
  assumes "bind_message dg now ref ts s = Some (b, s')" and "all_ok (pb_records s)"
  shows "all_ok (pb_records s')"
proof -
  have "pb_records s' = pb_records s \<or>
      (\<exists>rid m v. transact now (bind_update rid m) (pb_records s) = Inr (v, pb_records s'))"
    using assms(1) by (auto simp: bind_message_def Let_def split: option.splits sum.splits prod.splits if_splits)
  then show ?thesis using all_transact all_bind assms(2) by metis
qed

lemma all_step:
  assumes "broker_step dg (h, s) (h', s')" and "unique_ids (pb_records s)" and "all_ok (pb_records s)"
  shows "all_ok (pb_records s')"
  using assms(1)
proof cases
  case (activate now a)
  then show ?thesis using all_cancelMatching assms(3) by (auto simp: activateTurn_def)
next
  case (close_turn now a)
  then show ?thesis using all_cancelMatching assms(3)
    by (auto simp: close_turn_def Let_def split: if_splits dest!: all_cancelMatching)
next
  case (cancel_all now)
  then show ?thesis using assms(3) by (auto simp: cancelAll_def dest!: all_cancelMatching)
next
  case (request timeoutMillis token marker now rq ref p)
  then show ?thesis using all_requested assms(3) by blast
next
  case (answered_request timeoutMillis token marker now rq prep)
  then show ?thesis using all_requested assms(3) by blast
next
  case (bind now ref ts b)
  then show ?thesis using all_bound assms(3) by blast
next
  case (interact io reread io' reread' now i res)
  then have "claimInteraction dg io reread io' reread' now i s = (res, s')" by simp
  from all_claimed [OF this assms(2,3)] show ?thesis .
next
  case (completed rid)
  then have "pb_records s' = pb_records s"
    by (auto simp: finish_completion_def removeLive_def succeed_def Let_def split: option.splits)
  then show ?thesis using assms(3) by simp
qed (use all_settleLive assms(3) in \<open>auto simp: expire_request_def abandon_request_def\<close>)

lemma all_reachable:
  assumes "broker_reachable dg stored c" and un: "unique_ids stored" and ok: "all_ok stored"
  shows "all_ok (pb_records (snd c))"
  using assms(1)
proof (induction rule: broker_reachable.induct)
  case (start now s)
  let ?u = "\<lambda>records. let updated = map (\<lambda>r. if ar_state r = Pending then terminalRecord r Cancelled now else r) records
      in (updated, updated)"
  obtain v where t: "transact now ?u stored = Inr (v, pb_records s)"
    using start by (auto simp: make_broker_def split: sum.splits)
  have "all_ok (snd (?u stored))" using ok cancel by (auto simp: is_pending_def Let_def)
  from all_transact [OF t this] show ?case by simp
next
  case (more c c')
  have "unique_ids (pb_records (snd c))" using inv_unique [OF broker_inv_reachable [OF more(1) un]] by simp
  then show ?case using all_step [of "fst c" "snd c" "fst c'" "snd c'"] more by simp
qed

end

text \<open>
  A settled record was claimed before it expired, with the intent it carries, for a question that
  was posted; \<open>record_ok\<close> is such a law.
\<close>

definition record_ok :: "authority_record \<Rightarrow> bool" where
  "record_ok r \<longleftrightarrow>
     (ar_decisionIntent r \<noteq> None \<longrightarrow>
        ar_messageDigest r \<noteq> None \<and>
        (\<exists>t. ar_decisionClaimedAt r = Some t \<and> t < ar_expiresAt r)) \<and>
     (ar_state r = Allowed \<longrightarrow> ar_decisionIntent r = Some Allow) \<and>
     (ar_state r = Rejected \<longrightarrow> ar_decisionIntent r = Some Reject)"

lemma decision_intent_state:
  "decisionForInteraction i p = Some d \<Longrightarrow>
     de_state d = Allowed \<and> de_intent d = Allow \<or> de_state d = Rejected \<and> de_intent d = Reject"
  by (auto simp: decisionForInteraction_def split: if_splits)

lemma record_ok_new: "record_ok (new_record dg p user t)"
  by (simp add: record_ok_def new_record_def Let_def)

lemma record_ok_cancel: "record_ok r \<Longrightarrow> record_ok (terminalRecord r Cancelled t)"
  by (simp add: record_ok_def terminalRecord_def)

lemma record_ok_bind: "record_ok r \<Longrightarrow> record_ok (r\<lparr>ar_messageDigest := Some m\<rparr>)"
  by (simp add: record_ok_def)

lemma record_ok_claim:
  "record_ok r \<Longrightarrow> is_pending r \<Longrightarrow> authorityRecordMatches dg (Some t) p r \<Longrightarrow>
     record_ok (r\<lparr>ar_decisionClaimedAt := Some t, ar_decisionIntent := Some k, ar_updatedAt := t\<rparr>)"
  by (simp add: record_ok_def is_pending_def authorityRecordMatches_def Let_def)

lemma record_ok_decide:
  "record_ok r \<Longrightarrow> decisionRecordMatches dg r p d \<Longrightarrow> decisionForInteraction i p = Some d \<Longrightarrow>
     record_ok (terminalRecord r (de_state d) t)"
  by (drule decision_intent_state) (auto simp: record_ok_def terminalRecord_def decisionRecordMatches_def)

interpretation pr: record_law dg record_ok for dg
  by unfold_locales
    (simp_all add: record_ok_new record_ok_cancel record_ok_bind record_ok_claim record_ok_decide)

section \<open>Capacity\<close>

lemma pending_count_map:
  assumes "\<And>r. key (f r) = key r" and "\<And>r. is_pending (f r) \<Longrightarrow> is_pending r"
  shows "pending_count key v (map f rs) \<le> pending_count key v rs"
  using assms by (induction rs) (auto intro: le_SucI)

lemma counts_ok_map:
  assumes "counts_ok rs" and "\<And>r. is_pending (f r) \<Longrightarrow> is_pending r"
    and "\<And>r. ar_conversationDigest (f r) = ar_conversationDigest r"
      "\<And>r. ar_turnDigest (f r) = ar_turnDigest r" "\<And>r. ar_workspaceDigest (f r) = ar_workspaceDigest r"
  shows "counts_ok (map f rs)"
  using assms(1) pending_count_map [of _ f, OF _ assms(2)] assms(3-5) order.trans
  unfolding counts_ok_def by meson

lemma counts_ok_settle: "counts_ok rs \<Longrightarrow> st \<noteq> Pending \<Longrightarrow> counts_ok (snd (settle_update rid st now rs))"
  unfolding settle_update_def snd_conv by (erule counts_ok_map) (auto simp: terminalRecord_def is_pending_def split: if_splits)

lemma counts_ok_bind: "counts_ok rs \<Longrightarrow> counts_ok (snd (bind_update rid m rs))"
  unfolding bind_update_def snd_conv by (erule counts_ok_map) (auto simp: is_pending_def split: if_splits)

lemma counts_ok_insert: "counts_ok rs \<Longrightarrow> counts_ok (snd (insert_record r rs))"
  by (simp add: insert_record_def Let_def capacity_counts)

lemma within_counts: "within_bounds rs \<Longrightarrow> counts_ok rs"
  by (simp add: within_bounds_iff)

text \<open>So no section of the broker fails on the bounds check.\<close>

lemma transact_settle:
  "counts_ok rs \<Longrightarrow> transact now (settle_update rid Cancelled t) rs
     = Inr (fst (settle_update rid Cancelled t rs), compacted_records now (snd (settle_update rid Cancelled t rs)))"
  by (rule transact_Inr [where update = "settle_update rid Cancelled t"]) (simp add: counts_ok_settle)

lemma transact_bind:
  "counts_ok rs \<Longrightarrow> transact now (bind_update rid m) rs
     = Inr (fst (bind_update rid m rs), compacted_records now (snd (bind_update rid m rs)))"
  by (rule transact_Inr [where update = "bind_update rid m"]) (simp add: counts_ok_bind)

lemma transact_insert:
  "counts_ok rs \<Longrightarrow> transact now (insert_record r) rs
     = Inr (fst (insert_record r rs), compacted_records now (snd (insert_record r rs)))"
  by (rule transact_Inr [where update = "insert_record r"]) (simp add: counts_ok_insert)

lemma settleLive_total:
  "counts_ok (pb_records s) \<Longrightarrow> \<exists>s' b. settleLive now ref Cancelled response shown s = Some (b, s')"
  by (auto simp: settleLive_def Let_def transact_settle split: option.splits)

lemma bind_message_total: "counts_ok (pb_records s) \<Longrightarrow> \<exists>b s'. bind_message dg now ref ts s = Some (b, s')"
  by (auto simp: bind_message_def Let_def transact_bind split: option.splits)

lemma prepare_request_total:
  "counts_ok (pb_records s) \<Longrightarrow> \<exists>prep s'. prepare_request dg timeoutMillis token marker now rq s = Some (prep, s')"
  using settleLive_total [of s now _ CancelledOutcome ShownCancelled]
  by (auto simp: prepare_request_def Let_def transact_insert split: option.splits)

text \<open>Every successful transaction leaves the store within its bounds.\<close>

lemma settleLive_bounds:
  "settleLive now ref Cancelled response shown s = Some (b, s') \<Longrightarrow> within_bounds (pb_records s)
     \<Longrightarrow> within_bounds (pb_records s')"
  by (auto simp: settleLive_def removeLive_def succeed_def Let_def split: option.splits sum.splits if_splits
      dest!: transact_bounds)

lemma settle_all_bounds:
  "within_bounds (pb_records s) \<Longrightarrow> \<exists>s'. settle_all now refs s = Some s' \<and> within_bounds (pb_records s')"
proof (induction refs arbitrary: s)
  case (Cons ref refs)
  obtain b s1 where s1: "settleLive now ref Cancelled CancelledOutcome ShownCancelled s = Some (b, s1)"
    using settleLive_total [OF within_counts [OF Cons.prems]] by blast
  from Cons.IH [OF settleLive_bounds [OF s1 Cons.prems]] show ?case by (simp add: s1)
qed simp

lemma cancelMatching_bounds:
  "within_bounds (pb_records s) \<Longrightarrow> \<exists>s'. cancelMatching now P s = Some s' \<and> within_bounds (pb_records s')"
  by (simp add: cancelMatching_def settle_all_bounds)

lemma run_transact_bounds:
  "run_transact io now update rs = (v, rs') \<Longrightarrow> within_bounds rs \<Longrightarrow> within_bounds rs'"
  by (auto simp: run_transact_def split: sum.splits prod.splits txn_io.splits if_splits dest: transact_bounds)

lemma completion_bounds:
  assumes "startSharedCompletion dg io reread now ref p d s = (res, s')" and "within_bounds (pb_records s)"
  shows "within_bounds (pb_records s')"
proof -
  obtain v rs where run: "run_transact io now (persist_update dg p d now) (pb_records s) = (v, rs)"
    by (cases "run_transact io now (persist_update dg p d now) (pb_records s)")
  have "pb_records s' = pb_records s \<or> pb_records s' = rs"
    using assms(1) run
    by (auto simp: startSharedCompletion_def persistClaimOutcome_def split: option.splits if_splits)
  then show ?thesis using run_transact_bounds [OF run] assms(2) by auto
qed

lemma claim_section_cases:
  assumes "claim_section dg io reread io' reread' now ref p d s = (res, s')"
  obtains v rs where "run_transact io now (claim_update dg p d now) (pb_records s) = (v, rs)"
    and "s' = s\<lparr>pb_records := rs\<rparr> \<or>
      (\<exists>res'. startSharedCompletion dg io' reread' now ref p d (s\<lparr>pb_records := rs\<rparr>) = (res', s'))"
proof -
  obtain v rs where run: "run_transact io now (claim_update dg p d now) (pb_records s) = (v, rs)"
    by (cases "run_transact io now (claim_update dg p d now) (pb_records s)")
  show thesis
    by (rule that [OF run]) (use assms run in \<open>auto simp: claim_section_def Let_def split: option.splits if_splits\<close>)
qed

lemma claimInteraction_bounds:
  assumes c: "claimInteraction dg io reread io' reread' now i s = (res, s')" and w: "within_bounds (pb_records s)"
  shows "within_bounds (pb_records s')"
proof (cases "s' = s")
  case False
  then obtain ref p d where "claim_section dg io reread io' reread' now ref p d s = (res, s')"
    using c by (auto simp: claimInteraction_def split: option.splits if_splits)
  then obtain v rs where run: "run_transact io now (claim_update dg p d now) (pb_records s) = (v, rs)"
    and s': "s' = s\<lparr>pb_records := rs\<rparr> \<or>
      (\<exists>res'. startSharedCompletion dg io' reread' now ref p d (s\<lparr>pb_records := rs\<rparr>) = (res', s'))"
    by (rule claim_section_cases)
  have rs: "within_bounds rs" using run_transact_bounds [OF run w] .
  from s' show ?thesis
  proof
    assume "\<exists>res'. startSharedCompletion dg io' reread' now ref p d (s\<lparr>pb_records := rs\<rparr>) = (res', s')"
    then show ?thesis using completion_bounds rs by fastforce
  qed (simp add: rs)
qed (use w in simp)

lemma prepare_request_bounds:
  assumes "prepare_request dg timeoutMillis token marker now rq s = Some (prep, s')" and "within_bounds (pb_records s)"
  shows "within_bounds (pb_records s')"
proof -
  consider "s' = s" | ref b shown where "settleLive now ref Cancelled CancelledOutcome shown s = Some (b, s')"
    | r v where "transact now (insert_record r) (pb_records s) = Inr (v, pb_records s')"
    using assms(1)
    by (auto simp: prepare_request_def Let_def split: option.splits sum.splits prod.splits if_splits)
  then show ?thesis by cases (use assms(2) in \<open>auto dest: settleLive_bounds transact_bounds\<close>)
qed

lemma bind_message_bounds:
  assumes "bind_message dg now ref ts s = Some (b, s')" and "within_bounds (pb_records s)"
  shows "within_bounds (pb_records s')"
proof -
  have "pb_records s' = pb_records s \<or>
      (\<exists>rid m v. transact now (bind_update rid m) (pb_records s) = Inr (v, pb_records s'))"
    using assms(1) by (auto simp: bind_message_def Let_def split: option.splits sum.splits prod.splits if_splits)
  then show ?thesis using transact_bounds assms(2) by metis
qed

lemma turns_bounds:
  assumes "within_bounds (pb_records s)"
  shows activateTurn_bounds: "\<exists>s'. activateTurn now a s = Some s' \<and> within_bounds (pb_records s')"
    and close_turn_bounds: "\<exists>s'. close_turn now a s = Some s' \<and> within_bounds (pb_records s')"
    and cancelAll_bounds: "\<exists>s'. cancelAll now s = Some s' \<and> within_bounds (pb_records s')"
proof -
  show "\<exists>s'. activateTurn now a s = Some s' \<and> within_bounds (pb_records s')"
    using cancelMatching_bounds [OF assms, of now "\<lambda>p. pa_sessionId (lp_authority p) = pa_sessionId a"]
    by (auto simp: activateTurn_def)
  show "\<exists>s'. close_turn now a s = Some s' \<and> within_bounds (pb_records s')"
    using assms cancelMatching_bounds [of "s\<lparr>pb_closedTurns := insert (pa_ref a) (pb_closedTurns s)\<rparr>"]
      cancelMatching_bounds [of "s\<lparr>pb_closedTurns := insert (pa_ref a) (pb_closedTurns s),
        pb_activeTurns := (pb_activeTurns s)(pa_sessionId a := None)\<rparr>"]
    by (simp add: close_turn_def Let_def)
  show "\<exists>s'. cancelAll now s = Some s' \<and> within_bounds (pb_records s')"
    using assms cancelMatching_bounds [of "s\<lparr>pb_activeTurns := Map.empty\<rparr>"] by (simp add: cancelAll_def)
qed

lemma bounds_step:
  assumes "broker_step dg (h, s) (h', s')" and w: "within_bounds (pb_records s)"
  shows "within_bounds (pb_records s')"
  using assms(1)
proof cases
  case (activate now a)
  then show ?thesis using activateTurn_bounds [OF w, of now a] by auto
next
  case (close_turn now a)
  then show ?thesis using close_turn_bounds [OF w, of now a] by auto
next
  case (cancel_all now)
  then show ?thesis using cancelAll_bounds [OF w, of now] by auto
next
  case (request timeoutMillis token marker now rq ref p)
  then show ?thesis using prepare_request_bounds w by blast
next
  case (answered_request timeoutMillis token marker now rq prep)
  then show ?thesis using prepare_request_bounds w by blast
next
  case (bind now ref ts b)
  then show ?thesis using bind_message_bounds w by blast
next
  case (interact io reread io' reread' now i res)
  then have "claimInteraction dg io reread io' reread' now i s = (res, s')" by simp
  from claimInteraction_bounds [OF this w] show ?thesis .
next
  case (completed rid)
  then have "pb_records s' = pb_records s"
    by (auto simp: finish_completion_def removeLive_def succeed_def Let_def split: option.splits)
  then show ?thesis using w by simp
qed (use settleLive_bounds w in \<open>auto simp: expire_request_def abandon_request_def\<close>)

lemma reachable_bounds:
  assumes "broker_reachable dg stored c"
  shows "within_bounds (pb_records (snd c))"
  using assms
proof (induction rule: broker_reachable.induct)
  case (start now s)
  then show ?case by (auto simp: make_broker_def split: sum.splits dest: transact_bounds)
next
  case (more c c')
  then show ?case using bounds_step [of dg "fst c" "snd c" "fst c'" "snd c'"] by simp
qed

section \<open>A click in time\<close>

lemma find_record_mem: "unique_ids rs \<Longrightarrow> r \<in> set rs \<Longrightarrow> find_record (ar_recordId r) rs = Some r"
  unfolding find_record_def by (induction rs) auto

definition claimed_at :: "int \<Rightarrow> decision_intent \<Rightarrow> authority_record \<Rightarrow> authority_record" where
  "claimed_at t k r = r\<lparr>ar_decisionClaimedAt := Some t, ar_decisionIntent := Some k, ar_updatedAt := t\<rparr>"

lemma claimed_at_simps [simp]:
  "ar_recordId (claimed_at t k r) = ar_recordId r" "ar_state (claimed_at t k r) = ar_state r"
  "is_pending (claimed_at t k r) = is_pending r"
  by (simp_all add: claimed_at_def is_pending_def)

lemma claimed_at_matches:
  assumes "authorityRecordMatches dg (Some t) p r"
  shows "decisionRecordMatches dg (claimed_at t (de_intent d) r) p d"
  using assms by (simp add: decisionRecordMatches_def authorityRecordMatches_def claimed_at_def Let_def)

text \<open>The claim of a pending record, and the record after it.\<close>

lemma claim_update_pending:
  assumes "find_record (lp_recordId p) rs = Some r" and "ar_state r = Pending" and "ar_decisionIntent r = None"
    and "authorityRecordMatches dg (Some t) p r"
  shows "claim_update dg p d t rs = (Claimed,
      map (\<lambda>c. if ar_recordId c = lp_recordId p then claimed_at t (de_intent d) c else c) rs)"
  using assms by (simp add: claim_update_def claimed_at_def decisionRecordMatches_def)

lemma claimed_record_found:
  fixes t :: int and k :: decision_intent
  assumes b: "within_bounds rs" and un: "unique_ids rs" and r: "find_record rid rs = Some r"
    and pend: "ar_state r = Pending"
  defines "rs1 \<equiv> map (\<lambda>c. if ar_recordId c = rid then claimed_at t k c else c) rs"
  shows "counts_ok rs1" and "find_record rid (compacted_records now rs1) = Some (claimed_at t k r)"
proof -
  show "counts_ok rs1"
    unfolding rs1_def by (rule counts_ok_map [OF within_counts [OF b]]) (auto simp: claimed_at_def is_pending_def split: if_splits)
  have "map ar_recordId rs1 = map ar_recordId rs" by (simp add: rs1_def)
  then have un1: "unique_ids (compacted_records now rs1)" using un unique_ids_compacted by metis
  have "length (filter is_pending rs1) = length (filter is_pending rs)"
    by (simp add: rs1_def filter_map comp_def if_distrib cong: if_cong)
  then have le: "length (filter is_pending rs1) \<le> ACP_AUTHORITY_MAX_PENDING_PER_WORKSPACE"
    using b by (simp add: within_bounds_iff)
  have mem: "claimed_at t k r \<in> set rs1"
    using find_record_SomeD [OF r] by (auto simp: rs1_def intro!: rev_image_eqI)
  have "claimed_at t k r \<in> set (compacted_records now rs1)"
    by (rule pending_kept [OF mem _ le]) (use pend in \<open>simp add: is_pending_def\<close>)
  from find_record_mem [OF un1 this] show "find_record rid (compacted_records now rs1) = Some (claimed_at t k r)"
    using find_record_SomeD(2) [OF r] by simp
qed

lemma persist_claimed:
  assumes "find_record (lp_recordId p) rs = Some r" and "ar_state r = Pending"
    and "decisionRecordMatches dg r p d" and "counts_ok rs" and "de_state d \<noteq> Pending"
  shows "\<exists>rs'. persistClaimOutcome dg TxnOk reread now p d rs = (Claimed, rs')"
proof -
  let ?rs = "map (\<lambda>c. if ar_recordId c = lp_recordId p then terminalRecord c (de_state d) now else c) rs"
  have u: "persist_update dg p d now rs = (Claimed, ?rs)"
    using assms(1-3,5) by (simp add: persist_update_def)
  have "counts_ok ?rs"
    by (rule counts_ok_map [OF assms(4)]) (use assms(5) in \<open>auto simp: terminalRecord_def is_pending_def split: if_splits\<close>)
  then have "transact now (persist_update dg p d now) rs = Inr (Claimed, compacted_records now ?rs)"
    using transact_Inr [where update = "persist_update dg p d now" and rs = rs] by (simp add: u)
  then show ?thesis by (simp add: persistClaimOutcome_def run_transact_def)
qed

lemma click_answers:
  assumes b: "within_bounds (pb_records s)" and un: "unique_ids (pb_records s)"
    and ref: "map_of (pb_byCapability s) (in_capability i) = Some ref" and p: "pb_heap s ref = Some p"
    and match: "interactionMatchesPermission i p (pb_activeTurns s (pa_sessionId (lp_authority p)))"
    and d: "decisionForInteraction i p = Some d"
    and r: "find_record (lp_recordId p) (pb_records s) = Some r" and pend: "ar_state r = Pending"
    and no: "ar_decisionIntent r = None" and auth: "authorityRecordMatches dg (Some now) p r"
    and idle: "pb_completions s (lp_recordId p) = None" and undecided: "pb_decisions s ref = None"
  shows "\<exists>s'. claimInteraction dg TxnOk reread TxnOk reread' now i s = (Claimed, s') \<and>
    pb_decisions (finish_completion (lp_recordId p) s') ref = Some (SelectedOutcome (de_optionId d))"
proof -
  let ?rs = "map (\<lambda>c. if ar_recordId c = lp_recordId p then claimed_at now (de_intent d) c else c) (pb_records s)"
  note found = claimed_record_found(1) [OF b un r pend, where t = now and k = "de_intent d"]
    claimed_record_found(2) [OF b un r pend, where t = now and k = "de_intent d" and now = now]
  have u: "claim_update dg p d now (pb_records s) = (Claimed, ?rs)"
    using claim_update_pending [OF r pend no auth] .
  have t: "run_transact TxnOk now (claim_update dg p d now) (pb_records s) = (Some Claimed, compacted_records now ?rs)"
    using transact_Inr [where update = "claim_update dg p d now" and rs = "pb_records s"] found(1)
    by (simp add: u run_transact_def)
  have "counts_ok (compacted_records now ?rs)"
    using compacted_within_bounds [OF found(1)] within_counts by blast
  then obtain rs' where pc: "persistClaimOutcome dg TxnOk reread' now p d (compacted_records now ?rs) = (Claimed, rs')"
    using persist_claimed [OF found(2) _ claimed_at_matches [OF auth] _ decision_not_pending [OF d]] pend by auto
  have "lp_messageTs p \<noteq> None" using match by (simp add: interactionMatchesPermission_def)
  then have "claimInteraction dg TxnOk reread TxnOk reread' now i s = (Claimed, s\<lparr>pb_records := rs',
      pb_completions := (pb_completions s)(lp_recordId p \<mapsto> (ref, d))\<rparr>)"
    using ref p d match t pc idle
    by (simp add: claimInteraction_def claim_section_def startSharedCompletion_def Let_def)
  then show ?thesis
    using p undecided by (simp add: finish_completion_def removeLive_def succeed_def Let_def)
qed

end
