(* ===== verification/Permission_Samples.thy ===== *)
theory Permission_Samples
  imports Permission_Records
begin

text \<open>A run of the permission broker: a question is asked, posted, answered in time and finished.\<close>

definition plain :: digests where
  "plain = \<lparr>dg_digest = (\<lambda>ns v. v), dg_identity = (\<lambda>p s t u. p @ s @ t @ u),
     dg_arguments = tc_content, dg_input = (\<lambda>os t. tc_content t),
     dg_message = (\<lambda>c r ts. c @ r @ (case ts of None \<Rightarrow> '''' | Some t \<Rightarrow> t))\<rparr>"

definition turn :: turn_authority where
  "turn = \<lparr>pa_ref = 1, pa_bindingGeneration = 0, pa_channelId = ''C'', pa_conversationId = ''v'',
     pa_processGeneration = 0, pa_promptId = ''p'', pa_rootTs = ''1'', pa_sessionId = ''s'', pa_turnId = ''t'',
     pa_workspaceId = ''W'', pa_authorizedSlackUserId = Some ''U''\<rparr>"

definition question :: permission_request where
  "question = \<lparr>rq_sessionId = ''s'',
     rq_options = [\<lparr>po_kind = ''allow_once'', po_optionId = ''a''\<rparr>, \<lparr>po_kind = ''reject_once'', po_optionId = ''r''\<rparr>],
     rq_toolCall = \<lparr>tc_toolCallId = ''x'', tc_kind = Some ''execute'', tc_content = ''ls''\<rparr>\<rparr>"

definition click :: interaction where
  "click = \<lparr>in_actionId = ACP_PERMISSION_ALLOW_ACTION_ID, in_capability = ''k'', in_channelId = ''C'',
     in_messageTs = ''2'', in_rootTs = ''1'', in_slackUserId = ''U'', in_workspaceId = ''W''\<rparr>"

definition no_broker :: broker where
  "no_broker = \<lparr>pb_activeTurns = Map.empty, pb_closedTurns = {}, pb_heap = Map.empty, pb_nextRef = 0,
     pb_byCapability = [], pb_byRequestIdentity = Map.empty, pb_completions = Map.empty,
     pb_messageReady = {}, pb_decisions = Map.empty, pb_records = [], pb_presented = []\<rparr>"

definition after :: "'a \<Rightarrow> 'a option \<Rightarrow> 'a" where
  "after d x = (case x of None \<Rightarrow> d | Some y \<Rightarrow> y)"

definition started :: broker where "started = after no_broker (make_broker 0 [])"
definition activated :: broker where "activated = after no_broker (activateTurn 1 turn started)"

definition asked :: broker where
  "asked = snd (after (PrepCancelled, no_broker) (prepare_request plain 100 ''k'' ''m'' 10 question activated))"

definition posted :: broker where
  "posted = snd (after (False, no_broker) (bind_message plain 11 0 ''2'' asked))"

definition clicked :: broker where
  "clicked = snd (claimInteraction plain TxnOk True TxnOk True 20 click posted)"

definition question_id :: string where "question_id = ''psxt'' @ [CHR 0x00] @ ''k''"

definition granted :: broker where "granted = finish_completion question_id clicked"

lemma afterI: "map_option g x = Some z \<Longrightarrow> x = Some (after d x)"
  by (cases x) (simp_all add: after_def)

lemma after_pairI: "map_option fst x = Some z \<Longrightarrow> x = Some (z, snd (after d x))"
  by (cases x) (auto simp: after_def)

lemma started_step: "make_broker 0 [] = Some started"
  unfolding started_def by (rule afterI [where g = pb_nextRef and z = 0]) code_simp

lemma activated_step: "activateTurn 1 turn started = Some activated"
  unfolding activated_def by (rule afterI [where g = pb_nextRef and z = 0]) code_simp

lemma asked_step: "prepare_request plain 100 ''k'' ''m'' 10 question activated = Some (PrepCreated 0, asked)"
  unfolding asked_def by (rule after_pairI) code_simp

lemma posted_step: "bind_message plain 11 0 ''2'' asked = Some (True, posted)"
  unfolding posted_def by (rule after_pairI) code_simp

lemma clicked_result: "fst (claimInteraction plain TxnOk True TxnOk True 20 click posted) = Claimed"
  by code_simp

lemma clicked_step: "claimInteraction plain TxnOk True TxnOk True 20 click posted = (Claimed, clicked)"
  using clicked_result by (simp add: clicked_def prod_eq_iff)

lemma asked_object: "map_option lp_recordId (pb_heap asked 0) = Some question_id \<and>
    map_option lp_messageTs (pb_heap asked 0) = Some None"
  by code_simp

lemma asked_fresh: "\<exists>p. pb_heap asked 0 = Some p \<and> fresh_request activated p"
proof -
  have "pb_heap activated = Map.empty" "pb_byCapability activated = []" "pb_records activated = []"
    by (simp_all add: activated_def started_def after_def make_broker_def transact_def compactRecords_def
        compacted_records_def assertAuthorityRecordBounds_def some_count_above_def activateTurn_def
        cancelMatching_def Let_def)
  then show ?thesis using asked_object by (auto simp: fresh_request_def)
qed

lemma posted_reachable: "broker_reachable plain [] ([], posted)"
proof -
  note more = broker_reachable.more [where dg = plain and stored = "[]"]
  obtain p where p: "pb_heap asked 0 = Some p" "fresh_request activated p" using asked_fresh by blast
  have "broker_reachable plain [] ([], started)" using started_step by (rule broker_reachable.start)
  from more [OF this broker_step.activate [OF activated_step]]
  have "broker_reachable plain [] ([], activated)" .
  from more [OF this broker_step.request [OF asked_step p]]
  have "broker_reachable plain [] ([], asked)" .
  moreover have "unbound asked 0" using asked_object by (auto simp: unbound_def split: option.splits)
  ultimately show "broker_reachable plain [] ([], posted)"
    using more broker_step.bind [OF posted_step] by blast
qed

lemma granted_reachable: "broker_reachable plain [] ([click], granted)"
proof -
  note more = broker_reachable.more [where dg = plain and stored = "[]"]
  from more [OF posted_reachable broker_step.interact [OF clicked_step]]
  have "broker_reachable plain [] ([click], clicked)" by simp
  from more [OF this broker_step.completed [where recordId = question_id]]
  show ?thesis by (simp add: granted_def)
qed

lemma granted_decision: "pb_decisions granted 0 = Some (SelectedOutcome ''a'')"
  by code_simp

lemma granted_records: "map ar_state (pb_records granted) = [Allowed]"
  by code_simp

lemma posted_object: "map_option lp_recordId (pb_heap posted 0) = Some question_id \<and>
    map_option lp_allowOptionId (pb_heap posted 0) = Some ''a''"
  by code_simp

lemma posted_record:
  "case pb_heap posted 0 of None \<Rightarrow> False | Some p \<Rightarrow>
     (case find_record (lp_recordId p) (pb_records posted) of None \<Rightarrow> False | Some r \<Rightarrow>
       ar_state r = Pending \<and> ar_decisionIntent r = None \<and> authorityRecordMatches plain (Some 20) p r)"
  by code_simp

lemma posted_matches:
  "case pb_heap posted 0 of None \<Rightarrow> False | Some p \<Rightarrow>
     interactionMatchesPermission click p (pb_activeTurns posted (pa_sessionId (lp_authority p)))"
  by code_simp

lemma posted_capability: "map_of (pb_byCapability posted) (in_capability click) = Some 0"
  by code_simp

lemma posted_idle: "pb_completions posted question_id = None \<and> pb_decisions posted 0 = None"
  by code_simp

text \<open>A store with the limit of pending records, in two workspaces, and one more of a third.\<close>

definition pending_record :: "nat \<Rightarrow> authority_record" where
  "pending_record n =
     (new_record plain (new_permission plain turn \<lparr>po_kind = ''allow_once'', po_optionId = ''a''\<rparr>
        \<lparr>po_kind = ''reject_once'', po_optionId = ''r''\<rparr> (rq_toolCall question) ''i'' ''j'' ''k'' ''d'' ''m'' 100) ''U'' 10)
       \<lparr>ar_recordId := replicate n CHR ''a'', ar_turnDigest := replicate (n div 4) CHR ''t'',
        ar_conversationDigest := replicate (n div 16) CHR ''c'', ar_workspaceDigest := replicate (n div 32) CHR ''w''\<rparr>"

definition full_store :: "authority_record list" where
  "full_store = map pending_record [0..<64]"

lemma pending_record_simps [simp]:
  "ar_recordId (pending_record n) = replicate n CHR ''a''" "is_pending (pending_record n)"
  "ar_turnDigest (pending_record n) = replicate (n div 4) CHR ''t''"
  "ar_conversationDigest (pending_record n) = replicate (n div 16) CHR ''c''"
  "ar_workspaceDigest (pending_record n) = replicate (n div 32) CHR ''w''"
  by (simp_all add: pending_record_def is_pending_def new_record_def Let_def)

text \<open>Not many of the records share a digest that takes the same value a few times in a row.\<close>

lemma count_in_rows:
  assumes key: "\<And>n. key (pending_record n) = replicate (n div k) c" and k: "0 < k"
  shows "pending_count key v (map pending_record [0..<m]) \<le> k"
proof -
  have "pending_count key v (map pending_record ns) = length (filter (\<lambda>n. replicate (n div k) c = v) ns)" for ns
    using key by (induction ns) auto
  moreover have "set (filter (\<lambda>n. replicate (n div k) c = v) [0..<m]) \<subseteq> {length v * k..<length v * k + k}"
  proof
    fix n assume "n \<in> set (filter (\<lambda>n. replicate (n div k) c = v) [0..<m])"
    then have "n div k = length v" by auto
    then show "n \<in> {length v * k..<length v * k + k}"
      using dividend_less_times_div [OF k, of n] times_div_less_eq_dividend [of k n]
      by (simp add: mult.commute add.commute)
  qed
  from card_mono [OF finite_atLeastLessThan this]
  have "card (set (filter (\<lambda>n. replicate (n div k) c = v) [0..<m])) \<le> k" by simp
  moreover have "distinct (filter (\<lambda>n. replicate (n div k) c = v) [0..<m])" by simp
  ultimately show ?thesis by (simp only: distinct_card)
qed

lemma full_store_counts: "counts_ok full_store"
  unfolding counts_ok_def full_store_def authority_limits
proof (intro allI conjI)
  fix v
  show "pending_count ar_conversationDigest v (map pending_record [0..<64]) \<le> 16"
    and "pending_count ar_turnDigest v (map pending_record [0..<64]) \<le> 4"
    by (rule count_in_rows [where c = "CHR ''c''"], simp_all)
      (rule count_in_rows [where c = "CHR ''t''"], simp_all)
  have "pending_count ar_workspaceDigest v (map pending_record [0..<64]) \<le> 32"
    by (rule count_in_rows [where c = "CHR ''w''"]) simp_all
  then show "pending_count ar_workspaceDigest v (map pending_record [0..<64]) \<le> 64" by simp
qed

lemma full_store_full: "filter is_pending full_store = full_store" "length full_store = 64"
  by (simp_all add: full_store_def filter_id_conv)

lemma full_store_bounds: "within_bounds full_store"
  by (simp add: within_bounds_iff full_store_counts full_store_full authority_limits)

lemma no_count_other: "\<lbrakk>\<And>r. r \<in> set rs \<Longrightarrow> key r \<noteq> v\<rbrakk> \<Longrightarrow> pending_count key v rs = 0"
  by (induction rs) auto

text \<open>The request of a third workspace is within every limit.\<close>

lemma full_store_accepts:
  "pendingPermissionCapacityExceeded full_store (pending_record 64) = None"
proof -
  have "pending_count key (key (pending_record 64)) full_store = 0"
    if "\<And>n. key (pending_record n) = replicate (n div k) c" "0 < k" "64 mod k = 0" for key k c
    unfolding full_store_def
  proof (rule no_count_other)
    fix r assume "r \<in> set (map pending_record [0..<64])"
    then obtain n where n: "r = pending_record n" "n < 64" by auto
    have "n div k < 64 div k"
    proof (rule less_mult_imp_div_less)
      show "n < 64 div k * k" using n(2) that(3) by (simp add: dvd_div_mult_self mod_eq_0_iff_dvd)
    qed
    then show "key r \<noteq> key (pending_record 64)" by (auto simp: n(1) that(1) replicate_eq_replicate)
  qed
  note none = this
  have "pending_count ar_conversationDigest (ar_conversationDigest (pending_record 64)) full_store = 0"
    by (rule none [where k = 16 and c = "CHR ''c''"]) simp_all
  moreover have "pending_count ar_turnDigest (ar_turnDigest (pending_record 64)) full_store = 0"
    by (rule none [where k = 4 and c = "CHR ''t''"]) simp_all
  moreover have "pending_count ar_workspaceDigest (ar_workspaceDigest (pending_record 64)) full_store = 0"
    by (rule none [where k = 32 and c = "CHR ''w''"]) simp_all
  ultimately show ?thesis
    unfolding pendingPermissionCapacityExceeded_def Let_def authority_limits by simp
qed

lemma full_store_ids: "ar_recordId (pending_record 64) \<notin> ar_recordId ` set full_store"
  by (auto simp: full_store_def dest!: arg_cong [where f = length])

end
