(* ===== verification/Laborer_Rows.thy ===== *)
theory Laborer_Rows
  imports Prelude
begin

text \<open>
  The rows of the laborer database and the inputs of its operations
  (\<open>packages/server/src/services/native-laborer-database.ts\<close>, \<open>review-comments.ts\<close> and the
  checks of \<open>packages/task-db/src/migrations\<close>). A stored row is a typed record: what the row
  decoders reject cannot be built. A column that may be null is an option; times, revisions and
  sequence numbers are integers, a sort order is a rational. Stored JSON columns (labels, check
  runs) hold the value they encode.
\<close>

section \<open>Enumerations\<close>

datatype task_status = TaskTodo | TaskInProgress | TaskInReview | TaskDone | TaskCancelled

datatype task_source = SourceExecution | SourceManual | SourceSlackUrl | SourceAgent | SourceWorktree

datatype execution_status =
    ExecQueued | ExecRunning | ExecCancelling | ExecCompleted | ExecFailed | ExecCancelled | ExecNeedsAttention

datatype worktree_status = WorktreeProvisioning | WorktreeReady | WorktreeErrored

datatype pull_request_state = PullOpen | PullClosed | PullMerged

datatype merge_status = MergeClean | MergeConflicting | MergeUnknown

datatype check_status = CheckPending | CheckSuccess | CheckFailure

datatype review_decision = ReviewApproved | ReviewChangesRequested | ReviewRequired

datatype check_bucket = BucketSuccess | BucketFailure | BucketPending | BucketSkipped | BucketCancelled

record check_run =
  cr_bucket :: check_bucket
  cr_durationMs :: "rat option"
  cr_group :: "string option"
  cr_name :: string
  cr_url :: "string option"

definition MAX_PULL_REQUEST_CHECK_RUNS :: nat where
  "MAX_PULL_REQUEST_CHECK_RUNS = 60"

section \<open>Tasks\<close>

record task =
  t_actionName :: "string option"
  t_baseBranch :: "string option"
  t_baseSha :: "string option"
  t_branchName :: "string option"
  t_createdAt :: int
  t_description :: "string option"
  t_executionId :: "string option"
  t_executionStatus :: "execution_status option"
  t_id :: string
  t_labelIds :: "string list"
  t_parentTaskId :: "string option"
  t_prApprovals :: "nat option"
  t_prAuthorLogin :: "string option"
  t_prBaseBranch :: "string option"
  t_prCheckStatus :: "check_status option"
  t_prChecks :: "check_run list option"
  t_prIsDraft :: bool
  t_prMergeStatus :: "merge_status option"
  t_prNumber :: "int option"
  t_prReviewDecision :: "review_decision option"
  t_prState :: "pull_request_state option"
  t_prTitle :: "string option"
  t_prUnresolvedThreads :: "int option"
  t_prUrl :: "string option"
  t_revision :: int
  t_rootPath :: string
  t_setupCompletedAt :: "int option"
  t_slackPermalink :: "string option"
  t_sortOrder :: "rat option"
  t_source :: task_source
  t_status :: task_status
  t_taskNumber :: int
  t_title :: string
  t_updatedAt :: int
  t_worktreeError :: "string option"
  t_worktreePath :: "string option"
  t_worktreeStatus :: "worktree_status option"

text \<open>
  The input of an insertion: \<open>undefined\<close> and \<open>null\<close> mean the same except for the sort order and
  the times, where the outer option is \<open>undefined\<close>.
\<close>

record new_task =
  nt_actionName :: "string option"
  nt_baseBranch :: "string option"
  nt_baseSha :: "string option"
  nt_branchName :: "string option"
  nt_createdAt :: "int option"
  nt_description :: "string option"
  nt_executionId :: "string option"
  nt_executionStatus :: "execution_status option"
  nt_id :: string
  nt_labelIds :: "string list"
  nt_parentTaskId :: "string option"
  nt_prApprovals :: "nat option"
  nt_prAuthorLogin :: "string option"
  nt_prBaseBranch :: "string option"
  nt_prCheckStatus :: "check_status option"
  nt_prChecks :: "check_run list option"
  nt_prIsDraft :: bool
  nt_prMergeStatus :: "merge_status option"
  nt_prNumber :: "int option"
  nt_prReviewDecision :: "review_decision option"
  nt_prState :: "pull_request_state option"
  nt_prTitle :: "string option"
  nt_prUnresolvedThreads :: "int option"
  nt_prUrl :: "string option"
  nt_rootPath :: string
  nt_setupCompletedAt :: "int option"
  nt_slackPermalink :: "string option"
  nt_sortOrder :: "rat option option"
  nt_source :: task_source
  nt_status :: task_status
  nt_title :: string
  nt_worktreeError :: "string option"
  nt_worktreePath :: "string option"
  nt_worktreeStatus :: "worktree_status option"

record adopted_worktree =
  aw_baseBranch :: "string option"
  aw_baseSha :: "string option"
  aw_branchName :: "string option"
  aw_id :: string
  aw_parentTaskId :: "string option"
  aw_rootPath :: string
  aw_title :: string
  aw_worktreePath :: string
  aw_worktreePathAliases :: "string list"

text \<open>A patch is the list of the fields it has, in the order of \<open>TASK_PATCH_FIELDS\<close>.\<close>

datatype task_patch =
    Set_actionName "string option" | Set_baseBranch "string option" | Set_baseSha "string option"
  | Set_branchName "string option" | Set_description "string option" | Set_executionId "string option"
  | Set_executionStatus "execution_status option" | Set_parentTaskId "string option"
  | Set_prAuthorLogin "string option" | Set_prBaseBranch "string option"
  | Set_prCheckStatus "check_status option" | Set_prChecks "check_run list option" | Set_prIsDraft bool
  | Set_prMergeStatus "merge_status option" | Set_prNumber "int option" | Set_prApprovals "nat option"
  | Set_prReviewDecision "review_decision option" | Set_prState "pull_request_state option"
  | Set_prTitle "string option" | Set_prUnresolvedThreads "int option" | Set_prUrl "string option"
  | Set_rootPath string | Set_setupCompletedAt "int option" | Set_slackPermalink "string option"
  | Set_sortOrder "rat option" | Set_status task_status | Set_title string
  | Set_worktreeError "string option" | Set_worktreePath "string option"
  | Set_worktreeStatus "worktree_status option"

text \<open>The stored form of check runs: no runs is null, and at most sixty are kept.\<close>

definition serializeCheckRuns :: "check_run list option \<Rightarrow> check_run list option" where
  "serializeCheckRuns runs =
     (case runs of
        None \<Rightarrow> None
      | Some rs \<Rightarrow> if rs = [] then None else Some (take MAX_PULL_REQUEST_CHECK_RUNS rs))"

fun apply_patch :: "task_patch \<Rightarrow> task \<Rightarrow> task" where
  "apply_patch (Set_actionName v) t = t\<lparr>t_actionName := v\<rparr>"
| "apply_patch (Set_baseBranch v) t = t\<lparr>t_baseBranch := v\<rparr>"
| "apply_patch (Set_baseSha v) t = t\<lparr>t_baseSha := v\<rparr>"
| "apply_patch (Set_branchName v) t = t\<lparr>t_branchName := v\<rparr>"
| "apply_patch (Set_description v) t = t\<lparr>t_description := v\<rparr>"
| "apply_patch (Set_executionId v) t = t\<lparr>t_executionId := v\<rparr>"
| "apply_patch (Set_executionStatus v) t = t\<lparr>t_executionStatus := v\<rparr>"
| "apply_patch (Set_parentTaskId v) t = t\<lparr>t_parentTaskId := v\<rparr>"
| "apply_patch (Set_prAuthorLogin v) t = t\<lparr>t_prAuthorLogin := v\<rparr>"
| "apply_patch (Set_prBaseBranch v) t = t\<lparr>t_prBaseBranch := v\<rparr>"
| "apply_patch (Set_prCheckStatus v) t = t\<lparr>t_prCheckStatus := v\<rparr>"
| "apply_patch (Set_prChecks v) t = t\<lparr>t_prChecks := serializeCheckRuns v\<rparr>"
| "apply_patch (Set_prIsDraft v) t = t\<lparr>t_prIsDraft := v\<rparr>"
| "apply_patch (Set_prMergeStatus v) t = t\<lparr>t_prMergeStatus := v\<rparr>"
| "apply_patch (Set_prNumber v) t = t\<lparr>t_prNumber := v\<rparr>"
| "apply_patch (Set_prApprovals v) t = t\<lparr>t_prApprovals := v\<rparr>"
| "apply_patch (Set_prReviewDecision v) t = t\<lparr>t_prReviewDecision := v\<rparr>"
| "apply_patch (Set_prState v) t = t\<lparr>t_prState := v\<rparr>"
| "apply_patch (Set_prTitle v) t = t\<lparr>t_prTitle := v\<rparr>"
| "apply_patch (Set_prUnresolvedThreads v) t = t\<lparr>t_prUnresolvedThreads := v\<rparr>"
| "apply_patch (Set_prUrl v) t = t\<lparr>t_prUrl := v\<rparr>"
| "apply_patch (Set_rootPath v) t = t\<lparr>t_rootPath := v\<rparr>"
| "apply_patch (Set_setupCompletedAt v) t = t\<lparr>t_setupCompletedAt := v\<rparr>"
| "apply_patch (Set_slackPermalink v) t = t\<lparr>t_slackPermalink := v\<rparr>"
| "apply_patch (Set_sortOrder v) t = t\<lparr>t_sortOrder := v\<rparr>"
| "apply_patch (Set_status v) t = t\<lparr>t_status := v\<rparr>"
| "apply_patch (Set_title v) t = t\<lparr>t_title := v\<rparr>"
| "apply_patch (Set_worktreeError v) t = t\<lparr>t_worktreeError := v\<rparr>"
| "apply_patch (Set_worktreePath v) t = t\<lparr>t_worktreePath := v\<rparr>"
| "apply_patch (Set_worktreeStatus v) t = t\<lparr>t_worktreeStatus := v\<rparr>"

lemma apply_patch_keeps [simp]:
  "t_id (apply_patch p t) = t_id t"
  "t_revision (apply_patch p t) = t_revision t"
  "t_labelIds (apply_patch p t) = t_labelIds t"
  "t_taskNumber (apply_patch p t) = t_taskNumber t"
  by (cases p; simp)+

section \<open>Projects, settings, labels and review comments\<close>

record project =
  p_branchName :: "string option"
  p_canonicalGitCommonDir :: string
  p_color :: "string option"
  p_createdAt :: int
  p_iconDataUrl :: "string option"
  p_id :: string
  p_name :: string
  p_repoId :: string
  p_revision :: int
  p_rootPath :: string
  p_sortOrder :: "rat option"
  p_updatedAt :: int

record new_project =
  np_branchName :: "string option"
  np_canonicalGitCommonDir :: string
  np_color :: "string option"
  np_createdAt :: "int option"
  np_iconDataUrl :: "string option"
  np_id :: string
  np_name :: string
  np_repoId :: string
  np_rootPath :: string

datatype project_patch =
    Set_project_branchName "string option" | Set_canonicalGitCommonDir string | Set_color "string option"
  | Set_iconDataUrl "string option" | Set_name string | Set_repoId string | Set_project_rootPath string
  | Set_project_sortOrder "rat option"

fun apply_project_patch :: "project_patch \<Rightarrow> project \<Rightarrow> project" where
  "apply_project_patch (Set_project_branchName v) p = p\<lparr>p_branchName := v\<rparr>"
| "apply_project_patch (Set_canonicalGitCommonDir v) p = p\<lparr>p_canonicalGitCommonDir := v\<rparr>"
| "apply_project_patch (Set_color v) p = p\<lparr>p_color := v\<rparr>"
| "apply_project_patch (Set_iconDataUrl v) p = p\<lparr>p_iconDataUrl := v\<rparr>"
| "apply_project_patch (Set_name v) p = p\<lparr>p_name := v\<rparr>"
| "apply_project_patch (Set_repoId v) p = p\<lparr>p_repoId := v\<rparr>"
| "apply_project_patch (Set_project_rootPath v) p = p\<lparr>p_rootPath := v\<rparr>"
| "apply_project_patch (Set_project_sortOrder v) p = p\<lparr>p_sortOrder := v\<rparr>"

lemma apply_project_patch_keeps [simp]:
  "p_id (apply_project_patch q p) = p_id p"
  "p_revision (apply_project_patch q p) = p_revision p"
  by (cases q; simp)+

record project_assignment =
  pa_expectedRevision :: int
  pa_projectId :: string
  pa_sortOrder :: "rat option"

record app_setting =
  s_createdAt :: int
  s_key :: string
  s_revision :: int
  s_updatedAt :: int
  s_value :: string

datatype label_color = ColorRed | ColorOrange | ColorAmber | ColorEmerald | ColorTeal | ColorBlue | ColorViolet | ColorPink

definition LABEL_COLORS :: "label_color list" where
  "LABEL_COLORS = [ColorRed, ColorOrange, ColorAmber, ColorEmerald, ColorTeal, ColorBlue, ColorViolet, ColorPink]"

record label =
  l_color :: label_color
  l_createdAt :: int
  l_id :: string
  l_name :: string
  l_revision :: int
  l_updatedAt :: int

record new_label =
  nl_color :: "label_color option"
  nl_createdAt :: "int option"
  nl_id :: "string option"
  nl_name :: string

datatype comment_side = Additions | Deletions

datatype comment_status = CommentOpen | CommentResolved

datatype comment_author = Human | Agent

record reply_row =
  r_author :: comment_author
  r_body :: string
  r_createdAt :: int
  r_id :: string
  r_threadId :: string

record thread_row =
  th_createdAt :: int
  th_endLine :: int
  th_filePath :: string
  th_id :: string
  th_revision :: int
  th_side :: comment_side
  th_startLine :: int
  th_status :: comment_status
  th_updatedAt :: int
  th_workspaceId :: string

text \<open>A thread as it is read: the row and its replies.\<close>

record comment_thread =
  ct_row :: thread_row
  ct_replies :: "reply_row list"

record new_thread =
  nh_body :: string
  nh_createdAt :: "int option"
  nh_endLine :: int
  nh_filePath :: string
  nh_id :: "string option"
  nh_replyId :: "string option"
  nh_side :: comment_side
  nh_startLine :: int
  nh_workspaceId :: string

record new_reply =
  nr_body :: string
  nr_createdAt :: "int option"
  nr_id :: "string option"
  nr_threadId :: string

section \<open>Ledgers and the database\<close>

datatype state_table = Projects | AppSettings | Labels | ReviewThreads

record task_change =
  tc_changedAt :: int
  tc_operationId :: "string option"
  tc_sequence :: int
  tc_taskId :: string

record state_change =
  sc_changedAt :: int
  sc_operationId :: "string option"
  sc_rowId :: string
  sc_sequence :: int
  sc_tableName :: state_table

text \<open>
  The tables in the order of insertion; \<open>db_taskNumbers\<close> is \<open>task_number_counters\<close>, and the two
  sequences are the \<open>AUTOINCREMENT\<close> counters of the ledgers.
\<close>

record laborer_db =
  db_tasks :: "task list"
  db_projects :: "project list"
  db_settings :: "app_setting list"
  db_labels :: "label list"
  db_threads :: "thread_row list"
  db_replies :: "reply_row list"
  db_taskChanges :: "task_change list"
  db_taskSequence :: int
  db_stateChanges :: "state_change list"
  db_stateSequence :: int
  db_taskNumbers :: "(string \<times> int) list"

text \<open>What an operation throws; \<open>StaleRevision\<close> carries the current row.\<close>

datatype 'row db_error =
    StaleRevision string "int option" "'row option"
  | LabelNameConflict string "label option"
  | UnknownLabel string "string list"
  | CommentNotFound string
  | CommentAuthorMismatch comment_author string
  | InvalidInput
  | ConstraintViolation
  | RowLimitExceeded
  | CursorGap int

definition MAX_TASK_LABELS :: nat where "MAX_TASK_LABELS = 32"
definition MAX_LABEL_NAME_LENGTH :: nat where "MAX_LABEL_NAME_LENGTH = 60"
definition MAX_LEDGER_READ :: int where "MAX_LEDGER_READ = 1000"
definition MAX_TABLE_ROWS :: nat where "MAX_TABLE_ROWS = 10000"
definition MAX_REVIEW_COMMENT_REPLIES :: nat where "MAX_REVIEW_COMMENT_REPLIES = 200"
definition REVIEW_COMMENT_BODY_MAX_LENGTH :: nat where "REVIEW_COMMENT_BODY_MAX_LENGTH = 10000"
definition REVIEW_COMMENT_FILE_PATH_MAX_LENGTH :: nat where "REVIEW_COMMENT_FILE_PATH_MAX_LENGTH = 4096"

end
