(* ===== verification/Laborer_Sql.thy ===== *)
theory Laborer_Sql
  imports Laborer_Rows "HOL-Library.Product_Lexorder" "HOL-Library.List_Lexorder" "HOL-Library.Char_ord"
begin

text \<open>
  What the statements of the database do to a table, a list of rows with a key, and to a ledger, a
  list of changes numbered by an \<open>AUTOINCREMENT\<close> sequence; the text functions of SQLite and
  JavaScript the operations use; and reading a ledger from a cursor.
\<close>

section \<open>Tables\<close>

definition row_at :: "('r \<Rightarrow> string) \<Rightarrow> 'r list \<Rightarrow> string \<Rightarrow> 'r option" where
  "row_at key rows k = find (\<lambda>r. key r = k) rows"

definition update_where :: "('r \<Rightarrow> bool) \<Rightarrow> ('r \<Rightarrow> 'r) \<Rightarrow> 'r list \<Rightarrow> 'r list" where
  "update_where P f rows = map (\<lambda>r. if P r then f r else r) rows"

definition rows_changed :: "('r \<Rightarrow> bool) \<Rightarrow> 'r list \<Rightarrow> nat" where
  "rows_changed P rows = length (filter P rows)"

definition delete_where :: "('r \<Rightarrow> bool) \<Rightarrow> 'r list \<Rightarrow> 'r list" where
  "delete_where P rows = filter (\<lambda>r. \<not> P r) rows"

text \<open>The guard \<open>AND revision = ?\<close>, which is left out when no revision is expected.\<close>

definition revision_matches :: "int option \<Rightarrow> int \<Rightarrow> bool" where
  "revision_matches expectedRevision n = (case expectedRevision of None \<Rightarrow> True | Some m \<Rightarrow> n = m)"

text \<open>\<open>[...new Set(xs)]\<close>: the first occurrence of each element, in order.\<close>

fun js_unique :: "'a list \<Rightarrow> 'a list" where
  "js_unique [] = []"
| "js_unique (x # xs) = x # filter (\<lambda>y. y \<noteq> x) (js_unique xs)"

section \<open>Text\<close>

definition ascii_lower :: "char \<Rightarrow> char" where
  "ascii_lower c = (if 65 \<le> (of_char c :: nat) \<and> (of_char c :: nat) \<le> 90 then char_of ((of_char c :: nat) + 32) else c)"

text \<open>SQLite's \<open>lower\<close>, which knows the letters of ASCII only, and its \<open>LIKE\<close>.\<close>

definition sql_lower :: "string \<Rightarrow> string" where
  "sql_lower s = map ascii_lower s"

function sql_like :: "string \<Rightarrow> string \<Rightarrow> bool" where
  "sql_like [] text = (text = [])"
| "sql_like (c # p) [] = (c = CHR ''%'' \<and> sql_like p [])"
| "sql_like (c # p) (d # text) =
     (if c = CHR ''%'' then sql_like p (d # text) \<or> sql_like (c # p) text
      else (c = CHR ''_'' \<or> ascii_lower c = ascii_lower d) \<and> sql_like p text)"
  by pat_completeness auto
termination by (relation "measure (\<lambda>(p, text). length p + length text)") simp_all

definition hex_digit :: "nat \<Rightarrow> char" where
  "hex_digit n = (if n < 10 then char_of (48 + n) else char_of (87 + n))"

text \<open>\<open>JSON.stringify\<close> of a string and of an array of strings.\<close>

definition json_char :: "char \<Rightarrow> string" where
  "json_char c =
     (let n = (of_char c :: nat)
      in if n = 34 then [CHR 0x5C, CHR 0x22] else if n = 92 then [CHR 0x5C, CHR 0x5C]
         else if n = 8 then [CHR 0x5C, CHR ''b''] else if n = 9 then [CHR 0x5C, CHR ''t'']
         else if n = 10 then [CHR 0x5C, CHR ''n''] else if n = 12 then [CHR 0x5C, CHR ''f'']
         else if n = 13 then [CHR 0x5C, CHR ''r'']
         else if n < 32 then [CHR 0x5C, CHR ''u'', CHR ''0'', CHR ''0'', hex_digit (n div 16), hex_digit (n mod 16)]
         else [c])"

definition json_string :: "string \<Rightarrow> string" where
  "json_string s = CHR 0x22 # concat (map json_char s) @ [CHR 0x22]"

fun join_with :: "string \<Rightarrow> string list \<Rightarrow> string" where
  "join_with sep [] = []"
| "join_with sep [s] = s"
| "join_with sep (s # ss) = s @ sep @ join_with sep ss"

definition serializeLabelIds :: "string list \<Rightarrow> string" where
  "serializeLabelIds ids = CHR ''['' # join_with '','' (map json_string (js_unique ids)) @ [CHR '']'']"

text \<open>\<open>trim\<close> and \<open>toLowerCase\<close>, for the code points below 256.\<close>

definition js_space :: "char \<Rightarrow> bool" where
  "js_space c \<longleftrightarrow> (let n = (of_char c :: nat) in 9 \<le> n \<and> n \<le> 13 \<or> n = 32 \<or> n = 160)"

definition js_trim :: "string \<Rightarrow> string" where
  "js_trim s = rev (dropWhile js_space (rev (dropWhile js_space s)))"

definition js_lower :: "char \<Rightarrow> char" where
  "js_lower c =
     (let n = (of_char c :: nat)
      in if 65 \<le> n \<and> n \<le> 90 \<or> 192 \<le> n \<and> n \<le> 222 \<and> n \<noteq> 215 then char_of (n + 32) else c)"

section \<open>Reading a ledger\<close>

definition ledger_minimum :: "('c \<Rightarrow> int) \<Rightarrow> 'c list \<Rightarrow> int option" where
  "ledger_minimum seq changes = (if changes = [] then None else Some (Min (set (map seq changes))))"

definition ledger_maximum :: "('c \<Rightarrow> int) \<Rightarrow> 'c list \<Rightarrow> int option" where
  "ledger_maximum seq changes = (if changes = [] then None else Some (Max (set (map seq changes))))"

definition changesAfter :: "('c \<Rightarrow> int) \<Rightarrow> int \<Rightarrow> nat \<Rightarrow> 'c list \<Rightarrow> 'c list" where
  "changesAfter seq sequence limit changes =
     take limit (sort_key seq (filter (\<lambda>c. sequence < seq c) changes))"

definition cursorNeedsSnapshot :: "int \<Rightarrow> int option \<Rightarrow> int option \<Rightarrow> bool" where
  "cursorNeedsSnapshot cursor minimum maximum \<longleftrightarrow>
     (maximum = None \<and> 0 < cursor) \<or>
     (case maximum of None \<Rightarrow> False | Some m \<Rightarrow> m < cursor \<or> MAX_LEDGER_READ < m - cursor) \<or>
     (case minimum of None \<Rightarrow> False | Some n \<Rightarrow> cursor + 1 < n)"

fun contiguous_from :: "int \<Rightarrow> int list \<Rightarrow> bool" where
  "contiguous_from expected [] = True"
| "contiguous_from expected (s # ss) = (s = expected \<and> contiguous_from (expected + 1) ss)"

section \<open>Facts\<close>

lemma row_at_Some: "row_at key rows k = Some r \<Longrightarrow> r \<in> set rows \<and> key r = k"
  by (auto simp: row_at_def find_Some_iff)

lemma row_at_None: "row_at key rows k = None \<longleftrightarrow> k \<notin> key ` set rows"
  by (auto simp: row_at_def find_None_iff)

lemma row_at_mem:
  assumes "distinct (map key rows)" and "r \<in> set rows"
  shows "row_at key rows (key r) = Some r"
  using assms unfolding row_at_def by (induction rows) auto

lemma row_at_append: "row_at key (rows @ others) k = (case row_at key rows k of None \<Rightarrow> row_at key others k | Some r \<Rightarrow> Some r)"
  by (induction rows) (auto simp: row_at_def)

lemma row_at_update:
  assumes "\<And>r. key (f r) = key r"
  shows "row_at key (update_where P f rows) k = map_option (\<lambda>r. if P r then f r else r) (row_at key rows k)"
  using assms by (induction rows) (auto simp: row_at_def update_where_def)

lemma find_SomeD: "find P xs = Some x \<Longrightarrow> P x \<and> x \<in> set xs"
  by (auto simp: find_Some_iff)

lemma row_at_delete:
  assumes "distinct (map key rows)"
  shows "row_at key (delete_where P rows) k
    = (case row_at key rows k of None \<Rightarrow> None | Some r \<Rightarrow> if P r then None else Some r)"
  using assms
proof (induction rows)
  case (Cons r rows)
  show ?case
  proof (cases "key r = k")
    case True
    then have "row_at key rows k = None" using Cons.prems by (auto simp: row_at_None)
    with Cons True show ?thesis by (auto simp: row_at_def delete_where_def)
  next
    case False
    with Cons show ?thesis by (auto simp: row_at_def delete_where_def)
  qed
qed (simp add: row_at_def delete_where_def)

lemma update_where_keys [simp]:
  "(\<And>r. key (f r) = key r) \<Longrightarrow> map key (update_where P f rows) = map key rows"
  by (simp add: update_where_def comp_def if_distrib cong: if_cong)

lemma delete_where_keys: "distinct (map key rows) \<Longrightarrow> distinct (map key (delete_where P rows))"
  by (simp add: delete_where_def distinct_map_filter)

lemma rows_changed_0: "rows_changed P rows = 0 \<longleftrightarrow> (\<forall>r\<in>set rows. \<not> P r)"
  by (simp add: rows_changed_def filter_empty_conv)

lemma js_unique_set [simp]: "set (js_unique xs) = set xs"
  by (induction xs) auto

lemma js_unique_distinct [simp]: "distinct (js_unique xs)"
  by (induction xs) auto

lemma js_unique_length: "length (js_unique xs) \<le> length xs"
  by (induction xs) (auto intro: le_trans [OF length_filter_le])

lemma js_unique_id: "distinct xs \<Longrightarrow> js_unique xs = xs"
  by (induction xs) (auto simp: filter_id_conv)

text \<open>A pattern with a literal between two percent signs matches every text that contains it.\<close>

lemma like_percent: "sql_like p text \<Longrightarrow> sql_like (CHR ''%'' # p) (pre @ text)"
proof (induction pre)
  case Nil
  then show ?case by (cases "text") simp_all
qed simp

lemma like_literal: "sql_like p text \<Longrightarrow> sql_like (w @ p) (w @ text)"
proof (induction w)
  case (Cons c w)
  show ?case
  proof (cases "c = CHR ''%''")
    case True
    have "sql_like (c # w @ p) (w @ text)" using like_percent [of "w @ p" "w @ text" "[]"] Cons True by simp
    then show ?thesis by (simp add: True)
  qed (use Cons in simp)
qed simp

lemma like_contains: "sql_like (CHR ''%'' # w @ [CHR ''%'']) (pre @ w @ post)"
proof -
  have "sql_like [CHR ''%''] post" using like_percent [of "[]" "[]" post] by simp
  then show ?thesis by (intro like_percent like_literal)
qed

lemma join_contains: "s \<in> set ss \<Longrightarrow> \<exists>pre post. join_with sep ss = pre @ s @ post"
proof (induction sep ss rule: join_with.induct)
  case (3 sep s' s'' ss)
  show ?case
  proof (cases "s = s'")
    case True
    then show ?thesis by (metis append_Nil join_with.simps(3))
  next
    case False
    with 3 obtain pre post where "join_with sep (s'' # ss) = pre @ s @ post" by auto
    then have "join_with sep (s' # s'' # ss) = (s' @ sep @ pre) @ s @ post" by simp
    then show ?thesis by blast
  qed
qed (auto intro: exI [of _ "[]"])

lemma serialized_matches:
  assumes "i \<in> set ids"
  shows "sql_like (CHR ''%'' # json_string i @ [CHR ''%'']) (serializeLabelIds ids)"
proof -
  have "json_string i \<in> set (map json_string (js_unique ids))" using assms by simp
  from join_contains [OF this] obtain pre post where
    "join_with '','' (map json_string (js_unique ids)) = pre @ json_string i @ post" by blast
  then have "serializeLabelIds ids = (CHR ''['' # pre) @ json_string i @ (post @ [CHR '']''])"
    by (simp add: serializeLabelIds_def)
  then show ?thesis using like_contains by metis
qed

section \<open>A ledger without gaps\<close>

definition gapless :: "('c \<Rightarrow> int) \<Rightarrow> int \<Rightarrow> 'c list \<Rightarrow> bool" where
  "gapless seq n changes \<longleftrightarrow> 0 \<le> n \<and> map seq changes = map int [1..<Suc (nat n)]"

lemma gapless_Nil: "gapless seq 0 []"
  by (simp add: gapless_def)

lemma gapless_append: "gapless seq n cs \<Longrightarrow> seq c = n + 1 \<Longrightarrow> gapless seq (n + 1) (cs @ [c])"
  by (auto simp: gapless_def nat_add_distrib)

end
