(* ===== verification/Laborer_Tasks.thy ===== *)
theory Laborer_Tasks
  imports Laborer_Sql
begin

text \<open>
  The operations on tasks of \<open>native-laborer-database.ts\<close>. An operation runs in one transaction: it
  gives the row, the ledger cursor and the database after it, or an error, and then the transaction
  was rolled back and the database is the one before. A constraint of the schema (unique ids,
  execution ids and task numbers, parents that exist) is checked on the table a statement leaves.
\<close>

type_synonym 'r mutation = "'r db_error + ('r \<times> int) \<times> laborer_db"

section \<open>The schema\<close>

definition task_constraints :: "task list \<Rightarrow> bool" where
  "task_constraints tasks \<longleftrightarrow>
     distinct (map t_id tasks) \<and>
     distinct (List.map_filter t_executionId tasks) \<and>
     distinct (map (\<lambda>t. (t_rootPath t, t_taskNumber t)) tasks) \<and>
     list_all (\<lambda>t. case t_parentTaskId t of None \<Rightarrow> True | Some p \<Rightarrow> p \<in> set (map t_id tasks)) tasks"

text \<open>The trigger \<open>tasks_assign_task_number\<close>: the next number of the root path.\<close>

definition next_task_number :: "(string \<times> int) list \<Rightarrow> string \<Rightarrow> int" where
  "next_task_number counters rootPath = (case map_of counters rootPath of None \<Rightarrow> 1 | Some n \<Rightarrow> n)"

definition insert_task_row :: "task \<Rightarrow> laborer_db \<Rightarrow> laborer_db option" where
  "insert_task_row t d =
     (let number = next_task_number (db_taskNumbers d) (t_rootPath t);
          tasks = db_tasks d @ [t\<lparr>t_taskNumber := number\<rparr>]
      in if task_constraints tasks
         then Some (d\<lparr>db_tasks := tasks,
                db_taskNumbers := (t_rootPath t, number + 1) #
                  filter (\<lambda>e. fst e \<noteq> t_rootPath t) (db_taskNumbers d)\<rparr>)
         else None)"

section \<open>Ledger\<close>

definition appendTaskChange :: "string \<Rightarrow> int \<Rightarrow> string option \<Rightarrow> laborer_db \<Rightarrow> int \<times> laborer_db" where
  "appendTaskChange taskId changedAt operationId d =
     (let sequence = db_taskSequence d + 1
      in (sequence,
          d\<lparr>db_taskChanges := db_taskChanges d @
              [\<lparr>tc_changedAt = changedAt, tc_operationId = operationId, tc_sequence = sequence, tc_taskId = taskId\<rparr>],
            db_taskSequence := sequence\<rparr>))"

definition taskCursor :: "laborer_db \<Rightarrow> int" where
  "taskCursor d = (case ledger_maximum tc_sequence (db_taskChanges d) of None \<Rightarrow> 0 | Some m \<Rightarrow> m)"

definition validateCursorRead :: "int \<Rightarrow> int \<Rightarrow> bool" where
  "validateCursorRead sequence limit \<longleftrightarrow> 0 \<le> sequence \<and> 1 \<le> limit \<and> limit \<le> MAX_LEDGER_READ"

definition taskChangesAfter :: "int \<Rightarrow> int \<Rightarrow> laborer_db \<Rightarrow> task db_error + task_change list" where
  "taskChangesAfter sequence limit d =
     (if validateCursorRead sequence limit
      then Inr (changesAfter tc_sequence sequence (nat limit) (db_taskChanges d))
      else Inl InvalidInput)"

section \<open>Reading\<close>

definition findTask :: "string \<Rightarrow> laborer_db \<Rightarrow> task option" where
  "findTask i d = row_at t_id (db_tasks d) i"

definition findTaskByWorktreePath :: "string \<Rightarrow> laborer_db \<Rightarrow> task option" where
  "findTaskByWorktreePath worktreePath d =
     (case sort_key (\<lambda>t. (t_updatedAt t, t_createdAt t, t_id t))
         (filter (\<lambda>t. t_worktreePath t = Some worktreePath) (db_tasks d)) of
        [] \<Rightarrow> None
      | rows \<Rightarrow> Some (last rows))"

definition boundedRows :: "'r list \<Rightarrow> 'e db_error + 'r list" where
  "boundedRows rows = (if MAX_TABLE_ROWS < length rows then Inl RowLimitExceeded else Inr rows)"

lemma boundedRows_Inr: "boundedRows (take (MAX_TABLE_ROWS + 1) rows) = Inr xs \<Longrightarrow> xs = rows"
  by (auto simp: boundedRows_def split: if_splits)

lemma boundedRows_Suc: "boundedRows (take (Suc MAX_TABLE_ROWS) rows) = Inr xs \<Longrightarrow> xs = rows"
  using boundedRows_Inr [of rows xs] by simp

definition listTasks :: "laborer_db \<Rightarrow> task db_error + task list" where
  "listTasks d =
     boundedRows (take (MAX_TABLE_ROWS + 1) (sort_key (\<lambda>t. (t_createdAt t, t_id t)) (db_tasks d)))"

section \<open>Sort order and labels of a task\<close>

definition nextTaskSortOrder :: "task_status \<Rightarrow> laborer_db \<Rightarrow> rat" where
  "nextTaskSortOrder status d =
     (let orders = List.map_filter t_sortOrder (filter (\<lambda>t. t_status t = status) (db_tasks d))
      in (if orders = [] then 0 else Min (set orders)) - 1)"

definition taskSortOrder :: "new_task \<Rightarrow> laborer_db \<Rightarrow> rat option" where
  "taskSortOrder input d =
     (case nt_sortOrder input of
        None \<Rightarrow> Some (nextTaskSortOrder (nt_status input) d)
      | Some order \<Rightarrow> order)"

definition unknownLabelIds :: "string list \<Rightarrow> laborer_db \<Rightarrow> string list" where
  "unknownLabelIds labelIds d = filter (\<lambda>i. i \<notin> set (map l_id (db_labels d))) labelIds"

definition requireKnownLabels :: "string \<Rightarrow> string list \<Rightarrow> laborer_db \<Rightarrow> 'r db_error option" where
  "requireKnownLabels taskId labelIds d =
     (let unknown = unknownLabelIds labelIds d
      in if unknown = [] then None else Some (UnknownLabel taskId unknown))"

section \<open>Writing\<close>

text \<open>The end of a transaction: the change is recorded and the row is read.\<close>

definition task_result :: "string \<Rightarrow> int \<Rightarrow> string option \<Rightarrow> laborer_db \<Rightarrow> task mutation" where
  "task_result i changedAt operationId d =
     (case appendTaskChange i changedAt operationId d of
        (cursor, d') \<Rightarrow>
          (case findTask i d' of
             None \<Rightarrow> Inl InvalidInput
           | Some row \<Rightarrow> Inr ((row, cursor), d')))"

definition new_task_row :: "new_task \<Rightarrow> string list \<Rightarrow> rat option \<Rightarrow> int \<Rightarrow> task" where
  "new_task_row input labelIds sortOrder changedAt =
     \<lparr>t_actionName = nt_actionName input, t_baseBranch = nt_baseBranch input, t_baseSha = nt_baseSha input,
      t_branchName = nt_branchName input,
      t_createdAt = (case nt_createdAt input of None \<Rightarrow> changedAt | Some c \<Rightarrow> c),
      t_description = nt_description input, t_executionId = nt_executionId input,
      t_executionStatus = nt_executionStatus input, t_id = nt_id input, t_labelIds = labelIds,
      t_parentTaskId = nt_parentTaskId input, t_prApprovals = nt_prApprovals input,
      t_prAuthorLogin = nt_prAuthorLogin input, t_prBaseBranch = nt_prBaseBranch input,
      t_prCheckStatus = nt_prCheckStatus input, t_prChecks = serializeCheckRuns (nt_prChecks input),
      t_prIsDraft = nt_prIsDraft input, t_prMergeStatus = nt_prMergeStatus input,
      t_prNumber = nt_prNumber input, t_prReviewDecision = nt_prReviewDecision input,
      t_prState = nt_prState input, t_prTitle = nt_prTitle input,
      t_prUnresolvedThreads = nt_prUnresolvedThreads input, t_prUrl = nt_prUrl input,
      t_revision = 1, t_rootPath = nt_rootPath input, t_setupCompletedAt = nt_setupCompletedAt input,
      t_slackPermalink = nt_slackPermalink input, t_sortOrder = sortOrder, t_source = nt_source input,
      t_status = nt_status input, t_taskNumber = 0, t_title = nt_title input, t_updatedAt = changedAt,
      t_worktreeError = nt_worktreeError input, t_worktreePath = nt_worktreePath input,
      t_worktreeStatus = nt_worktreeStatus input\<rparr>"

definition insertTask :: "new_task \<Rightarrow> string option \<Rightarrow> int \<Rightarrow> laborer_db \<Rightarrow> task mutation" where
  "insertTask input operationId changedAt d =
     (let labelIds = js_unique (nt_labelIds input)
      in if MAX_TASK_LABELS < length labelIds then Inl InvalidInput
         else
           (case requireKnownLabels (nt_id input) labelIds d of
              Some e \<Rightarrow> Inl e
            | None \<Rightarrow>
                (case insert_task_row (new_task_row input labelIds (taskSortOrder input d) changedAt) d of
                   None \<Rightarrow> Inl ConstraintViolation
                 | Some d1 \<Rightarrow> task_result (nt_id input) changedAt operationId d1)))"

definition pathContains :: "string \<Rightarrow> string \<Rightarrow> bool" where
  "pathContains parent child \<longleftrightarrow>
     parent = child \<or>
     (let p = (if parent \<noteq> [] \<and> last parent = CHR ''/'' then parent else parent @ ''/'')
      in take (length p) child = p)"

definition adopted_row :: "adopted_worktree \<Rightarrow> int \<Rightarrow> task" where
  "adopted_row input changedAt =
     \<lparr>t_actionName = None, t_baseBranch = aw_baseBranch input, t_baseSha = aw_baseSha input,
      t_branchName = aw_branchName input, t_createdAt = changedAt, t_description = None,
      t_executionId = None, t_executionStatus = None, t_id = aw_id input, t_labelIds = [],
      t_parentTaskId = aw_parentTaskId input, t_prApprovals = None, t_prAuthorLogin = None,
      t_prBaseBranch = None, t_prCheckStatus = None, t_prChecks = None, t_prIsDraft = False,
      t_prMergeStatus = None, t_prNumber = None, t_prReviewDecision = None, t_prState = None,
      t_prTitle = None, t_prUnresolvedThreads = None, t_prUrl = None, t_revision = 1,
      t_rootPath = aw_rootPath input, t_setupCompletedAt = None, t_slackPermalink = None,
      t_sortOrder = None, t_source = SourceWorktree, t_status = TaskInProgress, t_taskNumber = 0,
      t_title = aw_title input, t_updatedAt = changedAt, t_worktreeError = None,
      t_worktreePath = Some (aw_worktreePath input), t_worktreeStatus = Some WorktreeReady\<rparr>"

definition adoptWorktreeTask ::
    "adopted_worktree \<Rightarrow> int \<Rightarrow> laborer_db \<Rightarrow> task db_error + task option \<times> laborer_db" where
  "adoptWorktreeTask input changedAt d =
     (let aliases = js_unique (aw_worktreePath input # aw_worktreePathAliases input)
      in if list_ex (\<lambda>t. t_worktreePath t \<in> set (map Some aliases)) (db_tasks d) then Inr (None, d)
         else if aw_branchName input \<noteq> None \<and>
                 list_ex (\<lambda>t. pathContains (t_rootPath t) (aw_rootPath input) \<or>
                              pathContains (aw_rootPath input) (t_rootPath t))
                   (take MAX_TABLE_ROWS (filter (\<lambda>t. t_branchName t = aw_branchName input) (db_tasks d)))
         then Inr (None, d)
         else
           (case insert_task_row (adopted_row input changedAt) d of
              None \<Rightarrow> Inl ConstraintViolation
            | Some d1 \<Rightarrow>
                (case task_result (aw_id input) changedAt None d1 of
                   Inl e \<Rightarrow> Inl e
                 | Inr ((row, _), d2) \<Rightarrow> Inr (Some row, d2))))"

definition updateTask ::
    "string \<Rightarrow> int \<Rightarrow> task_patch list \<Rightarrow> string option \<Rightarrow> int \<Rightarrow> laborer_db \<Rightarrow> task mutation" where
  "updateTask i expectedRevision patch operationId changedAt d =
     (let matches = (\<lambda>t. t_id t = i \<and> t_revision t = expectedRevision);
          tasks = update_where matches
            (\<lambda>t. (fold apply_patch patch t)\<lparr>t_updatedAt := changedAt, t_revision := t_revision t + 1\<rparr>) (db_tasks d)
      in if patch = [] then Inl InvalidInput
         else if rows_changed matches (db_tasks d) = 0
         then Inl (StaleRevision i (Some expectedRevision) (findTask i d))
         else if \<not> task_constraints tasks then Inl ConstraintViolation
         else task_result i changedAt operationId (d\<lparr>db_tasks := tasks\<rparr>))"

text \<open>The foreign key of \<open>parent_task_id\<close> is \<open>ON DELETE SET NULL\<close>.\<close>

definition delete_task_rows :: "(task \<Rightarrow> bool) \<Rightarrow> task list \<Rightarrow> task list" where
  "delete_task_rows P tasks =
     update_where (\<lambda>t. case t_parentTaskId t of None \<Rightarrow> False | Some p \<Rightarrow> p \<in> set (map t_id (filter P tasks)))
       (\<lambda>t. t\<lparr>t_parentTaskId := None\<rparr>) (delete_where P tasks)"

definition deleteTask :: "string \<Rightarrow> int \<Rightarrow> string option \<Rightarrow> int \<Rightarrow> laborer_db \<Rightarrow> task mutation" where
  "deleteTask i expectedRevision operationId changedAt d =
     (let matches = (\<lambda>t. t_id t = i \<and> t_revision t = expectedRevision)
      in case findTask i d of
           None \<Rightarrow> Inl (StaleRevision i (Some expectedRevision) None)
         | Some row \<Rightarrow>
             if rows_changed matches (db_tasks d) = 0
             then Inl (StaleRevision i (Some expectedRevision) (Some row))
             else
               (case appendTaskChange i changedAt operationId
                   (d\<lparr>db_tasks := delete_task_rows matches (db_tasks d)\<rparr>) of
                  (cursor, d') \<Rightarrow> Inr ((row, cursor), d')))"

section \<open>Labels of a task\<close>

definition requireTaskForLabels :: "string \<Rightarrow> laborer_db \<Rightarrow> task db_error + task" where
  "requireTaskForLabels taskId d =
     (case findTask taskId d of None \<Rightarrow> Inl (StaleRevision taskId None None) | Some t \<Rightarrow> Inr t)"

definition writeTaskLabels ::
    "string \<Rightarrow> int option \<Rightarrow> string list \<Rightarrow> string option \<Rightarrow> int \<Rightarrow> laborer_db \<Rightarrow> task mutation" where
  "writeTaskLabels taskId expectedRevision requested operationId changedAt d =
     (let matches = (\<lambda>t. t_id t = taskId \<and> revision_matches expectedRevision (t_revision t))
      in if MAX_TASK_LABELS < length requested then Inl InvalidInput
         else
           (case requireTaskForLabels taskId d of
              Inl e \<Rightarrow> Inl e
            | Inr _ \<Rightarrow>
                (case requireKnownLabels taskId requested d of
                   Some e \<Rightarrow> Inl e
                 | None \<Rightarrow>
                     if rows_changed matches (db_tasks d) = 0
                     then Inl (StaleRevision taskId expectedRevision (findTask taskId d))
                     else task_result taskId changedAt operationId
                       (d\<lparr>db_tasks := update_where matches
                          (\<lambda>t. t\<lparr>t_labelIds := js_unique requested, t_updatedAt := changedAt,
                                 t_revision := t_revision t + 1\<rparr>) (db_tasks d)\<rparr>))))"

definition setTaskLabels ::
    "string \<Rightarrow> int option \<Rightarrow> string list \<Rightarrow> string option \<Rightarrow> int \<Rightarrow> laborer_db \<Rightarrow> task mutation" where
  "setTaskLabels taskId expectedRevision labelIds operationId changedAt d =
     (let requested = js_unique labelIds
      in if MAX_TASK_LABELS < length requested then Inl InvalidInput
         else writeTaskLabels taskId expectedRevision requested operationId changedAt d)"

definition addTaskLabels ::
    "string \<Rightarrow> string list \<Rightarrow> string option \<Rightarrow> int \<Rightarrow> laborer_db \<Rightarrow> task mutation" where
  "addTaskLabels taskId labelIds operationId changedAt d =
     (case requireTaskForLabels taskId d of
        Inl e \<Rightarrow> Inl e
      | Inr current \<Rightarrow>
          (let additions = filter (\<lambda>i. i \<notin> set (t_labelIds current)) (js_unique labelIds)
           in if additions = []
              then (case requireKnownLabels taskId (js_unique labelIds) d of
                      Some e \<Rightarrow> Inl e
                    | None \<Rightarrow> Inr ((current, taskCursor d), d))
              else writeTaskLabels taskId None (t_labelIds current @ additions) operationId changedAt d))"

definition removeTaskLabels ::
    "string \<Rightarrow> string list \<Rightarrow> string option \<Rightarrow> int \<Rightarrow> laborer_db \<Rightarrow> task mutation" where
  "removeTaskLabels taskId labelIds operationId changedAt d =
     (case requireTaskForLabels taskId d of
        Inl e \<Rightarrow> Inl e
      | Inr current \<Rightarrow>
          (let remaining = filter (\<lambda>i. i \<notin> set labelIds) (t_labelIds current)
           in if length remaining = length (t_labelIds current) then Inr ((current, taskCursor d), d)
              else writeTaskLabels taskId None remaining operationId changedAt d))"

text \<open>Deleting a label takes it off every task that has it.\<close>

fun strip_label :: "string \<Rightarrow> int \<Rightarrow> string option \<Rightarrow> task list \<Rightarrow> laborer_db \<Rightarrow> laborer_db" where
  "strip_label labelId changedAt operationId [] d = d"
| "strip_label labelId changedAt operationId (row # rows) d =
     (if labelId \<notin> set (t_labelIds row) then strip_label labelId changedAt operationId rows d
      else strip_label labelId changedAt operationId rows
        (snd (appendTaskChange (t_id row) changedAt operationId
          (d\<lparr>db_tasks := update_where (\<lambda>t. t_id t = t_id row)
             (\<lambda>t. t\<lparr>t_labelIds := js_unique (filter (\<lambda>i. i \<noteq> labelId) (t_labelIds row)), t_updatedAt := changedAt,
                    t_revision := t_revision t + 1\<rparr>) (db_tasks d)\<rparr>))))"

definition stripLabelFromTasks ::
    "string \<Rightarrow> int \<Rightarrow> string option \<Rightarrow> laborer_db \<Rightarrow> 'e db_error + laborer_db" where
  "stripLabelFromTasks labelId changedAt operationId d =
     (case boundedRows (take (MAX_TABLE_ROWS + 1)
         (filter (\<lambda>t. sql_like (CHR ''%'' # json_string labelId @ [CHR ''%'']) (serializeLabelIds (t_labelIds t)))
           (db_tasks d))) of
        Inl e \<Rightarrow> Inl e
      | Inr rows \<Rightarrow> Inr (strip_label labelId changedAt operationId rows d))"

section \<open>Updates after a cursor\<close>

record 'r table_update =
  tu_cursor :: int
  tu_deletedRowIds :: "string list"
  tu_operationIds :: "string list"
  tu_rows :: "'r list"

definition table_delta ::
    "(string \<Rightarrow> 'r option) \<Rightarrow> ('r \<Rightarrow> string) \<Rightarrow> int \<Rightarrow> string list \<Rightarrow> string option list \<Rightarrow> 'r table_update" where
  "table_delta find_row key cursor changedIds operationIds =
     (let ids = js_unique changedIds;
          rows = List.map_filter find_row ids
      in \<lparr>tu_cursor = cursor,
          tu_deletedRowIds = filter (\<lambda>i. i \<notin> set (map key rows)) ids,
          tu_operationIds = List.map_filter (\<lambda>x. x) operationIds,
          tu_rows = rows\<rparr>)"

definition taskUpdateAfter :: "int \<Rightarrow> laborer_db \<Rightarrow> task db_error + task table_update option" where
  "taskUpdateAfter sequence d =
     (if \<not> validateCursorRead sequence MAX_LEDGER_READ then Inl InvalidInput
      else if cursorNeedsSnapshot sequence (ledger_minimum tc_sequence (db_taskChanges d))
                (ledger_maximum tc_sequence (db_taskChanges d))
      then Inl (CursorGap sequence)
      else
        (case taskChangesAfter sequence MAX_LEDGER_READ d of
           Inl e \<Rightarrow> Inl e
         | Inr changes \<Rightarrow>
             if changes = [] then Inr None
             else if \<not> contiguous_from (sequence + 1) (map tc_sequence changes) then Inl (CursorGap sequence)
             else Inr (Some (table_delta (\<lambda>i. findTask i d) t_id (tc_sequence (last changes))
               (map tc_taskId changes) (map tc_operationId changes)))))"

end
