(* ===== verification/Laborer_State.thy ===== *)
theory Laborer_State
  imports Laborer_Tasks
begin

text \<open>
  The operations on projects, settings, labels and review comments of
  \<open>native-laborer-database.ts\<close>, which share the second ledger, and what \<open>review-comments.ts\<close>
  accepts. Ids that the operation mints itself (\<open>createTaskUlid\<close>) are arguments.
\<close>

section \<open>Ledger\<close>

definition appendStateChange ::
    "state_table \<Rightarrow> string \<Rightarrow> int \<Rightarrow> string option \<Rightarrow> laborer_db \<Rightarrow> int \<times> laborer_db" where
  "appendStateChange tableName rowId changedAt operationId d =
     (let sequence = db_stateSequence d + 1
      in (sequence,
          d\<lparr>db_stateChanges := db_stateChanges d @
              [\<lparr>sc_changedAt = changedAt, sc_operationId = operationId, sc_rowId = rowId,
                sc_sequence = sequence, sc_tableName = tableName\<rparr>],
            db_stateSequence := sequence\<rparr>))"

definition stateCursor :: "laborer_db \<Rightarrow> int" where
  "stateCursor d = (case ledger_maximum sc_sequence (db_stateChanges d) of None \<Rightarrow> 0 | Some m \<Rightarrow> m)"

definition stateChangesAfter :: "int \<Rightarrow> int \<Rightarrow> laborer_db \<Rightarrow> unit db_error + state_change list" where
  "stateChangesAfter sequence limit d =
     (if validateCursorRead sequence limit
      then Inr (changesAfter sc_sequence sequence (nat limit) (db_stateChanges d))
      else Inl InvalidInput)"

text \<open>The end of a transaction on one of these tables: the row is read with \<open>find_row\<close>.\<close>

definition state_result ::
    "(laborer_db \<Rightarrow> 'r option) \<Rightarrow> state_table \<Rightarrow> string \<Rightarrow> int \<Rightarrow> string option \<Rightarrow> laborer_db \<Rightarrow> 'r mutation" where
  "state_result find_row tableName rowId changedAt operationId d =
     (case appendStateChange tableName rowId changedAt operationId d of
        (cursor, d') \<Rightarrow>
          (case find_row d' of
             None \<Rightarrow> Inl InvalidInput
           | Some row \<Rightarrow> Inr ((row, cursor), d')))"

text \<open>A deletion gives the row as it was.\<close>

definition deleted_result ::
    "'r \<Rightarrow> state_table \<Rightarrow> string \<Rightarrow> int \<Rightarrow> string option \<Rightarrow> laborer_db \<Rightarrow> 'r mutation" where
  "deleted_result row tableName rowId changedAt operationId d =
     (case appendStateChange tableName rowId changedAt operationId d of
        (cursor, d') \<Rightarrow> Inr ((row, cursor), d'))"

section \<open>Projects\<close>

definition project_constraints :: "project list \<Rightarrow> bool" where
  "project_constraints rows \<longleftrightarrow> distinct (map p_id rows) \<and> distinct (map p_repoId rows)"

definition findProject :: "string \<Rightarrow> laborer_db \<Rightarrow> project option" where
  "findProject i d = row_at p_id (db_projects d) i"

definition findProjectByRepoId :: "string \<Rightarrow> laborer_db \<Rightarrow> project option" where
  "findProjectByRepoId repoId d = row_at p_repoId (db_projects d) repoId"

text \<open>The latest change of the operation whose project still exists.\<close>

definition findProjectByOperationId :: "string \<Rightarrow> laborer_db \<Rightarrow> project option" where
  "findProjectByOperationId operationId d =
     (case List.map_filter (\<lambda>c. findProject (sc_rowId c) d)
         (filter (\<lambda>c. sc_tableName c = Projects \<and> sc_operationId c = Some operationId)
           (sort_key (\<lambda>c. - sc_sequence c) (db_stateChanges d))) of
        [] \<Rightarrow> None
      | row # _ \<Rightarrow> Some row)"

definition listProjects :: "laborer_db \<Rightarrow> project db_error + project list" where
  "listProjects d =
     boundedRows (take (MAX_TABLE_ROWS + 1)
       (sort_key (\<lambda>p. (case p_sortOrder p of Some order \<Rightarrow> order | None \<Rightarrow> of_int (p_createdAt p), p_id p))
         (db_projects d)))"

definition insertProject :: "new_project \<Rightarrow> string option \<Rightarrow> int \<Rightarrow> laborer_db \<Rightarrow> project mutation" where
  "insertProject input operationId changedAt d =
     (case Option.bind operationId (\<lambda>op. findProjectByOperationId op d) of
        Some replay \<Rightarrow> Inr ((replay, stateCursor d), d)
      | None \<Rightarrow>
          (let rows = db_projects d @
             [\<lparr>p_branchName = np_branchName input, p_canonicalGitCommonDir = np_canonicalGitCommonDir input,
               p_color = np_color input,
               p_createdAt = (case np_createdAt input of None \<Rightarrow> changedAt | Some c \<Rightarrow> c),
               p_iconDataUrl = np_iconDataUrl input, p_id = np_id input, p_name = np_name input,
               p_repoId = np_repoId input, p_revision = 1, p_rootPath = np_rootPath input,
               p_sortOrder = None, p_updatedAt = changedAt\<rparr>]
           in if project_constraints rows
              then state_result (findProject (np_id input)) Projects (np_id input) changedAt operationId
                (d\<lparr>db_projects := rows\<rparr>)
              else Inl ConstraintViolation))"

definition updateProject ::
    "string \<Rightarrow> int \<Rightarrow> project_patch list \<Rightarrow> string option \<Rightarrow> int \<Rightarrow> laborer_db \<Rightarrow> project mutation" where
  "updateProject i expectedRevision patch operationId changedAt d =
     (let matches = (\<lambda>p. p_id p = i \<and> p_revision p = expectedRevision);
          rows = update_where matches
            (\<lambda>p. (fold apply_project_patch patch p)\<lparr>p_updatedAt := changedAt, p_revision := p_revision p + 1\<rparr>)
            (db_projects d)
      in if patch = [] then Inl InvalidInput
         else if rows_changed matches (db_projects d) = 0
         then Inl (StaleRevision i (Some expectedRevision) (findProject i d))
         else if \<not> project_constraints rows then Inl ConstraintViolation
         else state_result (findProject i) Projects i changedAt operationId (d\<lparr>db_projects := rows\<rparr>))"

definition moveProject ::
    "string \<Rightarrow> int \<Rightarrow> rat option \<Rightarrow> string option \<Rightarrow> int \<Rightarrow> laborer_db \<Rightarrow> project mutation" where
  "moveProject i expectedRevision sortOrder operationId changedAt d =
     updateProject i expectedRevision [Set_project_sortOrder sortOrder] operationId changedAt d"

fun assign_ranks ::
    "project_assignment list \<Rightarrow> string \<Rightarrow> int \<Rightarrow> laborer_db \<Rightarrow> project db_error + laborer_db" where
  "assign_ranks [] operationId changedAt d = Inr d"
| "assign_ranks (a # as) operationId changedAt d =
     (let matches = (\<lambda>p. p_id p = pa_projectId a \<and> p_revision p = pa_expectedRevision a)
      in if rows_changed matches (db_projects d) \<noteq> 1
         then Inl (StaleRevision (pa_projectId a) (Some (pa_expectedRevision a)) (findProject (pa_projectId a) d))
         else assign_ranks as operationId changedAt
           (snd (appendStateChange Projects (pa_projectId a) changedAt (Some operationId)
             (d\<lparr>db_projects := update_where matches
                (\<lambda>p. p\<lparr>p_sortOrder := pa_sortOrder a, p_updatedAt := changedAt, p_revision := p_revision p + 1\<rparr>)
                (db_projects d)\<rparr>))))"

text \<open>The first assignment whose project is gone or has another revision.\<close>

definition stale_assignment :: "laborer_db \<Rightarrow> project_assignment \<Rightarrow> bool" where
  "stale_assignment d a =
     (case findProject (pa_projectId a) d of
        None \<Rightarrow> True
      | Some p \<Rightarrow> p_revision p \<noteq> pa_expectedRevision a)"

text \<open>There is an assignment, so the cursor is the sequence number of the last change.\<close>

definition reorderProjects ::
    "project_assignment list \<Rightarrow> string \<Rightarrow> int \<Rightarrow> laborer_db
      \<Rightarrow> project db_error + (project list \<times> int) \<times> laborer_db" where
  "reorderProjects assignments operationId changedAt d =
     (if assignments = [] \<or> \<not> distinct (map pa_projectId assignments) then Inl InvalidInput
      else
        (case find (stale_assignment d) assignments of
           Some a \<Rightarrow> Inl (StaleRevision (pa_projectId a) (Some (pa_expectedRevision a)) (findProject (pa_projectId a) d))
         | None \<Rightarrow>
             (case assign_ranks assignments operationId changedAt d of
                Inl e \<Rightarrow> Inl e
              | Inr d' \<Rightarrow>
                  Inr ((List.map_filter (\<lambda>a. findProject (pa_projectId a) d') assignments, db_stateSequence d'), d'))))"

definition deleteProject :: "string \<Rightarrow> int \<Rightarrow> string option \<Rightarrow> int \<Rightarrow> laborer_db \<Rightarrow> project mutation" where
  "deleteProject i expectedRevision operationId changedAt d =
     (let matches = (\<lambda>p. p_id p = i \<and> p_revision p = expectedRevision)
      in case findProject i d of
           None \<Rightarrow> Inl (StaleRevision i (Some expectedRevision) None)
         | Some row \<Rightarrow>
             if rows_changed matches (db_projects d) = 0
             then Inl (StaleRevision i (Some expectedRevision) (Some row))
             else deleted_result row Projects i changedAt operationId
               (d\<lparr>db_projects := delete_where matches (db_projects d)\<rparr>))"

section \<open>Settings\<close>

definition findSetting :: "string \<Rightarrow> laborer_db \<Rightarrow> app_setting option" where
  "findSetting key d = row_at s_key (db_settings d) key"

definition listSettings :: "laborer_db \<Rightarrow> app_setting db_error + app_setting list" where
  "listSettings d = boundedRows (take (MAX_TABLE_ROWS + 1) (sort_key s_key (db_settings d)))"

definition insertSetting :: "string \<Rightarrow> string \<Rightarrow> string option \<Rightarrow> int \<Rightarrow> laborer_db \<Rightarrow> app_setting mutation" where
  "insertSetting key v operationId changedAt d =
     (if key \<in> set (map s_key (db_settings d)) then Inl ConstraintViolation
      else state_result (findSetting key) AppSettings key changedAt operationId
        (d\<lparr>db_settings := db_settings d @
          [\<lparr>s_createdAt = changedAt, s_key = key, s_revision = 1, s_updatedAt = changedAt, s_value = v\<rparr>]\<rparr>))"

definition updateSetting ::
    "string \<Rightarrow> int \<Rightarrow> string \<Rightarrow> string option \<Rightarrow> int \<Rightarrow> laborer_db \<Rightarrow> app_setting mutation" where
  "updateSetting key expectedRevision v operationId changedAt d =
     (let matches = (\<lambda>s. s_key s = key \<and> s_revision s = expectedRevision)
      in if rows_changed matches (db_settings d) = 0
         then Inl (StaleRevision key (Some expectedRevision) (findSetting key d))
         else state_result (findSetting key) AppSettings key changedAt operationId
           (d\<lparr>db_settings := update_where matches
             (\<lambda>s. s\<lparr>s_value := v, s_updatedAt := changedAt, s_revision := s_revision s + 1\<rparr>) (db_settings d)\<rparr>))"

definition setSetting ::
    "string \<Rightarrow> int \<Rightarrow> string \<Rightarrow> string option \<Rightarrow> int \<Rightarrow> laborer_db \<Rightarrow> app_setting mutation" where
  "setSetting key expectedRevision v operationId changedAt d =
     (if expectedRevision \<noteq> 0 then updateSetting key expectedRevision v operationId changedAt d
      else
        (case insertSetting key v operationId changedAt d of
           Inr result \<Rightarrow> Inr result
         | Inl e \<Rightarrow>
             (case findSetting key d of
                Some current \<Rightarrow> Inl (StaleRevision key (Some expectedRevision) (Some current))
              | None \<Rightarrow> Inl e)))"

definition deleteSetting :: "string \<Rightarrow> int \<Rightarrow> string option \<Rightarrow> int \<Rightarrow> laborer_db \<Rightarrow> app_setting mutation" where
  "deleteSetting key expectedRevision operationId changedAt d =
     (let matches = (\<lambda>s. s_key s = key \<and> s_revision s = expectedRevision)
      in case findSetting key d of
           None \<Rightarrow> Inl (StaleRevision key (Some expectedRevision) None)
         | Some row \<Rightarrow>
             if rows_changed matches (db_settings d) = 0
             then Inl (StaleRevision key (Some expectedRevision) (Some row))
             else deleted_result row AppSettings key changedAt operationId
               (d\<lparr>db_settings := delete_where matches (db_settings d)\<rparr>))"

section \<open>Labels\<close>

definition hash_step :: "int \<Rightarrow> char \<Rightarrow> int" where
  "hash_step hash c = (hash * 31 + int (of_char c :: nat)) mod 2 ^ 31"

definition labelColorForName :: "string \<Rightarrow> label_color" where
  "labelColorForName name =
     LABEL_COLORS ! nat (fold (\<lambda>c h. hash_step h c) (map js_lower (js_trim name)) 0 mod int (length LABEL_COLORS))"

definition labelName :: "string \<Rightarrow> string option" where
  "labelName s =
     (let trimmed = js_trim s
      in if trimmed = [] \<or> MAX_LABEL_NAME_LENGTH < length trimmed then None else Some trimmed)"

definition findLabel :: "string \<Rightarrow> laborer_db \<Rightarrow> label option" where
  "findLabel i d = row_at l_id (db_labels d) i"

definition findLabelByName :: "string \<Rightarrow> laborer_db \<Rightarrow> label option" where
  "findLabelByName name d = find (\<lambda>l. sql_lower (l_name l) = sql_lower name) (db_labels d)"

definition listLabels :: "laborer_db \<Rightarrow> label db_error + label list" where
  "listLabels d = boundedRows (take (MAX_TABLE_ROWS + 1) (sort_key l_name (db_labels d)))"

definition createLabel :: "string \<Rightarrow> new_label \<Rightarrow> string option \<Rightarrow> int \<Rightarrow> laborer_db \<Rightarrow> label mutation" where
  "createLabel ulid input operationId changedAt d =
     (let i = (case nl_id input of None \<Rightarrow> ulid | Some i \<Rightarrow> i)
      in case labelName (nl_name input) of
           None \<Rightarrow> Inl InvalidInput
         | Some name \<Rightarrow>
             (case findLabel i d of
                Some existing \<Rightarrow> Inr ((existing, stateCursor d), d)
              | None \<Rightarrow>
                  (case findLabelByName name d of
                     Some conflict \<Rightarrow> Inl (LabelNameConflict name (Some conflict))
                   | None \<Rightarrow>
                       state_result (findLabel i) Labels i changedAt operationId
                         (d\<lparr>db_labels := db_labels d @
                           [\<lparr>l_color = (case nl_color input of None \<Rightarrow> labelColorForName name | Some c \<Rightarrow> c),
                             l_createdAt = (case nl_createdAt input of None \<Rightarrow> changedAt | Some c \<Rightarrow> c),
                             l_id = i, l_name = name, l_revision = 1, l_updatedAt = changedAt\<rparr>]\<rparr>))))"

definition updateLabel ::
    "string \<Rightarrow> int option \<Rightarrow> string option \<Rightarrow> label_color option \<Rightarrow> string option \<Rightarrow> int \<Rightarrow> laborer_db
      \<Rightarrow> label mutation" where
  "updateLabel i expectedRevision patchName patchColor operationId changedAt d =
     (if patchName = None \<and> patchColor = None then Inl InvalidInput
      else if patchName \<noteq> None \<and> Option.bind patchName labelName = None then Inl InvalidInput
      else
        (let name = Option.bind patchName labelName
         in case findLabel i d of
              None \<Rightarrow> Inl (StaleRevision i expectedRevision None)
            | Some current \<Rightarrow>
                if expectedRevision \<noteq> None \<and> Some (l_revision current) \<noteq> expectedRevision
                then Inl (StaleRevision i expectedRevision (Some current))
                else
                  (case Option.bind name (\<lambda>n. case findLabelByName n d of
                          None \<Rightarrow> None
                        | Some conflict \<Rightarrow> if l_id conflict \<noteq> i then Some (n, conflict) else None) of
                     Some (n, conflict) \<Rightarrow> Inl (LabelNameConflict n (Some conflict))
                   | None \<Rightarrow>
                       state_result (findLabel i) Labels i changedAt operationId
                         (d\<lparr>db_labels := update_where
                           (\<lambda>l. l_id l = i \<and> revision_matches expectedRevision (l_revision l))
                           (\<lambda>l. l\<lparr>l_name := (case name of None \<Rightarrow> l_name current | Some n \<Rightarrow> n),
                                  l_color := (case patchColor of None \<Rightarrow> l_color current | Some c \<Rightarrow> c),
                                  l_updatedAt := changedAt, l_revision := l_revision l + 1\<rparr>)
                           (db_labels d)\<rparr>))))"

definition deleteLabel :: "string \<Rightarrow> int option \<Rightarrow> string option \<Rightarrow> int \<Rightarrow> laborer_db \<Rightarrow> label mutation" where
  "deleteLabel i expectedRevision operationId changedAt d =
     (let matches = (\<lambda>l. l_id l = i \<and> revision_matches expectedRevision (l_revision l))
      in case findLabel i d of
           None \<Rightarrow> Inl (StaleRevision i expectedRevision None)
         | Some row \<Rightarrow>
             if rows_changed matches (db_labels d) = 0
             then Inl (StaleRevision i expectedRevision (Some row))
             else
               (case stripLabelFromTasks i changedAt operationId
                   (d\<lparr>db_labels := delete_where matches (db_labels d)\<rparr>) of
                  Inl e \<Rightarrow> Inl e
                | Inr d' \<Rightarrow> deleted_result row Labels i changedAt operationId d'))"

section \<open>Review comments\<close>

definition reviewCommentBody :: "string \<Rightarrow> string option" where
  "reviewCommentBody body =
     (let trimmed = js_trim body
      in if trimmed = [] \<or> REVIEW_COMMENT_BODY_MAX_LENGTH < length trimmed then None else Some trimmed)"

definition reviewCommentFilePath :: "string \<Rightarrow> string option" where
  "reviewCommentFilePath filePath =
     (let trimmed = js_trim filePath
      in if trimmed = [] \<or> REVIEW_COMMENT_FILE_PATH_MAX_LENGTH < length trimmed then None else Some trimmed)"

definition reviewCommentAnchor :: "int \<Rightarrow> int \<Rightarrow> bool" where
  "reviewCommentAnchor startLine endLine \<longleftrightarrow> 1 \<le> startLine \<and> startLine \<le> endLine"

definition validateNewReviewCommentThread :: "new_thread \<Rightarrow> new_thread option" where
  "validateNewReviewCommentThread input =
     (if \<not> reviewCommentAnchor (nh_startLine input) (nh_endLine input) then None
      else
        (case (reviewCommentBody (nh_body input), reviewCommentFilePath (nh_filePath input)) of
           (Some body, Some filePath) \<Rightarrow> Some (input\<lparr>nh_body := body, nh_filePath := filePath\<rparr>)
         | _ \<Rightarrow> None))"

definition reviewCommentReplies :: "string \<Rightarrow> laborer_db \<Rightarrow> reply_row list" where
  "reviewCommentReplies threadId d =
     sort_key (\<lambda>r. (r_createdAt r, r_id r)) (filter (\<lambda>r. r_threadId r = threadId) (db_replies d))"

definition read_thread :: "laborer_db \<Rightarrow> thread_row \<Rightarrow> comment_thread" where
  "read_thread d row = \<lparr>ct_row = row, ct_replies = reviewCommentReplies (th_id row) d\<rparr>"

definition findReviewCommentThread :: "string \<Rightarrow> laborer_db \<Rightarrow> comment_thread option" where
  "findReviewCommentThread i d = map_option (read_thread d) (row_at th_id (db_threads d) i)"

definition listAllReviewCommentThreads :: "laborer_db \<Rightarrow> unit db_error + comment_thread list" where
  "listAllReviewCommentThreads d =
     (case boundedRows (take (MAX_TABLE_ROWS + 1) (sort_key (\<lambda>t. (th_createdAt t, th_id t)) (db_threads d))) of
        Inl e \<Rightarrow> Inl e
      | Inr rows \<Rightarrow> Inr (map (read_thread d) rows))"

definition listReviewCommentThreads :: "string \<Rightarrow> bool \<Rightarrow> laborer_db \<Rightarrow> comment_thread db_error + comment_thread list" where
  "listReviewCommentThreads workspaceId includeResolved d =
     (case boundedRows (take (MAX_TABLE_ROWS + 1)
         (sort_key (\<lambda>t. (th_createdAt t, th_id t))
           (filter (\<lambda>t. th_workspaceId t = workspaceId \<and> (includeResolved \<or> th_status t = CommentOpen))
             (db_threads d)))) of
        Inl e \<Rightarrow> Inl e
      | Inr rows \<Rightarrow> Inr (map (read_thread d) rows))"

definition reviewCommentsAt ::
    "string \<Rightarrow> bool \<Rightarrow> laborer_db \<Rightarrow> comment_thread db_error + int \<times> comment_thread list" where
  "reviewCommentsAt workspaceId includeResolved d =
     (case listReviewCommentThreads workspaceId includeResolved d of
        Inl e \<Rightarrow> Inl e
      | Inr rows \<Rightarrow> Inr (stateCursor d, rows))"

definition findReviewCommentReply :: "string \<Rightarrow> laborer_db \<Rightarrow> reply_row option" where
  "findReviewCommentReply i d = row_at r_id (db_replies d) i"

text \<open>The key of a reply is unique over all threads.\<close>

definition insert_reply :: "reply_row \<Rightarrow> laborer_db \<Rightarrow> laborer_db option" where
  "insert_reply r d =
     (if r_id r \<in> set (map r_id (db_replies d)) then None
      else Some (d\<lparr>db_replies := db_replies d @ [r]\<rparr>))"

definition createReviewCommentThread ::
    "string \<Rightarrow> string \<Rightarrow> new_thread \<Rightarrow> comment_author \<Rightarrow> string option \<Rightarrow> int \<Rightarrow> laborer_db
      \<Rightarrow> comment_thread mutation" where
  "createReviewCommentThread ulid replyUlid input author operationId changedAt d =
     (case validateNewReviewCommentThread input of
        None \<Rightarrow> Inl InvalidInput
      | Some draft \<Rightarrow>
          (let i = (case nh_id draft of None \<Rightarrow> ulid | Some i \<Rightarrow> i);
               replyId = (case nh_replyId draft of None \<Rightarrow> replyUlid | Some r \<Rightarrow> r);
               createdAt = (case nh_createdAt draft of None \<Rightarrow> changedAt | Some c \<Rightarrow> c)
           in case findReviewCommentThread i d of
                Some existing \<Rightarrow> Inr ((existing, stateCursor d), d)
              | None \<Rightarrow>
                  (case insert_reply
                      \<lparr>r_author = author, r_body = nh_body draft, r_createdAt = createdAt, r_id = replyId, r_threadId = i\<rparr>
                      (d\<lparr>db_threads := db_threads d @
                        [\<lparr>th_createdAt = createdAt, th_endLine = nh_endLine draft, th_filePath = nh_filePath draft,
                          th_id = i, th_revision = 1, th_side = nh_side draft, th_startLine = nh_startLine draft,
                          th_status = CommentOpen, th_updatedAt = createdAt,
                          th_workspaceId = nh_workspaceId draft\<rparr>]\<rparr>) of
                     None \<Rightarrow> Inl ConstraintViolation
                   | Some d1 \<Rightarrow>
                       state_result (findReviewCommentThread i) ReviewThreads i createdAt operationId d1)))"

definition appendReviewCommentReply ::
    "string \<Rightarrow> new_reply \<Rightarrow> comment_author \<Rightarrow> string option \<Rightarrow> int \<Rightarrow> laborer_db \<Rightarrow> comment_thread mutation" where
  "appendReviewCommentReply ulid input author operationId changedAt d =
     (case reviewCommentBody (nr_body input) of
        None \<Rightarrow> Inl InvalidInput
      | Some body \<Rightarrow>
          (let i = (case nr_id input of None \<Rightarrow> ulid | Some i \<Rightarrow> i)
           in case findReviewCommentThread (nr_threadId input) d of
                None \<Rightarrow> Inl (CommentNotFound (nr_threadId input))
              | Some thread \<Rightarrow>
                  if list_ex (\<lambda>r. r_id r = i) (ct_replies thread) then Inr ((thread, stateCursor d), d)
                  else if MAX_REVIEW_COMMENT_REPLIES \<le> length (ct_replies thread) then Inl InvalidInput
                  else
                    (let previous = (if ct_replies thread = [] then th_createdAt (ct_row thread)
                                     else r_createdAt (last (ct_replies thread)));
                         createdAt = (case nr_createdAt input of None \<Rightarrow> max changedAt (previous + 1) | Some c \<Rightarrow> c)
                     in case insert_reply \<lparr>r_author = author, r_body = body, r_createdAt = createdAt, r_id = i,
                            r_threadId = nr_threadId input\<rparr> d of
                          None \<Rightarrow> Inl ConstraintViolation
                        | Some d1 \<Rightarrow>
                            state_result (findReviewCommentThread (nr_threadId input)) ReviewThreads
                              (nr_threadId input) createdAt operationId d1)))"

definition updateReviewCommentReply ::
    "string \<Rightarrow> string \<Rightarrow> comment_author \<Rightarrow> string option \<Rightarrow> int \<Rightarrow> laborer_db \<Rightarrow> comment_thread mutation" where
  "updateReviewCommentReply replyId body author operationId changedAt d =
     (case reviewCommentBody body of
        None \<Rightarrow> Inl InvalidInput
      | Some nextBody \<Rightarrow>
          (case findReviewCommentReply replyId d of
             None \<Rightarrow> Inl (CommentNotFound replyId)
           | Some reply \<Rightarrow>
               if r_author reply \<noteq> author then Inl (CommentAuthorMismatch (r_author reply) replyId)
               else state_result (findReviewCommentThread (r_threadId reply)) ReviewThreads (r_threadId reply)
                 changedAt operationId
                 (d\<lparr>db_threads := update_where (\<lambda>t. th_id t = r_threadId reply)
                      (\<lambda>t. t\<lparr>th_updatedAt := changedAt\<rparr>) (db_threads d),
                    db_replies := update_where (\<lambda>r. r_id r = replyId) (\<lambda>r. r\<lparr>r_body := nextBody\<rparr>) (db_replies d)\<rparr>)))"

definition setReviewCommentThreadStatus ::
    "string \<Rightarrow> int \<Rightarrow> comment_status \<Rightarrow> string option \<Rightarrow> int \<Rightarrow> laborer_db \<Rightarrow> comment_thread mutation" where
  "setReviewCommentThreadStatus i expectedRevision status operationId changedAt d =
     (let matches = (\<lambda>t. th_id t = i \<and> th_revision t = expectedRevision)
      in if rows_changed matches (db_threads d) = 0
         then Inl (StaleRevision i (Some expectedRevision) (findReviewCommentThread i d))
         else state_result (findReviewCommentThread i) ReviewThreads i changedAt operationId
           (d\<lparr>db_threads := update_where matches
             (\<lambda>t. t\<lparr>th_status := status, th_updatedAt := changedAt, th_revision := th_revision t + 1\<rparr>)
             (db_threads d)\<rparr>))"

text \<open>The replies of a deleted thread go with it (\<open>ON DELETE CASCADE\<close>).\<close>

definition delete_thread_rows :: "(thread_row \<Rightarrow> bool) \<Rightarrow> laborer_db \<Rightarrow> laborer_db" where
  "delete_thread_rows P d =
     d\<lparr>db_threads := delete_where P (db_threads d),
       db_replies := delete_where (\<lambda>r. r_threadId r \<in> set (map th_id (filter P (db_threads d)))) (db_replies d)\<rparr>"

definition deleteReviewCommentThread ::
    "string \<Rightarrow> int \<Rightarrow> string option \<Rightarrow> int \<Rightarrow> laborer_db \<Rightarrow> comment_thread mutation" where
  "deleteReviewCommentThread i expectedRevision operationId changedAt d =
     (let matches = (\<lambda>t. th_id t = i \<and> th_revision t = expectedRevision)
      in case findReviewCommentThread i d of
           None \<Rightarrow> Inl (StaleRevision i (Some expectedRevision) None)
         | Some row \<Rightarrow>
             if rows_changed matches (db_threads d) = 0
             then Inl (StaleRevision i (Some expectedRevision) (Some row))
             else deleted_result row ReviewThreads i changedAt operationId (delete_thread_rows matches d))"

fun delete_threads :: "string list \<Rightarrow> string option \<Rightarrow> int \<Rightarrow> laborer_db \<Rightarrow> laborer_db" where
  "delete_threads [] operationId changedAt d = d"
| "delete_threads (i # is) operationId changedAt d =
     delete_threads is operationId changedAt
       (snd (appendStateChange ReviewThreads i changedAt operationId (delete_thread_rows (\<lambda>t. th_id t = i) d)))"

definition deleteReviewCommentThreadsForWorkspace ::
    "string \<Rightarrow> string option \<Rightarrow> int \<Rightarrow> laborer_db
      \<Rightarrow> comment_thread db_error + comment_thread list \<times> laborer_db" where
  "deleteReviewCommentThreadsForWorkspace workspaceId operationId changedAt d =
     (case listReviewCommentThreads workspaceId True d of
        Inl e \<Rightarrow> Inl e
      | Inr rows \<Rightarrow> Inr (rows, delete_threads (map (th_id \<circ> ct_row) rows) operationId changedAt d))"

section \<open>Snapshots and updates after a cursor\<close>

record db_snapshot =
  ds_labels :: "label list"
  ds_projects :: "project list"
  ds_reviewComments :: "comment_thread list"
  ds_settings :: "app_setting list"
  ds_stateCursor :: int
  ds_taskCursor :: int
  ds_tasks :: "task list"

definition snapshot :: "laborer_db \<Rightarrow> db_snapshot option" where
  "snapshot d =
     (case (listLabels d, listProjects d, listAllReviewCommentThreads d, listSettings d, listTasks d) of
        (Inr labels, Inr projects, Inr threads, Inr settings, Inr tasks) \<Rightarrow>
          Some \<lparr>ds_labels = labels, ds_projects = projects, ds_reviewComments = threads, ds_settings = settings,
            ds_stateCursor = stateCursor d, ds_taskCursor = taskCursor d, ds_tasks = tasks\<rparr>
      | _ \<Rightarrow> None)"

record state_updates =
  su_labels :: "label table_update"
  su_projects :: "project table_update"
  su_reviewComments :: "comment_thread table_update"
  su_settings :: "app_setting table_update"

definition state_delta ::
    "state_table \<Rightarrow> (string \<Rightarrow> 'r option) \<Rightarrow> ('r \<Rightarrow> string) \<Rightarrow> state_change list \<Rightarrow> 'r table_update" where
  "state_delta tableName find_row key changes =
     (let tableChanges = filter (\<lambda>c. sc_tableName c = tableName) changes
      in table_delta find_row key (sc_sequence (last changes)) (map sc_rowId tableChanges)
           (map sc_operationId tableChanges))"

definition stateUpdatesAfter :: "int \<Rightarrow> laborer_db \<Rightarrow> unit db_error + state_updates option" where
  "stateUpdatesAfter sequence d =
     (if \<not> validateCursorRead sequence MAX_LEDGER_READ then Inl InvalidInput
      else if cursorNeedsSnapshot sequence (ledger_minimum sc_sequence (db_stateChanges d))
                (ledger_maximum sc_sequence (db_stateChanges d))
      then Inl (CursorGap sequence)
      else
        (case stateChangesAfter sequence MAX_LEDGER_READ d of
           Inl e \<Rightarrow> Inl e
         | Inr changes \<Rightarrow>
             if changes = [] then Inr None
             else if \<not> contiguous_from (sequence + 1) (map sc_sequence changes) then Inl (CursorGap sequence)
             else Inr (Some
               \<lparr>su_labels = state_delta Labels (\<lambda>i. findLabel i d) l_id changes,
                su_projects = state_delta Projects (\<lambda>i. findProject i d) p_id changes,
                su_reviewComments = state_delta ReviewThreads (\<lambda>i. findReviewCommentThread i d) (th_id \<circ> ct_row) changes,
                su_settings = state_delta AppSettings (\<lambda>i. findSetting i d) s_key changes\<rparr>)))"

end
