(* ===== verification/Laborer_Facts.thy ===== *)
theory Laborer_Facts
  imports Laborer_State
begin

text \<open>
  Every change of a row is recorded in a ledger. A key is a table with a row id; \<open>row_changed\<close> says
  that two databases differ at a key, \<open>ledger_extends\<close> which keys the ledgers of the second record
  beyond the first, and \<open>logged\<close> that everything that changed is recorded.
\<close>

named_theorems logged_intros

section \<open>Keys\<close>

datatype table_key = TaskKey string | StateKey state_table string

fun row_changed :: "laborer_db \<Rightarrow> laborer_db \<Rightarrow> table_key \<Rightarrow> bool" where
  "row_changed d d' (TaskKey i) = (findTask i d' \<noteq> findTask i d)"
| "row_changed d d' (StateKey Projects i) = (findProject i d' \<noteq> findProject i d)"
| "row_changed d d' (StateKey AppSettings i) = (findSetting i d' \<noteq> findSetting i d)"
| "row_changed d d' (StateKey Labels i) = (findLabel i d' \<noteq> findLabel i d)"
| "row_changed d d' (StateKey ReviewThreads i) = (findReviewCommentThread i d' \<noteq> findReviewCommentThread i d)"

definition task_keys :: "task_change list \<Rightarrow> table_key set" where
  "task_keys cs = (\<lambda>c. TaskKey (tc_taskId c)) ` set cs"

definition state_keys :: "state_change list \<Rightarrow> table_key set" where
  "state_keys cs = (\<lambda>c. StateKey (sc_tableName c) (sc_rowId c)) ` set cs"

definition numbered :: "('c \<Rightarrow> int) \<Rightarrow> int \<Rightarrow> 'c list \<Rightarrow> bool" where
  "numbered seq n cs \<longleftrightarrow> map seq cs = map (\<lambda>k. n + 1 + int k) [0..<length cs]"

definition ledger_extends :: "laborer_db \<Rightarrow> laborer_db \<Rightarrow> table_key set \<Rightarrow> bool" where
  "ledger_extends d d' K \<longleftrightarrow>
     (\<exists>tcs scs. db_taskChanges d' = db_taskChanges d @ tcs \<and> numbered tc_sequence (db_taskSequence d) tcs \<and>
        db_taskSequence d' = db_taskSequence d + int (length tcs) \<and>
        db_stateChanges d' = db_stateChanges d @ scs \<and> numbered sc_sequence (db_stateSequence d) scs \<and>
        db_stateSequence d' = db_stateSequence d + int (length scs) \<and>
        K = task_keys tcs \<union> state_keys scs)"

text \<open>The keys of every table are unique.\<close>

definition keys_ok :: "laborer_db \<Rightarrow> bool" where
  "keys_ok d \<longleftrightarrow>
     distinct (map t_id (db_tasks d)) \<and> distinct (map p_id (db_projects d)) \<and>
     distinct (map s_key (db_settings d)) \<and> distinct (map l_id (db_labels d)) \<and>
     distinct (map th_id (db_threads d)) \<and> distinct (map r_id (db_replies d))"

definition logged :: "laborer_db \<Rightarrow> laborer_db \<Rightarrow> bool" where
  "logged d d' \<longleftrightarrow> (\<exists>K. ledger_extends d d' K \<and> (\<forall>k. row_changed d d' k \<longrightarrow> k \<in> K)) \<and>
     (keys_ok d \<longrightarrow> keys_ok d')"

text \<open>A database changes at some keys, and its ledgers not yet.\<close>

definition touches :: "laborer_db \<Rightarrow> laborer_db \<Rightarrow> table_key set \<Rightarrow> bool" where
  "touches d d' K \<longleftrightarrow>
     db_taskChanges d' = db_taskChanges d \<and> db_taskSequence d' = db_taskSequence d \<and>
     db_stateChanges d' = db_stateChanges d \<and> db_stateSequence d' = db_stateSequence d \<and>
     (\<forall>k. row_changed d d' k \<longrightarrow> k \<in> K) \<and> (keys_ok d \<longrightarrow> keys_ok d')"

lemma key_cases:
  obtains (task) i where "k = TaskKey i" | (project) i where "k = StateKey Projects i"
  | (setting) i where "k = StateKey AppSettings i" | (label) i where "k = StateKey Labels i"
  | (thread) i where "k = StateKey ReviewThreads i"
  by (cases k, blast, metis state_table.exhaust)

lemma row_changed_refl [simp]: "\<not> row_changed d d k"
  by (cases k rule: key_cases) simp_all

lemma row_changed_trans: "row_changed d d'' k \<Longrightarrow> row_changed d d' k \<or> row_changed d' d'' k"
  by (induction d d' k rule: row_changed.induct) auto

lemma numbered_Nil [simp]: "numbered seq n []"
  by (simp add: numbered_def)

lemma numbered_append:
  assumes "numbered seq n cs" and "numbered seq (n + int (length cs)) cs'"
  shows "numbered seq n (cs @ cs')"
  unfolding numbered_def
proof (rule nth_equalityI)
  fix k assume k: "k < length (map seq (cs @ cs'))"
  have a: "seq (cs ! j) = n + 1 + int j" if "j < length cs" for j
    using arg_cong [OF assms(1) [unfolded numbered_def], of "\<lambda>l. l ! j"] that by simp
  have b: "seq (cs' ! j) = n + int (length cs) + 1 + int j" if "j < length cs'" for j
    using arg_cong [OF assms(2) [unfolded numbered_def], of "\<lambda>l. l ! j"] that by simp
  show "map seq (cs @ cs') ! k = map (\<lambda>k. n + 1 + int k) [0..<length (cs @ cs')] ! k"
    using k a [of k] b [of "k - length cs"] by (cases "k < length cs") (simp_all add: nth_append)
qed simp

lemma ledger_extends_refl: "ledger_extends d d {}"
  unfolding ledger_extends_def by (rule exI [of _ "[]"], rule exI [of _ "[]"]) (simp add: task_keys_def state_keys_def)

lemma ledger_extends_trans:
  assumes "ledger_extends d d' K" and "ledger_extends d' d'' K'"
  shows "ledger_extends d d'' (K \<union> K')"
proof -
  obtain tcs scs where a: "db_taskChanges d' = db_taskChanges d @ tcs" "numbered tc_sequence (db_taskSequence d) tcs"
    "db_taskSequence d' = db_taskSequence d + int (length tcs)" "db_stateChanges d' = db_stateChanges d @ scs"
    "numbered sc_sequence (db_stateSequence d) scs" "db_stateSequence d' = db_stateSequence d + int (length scs)"
    "K = task_keys tcs \<union> state_keys scs"
    using assms(1) unfolding ledger_extends_def by blast
  obtain tcs' scs' where b: "db_taskChanges d'' = db_taskChanges d' @ tcs'"
    "numbered tc_sequence (db_taskSequence d') tcs'"
    "db_taskSequence d'' = db_taskSequence d' + int (length tcs')" "db_stateChanges d'' = db_stateChanges d' @ scs'"
    "numbered sc_sequence (db_stateSequence d') scs'" "db_stateSequence d'' = db_stateSequence d' + int (length scs')"
    "K' = task_keys tcs' \<union> state_keys scs'"
    using assms(2) unfolding ledger_extends_def by blast
  show ?thesis
    unfolding ledger_extends_def
    by (rule exI [of _ "tcs @ tcs'"], rule exI [of _ "scs @ scs'"])
      (use a b numbered_append [OF a(2)] numbered_append [OF a(5)] in
        \<open>auto simp: task_keys_def state_keys_def\<close>)
qed

lemma logged_refl [simp]: "logged d d"
  unfolding logged_def using ledger_extends_refl by auto

lemma logged_trans:
  assumes "logged d d'" and "logged d' d''"
  shows "logged d d''"
proof -
  obtain K K' where "ledger_extends d d' K" "ledger_extends d' d'' K'"
    "\<forall>k. row_changed d d' k \<longrightarrow> k \<in> K" "\<forall>k. row_changed d' d'' k \<longrightarrow> k \<in> K'"
    using assms unfolding logged_def by blast
  then have "\<exists>K. ledger_extends d d'' K \<and> (\<forall>k. row_changed d d'' k \<longrightarrow> k \<in> K)"
    using ledger_extends_trans row_changed_trans by blast
  then show ?thesis using assms by (simp add: logged_def)
qed

text \<open>Reading a thread depends on the replies only.\<close>

lemma read_thread_same [simp]:
  "read_thread (d\<lparr>db_taskChanges := a, db_taskSequence := m\<rparr>) = read_thread d"
  "read_thread (d\<lparr>db_stateChanges := b, db_stateSequence := n\<rparr>) = read_thread d"
  "read_thread (d\<lparr>db_tasks := c, db_taskNumbers := e\<rparr>) = read_thread d"
  "read_thread (d\<lparr>db_projects := f\<rparr>) = read_thread d"
  "read_thread (d\<lparr>db_settings := g\<rparr>) = read_thread d"
  "read_thread (d\<lparr>db_labels := l\<rparr>) = read_thread d"
  by (simp_all add: fun_eq_iff read_thread_def reviewCommentReplies_def)

text \<open>The ends of the transactions: what was touched is then recorded.\<close>

lemma appended_task:
  "ledger_extends d (snd (appendTaskChange i t op d)) {TaskKey i} \<and>
   (\<forall>k. \<not> row_changed d (snd (appendTaskChange i t op d)) k) \<and>
   keys_ok (snd (appendTaskChange i t op d)) = keys_ok d"
proof (intro conjI)
  show "keys_ok (snd (appendTaskChange i t op d)) = keys_ok d"
    by (simp add: keys_ok_def appendTaskChange_def Let_def)
  show "ledger_extends d (snd (appendTaskChange i t op d)) {TaskKey i}"
    unfolding ledger_extends_def appendTaskChange_def Let_def snd_conv
    by (rule exI [of _ "[\<lparr>tc_changedAt = t, tc_operationId = op, tc_sequence = db_taskSequence d + 1, tc_taskId = i\<rparr>]"],
        rule exI [of _ "[]"]) (simp add: numbered_def task_keys_def state_keys_def)
  show "\<forall>k. \<not> row_changed d (snd (appendTaskChange i t op d)) k"
  proof
    fix k show "\<not> row_changed d (snd (appendTaskChange i t op d)) k"
      by (cases k rule: key_cases)
        (simp_all add: appendTaskChange_def Let_def findTask_def findProject_def findSetting_def findLabel_def
          findReviewCommentThread_def)
  qed
qed

lemma appended_state:
  "ledger_extends d (snd (appendStateChange T i t op d)) {StateKey T i} \<and>
   (\<forall>k. \<not> row_changed d (snd (appendStateChange T i t op d)) k) \<and>
   keys_ok (snd (appendStateChange T i t op d)) = keys_ok d"
proof (intro conjI)
  show "keys_ok (snd (appendStateChange T i t op d)) = keys_ok d"
    by (simp add: keys_ok_def appendStateChange_def Let_def)
  show "ledger_extends d (snd (appendStateChange T i t op d)) {StateKey T i}"
    unfolding ledger_extends_def appendStateChange_def Let_def snd_conv
    by (rule exI [of _ "[]"], rule exI [of _ "[\<lparr>sc_changedAt = t, sc_operationId = op, sc_rowId = i,
        sc_sequence = db_stateSequence d + 1, sc_tableName = T\<rparr>]"])
      (simp add: numbered_def task_keys_def state_keys_def)
  show "\<forall>k. \<not> row_changed d (snd (appendStateChange T i t op d)) k"
  proof
    fix k show "\<not> row_changed d (snd (appendStateChange T i t op d)) k"
      by (cases k rule: key_cases)
        (simp_all add: appendStateChange_def Let_def findTask_def findProject_def findSetting_def findLabel_def
          findReviewCommentThread_def)
  qed
qed

lemma touches_logged:
  assumes "touches d d' K" and "ledger_extends d' d'' K" and "\<forall>k. \<not> row_changed d' d'' k"
    and "keys_ok d'' = keys_ok d'"
  shows "logged d d''"
proof -
  have "ledger_extends d d'' K"
    using assms(1,2) unfolding touches_def ledger_extends_def by simp
  moreover have "\<forall>k. row_changed d d'' k \<longrightarrow> k \<in> K"
    using assms(1,3) row_changed_trans unfolding touches_def by blast
  ultimately show ?thesis using assms(1,4) unfolding logged_def touches_def by blast
qed

lemma touches_task_logged: "touches d d' {TaskKey i} \<Longrightarrow> logged d (snd (appendTaskChange i t op d'))"
  using touches_logged appended_task by blast

lemma touches_state_logged: "touches d d' {StateKey T i} \<Longrightarrow> logged d (snd (appendStateChange T i t op d'))"
  using touches_logged appended_state by blast

lemma task_result_logged:
  "task_result i t op d' = Inr (x, d'') \<Longrightarrow> touches d d' {TaskKey i} \<Longrightarrow> logged d d''"
  using touches_task_logged [of d d' i t op]
  by (auto simp: task_result_def split: prod.splits option.splits)

lemma state_result_logged:
  "state_result f T i t op d' = Inr (x, d'') \<Longrightarrow> touches d d' {StateKey T i} \<Longrightarrow> logged d d''"
  using touches_state_logged [of d d' T i t op]
  by (auto simp: state_result_def split: prod.splits option.splits)

lemma deleted_result_logged:
  "deleted_result r T i t op d' = Inr (x, d'') \<Longrightarrow> touches d d' {StateKey T i} \<Longrightarrow> logged d d''"
  using touches_state_logged [of d d' T i t op] by (auto simp: deleted_result_def split: prod.splits)

section \<open>Which rows a statement touches\<close>

lemma row_at_update_other:
  assumes "\<And>r. key (f r) = key r" and "\<And>r. P r \<Longrightarrow> key r = i" and "j \<noteq> i"
  shows "row_at key (update_where P f rows) j = row_at key rows j"
  using assms(2,3) unfolding row_at_update [where key = key, OF assms(1)]
  by (cases "row_at key rows j") (auto dest: row_at_Some)

lemma row_at_delete_other:
  assumes "\<And>r. P r \<Longrightarrow> key r = i" and "j \<noteq> i"
  shows "row_at key (delete_where P rows) j = row_at key rows j"
  using assms by (induction rows) (auto simp: row_at_def delete_where_def)

lemma row_at_insert_other: "key r = i \<Longrightarrow> j \<noteq> i \<Longrightarrow> row_at key (rows @ [r]) j = row_at key rows j"
  by (induction rows) (auto simp: row_at_def)

lemmas row_at_other = row_at_update_other row_at_delete_other row_at_insert_other

lemmas find_defs = findTask_def findProject_def findSetting_def findLabel_def findReviewCommentThread_def

lemma touches_tasks:
  assumes "\<And>j. j \<noteq> i \<Longrightarrow> row_at t_id rows j = row_at t_id (db_tasks d) j"
    and "distinct (map t_id (db_tasks d)) \<Longrightarrow> distinct (map t_id rows)"
  shows "touches d (d\<lparr>db_tasks := rows\<rparr>) {TaskKey i}"
    and "touches d (d\<lparr>db_tasks := rows, db_taskNumbers := n\<rparr>) {TaskKey i}"
proof -
  have "row_changed d (d\<lparr>db_tasks := rows, db_taskNumbers := n\<rparr>) k \<Longrightarrow> k = TaskKey i" for k n
    by (cases k rule: key_cases)
      (use assms in \<open>auto simp: find_defs cong: option.map_cong\<close>)
  from this this [of "db_taskNumbers d"]
  show "touches d (d\<lparr>db_tasks := rows\<rparr>) {TaskKey i}" "touches d (d\<lparr>db_tasks := rows, db_taskNumbers := n\<rparr>) {TaskKey i}"
    unfolding touches_def using assms by (auto simp: keys_ok_def)
qed

lemma touches_projects:
  assumes "\<And>j. j \<noteq> i \<Longrightarrow> row_at p_id rows j = row_at p_id (db_projects d) j"
    and "distinct (map p_id (db_projects d)) \<Longrightarrow> distinct (map p_id rows)"
  shows "touches d (d\<lparr>db_projects := rows\<rparr>) {StateKey Projects i}"
proof -
  have "row_changed d (d\<lparr>db_projects := rows\<rparr>) k \<Longrightarrow> k = StateKey Projects i" for k
    by (cases k rule: key_cases) (use assms in \<open>auto simp: find_defs\<close>)
  then show ?thesis unfolding touches_def using assms by (auto simp: keys_ok_def)
qed

lemma touches_settings:
  assumes "\<And>j. j \<noteq> i \<Longrightarrow> row_at s_key rows j = row_at s_key (db_settings d) j"
    and "distinct (map s_key (db_settings d)) \<Longrightarrow> distinct (map s_key rows)"
  shows "touches d (d\<lparr>db_settings := rows\<rparr>) {StateKey AppSettings i}"
proof -
  have "row_changed d (d\<lparr>db_settings := rows\<rparr>) k \<Longrightarrow> k = StateKey AppSettings i" for k
    by (cases k rule: key_cases) (use assms in \<open>auto simp: find_defs\<close>)
  then show ?thesis unfolding touches_def using assms by (auto simp: keys_ok_def)
qed

lemma touches_labels:
  assumes "\<And>j. j \<noteq> i \<Longrightarrow> row_at l_id rows j = row_at l_id (db_labels d) j"
    and "distinct (map l_id (db_labels d)) \<Longrightarrow> distinct (map l_id rows)"
  shows "touches d (d\<lparr>db_labels := rows\<rparr>) {StateKey Labels i}"
proof -
  have "row_changed d (d\<lparr>db_labels := rows\<rparr>) k \<Longrightarrow> k = StateKey Labels i" for k
    by (cases k rule: key_cases) (use assms in \<open>auto simp: find_defs\<close>)
  then show ?thesis unfolding touches_def using assms by (auto simp: keys_ok_def)
qed

text \<open>A thread is read with its replies, so its key covers both tables.\<close>

lemma touches_threads:
  assumes "\<And>j. j \<noteq> i \<Longrightarrow> row_at th_id rows j = row_at th_id (db_threads d) j"
    and "\<And>j. j \<noteq> i \<Longrightarrow> filter (\<lambda>r. r_threadId r = j) replies = filter (\<lambda>r. r_threadId r = j) (db_replies d)"
    and "distinct (map th_id (db_threads d)) \<Longrightarrow> distinct (map th_id rows)"
    and "distinct (map r_id (db_replies d)) \<Longrightarrow> distinct (map r_id replies)"
  shows "touches d (d\<lparr>db_threads := rows, db_replies := replies\<rparr>) {StateKey ReviewThreads i}"
proof -
  have th: "map_option (read_thread (d\<lparr>db_threads := rows, db_replies := replies\<rparr>)) (row_at th_id rows j)
      = map_option (read_thread d) (row_at th_id (db_threads d) j)" if "j \<noteq> i" for j
    unfolding assms(1) [OF that] using assms(2) [OF that]
    by (cases "row_at th_id (db_threads d) j")
      (auto simp: read_thread_def reviewCommentReplies_def dest: row_at_Some)
  have "row_changed d (d\<lparr>db_threads := rows, db_replies := replies\<rparr>) k \<Longrightarrow> k = StateKey ReviewThreads i" for k
    by (cases k rule: key_cases)
      (use th in \<open>auto simp: findTask_def findProject_def findSetting_def findLabel_def findReviewCommentThread_def\<close>)
  then show ?thesis unfolding touches_def using assms by (auto simp: keys_ok_def)
qed

end
