(* ===== verification/Laborer_Logged.thy ===== *)
theory Laborer_Logged
  imports Laborer_Facts
begin

text \<open>
  Every operation records what it changes, but for one: deleting a task that is the parent of
  others clears their parent without recording them.
\<close>

section \<open>Tasks\<close>

lemma apply_patches_id [simp]: "t_id (fold apply_patch ps t) = t_id t"
  by (induction ps arbitrary: t) simp_all

lemma apply_project_patches_id [simp]: "p_id (fold apply_project_patch ps p) = p_id p"
  by (induction ps arbitrary: p) simp_all

text \<open>Rows with one key are updated, or one row is added: the table at the other keys is as it was.\<close>

lemma touches_update_tasks:
  assumes "\<And>t. t_id (f t) = t_id t" and "\<And>t. P t \<Longrightarrow> t_id t = i"
  shows "touches d (d\<lparr>db_tasks := update_where P f (db_tasks d)\<rparr>) {TaskKey i}"
  by (intro touches_tasks(1) row_at_update_other) (simp_all add: assms)

lemma insert_task_row_touches:
  assumes "insert_task_row t d = Some d'"
  shows "touches d d' {TaskKey (t_id t)}"
proof -
  let ?number = "next_task_number (db_taskNumbers d) (t_rootPath t)"
  let ?rows = "db_tasks d @ [t\<lparr>t_taskNumber := ?number\<rparr>]"
  have c: "task_constraints ?rows"
    "d' = d\<lparr>db_tasks := ?rows, db_taskNumbers := (t_rootPath t, ?number + 1) #
      filter (\<lambda>e. fst e \<noteq> t_rootPath t) (db_taskNumbers d)\<rparr>"
    using assms by (simp_all add: insert_task_row_def Let_def split: if_splits)
  have "distinct (map t_id ?rows)" using c(1) by (simp add: task_constraints_def)
  then show ?thesis unfolding c(2) by (intro touches_tasks(2) row_at_insert_other) simp_all
qed

lemma insertTask_logged: "insertTask input op t d = Inr (x, d') \<Longrightarrow> logged d d'"
proof -
  assume a: "insertTask input op t d = Inr (x, d')"
  then obtain row d1 where "insert_task_row row d = Some d1" "task_result (nt_id input) t op d1 = Inr (x, d')"
    and "t_id row = nt_id input"
    by (auto simp: insertTask_def Let_def new_task_row_def split: if_splits option.splits)
  then show "logged d d'" using task_result_logged insert_task_row_touches by metis
qed

lemma adoptWorktreeTask_logged: "adoptWorktreeTask input t d = Inr (x, d') \<Longrightarrow> logged d d'"
proof -
  assume a: "adoptWorktreeTask input t d = Inr (x, d')"
  show "logged d d'"
  proof (cases "d' = d")
    case False
    with a obtain d1 r where "insert_task_row (adopted_row input t) d = Some d1"
      "task_result (aw_id input) t None d1 = Inr (r, d')"
      by (auto simp: adoptWorktreeTask_def Let_def split: if_splits option.splits sum.splits prod.splits)
    moreover have "t_id (adopted_row input t) = aw_id input" by (simp add: adopted_row_def)
    ultimately show ?thesis using task_result_logged insert_task_row_touches by metis
  qed simp
qed

lemma updateTask_logged: "updateTask i n patch op t d = Inr (x, d') \<Longrightarrow> logged d d'"
  by (auto simp: updateTask_def Let_def split: if_splits elim!: task_result_logged intro!: touches_update_tasks)

lemma deleteTask_logged:
  assumes "deleteTask i n op t d = Inr (x, d')" and "\<forall>c\<in>set (db_tasks d). t_parentTaskId c \<noteq> Some i"
  shows "logged d d'"
proof -
  let ?P = "\<lambda>t. t_id t = i \<and> t_revision t = n"
  have "delete_task_rows ?P (db_tasks d) = delete_where ?P (db_tasks d)"
    unfolding delete_task_rows_def update_where_def delete_where_def
    by (rule map_idI) (use assms(2) in \<open>auto split: option.splits\<close>)
  moreover have "touches d (d\<lparr>db_tasks := delete_where ?P (db_tasks d)\<rparr>) {TaskKey i}"
    by (intro touches_tasks(1) row_at_delete_other delete_where_keys) simp_all
  ultimately have "logged d (snd (appendTaskChange i t op (d\<lparr>db_tasks := delete_task_rows ?P (db_tasks d)\<rparr>)))"
    using touches_task_logged by metis
  then show ?thesis
    using assms(1) by (auto simp: deleteTask_def Let_def split: if_splits option.splits prod.splits)
qed

lemma writeTaskLabels_logged: "writeTaskLabels i n ids op t d = Inr (x, d') \<Longrightarrow> logged d d'"
  by (auto simp: writeTaskLabels_def Let_def split: if_splits option.splits sum.splits
      elim!: task_result_logged intro!: touches_update_tasks)

lemma setTaskLabels_logged: "setTaskLabels i n ids op t d = Inr (x, d') \<Longrightarrow> logged d d'"
  by (auto simp: setTaskLabels_def Let_def split: if_splits dest: writeTaskLabels_logged)

lemma addTaskLabels_logged: "addTaskLabels i ids op t d = Inr (x, d') \<Longrightarrow> logged d d'"
  by (auto simp: addTaskLabels_def Let_def split: if_splits option.splits sum.splits dest: writeTaskLabels_logged)

lemma removeTaskLabels_logged: "removeTaskLabels i ids op t d = Inr (x, d') \<Longrightarrow> logged d d'"
  by (auto simp: removeTaskLabels_def Let_def split: if_splits sum.splits dest: writeTaskLabels_logged)

section \<open>Projects and settings\<close>

lemma insertProject_logged: "insertProject input op t d = Inr (x, d') \<Longrightarrow> logged d d'"
  by (auto simp: insertProject_def Let_def project_constraints_def split: option.splits if_splits
      elim!: state_result_logged intro!: touches_projects row_at_insert_other)

lemma touches_update_projects:
  assumes "\<And>p. p_id (f p) = p_id p" and "\<And>p. P p \<Longrightarrow> p_id p = i"
  shows "touches d (d\<lparr>db_projects := update_where P f (db_projects d)\<rparr>) {StateKey Projects i}"
  by (intro touches_projects row_at_update_other) (simp_all add: assms)

lemma updateProject_logged: "updateProject i n patch op t d = Inr (x, d') \<Longrightarrow> logged d d'"
  by (auto simp: updateProject_def Let_def split: if_splits elim!: state_result_logged intro!: touches_update_projects)

lemma moveProject_logged: "moveProject i n order op t d = Inr (x, d') \<Longrightarrow> logged d d'"
  by (simp add: moveProject_def updateProject_logged)

lemma assign_ranks_logged: "assign_ranks as op t d = Inr d' \<Longrightarrow> logged d d'"
proof (induction as op t d rule: assign_ranks.induct)
  case (2 a as op t d)
  let ?P = "\<lambda>p. p_id p = pa_projectId a \<and> p_revision p = pa_expectedRevision a"
  let ?f = "\<lambda>p. p\<lparr>p_sortOrder := pa_sortOrder a, p_updatedAt := t, p_revision := p_revision p + 1\<rparr>"
  let ?d = "d\<lparr>db_projects := update_where ?P ?f (db_projects d)\<rparr>"
  have "touches d ?d {StateKey Projects (pa_projectId a)}" by (rule touches_update_projects) simp_all
  note step = touches_state_logged [OF this, of t "Some op"]
  have one: "rows_changed ?P (db_projects d) = 1" using 2(2) by (auto simp: Let_def split: if_splits)
  then have "assign_ranks as op t (snd (appendStateChange Projects (pa_projectId a) t (Some op) ?d)) = Inr d'"
    using 2(2) by (simp add: Let_def)
  with 2(1) [OF refl] one step show ?case using logged_trans by auto
qed simp

lemma reorderProjects_logged: "reorderProjects as op t d = Inr (x, d') \<Longrightarrow> logged d d'"
  by (auto simp: reorderProjects_def split: if_splits option.splits sum.splits dest: assign_ranks_logged)

lemma deleteProject_logged: "deleteProject i n op t d = Inr (x, d') \<Longrightarrow> logged d d'"
  by (auto simp: deleteProject_def Let_def split: if_splits option.splits
      elim!: deleted_result_logged intro!: touches_projects row_at_delete_other delete_where_keys)

lemma insertSetting_logged: "insertSetting key v op t d = Inr (x, d') \<Longrightarrow> logged d d'"
  by (auto simp: insertSetting_def split: if_splits elim!: state_result_logged
      intro!: touches_settings row_at_insert_other)

lemma updateSetting_logged: "updateSetting key n v op t d = Inr (x, d') \<Longrightarrow> logged d d'"
  by (auto simp: updateSetting_def Let_def split: if_splits elim!: state_result_logged
      intro!: touches_settings row_at_update_other)

lemma setSetting_logged: "setSetting key n v op t d = Inr (x, d') \<Longrightarrow> logged d d'"
  by (auto simp: setSetting_def split: if_splits sum.splits option.splits
      dest: updateSetting_logged insertSetting_logged)

lemma deleteSetting_logged: "deleteSetting key n op t d = Inr (x, d') \<Longrightarrow> logged d d'"
  by (auto simp: deleteSetting_def Let_def split: if_splits option.splits
      elim!: deleted_result_logged intro!: touches_settings row_at_delete_other delete_where_keys)

section \<open>Labels\<close>

lemma createLabel_logged: "createLabel u input op t d = Inr (x, d') \<Longrightarrow> logged d d'"
  by (auto simp: createLabel_def Let_def findLabel_def row_at_None split: option.splits
      elim!: state_result_logged intro!: touches_labels row_at_insert_other)

lemma updateLabel_logged: "updateLabel i n name color op t d = Inr (x, d') \<Longrightarrow> logged d d'"
  by (auto simp: updateLabel_def Let_def split: if_splits option.splits elim!: state_result_logged
      intro!: touches_labels row_at_update_other)

lemma strip_label_logged: "logged d (strip_label l t op rows d)"
proof (induction l t op rows d rule: strip_label.induct)
  case (2 l t op row rows d)
  show ?case
  proof (cases "l \<in> set (t_labelIds row)")
    case True
    let ?d = "d\<lparr>db_tasks := update_where (\<lambda>t. t_id t = t_id row)
      (\<lambda>t'. t'\<lparr>t_labelIds := js_unique (filter (\<lambda>i. i \<noteq> l) (t_labelIds row)), t_updatedAt := t,
        t_revision := t_revision t' + 1\<rparr>) (db_tasks d)\<rparr>"
    have "touches d ?d {TaskKey (t_id row)}" by (rule touches_update_tasks) simp_all
    with logged_trans [OF touches_task_logged 2(2)] True show ?thesis by simp
  qed (use 2(1) in simp)
qed simp

text \<open>A row may be touched first and recorded last.\<close>

lemma touched_then_logged:
  assumes "touches d d1 {StateKey T i}" and "logged d1 d2"
  shows "logged d (snd (appendStateChange T i t op d2))"
proof -
  let ?d3 = "snd (appendStateChange T i t op d2)"
  obtain K where K: "ledger_extends d1 d2 K" "\<forall>k. row_changed d1 d2 k \<longrightarrow> k \<in> K"
    using assms(2) unfolding logged_def by blast
  have "ledger_extends d1 ?d3 (K \<union> {StateKey T i})"
    using ledger_extends_trans [OF K(1)] appended_state by blast
  then have "ledger_extends d ?d3 (K \<union> {StateKey T i})"
    using assms(1) unfolding touches_def ledger_extends_def by simp
  moreover have "k \<in> K \<union> {StateKey T i}" if "row_changed d ?d3 k" for k
    using row_changed_trans [OF that, of d1] row_changed_trans [of d1 ?d3 k d2] K(2) appended_state assms(1)
    unfolding touches_def by blast
  moreover have "keys_ok d \<longrightarrow> keys_ok ?d3"
    using assms appended_state unfolding touches_def logged_def by blast
  ultimately show ?thesis unfolding logged_def by blast
qed

lemma deleteLabel_logged: "deleteLabel i n op t d = Inr (x, d') \<Longrightarrow> logged d d'"
proof -
  let ?P = "\<lambda>l. l_id l = i \<and> revision_matches n (l_revision l)"
  let ?d = "d\<lparr>db_labels := delete_where ?P (db_labels d)\<rparr>"
  assume "deleteLabel i n op t d = Inr (x, d')"
  then obtain row d1 where s: "(stripLabelFromTasks i t op ?d :: label db_error + laborer_db) = Inr d1"
    "deleted_result row Labels i t op d1 = Inr (x, d')"
    by (auto simp: deleteLabel_def Let_def split: if_splits option.splits sum.splits)
  then obtain rows where d1: "d1 = strip_label i t op rows ?d"
    by (auto simp: stripLabelFromTasks_def split: sum.splits)
  have d': "d' = snd (appendStateChange Labels i t op d1)"
    using s(2) by (auto simp: deleted_result_def split: prod.splits)
  have "touches d ?d {StateKey Labels i}"
    by (intro touches_labels row_at_delete_other delete_where_keys) simp_all
  then show "logged d d'" unfolding d' d1 by (rule touched_then_logged) (rule strip_label_logged)
qed

section \<open>Review comments\<close>

lemma createReviewCommentThread_logged: "createReviewCommentThread u v input a op t d = Inr (x, d') \<Longrightarrow> logged d d'"
  by (auto simp: createReviewCommentThread_def insert_reply_def Let_def findReviewCommentThread_def row_at_None
      split: option.splits if_splits elim!: state_result_logged intro!: touches_threads row_at_insert_other)

lemma appendReviewCommentReply_logged: "appendReviewCommentReply u input a op t d = Inr (x, d') \<Longrightarrow> logged d d'"
proof -
  assume a: "appendReviewCommentReply u input a op t d = Inr (x, d')"
  show "logged d d'"
  proof (cases "d' = d")
    case False
    with a obtain b i' t' d1 where r:
      "insert_reply \<lparr>r_author = a, r_body = b, r_createdAt = t', r_id = i', r_threadId = nr_threadId input\<rparr> d = Some d1"
      "state_result (findReviewCommentThread (nr_threadId input)) ReviewThreads (nr_threadId input) t' op d1 = Inr (x, d')"
      by (auto simp: appendReviewCommentReply_def Let_def split: option.splits if_splits)
    then have d1: "d1 = d\<lparr>db_threads := db_threads d, db_replies := db_replies d @
        [\<lparr>r_author = a, r_body = b, r_createdAt = t', r_id = i', r_threadId = nr_threadId input\<rparr>]\<rparr>"
      "i' \<notin> set (map r_id (db_replies d))"
      by (auto simp: insert_reply_def split: if_splits)
    have "touches d d1 {StateKey ReviewThreads (nr_threadId input)}"
      unfolding d1(1) by (rule touches_threads) (use d1(2) in auto)
    with state_result_logged [OF r(2)] show ?thesis by simp
  qed simp
qed

lemma filter_update_other:
  assumes "\<And>r. r \<in> set rows \<Longrightarrow> P r \<Longrightarrow> \<not> Q r" and "\<And>r. Q (f r) = Q r"
  shows "filter Q (update_where P f rows) = filter Q rows"
  using assms(1) by (induction rows) (auto simp: update_where_def assms(2))

lemma updateReviewCommentReply_logged:
  assumes "updateReviewCommentReply i body a op t d = Inr (x, d')" and "keys_ok d"
  shows "logged d d'"
proof -
  obtain nextBody reply where reply: "findReviewCommentReply i d = Some reply"
    "state_result (findReviewCommentThread (r_threadId reply)) ReviewThreads (r_threadId reply) t op
      (d\<lparr>db_threads := update_where (\<lambda>t. th_id t = r_threadId reply) (\<lambda>t'. t'\<lparr>th_updatedAt := t\<rparr>) (db_threads d),
         db_replies := update_where (\<lambda>r. r_id r = i) (\<lambda>r. r\<lparr>r_body := nextBody\<rparr>) (db_replies d)\<rparr>)
     = Inr (x, d')"
    using assms(1) by (auto simp: updateReviewCommentReply_def split: option.splits if_splits)
  have same: "r_threadId r = r_threadId reply" if "r \<in> set (db_replies d)" "r_id r = i" for r
    using row_at_mem [of r_id "db_replies d" r] that assms(2) reply(1)
    by (simp add: keys_ok_def findReviewCommentReply_def)
  have "touches d (d\<lparr>db_threads := update_where (\<lambda>t. th_id t = r_threadId reply) (\<lambda>t'. t'\<lparr>th_updatedAt := t\<rparr>) (db_threads d),
      db_replies := update_where (\<lambda>r. r_id r = i) (\<lambda>r. r\<lparr>r_body := nextBody\<rparr>) (db_replies d)\<rparr>)
      {StateKey ReviewThreads (r_threadId reply)}"
  proof (rule touches_threads)
    fix j assume j: "j \<noteq> r_threadId reply"
    show "filter (\<lambda>r. r_threadId r = j) (update_where (\<lambda>r. r_id r = i) (\<lambda>r. r\<lparr>r_body := nextBody\<rparr>) (db_replies d))
        = filter (\<lambda>r. r_threadId r = j) (db_replies d)"
      by (rule filter_update_other) (use same j in auto)
  qed (auto intro: row_at_update_other)
  with state_result_logged [OF reply(2)] show ?thesis by simp
qed

lemma setReviewCommentThreadStatus_logged:
  assumes "setReviewCommentThreadStatus i n st op t d = Inr (x, d')"
  shows "logged d d'"
proof -
  let ?rows = "update_where (\<lambda>t. th_id t = i \<and> th_revision t = n)
    (\<lambda>t'. t'\<lparr>th_status := st, th_updatedAt := t, th_revision := th_revision t' + 1\<rparr>) (db_threads d)"
  have "touches d (d\<lparr>db_threads := ?rows, db_replies := db_replies d\<rparr>) {StateKey ReviewThreads i}"
    by (rule touches_threads) (auto intro: row_at_update_other [where i = i])
  with assms show ?thesis
    by (auto simp: setReviewCommentThreadStatus_def Let_def split: if_splits elim!: state_result_logged)
qed

lemma delete_thread_rows_touches:
  assumes "\<And>t. P t \<Longrightarrow> th_id t = i"
  shows "touches d (delete_thread_rows P d) {StateKey ReviewThreads i}"
  unfolding delete_thread_rows_def
proof (rule touches_threads)
  fix j assume "j \<noteq> i"
  then show "filter (\<lambda>r. r_threadId r = j)
      (delete_where (\<lambda>r. r_threadId r \<in> set (map th_id (filter P (db_threads d)))) (db_replies d))
      = filter (\<lambda>r. r_threadId r = j) (db_replies d)"
    unfolding delete_where_def using assms by (auto intro!: filter_cong)
qed (use assms in \<open>auto intro: row_at_delete_other delete_where_keys\<close>)

lemma deleteReviewCommentThread_logged: "deleteReviewCommentThread i n op t d = Inr (x, d') \<Longrightarrow> logged d d'"
  by (auto simp: deleteReviewCommentThread_def Let_def split: if_splits option.splits
      elim!: deleted_result_logged intro!: delete_thread_rows_touches)

lemma delete_threads_logged: "logged d (delete_threads is op t d)"
proof (induction "is" op t d rule: delete_threads.induct)
  case (2 i "is" op t d)
  have "touches d (delete_thread_rows (\<lambda>t. th_id t = i) d) {StateKey ReviewThreads i}"
    by (rule delete_thread_rows_touches)
  from logged_trans [OF touches_state_logged [OF this] 2] show ?case by simp
qed simp

lemma deleteThreadsForWorkspace_logged:
  "deleteReviewCommentThreadsForWorkspace w op t d = Inr (x, d') \<Longrightarrow> logged d d'"
  by (auto simp: deleteReviewCommentThreadsForWorkspace_def delete_threads_logged split: sum.splits)

end
