(* ===== verification/Laborer_Sync.thy ===== *)
theory Laborer_Sync
  imports Laborer_Logged
begin

text \<open>
  Reading the ledger from a cursor: a copy of a table that was exact at the cursor is exact again
  after the delta. The locale \<open>row_source\<close> is what this needs of a table; the five tables of the
  database interpret it.
\<close>

section \<open>The copy of a table\<close>

definition copy_rows :: "('r \<Rightarrow> string) \<Rightarrow> 'r list \<Rightarrow> (string \<Rightarrow> 'r option) \<Rightarrow> string \<Rightarrow> 'r option" where
  "copy_rows key rows m = fold (\<lambda>r m. m(key r \<mapsto> r)) rows m"

definition copy_delta :: "('r \<Rightarrow> string) \<Rightarrow> 'r table_update \<Rightarrow> (string \<Rightarrow> 'r option) \<Rightarrow> string \<Rightarrow> 'r option" where
  "copy_delta key u m = copy_rows key (tu_rows u) (fold (\<lambda>i m. m(i := None)) (tu_deletedRowIds u) m)"

lemma copy_rows_outside: "i \<notin> key ` set rows \<Longrightarrow> copy_rows key rows m i = m i"
  unfolding copy_rows_def by (induction rows arbitrary: m) auto

lemma copy_rows_inside:
  "i \<in> key ` set rows \<Longrightarrow> (\<And>r. r \<in> set rows \<Longrightarrow> f (key r) = Some r) \<Longrightarrow> copy_rows key rows m i = f i"
proof (induction rows arbitrary: m)
  case (Cons r rows)
  show ?case
  proof (cases "i \<in> key ` set rows")
    case True
    with Cons show ?thesis by (simp add: copy_rows_def)
  next
    case False
    with copy_rows_outside [OF False, of "m(key r \<mapsto> r)"] Cons.prems show ?thesis by (auto simp: copy_rows_def)
  qed
qed simp

lemma fold_remove: "fold (\<lambda>i m. m(i := None)) is m i = (if i \<in> set is then None else m i)"
  by (induction "is" arbitrary: m) auto

lemma map_filter_mem: "x \<in> set (List.map_filter f xs) \<longleftrightarrow> (\<exists>y\<in>set xs. f y = Some x)"
  by (induction xs) (auto simp: List.map_filter_simps split: option.splits)

text \<open>The rows at the changed ids, and no row for those that are gone: an exact copy.\<close>

lemma table_delta_exact:
  assumes key: "\<And>i r. find_row i = Some r \<Longrightarrow> key r = i"
    and changed: "\<And>i. find_row i \<noteq> m i \<Longrightarrow> i \<in> set ids"
  shows "copy_delta key (table_delta find_row key c ids ops) m = find_row"
proof
  fix i
  let ?rows = "List.map_filter find_row (js_unique ids)"
  have rows: "find_row (key r) = Some r" if "r \<in> set ?rows" for r
    using that key by (auto simp: map_filter_mem)
  have in_rows: "i \<in> key ` set ?rows \<longleftrightarrow> i \<in> set ids \<and> find_row i \<noteq> None"
    using key by (force simp: map_filter_mem image_iff)
  show "copy_delta key (table_delta find_row key c ids ops) m i = find_row i"
  proof (cases "i \<in> key ` set ?rows")
    case True
    from copy_rows_inside [where f = find_row, OF this rows] show ?thesis
      by (simp add: copy_delta_def table_delta_def Let_def)
  next
    case False
    from copy_rows_outside [OF this] show ?thesis
      using False changed [of i] in_rows
      by (auto simp: copy_delta_def table_delta_def Let_def fold_remove)
  qed
qed

text \<open>A whole table, as a snapshot sends it.\<close>

lemma snapshot_exact:
  assumes "distinct (map key rows)" and "mset rows' = mset rows"
  shows "copy_rows key rows' (\<lambda>_. None) = row_at key rows"
proof
  fix i
  have set: "set rows' = set rows" using assms(2) by (rule mset_eq_setD)
  show "copy_rows key rows' (\<lambda>_. None) i = row_at key rows i"
  proof (cases "i \<in> key ` set rows'")
    case True
    then show ?thesis
      by (rule copy_rows_inside) (use set row_at_mem [OF assms(1)] in auto)
  next
    case False
    with set have "row_at key rows i = None" by (simp add: row_at_None)
    with copy_rows_outside [OF False] show ?thesis by simp
  qed
qed

section \<open>A ledger without gaps\<close>

definition ledger_ok :: "laborer_db \<Rightarrow> bool" where
  "ledger_ok d \<longleftrightarrow>
     numbered tc_sequence 0 (db_taskChanges d) \<and> db_taskSequence d = int (length (db_taskChanges d)) \<and>
     numbered sc_sequence 0 (db_stateChanges d) \<and> db_stateSequence d = int (length (db_stateChanges d))"

lemma ledger_extends_ok: "ledger_extends d d' K \<Longrightarrow> ledger_ok d \<Longrightarrow> ledger_ok d'"
  by (auto simp: ledger_extends_def ledger_ok_def intro!: numbered_append)

lemma logged_ledger_ok: "logged d d' \<Longrightarrow> ledger_ok d \<Longrightarrow> ledger_ok d'"
  unfolding logged_def using ledger_extends_ok by blast

lemma numbered_seq: "numbered seq n cs \<Longrightarrow> k < length cs \<Longrightarrow> seq (cs ! k) = n + 1 + int k"
  using nth_map [of k cs seq] by (simp add: numbered_def)

lemma numbered_set: "numbered seq n cs \<Longrightarrow> seq ` set cs = (\<lambda>k. n + 1 + int k) ` {0..<length cs}"
  by (metis numbered_def set_map set_upt)

lemma numbered_mem: "numbered seq n cs \<Longrightarrow> c \<in> set cs \<Longrightarrow> n < seq c \<and> seq c \<le> n + int (length cs)"
  by (auto simp: in_set_conv_nth numbered_seq)

lemma numbered_sorted: "numbered seq n cs \<Longrightarrow> sorted (map seq cs)"
  unfolding numbered_def by (simp add: sorted_iff_nth_mono)

lemma numbered_contiguous: "numbered seq n cs \<Longrightarrow> contiguous_from (n + 1) (map seq cs)"
proof (induction cs arbitrary: n)
  case (Cons c cs)
  have "numbered seq (n + 1) cs"
    unfolding numbered_def
  proof (rule nth_equalityI)
    fix k assume "k < length (map seq cs)"
    with numbered_seq [OF Cons.prems, of "Suc k"] show "map seq cs ! k = map (\<lambda>k. n + 1 + 1 + int k) [0..<length cs] ! k"
      by simp
  qed simp
  from Cons.IH [OF this] numbered_seq [OF Cons.prems, of 0] show ?case by simp
qed simp

lemma numbered_maximum:
  assumes "numbered seq 0 cs"
  shows "ledger_maximum seq cs = (if cs = [] then None else Some (int (length cs)))"
    and "ledger_minimum seq cs = (if cs = [] then None else Some 1)"
proof -
  have "Max (seq ` set cs) = int (length cs)" "Min (seq ` set cs) = 1" if "cs \<noteq> []"
  proof -
    have l: "0 < length cs" using that by simp
    have "seq (cs ! (length cs - 1)) = 1 + int (length cs - 1)" "seq (cs ! 0) = 1"
      using numbered_seq [OF assms, of "length cs - 1"] numbered_seq [OF assms, of 0] l by simp_all
    then have last: "seq (cs ! (length cs - 1)) = int (length cs)" and first: "seq (cs ! 0) = 1"
      using l by simp_all
    have mem: "cs ! (length cs - 1) \<in> set cs" "cs ! 0 \<in> set cs" using l by simp_all
    have "int (length cs) \<in> seq ` set cs" "1 \<in> seq ` set cs"
      using imageI [OF mem(1), of seq, unfolded last] imageI [OF mem(2), of seq, unfolded first] .
    then show "Max (seq ` set cs) = int (length cs)" "Min (seq ` set cs) = 1"
      using numbered_mem [OF assms] by (auto intro!: Max_eqI Min_eqI) force
  qed
  then show "ledger_maximum seq cs = (if cs = [] then None else Some (int (length cs)))"
    "ledger_minimum seq cs = (if cs = [] then None else Some 1)"
    by (simp_all add: ledger_maximum_def ledger_minimum_def)
qed

lemma changesAfter_extension:
  assumes "numbered seq 0 cs" and "numbered seq (int (length cs)) cs'" and "length cs' \<le> limit"
  shows "changesAfter seq (int (length cs)) limit (cs @ cs') = cs'"
proof -
  have "filter (\<lambda>c. int (length cs) < seq c) cs = []"
    using numbered_mem [OF assms(1)] by (force simp: filter_empty_conv)
  moreover have "filter (\<lambda>c. int (length cs) < seq c) cs' = cs'"
    using numbered_mem [OF assms(2)] by (auto simp: filter_id_conv)
  ultimately show ?thesis
    using assms(3) sort_key_id_if_sorted [OF numbered_sorted [OF assms(2)]] by (simp add: changesAfter_def)
qed

lemma taskCursor_ok: "ledger_ok d \<Longrightarrow> taskCursor d = db_taskSequence d"
  by (simp add: taskCursor_def ledger_ok_def numbered_maximum)

lemma stateCursor_ok: "ledger_ok d \<Longrightarrow> stateCursor d = db_stateSequence d"
  by (simp add: stateCursor_def ledger_ok_def numbered_maximum)

lemma table_delta_cursor [simp]: "tu_cursor (table_delta f key c ids ops) = c"
  by (simp add: table_delta_def Let_def)

section \<open>Sources of rows\<close>

text \<open>A table a client keeps a copy of: its rows carry their key, and a change of one is a changed key.\<close>

locale row_source =
  fixes find_row :: "laborer_db \<Rightarrow> string \<Rightarrow> 'r option" and key :: "'r \<Rightarrow> string" and place :: "string \<Rightarrow> table_key"
  assumes find_key: "find_row d i = Some r \<Longrightarrow> key r = i"
    and change: "row_changed d d' (place i) \<longleftrightarrow> find_row d' i \<noteq> find_row d i"
begin

lemma delta_exact:
  assumes "\<And>k. row_changed d d' k \<Longrightarrow> k \<in> K" and "\<And>i. place i \<in> K \<Longrightarrow> i \<in> set ids"
  shows "copy_delta key (table_delta (find_row d') key c ids ops) (find_row d) = find_row d'"
  by (rule table_delta_exact) (use find_key change assms in blast)+

lemma unchanged: "(\<And>k. \<not> row_changed d d' k) \<Longrightarrow> find_row d' = find_row d"
  using change by blast

end

lemma findReviewCommentThread_key: "findReviewCommentThread i d = Some r \<Longrightarrow> (th_id \<circ> ct_row) r = i"
  by (auto simp: findReviewCommentThread_def read_thread_def dest: row_at_Some)

interpretation tasks: row_source "\<lambda>d i. findTask i d" t_id TaskKey
  by unfold_locales (auto simp: findTask_def dest: row_at_Some)

interpretation projects: row_source "\<lambda>d i. findProject i d" p_id "StateKey Projects"
  by unfold_locales (auto simp: findProject_def dest: row_at_Some)

interpretation settings: row_source "\<lambda>d i. findSetting i d" s_key "StateKey AppSettings"
  by unfold_locales (auto simp: findSetting_def dest: row_at_Some)

interpretation labels: row_source "\<lambda>d i. findLabel i d" l_id "StateKey Labels"
  by unfold_locales (auto simp: findLabel_def dest: row_at_Some)

interpretation threads: row_source "\<lambda>d i. findReviewCommentThread i d" "th_id \<circ> ct_row" "StateKey ReviewThreads"
  by unfold_locales (rule findReviewCommentThread_key, simp_all)

section \<open>The update after a cursor\<close>

text \<open>What a database that logged its changes has behind the cursor of an earlier one.\<close>

lemma logged_parts:
  assumes "logged d d'" and "ledger_ok d"
  obtains tcs scs where "db_taskChanges d' = db_taskChanges d @ tcs" "numbered tc_sequence (db_taskSequence d) tcs"
    "db_taskSequence d' = db_taskSequence d + int (length tcs)"
    "db_stateChanges d' = db_stateChanges d @ scs" "numbered sc_sequence (db_stateSequence d) scs"
    "db_stateSequence d' = db_stateSequence d + int (length scs)"
    "\<And>k. row_changed d d' k \<Longrightarrow> k \<in> task_keys tcs \<union> state_keys scs"
  using assms unfolding logged_def ledger_extends_def by blast

lemma last_sequence: "numbered seq n cs \<Longrightarrow> cs \<noteq> [] \<Longrightarrow> seq (last cs) = n + int (length cs)"
  using numbered_seq [of seq n cs "length cs - 1"] by (cases cs) (auto simp: last_conv_nth of_nat_diff)

lemma needs_snapshot_iff:
  assumes "numbered seq 0 (cs @ cs')" and "numbered seq (int (length cs)) cs'"
  shows "cursorNeedsSnapshot (int (length cs)) (ledger_minimum seq (cs @ cs')) (ledger_maximum seq (cs @ cs'))
    \<longleftrightarrow> MAX_LEDGER_READ < int (length cs')"
  by (auto simp: cursorNeedsSnapshot_def numbered_maximum [OF assms(1)] MAX_LEDGER_READ_def)

lemma validate_ok: "0 \<le> n \<Longrightarrow> validateCursorRead n MAX_LEDGER_READ"
  by (simp add: validateCursorRead_def MAX_LEDGER_READ_def)

lemma taskUpdateAfter_eq:
  assumes c: "db_taskChanges d' = db_taskChanges d @ tcs" "numbered tc_sequence (db_taskSequence d) tcs"
    and ok: "ledger_ok d" and few: "int (length tcs) \<le> MAX_LEDGER_READ"
  shows "taskUpdateAfter (db_taskSequence d) d' = (if tcs = [] then Inr None
    else Inr (Some (table_delta (\<lambda>i. findTask i d') t_id (tc_sequence (last tcs)) (map tc_taskId tcs)
      (map tc_operationId tcs))))"
proof -
  have n: "db_taskSequence d = int (length (db_taskChanges d))" "numbered tc_sequence 0 (db_taskChanges d)"
    using ok by (simp_all add: ledger_ok_def)
  have all: "numbered tc_sequence 0 (db_taskChanges d @ tcs)"
    using numbered_append [OF n(2)] c(2) n(1) by simp
  note need = needs_snapshot_iff [OF all c(2) [unfolded n(1)]]
  have valid: "validateCursorRead (db_taskSequence d) MAX_LEDGER_READ" using n(1) by (simp add: validate_ok)
  have ch: "taskChangesAfter (db_taskSequence d) MAX_LEDGER_READ d' = Inr tcs"
    using changesAfter_extension [OF n(2) c(2) [unfolded n(1)], of "nat MAX_LEDGER_READ"] few valid
    by (simp add: taskChangesAfter_def c(1) n(1))
  show ?thesis
    using need few valid ch numbered_contiguous [OF c(2)] n(1) c(1) by (simp add: taskUpdateAfter_def)
qed

lemma taskUpdateAfter_cases:
  assumes log: "logged d d'" and ok: "ledger_ok d"
  obtains (gap) "taskUpdateAfter (db_taskSequence d) d' = Inl (CursorGap (db_taskSequence d))"
      "MAX_LEDGER_READ < db_taskSequence d' - db_taskSequence d"
  | (none) "taskUpdateAfter (db_taskSequence d) d' = Inr None" "(\<lambda>i. findTask i d') = (\<lambda>i. findTask i d)"
      "db_taskSequence d' = db_taskSequence d"
  | (delta) u where "taskUpdateAfter (db_taskSequence d) d' = Inr (Some u)"
      "copy_delta t_id u (\<lambda>i. findTask i d) = (\<lambda>i. findTask i d')" "tu_cursor u = db_taskSequence d'"
      "db_taskSequence d < db_taskSequence d'"
proof -
  obtain tcs scs where p: "db_taskChanges d' = db_taskChanges d @ tcs" "numbered tc_sequence (db_taskSequence d) tcs"
    "db_taskSequence d' = db_taskSequence d + int (length tcs)"
    "\<And>k. row_changed d d' k \<Longrightarrow> k \<in> task_keys tcs \<union> state_keys scs"
    using logged_parts [OF log ok] by metis
  have n: "db_taskSequence d = int (length (db_taskChanges d))" "numbered tc_sequence 0 (db_taskChanges d)"
    using ok by (simp_all add: ledger_ok_def)
  have all: "numbered tc_sequence 0 (db_taskChanges d @ tcs)"
    using numbered_append [OF n(2)] p(2) n(1) by simp
  note need = needs_snapshot_iff [OF all p(2) [unfolded n(1)]]
  have valid: "validateCursorRead (db_taskSequence d) MAX_LEDGER_READ" using n(1) by (simp add: validate_ok)
  show thesis
  proof (cases "MAX_LEDGER_READ < int (length tcs)")
    case True
    show thesis
      by (rule gap) (use True need valid p(1,3) n(1) in \<open>simp_all add: taskUpdateAfter_def\<close>)
  next
    case False
    note eq = taskUpdateAfter_eq [OF p(1,2) ok False [unfolded not_less]]
    have ids: "i \<in> set (map tc_taskId tcs)" if "TaskKey i \<in> task_keys tcs \<union> state_keys scs" for i
      using that by (auto simp: task_keys_def state_keys_def)
    show thesis
    proof (cases "tcs = []")
      case True
      have "findTask i d' = findTask i d" for i
        using p(4) [of "TaskKey i"] ids [of i] True by auto
      then show thesis by (intro none) (use eq True p(3) in simp_all)
    next
      case False
      show thesis
        by (rule delta [of "table_delta (\<lambda>i. findTask i d') t_id (tc_sequence (last tcs)) (map tc_taskId tcs)
            (map tc_operationId tcs)"])
          (use eq False p(3) tasks.delta_exact [OF p(4) ids] last_sequence [OF p(2) False] in simp_all)
    qed
  qed
qed

lemma stateUpdatesAfter_cases:
  assumes log: "logged d d'" and ok: "ledger_ok d"
  obtains (gap) "stateUpdatesAfter (db_stateSequence d) d' = Inl (CursorGap (db_stateSequence d))"
      "MAX_LEDGER_READ < db_stateSequence d' - db_stateSequence d"
  | (none) "stateUpdatesAfter (db_stateSequence d) d' = Inr None"
      "(\<lambda>i. findProject i d') = (\<lambda>i. findProject i d)" "(\<lambda>i. findSetting i d') = (\<lambda>i. findSetting i d)"
      "(\<lambda>i. findLabel i d') = (\<lambda>i. findLabel i d)"
      "(\<lambda>i. findReviewCommentThread i d') = (\<lambda>i. findReviewCommentThread i d)"
      "db_stateSequence d' = db_stateSequence d"
  | (delta) u where "stateUpdatesAfter (db_stateSequence d) d' = Inr (Some u)"
      "copy_delta p_id (su_projects u) (\<lambda>i. findProject i d) = (\<lambda>i. findProject i d')"
      "copy_delta s_key (su_settings u) (\<lambda>i. findSetting i d) = (\<lambda>i. findSetting i d')"
      "copy_delta l_id (su_labels u) (\<lambda>i. findLabel i d) = (\<lambda>i. findLabel i d')"
      "copy_delta (th_id \<circ> ct_row) (su_reviewComments u) (\<lambda>i. findReviewCommentThread i d)
         = (\<lambda>i. findReviewCommentThread i d')"
      "tu_cursor (su_projects u) = db_stateSequence d'" "tu_cursor (su_settings u) = db_stateSequence d'"
      "tu_cursor (su_labels u) = db_stateSequence d'" "tu_cursor (su_reviewComments u) = db_stateSequence d'"
      "db_stateSequence d < db_stateSequence d'"
proof -
  obtain tcs scs where p: "db_stateChanges d' = db_stateChanges d @ scs" "numbered sc_sequence (db_stateSequence d) scs"
    "db_stateSequence d' = db_stateSequence d + int (length scs)"
    "\<And>k. row_changed d d' k \<Longrightarrow> k \<in> task_keys tcs \<union> state_keys scs"
    using logged_parts [OF log ok] by metis
  have n: "db_stateSequence d = int (length (db_stateChanges d))" "numbered sc_sequence 0 (db_stateChanges d)"
    using ok by (simp_all add: ledger_ok_def)
  have all: "numbered sc_sequence 0 (db_stateChanges d @ scs)"
    using numbered_append [OF n(2)] p(2) n(1) by simp
  note need = needs_snapshot_iff [OF all p(2) [unfolded n(1)]]
  have valid: "validateCursorRead (db_stateSequence d) MAX_LEDGER_READ" using n(1) by (simp add: validate_ok)
  show thesis
  proof (cases "MAX_LEDGER_READ < int (length scs)")
    case True
    show thesis
      by (rule gap) (use True need valid p(1,3) n(1) in \<open>simp_all add: stateUpdatesAfter_def\<close>)
  next
    case False
    have ch: "stateChangesAfter (db_stateSequence d) MAX_LEDGER_READ d' = Inr scs"
      using changesAfter_extension [OF n(2) p(2) [unfolded n(1)], of "nat MAX_LEDGER_READ"] False valid
      by (simp add: stateChangesAfter_def p(1) n(1))
    let ?u = "\<lparr>su_labels = state_delta Labels (\<lambda>i. findLabel i d') l_id scs,
      su_projects = state_delta Projects (\<lambda>i. findProject i d') p_id scs,
      su_reviewComments = state_delta ReviewThreads (\<lambda>i. findReviewCommentThread i d') (th_id \<circ> ct_row) scs,
      su_settings = state_delta AppSettings (\<lambda>i. findSetting i d') s_key scs\<rparr>"
    have eq: "stateUpdatesAfter (db_stateSequence d) d' = (if scs = [] then Inr None else Inr (Some ?u))"
      using need False valid ch numbered_contiguous [OF p(2)] n(1) p(1) by (simp add: stateUpdatesAfter_def)
    have ids: "i \<in> set (map sc_rowId (filter (\<lambda>c. sc_tableName c = T) scs))"
      if "StateKey T i \<in> task_keys tcs \<union> state_keys scs" for T i
      using that by (auto simp: task_keys_def state_keys_def)
    show thesis
    proof (cases "scs = []")
      case True
      have no: "\<not> row_changed d d' (StateKey T i)" for T i using p(4) [of "StateKey T i"] ids [of T i] True by auto
      have "findProject i d' = findProject i d" "findSetting i d' = findSetting i d" "findLabel i d' = findLabel i d"
        "findReviewCommentThread i d' = findReviewCommentThread i d" for i
        using no [of Projects i] no [of AppSettings i] no [of Labels i] no [of ReviewThreads i] by simp_all
      then show thesis by (intro none) (use eq True p(3) in simp_all)
    next
      case False
      show thesis
        by (rule delta [of ?u])
          (use eq False p(3) projects.delta_exact [OF p(4) ids] settings.delta_exact [OF p(4) ids]
             labels.delta_exact [OF p(4) ids] threads.delta_exact [OF p(4) ids] last_sequence [OF p(2) False]
           in \<open>simp_all add: state_delta_def Let_def table_delta_def\<close>)
    qed
  qed
qed

end
