(* ===== verification/Shared_State.thy ===== *)
theory Shared_State
  imports Laborer_Sync
begin

text \<open>
  How the database reaches a client: the subscription of
  \<open>packages/server/src/services/shared-state-reader.ts\<close>, which sends snapshots and deltas into a queue
  that drops what a stalled client does not take, and the coordinator of
  \<open>apps/web/src/db/shared-state.ts\<close>, which applies them to one collection per table. Whether the queue
  takes an update is an argument. The two flags that the reader adds to a task from the file system
  are left out; a collection of the client is a map from keys, where an update of a missing row
  inserts it.
\<close>

section \<open>Messages\<close>

datatype 'r table_message = SnapshotRows int "'r list" | DeltaRows "'r table_update"

record shared_update =
  up_labels :: "label table_message option"
  up_projects :: "project table_message option"
  up_reviewComments :: "comment_thread table_message option"
  up_settings :: "app_setting table_message option"
  up_tasks :: "task table_message option"

definition snapshotUpdate :: "db_snapshot \<Rightarrow> shared_update" where
  "snapshotUpdate s =
     \<lparr>up_labels = Some (SnapshotRows (ds_stateCursor s) (ds_labels s)),
      up_projects = Some (SnapshotRows (ds_stateCursor s) (ds_projects s)),
      up_reviewComments = Some (SnapshotRows (ds_stateCursor s) (ds_reviewComments s)),
      up_settings = Some (SnapshotRows (ds_stateCursor s) (ds_settings s)),
      up_tasks = Some (SnapshotRows (ds_taskCursor s) (ds_tasks s))\<rparr>"

definition deltaUpdate :: "task table_update option \<Rightarrow> state_updates option \<Rightarrow> shared_update option" where
  "deltaUpdate tasks state =
     (if tasks = None \<and> state = None then None
      else Some
        \<lparr>up_labels = map_option (DeltaRows \<circ> su_labels) state,
         up_projects = map_option (DeltaRows \<circ> su_projects) state,
         up_reviewComments = map_option (DeltaRows \<circ> su_reviewComments) state,
         up_settings = map_option (DeltaRows \<circ> su_settings) state,
         up_tasks = map_option DeltaRows tasks\<rparr>)"

section \<open>The reader\<close>

record reader =
  rd_taskCursor :: int
  rd_stateCursor :: int
  rd_snapshotRequired :: bool

definition initial_reader :: reader where
  "initial_reader = \<lparr>rd_taskCursor = 0, rd_stateCursor = 0, rd_snapshotRequired = False\<rparr>"

text \<open>What a read puts into the queue comes with the reader after it; \<open>None\<close> is an exception.\<close>

definition emitSnapshot :: "bool \<Rightarrow> laborer_db \<Rightarrow> reader \<Rightarrow> (reader \<times> shared_update list) option" where
  "emitSnapshot accepted d rd =
     (case snapshot d of
        None \<Rightarrow> None
      | Some s \<Rightarrow>
          Some (\<lparr>rd_taskCursor = ds_taskCursor s, rd_stateCursor = ds_stateCursor s,
                 rd_snapshotRequired = \<not> accepted\<rparr>,
                if accepted then [snapshotUpdate s] else []))"

text \<open>Two transactions: another process may write between them.\<close>

definition emitDeltas ::
    "bool \<Rightarrow> laborer_db \<Rightarrow> laborer_db \<Rightarrow> reader \<Rightarrow> (reader \<times> shared_update list) option" where
  "emitDeltas accepted d1 d2 rd =
     (case (taskUpdateAfter (rd_taskCursor rd) d1, stateUpdatesAfter (rd_stateCursor rd) d2) of
        (Inr tasks, Inr state) \<Rightarrow>
          (let rd' = rd\<lparr>rd_taskCursor := (case tasks of None \<Rightarrow> rd_taskCursor rd | Some u \<Rightarrow> tu_cursor u),
                        rd_stateCursor := (case state of None \<Rightarrow> rd_stateCursor rd | Some u \<Rightarrow> tu_cursor (su_projects u))\<rparr>
           in case deltaUpdate tasks state of
                None \<Rightarrow> Some (rd', [])
              | Some update \<Rightarrow>
                  Some (rd'\<lparr>rd_snapshotRequired := \<not> accepted\<rparr>, if accepted then [update] else []))
      | _ \<Rightarrow> None)"

definition readOnce ::
    "bool \<Rightarrow> laborer_db \<Rightarrow> laborer_db \<Rightarrow> laborer_db \<Rightarrow> reader \<Rightarrow> (reader \<times> shared_update list) option" where
  "readOnce accepted d1 d2 d3 rd =
     (case (if rd_snapshotRequired rd then emitSnapshot accepted d1 rd else emitDeltas accepted d1 d2 rd) of
        Some result \<Rightarrow> Some result
      | None \<Rightarrow> emitSnapshot accepted d3 rd)"

section \<open>The client\<close>

record 'r client_table =
  cl_rows :: "string \<Rightarrow> 'r option"
  cl_cursor :: int
  cl_ready :: bool

record client =
  cl_labels :: "label client_table"
  cl_projects :: "project client_table"
  cl_reviewComments :: "comment_thread client_table"
  cl_settings :: "app_setting client_table"
  cl_tasks :: "task client_table"

definition empty_table :: "bool \<Rightarrow> 'r client_table" where
  "empty_table ready = \<lparr>cl_rows = (\<lambda>_. None), cl_cursor = 0, cl_ready = ready\<rparr>"

text \<open>Only the review comments, which an older server never sends, are ready at once.\<close>

definition initial_client :: client where
  "initial_client =
     \<lparr>cl_labels = empty_table False, cl_projects = empty_table False, cl_reviewComments = empty_table True,
      cl_settings = empty_table False, cl_tasks = empty_table False\<rparr>"

definition applyTable ::
    "('r \<Rightarrow> string) \<Rightarrow> 'r table_message option \<Rightarrow> 'r client_table \<Rightarrow> 'r client_table" where
  "applyTable key message t =
     (case message of
        None \<Rightarrow> t
      | Some (SnapshotRows cursor rows) \<Rightarrow>
          \<lparr>cl_rows = copy_rows key rows (\<lambda>_. None), cl_cursor = cursor, cl_ready = True\<rparr>
      | Some (DeltaRows update) \<Rightarrow>
          if tu_cursor update \<le> cl_cursor t then t
          else t\<lparr>cl_rows := copy_delta key update (cl_rows t), cl_cursor := tu_cursor update\<rparr>)"

definition apply_update :: "shared_update \<Rightarrow> client \<Rightarrow> client" where
  "apply_update update c =
     \<lparr>cl_labels = applyTable l_id (up_labels update) (cl_labels c),
      cl_projects = applyTable p_id (up_projects update) (cl_projects c),
      cl_reviewComments = applyTable (th_id \<circ> ct_row) (up_reviewComments update) (cl_reviewComments c),
      cl_settings = applyTable s_key (up_settings update) (cl_settings c),
      cl_tasks = applyTable t_id (up_tasks update) (cl_tasks c)\<rparr>"

section \<open>The system\<close>

text \<open>Every operation of the database, but the deletion of a task that still has children.\<close>

inductive db_write :: "laborer_db \<Rightarrow> laborer_db \<Rightarrow> bool" where
  "insertTask input op t d = Inr (x, d') \<Longrightarrow> db_write d d'"
| "adoptWorktreeTask adopted t d = Inr (y, d') \<Longrightarrow> db_write d d'"
| "updateTask i n patch op t d = Inr (x, d') \<Longrightarrow> db_write d d'"
| "deleteTask i n op t d = Inr (x, d') \<Longrightarrow> \<forall>c\<in>set (db_tasks d). t_parentTaskId c \<noteq> Some i \<Longrightarrow> db_write d d'"
| "setTaskLabels i e ids op t d = Inr (x, d') \<Longrightarrow> db_write d d'"
| "addTaskLabels i ids op t d = Inr (x, d') \<Longrightarrow> db_write d d'"
| "removeTaskLabels i ids op t d = Inr (x, d') \<Longrightarrow> db_write d d'"
| "insertProject project_input op t d = Inr (p, d') \<Longrightarrow> db_write d d'"
| "updateProject i n project_patch op t d = Inr (p, d') \<Longrightarrow> db_write d d'"
| "moveProject i n order op t d = Inr (p, d') \<Longrightarrow> db_write d d'"
| "reorderProjects assignments oid t d = Inr (ps, d') \<Longrightarrow> db_write d d'"
| "deleteProject i n op t d = Inr (p, d') \<Longrightarrow> db_write d d'"
| "insertSetting i v op t d = Inr (s, d') \<Longrightarrow> db_write d d'"
| "setSetting i n v op t d = Inr (s, d') \<Longrightarrow> db_write d d'"
| "updateSetting i n v op t d = Inr (s, d') \<Longrightarrow> db_write d d'"
| "deleteSetting i n op t d = Inr (s, d') \<Longrightarrow> db_write d d'"
| "createLabel ulid label_input op t d = Inr (l, d') \<Longrightarrow> db_write d d'"
| "updateLabel i e name color op t d = Inr (l, d') \<Longrightarrow> db_write d d'"
| "deleteLabel i e op t d = Inr (l, d') \<Longrightarrow> db_write d d'"
| "createReviewCommentThread ulid ulid' draft author op t d = Inr (th, d') \<Longrightarrow> db_write d d'"
| "appendReviewCommentReply ulid reply author op t d = Inr (th, d') \<Longrightarrow> db_write d d'"
| "updateReviewCommentReply i v author op t d = Inr (th, d') \<Longrightarrow> db_write d d'"
| "setReviewCommentThreadStatus i n st op t d = Inr (th, d') \<Longrightarrow> db_write d d'"
| "deleteReviewCommentThread i n op t d = Inr (th, d') \<Longrightarrow> db_write d d'"
| "deleteReviewCommentThreadsForWorkspace i op t d = Inr (ths, d') \<Longrightarrow> db_write d d'"

record sync =
  sy_db :: laborer_db
  sy_reader :: reader
  sy_queue :: "shared_update list"
  sy_client :: client

text \<open>
  Writes of any process, reads of the subscription, updates that the client takes from the queue,
  and a reconnection with a new subscription, whose queue is empty.
\<close>

inductive sync_step :: "sync \<Rightarrow> sync \<Rightarrow> bool" where
  written: "db_write (sy_db s) d \<Longrightarrow> sync_step s (s\<lparr>sy_db := d\<rparr>)"
| reads: "db_write\<^sup>*\<^sup>* (sy_db s) d1 \<Longrightarrow> db_write\<^sup>*\<^sup>* d1 d2 \<Longrightarrow> db_write\<^sup>*\<^sup>* d2 d3 \<Longrightarrow>
    readOnce accepted d1 d2 d3 (sy_reader s) = Some (rd, out) \<Longrightarrow>
    sync_step s (s\<lparr>sy_db := d3, sy_reader := rd, sy_queue := sy_queue s @ out\<rparr>)"
| consumed: "sy_queue s = update # queue \<Longrightarrow>
    sync_step s (s\<lparr>sy_queue := queue, sy_client := apply_update update (sy_client s)\<rparr>)"
| reconnected: "emitSnapshot accepted (sy_db s) initial_reader = Some (rd, out) \<Longrightarrow>
    sync_step s (s\<lparr>sy_reader := rd, sy_queue := out\<rparr>)"

inductive sync_reachable :: "laborer_db \<Rightarrow> sync \<Rightarrow> bool" for d0 :: laborer_db where
  start: "emitSnapshot accepted d0 initial_reader = Some (rd, out) \<Longrightarrow>
    sync_reachable d0 \<lparr>sy_db = d0, sy_reader = rd, sy_queue = out, sy_client = initial_client\<rparr>"
| more: "sync_reachable d0 s \<Longrightarrow> sync_step s s' \<Longrightarrow> sync_reachable d0 s'"

section \<open>The copy the client holds\<close>

text \<open>The client has the tasks of one database and the other tables of another, at their cursors.\<close>

definition mirrors :: "client \<Rightarrow> laborer_db \<Rightarrow> laborer_db \<Rightarrow> bool" where
  "mirrors c dt ds \<longleftrightarrow>
     cl_rows (cl_tasks c) = (\<lambda>i. findTask i dt) \<and> cl_cursor (cl_tasks c) = db_taskSequence dt \<and>
     cl_rows (cl_labels c) = (\<lambda>i. findLabel i ds) \<and> cl_cursor (cl_labels c) = db_stateSequence ds \<and>
     cl_rows (cl_projects c) = (\<lambda>i. findProject i ds) \<and> cl_cursor (cl_projects c) = db_stateSequence ds \<and>
     cl_rows (cl_settings c) = (\<lambda>i. findSetting i ds) \<and> cl_cursor (cl_settings c) = db_stateSequence ds \<and>
     cl_rows (cl_reviewComments c) = (\<lambda>i. findReviewCommentThread i ds) \<and>
       cl_cursor (cl_reviewComments c) = db_stateSequence ds"

lemma db_write_logged: "db_write d d' \<Longrightarrow> keys_ok d \<Longrightarrow> logged d d'"
  by (induction rule: db_write.induct)
    (assumption | rule insertTask_logged adoptWorktreeTask_logged updateTask_logged deleteTask_logged
      setTaskLabels_logged addTaskLabels_logged removeTaskLabels_logged insertProject_logged updateProject_logged
      moveProject_logged reorderProjects_logged deleteProject_logged insertSetting_logged setSetting_logged
      updateSetting_logged deleteSetting_logged createLabel_logged updateLabel_logged deleteLabel_logged
      createReviewCommentThread_logged appendReviewCommentReply_logged updateReviewCommentReply_logged
      setReviewCommentThreadStatus_logged deleteReviewCommentThread_logged deleteThreadsForWorkspace_logged)+

lemma logged_keys: "logged d d' \<Longrightarrow> keys_ok d \<Longrightarrow> keys_ok d'"
  by (simp add: logged_def)

lemma db_writes_logged: "db_write\<^sup>*\<^sup>* d d' \<Longrightarrow> keys_ok d \<Longrightarrow> logged d d'"
proof (induction rule: rtranclp_induct)
  case (step d' d'')
  then show ?case using db_write_logged logged_keys logged_trans by blast
qed simp

end
