(* ===== verification/Laborer_Invariant.thy ===== *)
theory Laborer_Invariant
  imports Shared_State
begin

text \<open>
  The well-formedness of the database: the constraints of the schema, the labels of tasks, the names
  of labels and the comments. Every operation that succeeds keeps it.
\<close>

named_theorems same_rows_simps

section \<open>Well-formed databases\<close>

definition task_labels_ok :: "string set \<Rightarrow> task \<Rightarrow> bool" where
  "task_labels_ok known t \<longleftrightarrow>
     distinct (t_labelIds t) \<and> length (t_labelIds t) \<le> MAX_TASK_LABELS \<and> set (t_labelIds t) \<subseteq> known"

definition label_names_ok :: "label list \<Rightarrow> bool" where
  "label_names_ok labels \<longleftrightarrow>
     distinct (map (sql_lower \<circ> l_name) labels) \<and>
     list_all (\<lambda>l. l_name l \<noteq> [] \<and> length (l_name l) \<le> MAX_LABEL_NAME_LENGTH) labels"

definition thread_replies :: "reply_row list \<Rightarrow> string \<Rightarrow> reply_row list" where
  "thread_replies replies i = filter (\<lambda>r. r_threadId r = i) replies"

definition comments_ok :: "thread_row list \<Rightarrow> reply_row list \<Rightarrow> bool" where
  "comments_ok threads replies \<longleftrightarrow>
     list_all (\<lambda>th. reviewCommentAnchor (th_startLine th) (th_endLine th) \<and> th_filePath th \<noteq> []) threads \<and>
     list_all (\<lambda>r. r_threadId r \<in> set (map th_id threads) \<and> r_body r \<noteq> [] \<and>
       length (r_body r) \<le> REVIEW_COMMENT_BODY_MAX_LENGTH) replies \<and>
     list_all (\<lambda>th. length (thread_replies replies (th_id th)) \<le> MAX_REVIEW_COMMENT_REPLIES) threads"

definition rows_ok :: "laborer_db \<Rightarrow> bool" where
  "rows_ok d \<longleftrightarrow>
     task_constraints (db_tasks d) \<and>
     list_all (task_labels_ok (set (map l_id (db_labels d)))) (db_tasks d) \<and>
     project_constraints (db_projects d) \<and> label_names_ok (db_labels d) \<and>
     comments_ok (db_threads d) (db_replies d)"

definition db_ok :: "laborer_db \<Rightarrow> bool" where
  "db_ok d \<longleftrightarrow> keys_ok d \<and> rows_ok d"

text \<open>The ledgers do not matter.\<close>

lemma rows_ok_ledger [simp]:
  "rows_ok (snd (appendTaskChange i t op d)) = rows_ok d"
  "rows_ok (snd (appendStateChange T i t op d)) = rows_ok d"
  "rows_ok (d\<lparr>db_taskNumbers := n\<rparr>) = rows_ok d"
  by (simp_all add: rows_ok_def appendTaskChange_def appendStateChange_def Let_def)

lemma rows_ok_appended:
  "appendTaskChange i t op d = (c, d') \<Longrightarrow> rows_ok d' = rows_ok d"
  "appendStateChange T i t op d = (c, d') \<Longrightarrow> rows_ok d' = rows_ok d"
  using rows_ok_ledger(1) [of i t op d] rows_ok_ledger(2) [of T i t op d] by (metis snd_conv)+

lemma task_result_ok: "task_result i t op d = Inr (x, d') \<Longrightarrow> rows_ok d \<Longrightarrow> rows_ok d'"
  by (auto simp: task_result_def rows_ok_appended(1) split: prod.splits option.splits)

lemma state_result_ok: "state_result f T i t op d = Inr (x, d') \<Longrightarrow> rows_ok d \<Longrightarrow> rows_ok d'"
  by (auto simp: state_result_def rows_ok_appended(2) split: prod.splits option.splits)

lemma deleted_result_ok: "deleted_result r T i t op d = Inr (x, d') \<Longrightarrow> rows_ok d \<Longrightarrow> rows_ok d'"
  by (auto simp: deleted_result_def rows_ok_appended(2) split: prod.splits)

section \<open>Tables one by one\<close>

lemma rows_ok_tasks:
  "rows_ok d \<Longrightarrow> task_constraints tasks \<Longrightarrow>
    (list_all (task_labels_ok (set (map l_id (db_labels d)))) (db_tasks d) \<Longrightarrow>
      list_all (task_labels_ok (set (map l_id (db_labels d)))) tasks) \<Longrightarrow>
    rows_ok (d\<lparr>db_tasks := tasks\<rparr>)"
  by (simp add: rows_ok_def)

lemma rows_ok_projects: "rows_ok d \<Longrightarrow> project_constraints rows \<Longrightarrow> rows_ok (d\<lparr>db_projects := rows\<rparr>)"
  by (simp add: rows_ok_def)

lemma rows_ok_settings: "rows_ok d \<Longrightarrow> rows_ok (d\<lparr>db_settings := rows\<rparr>)"
  by (simp add: rows_ok_def)

lemma rows_ok_labels:
  "rows_ok d \<Longrightarrow> label_names_ok labels \<Longrightarrow> list_all (task_labels_ok (set (map l_id labels))) (db_tasks d) \<Longrightarrow>
    rows_ok (d\<lparr>db_labels := labels\<rparr>)"
  by (simp add: rows_ok_def)

lemma rows_ok_comments:
  "rows_ok d \<Longrightarrow> comments_ok threads replies \<Longrightarrow> rows_ok (d\<lparr>db_threads := threads, db_replies := replies\<rparr>)"
  by (simp add: rows_ok_def)

lemma update_where_mem: "u \<in> set (update_where P f rows) \<Longrightarrow> \<exists>t\<in>set rows. u = (if P t then f t else t)"
  by (auto simp: update_where_def)

lemma list_all_update:
  "list_all Q rows \<Longrightarrow> (\<And>r. r \<in> set rows \<Longrightarrow> P r \<Longrightarrow> Q r \<Longrightarrow> Q (f r)) \<Longrightarrow> list_all Q (update_where P f rows)"
  by (auto simp: list_all_iff update_where_def)

lemma list_all_delete: "list_all Q rows \<Longrightarrow> list_all Q (delete_where P rows)"
  by (auto simp: list_all_iff delete_where_def)

section \<open>Tasks\<close>

lemma fold_apply_patch_labels [simp]: "t_labelIds (fold apply_patch ps t) = t_labelIds t"
  by (induction ps arbitrary: t) simp_all

lemma map_update_same: "(\<And>r. g (f r) = g r) \<Longrightarrow> map g (update_where P f rows) = map g rows"
  by (simp add: update_where_def comp_def if_distrib cong: if_cong)

lemma map_filter_update_same:
  "(\<And>r. g (f r) = g r) \<Longrightarrow> List.map_filter g (update_where P f rows) = List.map_filter g rows"
  by (induction rows) (simp_all add: update_where_def List.map_filter_simps split: option.splits)

lemma parents_ok:
  "task_constraints tasks \<longleftrightarrow> distinct (map t_id tasks) \<and> distinct (List.map_filter t_executionId tasks) \<and>
     distinct (map (\<lambda>t. (t_rootPath t, t_taskNumber t)) tasks) \<and>
     set (List.map_filter t_parentTaskId tasks) \<subseteq> set (map t_id tasks)"
proof -
  have "list_all (\<lambda>t. case t_parentTaskId t of None \<Rightarrow> True | Some p \<Rightarrow> p \<in> K) rows \<longleftrightarrow>
      set (List.map_filter t_parentTaskId rows) \<subseteq> K" for rows K
    by (induction rows) (auto simp: List.map_filter_simps split: option.splits)
  from this [of "set (map t_id tasks)" tasks] show ?thesis by (simp add: task_constraints_def)
qed

lemma constraints_update_same:
  assumes "\<And>t. t_id (f t) = t_id t" "\<And>t. t_executionId (f t) = t_executionId t"
    "\<And>t. t_rootPath (f t) = t_rootPath t" "\<And>t. t_taskNumber (f t) = t_taskNumber t"
    "\<And>t. t_parentTaskId (f t) = t_parentTaskId t"
  shows "task_constraints (update_where P f tasks) = task_constraints tasks"
  unfolding parents_ok using assms by (simp add: map_update_same map_filter_update_same)

lemma distinct_map_filter_delete: "distinct (List.map_filter g rows) \<Longrightarrow> distinct (List.map_filter g (delete_where P rows))"
  by (induction rows) (auto simp: delete_where_def List.map_filter_simps map_filter_mem split: option.splits)

lemma constraints_delete:
  assumes "task_constraints tasks" and "\<forall>c\<in>set tasks. t_parentTaskId c \<noteq> Some i" and "\<And>t. P t \<Longrightarrow> t_id t = i"
  shows "task_constraints (delete_where P tasks)"
  unfolding task_constraints_def list_all_iff
proof (intro conjI ballI)
  fix t assume "t \<in> set (delete_where P tasks)"
  then have t: "t \<in> set tasks" by (simp add: delete_where_def)
  show "case t_parentTaskId t of None \<Rightarrow> True | Some p \<Rightarrow> p \<in> set (map t_id (delete_where P tasks))"
  proof (cases "t_parentTaskId t")
    case (Some p)
    with t assms(1) obtain q where q: "q \<in> set tasks" "t_id q = p" by (fastforce simp: task_constraints_def list_all_iff)
    have "p \<noteq> i" using assms(2) t Some by auto
    with q assms(3) have "q \<in> set (delete_where P tasks)" by (auto simp: delete_where_def)
    with q Some show ?thesis by auto
  qed simp
qed (use assms(1) in \<open>auto simp: task_constraints_def delete_where_keys distinct_map_filter_delete\<close>)

lemma insert_row_ok:
  "insert_task_row t d = Some d' \<Longrightarrow> rows_ok d \<Longrightarrow> task_labels_ok (set (map l_id (db_labels d))) t \<Longrightarrow> rows_ok d'"
  by (auto simp: insert_task_row_def rows_ok_def task_labels_ok_def Let_def split: if_splits)

lemma known_labels: "requireKnownLabels taskId ids d = None \<longleftrightarrow> set ids \<subseteq> set (map l_id (db_labels d))"
  by (auto simp: requireKnownLabels_def unknownLabelIds_def Let_def filter_empty_conv)

lemma insertTask_ok:
  assumes a: "insertTask input op t d = Inr (x, d')" and ok: "rows_ok d"
  shows "rows_ok d'"
proof -
  let ?row = "new_task_row input (js_unique (nt_labelIds input)) (taskSortOrder input d) t"
  obtain d1 where d1: "insert_task_row ?row d = Some d1" "task_result (nt_id input) t op d1 = Inr (x, d')"
    "\<not> MAX_TASK_LABELS < length (js_unique (nt_labelIds input))"
    "requireKnownLabels (nt_id input) (js_unique (nt_labelIds input)) d = (None :: task db_error option)"
    using a by (auto simp: insertTask_def Let_def split: if_splits option.splits)
  have "task_labels_ok (set (map l_id (db_labels d))) ?row"
    using d1(3,4) by (simp add: task_labels_ok_def new_task_row_def known_labels)
  from task_result_ok [OF d1(2) insert_row_ok [OF d1(1) ok this]] show ?thesis .
qed

lemma adoptWorktreeTask_ok:
  assumes a: "adoptWorktreeTask input t d = Inr (x, d')" and ok: "rows_ok d"
  shows "rows_ok d'"
proof (cases "d' = d")
  case False
  with a obtain d1 r where d1: "insert_task_row (adopted_row input t) d = Some d1"
    "task_result (aw_id input) t None d1 = Inr (r, d')"
    by (auto simp: adoptWorktreeTask_def Let_def split: if_splits option.splits sum.splits prod.splits)
  have "task_labels_ok (set (map l_id (db_labels d))) (adopted_row input t)"
    by (simp add: task_labels_ok_def adopted_row_def)
  from task_result_ok [OF d1(2) insert_row_ok [OF d1(1) ok this]] show ?thesis .
qed (use ok in simp)

lemma updateTask_ok: "updateTask i n patch op t d = Inr (x, d') \<Longrightarrow> rows_ok d \<Longrightarrow> rows_ok d'"
  by (auto simp: updateTask_def Let_def split: if_splits elim!: task_result_ok
      intro!: rows_ok_tasks list_all_update simp: task_labels_ok_def)

lemma deleteTask_ok:
  assumes a: "deleteTask i n op t d = Inr (x, d')" and c: "\<forall>c\<in>set (db_tasks d). t_parentTaskId c \<noteq> Some i"
    and ok: "rows_ok d"
  shows "rows_ok d'"
proof -
  let ?P = "\<lambda>t. t_id t = i \<and> t_revision t = n"
  have "delete_task_rows ?P (db_tasks d) = delete_where ?P (db_tasks d)"
    unfolding delete_task_rows_def update_where_def delete_where_def
    by (rule map_idI) (use c in \<open>auto split: option.splits\<close>)
  then have "d' = snd (appendTaskChange i t op (d\<lparr>db_tasks := delete_where ?P (db_tasks d)\<rparr>))"
    using a by (auto simp: deleteTask_def Let_def split: if_splits option.splits prod.splits)
  moreover have "rows_ok (d\<lparr>db_tasks := delete_where ?P (db_tasks d)\<rparr>)"
    by (rule rows_ok_tasks [OF ok])
      (use ok c in \<open>auto simp: rows_ok_def intro!: constraints_delete [where i = i] list_all_delete\<close>)
  ultimately show ?thesis by simp
qed

lemma writeTaskLabels_ok:
  assumes "writeTaskLabels i n ids op t d = Inr (x, d')" and ok: "rows_ok d"
  shows "rows_ok d'"
proof -
  let ?P = "\<lambda>t. t_id t = i \<and> revision_matches n (t_revision t)"
  let ?f = "\<lambda>u. u\<lparr>t_labelIds := js_unique ids, t_updatedAt := t, t_revision := t_revision u + 1\<rparr>"
  have w: "task_result i t op (d\<lparr>db_tasks := update_where ?P ?f (db_tasks d)\<rparr>) = Inr (x, d')"
    "length ids \<le> MAX_TASK_LABELS" "requireKnownLabels i ids d = (None :: task db_error option)"
    using assms(1) by (auto simp: writeTaskLabels_def Let_def split: if_splits option.splits sum.splits)
  have l: "length (js_unique ids) \<le> length ids" by (rule js_unique_length)
  have "rows_ok (d\<lparr>db_tasks := update_where ?P ?f (db_tasks d)\<rparr>)"
    by (rule rows_ok_tasks [OF ok])
      (use ok w(2,3) l in \<open>auto simp: rows_ok_def constraints_update_same task_labels_ok_def known_labels
        intro!: list_all_update\<close>)
  with w(1) task_result_ok show ?thesis by blast
qed

lemma setTaskLabels_ok: "setTaskLabels i n ids op t d = Inr (x, d') \<Longrightarrow> rows_ok d \<Longrightarrow> rows_ok d'"
  by (auto simp: setTaskLabels_def Let_def split: if_splits dest: writeTaskLabels_ok)

lemma addTaskLabels_ok: "addTaskLabels i ids op t d = Inr (x, d') \<Longrightarrow> rows_ok d \<Longrightarrow> rows_ok d'"
  by (auto simp: addTaskLabels_def Let_def split: if_splits option.splits sum.splits dest: writeTaskLabels_ok)

lemma removeTaskLabels_ok: "removeTaskLabels i ids op t d = Inr (x, d') \<Longrightarrow> rows_ok d \<Longrightarrow> rows_ok d'"
  by (auto simp: removeTaskLabels_def Let_def split: if_splits sum.splits dest: writeTaskLabels_ok)

section \<open>Deleting a label\<close>

lemma strip_label_rest [simp]:
  "db_labels (strip_label l now op rows d) = db_labels d"
  "db_projects (strip_label l now op rows d) = db_projects d"
  "db_threads (strip_label l now op rows d) = db_threads d"
  "db_replies (strip_label l now op rows d) = db_replies d"
  by (induction l now op rows d rule: strip_label.induct) (simp_all add: appendTaskChange_def Let_def)

text \<open>What stripping a label does to the tasks: the rows it was given lose the label.\<close>

lemma strip_label_tasks:
  assumes "distinct (map t_id rows)"
    and "\<And>row t. row \<in> set rows \<Longrightarrow> t \<in> set (db_tasks d) \<Longrightarrow> t_id t = t_id row \<Longrightarrow> t_labelIds t = t_labelIds row"
  shows "db_tasks (strip_label l now op rows d) =
     update_where (\<lambda>t. t_id t \<in> t_id ` {r \<in> set rows. l \<in> set (t_labelIds r)})
       (\<lambda>t. t\<lparr>t_labelIds := js_unique (filter (\<lambda>i. i \<noteq> l) (t_labelIds t)), t_updatedAt := now,
              t_revision := t_revision t + 1\<rparr>) (db_tasks d)"
  using assms
proof (induction rows arbitrary: d)
  case (Cons row rows)
  let ?f = "\<lambda>t. t\<lparr>t_labelIds := js_unique (filter (\<lambda>i. i \<noteq> l) (t_labelIds t)), t_updatedAt := now,
              t_revision := t_revision t + 1\<rparr>"
  let ?g = "\<lambda>t. t\<lparr>t_labelIds := js_unique (filter (\<lambda>i. i \<noteq> l) (t_labelIds row)), t_updatedAt := now,
              t_revision := t_revision t + 1\<rparr>"
  show ?case
  proof (cases "l \<in> set (t_labelIds row)")
    case False
    then have set: "{r \<in> set (row # rows). l \<in> set (t_labelIds r)} = {r \<in> set rows. l \<in> set (t_labelIds r)}" by auto
    have step: "strip_label l now op (row # rows) d = strip_label l now op rows d" using False by simp
    show ?thesis
      unfolding set step
      by (rule Cons.IH) (use Cons.prems(1) in simp, rule Cons.prems(2), simp_all)
  next
    case True
    let ?tasks = "update_where (\<lambda>t. t_id t = t_id row) ?g (db_tasks d)"
    let ?d = "snd (appendTaskChange (t_id row) now op (d\<lparr>db_tasks := ?tasks\<rparr>))"
    have d: "db_tasks ?d = ?tasks" by (simp add: appendTaskChange_def Let_def)
    have same: "?tasks = update_where (\<lambda>t. t_id t = t_id row) ?f (db_tasks d)"
      unfolding update_where_def by (rule map_cong) (use Cons.prems(2) [of row] in auto)
    have "t_labelIds t = t_labelIds r" if r: "r \<in> set rows" and t: "t \<in> set (db_tasks ?d)" "t_id t = t_id r" for r t
    proof -
      from update_where_mem [OF t(1) [unfolded d]]
      obtain u where u: "u \<in> set (db_tasks d)" "t = (if t_id u = t_id row then ?g u else u)" by blast
      have "t_id r \<noteq> t_id row" using Cons.prems(1) r by (metis distinct.simps(2) image_eqI list.map(2) set_map)
      then have "t_id u \<noteq> t_id row" using u(2) t(2) by (auto split: if_splits)
      then show ?thesis using u Cons.prems(2) [of r u] r t(2) by simp
    qed
    note IH = Cons.IH [of ?d, OF _ this]
    have rest: "distinct (map t_id rows)" using Cons.prems(1) by simp
    have "update_where (\<lambda>t. t_id t \<in> t_id ` {r \<in> set rows. l \<in> set (t_labelIds r)}) ?f
        (update_where (\<lambda>t. t_id t = t_id row) ?f (db_tasks d)) =
      update_where (\<lambda>t. t_id t \<in> t_id ` {r \<in> set (row # rows). l \<in> set (t_labelIds r)}) ?f (db_tasks d)"
      unfolding update_where_def map_map
    proof (rule map_cong [OF refl])
      fix t assume "t \<in> set (db_tasks d)"
      have r: "t_id row \<notin> t_id ` {r \<in> set rows. l \<in> set (t_labelIds r)}" using Cons.prems(1) by (auto simp: image_iff)
      have i: "t_id ` {r \<in> set (row # rows). l \<in> set (t_labelIds r)}
          = insert (t_id row) (t_id ` {r \<in> set rows. l \<in> set (t_labelIds r)})"
        using True by auto
      show "((\<lambda>t. if t_id t \<in> t_id ` {r \<in> set rows. l \<in> set (t_labelIds r)} then ?f t else t) \<circ>
          (\<lambda>t. if t_id t = t_id row then ?f t else t)) t =
        (if t_id t \<in> t_id ` {r \<in> set (row # rows). l \<in> set (t_labelIds r)} then ?f t else t)"
        unfolding i comp_def using r by (cases "t_id t = t_id row") simp_all
    qed
    note comb = this
    have step: "strip_label l now op (row # rows) d = strip_label l now op rows ?d" using True by simp
    have "db_tasks ?d = update_where (\<lambda>t. t_id t = t_id row) ?f (db_tasks d)" using d same by (rule trans)
    note arg_cong [where f = "update_where (\<lambda>t. t_id t \<in> t_id ` {r \<in> set rows. l \<in> set (t_labelIds r)}) ?f", OF this]
    from trans [OF IH [OF rest] trans [OF this comb]] show ?thesis unfolding step .
  qed
qed (simp add: update_where_def)

definition carrying :: "string \<Rightarrow> task list \<Rightarrow> string set" where
  "carrying l tasks = t_id ` {r \<in> set (filter (\<lambda>t. sql_like (CHR ''%'' # json_string l @ [CHR ''%''])
     (serializeLabelIds (t_labelIds t))) tasks). l \<in> set (t_labelIds r)}"

lemma stripLabelFromTasks_tasks:
  assumes s: "stripLabelFromTasks l now op d = Inr d'" and keys: "distinct (map t_id (db_tasks d))"
  shows "db_tasks d' = update_where (\<lambda>t. t_id t \<in> carrying l (db_tasks d))
       (\<lambda>t. t\<lparr>t_labelIds := js_unique (filter (\<lambda>i. i \<noteq> l) (t_labelIds t)), t_updatedAt := now,
              t_revision := t_revision t + 1\<rparr>) (db_tasks d)"
    and "db_labels d' = db_labels d" "db_projects d' = db_projects d" "db_threads d' = db_threads d"
    "db_replies d' = db_replies d"
proof -
  let ?rows = "filter (\<lambda>t. sql_like (CHR ''%'' # json_string l @ [CHR ''%'']) (serializeLabelIds (t_labelIds t))) (db_tasks d)"
  have d': "d' = strip_label l now op ?rows d"
    using s by (auto simp: stripLabelFromTasks_def split: sum.splits dest!: boundedRows_Inr boundedRows_Suc)
  have same: "t_labelIds t = t_labelIds row" if "row \<in> set ?rows" "t \<in> set (db_tasks d)" "t_id t = t_id row" for row t
    using that keys by (metis eq_key_imp_eq_value filter_is_subset subsetD row_at_mem option.inject)
  show "db_tasks d' = update_where (\<lambda>t. t_id t \<in> carrying l (db_tasks d))
       (\<lambda>t. t\<lparr>t_labelIds := js_unique (filter (\<lambda>i. i \<noteq> l) (t_labelIds t)), t_updatedAt := now,
              t_revision := t_revision t + 1\<rparr>) (db_tasks d)"
    unfolding d' carrying_def by (rule strip_label_tasks [OF distinct_map_filter [OF keys] same])
  show "db_labels d' = db_labels d" "db_projects d' = db_projects d" "db_threads d' = db_threads d"
    "db_replies d' = db_replies d"
    unfolding d' by simp_all
qed

lemma stripLabelFromTasks_labels:
  assumes s: "stripLabelFromTasks l now op d = Inr d'" and keys: "distinct (map t_id (db_tasks d))"
    and ok: "list_all (task_labels_ok (insert l known)) (db_tasks d)"
  shows "list_all (task_labels_ok (known - {l})) (db_tasks d')"
proof -
  note tasks = stripLabelFromTasks_tasks(1) [OF s keys]
  have carried: "t_id t \<in> carrying l (db_tasks d)" if "t \<in> set (db_tasks d)" "l \<in> set (t_labelIds t)" for t
    using that serialized_matches [OF that(2)] by (auto simp: carrying_def)
  have shorter: "length (js_unique (filter (\<lambda>i. i \<noteq> l) xs)) \<le> length xs" for xs :: "string list"
    using js_unique_length le_trans length_filter_le by blast
  have "task_labels_ok (known - {l}) u" if "u \<in> set (db_tasks d')" for u
  proof -
    from update_where_mem [OF that [unfolded tasks]] obtain t where u: "t \<in> set (db_tasks d)"
      "u = (if t_id t \<in> carrying l (db_tasks d)
        then t\<lparr>t_labelIds := js_unique (filter (\<lambda>i. i \<noteq> l) (t_labelIds t)), t_updatedAt := now,
              t_revision := t_revision t + 1\<rparr> else t)"
      by blast
    from u(1) ok have t: "task_labels_ok (insert l known) t" by (simp add: list_all_iff)
    show ?thesis
    proof (cases "t_id t \<in> carrying l (db_tasks d)")
      case True
      then have "t_labelIds u = js_unique (filter (\<lambda>i. i \<noteq> l) (t_labelIds t))" by (simp add: u(2))
      with t le_trans [OF shorter] show ?thesis unfolding task_labels_ok_def by auto
    next
      case False
      then have "u = t" "l \<notin> set (t_labelIds t)" using u carried by auto
      with t show ?thesis unfolding task_labels_ok_def by auto
    qed
  qed
  then show ?thesis by (simp add: list_all_iff)
qed

lemma stripLabelFromTasks_constraints:
  assumes s: "stripLabelFromTasks l now op d = Inr d'" and keys: "distinct (map t_id (db_tasks d))"
  shows "task_constraints (db_tasks d') = task_constraints (db_tasks d)"
  unfolding stripLabelFromTasks_tasks(1) [OF s keys] by (rule constraints_update_same) simp_all

section \<open>Labels\<close>

lemma find_None_map: "find (\<lambda>x. f x = y) xs = None \<Longrightarrow> y \<notin> f ` set xs"
  by (auto simp: find_None_iff)

lemma labelName_ok: "labelName s = Some n \<Longrightarrow> n \<noteq> [] \<and> length n \<le> MAX_LABEL_NAME_LENGTH"
  by (auto simp: labelName_def Let_def split: if_splits)

lemma task_labels_mono: "known \<subseteq> known' \<Longrightarrow> list_all (task_labels_ok known) tasks \<Longrightarrow> list_all (task_labels_ok known') tasks"
  by (auto simp: list_all_iff task_labels_ok_def)

lemma createLabel_ok:
  assumes a: "createLabel ulid input op t d = Inr (x, d')" and ok: "rows_ok d"
  shows "rows_ok d'"
proof (cases "d' = d")
  case False
  obtain row name i where d1: "state_result (findLabel i) Labels i t op
      (d\<lparr>db_labels := db_labels d @ [row]\<rparr>) = Inr (x, d')"
    "labelName (nl_name input) = Some name" "l_name row = name" "findLabelByName name d = None"
    using a False by (auto simp: createLabel_def Let_def split: option.splits)
  have "label_names_ok (db_labels d @ [row])"
    using ok labelName_ok [OF d1(2)] d1(3) find_None_map [OF d1(4) [unfolded findLabelByName_def]]
    by (auto simp: rows_ok_def label_names_ok_def)
  then have "rows_ok (d\<lparr>db_labels := db_labels d @ [row]\<rparr>)"
    using ok by (intro rows_ok_labels) (auto simp: rows_ok_def intro: task_labels_mono [rotated])
  with d1(1) state_result_ok show ?thesis by blast
qed (use ok in simp)

lemma label_rename_ok:
  assumes ok: "label_names_ok labels" and keys: "distinct (map l_id labels)"
    and cur: "row_at l_id labels i = Some current" and f: "\<And>l. P l \<Longrightarrow> l_id l = i" "\<And>l. l_name (f l) = n"
    and n: "n \<noteq> []" "length n \<le> MAX_LABEL_NAME_LENGTH"
    and free: "\<And>l. l \<in> set labels \<Longrightarrow> l_id l \<noteq> i \<Longrightarrow> sql_lower (l_name l) \<noteq> sql_lower n"
  shows "label_names_ok (update_where P f labels)"
proof -
  have "distinct (map (\<lambda>l. sql_lower (l_name (if P l then f l else l))) labels)"
    using ok keys free f
  proof (induction labels)
    case (Cons l ls)
    have other: "l_id m \<noteq> l_id l" if "m \<in> set ls" for m using Cons.prems(2) that by (metis distinct.simps(2) image_eqI list.map(2) set_map)
    have rest: "distinct (map (\<lambda>l. sql_lower (l_name (if P l then f l else l))) ls)"
      by (rule Cons.IH) (use Cons.prems in \<open>auto simp: label_names_ok_def\<close>)
    have ne: "sql_lower (l_name (if P m then f m else m)) \<noteq> sql_lower (l_name (if P l then f l else l))" if m: "m \<in> set ls" for m
    proof (cases "P l")
      case True
      with other [OF m] Cons.prems(4) have "\<not> P m" "l_id m \<noteq> i" by metis+
      with True m Cons.prems(3) [of m] Cons.prems(5) show ?thesis by simp
    next
      case False
      show ?thesis
      proof (cases "P m")
        case True
        with other [OF m] Cons.prems(4) have "l_id l \<noteq> i" by metis
        with True False Cons.prems(3) [of l] Cons.prems(5) show ?thesis by auto
      next
        case False2: False
        have "sql_lower (l_name m) \<noteq> sql_lower (l_name l)" using Cons.prems(1) m by (auto simp: label_names_ok_def image_iff)
        with False False2 show ?thesis by simp
      qed
    qed
    have "sql_lower (l_name (if P l then f l else l)) \<notin> (\<lambda>l. sql_lower (l_name (if P l then f l else l))) ` set ls"
      using ne by fastforce
    with rest show ?case by simp
  qed simp
  then show ?thesis
    using ok n f(2) by (auto simp: label_names_ok_def update_where_def comp_def list_all_iff)
qed

lemma label_name_inj:
  "label_names_ok ls \<Longrightarrow> l \<in> set ls \<Longrightarrow> m \<in> set ls \<Longrightarrow> sql_lower (l_name l) = sql_lower (l_name m) \<Longrightarrow> l = m"
  by (auto simp: label_names_ok_def distinct_map inj_on_def)

lemma updateLabel_ok:
  assumes a: "updateLabel i e patchName patchColor op t d = Inr (x, d')" and ok: "rows_ok d" and keys: "keys_ok d"
  shows "rows_ok d'"
proof -
  let ?P = "\<lambda>l. l_id l = i \<and> revision_matches e (l_revision l)"
  obtain current where cur: "findLabel i d = Some current"
    using a by (auto simp: updateLabel_def Let_def split: if_splits option.splits)
  define n where "n = (case Option.bind patchName labelName of None \<Rightarrow> l_name current | Some n \<Rightarrow> n)"
  define c where "c = (case patchColor of None \<Rightarrow> l_color current | Some c \<Rightarrow> c)"
  let ?f = "\<lambda>l. l\<lparr>l_name := n, l_color := c, l_updatedAt := t, l_revision := l_revision l + 1\<rparr>"
  let ?labels = "update_where ?P ?f (db_labels d)"
  have r: "state_result (findLabel i) Labels i t op (d\<lparr>db_labels := ?labels\<rparr>) = Inr (x, d')"
    and conflict: "\<And>m. Option.bind patchName labelName = Some m \<Longrightarrow> (case findLabelByName m d of None \<Rightarrow> True | Some l \<Rightarrow> l_id l = i)"
    using a cur by (auto simp: updateLabel_def Let_def n_def c_def split: if_splits option.splits)
  have k: "distinct (map l_id (db_labels d))" using keys by (simp add: keys_ok_def)
  have lok: "label_names_ok (db_labels d)" using ok by (simp add: rows_ok_def)
  have in_cur: "current \<in> set (db_labels d)" "l_id current = i" using cur row_at_Some by (fastforce simp: findLabel_def)+
  have free: "sql_lower (l_name l) \<noteq> sql_lower n" if "l \<in> set (db_labels d)" "l_id l \<noteq> i" for l
  proof (cases "Option.bind patchName labelName")
    case None
    then have "n = l_name current" by (simp add: n_def)
    moreover have "l \<noteq> current" using that in_cur by auto
    ultimately show ?thesis using label_name_inj [OF lok that(1) in_cur(1)] by auto
  next
    case (Some m)
    show ?thesis
    proof
      assume eq: "sql_lower (l_name l) = sql_lower n"
      have m: "n = m" using Some by (simp add: n_def)
      then have "sql_lower m \<in> (\<lambda>l. sql_lower (l_name l)) ` set (db_labels d)" using that(1) eq by force
      then have "findLabelByName m d \<noteq> None"
        using find_None_map [of "\<lambda>l. sql_lower (l_name l)" "sql_lower m"] by (auto simp: findLabelByName_def)
      then obtain l' where l': "findLabelByName m d = Some l'" "l_id l' = i" using conflict [OF Some] by auto
      then have "l' \<in> set (db_labels d)" "sql_lower (l_name l') = sql_lower m"
        using find_SomeD unfolding findLabelByName_def by fastforce+
      then have "l' = l" using label_name_inj [OF lok _ that(1)] eq m by simp
      with l' that show False by simp
    qed
  qed
  have "n \<noteq> [] \<and> length n \<le> MAX_LABEL_NAME_LENGTH"
  proof (cases "Option.bind patchName labelName")
    case None
    then show ?thesis using lok in_cur by (auto simp: n_def label_names_ok_def list_all_iff)
  next
    case (Some m)
    then show ?thesis using labelName_ok by (auto simp: n_def bind_eq_Some_conv)
  qed
  with label_rename_ok [OF lok k cur [unfolded findLabel_def], of ?P ?f n] free
  have "label_names_ok ?labels" by simp
  then have "rows_ok (d\<lparr>db_labels := ?labels\<rparr>)"
  proof (rule rows_ok_labels [OF ok])
    have "map l_id ?labels = map l_id (db_labels d)" by (rule update_where_keys) simp
    then show "list_all (task_labels_ok (set (map l_id ?labels))) (db_tasks d)" using ok by (simp only: rows_ok_def)
  qed
  with r state_result_ok show ?thesis by blast
qed

lemma deleteLabel_ok:
  assumes a: "deleteLabel i e op t d = Inr (x, d')" and ok: "rows_ok d" and keys: "keys_ok d"
  shows "rows_ok d'"
proof -
  let ?P = "\<lambda>l. l_id l = i \<and> revision_matches e (l_revision l)"
  let ?d = "d\<lparr>db_labels := delete_where ?P (db_labels d)\<rparr>"
  obtain row d1 where d1: "findLabel i d = Some row" "rows_changed ?P (db_labels d) \<noteq> 0"
    "stripLabelFromTasks i t op ?d = (Inr d1 :: label db_error + laborer_db)" "deleted_result row Labels i t op d1 = Inr (x, d')"
    using a by (auto simp: deleteLabel_def Let_def split: option.splits if_splits sum.splits)
  have k: "distinct (map t_id (db_tasks ?d))" "distinct (map l_id (db_labels d))" using keys by (simp_all add: keys_ok_def)
  note strip = stripLabelFromTasks_tasks [OF d1(3) k(1)]
  let ?known = "set (map l_id (db_labels d))"
  have "list_all (task_labels_ok (insert i ?known)) (db_tasks ?d)"
    using ok by (auto simp: rows_ok_def intro: task_labels_mono [rotated])
  note tasks = stripLabelFromTasks_labels [OF d1(3) k(1) this]
  obtain l where l: "l \<in> set (db_labels d)" "?P l" using d1(2) by (auto simp: rows_changed_0)
  have "m = l" if "m \<in> set (db_labels d)" "l_id m = i" for m
    using that l k(2) by (metis inj_onD distinct_map)
  then have ids: "?known - {i} \<subseteq> set (map l_id (db_labels d1))" using l
    by (auto simp: strip(2) delete_where_def)
  have "label_names_ok (delete_where ?P (db_labels d))"
    using ok by (auto simp: rows_ok_def label_names_ok_def delete_where_keys list_all_delete)
  moreover have "task_constraints (db_tasks d1)"
    using stripLabelFromTasks_constraints [OF d1(3) k(1)] ok by (simp add: rows_ok_def)
  ultimately have "rows_ok d1"
    using ok task_labels_mono [OF ids tasks] by (simp add: rows_ok_def strip(2-5))
  from deleted_result_ok [OF d1(4) this] show ?thesis .
qed

section \<open>Projects and settings\<close>

lemma insertProject_ok: "insertProject input op t d = Inr (x, d') \<Longrightarrow> rows_ok d \<Longrightarrow> rows_ok d'"
  by (auto simp: insertProject_def Let_def split: option.splits if_splits elim!: state_result_ok intro!: rows_ok_projects)

lemma updateProject_ok: "updateProject i n patch op t d = Inr (x, d') \<Longrightarrow> rows_ok d \<Longrightarrow> rows_ok d'"
  by (auto simp: updateProject_def Let_def split: if_splits elim!: state_result_ok intro!: rows_ok_projects)

lemma assign_ranks_ok: "assign_ranks as op t d = Inr d' \<Longrightarrow> rows_ok d \<Longrightarrow> rows_ok d'"
proof (induction as op t d rule: assign_ranks.induct)
  case (2 a as op t d)
  let ?P = "\<lambda>p. p_id p = pa_projectId a \<and> p_revision p = pa_expectedRevision a"
  let ?f = "\<lambda>p. p\<lparr>p_sortOrder := pa_sortOrder a, p_updatedAt := t, p_revision := p_revision p + 1\<rparr>"
  have one: "rows_changed ?P (db_projects d) = 1" using 2(2) by (auto simp: Let_def split: if_splits)
  have "map p_id (update_where ?P ?f (db_projects d)) = map p_id (db_projects d)"
    "map p_repoId (update_where ?P ?f (db_projects d)) = map p_repoId (db_projects d)"
    by (rule map_update_same; simp)+
  then have "project_constraints (update_where ?P ?f (db_projects d))"
    using 2(3) by (simp add: rows_ok_def project_constraints_def)
  from rows_ok_projects [OF 2(3) this] 2(1) [OF refl] 2(2) one show ?case by (simp add: Let_def)
qed simp

lemma reorderProjects_ok: "reorderProjects as op t d = Inr (x, d') \<Longrightarrow> rows_ok d \<Longrightarrow> rows_ok d'"
  by (auto simp: reorderProjects_def split: if_splits option.splits sum.splits dest: assign_ranks_ok)

lemma constraints_delete_project: "rows_ok d \<Longrightarrow> project_constraints (delete_where P (db_projects d))"
  by (simp add: rows_ok_def project_constraints_def delete_where_keys)

lemma deleteProject_ok: "deleteProject i n op t d = Inr (x, d') \<Longrightarrow> rows_ok d \<Longrightarrow> rows_ok d'"
  by (auto simp: deleteProject_def Let_def split: if_splits option.splits
      elim!: deleted_result_ok intro!: rows_ok_projects constraints_delete_project)

lemma insertSetting_ok: "insertSetting key v op t d = Inr (x, d') \<Longrightarrow> rows_ok d \<Longrightarrow> rows_ok d'"
  by (auto simp: insertSetting_def split: if_splits elim!: state_result_ok intro!: rows_ok_settings)

lemma updateSetting_ok: "updateSetting key n v op t d = Inr (x, d') \<Longrightarrow> rows_ok d \<Longrightarrow> rows_ok d'"
  by (auto simp: updateSetting_def Let_def split: if_splits elim!: state_result_ok intro!: rows_ok_settings)

lemma setSetting_ok: "setSetting key n v op t d = Inr (x, d') \<Longrightarrow> rows_ok d \<Longrightarrow> rows_ok d'"
  by (auto simp: setSetting_def split: if_splits sum.splits option.splits dest: insertSetting_ok updateSetting_ok)

lemma deleteSetting_ok: "deleteSetting key n op t d = Inr (x, d') \<Longrightarrow> rows_ok d \<Longrightarrow> rows_ok d'"
  by (auto simp: deleteSetting_def Let_def split: if_splits option.splits
      elim!: deleted_result_ok intro!: rows_ok_settings)

section \<open>Review comments\<close>

lemma reviewCommentBody_ok: "reviewCommentBody s = Some b \<Longrightarrow> b \<noteq> [] \<and> length b \<le> REVIEW_COMMENT_BODY_MAX_LENGTH"
  by (auto simp: reviewCommentBody_def Let_def split: if_splits)

lemma validated_thread:
  assumes "validateNewReviewCommentThread input = Some draft"
  shows "reviewCommentAnchor (nh_startLine draft) (nh_endLine draft) \<and> nh_filePath draft \<noteq> [] \<and>
    nh_body draft \<noteq> [] \<and> length (nh_body draft) \<le> REVIEW_COMMENT_BODY_MAX_LENGTH"
  using assms
  by (auto simp: validateNewReviewCommentThread_def reviewCommentFilePath_def Let_def
      split: if_splits option.splits dest: reviewCommentBody_ok)

lemma comments_new_thread:
  assumes "comments_ok threads replies" and "th_id th \<notin> set (map th_id threads)"
    and "reviewCommentAnchor (th_startLine th) (th_endLine th)" "th_filePath th \<noteq> []"
    and "r_threadId r = th_id th" "r_body r \<noteq> []" "length (r_body r) \<le> REVIEW_COMMENT_BODY_MAX_LENGTH"
  shows "comments_ok (threads @ [th]) (replies @ [r])"
proof -
  have none: "thread_replies replies (th_id th) = []"
    using assms(1,2) unfolding comments_ok_def thread_replies_def list_all_iff filter_empty_conv by metis
  have old: "thread_replies (replies @ [r]) (th_id u) = thread_replies replies (th_id u)" if "u \<in> set threads" for u
    using assms(2,5) that by (auto simp: thread_replies_def)
  show ?thesis
    using assms none old
    by (auto simp: comments_ok_def list_all_iff thread_replies_def MAX_REVIEW_COMMENT_REPLIES_def)
qed

lemma comments_new_reply:
  assumes "comments_ok threads replies" and "r_threadId r \<in> set (map th_id threads)"
    and "length (thread_replies replies (r_threadId r)) < MAX_REVIEW_COMMENT_REPLIES"
    and "r_body r \<noteq> []" "length (r_body r) \<le> REVIEW_COMMENT_BODY_MAX_LENGTH"
  shows "comments_ok threads (replies @ [r])"
  using assms by (auto simp: comments_ok_def list_all_iff thread_replies_def)

lemma insert_reply_rows:
  "insert_reply r d = Some d' \<Longrightarrow> d' = d\<lparr>db_replies := db_replies d @ [r]\<rparr>"
  by (auto simp: insert_reply_def split: if_splits)

lemma createThread_ok:
  assumes a: "createReviewCommentThread ulid ulid' input author op t d = Inr (x, d')" and ok: "rows_ok d"
  shows "rows_ok d'"
proof (cases "d' = d")
  case False
  obtain draft where draft: "validateNewReviewCommentThread input = Some draft"
    using a by (auto simp: createReviewCommentThread_def split: option.splits)
  define i where "i = (case nh_id draft of None \<Rightarrow> ulid | Some i \<Rightarrow> i)"
  define rid where "rid = (case nh_replyId draft of None \<Rightarrow> ulid' | Some r \<Rightarrow> r)"
  define c where "c = (case nh_createdAt draft of None \<Rightarrow> t | Some c \<Rightarrow> c)"
  let ?th = "\<lparr>th_createdAt = c, th_endLine = nh_endLine draft, th_filePath = nh_filePath draft,
    th_id = i, th_revision = 1, th_side = nh_side draft, th_startLine = nh_startLine draft,
    th_status = CommentOpen, th_updatedAt = c, th_workspaceId = nh_workspaceId draft\<rparr>"
  let ?r = "\<lparr>r_author = author, r_body = nh_body draft, r_createdAt = c, r_id = rid, r_threadId = i\<rparr>"
  have new: "findReviewCommentThread i d = None" and d1: "\<exists>d1. insert_reply ?r (d\<lparr>db_threads := db_threads d @ [?th]\<rparr>) = Some d1 \<and>
      state_result (findReviewCommentThread i) ReviewThreads i c op d1 = Inr (x, d')"
    using a False unfolding createReviewCommentThread_def draft option.case Let_def i_def [symmetric] rid_def [symmetric]
      c_def [symmetric] by (auto split: option.splits)
  then obtain d1 where d1: "d1 = d\<lparr>db_threads := db_threads d @ [?th], db_replies := db_replies d @ [?r]\<rparr>"
    "state_result (findReviewCommentThread i) ReviewThreads i c op d1 = Inr (x, d')"
    by (auto dest!: insert_reply_rows)
  have "comments_ok (db_threads d @ [?th]) (db_replies d @ [?r])"
    by (rule comments_new_thread)
      (use ok new validated_thread [OF draft] in \<open>auto simp: rows_ok_def findReviewCommentThread_def row_at_None\<close>)
  then have "rows_ok d1" unfolding d1(1) by (rule rows_ok_comments [OF ok])
  from state_result_ok [OF d1(2) this] show ?thesis .
qed (use ok in simp)

lemma appendReply_ok:
  assumes a: "appendReviewCommentReply ulid input author op t d = Inr (x, d')" and ok: "rows_ok d"
  shows "rows_ok d'"
proof (cases "d' = d")
  case False
  let ?i = "nr_threadId input"
  obtain body thread where b: "reviewCommentBody (nr_body input) = Some body" "findReviewCommentThread ?i d = Some thread"
    using a by (auto simp: appendReviewCommentReply_def Let_def split: option.splits)
  obtain r c d1 where r: "insert_reply r d = Some d1"
    "state_result (findReviewCommentThread ?i) ReviewThreads ?i c op d1 = Inr (x, d')"
    "r_threadId r = ?i" "r_body r = body" "length (ct_replies thread) < MAX_REVIEW_COMMENT_REPLIES"
    using a b False by (auto simp: appendReviewCommentReply_def Let_def split: option.splits if_splits)
  obtain row where row: "row \<in> set (db_threads d)" "th_id row = ?i" "thread = read_thread d row"
    using b(2) row_at_Some by (fastforce simp: findReviewCommentThread_def)
  have "length (thread_replies (db_replies d) ?i) = length (ct_replies thread)"
    by (simp add: row(2,3) read_thread_def reviewCommentReplies_def thread_replies_def)
  then have "comments_ok (db_threads d) (db_replies d @ [r])"
    by (intro comments_new_reply)
      (use ok r reviewCommentBody_ok [OF b(1)] row(1) row(2) [symmetric] in \<open>auto simp: rows_ok_def\<close>)
  from rows_ok_comments [OF ok this] have "rows_ok d1" using insert_reply_rows [OF r(1)] by simp
  from state_result_ok [OF r(2) this] show ?thesis .
qed (use ok in simp)

lemma comments_update:
  assumes "comments_ok threads replies"
    and "\<And>t. th_id (f t) = th_id t \<and> th_startLine (f t) = th_startLine t \<and> th_endLine (f t) = th_endLine t \<and>
      th_filePath (f t) = th_filePath t"
    and "\<And>r. r_threadId (g r) = r_threadId r"
    and "\<And>r. Q r \<Longrightarrow> r_body (g r) \<noteq> [] \<and> length (r_body (g r)) \<le> REVIEW_COMMENT_BODY_MAX_LENGTH"
  shows "comments_ok (update_where P f threads) (update_where Q g replies)"
proof -
  have ids: "map th_id (update_where P f threads) = map th_id threads" by (rule map_update_same) (simp add: assms(2))
  have count: "length (thread_replies (update_where Q g replies) i) = length (thread_replies replies i)" for i
    using assms(3) by (simp add: thread_replies_def update_where_def filter_map comp_def if_distrib cong: if_cong)
  show ?thesis
    using assms(1) unfolding comments_ok_def ids
    by (auto simp: list_all_iff update_where_def count [unfolded update_where_def] assms(2-4))
qed

lemma updateReply_ok:
  assumes a: "updateReviewCommentReply i body author op t d = Inr (x, d')" and ok: "rows_ok d"
  shows "rows_ok d'"
proof -
  obtain b r where "reviewCommentBody body = Some b" "findReviewCommentReply i d = Some r" "r_author r = author"
    using a by (auto simp: updateReviewCommentReply_def split: option.splits if_splits)
  with a have b: "reviewCommentBody body = Some b"
    "state_result (findReviewCommentThread (r_threadId r)) ReviewThreads (r_threadId r) t op
      (d\<lparr>db_threads := update_where (\<lambda>th. th_id th = r_threadId r) (\<lambda>th. th\<lparr>th_updatedAt := t\<rparr>) (db_threads d),
         db_replies := update_where (\<lambda>r. r_id r = i) (\<lambda>r. r\<lparr>r_body := b\<rparr>) (db_replies d)\<rparr>) = Inr (x, d')"
    by (simp_all add: updateReviewCommentReply_def)
  show ?thesis
    by (rule state_result_ok [OF b(2)], rule rows_ok_comments [OF ok], rule comments_update)
      (use ok reviewCommentBody_ok [OF b(1)] in \<open>auto simp: rows_ok_def\<close>)
qed

lemma setThreadStatus_ok:
  assumes a: "setReviewCommentThreadStatus i n st op t d = Inr (x, d')" and ok: "rows_ok d"
  shows "rows_ok d'"
proof -
  let ?threads = "update_where (\<lambda>t. th_id t = i \<and> th_revision t = n)
    (\<lambda>u. u\<lparr>th_status := st, th_updatedAt := t, th_revision := th_revision u + 1\<rparr>) (db_threads d)"
  have "comments_ok ?threads (update_where (\<lambda>_. False) id (db_replies d))"
    by (rule comments_update) (use ok in \<open>auto simp: rows_ok_def\<close>)
  then have "rows_ok (d\<lparr>db_threads := ?threads\<rparr>)" using ok by (simp add: rows_ok_def update_where_def)
  moreover have "state_result (findReviewCommentThread i) ReviewThreads i t op (d\<lparr>db_threads := ?threads\<rparr>) = Inr (x, d')"
    using a by (auto simp: setReviewCommentThreadStatus_def Let_def split: if_splits)
  ultimately show ?thesis using state_result_ok by blast
qed

lemma delete_thread_rows_ok:
  assumes ok: "rows_ok d" and keys: "distinct (map th_id (db_threads d))" and P: "\<And>t. P t \<Longrightarrow> th_id t = i"
  shows "rows_ok (delete_thread_rows P d)"
proof -
  let ?gone = "set (map th_id (filter P (db_threads d)))"
  have c: "comments_ok (db_threads d) (db_replies d)" using ok by (simp add: rows_ok_def)
  have "r_threadId r \<in> set (map th_id (delete_where P (db_threads d)))"
    if "r \<in> set (db_replies d)" "r_threadId r \<notin> ?gone" for r
    using c that by (fastforce simp: comments_ok_def list_all_iff delete_where_def)
  moreover have "length (thread_replies (filter Q (db_replies d)) (th_id th)) \<le> MAX_REVIEW_COMMENT_REPLIES"
    if "th \<in> set (db_threads d)" for th Q
  proof -
    have "length (thread_replies (filter Q replies) k) \<le> length (thread_replies replies k)" for replies k
      unfolding thread_replies_def by (induction replies) auto
    from le_trans [OF this] show ?thesis using c that by (auto simp: comments_ok_def list_all_iff)
  qed
  ultimately have "comments_ok (delete_where P (db_threads d)) (delete_where (\<lambda>r. r_threadId r \<in> ?gone) (db_replies d))"
    using c unfolding comments_ok_def list_all_iff by (auto simp: delete_where_def)
  from rows_ok_comments [OF ok this] show ?thesis by (simp add: delete_thread_rows_def)
qed

lemma deleteThread_ok:
  assumes a: "deleteReviewCommentThread i n op t d = Inr (x, d')" and ok: "rows_ok d" and keys: "keys_ok d"
  shows "rows_ok d'"
proof -
  let ?P = "\<lambda>t. th_id t = i \<and> th_revision t = n"
  have "rows_ok (delete_thread_rows ?P d)"
    by (rule delete_thread_rows_ok [where i = i, OF ok]) (use keys in \<open>simp_all add: keys_ok_def\<close>)
  then show ?thesis
    using a by (auto simp: deleteReviewCommentThread_def Let_def split: option.splits if_splits elim!: deleted_result_ok)
qed

lemma delete_threads_ok:
  "rows_ok d \<Longrightarrow> distinct (map th_id (db_threads d)) \<Longrightarrow> rows_ok (delete_threads is op t d)"
proof (induction "is" op t d rule: delete_threads.induct)
  case (2 i "is" op t d)
  let ?d = "delete_thread_rows (\<lambda>t. th_id t = i) d"
  have "rows_ok ?d" by (rule delete_thread_rows_ok [where i = i]) (use 2 in simp_all)
  moreover have "distinct (map th_id (db_threads ?d))" using 2(3) by (simp add: delete_thread_rows_def delete_where_keys)
  ultimately show ?case
    using 2(1) by (simp add: appendStateChange_def Let_def rows_ok_def)
qed simp

lemma deleteThreadsForWorkspace_ok:
  "deleteReviewCommentThreadsForWorkspace i op t d = Inr (x, d') \<Longrightarrow> rows_ok d \<Longrightarrow> keys_ok d \<Longrightarrow> rows_ok d'"
  by (auto simp: deleteReviewCommentThreadsForWorkspace_def keys_ok_def split: sum.splits intro!: delete_threads_ok)

section \<open>Every write\<close>

lemma rows_ok_write: "db_write d d' \<Longrightarrow> rows_ok d \<Longrightarrow> keys_ok d \<Longrightarrow> rows_ok d'"
proof (induction rule: db_write.induct)
  case (4 i n op t d x d')
  then show ?case using deleteTask_ok by blast
qed (erule (1) insertTask_ok adoptWorktreeTask_ok updateTask_ok setTaskLabels_ok
  addTaskLabels_ok removeTaskLabels_ok insertProject_ok updateProject_ok updateProject_ok [folded moveProject_def]
  reorderProjects_ok deleteProject_ok insertSetting_ok setSetting_ok updateSetting_ok deleteSetting_ok createLabel_ok
  createThread_ok appendReply_ok updateReply_ok setThreadStatus_ok
  | erule (2) updateLabel_ok deleteLabel_ok deleteThread_ok deleteThreadsForWorkspace_ok
  | simp add: moveProject_def, erule (1) updateProject_ok)+

theorem db_ok_write: "db_write d d' \<Longrightarrow> db_ok d \<Longrightarrow> db_ok d'"
  unfolding db_ok_def using rows_ok_write db_write_logged logged_keys by blast

lemma db_ok_writes: "db_write\<^sup>*\<^sup>* d d' \<Longrightarrow> db_ok d \<Longrightarrow> db_ok d'"
  by (induction rule: rtranclp_induct) (auto intro: db_ok_write)

end
