(* ===== verification/Laborer_Behaviour.thy ===== *)
theory Laborer_Behaviour
  imports Laborer_Invariant
begin

text \<open>
  What single operations of the database do: compare-and-swap on revisions, label edits that need no
  revision, the reordering of projects, replayed requests and the chain of replies.
\<close>

section \<open>Compare and swap\<close>

lemma matching_row:
  assumes "distinct (map key rows)"
  shows "rows_changed (\<lambda>r. key r = i \<and> Q r) rows = (case row_at key rows i of None \<Rightarrow> 0 | Some r \<Rightarrow> if Q r then 1 else 0)"
  using assms
proof (induction rows)
  case (Cons r rows)
  have "key r = i \<Longrightarrow> row_at key rows i = None" using Cons.prems by (auto simp: row_at_None)
  with Cons show ?case by (auto simp: rows_changed_def row_at_def)
qed (simp add: rows_changed_def row_at_def)

lemma findTask_appended [simp]: "findTask i (snd (appendTaskChange j t op d)) = findTask i d"
  by (simp add: appendTaskChange_def findTask_def Let_def)

lemma task_result_eq:
  assumes "findTask i d = Some row"
  shows "task_result i t op d = Inr ((row, db_taskSequence d + 1), snd (appendTaskChange i t op d))"
  using assms by (simp add: task_result_def appendTaskChange_def findTask_def Let_def)

lemma updateTask_eq:
  assumes keys: "keys_ok d" and patch: "patch \<noteq> []"
  shows "updateTask i n patch op t d =
     (let matches = (\<lambda>t. t_id t = i \<and> t_revision t = n);
          change = (\<lambda>u. (fold apply_patch patch u)\<lparr>t_updatedAt := t, t_revision := t_revision u + 1\<rparr>);
          tasks = update_where matches change (db_tasks d)
      in case findTask i d of
           None \<Rightarrow> Inl (StaleRevision i (Some n) None)
         | Some row \<Rightarrow>
             if t_revision row \<noteq> n then Inl (StaleRevision i (Some n) (Some row))
             else if \<not> task_constraints tasks then Inl ConstraintViolation
             else Inr ((change row, db_taskSequence d + 1), snd (appendTaskChange i t op (d\<lparr>db_tasks := tasks\<rparr>))))"
proof -
  let ?P = "\<lambda>t. t_id t = i \<and> t_revision t = n"
  let ?f = "\<lambda>u. (fold apply_patch patch u)\<lparr>t_updatedAt := t, t_revision := t_revision u + 1\<rparr>"
  have changed: "rows_changed ?P (db_tasks d) = (case findTask i d of None \<Rightarrow> 0 | Some r \<Rightarrow> if t_revision r = n then 1 else 0)"
    unfolding findTask_def by (rule matching_row) (use keys in \<open>simp add: keys_ok_def\<close>)
  have found: "findTask i (d\<lparr>db_tasks := update_where ?P ?f (db_tasks d)\<rparr>)
      = map_option (\<lambda>r. if ?P r then ?f r else r) (findTask i d)"
    unfolding findTask_def by (simp, rule row_at_update) simp
  show ?thesis
  proof (cases "findTask i d")
    case None
    then show ?thesis using patch changed by (simp add: updateTask_def Let_def)
  next
    case (Some row)
    then have "t_id row = i" using row_at_Some by (fastforce simp: findTask_def)
    show ?thesis
    proof (cases "t_revision row = n")
      case True
      with Some found \<open>t_id row = i\<close> have
        "findTask i (d\<lparr>db_tasks := update_where ?P ?f (db_tasks d)\<rparr>) = Some (?f row)" by simp
      note r = task_result_eq [OF this, of t op]
      show ?thesis unfolding updateTask_def Let_def using Some True patch changed r by simp
    next
      case False
      with Some changed patch show ?thesis by (simp add: updateTask_def Let_def)
    qed
  qed
qed

lemma fold_apply_patch_revision [simp]: "t_revision (fold apply_patch ps t) = t_revision t"
  by (induction ps arbitrary: t) simp_all

text \<open>A write that succeeded has the next revision, and the rows of the other tasks are as they were.\<close>

lemma updateTask_success:
  assumes u: "updateTask i n patch op t d = Inr ((row, c), d')" and keys: "keys_ok d"
  obtains old where "findTask i d = Some old" "t_revision old = n"
    "row = (fold apply_patch patch old)\<lparr>t_updatedAt := t, t_revision := n + 1\<rparr>"
    "findTask i d' = Some row" "\<And>j. j \<noteq> i \<Longrightarrow> findTask j d' = findTask j d"
    "c = db_taskSequence d + 1" "db_taskSequence d' = c" "keys_ok d'"
proof -
  have patch: "patch \<noteq> []" using u by (auto simp: updateTask_def)
  let ?P = "\<lambda>t. t_id t = i \<and> t_revision t = n"
  let ?f = "\<lambda>u. (fold apply_patch patch u)\<lparr>t_updatedAt := t, t_revision := t_revision u + 1\<rparr>"
  let ?d = "d\<lparr>db_tasks := update_where ?P ?f (db_tasks d)\<rparr>"
  obtain old where old: "findTask i d = Some old" "t_revision old = n" "row = ?f old"
    "c = db_taskSequence d + 1" "d' = snd (appendTaskChange i t op ?d)"
    using u unfolding updateTask_eq [OF keys patch] Let_def by (auto split: option.splits if_splits)
  have id: "t_id old = i" using old(1) row_at_Some by (fastforce simp: findTask_def)
  have at: "findTask j ?d = map_option (\<lambda>r. if ?P r then ?f r else r) (findTask j d)" for j
    unfolding findTask_def by (simp, rule row_at_update) simp
  have "findTask j ?d = findTask j d" if "j \<noteq> i" for j
    unfolding at using that row_at_Some by (cases "findTask j d") (fastforce simp: findTask_def)+
  moreover have "keys_ok d'" using updateTask_logged [OF u] logged_keys keys by blast
  moreover have "db_taskSequence d' = c" unfolding old(4,5) by (simp add: appendTaskChange_def Let_def)
  ultimately show thesis
    using that [of old] old at [of i] id by simp
qed

lemma updateTask_stale:
  assumes "keys_ok d" and "findTask i d = Some row" and "t_revision row \<noteq> n" and "patch \<noteq> []"
  shows "updateTask i n patch op t d = Inl (StaleRevision i (Some n) (Some row))"
  unfolding updateTask_eq [OF assms(1,4)] Let_def using assms(2,3) by simp

section \<open>Labels of a task\<close>

lemma writeTaskLabels_success:
  assumes w: "writeTaskLabels i None ids op t d = Inr ((row, c), d')" and keys: "keys_ok d"
  obtains old where "findTask i d = Some old"
    "row = old\<lparr>t_labelIds := js_unique ids, t_updatedAt := t, t_revision := t_revision old + 1\<rparr>"
    "findTask i d' = Some row" "db_labels d' = db_labels d" "keys_ok d'"
proof -
  let ?P = "\<lambda>t. t_id t = i \<and> revision_matches None (t_revision t)"
  let ?f = "\<lambda>u. u\<lparr>t_labelIds := js_unique ids, t_updatedAt := t, t_revision := t_revision u + 1\<rparr>"
  let ?d = "d\<lparr>db_tasks := update_where ?P ?f (db_tasks d)\<rparr>"
  obtain old where old: "findTask i d = Some old" "task_result i t op ?d = Inr ((row, c), d')"
    using w by (auto simp: writeTaskLabels_def requireTaskForLabels_def Let_def split: if_splits option.splits sum.splits)
  have id: "t_id old = i" using old(1) row_at_Some by (fastforce simp: findTask_def)
  have "findTask i ?d = map_option (\<lambda>r. if ?P r then ?f r else r) (findTask i d)"
    unfolding findTask_def by (simp, rule row_at_update) simp
  then have f: "findTask i ?d = Some (?f old)" using old(1) id by (simp add: revision_matches_def)
  have d': "row = ?f old" "d' = snd (appendTaskChange i t op ?d)" using old(2) unfolding task_result_eq [OF f] by simp_all
  have "keys_ok d'" using writeTaskLabels_logged [OF w] logged_keys keys by blast
  with that [of old] old(1) d' f show thesis by (simp add: appendTaskChange_def findTask_def Let_def)
qed

lemma addTaskLabels_success:
  assumes a: "addTaskLabels i ids op t d = Inr ((row, c), d')" and keys: "keys_ok d"
    and old: "findTask i d = Some old" and dist: "distinct (t_labelIds old)"
  shows "t_labelIds row = t_labelIds old @ filter (\<lambda>l. l \<notin> set (t_labelIds old)) (js_unique ids) \<and>
    findTask i d' = Some row \<and> db_labels d' = db_labels d \<and> keys_ok d'"
proof (cases "filter (\<lambda>l. l \<notin> set (t_labelIds old)) (js_unique ids) = []")
  case True
  then have "row = old \<and> d' = d"
    using a old by (auto simp: addTaskLabels_def requireTaskForLabels_def Let_def split: option.splits)
  with True old keys show ?thesis by simp
next
  case False
  let ?new = "t_labelIds old @ filter (\<lambda>l. l \<notin> set (t_labelIds old)) (js_unique ids)"
  have w: "writeTaskLabels i None ?new op t d = Inr ((row, c), d')"
    using a old False by (simp add: addTaskLabels_def requireTaskForLabels_def Let_def)
  have "distinct ?new" using dist by auto
  then have u: "js_unique ?new = ?new" by (rule js_unique_id)
  from writeTaskLabels_success [OF w keys] obtain o' where
    "row = o'\<lparr>t_labelIds := js_unique ?new, t_updatedAt := t, t_revision := t_revision o' + 1\<rparr>"
    "findTask i d' = Some row" "db_labels d' = db_labels d" "keys_ok d'" by metis
  with u show ?thesis by simp
qed

lemma removeTaskLabels_success:
  assumes a: "removeTaskLabels i ids op t d = Inr ((row, c), d')" and keys: "keys_ok d"
    and old: "findTask i d = Some old" and dist: "distinct (t_labelIds old)"
  shows "t_labelIds row = filter (\<lambda>l. l \<notin> set ids) (t_labelIds old) \<and>
    findTask i d' = Some row \<and> db_labels d' = db_labels d \<and> keys_ok d'"
proof (cases "length (filter (\<lambda>l. l \<notin> set ids) (t_labelIds old)) = length (t_labelIds old)")
  case True
  then have "row = old \<and> d' = d" using a old by (simp add: removeTaskLabels_def requireTaskForLabels_def Let_def)
  moreover have "filter (\<lambda>l. l \<notin> set ids) (t_labelIds old) = t_labelIds old"
    using True by (metis filter_id_conv length_filter_less not_less_iff_gr_or_eq)
  ultimately show ?thesis using old keys by simp
next
  case False
  let ?new = "filter (\<lambda>l. l \<notin> set ids) (t_labelIds old)"
  have w: "writeTaskLabels i None ?new op t d = Inr ((row, c), d')"
    using a old False by (simp add: removeTaskLabels_def requireTaskForLabels_def Let_def)
  have "js_unique ?new = ?new" by (rule js_unique_id) (use dist in simp)
  moreover from writeTaskLabels_success [OF w keys] obtain o' where
    "row = o'\<lparr>t_labelIds := js_unique ?new, t_updatedAt := t, t_revision := t_revision o' + 1\<rparr>"
    "findTask i d' = Some row" "db_labels d' = db_labels d" "keys_ok d'" by metis
  ultimately show ?thesis by simp
qed

lemma writeTaskLabels_works:
  assumes old: "findTask i d = Some old" and "length ids \<le> MAX_TASK_LABELS"
    and "set ids \<subseteq> set (map l_id (db_labels d))"
  shows "\<exists>x d'. writeTaskLabels i None ids op t d = Inr (x, d')"
proof -
  let ?P = "\<lambda>t. t_id t = i \<and> revision_matches None (t_revision t)"
  let ?f = "\<lambda>u. u\<lparr>t_labelIds := js_unique ids, t_updatedAt := t, t_revision := t_revision u + 1\<rparr>"
  have k: "requireKnownLabels i ids d = (None :: task db_error option)" using assms(3) by (simp add: known_labels)
  have id: "t_id old = i" "old \<in> set (db_tasks d)" using old row_at_Some by (fastforce simp: findTask_def)+
  then have c: "rows_changed ?P (db_tasks d) \<noteq> 0" by (auto simp: rows_changed_0 revision_matches_def)
  have "findTask i (d\<lparr>db_tasks := update_where ?P ?f (db_tasks d)\<rparr>)
      = map_option (\<lambda>r. if ?P r then ?f r else r) (findTask i d)"
    unfolding findTask_def by (simp, rule row_at_update) simp
  then obtain row where "findTask i (d\<lparr>db_tasks := update_where ?P ?f (db_tasks d)\<rparr>) = Some row" using old by auto
  note r = task_result_eq [OF this, of t op]
  show ?thesis
    unfolding writeTaskLabels_def Let_def requireTaskForLabels_def old option.case sum.case k r using assms(2) c by simp
qed

text \<open>
  Adding labels and taking other labels off, in the one order or the other: when the additions can be
  made first they can be made last, and the task ends with the same labels in the same order.
\<close>

lemma add_remove_commute:
  assumes ok: "db_ok d" and a: "addTaskLabels i as op1 t1 d = Inr ((r1, c1), d1)"
    and r: "removeTaskLabels i bs op2 t2 d1 = Inr ((r2, c2), d2)" and disjoint: "set as \<inter> set bs = {}"
  shows "\<exists>s1 k1 e1 s2 k2 e2. removeTaskLabels i bs op2 t2 d = Inr ((s1, k1), e1) \<and>
    addTaskLabels i as op1 t1 e1 = Inr ((s2, k2), e2) \<and> t_labelIds s2 = t_labelIds r2"
proof -
  have keys: "keys_ok d" and rows: "rows_ok d" using ok by (simp_all add: db_ok_def)
  obtain old where old: "findTask i d = Some old"
    using a by (auto simp: addTaskLabels_def requireTaskForLabels_def split: option.splits)
  have "old \<in> set (db_tasks d)" using old row_at_Some by (fastforce simp: findTask_def)
  then have lok: "task_labels_ok (set (map l_id (db_labels d))) old" using rows by (simp add: rows_ok_def list_all_iff)
  let ?L = "t_labelIds old" and ?keep = "filter (\<lambda>l. l \<notin> set bs)"
  let ?A = "filter (\<lambda>l. l \<notin> set ?L) (js_unique as)"
  have L: "distinct ?L" "length ?L \<le> MAX_TASK_LABELS" "set ?L \<subseteq> set (map l_id (db_labels d))"
    using lok by (simp_all add: task_labels_ok_def)
  note add = addTaskLabels_success [OF a keys old L(1)]
  have "distinct (t_labelIds r1)" using add L(1) by auto
  note remove = removeTaskLabels_success [OF r _ _ this]
  have r2: "t_labelIds r2 = ?keep ?L @ ?A"
  proof -
    have "?keep ?A = ?A" by (rule filter_True) (use disjoint in auto)
    moreover have "t_labelIds r2 = ?keep (t_labelIds r1)" using remove add by blast
    ultimately show ?thesis unfolding conjunct1 [OF add] filter_append by (simp only:)
  qed
  have size: "length (?L @ ?A) \<le> MAX_TASK_LABELS \<and> set as \<subseteq> set (map l_id (db_labels d))"
  proof (cases "?A = []")
    case True
    have "set as \<subseteq> set ?L" using True by (auto simp: filter_empty_conv)
    with L True show ?thesis by auto
  next
    case False
    then have "writeTaskLabels i None (?L @ ?A) op1 t1 d = Inr ((r1, c1), d1)"
      using a old by (simp add: addTaskLabels_def requireTaskForLabels_def Let_def)
    then have "length (?L @ ?A) \<le> MAX_TASK_LABELS" "requireKnownLabels i (?L @ ?A) d = (None :: task db_error option)"
      by (auto simp: writeTaskLabels_def Let_def split: if_splits sum.splits option.splits)
    then show ?thesis by (auto simp: known_labels)
  qed
  have "\<exists>x e. removeTaskLabels i bs op2 t2 d = Inr (x, e)"
  proof -
    have "set (?keep ?L) \<subseteq> set (map l_id (db_labels d))" using L(3) by auto
    from writeTaskLabels_works [OF old le_trans [OF length_filter_le L(2)] this]
    show ?thesis by (simp add: removeTaskLabels_def requireTaskForLabels_def old Let_def)
  qed
  then obtain s1 k1 e1 where s1: "removeTaskLabels i bs op2 t2 d = Inr ((s1, k1), e1)" by auto
  note removed = removeTaskLabels_success [OF s1 keys old L(1)]
  let ?A' = "filter (\<lambda>l. l \<notin> set (t_labelIds s1)) (js_unique as)"
  have A': "?A' = ?A"
    by (rule filter_cong) (use removed disjoint in auto)
  have "\<exists>x e. addTaskLabels i as op1 t1 e1 = Inr (x, e)"
  proof (cases "?A' = []")
    case True
    have "requireKnownLabels i (js_unique as) e1 = (None :: task db_error option)"
      using size removed by (simp add: known_labels)
    with True removed show ?thesis by (simp add: addTaskLabels_def requireTaskForLabels_def Let_def)
  next
    case False
    have "length (t_labelIds s1) \<le> length ?L" using removed by simp
    then have "length (t_labelIds s1 @ ?A') \<le> MAX_TASK_LABELS" using size unfolding A' by simp
    moreover have "set (t_labelIds s1 @ ?A') \<subseteq> set (map l_id (db_labels e1))" using size removed L(3) by auto
    ultimately show ?thesis
      using writeTaskLabels_works [of i e1 s1 "t_labelIds s1 @ ?A'" op1 t1] removed False
      by (simp add: addTaskLabels_def requireTaskForLabels_def Let_def)
  qed
  then obtain s2 k2 e2 where s2: "addTaskLabels i as op1 t1 e1 = Inr ((s2, k2), e2)" by auto
  have "t_labelIds s2 = t_labelIds s1 @ ?A'"
    using addTaskLabels_success [OF s2, of s1] removed L(1) by simp
  then have "t_labelIds s2 = t_labelIds r2" unfolding A' r2 using removed by simp
  with s1 s2 show ?thesis by blast
qed

section \<open>Projects in a new order\<close>

definition assigned :: "int \<Rightarrow> project_assignment \<Rightarrow> project \<Rightarrow> project" where
  "assigned now a p = p\<lparr>p_sortOrder := pa_sortOrder a, p_updatedAt := now, p_revision := p_revision p + 1\<rparr>"

definition reordered :: "int \<Rightarrow> project_assignment list \<Rightarrow> laborer_db \<Rightarrow> string \<Rightarrow> project option" where
  "reordered now as d i =
     (case find (\<lambda>a. pa_projectId a = i) as of
        None \<Rightarrow> findProject i d
      | Some a \<Rightarrow> map_option (assigned now a) (findProject i d))"

lemma assign_ranks_all:
  assumes "keys_ok d" and "distinct (map pa_projectId as)" and "\<forall>a\<in>set as. \<not> stale_assignment d a"
  shows "\<exists>d'. assign_ranks as op t d = Inr d' \<and> (\<forall>i. findProject i d' = reordered t as d i) \<and>
    db_stateSequence d' = db_stateSequence d + int (length as)"
  using assms
proof (induction as arbitrary: d)
  case (Cons a as)
  let ?P = "\<lambda>p. p_id p = pa_projectId a \<and> p_revision p = pa_expectedRevision a"
  let ?f = "\<lambda>p. p\<lparr>p_sortOrder := pa_sortOrder a, p_updatedAt := t, p_revision := p_revision p + 1\<rparr>"
  let ?d = "d\<lparr>db_projects := update_where ?P ?f (db_projects d)\<rparr>"
  let ?d1 = "snd (appendStateChange Projects (pa_projectId a) t (Some op) ?d)"
  obtain p where p: "findProject (pa_projectId a) d = Some p" "p_revision p = pa_expectedRevision a"
    using Cons.prems(3) by (auto simp: stale_assignment_def split: option.splits)
  have pid: "p_id p = pa_projectId a" using p(1) row_at_Some by (fastforce simp: findProject_def)
  have changed: "rows_changed ?P (db_projects d) = 1"
    using matching_row [of p_id "db_projects d" "pa_projectId a" "\<lambda>p. p_revision p = pa_expectedRevision a"]
      Cons.prems(1) p by (simp add: keys_ok_def findProject_def)
  have f1: "findProject i ?d1 = map_option (\<lambda>r. if ?P r then ?f r else r) (findProject i d)" for i
  proof -
    have "findProject i ?d1 = row_at p_id (update_where ?P ?f (db_projects d)) i"
      by (simp add: findProject_def appendStateChange_def Let_def)
    also have "\<dots> = map_option (\<lambda>r. if ?P r then ?f r else r) (findProject i d)"
      unfolding findProject_def by (rule row_at_update) simp
    finally show ?thesis .
  qed
  have other: "findProject i ?d1 = findProject i d" if "i \<noteq> pa_projectId a" for i
    unfolding f1 using that row_at_Some by (cases "findProject i d") (fastforce simp: findProject_def)+
  have here: "findProject (pa_projectId a) ?d1 = Some (assigned t a p)"
    unfolding f1 using p pid by (simp add: assigned_def)
  have "touches d ?d {StateKey Projects (pa_projectId a)}" by (rule touches_update_projects) simp_all
  then have k1: "keys_ok ?d1" using touches_state_logged logged_keys Cons.prems(1) by blast
  have "\<forall>b\<in>set as. \<not> stale_assignment ?d1 b"
    using Cons.prems(2,3) other by (auto simp: stale_assignment_def image_iff)
  with Cons.IH [OF k1] Cons.prems(2) obtain d' where d': "assign_ranks as op t ?d1 = Inr d'"
    "\<And>i. findProject i d' = reordered t as ?d1 i"
    "db_stateSequence d' = db_stateSequence ?d1 + int (length as)" by auto
  have "db_stateSequence ?d1 = db_stateSequence d + 1" by (simp add: appendStateChange_def Let_def)
  moreover have "assign_ranks (a # as) op t d = Inr d'" using changed d'(1) by (simp add: Let_def)
  moreover have "reordered t as ?d1 i = reordered t (a # as) d i" for i
  proof (cases "i = pa_projectId a")
    case True
    then have "find (\<lambda>a. pa_projectId a = i) as = None"
      using Cons.prems(2) by (auto simp: find_None_iff image_iff)
    with True here p show ?thesis by (simp add: reordered_def)
  next
    case False
    then show ?thesis unfolding reordered_def other [OF False] by simp
  qed
  ultimately show ?case using d'(2,3) by auto
qed (simp add: reordered_def)

lemma reorder_succeeds:
  assumes "keys_ok d" and "as \<noteq> []" and "distinct (map pa_projectId as)" and "\<forall>a\<in>set as. \<not> stale_assignment d a"
  shows "\<exists>rows d'. reorderProjects as op t d = Inr ((rows, db_stateSequence d + int (length as)), d') \<and>
    map Some rows = map (\<lambda>a. findProject (pa_projectId a) d') as \<and> (\<forall>i. findProject i d' = reordered t as d i)"
proof -
  obtain d' where d': "assign_ranks as op t d = Inr d'" "\<And>i. findProject i d' = reordered t as d i"
    "db_stateSequence d' = db_stateSequence d + int (length as)"
    using assign_ranks_all [OF assms(1,3,4)] by blast
  have none: "find (stale_assignment d) as = None" using assms(4) by (simp add: find_None_iff)
  have "findProject (pa_projectId a) d' \<noteq> None" if "a \<in> set as" for a
    using assms(4) that unfolding d'(2) reordered_def stale_assignment_def by (auto split: option.splits)
  then have "map Some (List.map_filter (\<lambda>a. findProject (pa_projectId a) d') as) = map (\<lambda>a. findProject (pa_projectId a) d') as"
    by (induction as) (auto simp: List.map_filter_simps split: option.splits)
  with d' none assms(2,3) show ?thesis by (simp add: reorderProjects_def)
qed

section \<open>Replayed requests\<close>

lemma sort_key_snoc_least:
  "(\<And>y. y \<in> set xs \<Longrightarrow> f x < f y) \<Longrightarrow> sort_key f (xs @ [x]) = x # sort_key f xs"
proof (induction xs)
  case (Cons y ys)
  then have "sort_key f (ys @ [x]) = x # sort_key f ys" "f x < f y" by simp_all
  then show ?case by (auto simp: sort_key_def)
qed simp

lemma sort_key_snoc_greatest:
  "(\<And>y. y \<in> set xs \<Longrightarrow> f y < f x) \<Longrightarrow> sort_key f (xs @ [x]) = sort_key f xs @ [x]"
proof (induction xs)
  case (Cons y ys)
  have "insort_key f y (zs @ [x]) = insort_key f y zs @ [x]" if "f y < f x" for zs
    using that by (induction zs) auto
  with Cons show ?case by (simp add: sort_key_def)
qed simp

lemma state_result_parts:
  assumes "state_result f T i t op d = Inr ((row, c), d')"
  shows "f d' = Some row" "d' = snd (appendStateChange T i t op d)" "c = db_stateSequence d + 1"
  using assms by (auto simp: state_result_def appendStateChange_def Let_def split: option.splits)

text \<open>A project whose insertion carried an operation id is found by it.\<close>

lemma insertProject_replay:
  assumes a: "insertProject input (Some op) t d = Inr ((row, c), d')" and ok: "ledger_ok d"
  shows "findProjectByOperationId op d' = Some row"
proof (cases "findProjectByOperationId op d")
  case (Some r)
  with a show ?thesis by (simp add: insertProject_def)
next
  case None
  with a obtain rows where r: "state_result (findProject (np_id input)) Projects (np_id input) t (Some op)
      (d\<lparr>db_projects := rows\<rparr>) = Inr ((row, c), d')"
    by (auto simp: insertProject_def Let_def split: if_splits)
  note p = state_result_parts [OF r]
  define change where "change = \<lparr>sc_changedAt = t, sc_operationId = Some op, sc_rowId = np_id input,
    sc_sequence = db_stateSequence d + 1, sc_tableName = Projects\<rparr>"
  have changes: "db_stateChanges d' = db_stateChanges d @ [change]"
    unfolding p(2) by (simp add: appendStateChange_def Let_def change_def)
  have "sc_sequence e < sc_sequence change" if "e \<in> set (db_stateChanges d)" for e
    using ok numbered_mem [of sc_sequence 0 "db_stateChanges d" e] that by (simp add: ledger_ok_def change_def)
  then have "sort_key (\<lambda>c. - sc_sequence c) (db_stateChanges d')
      = change # sort_key (\<lambda>c. - sc_sequence c) (db_stateChanges d)"
    unfolding changes by (intro sort_key_snoc_least) simp
  then show ?thesis
    using p(1) by (simp add: findProjectByOperationId_def change_def List.map_filter_simps)
qed

lemma insertProject_idempotent:
  assumes "insertProject input (Some op) t d = Inr ((row, c), d')" and "ledger_ok d"
  shows "insertProject again (Some op) t' d' = Inr ((row, stateCursor d'), d')"
  using insertProject_replay [OF assms] by (simp add: insertProject_def)

lemma createLabel_row:
  assumes "createLabel ulid input op t d = Inr ((row, c), d')"
  shows "findLabel (case nl_id input of None \<Rightarrow> ulid | Some i \<Rightarrow> i) d' = Some row"
  using assms by (auto simp: createLabel_def Let_def split: option.splits dest: state_result_parts(1))

lemma createLabel_idempotent:
  assumes a: "createLabel ulid input op t d = Inr ((row, c), d')" and i: "nl_id input = Some i"
    and again: "nl_id again = Some i" "labelName (nl_name again) \<noteq> None"
  shows "createLabel ulid' again op' t' d' = Inr ((row, stateCursor d'), d')"
  using createLabel_row [OF a] i again by (auto simp: createLabel_def)

section \<open>Replies\<close>

lemma threads_appended [simp]:
  "findReviewCommentThread i (snd (appendStateChange T j t op d)) = findReviewCommentThread i d"
  by (simp add: findReviewCommentThread_def read_thread_def reviewCommentReplies_def appendStateChange_def Let_def)

lemma last_sorted:
  assumes "xs \<noteq> []" and "x \<in> set xs"
  shows "f x \<le> f (last (sort_key f xs))"
proof -
  have s: "sorted (map f (sort_key f xs))" by simp
  have ne: "sort_key f xs \<noteq> []" using assms(1) by (metis length_0_conv length_sort)
  obtain k where k: "k < length (sort_key f xs)" "x = sort_key f xs ! k"
    using assms(2) by (metis in_set_conv_nth set_sort)
  from sorted_nth_mono [OF s, of k "length (sort_key f xs) - 1"] k ne show ?thesis
    by (simp add: last_conv_nth)
qed

text \<open>Without a time of its own, a reply goes behind those that are there, whatever the clock says.\<close>

lemma reply_goes_last:
  assumes a: "appendReviewCommentReply ulid input author op now d = Inr ((row, c), d')"
    and time: "nr_createdAt input = None" and fresh: "d' \<noteq> d"
    and old: "findReviewCommentThread (nr_threadId input) d = Some thread"
  obtains r where "ct_replies row = ct_replies thread @ [r]" "ct_row row = ct_row thread"
    "r_author r = author" "reviewCommentBody (nr_body input) = Some (r_body r)"
    "\<And>s. s \<in> set (ct_replies thread) \<Longrightarrow> r_createdAt s < r_createdAt r" "now \<le> r_createdAt r"
proof -
  let ?i = "nr_threadId input"
  let ?previous = "if ct_replies thread = [] then th_createdAt (ct_row thread) else r_createdAt (last (ct_replies thread))"
  obtain body where b: "reviewCommentBody (nr_body input) = Some body"
    using a by (auto simp: appendReviewCommentReply_def split: option.splits)
  define r where "r = \<lparr>r_author = author, r_body = body, r_createdAt = max now (?previous + 1),
    r_id = (case nr_id input of None \<Rightarrow> ulid | Some i \<Rightarrow> i), r_threadId = ?i\<rparr>"
  obtain d1 where d1: "insert_reply r d = Some d1"
    "state_result (findReviewCommentThread ?i) ReviewThreads ?i (max now (?previous + 1)) op d1 = Inr ((row, c), d')"
    using a fresh unfolding appendReviewCommentReply_def b option.case Let_def old time
    by (auto simp: r_def split: option.splits if_splits)
  note p = state_result_parts [OF d1(2)]
  obtain th where th: "row_at th_id (db_threads d) ?i = Some th" "thread = read_thread d th"
    using old by (auto simp: findReviewCommentThread_def)
  have tid: "th_id th = ?i" using th(1) row_at_Some by fastforce
  have "findReviewCommentThread ?i d1 = Some (read_thread d1 th)"
    using th(1) insert_reply_rows [OF d1(1)] by (simp add: findReviewCommentThread_def)
  with p(1,2) have row: "row = read_thread d1 th" by simp
  let ?key = "\<lambda>r. (r_createdAt r, r_id r)" and ?mine = "filter (\<lambda>r. r_threadId r = ?i) (db_replies d)"
  have chain: "ct_replies thread = sort_key ?key ?mine" by (simp add: th(2) read_thread_def reviewCommentReplies_def tid)
  have before: "r_createdAt s < r_createdAt r" if "s \<in> set (ct_replies thread)" for s
  proof -
    have "s \<in> set ?mine" using that unfolding chain by simp
    moreover from this have "?mine \<noteq> []" by (metis empty_iff list.set(1))
    moreover have "ct_replies thread \<noteq> []" using that by (metis empty_iff list.set(1))
    ultimately have "r_createdAt s \<le> r_createdAt (last (ct_replies thread))" "ct_replies thread \<noteq> []"
      using last_sorted [of ?mine s ?key] unfolding chain by (auto simp: less_eq_prod_def)
    then show ?thesis by (simp add: r_def)
  qed
  have "sort_key ?key (?mine @ [r]) = sort_key ?key ?mine @ [r]"
    by (rule sort_key_snoc_greatest) (use before chain in \<open>auto simp: less_prod_def\<close>)
  then have "ct_replies row = ct_replies thread @ [r]"
    using insert_reply_rows [OF d1(1)] by (simp add: row chain read_thread_def reviewCommentReplies_def tid r_def)
  then show thesis
    by (rule that) (use before b in \<open>simp_all add: row th(2) read_thread_def r_def\<close>)
qed

section \<open>The parent of a deleted task\<close>

text \<open>
  Its children lose their parent without a change of theirs in the ledger, so the update a copy reads
  afterwards does not mention them.
\<close>

lemma deleted_parent:
  assumes a: "deleteTask i n op t d = Inr (x, d')" and ok: "keys_ok d" "ledger_ok d"
    and child: "findTask j d = Some child" "t_parentTaskId child = Some i" "j \<noteq> i"
  shows "findTask j d' = Some (child\<lparr>t_parentTaskId := None\<rparr>)"
    and "\<exists>u. taskUpdateAfter (db_taskSequence d) d' = Inr (Some u) \<and> copy_delta t_id u (\<lambda>k. findTask k d) j = Some child"
proof -
  let ?P = "\<lambda>t. t_id t = i \<and> t_revision t = n"
  let ?gone = "\<lambda>t. case t_parentTaskId t of None \<Rightarrow> False | Some p \<Rightarrow> p \<in> set (map t_id (filter ?P (db_tasks d)))"
  have dist: "distinct (map t_id (db_tasks d))" using ok(1) by (simp add: keys_ok_def)
  obtain row where row: "findTask i d = Some row" "rows_changed ?P (db_tasks d) \<noteq> 0"
    and d': "d' = snd (appendTaskChange i t op (d\<lparr>db_tasks := delete_task_rows ?P (db_tasks d)\<rparr>))"
    using a by (auto simp: deleteTask_def Let_def split: option.splits if_splits prod.splits)
  have at: "findTask k d' = map_option (\<lambda>t. if ?gone t then t\<lparr>t_parentTaskId := None\<rparr> else t)
      (row_at t_id (delete_where ?P (db_tasks d)) k)" for k
    unfolding d' findTask_appended by (simp add: findTask_def delete_task_rows_def, rule row_at_update) simp
  obtain p where "p \<in> set (db_tasks d)" "?P p" using row(2) by (auto simp: rows_changed_0)
  then have "i \<in> set (map t_id (filter ?P (db_tasks d)))" by force
  moreover have "t_id child = j" using child(1) row_at_Some by (fastforce simp: findTask_def)
  ultimately show "findTask j d' = Some (child\<lparr>t_parentTaskId := None\<rparr>)"
    unfolding at row_at_delete [OF dist] using child by (simp add: findTask_def)
  let ?c = "\<lparr>tc_changedAt = t, tc_operationId = op, tc_sequence = db_taskSequence d + 1, tc_taskId = i\<rparr>"
  have c: "db_taskChanges d' = db_taskChanges d @ [?c]" unfolding d' by (simp add: appendTaskChange_def Let_def)
  have "taskUpdateAfter (db_taskSequence d) d' = Inr (Some (table_delta (\<lambda>i. findTask i d') t_id (tc_sequence ?c) [i] [op]))"
    using taskUpdateAfter_eq [OF c _ ok(2)] by (simp add: numbered_def MAX_LEDGER_READ_def)
  moreover have "copy_delta t_id (table_delta (\<lambda>i. findTask i d') t_id k [i] [op]) (\<lambda>k. findTask k d) j = Some child" for k
  proof -
    have "t_id r = i" if "findTask i d' = Some r" for r using that row_at_Some by (fastforce simp: findTask_def)
    then have "j \<notin> t_id ` set (tu_rows (table_delta (\<lambda>i. findTask i d') t_id k [i] [op]))"
      using child(3) by (auto simp: table_delta_def List.map_filter_simps Let_def split: option.splits)
    then show ?thesis
      using child(1,3) by (simp add: copy_delta_def copy_rows_outside fold_remove) (simp add: table_delta_def Let_def)
  qed
  ultimately show "\<exists>u. taskUpdateAfter (db_taskSequence d) d' = Inr (Some u) \<and> copy_delta t_id u (\<lambda>k. findTask k d) j = Some child"
    by blast
qed

end
