(* ===== verification/Shared_Facts.thy ===== *)
theory Shared_Facts
  imports Shared_State
begin

text \<open>
  The client's copy. Unless the reader knows that it owes a snapshot, the client will have, once it
  has taken what is in the queue, an exact copy of a database the system went through, and the
  reader's cursors are those of the copy.
\<close>

section \<open>Snapshots are exact\<close>

lemma snapshot_parts:
  assumes "snapshot d = Some s"
  shows "mset (ds_labels s) = mset (db_labels d)" "mset (ds_projects s) = mset (db_projects d)"
    "mset (ds_settings s) = mset (db_settings d)" "mset (ds_tasks s) = mset (db_tasks d)"
    "mset (ds_reviewComments s) = mset (map (read_thread d) (db_threads d))"
    "ds_stateCursor s = stateCursor d" "ds_taskCursor s = taskCursor d"
  using assms
  by (auto simp: snapshot_def listLabels_def listProjects_def listSettings_def listTasks_def
      listAllReviewCommentThreads_def split: sum.splits dest!: boundedRows_Inr boundedRows_Suc)

lemma thread_rows: "row_at (th_id \<circ> ct_row) (map (read_thread d) rows) i = map_option (read_thread d) (row_at th_id rows i)"
  by (induction rows) (simp_all add: row_at_def read_thread_def)

lemma snapshot_copies:
  assumes s: "snapshot d = Some s" and ok: "keys_ok d"
  shows "copy_rows l_id (ds_labels s) (\<lambda>_. None) = (\<lambda>i. findLabel i d)"
    "copy_rows p_id (ds_projects s) (\<lambda>_. None) = (\<lambda>i. findProject i d)"
    "copy_rows s_key (ds_settings s) (\<lambda>_. None) = (\<lambda>i. findSetting i d)"
    "copy_rows t_id (ds_tasks s) (\<lambda>_. None) = (\<lambda>i. findTask i d)"
    "copy_rows (th_id \<circ> ct_row) (ds_reviewComments s) (\<lambda>_. None) = (\<lambda>i. findReviewCommentThread i d)"
proof -
  note p = snapshot_parts [OF s] and k = ok [unfolded keys_ok_def]
  show "copy_rows l_id (ds_labels s) (\<lambda>_. None) = (\<lambda>i. findLabel i d)"
    by (subst snapshot_exact [OF _ p(1)]) (use k in \<open>simp_all add: findLabel_def\<close>)
  show "copy_rows p_id (ds_projects s) (\<lambda>_. None) = (\<lambda>i. findProject i d)"
    by (subst snapshot_exact [OF _ p(2)]) (use k in \<open>simp_all add: findProject_def\<close>)
  show "copy_rows s_key (ds_settings s) (\<lambda>_. None) = (\<lambda>i. findSetting i d)"
    by (subst snapshot_exact [OF _ p(3)]) (use k in \<open>simp_all add: findSetting_def\<close>)
  show "copy_rows t_id (ds_tasks s) (\<lambda>_. None) = (\<lambda>i. findTask i d)"
    by (subst snapshot_exact [OF _ p(4)]) (use k in \<open>simp_all add: findTask_def\<close>)
  have "th_id \<circ> ct_row \<circ> read_thread d = th_id" by (simp add: fun_eq_iff read_thread_def)
  then have "distinct (map (th_id \<circ> ct_row) (map (read_thread d) (db_threads d)))"
    using k by (simp only: map_map)
  from snapshot_exact [OF this p(5)] show
    "copy_rows (th_id \<circ> ct_row) (ds_reviewComments s) (\<lambda>_. None) = (\<lambda>i. findReviewCommentThread i d)"
    unfolding thread_rows by (simp add: fun_eq_iff thread_rows findReviewCommentThread_def)
qed

lemma snapshot_mirrors:
  assumes "snapshot d = Some s" and "keys_ok d" and "ledger_ok d"
  shows "mirrors (apply_update (snapshotUpdate s) c) d d"
  using snapshot_copies [OF assms(1,2)] snapshot_parts(6,7) [OF assms(1)] assms(3)
  by (simp add: mirrors_def apply_update_def snapshotUpdate_def applyTable_def taskCursor_ok stateCursor_ok)

section \<open>Deltas keep the copy exact\<close>

definition good :: "laborer_db \<Rightarrow> bool" where
  "good d \<longleftrightarrow> keys_ok d \<and> ledger_ok d"

lemma good_logged: "logged d d' \<Longrightarrow> good d \<Longrightarrow> good d'"
  using logged_keys logged_ledger_ok by (auto simp: good_def)

lemma no_message [simp]: "applyTable key None t = t"
  by (simp add: applyTable_def)

lemma delta_message:
  "cl_cursor t < tu_cursor u \<Longrightarrow> cl_rows (applyTable key (Some (DeltaRows u)) t) = copy_delta key u (cl_rows t) \<and>
     cl_cursor (applyTable key (Some (DeltaRows u)) t) = tu_cursor u"
  by (simp add: applyTable_def)

lemma emitDeltas_mirrors:
  assumes e: "emitDeltas accepted d1 d2 rd = Some (rd', out)"
    and c: "mirrors c dt ds" and cur: "rd_taskCursor rd = db_taskSequence dt" "rd_stateCursor rd = db_stateSequence ds"
    and good: "good dt" "good ds" and l: "logged dt d1" "logged ds d2"
    and req: "\<not> rd_snapshotRequired rd"
  shows "rd_snapshotRequired rd' \<or>
    mirrors (fold apply_update out c) d1 d2 \<and> rd_taskCursor rd' = db_taskSequence d1 \<and>
      rd_stateCursor rd' = db_stateSequence d2"
proof -
  have ok: "ledger_ok dt" "ledger_ok ds" using good by (simp_all add: good_def)
  obtain tasks state where ts: "taskUpdateAfter (db_taskSequence dt) d1 = Inr tasks"
    "stateUpdatesAfter (db_stateSequence ds) d2 = Inr state"
    using e by (auto simp: emitDeltas_def cur split: sum.splits prod.splits)
  let ?c = "case deltaUpdate tasks state of None \<Rightarrow> c | Some u \<Rightarrow> apply_update u c"
  have out: "rd_snapshotRequired rd' \<or> fold apply_update out c = ?c"
    and rd': "rd_taskCursor rd' = (case tasks of None \<Rightarrow> rd_taskCursor rd | Some u \<Rightarrow> tu_cursor u)"
      "rd_stateCursor rd' = (case state of None \<Rightarrow> rd_stateCursor rd | Some u \<Rightarrow> tu_cursor (su_projects u))"
    using e ts by (auto simp: emitDeltas_def cur Let_def split: option.splits if_splits)
  note m = c [unfolded mirrors_def]
  have t: "cl_rows (applyTable t_id (map_option DeltaRows tasks) (cl_tasks c)) = (\<lambda>i. findTask i d1) \<and>
      cl_cursor (applyTable t_id (map_option DeltaRows tasks) (cl_tasks c)) = db_taskSequence d1 \<and>
      (case tasks of None \<Rightarrow> rd_taskCursor rd | Some u \<Rightarrow> tu_cursor u) = db_taskSequence d1"
    using l(1) ok(1)
  proof (cases rule: taskUpdateAfter_cases)
    case gap
    with ts show ?thesis by simp
  next
    case none
    with ts m cur show ?thesis by simp
  next
    case (delta u)
    moreover from delta(1) ts have "tasks = Some u" by simp
    ultimately show ?thesis using m by (simp add: delta_message)
  qed
  have s: "cl_rows (applyTable l_id (map_option (DeltaRows \<circ> su_labels) state) (cl_labels c)) = (\<lambda>i. findLabel i d2) \<and>
      cl_cursor (applyTable l_id (map_option (DeltaRows \<circ> su_labels) state) (cl_labels c)) = db_stateSequence d2 \<and>
      cl_rows (applyTable p_id (map_option (DeltaRows \<circ> su_projects) state) (cl_projects c)) = (\<lambda>i. findProject i d2) \<and>
      cl_cursor (applyTable p_id (map_option (DeltaRows \<circ> su_projects) state) (cl_projects c)) = db_stateSequence d2 \<and>
      cl_rows (applyTable s_key (map_option (DeltaRows \<circ> su_settings) state) (cl_settings c)) = (\<lambda>i. findSetting i d2) \<and>
      cl_cursor (applyTable s_key (map_option (DeltaRows \<circ> su_settings) state) (cl_settings c)) = db_stateSequence d2 \<and>
      cl_rows (applyTable (th_id \<circ> ct_row) (map_option (DeltaRows \<circ> su_reviewComments) state) (cl_reviewComments c))
        = (\<lambda>i. findReviewCommentThread i d2) \<and>
      cl_cursor (applyTable (th_id \<circ> ct_row) (map_option (DeltaRows \<circ> su_reviewComments) state) (cl_reviewComments c))
        = db_stateSequence d2 \<and>
      (case state of None \<Rightarrow> rd_stateCursor rd | Some u \<Rightarrow> tu_cursor (su_projects u)) = db_stateSequence d2"
    using l(2) ok(2)
  proof (cases rule: stateUpdatesAfter_cases)
    case gap
    with ts show ?thesis by simp
  next
    case none
    with ts m cur show ?thesis by simp
  next
    case (delta u)
    moreover from delta(1) ts have "state = Some u" by simp
    ultimately show ?thesis using m by (simp add: delta_message)
  qed
  have "mirrors ?c d1 d2"
  proof (cases "deltaUpdate tasks state")
    case None
    then have "tasks = None" "state = None" by (simp_all add: deltaUpdate_def split: if_splits)
    with t s None show ?thesis by (simp add: mirrors_def)
  next
    case (Some u)
    then show ?thesis using t s by (auto simp: mirrors_def apply_update_def deltaUpdate_def split: if_splits)
  qed
  with out rd' t s show ?thesis by auto
qed

section \<open>The invariant of the system\<close>

text \<open>Everything the system holds was written since the start, and is good.\<close>

lemma writes_logged: "db_write\<^sup>*\<^sup>* d d' \<Longrightarrow> good d \<Longrightarrow> logged d d'"
  using db_writes_logged by (simp add: good_def)

lemma writes_good: "db_write\<^sup>*\<^sup>* d d' \<Longrightarrow> good d \<Longrightarrow> good d'"
  using writes_logged good_logged by blast

definition mirrors_past :: "laborer_db \<Rightarrow> laborer_db \<Rightarrow> reader \<Rightarrow> client \<Rightarrow> bool" where
  "mirrors_past d0 d rd c \<longleftrightarrow>
     (\<exists>dt ds. db_write\<^sup>*\<^sup>* d0 dt \<and> db_write\<^sup>*\<^sup>* dt d \<and> db_write\<^sup>*\<^sup>* d0 ds \<and> db_write\<^sup>*\<^sup>* ds d \<and> mirrors c dt ds \<and>
        rd_taskCursor rd = db_taskSequence dt \<and> rd_stateCursor rd = db_stateSequence ds)"

definition sync_inv :: "laborer_db \<Rightarrow> sync \<Rightarrow> bool" where
  "sync_inv d0 s \<longleftrightarrow> db_write\<^sup>*\<^sup>* d0 (sy_db s) \<and>
     (\<not> rd_snapshotRequired (sy_reader s) \<longrightarrow>
       mirrors_past d0 (sy_db s) (sy_reader s) (fold apply_update (sy_queue s) (sy_client s)))"

lemma mirrors_past_later: "mirrors_past d0 d rd c \<Longrightarrow> db_write\<^sup>*\<^sup>* d d' \<Longrightarrow> mirrors_past d0 d' rd c"
  unfolding mirrors_past_def using rtranclp_trans by metis

lemma emitSnapshot_mirrors:
  assumes "emitSnapshot accepted d rd = Some (rd', out)" and "good d" and "\<not> rd_snapshotRequired rd'"
  shows "mirrors (fold apply_update (q @ out) c) d d \<and> rd_taskCursor rd' = db_taskSequence d \<and>
    rd_stateCursor rd' = db_stateSequence d"
proof -
  obtain s where s: "snapshot d = Some s" "rd' = \<lparr>rd_taskCursor = ds_taskCursor s, rd_stateCursor = ds_stateCursor s,
      rd_snapshotRequired = False\<rparr>" "out = [snapshotUpdate s]"
    using assms(1,3) by (auto simp: emitSnapshot_def split: option.splits if_splits)
  then show ?thesis
    using assms(2) snapshot_mirrors [OF s(1)] snapshot_parts(6,7) [OF s(1)]
    by (simp add: good_def taskCursor_ok stateCursor_ok)
qed

lemma readOnce_mirrors:
  assumes inv: "sync_inv d0 s" and good: "good d0"
    and w: "db_write\<^sup>*\<^sup>* (sy_db s) d1" "db_write\<^sup>*\<^sup>* d1 d2" "db_write\<^sup>*\<^sup>* d2 d3"
    and r: "readOnce accepted d1 d2 d3 (sy_reader s) = Some (rd, out)" and req: "\<not> rd_snapshotRequired rd"
  obtains dt ds where "dt \<in> {d1, d3}" "ds \<in> {d1, d2, d3}"
    "mirrors (fold apply_update (sy_queue s @ out) (sy_client s)) dt ds"
    "rd_taskCursor rd = db_taskSequence dt" "rd_stateCursor rd = db_stateSequence ds"
proof -
  have ok: "good (sy_db s)" "good d1" "good d2" "good d3"
    using inv w good writes_good by (auto simp: sync_inv_def)
  note snap = emitSnapshot_mirrors [OF _ _ req]
  consider (snapshot) d where "d \<in> {d1, d3}" "emitSnapshot accepted d (sy_reader s) = Some (rd, out)"
    | (deltas) "\<not> rd_snapshotRequired (sy_reader s)" "emitDeltas accepted d1 d2 (sy_reader s) = Some (rd, out)"
    using r by (auto simp: readOnce_def split: option.splits if_splits)
  then show thesis
  proof cases
    case (snapshot d)
    with snap [of accepted d "sy_reader s" out] ok that [of d d] show thesis by auto
  next
    case deltas
    then obtain dt ds where m: "db_write\<^sup>*\<^sup>* d0 dt" "db_write\<^sup>*\<^sup>* d0 ds" "db_write\<^sup>*\<^sup>* dt (sy_db s)"
      "db_write\<^sup>*\<^sup>* ds (sy_db s)" "mirrors (fold apply_update (sy_queue s) (sy_client s)) dt ds"
      "rd_taskCursor (sy_reader s) = db_taskSequence dt" "rd_stateCursor (sy_reader s) = db_stateSequence ds"
      using inv unfolding sync_inv_def mirrors_past_def by blast
    have g: "good dt" "good ds" using m(1,2) good writes_good by blast+
    have l: "logged dt d1" "logged ds d2"
      using writes_logged [OF _ g(1)] writes_logged [OF _ g(2)] m(3,4) w(1,2) rtranclp_trans by metis+
    from emitDeltas_mirrors [OF deltas(2) m(5-7) g l deltas(1)] req
    show thesis using that [of d1 d2] by simp
  qed
qed

lemma sync_inv_step:
  assumes "sync_step s s'" and inv: "sync_inv d0 s" and good: "good d0"
  shows "sync_inv d0 s'"
  using assms(1)
proof cases
  case (written d)
  then have "db_write\<^sup>*\<^sup>* (sy_db s) d" by simp
  with inv mirrors_past_later show ?thesis unfolding sync_inv_def written(1) by auto
next
  case (reads d1 d2 d3 accepted rd out)
  have w: "db_write\<^sup>*\<^sup>* d0 d1" "db_write\<^sup>*\<^sup>* d0 d2" "db_write\<^sup>*\<^sup>* d0 d3" "db_write\<^sup>*\<^sup>* d1 d3"
    using inv reads(2-4) rtranclp_trans unfolding sync_inv_def by metis+
  show ?thesis
  proof (cases "rd_snapshotRequired rd")
    case False
    obtain dt ds where m: "dt \<in> {d1, d3}" "ds \<in> {d1, d2, d3}"
      "mirrors (fold apply_update (sy_queue s @ out) (sy_client s)) dt ds"
      "rd_taskCursor rd = db_taskSequence dt" "rd_stateCursor rd = db_stateSequence ds"
      using readOnce_mirrors [OF inv good reads(2-5) False] by metis
    then have "mirrors_past d0 d3 rd (fold apply_update (sy_queue s @ out) (sy_client s))"
      unfolding mirrors_past_def by (intro exI [of _ dt] exI [of _ ds]) (use w reads(4) in auto)
    with w show ?thesis by (simp add: sync_inv_def reads(1))
  qed (use w in \<open>simp add: sync_inv_def reads(1)\<close>)
next
  case (consumed update queue)
  with inv show ?thesis by (simp add: sync_inv_def)
next
  case (reconnected accepted rd out)
  have w: "db_write\<^sup>*\<^sup>* d0 (sy_db s)" using inv by (simp add: sync_inv_def)
  show ?thesis
  proof (cases "rd_snapshotRequired rd")
    case False
    from emitSnapshot_mirrors [OF reconnected(2) writes_good [OF w good] False, of "[]"] w show ?thesis
      by (auto simp: sync_inv_def mirrors_past_def reconnected(1))
  qed (use w in \<open>simp add: sync_inv_def reconnected(1)\<close>)
qed

lemma sync_inv_reachable: "sync_reachable d0 s \<Longrightarrow> good d0 \<Longrightarrow> sync_inv d0 s"
proof (induction rule: sync_reachable.induct)
  case (start accepted rd out)
  show ?case
  proof (cases "rd_snapshotRequired rd")
    case False
    from emitSnapshot_mirrors [OF start(1,2) False, of "[]"] show ?thesis
      by (auto simp: sync_inv_def mirrors_past_def)
  qed (simp add: sync_inv_def)
qed (use sync_inv_step in blast)

section \<open>A read brings the client up to date\<close>

definition tables_bounded :: "laborer_db \<Rightarrow> bool" where
  "tables_bounded d \<longleftrightarrow>
     length (db_tasks d) \<le> MAX_TABLE_ROWS \<and> length (db_projects d) \<le> MAX_TABLE_ROWS \<and>
     length (db_settings d) \<le> MAX_TABLE_ROWS \<and> length (db_labels d) \<le> MAX_TABLE_ROWS \<and>
     length (db_threads d) \<le> MAX_TABLE_ROWS"

lemma boundedRows_ok: "length rows \<le> MAX_TABLE_ROWS \<Longrightarrow> boundedRows (take (MAX_TABLE_ROWS + 1) rows) = Inr rows"
  by (simp add: boundedRows_def)

lemma snapshot_succeeds:
  assumes "tables_bounded d"
  shows "snapshot d \<noteq> None"
proof -
  have l: "\<exists>x. listLabels d = Inr x" "\<exists>x. listProjects d = Inr x" "\<exists>x. listSettings d = Inr x"
    "\<exists>x. listTasks d = Inr x" "\<exists>x. listAllReviewCommentThreads d = Inr x"
    using assms unfolding listLabels_def listProjects_def listSettings_def listTasks_def
      listAllReviewCommentThreads_def tables_bounded_def
    by (subst boundedRows_ok; simp)+
  then show ?thesis unfolding snapshot_def by (elim exE) (simp only: sum.case prod.case, simp)
qed

lemma read_succeeds: "tables_bounded d3 \<Longrightarrow> readOnce accepted d1 d2 d3 rd \<noteq> None"
  using snapshot_succeeds [of d3] by (auto simp: readOnce_def emitSnapshot_def split: option.splits)

text \<open>One read that the queue takes, of a database that stands still.\<close>

lemma read_catches_up:
  assumes inv: "sync_inv d0 s" and good: "good d0"
    and r: "readOnce True (sy_db s) (sy_db s) (sy_db s) (sy_reader s) = Some (rd, out)"
  shows "mirrors (fold apply_update (sy_queue s @ out) (sy_client s)) (sy_db s) (sy_db s)"
    and "\<not> rd_snapshotRequired rd"
proof -
  show req: "\<not> rd_snapshotRequired rd"
    using r by (auto simp: readOnce_def emitSnapshot_def emitDeltas_def Let_def
        split: option.splits if_splits sum.splits prod.splits)
  from readOnce_mirrors [OF inv good rtranclp.rtrancl_refl rtranclp.rtrancl_refl rtranclp.rtrancl_refl r req]
  show "mirrors (fold apply_update (sy_queue s @ out) (sy_client s)) (sy_db s) (sy_db s)" by auto
qed

end
