(* ===== verification/Laborer_Samples.thy ===== *)
theory Laborer_Samples
  imports Laborer_Behaviour Shared_Facts
begin

text \<open>
  A small database: a parent task with one child, two labels, two projects and a review comment,
  each written by the operation that the application would use.
\<close>

definition empty_db :: laborer_db where
  "empty_db = \<lparr>db_tasks = [], db_projects = [], db_settings = [], db_labels = [], db_threads = [], db_replies = [],
     db_taskChanges = [], db_taskSequence = 0, db_stateChanges = [], db_stateSequence = 0, db_taskNumbers = []\<rparr>"

definition after_write :: "'e + 'r \<times> laborer_db \<Rightarrow> laborer_db" where
  "after_write result = (case result of Inl _ \<Rightarrow> empty_db | Inr (_, d) \<Rightarrow> d)"

definition sample_task :: "string \<Rightarrow> string option \<Rightarrow> string list \<Rightarrow> new_task" where
  "sample_task i parent ids =
     \<lparr>nt_actionName = None, nt_baseBranch = None, nt_baseSha = None, nt_branchName = None, nt_createdAt = None,
      nt_description = None, nt_executionId = None, nt_executionStatus = None, nt_id = i, nt_labelIds = ids,
      nt_parentTaskId = parent, nt_prApprovals = None, nt_prAuthorLogin = None, nt_prBaseBranch = None,
      nt_prCheckStatus = None, nt_prChecks = None, nt_prIsDraft = False, nt_prMergeStatus = None,
      nt_prNumber = None, nt_prReviewDecision = None, nt_prState = None, nt_prTitle = None,
      nt_prUnresolvedThreads = None, nt_prUrl = None, nt_rootPath = ''/repo'', nt_setupCompletedAt = None,
      nt_slackPermalink = None, nt_sortOrder = None, nt_source = SourceManual, nt_status = TaskTodo,
      nt_title = ''title'', nt_worktreeError = None, nt_worktreePath = None, nt_worktreeStatus = None\<rparr>"

definition sample_project :: "string \<Rightarrow> new_project" where
  "sample_project i =
     \<lparr>np_branchName = None, np_canonicalGitCommonDir = ''/repo/.git'', np_color = None, np_createdAt = None,
      np_iconDataUrl = None, np_id = i, np_name = i, np_repoId = i, np_rootPath = ''/repo''\<rparr>"

definition sample_label :: "string \<Rightarrow> string \<Rightarrow> new_label" where
  "sample_label i name = \<lparr>nl_color = Some ColorBlue, nl_createdAt = None, nl_id = Some i, nl_name = name\<rparr>"

definition sample_thread :: new_thread where
  "sample_thread = \<lparr>nh_body = ''why'', nh_createdAt = None, nh_endLine = 4, nh_filePath = ''a.ts'', nh_id = Some ''th'',
     nh_replyId = Some ''r0'', nh_side = Additions, nh_startLine = 3, nh_workspaceId = ''w''\<rparr>"

definition sample_reply :: new_reply where
  "sample_reply = \<lparr>nr_body = ''because'', nr_createdAt = None, nr_id = Some ''r1'', nr_threadId = ''th''\<rparr>"

definition labelled_db :: laborer_db where
  "labelled_db = after_write (createLabel ''u'' (sample_label ''l2'' ''Chore'') None 2
     (after_write (createLabel ''u'' (sample_label ''l1'' ''Bug'') None 1 empty_db)))"

definition family_db :: laborer_db where
  "family_db = after_write (insertTask (sample_task ''child'' (Some ''parent'') [''l1'']) None 4
     (after_write (insertTask (sample_task ''parent'' None []) None 3 labelled_db)))"

definition projects_db :: laborer_db where
  "projects_db = after_write (insertProject (sample_project ''p2'') (Some ''op2'') 2
     (after_write (insertProject (sample_project ''p1'') (Some ''op1'') 1 empty_db)))"

definition comments_db :: laborer_db where
  "comments_db = after_write (createReviewCommentThread ''u'' ''v'' sample_thread Human None 9 empty_db)"

section \<open>They are well formed\<close>

lemma empty_ok: "db_ok empty_db" "ledger_ok empty_db"
  by (simp_all add: db_ok_def keys_ok_def rows_ok_def ledger_ok_def empty_db_def task_constraints_def
      project_constraints_def label_names_ok_def comments_ok_def numbered_def List.map_filter_simps)

lemma after_createLabel: "\<not> isl (createLabel u i op t d) \<Longrightarrow> db_write d (after_write (createLabel u i op t d))"
  by (cases "createLabel u i op t d") (auto simp: after_write_def split: prod.splits intro: db_write.intros(17))

lemma after_insertTask: "\<not> isl (insertTask i op t d) \<Longrightarrow> db_write d (after_write (insertTask i op t d))"
  by (cases "insertTask i op t d") (auto simp: after_write_def split: prod.splits intro: db_write.intros(1))

lemma after_insertProject: "\<not> isl (insertProject i op t d) \<Longrightarrow> db_write d (after_write (insertProject i op t d))"
  by (cases "insertProject i op t d") (auto simp: after_write_def split: prod.splits intro: db_write.intros(8))

lemma labelled_writes: "db_write\<^sup>*\<^sup>* empty_db labelled_db"
  unfolding labelled_db_def
  by (rule rtranclp.rtrancl_into_rtrancl, rule r_into_rtranclp; (rule after_createLabel), code_simp)

lemma family_writes: "db_write\<^sup>*\<^sup>* labelled_db family_db"
  unfolding family_db_def
  by (rule rtranclp.rtrancl_into_rtrancl, rule r_into_rtranclp; (rule after_insertTask), code_simp)

lemma projects_writes: "db_write\<^sup>*\<^sup>* empty_db projects_db"
  unfolding projects_db_def
  by (rule rtranclp.rtrancl_into_rtrancl, rule r_into_rtranclp; (rule after_insertProject), code_simp)

lemma written_ok: "db_write\<^sup>*\<^sup>* empty_db d \<Longrightarrow> db_ok d \<and> keys_ok d \<and> ledger_ok d"
  using db_ok_writes [OF _ empty_ok(1)] writes_good [of empty_db d] empty_ok by (auto simp: good_def db_ok_def)

lemma family_db_ok: "db_ok family_db" "keys_ok family_db" "ledger_ok family_db"
  using written_ok [OF rtranclp_trans [OF labelled_writes family_writes]] by simp_all

lemma projects_ok: "keys_ok projects_db" "ledger_ok projects_db"
  using written_ok [OF projects_writes] by simp_all

section \<open>A client of it\<close>

definition sample_start :: sync where
  "sample_start = (case emitSnapshot True family_db initial_reader of
     Some (rd, out) \<Rightarrow> \<lparr>sy_db = family_db, sy_reader = rd, sy_queue = out, sy_client = initial_client\<rparr>
   | None \<Rightarrow> \<lparr>sy_db = family_db, sy_reader = initial_reader, sy_queue = [], sy_client = initial_client\<rparr>)"

lemma family_bounded: "tables_bounded family_db"
  by code_simp

lemma sample_reachable: "sync_reachable family_db sample_start" "\<not> rd_snapshotRequired (sy_reader sample_start)"
  "sy_db sample_start = family_db"
proof -
  obtain s where s: "snapshot family_db = Some s" using snapshot_succeeds [OF family_bounded] by blast
  then have e: "emitSnapshot True family_db initial_reader = Some (\<lparr>rd_taskCursor = ds_taskCursor s,
      rd_stateCursor = ds_stateCursor s, rd_snapshotRequired = False\<rparr>, [snapshotUpdate s])"
    by (simp add: emitSnapshot_def)
  show "sync_reachable family_db sample_start" using sync_reachable.start [OF e] by (simp add: sample_start_def e)
  show "\<not> rd_snapshotRequired (sy_reader sample_start)" "sy_db sample_start = family_db"
    by (simp_all add: sample_start_def e)
qed

end
