(* ===== verification/Attach_Loop.thy ===== *)
theory Attach_Loop
  imports Terminal_Transport
begin

text \<open>
  The pane's side of the attach protocol, \<open>apps/web/src/lib/terminal-attach-loop.ts\<close>: frames of
  the daemon in; calls of the terminal surface, acknowledgements and replay progress out. The
  variables of the closure are the fields of \<open>attach_loop\<close>, and \<open>al_effects\<close> lists the calls it
  made, the surface's included. Whether a surface is there to take a write is an argument of
  each step. Cursors are the daemon's naturals. Around it, what the hook
  \<open>apps/web/src/hooks/use-terminal-rpc.ts\<close> keeps between attaches: the point a screen was drawn
  to and the epoch last announced.
\<close>

definition TERMINAL_ACK_BATCH_CHARS :: nat where
  "TERMINAL_ACK_BATCH_CHARS = 5000"

datatype replay_status = Replay_Idle | Replaying | Replay_Complete

datatype loop_effect =
    Surface_Reset js_string
  | Surface_Write js_string
  | Ack_Sent nat
  | Cursor_Known "nat option"
  | Epoch_Known string
  | Exit_Seen int int
  | Replay_Shown replay_status
  | Revival_Seen
  | Running_Shown bool

record attach_loop =
  al_cursor :: "nat option"
  al_unackedChars :: nat
  al_ackedCursor :: "nat option"
  al_restoring :: bool
  al_replayComplete :: bool
  al_effects :: "loop_effect list"

definition replayStatus :: "attach_loop \<Rightarrow> replay_status" where
  "replayStatus l =
     (if al_replayComplete l then Replay_Complete
      else if al_restoring l then Replaying else Replay_Idle)"

definition emit_effect :: "loop_effect \<Rightarrow> attach_loop \<Rightarrow> attach_loop" where
  "emit_effect e l = l\<lparr>al_effects := al_effects l @ [e]\<rparr>"

definition beginReplay :: "attach_loop \<Rightarrow> attach_loop" where
  "beginReplay l =
     (let l1 = l\<lparr>al_restoring := al_restoring l \<or> al_replayComplete l, al_replayComplete := False\<rparr>
      in emit_effect (Replay_Shown (replayStatus l1)) l1)"

definition setCursor :: "nat option \<Rightarrow> attach_loop \<Rightarrow> attach_loop" where
  "setCursor c l = emit_effect (Cursor_Known c) (l\<lparr>al_cursor := c\<rparr>)"

definition flushAck :: "nat \<Rightarrow> bool \<Rightarrow> attach_loop \<Rightarrow> attach_loop" where
  "flushAck batch force l =
     (case al_cursor l of
        None \<Rightarrow> l
      | Some cursor \<Rightarrow>
          if \<not> force \<and> al_unackedChars l < batch then l
          else if al_unackedChars l = 0 \<and> al_ackedCursor l = Some cursor then l
          else emit_effect (Ack_Sent cursor) (l\<lparr>al_unackedChars := 0, al_ackedCursor := Some cursor\<rparr>))"

definition isTerminalRevival :: "reset_reason \<Rightarrow> bool" where
  "isTerminalRevival reason = (reason = EpochChanged)"

text \<open>
  \<open>handle\<close>, with the answer of \<open>resetAndWrite\<close> or \<open>write\<close>. A surface that is not there took
  nothing, so its call is no effect; the answer to the bare reset is ignored by the code.
\<close>

definition surface_call :: "bool \<Rightarrow> loop_effect \<Rightarrow> attach_loop \<Rightarrow> attach_loop" where
  "surface_call taken e l = (if taken then emit_effect e l else l)"

fun handle_frame :: "nat \<Rightarrow> bool \<Rightarrow> attach_loop \<Rightarrow> attach_event \<Rightarrow> attach_loop" where
  "handle_frame batch taken l (Snapshot cursor data) =
     (let l1 = (beginReplay l)\<lparr>al_ackedCursor := None, al_unackedChars := 0\<rparr>;
          l2 = surface_call taken (Surface_Reset data) l1
      in if \<not> taken then setCursor None l2
         else flushAck batch False ((setCursor (Some cursor) l2)\<lparr>al_unackedChars := length data\<rparr>))"
| "handle_frame batch taken l (Delta cursor data) =
     (if (case al_cursor l of None \<Rightarrow> False | Some c \<Rightarrow> cursor \<le> c) then l
      else
        (let l1 = surface_call taken (Surface_Write data) l
         in if \<not> taken then l1
            else (let l2 = setCursor (Some cursor) l1
                  in flushAck batch False (l2\<lparr>al_unackedChars := al_unackedChars l2 + length data\<rparr>))))"
| "handle_frame batch taken l (Meta epoch running) =
     emit_effect (Running_Shown running) (emit_effect (Epoch_Known epoch) l)"
| "handle_frame batch taken l ReplayComplete =
     (let l1 = l\<lparr>al_replayComplete := True\<rparr>
      in flushAck batch True (emit_effect (Replay_Shown (replayStatus l1)) l1))"
| "handle_frame batch taken l (ResetEvent epoch reason) =
     (let l1 = (setCursor None (emit_effect (Epoch_Known epoch) l))
                 \<lparr>al_ackedCursor := None, al_unackedChars := 0\<rparr>;
          l2 = surface_call taken (Surface_Reset []) l1;
          l3 = (if isTerminalRevival reason then emit_effect Revival_Seen l2 else l2)
      in beginReplay l3)"
| "handle_frame batch taken l (ExitEvent exitCode sig) = emit_effect (Exit_Seen exitCode sig) l"

definition createTerminalAttachLoop :: "bool \<Rightarrow> nat option \<Rightarrow> attach_loop" where
  "createTerminalAttachLoop restoring resume =
     (let l = \<lparr>al_cursor = resume, al_unackedChars = 0, al_ackedCursor = None,
               al_restoring = restoring, al_replayComplete = False, al_effects = []\<rparr>
      in emit_effect (Replay_Shown (replayStatus l)) l)"

section \<open>Between attaches\<close>

record resume_point =
  rp_cursor :: nat
  rp_generation :: nat
  rp_terminalId :: string

record epoch_record =
  er_epoch :: string
  er_terminalId :: string

definition resumableCursor :: "resume_point option \<Rightarrow> nat \<Rightarrow> string \<Rightarrow> nat option" where
  "resumableCursor point generation terminalId =
     (case point of
        Some p \<Rightarrow>
          if generation \<noteq> 0 \<and> rp_generation p = generation \<and> rp_terminalId p = terminalId
          then Some (rp_cursor p) else None
      | None \<Rightarrow> None)"

definition declarableEpoch :: "epoch_record option \<Rightarrow> string \<Rightarrow> string option" where
  "declarableEpoch r terminalId =
     (case r of
        Some e \<Rightarrow> if er_terminalId e = terminalId then Some (er_epoch e) else None
      | None \<Rightarrow> None)"

text \<open>\<open>createAttachHistory().beginAttach\<close>, on the generation the history remembers.\<close>

definition beginAttach :: "nat \<Rightarrow> nat option \<Rightarrow> bool \<times> nat option" where
  "beginAttach generation drawnGeneration =
     (generation \<noteq> 0 \<and> drawnGeneration = Some generation, Some generation)"

definition TERMINAL_REATTACH_DELAYS_MS :: "nat list" where
  "TERMINAL_REATTACH_DELAYS_MS = [1000, 2000, 4000, 8000]"

definition reattachDelay :: "nat \<Rightarrow> nat" where
  "reattachDelay failureCount =
     TERMINAL_REATTACH_DELAYS_MS ! min failureCount (length TERMINAL_REATTACH_DELAYS_MS - 1)"

text \<open>The two references the callbacks of a current attach write, and the request they make.\<close>

record pane_refs =
  pr_drawn :: "resume_point option"
  pr_epoch :: "epoch_record option"

fun note_effect :: "nat \<Rightarrow> string \<Rightarrow> pane_refs \<Rightarrow> loop_effect \<Rightarrow> pane_refs" where
  "note_effect generation terminalId refs (Cursor_Known c) =
     refs\<lparr>pr_drawn := map_option (\<lambda>cursor. \<lparr>rp_cursor = cursor, rp_generation = generation,
                                            rp_terminalId = terminalId\<rparr>) c\<rparr>"
| "note_effect generation terminalId refs (Epoch_Known e) =
     refs\<lparr>pr_epoch := Some \<lparr>er_epoch = e, er_terminalId = terminalId\<rparr>\<rparr>"
| "note_effect generation terminalId refs _ = refs"

section \<open>What each helper leaves\<close>

lemma emit_effect_fields [simp]:
  "al_cursor (emit_effect e l) = al_cursor l"
  "al_unackedChars (emit_effect e l) = al_unackedChars l"
  "al_ackedCursor (emit_effect e l) = al_ackedCursor l"
  "al_replayComplete (emit_effect e l) = al_replayComplete l"
  "al_restoring (emit_effect e l) = al_restoring l"
  "al_effects (emit_effect e l) = al_effects l @ [e]"
  by (simp_all add: emit_effect_def)

lemma beginReplay_fields [simp]:
  "al_cursor (beginReplay l) = al_cursor l"
  "al_unackedChars (beginReplay l) = al_unackedChars l"
  "al_ackedCursor (beginReplay l) = al_ackedCursor l"
  "\<not> al_replayComplete (beginReplay l)"
  "al_restoring (beginReplay l) = (al_restoring l \<or> al_replayComplete l)"
  "al_effects (beginReplay l) = al_effects l @
     [Replay_Shown (if al_restoring l \<or> al_replayComplete l then Replaying else Replay_Idle)]"
  by (simp_all add: beginReplay_def Let_def replayStatus_def)

lemma setCursor_fields [simp]:
  "al_cursor (setCursor c l) = c"
  "al_unackedChars (setCursor c l) = al_unackedChars l"
  "al_ackedCursor (setCursor c l) = al_ackedCursor l"
  "al_replayComplete (setCursor c l) = al_replayComplete l"
  "al_restoring (setCursor c l) = al_restoring l"
  "al_effects (setCursor c l) = al_effects l @ [Cursor_Known c]"
  by (simp_all add: setCursor_def)

lemma flushAck_fields [simp]:
  "al_cursor (flushAck batch force l) = al_cursor l"
  "al_replayComplete (flushAck batch force l) = al_replayComplete l"
  "al_restoring (flushAck batch force l) = al_restoring l"
  by (simp_all add: flushAck_def split: option.split)

lemma surface_call_fields [simp]:
  "al_cursor (surface_call taken e l) = al_cursor l"
  "al_unackedChars (surface_call taken e l) = al_unackedChars l"
  "al_ackedCursor (surface_call taken e l) = al_ackedCursor l"
  "al_replayComplete (surface_call taken e l) = al_replayComplete l"
  "al_restoring (surface_call taken e l) = al_restoring l"
  "al_effects (surface_call taken e l) = al_effects l @ (if taken then [e] else [])"
  by (simp_all add: surface_call_def)

text \<open>The acknowledgements among the effects.\<close>

fun acks_of :: "loop_effect list \<Rightarrow> nat list" where
  "acks_of [] = []"
| "acks_of (Ack_Sent c # es) = c # acks_of es"
| "acks_of (_ # es) = acks_of es"

lemma acks_of_append [simp]: "acks_of (es @ fs) = acks_of es @ acks_of fs"
  by (induction es rule: acks_of.induct) simp_all

section \<open>The invariant of the loop\<close>

text \<open>
  A known cursor leaves less than a batch unacknowledged, and the loop acknowledged its cursor
  only if nothing was parsed since.
\<close>

definition loop_ok :: "nat \<Rightarrow> attach_loop \<Rightarrow> bool" where
  "loop_ok batch l \<longleftrightarrow>
     (al_cursor l \<noteq> None \<longrightarrow> al_unackedChars l < batch) \<and>
     (al_cursor l = None \<longrightarrow> al_ackedCursor l = None) \<and>
     (\<forall>a c. al_ackedCursor l = Some a \<longrightarrow> al_cursor l = Some c \<longrightarrow>
        a \<le> c \<and> a \<in> set (acks_of (al_effects l)))"

lemma flushAck_ok:
  assumes "0 < batch" and "al_cursor l \<noteq> None"
    and "\<forall>a c. al_ackedCursor l = Some a \<longrightarrow> al_cursor l = Some c \<longrightarrow>
           a \<le> c \<and> a \<in> set (acks_of (al_effects l))"
  shows "loop_ok batch (flushAck batch force l)"
  using assms by (auto simp: loop_ok_def flushAck_def split: option.split if_splits)

lemma createTerminalAttachLoop_ok: "0 < batch \<Longrightarrow> loop_ok batch (createTerminalAttachLoop r c)"
  by (simp add: createTerminalAttachLoop_def loop_ok_def Let_def)

lemma handle_frame_ok:
  assumes "0 < batch" and "loop_ok batch l"
  shows "loop_ok batch (handle_frame batch taken l e)"
proof (cases e)
  case (Snapshot c d)
  show ?thesis
  proof (cases taken)
    case True
    show ?thesis unfolding Snapshot handle_frame.simps Let_def
      using True by (simp, intro flushAck_ok [OF assms(1)]) simp_all
  qed (simp add: Snapshot loop_ok_def Let_def)
next
  case (Delta c d)
  show ?thesis
  proof (cases "taken \<and> \<not> (case al_cursor l of None \<Rightarrow> False | Some k \<Rightarrow> c \<le> k)")
    case True
    then show ?thesis unfolding Delta handle_frame.simps Let_def using assms(2)
      by (simp, intro flushAck_ok [OF assms(1)])
        (auto simp: loop_ok_def split: option.splits)
  qed (use assms Delta in \<open>auto simp: surface_call_def\<close>)
next
  case ReplayComplete
  show ?thesis
  proof (cases "al_cursor l")
    case None
    with ReplayComplete assms(2) show ?thesis by (simp add: loop_ok_def flushAck_def Let_def)
  next
    case (Some c)
    show ?thesis unfolding ReplayComplete handle_frame.simps Let_def
      using assms(2) Some by (intro flushAck_ok [OF assms(1)]) (auto simp: loop_ok_def)
  qed
next
  case (ResetEvent ep r)
  then show ?thesis by (simp add: loop_ok_def Let_def)
qed (use assms in \<open>auto simp: loop_ok_def\<close>)

section \<open>The next attach resumes where the loop stands\<close>

definition refs_after :: "nat \<Rightarrow> string \<Rightarrow> pane_refs \<Rightarrow> attach_loop \<Rightarrow> pane_refs" where
  "refs_after generation terminalId refs l = foldl (note_effect generation terminalId) refs (al_effects l)"

definition resumes_at :: "nat \<Rightarrow> string \<Rightarrow> pane_refs \<Rightarrow> attach_loop \<Rightarrow> bool" where
  "resumes_at generation terminalId refs l \<longleftrightarrow>
     resumableCursor (pr_drawn (refs_after generation terminalId refs l)) generation terminalId = al_cursor l"

lemma note_effect_setCursor:
  "generation \<noteq> 0 \<Longrightarrow> resumableCursor (pr_drawn (note_effect generation terminalId refs (Cursor_Known c)))
     generation terminalId = c"
  by (cases c) (simp_all add: resumableCursor_def)

text \<open>Effects other than a new cursor leave the resume point alone.\<close>

definition no_cursor :: "loop_effect list \<Rightarrow> bool" where
  "no_cursor es = list_all (\<lambda>e. case e of Cursor_Known _ \<Rightarrow> False | _ \<Rightarrow> True) es"

lemma fold_no_cursor:
  "no_cursor es \<Longrightarrow> pr_drawn (foldl (note_effect generation terminalId) r es) = pr_drawn r"
proof (induction es arbitrary: r)
  case (Cons e es)
  then show ?case by (cases e) (simp_all add: no_cursor_def)
qed simp

lemma resumes_effects:
  assumes "resumes_at generation terminalId refs l" and "al_effects l' = al_effects l @ es"
    and "al_cursor l' = al_cursor l" and "no_cursor es"
  shows "resumes_at generation terminalId refs l'"
  using assms by (simp add: resumes_at_def refs_after_def fold_no_cursor)

lemma resumes_after_cursor:
  assumes "generation \<noteq> 0" and "al_effects l' = before @ Cursor_Known c # es"
    and "al_cursor l' = c" and "no_cursor es"
  shows "resumes_at generation terminalId refs l'"
  using assms note_effect_setCursor [OF assms(1)]
  by (simp add: resumes_at_def refs_after_def fold_no_cursor del: note_effect.simps)

lemma resumes_flushAck:
  assumes "resumes_at generation terminalId refs l"
  shows "resumes_at generation terminalId refs (flushAck batch force l)"
proof -
  have "\<exists>es. al_effects (flushAck batch force l) = al_effects l @ es \<and> no_cursor es"
    by (auto simp: flushAck_def no_cursor_def split: option.split)
  then show ?thesis using resumes_effects [OF assms] by (metis flushAck_fields(1))
qed

lemma handle_frame_resumes:
  assumes "generation \<noteq> 0" and "resumes_at generation terminalId refs l"
  shows "resumes_at generation terminalId refs (handle_frame batch taken l e)"
proof (cases e)
  case (Snapshot c d)
  show ?thesis
  proof (cases taken)
    case True
    then show ?thesis unfolding Snapshot handle_frame.simps Let_def
      by (simp, intro resumes_flushAck resumes_after_cursor [OF assms(1), where es = "[]"])
        (simp_all add: no_cursor_def)
  next
    case False
    then show ?thesis unfolding Snapshot handle_frame.simps Let_def
      by (simp, intro resumes_after_cursor [OF assms(1), where es = "[]"]) (simp_all add: no_cursor_def)
  qed
next
  case (Delta c d)
  show ?thesis
  proof (cases "taken \<and> \<not> (case al_cursor l of None \<Rightarrow> False | Some k \<Rightarrow> c \<le> k)")
    case True
    then show ?thesis unfolding Delta handle_frame.simps Let_def
      by (simp, intro resumes_flushAck resumes_after_cursor [OF assms(1), where es = "[]"])
        (simp_all add: no_cursor_def)
  qed (use assms(2) Delta in \<open>auto simp: surface_call_def\<close>)
next
  case (Meta ep st)
  show ?thesis by (rule resumes_effects [OF assms(2)]) (auto simp: Meta no_cursor_def)
next
  case ReplayComplete
  show ?thesis unfolding ReplayComplete handle_frame.simps Let_def
    by (rule resumes_flushAck, rule resumes_effects [OF assms(2), where es = "[Replay_Shown Replay_Complete]"])
      (simp_all add: no_cursor_def replayStatus_def)
next
  case (ResetEvent ep r)
  show ?thesis
    unfolding ResetEvent handle_frame.simps Let_def
    by (rule resumes_after_cursor [OF assms(1), where before = "al_effects l @ [Epoch_Known ep]" and c = None
        and es = "(if taken then [Surface_Reset []] else []) @ (if isTerminalRevival r then [Revival_Seen] else [])
          @ [Replay_Shown (if al_restoring l \<or> al_replayComplete l then Replaying else Replay_Idle)]"])
      (simp_all add: no_cursor_def)
next
  case (ExitEvent c s)
  show ?thesis by (rule resumes_effects [OF assms(2)]) (auto simp: ExitEvent no_cursor_def)
qed

end
