(* ===== verification/Attach_View.thy ===== *)
theory Attach_View
  imports Attach_Loop Attach_Delivery
begin

text \<open>
  The two sides of the attach protocol together: the daemon's terminal of \<open>Terminal_Attach\<close> and
  a pane's loop that handles the frames sent to its lease, in order, with a surface to draw on.
  The terminal emulator is a parameter: \<open>feed\<close> draws one code unit on a screen, from \<open>blank\<close>.
  A pane is in step with a history when it shows what the history draws and its cursor is the
  history's length in bytes; every step of the daemon keeps a subscribed pane in step with the
  output of the current generation.
\<close>

section \<open>What the pane shows\<close>

type_synonym 'scr emulator = "'scr \<Rightarrow> 16 word \<Rightarrow> 'scr"

fun draw :: "'scr emulator \<Rightarrow> 'scr \<Rightarrow> 'scr \<Rightarrow> loop_effect \<Rightarrow> 'scr" where
  "draw feed blank scr (Surface_Reset d) = foldl feed blank d"
| "draw feed blank scr (Surface_Write d) = foldl feed scr d"
| "draw feed blank scr _ = scr"

definition screen_after :: "'scr emulator \<Rightarrow> 'scr \<Rightarrow> 'scr \<Rightarrow> attach_loop \<Rightarrow> 'scr" where
  "screen_after feed blank scr l = foldl (draw feed blank) scr (al_effects l)"

definition emulate :: "'scr emulator \<Rightarrow> 'scr \<Rightarrow> js_string \<Rightarrow> 'scr" where
  "emulate feed blank d = foldl feed blank d"

lemma emulate_append: "emulate feed blank (d @ e) = foldl feed (emulate feed blank d) e"
  by (simp add: emulate_def)

definition in_step ::
    "'scr emulator \<Rightarrow> 'scr \<Rightarrow> 'scr \<Rightarrow> js_string list \<Rightarrow> attach_loop \<Rightarrow> bool" where
  "in_step feed blank scr hist l \<longleftrightarrow>
     al_cursor l = Some (log_bytes hist) \<and>
     screen_after feed blank scr l = emulate feed blank (concat hist)"

lemma in_step_same:
  "al_cursor l' = al_cursor l \<Longrightarrow>
   screen_after feed blank scr l' = screen_after feed blank scr l \<Longrightarrow>
   in_step feed blank scr hist l' = in_step feed blank scr hist l"
  by (simp add: in_step_def)

lemma screen_flushAck [simp]:
  "screen_after feed blank scr (flushAck batch force l) = screen_after feed blank scr l"
  by (simp add: screen_after_def flushAck_def split: option.split)

lemma screen_effects:
  "al_effects l' = al_effects l \<Longrightarrow> screen_after feed blank scr l' = screen_after feed blank scr l"
  by (simp add: screen_after_def)

section \<open>Frames that keep a pane in step\<close>

lemma handle_quiet:
  assumes "in_step feed blank scr hist l"
  shows "in_step feed blank scr hist (handle_frame batch True l (Meta ep running))"
    and "in_step feed blank scr hist (handle_frame batch True l ReplayComplete)"
    and "in_step feed blank scr hist (handle_frame batch True l (ExitEvent code sig))"
    and "c \<le> log_bytes hist \<Longrightarrow> handle_frame batch True l (Delta c d) = l"
  using assms by (auto simp: in_step_def screen_after_def Let_def)
    (simp add: flushAck_def split: option.split)

lemma handle_delta:
  assumes "in_step feed blank scr hist l"
  shows "in_step feed blank scr (hist @ [d]) (handle_frame batch True l (Delta (log_bytes (hist @ [d])) d))"
proof (cases "utf8Bytes d = 0")
  case True
  then have "d = []" by simp
  with assms True show ?thesis by (simp add: in_step_def)
next
  case False
  with assms show ?thesis
    by (simp add: in_step_def surface_call_def Let_def emulate_append)
      (simp add: screen_after_def)
qed

lemma handle_snapshot:
  assumes "emulate feed blank presentation = emulate feed blank (concat hist)"
  shows "in_step feed blank scr hist (handle_frame batch True l (Snapshot (log_bytes hist) presentation))"
  using assms by (simp add: in_step_def surface_call_def Let_def)
    (simp add: screen_after_def emulate_def)

section \<open>Runs of deltas\<close>

definition deltas_from :: "nat \<Rightarrow> js_string list \<Rightarrow> attach_event list" where
  "deltas_from start ds = map (\<lambda>e. Delta (je_end e) (je_data e)) (entries_from start ds)"

lemma deltas_from_simps [simp]:
  "deltas_from start [] = []"
  "deltas_from start (d # ds) = Delta (start + utf8Bytes d) d # deltas_from (start + utf8Bytes d) ds"
  by (simp_all add: deltas_from_def)

lemma deltas_keep_in_step:
  assumes "in_step feed blank scr (take k (pre @ ds)) l" and "length pre \<le> k"
  shows "in_step feed blank scr (pre @ ds)
    (foldl (handle_frame batch True) l (deltas_from (log_bytes pre) ds))"
  using assms
proof (induction ds arbitrary: pre k l)
  case (Cons d ds)
  let ?l = "handle_frame batch True l (Delta (log_bytes (pre @ [d])) d)"
  have "\<exists>k'\<ge>length (pre @ [d]). in_step feed blank scr (take k' ((pre @ [d]) @ ds)) ?l"
  proof (cases "length pre = k")
    case True
    with Cons.prems(1) have "in_step feed blank scr pre l" by simp
    from handle_delta [OF this, of d batch] show ?thesis
      by (intro exI [of _ "length (pre @ [d])"]) simp
  next
    case False
    then have "length (pre @ [d]) \<le> k" using Cons.prems(2) by simp
    moreover from this have "take (length (pre @ [d])) (take k (pre @ d # ds)) = pre @ [d]" by simp
    then have "log_bytes (pre @ [d]) \<le> log_bytes (take k (pre @ d # ds))"
      using log_bytes_take_le [of "length (pre @ [d])" "take k (pre @ d # ds)"] by simp
    then have "?l = l" by (rule handle_quiet(4) [OF Cons.prems(1)])
    ultimately show ?thesis using Cons.prems(1) by auto
  qed
  then obtain k' where "length (pre @ [d]) \<le> k'" "in_step feed blank scr (take k' ((pre @ [d]) @ ds)) ?l"
    by blast
  from Cons.IH [OF this(2,1)] show ?case by simp
qed simp

lemma handle_filtered:
  assumes "al_cursor l = Some c" and "c0 \<le> c"
  shows "foldl (handle_frame batch True) l
      (map (\<lambda>e. Delta (je_end e) (je_data e)) (filter (\<lambda>e. c0 < je_end e) es))
    = foldl (handle_frame batch True) l (map (\<lambda>e. Delta (je_end e) (je_data e)) es)"
  using assms
proof (induction es arbitrary: l c)
  case (Cons e es)
  let ?l = "handle_frame batch True l (Delta (je_end e) (je_data e))"
  have "?l = l \<or> al_cursor ?l = Some (je_end e) \<and> c < je_end e"
    using Cons.prems by (simp add: Let_def)
  moreover have "?l = l" if "je_end e \<le> c0" using that Cons.prems by simp
  ultimately show ?case using Cons.IH [of l c] Cons.IH [of ?l "je_end e"] Cons.prems
    by (cases "c0 < je_end e") auto
qed simp

lemma deltasAfter_in_step:
  assumes "in_step feed blank scr (take k hist) l" and "k \<le> length hist"
    and "retains (journal_of m hist) (log_bytes (take k hist))"
  shows "in_step feed blank scr hist
    (foldl (handle_frame batch True) l (deltasAfter (journal_of m hist) (log_bytes (take k hist))))"
proof -
  obtain n where n: "n \<le> length hist" "kept m hist = drop n hist" using kept_suffix by blast
  have split: "log_bytes hist = log_bytes (take n hist) + log_bytes (drop n hist)"
    by (metis append_take_drop_id log_bytes_simps(3))
  then have start: "log_bytes hist - log_bytes (kept m hist) = log_bytes (take n hist)" by (simp add: n)
  have le: "log_bytes (take n hist) \<le> log_bytes (take k hist)"
    using assms(3) by (simp add: retains_def minimumCursor_of start split: if_splits)
  have "in_step feed blank scr (take (max n k) hist) l"
  proof (cases "n \<le> k")
    case False
    then have eq: "take n hist = take k hist @ drop k (take n hist)"
      using append_take_drop_id [of k "take n hist"] False by (simp add: min_absorb1 del: append_take_drop_id)
    have "log_bytes (take n hist) = log_bytes (take k hist) + log_bytes (drop k (take n hist))"
      by (rule trans [OF arg_cong [OF eq, of log_bytes] log_bytes_simps(3)])
    with le have none: "log_bytes (drop k (take n hist)) = 0"
      and same: "log_bytes (take n hist) = log_bytes (take k hist)" by linarith+
    have "concat (drop k (take n hist)) = []" using none by (auto simp: log_bytes_def)
    then have "concat (take n hist) = concat (take k hist)"
      by (intro trans [OF arg_cong [OF eq, of concat]]) (simp only: concat_append append_Nil2)
    with same assms(1) False show ?thesis by (simp add: in_step_def max_def)
  qed (use assms(1) in \<open>simp add: max_def\<close>)
  then have "in_step feed blank scr (take (max n k) (take n hist @ drop n hist)) l" by simp
  from deltas_keep_in_step [OF this, of batch] n(1)
  have "in_step feed blank scr hist (foldl (handle_frame batch True) l
      (deltas_from (log_bytes (take n hist)) (drop n hist)))" by simp
  moreover have "deltasAfter (journal_of m hist) (log_bytes (take k hist))
      = map (\<lambda>e. Delta (je_end e) (je_data e)) (filter (\<lambda>e. log_bytes (take k hist) < je_end e)
          (entries_from (log_bytes (take n hist)) (drop n hist)))"
    using assms(3) start by (simp add: deltasAfter_def journal_of_def n)
  ultimately show ?thesis
    using assms(1) handle_filtered [of l "log_bytes (take k hist)" "log_bytes (take k hist)" batch
        "entries_from (log_bytes (take n hist)) (drop n hist)"]
    by (simp only: in_step_def deltas_from_def order.refl simp_thms)
qed

section \<open>The frames one lease is sent\<close>

definition frames_for :: "string \<Rightarrow> (string \<times> attach_event) list \<Rightarrow> attach_event list" where
  "frames_for sid sent = map snd (filter (\<lambda>e. fst e = sid) sent)"

lemma frames_for_append [simp]:
  "frames_for sid [] = []"
  "frames_for sid (xs @ ys) = frames_for sid xs @ frames_for sid ys"
  "frames_for sid (map (Pair i) events) = (if i = sid then events else [])"
  by (simp_all add: frames_for_def filter_map comp_def)

definition subscribed :: "string \<Rightarrow> attach_state \<Rightarrow> bool" where
  "subscribed sid s \<longleftrightarrow> sid \<in> set (map fst (leases_of s))"

text \<open>The frames a step adds for one lease.\<close>

definition news_for :: "string \<Rightarrow> attach_state \<Rightarrow> attach_state \<Rightarrow> attach_event list" where
  "news_for sid s s' = frames_for sid (drop (length (ta_sent s)) (ta_sent s'))"

lemma news_forI: "ta_sent s' = ta_sent s @ new \<Longrightarrow> news_for sid s s' = frames_for sid new"
  by (simp add: news_for_def)

lemma remove_sent [simp]: "ta_sent (snd (removeAttachSubscriber cfg sid s)) = ta_sent s"
  by (auto simp: removeAttachSubscriber_def journalFor_def commit_leases_def Let_def
      split: option.split prod.split)

lemma send_to_sent [simp]: "ta_sent (snd (send_to cfg accepts sid e s)) = ta_sent s @ [(sid, e)]"
  by (simp add: send_to_def Let_def)

lemma publish_sent:
  "ta_sent (publishAttachEvent cfg accepts e s)
     = ta_sent s @ map (\<lambda>i. (i, e)) (case ta_subscribers s of None \<Rightarrow> [] | Some subs \<Rightarrow> subs)"
proof -
  have "ta_sent (foldl (\<lambda>s i. snd (send_to cfg accepts i e s)) s subs)
      = ta_sent s @ map (\<lambda>i. (i, e)) subs" for subs
    by (induction subs arbitrary: s) simp_all
  then show ?thesis by (simp add: publishAttachEvent_def split: option.split)
qed

lemma frames_for_once:
  "distinct subs \<Longrightarrow> frames_for sid (map (\<lambda>i. (i, e)) subs) = (if sid \<in> set subs then [e] else [])"
  by (induction subs) (auto simp: frames_for_def)

lemma subscribers_of:
  "attach_ok cfg hist s \<Longrightarrow>
     (case ta_subscribers s of None \<Rightarrow> [] | Some subs \<Rightarrow> subs) = map fst (leases_of s)"
  by (auto simp: attach_ok_def leases_ok_def nonempty_def)

lemma publish_news:
  assumes "attach_ok cfg hist s"
  shows "\<exists>new. ta_sent (publishAttachEvent cfg accepts e s) = ta_sent s @ new \<and>
    (subscribed sid s \<longrightarrow> frames_for sid new = [e])"
  using assms subscribers_of [OF assms]
  by (simp add: publish_sent frames_for_once subscribed_def attach_ok_def leases_ok_def del: map_map)

section \<open>Departures only\<close>

definition remaining :: "attach_state \<Rightarrow> attach_state \<Rightarrow> bool" where
  "remaining s s' \<longleftrightarrow> set (map fst (leases_of s')) \<subseteq> set (map fst (leases_of s))"

lemma remaining_subscribed: "remaining s s' \<Longrightarrow> subscribed sid s' \<Longrightarrow> subscribed sid s"
  by (auto simp: remaining_def subscribed_def)

lemma remaining_trans: "remaining s t \<Longrightarrow> remaining t u \<Longrightarrow> remaining s u"
  by (auto simp: remaining_def)

lemma remaining_same: "leases_of s' = leases_of s \<Longrightarrow> remaining s s'"
  by (simp add: remaining_def)

lemma remove_remaining: "remaining s (snd (removeAttachSubscriber cfg sid s))"
  by (auto simp: remaining_def removeAttachSubscriber_def journalFor_def commit_leases_def leases_of_def Let_def
      split: option.split prod.split)

lemma send_to_remaining: "remaining s (snd (send_to cfg accepts sid e s))"
proof -
  have "remaining s (s\<lparr>ta_sent := xs\<rparr>)" for xs by (simp add: remaining_def leases_of_def)
  then show ?thesis
    using remaining_trans [OF _ remove_remaining] by (auto simp: send_to_def Let_def)
qed

lemma publish_remaining: "remaining s (publishAttachEvent cfg accepts e s)"
proof -
  have "remaining s (foldl (\<lambda>s i. snd (send_to cfg accepts i e s)) s subs)" for subs
    by (rule fold_ok) (auto simp: remaining_same intro: remaining_trans send_to_remaining)
  then show ?thesis by (auto simp: publishAttachEvent_def remaining_same split: option.split)
qed

section \<open>One step of the daemon, seen by a subscribed lease\<close>

lemma subscribed_core: "leases_of s' = leases_of s \<Longrightarrow> subscribed sid s' = subscribed sid s"
  by (simp add: subscribed_def)

text \<open>
  What holds from \<open>s\<close> to \<open>s'\<close> when a lease still held in \<open>s'\<close> was sent exactly \<open>news\<close>.
\<close>

definition delivers :: "string \<Rightarrow> attach_state \<Rightarrow> attach_state \<Rightarrow> attach_event list \<Rightarrow> bool" where
  "delivers sid s s' news \<longleftrightarrow>
     (\<exists>new. ta_sent s' = ta_sent s @ new \<and> (subscribed sid s' \<longrightarrow> frames_for sid new = news)) \<and>
     remaining s s'"

lemma delivers_trans:
  "delivers sid s t xs \<Longrightarrow> delivers sid t u ys \<Longrightarrow> delivers sid s u (xs @ ys)"
  unfolding delivers_def
proof (elim conjE exE, intro conjI exI impI)
  fix new new'
  assume "remaining s t" "remaining t u"
  then show "remaining s u" by (rule remaining_trans)
  assume "ta_sent t = ta_sent s @ new" "ta_sent u = ta_sent t @ new'"
  then show "ta_sent u = ta_sent s @ new @ new'" by simp
  assume "subscribed sid t \<longrightarrow> frames_for sid new = xs" "subscribed sid u \<longrightarrow> frames_for sid new' = ys"
    and "subscribed sid u"
  then show "frames_for sid (new @ new') = xs @ ys"
    using remaining_subscribed [OF \<open>remaining t u\<close>] by simp
qed

lemma delivers_news: "delivers sid s s' news \<Longrightarrow> subscribed sid s' \<Longrightarrow> news_for sid s s' = news"
  by (auto simp: delivers_def news_for_def)

lemma delivers_quiet: "ta_sent s' = ta_sent s \<Longrightarrow> remaining s s' \<Longrightarrow> delivers sid s s' []"
  by (simp add: delivers_def)

lemma delivers_setup:
  "delivers sid t u news \<Longrightarrow> ta_sent t = ta_sent s \<Longrightarrow> leases_of t = leases_of s \<Longrightarrow>
     delivers sid s u news"
  by (simp add: delivers_def remaining_def)

lemma publish_delivers:
  "attach_ok cfg hist s \<Longrightarrow> delivers sid s (publishAttachEvent cfg accepts e s) [e]"
  using publish_news [of cfg hist s accepts e sid] publish_remaining [of s cfg accepts e]
    remaining_subscribed
  by (auto simp: delivers_def)

lemma output_chunk_delivers:
  assumes "attach_ok cfg hist s" and "utf8Bytes chunk \<le> cfg_journalBytes cfg"
    and "output_chunk cfg accepts now chunk s = Some (None, s')"
  shows "delivers sid s s' [Delta (log_bytes (hist @ [chunk])) chunk]"
proof -
  obtain t where t: "attach_ok cfg (hist @ [chunk]) t" "ta_sent t = ta_sent s" "leases_of t = leases_of s"
    "s' = publishAttachEvent cfg accepts (Delta (log_bytes (hist @ [chunk])) chunk) t"
    using output_chunk_publishes [OF assms(1,2), of accepts now] assms(3) by auto
  show ?thesis unfolding t(4)
    by (rule delivers_setup [OF publish_delivers [OF t(1)] t(2,3)])
qed

lemma output_chunks_delivers:
  assumes "config_ok cfg"
  shows "attach_ok cfg hist s \<Longrightarrow> list_all (\<lambda>c. utf8Bytes c \<le> cfg_journalBytes cfg) chunks \<Longrightarrow>
    output_chunks cfg accepts now chunks s = Some (None, s') \<Longrightarrow>
    delivers sid s s' (deltas_from (log_bytes hist) chunks)"
proof (induction chunks arbitrary: hist s)
  case (Cons chunk rest)
  obtain s1 where s1: "output_chunk cfg accepts now chunk s = Some (None, s1)"
    "attach_ok cfg (hist @ [chunk]) s1"
    using output_chunk_ok [OF Cons.prems(1) assms, of chunk accepts now] Cons.prems(2) by auto
  have "delivers sid s s1 [Delta (log_bytes (hist @ [chunk])) chunk]"
    by (rule output_chunk_delivers [OF Cons.prems(1) _ s1(1)]) (use Cons.prems(2) in simp)
  from delivers_trans [OF this Cons.IH [OF s1(2)]] Cons.prems s1(1) show ?case by simp
qed (simp add: delivers_quiet remaining_same)

lemma processOutput_delivers:
  assumes "attach_ok cfg hist s" and "config_ok cfg"
    and "processOutput cfg accepts now data s = Some (e, s')"
  shows "delivers sid s s' (deltas_from (log_bytes hist) (wire_chunks cfg data))"
proof -
  note chunks = wire_chunks_ok(1,3) [OF assms(2), of data]
  from output_chunks_ok [OF assms(2,1) chunks(2), of accepts now] assms(3)
  have "output_chunks cfg accepts now (wire_chunks cfg data) s = Some (None, s')"
    by (auto simp: processOutput_def chunks(1))
  then show ?thesis by (rule output_chunks_delivers [OF assms(2,1) chunks(2)])
qed

lemma pty_output_delivers:
  assumes "attach_ok cfg hist s" and "config_ok cfg"
    and "pty_output cfg accepts now data s = Some (e, s')"
  shows "delivers sid s s' (deltas_from (log_bytes hist) (wire_chunks cfg data))"
proof -
  obtain e1 s1 where s1: "processOutput cfg accepts now data s = Some (e1, s1)"
    "ta_sent s' = ta_sent s1" "leases_of s' = leases_of s1"
    using assms(3) by (auto simp: pty_output_def leases_of_def split: if_splits)
  from delivers_trans [OF processOutput_delivers [OF assms(1,2) s1(1)] delivers_quiet [OF s1(2)]]
  show ?thesis using remaining_same [OF s1(3)] by simp
qed

section \<open>Attaches of other leases\<close>

definition sent_only_to :: "string \<Rightarrow> attach_state \<Rightarrow> attach_state \<Rightarrow> bool" where
  "sent_only_to sid s s' \<longleftrightarrow> (\<exists>events. ta_sent s' = ta_sent s @ map (Pair sid) events)"

lemma sent_only_to_trans: "sent_only_to sid s t \<Longrightarrow> sent_only_to sid t u \<Longrightarrow> sent_only_to sid s u"
  unfolding sent_only_to_def by (metis append_assoc map_append)

lemma sent_only_to_same: "ta_sent s' = ta_sent s \<Longrightarrow> sent_only_to sid s s'"
  unfolding sent_only_to_def by (rule exI [of _ "[]"]) simp

lemma sent_only_to_send: "sent_only_to sid s (snd (send_to cfg accepts sid e s))"
  unfolding sent_only_to_def by (rule exI [of _ "[e]"]) simp

lemma sent_only_to_send_all: "sent_only_to sid s (snd (send_all cfg accepts sid es s))"
proof (induction es arbitrary: s)
  case (Cons e es)
  have "sent_only_to sid s (snd (send_to cfg accepts sid e s))" by (rule sent_only_to_send)
  with Cons.IH sent_only_to_trans show ?case by (auto split: prod.split bool.split) 
qed (simp add: sent_only_to_same)

lemma replay_from_sent: "sent_only_to sid s (replay_from cfg accepts sid j epoch status c s)"
  using sent_only_to_send_all [of sid s cfg accepts "deltasAfter j c"]
  by (auto simp: replay_from_def intro!: sent_only_to_trans [OF _ sent_only_to_send]
      split: prod.split bool.split)

lemma check_cursor_sent:
  assumes "check_cursor cfg accepts sid j epoch opts s = (ok, c, s')"
  shows "sent_only_to sid s s'"
proof -
  have "sent_only_to sid s t" if "send_to cfg accepts sid e (s\<lparr>ta_resets := n\<rparr>) = (ok, t)" for e n ok t
    using sent_only_to_send [of sid "s\<lparr>ta_resets := n\<rparr>" cfg accepts e] that
    by (simp add: sent_only_to_def)
  then show ?thesis
    using assms by (auto simp: check_cursor_def Let_def sent_only_to_same split: if_splits prod.splits)
qed

lemma serve_client_sent:
  "sent_only_to sid s (snd (serve_client cfg accepts sid j epoch status presentation c s))"
proof -
  have "sent_only_to sid s s'" if "send_to cfg accepts sid e s = (ok, s')" for e ok s'
    using sent_only_to_send [of sid s cfg accepts e] that by simp
  then show ?thesis
    by (auto simp: serve_client_def Let_def replay_from_sent sent_only_to_same
        intro!: sent_only_to_trans [OF _ replay_from_sent] split: option.split prod.split bool.split)
qed

lemma attach_sent:
  assumes "attach_ok cfg hist s"
  shows "ta_sent (snd (attach cfg accepts freshEpoch freshId presentation opts s)) = ta_sent s \<or>
    (\<exists>i. \<not> subscribed i s \<and>
      sent_only_to i s (snd (attach cfg accepts freshEpoch freshId presentation opts s)))"
proof (cases "ta_status s")
  case None
  then show ?thesis by (simp add: attach_def)
next
  case (Some status)
  obtain j s1 where s1: "journalFor cfg s = (j, s1)" by (cases "journalFor cfg s")
  obtain epoch s2 where s2: "transportEpochFor freshEpoch s1 = (epoch, s2)"
    by (cases "transportEpochFor freshEpoch s1")
  have same: "ta_sent s2 = ta_sent s" "ta_subscribers s2 = ta_subscribers s"
    using s1 transportEpochFor_core [OF s2]
    by (auto simp: journalFor_def same_core_def Let_def split: option.splits)
  define i where "i = (case ao_leaseId opts of Some i \<Rightarrow> i | None \<Rightarrow> freshId)"
  show ?thesis
  proof (cases "i \<in> set (case ta_subscribers s2 of Some subs \<Rightarrow> subs | None \<Rightarrow> [])")
    case True
    then show ?thesis by (simp add: attach_def Some s1 s2 i_def Let_def same)
  next
    case False
    then have "\<not> subscribed i s"
      using subscribers_of [OF assms] by (simp add: subscribed_def same split: option.splits)
    obtain ok c s3 where s3:
      "check_cursor cfg accepts i j epoch opts (register_subscriber i (j_cursor j) s2) = (ok, c, s3)"
      by (rule prod_cases3)
    have "sent_only_to i s (register_subscriber i (j_cursor j) s2)"
      by (rule sent_only_to_same) (simp add: same)
    from sent_only_to_trans [OF this check_cursor_sent [OF s3]]
    have sent: "sent_only_to i s s3" .
    have "sent_only_to i s (snd (serve_client cfg accepts i j epoch status presentation c s3))"
      by (rule sent_only_to_trans [OF sent serve_client_sent])
    with sent False s3 have
      "sent_only_to i s (snd (attach cfg accepts freshEpoch freshId presentation opts s))"
      by (cases ok; cases "ta_subscribers s2") (simp_all add: attach_def Some s1 s2 i_def [symmetric] Let_def)
    with \<open>\<not> subscribed i s\<close> show ?thesis by blast
  qed
qed

lemma attach_no_news:
  assumes "attach_ok cfg hist s" and "subscribed sid s"
  shows "news_for sid s (snd (attach cfg accepts freshEpoch freshId presentation opts s)) = []"
  using attach_sent [OF assms(1), of accepts freshEpoch freshId presentation opts] assms(2)
  by (auto simp: sent_only_to_def news_for_def)

section \<open>Acknowledgements, exit and restart\<close>

lemma acknowledge_sent [simp]: "ta_sent (snd (acknowledge cfg now lease c s)) = ta_sent s"
  by (simp add: acknowledge_def commit_leases_def Let_def split: option.split)

lemma exit_delivers:
  assumes "attach_ok cfg hist s" and "config_ok cfg"
  shows "delivers sid s (terminal_exit cfg accepts code sig s) [ExitEvent code sig]"
proof -
  let ?s1 = "s\<lparr>ta_flow := flow_exit (ta_flow s), ta_status := map_option (\<lambda>_. ''stopped'') (ta_status s)\<rparr>"
  have "attach_ok cfg hist (s\<lparr>ta_flow := flow_exit (ta_flow s)\<rparr>)"
    by (rule attach_ok_flow [OF assms(1)]) (use assms in \<open>simp_all add: attach_ok_def flow_ok_steps config_ok_def\<close>)
  moreover have "same_core ?s1 (s\<lparr>ta_flow := flow_exit (ta_flow s)\<rparr>)" by (simp add: same_core_def)
  ultimately have ok: "attach_ok cfg hist ?s1" by (simp only: attach_ok_core)
  show ?thesis unfolding terminal_exit_def
    by (rule delivers_setup [OF publish_delivers [OF ok]]) (simp_all add: leases_of_def)
qed

lemma restart_delivers:
  assumes "attach_ok cfg hist s" and "config_ok cfg"
  shows "delivers sid s (restart_transport cfg accepts epoch s)
    [ResetEvent epoch EpochChanged, Snapshot 0 [], Meta epoch True, ReplayComplete]"
proof -
  obtain s1 where s1: "attach_ok cfg [] s1" "ta_sent s1 = ta_sent s" "map fst (leases_of s1) = map fst (leases_of s)"
    "restart_transport cfg accepts epoch s =
      (let s5 = publishAttachEvent cfg accepts ReplayComplete
        (publishAttachEvent cfg accepts (Meta epoch True)
          (publishAttachEvent cfg accepts (Snapshot 0 [])
            (publishAttachEvent cfg accepts (ResetEvent epoch EpochChanged) s1)))
       in s5\<lparr>ta_flow := flow_spawn (ta_flow s5)\<rparr>)"
    using restart_setup [OF assms, of epoch] by (auto simp: restart_transport_def Let_def)
  note p = publish_delivers [of cfg "[]" _ sid accepts]
  note ok = publishAttachEvent_ok [OF _ assms(2)]
  have "delivers sid s1 (restart_transport cfg accepts epoch s)
    ((([ResetEvent epoch EpochChanged] @ [Snapshot 0 []]) @ [Meta epoch True]) @ [ReplayComplete])"
    (is "delivers sid s1 ?r ?es")
  proof -
    have "delivers sid s1 (publishAttachEvent cfg accepts ReplayComplete
        (publishAttachEvent cfg accepts (Meta epoch True)
          (publishAttachEvent cfg accepts (Snapshot 0 [])
            (publishAttachEvent cfg accepts (ResetEvent epoch EpochChanged) s1)))) ?es"
      by (intro delivers_trans [OF _ p] p ok s1(1))
    then show ?thesis by (simp add: s1(4) Let_def delivers_def remaining_def subscribed_def leases_of_def)
  qed
  then show ?thesis using s1(2,3) by (simp add: delivers_def remaining_def flip: set_map)
qed

section \<open>Every step\<close>

text \<open>
  The news of a lease held before and after a step: deltas for the output, a fresh start for a
  restart, and nothing a pane draws otherwise.
\<close>

definition quiet_frame :: "attach_event \<Rightarrow> bool" where
  "quiet_frame e = (case e of ExitEvent _ _ \<Rightarrow> True | _ \<Rightarrow> False)"

lemma attach_step_news:
  assumes "attach_step cfg accepts x y" and "config_ok cfg" and "attach_ok cfg (fst x) (snd x)"
    and "subscribed sid (snd x)" and "subscribed sid (snd y)"
  shows "(\<exists>chunks. fst y = fst x @ chunks \<and> news_for sid (snd x) (snd y) = deltas_from (log_bytes (fst x)) chunks)
    \<or> fst y = fst x \<and> list_all quiet_frame (news_for sid (snd x) (snd y))
    \<or> (\<exists>ep. fst y = [] \<and> news_for sid (snd x) (snd y) =
          [ResetEvent ep EpochChanged, Snapshot 0 [], Meta ep True, ReplayComplete])"
  using assms(1,3-)
proof (induction rule: attach_step.induct)
  case (emitted_output now data s e s' hist)
  from delivers_news [OF pty_output_delivers [OF _ assms(2) emitted_output(1)]] emitted_output(2-)
  show ?case by fastforce
next
  case (revived now data s e s' hist)
  from delivers_news [OF processOutput_delivers [OF _ assms(2) revived(1)]] revived(2-)
  show ?case by fastforce
next
  case (exited hist s code sig)
  from delivers_news [OF exit_delivers [OF _ assms(2)], of hist s sid accepts code sig] exited
  show ?case by (simp add: quiet_frame_def)
next
  case (restarted hist s epoch)
  from delivers_news [OF restart_delivers [OF _ assms(2)], of hist s sid accepts epoch] restarted
  show ?case by auto
next
  case (removed hist s)
  then show ?case by (simp add: subscribed_def remove_transport_def leases_of_def)
next
  case (attached hist s freshEpoch freshId snapshot opts)
  then show ?case by (simp add: attach_no_news)
qed (simp_all add: news_for_def output_parsed_def)

lemma quiet_in_step:
  "list_all quiet_frame es \<Longrightarrow> in_step feed blank scr hist l \<Longrightarrow>
     in_step feed blank scr hist (foldl (handle_frame batch True) l es)"
proof (induction es arbitrary: l)
  case (Cons e es)
  then obtain code sig where e: "e = ExitEvent code sig" by (cases e) (auto simp: quiet_frame_def)
  from Cons.IH [OF _ handle_quiet(3) [OF Cons.prems(2)]] Cons.prems(1) show ?case by (simp add: e)
qed simp

lemma deltas_in_step:
  assumes "in_step feed blank scr hist l"
  shows "in_step feed blank scr (hist @ chunks)
    (foldl (handle_frame batch True) l (deltas_from (log_bytes hist) chunks))"
  by (rule deltas_keep_in_step [of _ _ _ "length hist"]) (use assms in simp_all)

lemma restart_in_step:
  "in_step feed blank scr [] (foldl (handle_frame batch True) l
     [ResetEvent ep r, Snapshot 0 [], Meta ep running, ReplayComplete])"
proof -
  have "in_step feed blank scr []
      (handle_frame batch True (handle_frame batch True l (ResetEvent ep r)) (Snapshot (log_bytes []) []))"
    by (rule handle_snapshot) simp
  from handle_quiet(2) [OF handle_quiet(1) [OF this]] show ?thesis by simp
qed

end
