(* ===== verification/Attach_Watch.thy ===== *)
theory Attach_Watch
  imports Attach_View
begin

text \<open>
  A pane from its attach on: the frames an attach sends, whatever the client's cursor, bring the
  pane in step with the output, and every later step of the daemon keeps it there as long as its
  lease is held (\<open>watch_step\<close>).
\<close>

section \<open>Attaching\<close>

text \<open>A lease whose queue refused a frame is gone; frames to a held lease were all accepted.\<close>

lemma remove_unsubscribes:
  assumes "attach_ok cfg hist s"
  shows "\<not> subscribed sid (snd (removeAttachSubscriber cfg sid s))"
proof
  assume sub: "subscribed sid (snd (removeAttachSubscriber cfg sid s))"
  then have held: "subscribed sid s" by (rule remaining_subscribed [OF remove_remaining])
  then have ls: "ta_subscribers s = Some (map fst (leases_of s))" "ta_leases s = Some (leases_of s)"
    using assms by (auto simp: attach_ok_def leases_ok_def nonempty_def subscribed_def)
  let ?ls' = "filter (\<lambda>e. fst e \<noteq> sid) (leases_of s)"
  let ?s1 = "s\<lparr>ta_subscribers := Some (map fst ?ls'), ta_flow := detachFlowControlConsumer (ta_flow s)\<rparr>"
  obtain j s2 where s2: "journalFor cfg ?s1 = (j, s2)" by (cases "journalFor cfg ?s1")
  have "ta_leases (snd (removeAttachSubscriber cfg sid s)) = (if ?ls' = [] then None else Some ?ls')"
    using held s2
    by (cases "?ls' = []") (simp_all add: removeAttachSubscriber_def ls subscribed_def filter_fst_neq Let_def)
  then have "leases_of (snd (removeAttachSubscriber cfg sid s)) = ?ls'"
    by (simp add: leases_of_def [of "snd (removeAttachSubscriber cfg sid s)"])
  with sub show False by (auto simp: subscribed_def)
qed

lemma send_to_delivers: "delivers sid s (snd (send_to cfg accepts sid e s)) [e]"
  using send_to_remaining [of s cfg accepts sid e] by (simp add: delivers_def frames_for_def)

lemma send_to_refused:
  assumes "attach_ok cfg hist s" and "send_to cfg accepts sid e s = (False, s')"
  shows "\<not> subscribed sid s'"
proof -
  have "attach_ok cfg hist (s\<lparr>ta_sent := xs\<rparr>)" for xs
    using assms(1) by (subst attach_ok_core [of _ s]) (simp_all add: same_core_def)
  then show ?thesis
    using assms(2) remove_unsubscribes [of cfg hist "s\<lparr>ta_sent := ta_sent s @ [(sid, e)]\<rparr>" sid]
    by (auto simp: send_to_def Let_def split: if_splits)
qed

lemma send_to_step:
  assumes "attach_ok cfg hist s" and "config_ok cfg" and "send_to cfg accepts sid e s = (ok, s')"
  shows "attach_ok cfg hist s'" "delivers sid s s' [e]" "\<not> ok \<Longrightarrow> \<not> subscribed sid s'"
  using send_to_ok [OF assms(1,2), of accepts sid e] send_to_delivers [of sid s cfg accepts e]
    send_to_refused [OF assms(1)] assms(3) by auto

text \<open>Nothing needs to be delivered to a lease that is gone.\<close>

lemma delivers_gone: "delivers sid s s' es \<Longrightarrow> \<not> subscribed sid s' \<Longrightarrow> delivers sid s s' fs"
  by (simp add: delivers_def)

lemma send_all_step:
  assumes "config_ok cfg"
  shows "attach_ok cfg hist s \<Longrightarrow> send_all cfg accepts sid es s = (ok, s') \<Longrightarrow>
    attach_ok cfg hist s' \<and> delivers sid s s' es \<and> (ok \<or> \<not> subscribed sid s')"
proof (induction es arbitrary: s)
  case (Cons e es)
  obtain ok1 s1 where s1: "send_to cfg accepts sid e s = (ok1, s1)" by fastforce
  note step = send_to_step [OF Cons.prems(1) assms s1]
  show ?case
  proof (cases ok1)
    case True
    with Cons.IH [OF step(1)] Cons.prems(2) s1
    show ?thesis using delivers_trans [OF step(2)] by fastforce
  next
    case False
    with Cons.prems(2) s1 step show ?thesis by (auto intro: delivers_gone)
  qed
qed (simp add: delivers_quiet remaining_same)

lemma replay_from_delivers:
  assumes "attach_ok cfg hist s" and "config_ok cfg"
  shows "delivers sid s (replay_from cfg accepts sid j epoch status c s)
    (deltasAfter j c @ [Meta epoch (status = ''running''), ReplayComplete])"
proof -
  obtain ok s1 where s1: "send_all cfg accepts sid (deltasAfter j c) s = (ok, s1)" by fastforce
  note step = send_all_step [OF assms(2,1) s1]
  show ?thesis
  proof (cases ok)
    case True
    have "delivers sid s1 (snd (send_to cfg accepts sid ReplayComplete
          (snd (send_to cfg accepts sid (Meta epoch (status = ''running'')) s1))))
        ([Meta epoch (status = ''running'')] @ [ReplayComplete])"
      by (rule delivers_trans [OF send_to_delivers send_to_delivers])
    from delivers_trans [OF conjunct1 [OF conjunct2 [OF step]] this] True s1
    show ?thesis by (simp add: replay_from_def)
  next
    case False
    with step s1 show ?thesis by (auto simp: replay_from_def intro: delivers_gone)
  qed
qed

definition reset_due :: "journal \<Rightarrow> string \<Rightarrow> attach_options \<Rightarrow> bool" where
  "reset_due j epoch opts \<longleftrightarrow>
     ao_epoch opts \<noteq> None \<and> ao_epoch opts \<noteq> Some epoch \<or>
     (case ao_cursor opts of Some c \<Rightarrow> \<not> retains j c | None \<Rightarrow> False)"

lemma check_cursor_step:
  assumes "attach_ok cfg hist s" and "config_ok cfg"
    and "check_cursor cfg accepts sid j epoch opts s = (ok, c, s')"
  shows "\<exists>r. delivers sid s s' (if reset_due j epoch opts then [ResetEvent epoch r] else []) \<and>
    c = (if reset_due j epoch opts then None else ao_cursor opts) \<and> (ok \<or> \<not> subscribed sid s') \<and>
    ta_parsed s' = ta_parsed s"
proof (cases "reset_due j epoch opts")
  case True
  then obtain r n where s': "send_to cfg accepts sid (ResetEvent epoch r) (s\<lparr>ta_resets := n\<rparr>) = (ok, s')" "c = None"
    using assms(3) by (auto simp: check_cursor_def reset_due_def Let_def split: if_splits prod.splits)
  note step = send_to_step [OF attach_ok_reset_count [OF assms(1)] assms(2) s'(1)]
  have "delivers sid s s' [ResetEvent epoch r]"
    by (rule delivers_setup [OF step(2)]) (simp_all add: leases_of_def)
  moreover have "ta_parsed s' = ta_parsed s"
    using s'(1) by (auto simp: send_to_def removeAttachSubscriber_def journalFor_def commit_leases_def Let_def
        split: if_splits option.splits)
  ultimately show ?thesis using True step(3) s'(2) by auto
next
  case False
  then have "check_cursor cfg accepts sid j epoch opts s = (True, ao_cursor opts, s)"
    by (simp only: check_cursor_def reset_due_def Let_def if_False)
  with False assms(3) show ?thesis by (simp add: delivers_quiet remaining_same)
qed

text \<open>The frames of an attach that succeeds.\<close>

definition attach_news ::
    "journal \<Rightarrow> string \<Rightarrow> string \<Rightarrow> js_string \<Rightarrow> nat \<Rightarrow> reset_reason \<Rightarrow> attach_options \<Rightarrow> attach_event list" where
  "attach_news j epoch status presentation parsed r opts =
     (let tail = (\<lambda>c. deltasAfter j c @ [Meta epoch (status = ''running''), ReplayComplete]) in
      if reset_due j epoch opts then ResetEvent epoch r # Snapshot parsed presentation # tail parsed
      else (case ao_cursor opts of
              Some c \<Rightarrow> tail c
            | None \<Rightarrow> Snapshot parsed presentation # tail parsed))"

lemma serve_client_delivers:
  assumes "attach_ok cfg hist s" and "config_ok cfg"
    and "serve_client cfg accepts sid j epoch status presentation c s = (r, s')"
    and "ta_parsed s = Some parsed \<or> ta_parsed s = None \<and> parsed = 0"
  shows "delivers sid s s'
    (case c of Some c \<Rightarrow> deltasAfter j c @ [Meta epoch (status = ''running''), ReplayComplete]
     | None \<Rightarrow> Snapshot parsed presentation # deltasAfter j parsed @ [Meta epoch (status = ''running''), ReplayComplete])"
proof (cases c)
  case (Some n)
  then show ?thesis using assms(3) replay_from_delivers [OF assms(1,2)] by (auto simp: serve_client_def)
next
  case None
  have parsed: "(case ta_parsed s of Some c \<Rightarrow> c | None \<Rightarrow> 0) = parsed" using assms(4) by auto
  show ?thesis
  proof (cases "cfg_snapshotBytes cfg < utf8Bytes presentation")
    case True
    then have "s' = snd (removeAttachSubscriber cfg sid s)" using assms(3) None by (simp add: serve_client_def)
    moreover from this have "delivers sid s s' []" by (simp add: delivers_quiet remove_remaining)
    ultimately show ?thesis using remove_unsubscribes [OF assms(1)] delivers_gone by blast
  next
    case False
    obtain ok s1 where s1: "send_to cfg accepts sid (Snapshot parsed presentation) s = (ok, s1)" by fastforce
    note step = send_to_step [OF assms(1,2) s1]
    show ?thesis
    proof (cases ok)
      case True
      from delivers_trans [OF step(2) replay_from_delivers [OF step(1) assms(2)]] True False s1 None assms(3) parsed
      show ?thesis by (auto simp: serve_client_def)
    next
      case ok: False
      with False s1 None assms(3) parsed have "s' = s1" by (auto simp: serve_client_def)
      then show ?thesis using delivers_gone [OF step(2) step(3) [OF ok]] by simp
    qed
  qed
qed


lemma attach_delivers:
  assumes "attach_ok cfg hist s" and "config_ok cfg" and "ta_status s = Some status"
    and "ta_parsed s = Some parsed \<or> ta_parsed s = None \<and> parsed = 0"
    and "attach cfg accepts freshEpoch freshId presentation opts s = (Inr sid, s')"
    and "subscribed sid s'"
  shows "\<not> subscribed sid s \<and> attach_ok cfg hist s' \<and>
    (\<exists>r. news_for sid s s' = attach_news (journal_of (cfg_journalBytes cfg) hist)
       (case ta_epoch s of Some e \<Rightarrow> e | None \<Rightarrow> freshEpoch) status presentation parsed r opts)"
proof -
  let ?j = "journal_of (cfg_journalBytes cfg) hist"
  let ?s1 = "s\<lparr>ta_journal := Some ?j\<rparr>"
  obtain epoch s2 where s2: "transportEpochFor freshEpoch ?s1 = (epoch, s2)" by (cases "transportEpochFor freshEpoch ?s1")
  have jf: "journalFor cfg s = (?j, ?s1)"
    by (rule journalFor_ok) (use assms(1) in \<open>simp add: attach_ok_def\<close>)
  have s1_ok: "attach_ok cfg hist ?s1"
    using assms(1) by (simp add: attach_ok_def journal_ok_def leases_ok_def leases_of_def)
  have core: "same_core s2 ?s1" "ta_sent s2 = ta_sent s" "ta_parsed s2 = ta_parsed s"
    using transportEpochFor_core [OF s2] by auto
  then have s2_ok: "attach_ok cfg hist s2" and ls: "leases_of s2 = leases_of s"
    and subs: "ta_subscribers s2 = ta_subscribers s"
    using attach_ok_core [OF core(1)] s1_ok by (auto simp: same_core_def leases_of_def)
  have epoch: "epoch = (case ta_epoch s of Some e \<Rightarrow> e | None \<Rightarrow> freshEpoch)"
    using s2 by (auto simp: transportEpochFor_def split: option.splits)
  define i where "i = (case ao_leaseId opts of Some i \<Rightarrow> i | None \<Rightarrow> freshId)"
  have new: "i \<notin> set (map fst (leases_of s2))"
  proof
    assume "i \<in> set (map fst (leases_of s2))"
    then obtain subs where "ta_subscribers s2 = Some subs" "i \<in> set subs"
      using subscribers_of [OF s2_ok] by (auto split: option.splits)
    then show False using assms(5) by (simp add: attach_def assms(3) jf s2 i_def Let_def)
  qed
  let ?s3 = "register_subscriber i (log_bytes hist) s2"
  have s3_ok: "attach_ok cfg hist ?s3"
    using s2_ok assms(2) core new by (intro register_ok) (simp_all add: same_core_def)
  obtain ok c s4 where s4: "check_cursor cfg accepts i ?j epoch opts ?s3 = (ok, c, s4)" by (rule prod_cases3)
  have s4_ok: "attach_ok cfg hist s4" by (rule check_cursor_ok [OF s3_ok assms(2) s4])
  obtain r where r: "delivers i ?s3 s4 (if reset_due ?j epoch opts then [ResetEvent epoch r] else [])"
    "c = (if reset_due ?j epoch opts then None else ao_cursor opts)" "ok \<or> \<not> subscribed i s4"
    "ta_parsed s4 = ta_parsed s"
    using check_cursor_step [OF s3_ok assms(2) s4] core(3) by auto
  have "i \<notin> set (case ta_subscribers s2 of Some subs \<Rightarrow> subs | None \<Rightarrow> [])"
    using subscribers_of [OF s2_ok] new by (simp split: option.splits)
  moreover have "j_cursor ?j = log_bytes hist" by (simp add: journal_of_def)
  ultimately have eq: "attach cfg accepts freshEpoch freshId presentation opts s
      = (if ok then serve_client cfg accepts i ?j epoch status presentation c s4 else (Inr i, s4))"
    using s4 by (cases ok; cases "ta_subscribers s2") (simp_all add: attach_def assms(3) jf s2 i_def [symmetric] Let_def)
  have "i = sid" using eq assms(5)
    by (auto simp: serve_client_def Let_def split: if_splits option.splits prod.splits bool.splits)
  with r(3) eq assms(5,6) have ok: "serve_client cfg accepts sid ?j epoch status presentation c s4 = (Inr sid, s')"
    by (auto split: if_splits)
  have "ta_parsed s4 = Some parsed \<or> ta_parsed s4 = None \<and> parsed = 0" using assms(4) r(4) by simp
  from delivers_trans [OF r(1) [unfolded \<open>i = sid\<close>] serve_client_delivers [OF s4_ok assms(2) ok this]] r(2)
  have "delivers sid ?s3 s' (attach_news ?j epoch status presentation parsed r opts)"
    by (simp add: attach_news_def Let_def \<open>i = sid\<close> split: if_splits option.splits)
  from delivers_news [OF this assms(6)]
  have "news_for sid s s' = attach_news ?j epoch status presentation parsed r opts"
    by (simp add: news_for_def core(2))
  moreover have "\<not> subscribed sid s" using new ls by (simp add: subscribed_def \<open>i = sid\<close>)
  moreover have "attach_ok cfg hist s'"
    using attach_protocol_ok [OF assms(1,2), of accepts freshEpoch freshId presentation opts] assms(5) by simp
  ultimately show ?thesis unfolding epoch by blast
qed

lemma attach_news_in_step:
  fixes hist :: "js_string list" and m :: nat
  defines "j \<equiv> journal_of m hist"
  assumes "p \<le> length hist" and "retains j (log_bytes (take p hist))"
    and "emulate feed blank presentation = emulate feed blank (concat (take p hist))"
    and resume: "\<And>c. ao_cursor opts = Some c \<Longrightarrow> \<not> reset_due j epoch opts \<Longrightarrow>
      \<exists>k\<le>length hist. c = log_bytes (take k hist) \<and> scr = emulate feed blank (concat (take k hist))"
  shows "in_step feed blank scr hist
    (foldl (handle_frame batch True) (createTerminalAttachLoop restoring (ao_cursor opts))
      (attach_news j epoch status presentation (log_bytes (take p hist)) r opts))"
proof -
  have tail: "in_step feed blank scr hist (foldl (handle_frame batch True) l
      (deltasAfter j (log_bytes (take k hist)) @ [Meta epoch (status = ''running''), ReplayComplete]))"
    if "in_step feed blank scr (take k hist) l" "k \<le> length hist" "retains j (log_bytes (take k hist))" for k l
    using handle_quiet(2) [OF handle_quiet(1) [OF deltasAfter_in_step [OF that(1,2) that(3) [unfolded j_def]]]]
    by (simp add: j_def)
  have snapshot: "in_step feed blank scr hist (foldl (handle_frame batch True) l
      (Snapshot (log_bytes (take p hist)) presentation #
       deltasAfter j (log_bytes (take p hist)) @ [Meta epoch (status = ''running''), ReplayComplete]))" for l
    using tail [OF handle_snapshot [OF assms(4)] assms(2,3), of batch l] by simp
  show ?thesis
  proof (cases "reset_due j epoch opts")
    case True
    then show ?thesis using snapshot by (simp add: attach_news_def)
  next
    case no_reset: False
    show ?thesis
    proof (cases "ao_cursor opts")
      case None
      with no_reset snapshot show ?thesis by (simp add: attach_news_def)
    next
      case (Some c)
      obtain k where k: "k \<le> length hist" "c = log_bytes (take k hist)"
        "scr = emulate feed blank (concat (take k hist))"
        using resume [OF Some no_reset] by blast
      have "retains j c" using no_reset Some by (simp add: reset_due_def)
      moreover have "in_step feed blank scr (take k hist) (createTerminalAttachLoop restoring (Some c))"
        using k by (simp add: in_step_def createTerminalAttachLoop_def screen_after_def Let_def)
      ultimately show ?thesis using tail [of k] k no_reset Some by (simp add: attach_news_def)
    qed
  qed
qed

section \<open>Watching a terminal\<close>

text \<open>
  A watched terminal: the ghost history, the daemon's state and the loop of the pane holding the
  lease \<open>sid\<close>. A step is one of the daemon's, followed by the frames it sent to that lease; it
  is watched as long as the lease is held.
\<close>

inductive watch_step ::
    "attach_config \<Rightarrow> acceptance \<Rightarrow> nat \<Rightarrow> string \<Rightarrow> (js_string list \<times> attach_state) \<times> attach_loop
      \<Rightarrow> (js_string list \<times> attach_state) \<times> attach_loop \<Rightarrow> bool"
  for cfg accepts batch sid where
  watched: "attach_step cfg accepts x y \<Longrightarrow> subscribed sid (snd x) \<Longrightarrow> subscribed sid (snd y) \<Longrightarrow>
    watch_step cfg accepts batch sid (x, l)
      (y, foldl (handle_frame batch True) l (news_for sid (snd x) (snd y)))"

lemma watch_step_in_step:
  assumes "watch_step cfg accepts batch sid a b" and "config_ok cfg"
    and "attach_ok cfg (fst (fst a)) (snd (fst a)) \<and> in_step feed blank scr (fst (fst a)) (snd a)"
  shows "attach_ok cfg (fst (fst b)) (snd (fst b)) \<and> in_step feed blank scr (fst (fst b)) (snd b)"
  using assms(1,3)
proof (induction rule: watch_step.induct)
  case (watched x y l)
  have ok: "attach_ok cfg (fst y) (snd y)"
    by (rule attach_step_ok [OF watched(1) assms(2)]) (use watched(4) in simp)
  have okx: "attach_ok cfg (fst x) (snd x)" and l: "in_step feed blank scr (fst x) l"
    using watched(4) by simp_all
  from attach_step_news [OF watched(1) assms(2) okx watched(2,3)]
  have "in_step feed blank scr (fst y) (foldl (handle_frame batch True) l (news_for sid (snd x) (snd y)))"
    by (elim disjE exE conjE) (simp_all only: deltas_in_step [OF l] quiet_in_step [OF _ l] restart_in_step)
  with ok show ?case by simp
qed

lemma watched_in_step:
  assumes "(watch_step cfg accepts batch sid)\<^sup>*\<^sup>* a b" and "config_ok cfg"
    and "attach_ok cfg (fst (fst a)) (snd (fst a))" and "in_step feed blank scr (fst (fst a)) (snd a)"
  shows "attach_ok cfg (fst (fst b)) (snd (fst b)) \<and> in_step feed blank scr (fst (fst b)) (snd b)"
  using assms(1)
proof (induction rule: rtranclp_induct)
  case base
  then show ?case using assms(3,4) by simp
next
  case (step b c)
  show ?case by (rule watch_step_in_step [OF step(2) assms(2) step(3)])
qed

lemma watched_loop_ok:
  assumes "(watch_step cfg accepts batch sid)\<^sup>*\<^sup>* a b" and "0 < batch" and "loop_ok batch (snd a)"
  shows "loop_ok batch (snd b)"
proof -
  have fold: "loop_ok batch l \<Longrightarrow> loop_ok batch (foldl (handle_frame batch True) l es)" for l es
    by (induction es arbitrary: l) (simp_all add: handle_frame_ok [OF assms(2)])
  show ?thesis
    using assms(1,3) by (induction rule: rtranclp_induct) (auto elim!: watch_step.cases intro: fold)
qed

end
