(* ===== verification/Pane_Input.thy ===== *)
theory Pane_Input
  imports Utf16 "HOL-Library.Sublist"
begin

text \<open>
  A pane's input lane, in \<open>apps/web/src/hooks/use-terminal-rpc.ts\<close>: keystrokes queue behind one
  \<open>terminal.write\<close> in flight, the queue is bounded in bytes, and a write whose outcome is unknown
  drops everything behind it instead of retrying. The state holds the lane and, for what the
  pane does to the outside, the writes issued in order (\<open>il_issued\<close>), the keystrokes taken
  (\<open>il_taken\<close>) and the reattaches asked for. \<open>il_inFlight\<close> is the item whose write is awaited.
\<close>

definition INPUT_WRITE_BYTES :: int where "INPUT_WRITE_BYTES = 64 * 1024"

definition INPUT_PENDING_BYTES :: int where "INPUT_PENDING_BYTES = 64 * 1024"

record input_lane =
  il_active :: bool
  il_bytes :: int
  il_queue :: "(js_string \<times> int) list"
  il_writing :: bool
  il_inFlight :: "(js_string \<times> int) option"
  il_issued :: "js_string list"
  il_taken :: "js_string list"
  il_reattaches :: nat

definition makeInputLane :: "bool \<Rightarrow> input_lane" where
  "makeInputLane active =
     \<lparr>il_active = active, il_bytes = 0, il_queue = [], il_writing = False, il_inFlight = None,
      il_issued = [], il_taken = [], il_reattaches = 0\<rparr>"

text \<open>The head of the loop of \<open>drain\<close>, up to the await or the end of the loop.\<close>

definition drain_head :: "input_lane \<Rightarrow> input_lane" where
  "drain_head lane =
     (case il_queue lane of
        item # _ \<Rightarrow>
          if il_active lane
          then lane\<lparr>il_inFlight := Some item, il_issued := il_issued lane @ [fst item]\<rparr>
          else lane\<lparr>il_inFlight := None, il_writing := False\<rparr>
      | [] \<Rightarrow> lane\<lparr>il_inFlight := None, il_writing := False\<rparr>)"

definition send_input :: "js_string \<Rightarrow> input_lane \<Rightarrow> input_lane" where
  "send_input data lane =
     (if \<not> il_active lane then lane
      else
        (let bytes = int (utf8Bytes data)
         in if INPUT_WRITE_BYTES < bytes \<or> INPUT_PENDING_BYTES < il_bytes lane + bytes
            then lane\<lparr>il_reattaches := il_reattaches lane + 1\<rparr>
            else
              (let lane1 = lane\<lparr>il_queue := il_queue lane @ [(data, bytes)],
                                il_bytes := il_bytes lane + bytes,
                                il_taken := il_taken lane @ [data]\<rparr>
               in if il_writing lane1 then lane1
                  else drain_head (lane1\<lparr>il_writing := True\<rparr>))))"

text \<open>The awaited write settles.\<close>

definition write_settled :: "bool \<Rightarrow> input_lane \<Rightarrow> input_lane" where
  "write_settled succeeded lane =
     (case il_inFlight lane of
        None \<Rightarrow> lane
      | Some item \<Rightarrow>
          if succeeded
          then drain_head (lane\<lparr>il_queue := drop 1 (il_queue lane),
                                il_bytes := il_bytes lane - snd item\<rparr>)
          else lane\<lparr>il_reattaches := (if il_active lane then il_reattaches lane + 1 else il_reattaches lane),
                    il_queue := [], il_bytes := 0, il_inFlight := None, il_writing := False\<rparr>)"

text \<open>The effect's cleanup: the pane adopts another terminal or unmounts.\<close>

definition retire_lane :: "input_lane \<Rightarrow> input_lane" where
  "retire_lane lane = lane\<lparr>il_active := False, il_queue := [], il_bytes := 0\<rparr>"

section \<open>Runs\<close>

inductive lane_step :: "input_lane \<Rightarrow> input_lane \<Rightarrow> bool" where
  typed: "lane_step lane (send_input data lane)"
| settled_write: "lane_step lane (write_settled succeeded lane)"
| retired: "lane_step lane (retire_lane lane)"

text \<open>
  The invariant. \<open>il_issued\<close> is a subsequence of what was taken, followed in the taken order by
  the queued items that are not issued yet.
\<close>

definition unissued_items :: "input_lane \<Rightarrow> js_string list" where
  "unissued_items lane = map fst (if il_inFlight lane = None then il_queue lane else drop 1 (il_queue lane))"

definition input_ok :: "input_lane \<Rightarrow> bool" where
  "input_ok lane \<longleftrightarrow>
     subseq (il_issued lane @ unissued_items lane) (il_taken lane) \<and>
     (il_active lane \<longrightarrow>
        il_bytes lane = sum_list (map snd (il_queue lane)) \<and>
        list_all (\<lambda>e. 0 \<le> snd e \<and> snd e = int (utf8Bytes (fst e))) (il_queue lane) \<and>
        il_bytes lane \<le> INPUT_PENDING_BYTES \<and>
        (case il_inFlight lane of None \<Rightarrow> il_queue lane = [] | Some item \<Rightarrow>
           \<exists>rest. il_queue lane = item # rest) \<and>
        il_writing lane = (il_inFlight lane \<noteq> None)) \<and>
     (\<not> il_active lane \<longrightarrow> il_queue lane = [])"

lemma makeInputLane_ok: "input_ok (makeInputLane active)"
  by (simp add: input_ok_def makeInputLane_def unissued_items_def INPUT_PENDING_BYTES_def)

lemma subseq_snoc: "subseq xs ys \<Longrightarrow> subseq (xs @ [x]) (ys @ [x])"
  by (rule list_emb_append_mono) simp_all

lemma subseq_prefix: "subseq (xs @ zs) ys \<Longrightarrow> subseq xs ys"
  by (meson subseq_append_iff subseq_order.trans subseq_rev_drop_many list_emb_append2 subseq_order.order_refl)

lemma lane_step_ok:
  assumes "lane_step lane lane'" and "input_ok lane"
  shows "input_ok lane'"
  using assms
proof (induction rule: lane_step.induct)
  case (typed lane data)
  show ?case
  proof (cases "\<not> il_active lane \<or> INPUT_WRITE_BYTES < int (utf8Bytes data)
      \<or> INPUT_PENDING_BYTES < il_bytes lane + int (utf8Bytes data)")
    case True
    with typed show ?thesis by (auto simp: send_input_def input_ok_def unissued_items_def Let_def)
  next
    case False
    show ?thesis
    proof (cases "il_inFlight lane")
      case None
      with False typed show ?thesis
        using subseq_snoc [of "il_issued lane" "il_taken lane" data]
        by (auto simp: send_input_def input_ok_def unissued_items_def drain_head_def Let_def)
    next
      case (Some item)
      with False typed show ?thesis
        using subseq_snoc [of "il_issued lane @ unissued_items lane" "il_taken lane" data]
        by (auto simp: send_input_def input_ok_def unissued_items_def Let_def)
    qed
  qed
next
  case (settled_write lane succeeded)
  show ?case
  proof (cases "il_inFlight lane")
    case None
    with settled_write show ?thesis by (simp add: write_settled_def)
  next
    case (Some item)
    show ?thesis
    proof (cases "succeeded \<and> il_active lane")
      case True
      then obtain rest where "il_queue lane = item # rest" using settled_write Some by (auto simp: input_ok_def)
      with True Some settled_write show ?thesis
        by (cases rest) (auto simp: write_settled_def input_ok_def unissued_items_def drain_head_def)
    next
      case False
      with Some settled_write show ?thesis
        using subseq_prefix [of "il_issued lane" "unissued_items lane" "il_taken lane"]
        by (auto simp: write_settled_def input_ok_def unissued_items_def drain_head_def INPUT_PENDING_BYTES_def)
    qed
  qed
next
  case (retired lane)
  then show ?case
    using subseq_prefix [of "il_issued lane" "unissued_items lane" "il_taken lane"]
    by (auto simp: retire_lane_def input_ok_def unissued_items_def)
qed

lemma lane_run_ok: "lane_step\<^sup>*\<^sup>* lane lane' \<Longrightarrow> input_ok lane \<Longrightarrow> input_ok lane'"
  by (induction rule: rtranclp_induct) (auto intro: lane_step_ok)

section \<open>Without failures nothing is lost\<close>

inductive steady_step :: "input_lane \<Rightarrow> input_lane \<Rightarrow> bool" where
  "steady_step lane (send_input data lane)"
| "steady_step lane (write_settled True lane)"

lemma steady_lane_step: "steady_step lane lane' \<Longrightarrow> lane_step lane lane'"
  by (auto elim!: steady_step.cases intro: lane_step.intros)

lemma steady_step_lossless:
  assumes "steady_step lane lane'" and "input_ok lane" and "il_active lane"
    and "il_issued lane @ unissued_items lane = il_taken lane"
  shows "il_active lane' \<and> il_issued lane' @ unissued_items lane' = il_taken lane'"
  using assms
proof (induction rule: steady_step.induct)
  case (1 lane data)
  then show ?case
    by (cases "il_inFlight lane")
      (auto simp: send_input_def input_ok_def unissued_items_def drain_head_def Let_def)
next
  case (2 lane)
  show ?case
  proof (cases "il_inFlight lane")
    case None
    with 2 show ?thesis by (simp add: write_settled_def)
  next
    case (Some item)
    then obtain rest where "il_queue lane = item # rest" using 2 by (auto simp: input_ok_def)
    with Some 2 show ?thesis
      by (cases rest) (auto simp: write_settled_def unissued_items_def drain_head_def)
  qed
qed

lemma steady_run_lossless:
  assumes "steady_step\<^sup>*\<^sup>* lane lane'" and "input_ok lane" and "il_active lane"
    and "il_issued lane @ unissued_items lane = il_taken lane"
  shows "input_ok lane' \<and> il_active lane' \<and> il_issued lane' @ unissued_items lane' = il_taken lane'"
  using assms
  by (induction rule: rtranclp_induct)
    (auto intro: lane_step_ok [OF steady_lane_step] dest: steady_step_lossless)

end
