(* ===== verification/Database_Retry.thy ===== *)
theory Database_Retry
  imports Prelude "HOL-Library.Sublist"
begin

text \<open>
  The handle of \<open>apps/web\<close>'s and the daemon's shared database
  (\<open>native-laborer-database.ts\<close>) below its queries: the bounded retry of busy transactions, the
  write transaction that commits once or leaves the database alone, and the migration ledger.
  What SQLite answers is a parameter: \<open>fault\<close> says, for each attempt, whether \<open>BEGIN\<close> or
  \<open>COMMIT\<close> fails and with what; \<open>busy\<close> is the code's test of the thrown value. Milliseconds and
  random numbers are rationals, a random number that is not finite is \<open>None\<close>.
\<close>

section \<open>Options\<close>

record busy_retry_options =
  ro_attempts :: nat
  ro_baseDelayMs :: rat

datatype option_error = Attempts_Out_Of_Range | Base_Delay_Out_Of_Range

text \<open>A number that is not a safe integer or not finite is \<open>Some None\<close>; absent is \<open>None\<close>.\<close>

definition retryOptions :: "int option option \<Rightarrow> rat option option \<Rightarrow> option_error + busy_retry_options" where
  "retryOptions attempts baseDelayMs =
     (case (case attempts of None \<Rightarrow> Some 5 | Some n \<Rightarrow> n) of
        None \<Rightarrow> Inl Attempts_Out_Of_Range
      | Some n \<Rightarrow>
          if \<not> (1 \<le> n \<and> n \<le> 10) then Inl Attempts_Out_Of_Range
          else
            (case (case baseDelayMs of None \<Rightarrow> Some 10 | Some d \<Rightarrow> d) of
               None \<Rightarrow> Inl Base_Delay_Out_Of_Range
             | Some d \<Rightarrow>
                 if \<not> (0 \<le> d \<and> d \<le> 1000) then Inl Base_Delay_Out_Of_Range
                 else Inr \<lparr>ro_attempts = nat n, ro_baseDelayMs = d\<rparr>))"

lemma retryOptions_ok:
  "retryOptions a b = Inr o' \<Longrightarrow> 1 \<le> ro_attempts o' \<and> ro_attempts o' \<le> 10 \<and>
     0 \<le> ro_baseDelayMs o' \<and> ro_baseDelayMs o' \<le> 1000"
  by (auto simp: retryOptions_def split: option.splits if_splits)

section \<open>Retrying a busy operation\<close>

datatype 'c retry_failure = Busy_Error nat 'c | Failed_With 'c

definition retry_delay :: "busy_retry_options \<Rightarrow> rat option \<Rightarrow> nat \<Rightarrow> rat" where
  "retry_delay opts random attempt =
     (let jitter = 1 / 2 + (case random of Some r \<Rightarrow> max 0 (min 1 r) | None \<Rightarrow> 1 / 2)
      in min 1000 (ro_baseDelayMs opts * 2 ^ (attempt - 1) * jitter))"

text \<open>
  The loop \<open>for (let attempt = 1; ; attempt += 1)\<close> over a state the operation changes. The
  result carries the delays slept; a loop that never ends is \<open>None\<close>.
\<close>

partial_function (option) busy_retry_loop ::
    "busy_retry_options \<Rightarrow> ('c \<Rightarrow> bool) \<Rightarrow> (nat \<Rightarrow> rat option) \<Rightarrow> (nat \<Rightarrow> 's \<Rightarrow> ('c + 'a) \<times> 's)
      \<Rightarrow> nat \<Rightarrow> rat list \<Rightarrow> 's \<Rightarrow> (('c retry_failure + 'a) \<times> rat list \<times> 's) option" where
  "busy_retry_loop opts busy random operation attempt sleeps s =
     (case operation attempt s of
        (Inr a, s1) \<Rightarrow> Some (Inr a, sleeps, s1)
      | (Inl cause, s1) \<Rightarrow>
          if \<not> busy cause \<or> ro_attempts opts \<le> attempt
          then Some (Inl (if busy cause then Busy_Error attempt cause else Failed_With cause), sleeps, s1)
          else busy_retry_loop opts busy random operation (attempt + 1)
                 (sleeps @ [retry_delay opts (random attempt) attempt]) s1)"

declare busy_retry_loop.simps [code]

definition withBusyRetry ::
    "busy_retry_options \<Rightarrow> ('c \<Rightarrow> bool) \<Rightarrow> (nat \<Rightarrow> rat option) \<Rightarrow> (nat \<Rightarrow> 's \<Rightarrow> ('c + 'a) \<times> 's)
      \<Rightarrow> 's \<Rightarrow> (('c retry_failure + 'a) \<times> rat list \<times> 's) option" where
  "withBusyRetry opts busy random operation s = busy_retry_loop opts busy random operation 1 [] s"

lemma retry_delay_bounds:
  assumes "0 \<le> ro_baseDelayMs opts"
  shows "0 \<le> retry_delay opts random attempt \<and> retry_delay opts random attempt \<le> 1000"
  using assms by (auto simp: retry_delay_def Let_def split: option.split)

text \<open>
  The loop ends within the attempts left: it sleeps less often than that, every delay is within
  a second, and its outcome is that of the first attempt that is not busy, or the last one.
\<close>

lemma busy_retry_loop_ends:
  assumes "0 \<le> ro_baseDelayMs opts" and "1 \<le> attempt" and "attempt \<le> ro_attempts opts"
    and "list_all (\<lambda>d. 0 \<le> d \<and> d \<le> 1000) sleeps"
  shows "\<exists>r delays s'. busy_retry_loop opts busy random operation attempt sleeps s = Some (r, sleeps @ delays, s') \<and>
    length delays \<le> ro_attempts opts - attempt \<and> list_all (\<lambda>d. 0 \<le> d \<and> d \<le> 1000) delays \<and>
    (\<forall>n c. r = Inl (Busy_Error n c) \<longrightarrow> n = ro_attempts opts \<and> length delays = ro_attempts opts - attempt)"
  using assms
proof (induction "ro_attempts opts - attempt" arbitrary: attempt sleeps s)
  case 0
  then show ?case
    by (subst busy_retry_loop.simps, subst busy_retry_loop.simps)
      (auto split: prod.split sum.split)
next
  case (Suc n)
  obtain r s1 where step: "operation attempt s = (r, s1)" by fastforce
  show ?case
  proof (cases "\<exists>c. r = Inl c \<and> busy c")
    case False
    with step show ?thesis
      by (subst busy_retry_loop.simps, subst busy_retry_loop.simps) (auto split: sum.split)
  next
    case True
    then obtain c where c: "r = Inl c" "busy c" by blast
    let ?d = "retry_delay opts (random attempt) attempt"
    have d: "0 \<le> ?d" "?d \<le> 1000" using retry_delay_bounds [OF Suc.prems(1)] by auto
    have "\<exists>r delays s'. busy_retry_loop opts busy random operation (attempt + 1) (sleeps @ [?d]) s1
          = Some (r, (sleeps @ [?d]) @ delays, s') \<and>
        length delays \<le> ro_attempts opts - (attempt + 1) \<and> list_all (\<lambda>d. 0 \<le> d \<and> d \<le> 1000) delays \<and>
        (\<forall>n c. r = Inl (Busy_Error n c) \<longrightarrow> n = ro_attempts opts \<and> length delays = ro_attempts opts - (attempt + 1))"
      by (rule Suc.hyps(1)) (use Suc d in auto)
    then obtain r' delays s' where loop:
      "busy_retry_loop opts busy random operation (attempt + 1) (sleeps @ [?d]) s1 = Some (r', (sleeps @ [?d]) @ delays, s')"
      "length delays \<le> ro_attempts opts - (attempt + 1)" "list_all (\<lambda>d. 0 \<le> d \<and> d \<le> 1000) delays"
      "\<forall>n c. r' = Inl (Busy_Error n c) \<longrightarrow> n = ro_attempts opts \<and> length delays = ro_attempts opts - (attempt + 1)"
      by blast
    have "\<not> ro_attempts opts \<le> attempt" using Suc.hyps(2) by linarith
    then have "busy_retry_loop opts busy random operation attempt sleeps s
        = busy_retry_loop opts busy random operation (attempt + 1) (sleeps @ [?d]) s1"
      by (subst busy_retry_loop.simps) (simp add: step c)
    with loop d Suc.hyps(2) show ?thesis
      by (intro exI [of _ r'] exI [of _ "?d # delays"] exI [of _ s']) auto
  qed
qed

section \<open>Write transactions\<close>

text \<open>
  One attempt: \<open>BEGIN IMMEDIATE\<close>, the operation on the database, \<open>COMMIT\<close>; a failure after the
  begin rolls back.
\<close>

datatype 'c fault = No_Fault | Begin_Fails 'c | Commit_Fails 'c

definition transaction_attempt ::
    "'c fault \<Rightarrow> ('s \<Rightarrow> 'c + 'a \<times> 's) \<Rightarrow> 's \<Rightarrow> ('c + 'a) \<times> 's" where
  "transaction_attempt fault operation s =
     (case fault of
        Begin_Fails c \<Rightarrow> (Inl c, s)
      | _ \<Rightarrow>
          (case operation s of
             Inl c \<Rightarrow> (Inl c, s)
           | Inr (a, s1) \<Rightarrow> (case fault of Commit_Fails c \<Rightarrow> (Inl c, s) | _ \<Rightarrow> (Inr a, s1))))"

record ('c, 'a, 's) write_outcome =
  wo_result :: "'c retry_failure + 'a"
  wo_sleeps :: "rat list"
  wo_state :: 's
  wo_notified :: bool

definition writeTransaction ::
    "busy_retry_options \<Rightarrow> ('c \<Rightarrow> bool) \<Rightarrow> (nat \<Rightarrow> rat option) \<Rightarrow> (nat \<Rightarrow> 'c fault) \<Rightarrow> ('s \<Rightarrow> 'c + 'a \<times> 's)
      \<Rightarrow> 's \<Rightarrow> ('c, 'a, 's) write_outcome option" where
  "writeTransaction opts busy random faults operation s =
     map_option
       (\<lambda>(r, sleeps, s1). \<lparr>wo_result = r, wo_sleeps = sleeps, wo_state = s1, wo_notified = \<not> isl r\<rparr>)
       (withBusyRetry opts busy random (\<lambda>n. transaction_attempt (faults n) operation) s)"

text \<open>Every attempt runs on the same database: a failed one left it as it was.\<close>

definition transaction_result :: "('s \<Rightarrow> 'c + 'a \<times> 's) \<Rightarrow> 's \<Rightarrow> ('c retry_failure + 'a) \<Rightarrow> 's \<Rightarrow> bool" where
  "transaction_result operation s r s' \<longleftrightarrow>
     (case r of Inr a \<Rightarrow> operation s = Inr (a, s') | Inl _ \<Rightarrow> s' = s)"

lemma retry_transaction:
  assumes "busy_retry_loop opts busy random (\<lambda>n. transaction_attempt (faults n) operation) attempt sleeps s
      = Some (r, delays, s')"
    and "attempt \<le> ro_attempts opts"
  shows "transaction_result operation s r s'"
  using assms
proof (induction "ro_attempts opts - attempt" arbitrary: attempt sleeps)
  case 0
  then show ?case
    by (subst (asm) busy_retry_loop.simps)
      (auto simp: transaction_result_def transaction_attempt_def split: prod.splits sum.splits fault.splits)
next
  case (Suc n)
  obtain r1 s1 where step: "transaction_attempt (faults attempt) operation s = (r1, s1)" by fastforce
  have result: "r1 = Inr a \<Longrightarrow> operation s = Inr (a, s1)" "r1 = Inl c \<Longrightarrow> s1 = s" for a c
    using step by (auto simp: transaction_attempt_def split: fault.splits sum.splits prod.splits)
  show ?case
  proof (cases "\<exists>c. r1 = Inl c \<and> busy c")
    case False
    with Suc.prems(1) step result show ?thesis
      by (subst (asm) busy_retry_loop.simps) (auto simp: transaction_result_def split: sum.splits)
  next
    case True
    then obtain c where c: "r1 = Inl c" "busy c" by blast
    have "\<not> ro_attempts opts \<le> attempt" using Suc.hyps(2) by linarith
    with Suc.prems(1) step c result(2)
    have "busy_retry_loop opts busy random (\<lambda>n. transaction_attempt (faults n) operation) (attempt + 1)
        (sleeps @ [retry_delay opts (random attempt) attempt]) s = Some (r, delays, s')"
      by (subst (asm) busy_retry_loop.simps) simp
    then show ?thesis by (rule Suc.hyps(1) [rotated]) (use Suc.hyps(2) in auto)
  qed
qed

lemma writeTransaction_ends:
  assumes "1 \<le> ro_attempts opts" and "0 \<le> ro_baseDelayMs opts"
  shows "\<exists>out. writeTransaction opts busy random faults operation s = Some out \<and>
    length (wo_sleeps out) < ro_attempts opts \<and>
    list_all (\<lambda>d. 0 \<le> d \<and> d \<le> 1000) (wo_sleeps out) \<and>
    transaction_result operation s (wo_result out) (wo_state out) \<and>
    wo_notified out = (\<not> isl (wo_result out))"
proof -
  obtain r delays s' where loop:
    "withBusyRetry opts busy random (\<lambda>n. transaction_attempt (faults n) operation) s = Some (r, delays, s')"
    "length delays \<le> ro_attempts opts - 1" "list_all (\<lambda>d. 0 \<le> d \<and> d \<le> 1000) delays"
    using busy_retry_loop_ends [OF assms(2), of 1 "[]" busy random
        "\<lambda>n. transaction_attempt (faults n) operation" s] assms(1)
    by (auto simp: withBusyRetry_def)
  moreover have "transaction_result operation s r s'"
    using loop(1) retry_transaction [of opts busy random faults operation 1 "[]" s r delays s'] assms(1)
    by (simp add: withBusyRetry_def)
  ultimately show ?thesis using assms(1) by (simp add: writeTransaction_def)
qed

text \<open>A transaction whose attempts meet no fault is the operation.\<close>

lemma writeTransaction_calm:
  assumes "\<forall>n. faults n = No_Fault" and "operation s = Inr (a, s')"
  shows "writeTransaction opts busy random faults operation s
    = Some \<lparr>wo_result = Inr a, wo_sleeps = [], wo_state = s', wo_notified = True\<rparr>"
  using assms
  by (simp add: writeTransaction_def withBusyRetry_def transaction_attempt_def busy_retry_loop.simps [of opts busy])

section \<open>Migrations\<close>

record migration =
  mg_name :: string
  mg_sql :: string

record ledger_row =
  lr_hash :: string
  lr_created_at :: int
  lr_name :: string

record 'd migrated_database =
  md_schema :: 'd
  md_ledger :: "ledger_row list"

datatype ledger_error =
    Schema_Too_New string
  | Ledger_Out_Of_Order string string
  | Hash_Mismatch string

datatype 'c migration_error = Ledger_Refused ledger_error | Thrown 'c

text \<open>
  The loop over \<open>applied.entries()\<close>, with the list of migrations read in parallel instead of by
  index. \<open>sha256\<close> is the digest of \<open>node:crypto\<close>.
\<close>

fun check_ledger :: "(string \<Rightarrow> string) \<Rightarrow> migration list \<Rightarrow> ledger_row list \<Rightarrow> ledger_error option" where
  "check_ledger sha256 migrations [] = None"
| "check_ledger sha256 [] (row # rows) = Some (Schema_Too_New (lr_name row))"
| "check_ledger sha256 (m # ms) (row # rows) =
     (if mg_name m \<noteq> lr_name row then Some (Ledger_Out_Of_Order (mg_name m) (lr_name row))
      else if sha256 (mg_sql m) \<noteq> lr_hash row then Some (Hash_Mismatch (lr_name row))
      else check_ledger sha256 ms rows)"

text \<open>\<open>sql.replaceAll('--> statement-breakpoint', '')\<close>.\<close>

function remove_text :: "string \<Rightarrow> string \<Rightarrow> string" where
  "remove_text needle [] = []"
| "remove_text needle (c # cs) =
     (if prefix needle (c # cs) then remove_text needle (drop (length needle - 1) cs)
      else c # remove_text needle cs)"
  by pat_completeness auto
termination by (relation "measure (\<lambda>(n, s). length s)") auto

definition statement_sql :: "string \<Rightarrow> string" where
  "statement_sql sql = remove_text ''--> statement-breakpoint'' sql"

text \<open>
  The loop over the migrations that are left. \<open>exec\<close> is \<open>DatabaseSync.exec\<close> on the schema; the
  ledger's names are unique, so recording one twice throws \<open>duplicate\<close>.
\<close>

fun apply_migrations ::
    "(string \<Rightarrow> string) \<Rightarrow> (string \<Rightarrow> 'd \<Rightarrow> 'c + 'd) \<Rightarrow> 'c \<Rightarrow> int \<Rightarrow> migration list
      \<Rightarrow> 'd migrated_database \<Rightarrow> 'c migration_error + unit \<times> 'd migrated_database" where
  "apply_migrations sha256 exec duplicate now [] db = Inr ((), db)"
| "apply_migrations sha256 exec duplicate now (m # ms) db =
     (case exec (statement_sql (mg_sql m)) (md_schema db) of
        Inl c \<Rightarrow> Inl (Thrown c)
      | Inr schema \<Rightarrow>
          if mg_name m \<in> lr_name ` set (md_ledger db) then Inl (Thrown duplicate)
          else apply_migrations sha256 exec duplicate now ms
                 (db\<lparr>md_schema := schema,
                     md_ledger := md_ledger db @
                       [\<lparr>lr_hash = sha256 (mg_sql m), lr_created_at = now, lr_name = mg_name m\<rparr>]\<rparr>))"

definition migrate ::
    "(string \<Rightarrow> string) \<Rightarrow> (string \<Rightarrow> 'd \<Rightarrow> 'c + 'd) \<Rightarrow> 'c \<Rightarrow> int \<Rightarrow> migration list
      \<Rightarrow> 'd migrated_database \<Rightarrow> 'c migration_error + unit \<times> 'd migrated_database" where
  "migrate sha256 exec duplicate now migrations db =
     (case check_ledger sha256 migrations (md_ledger db) of
        Some e \<Rightarrow> Inl (Ledger_Refused e)
      | None \<Rightarrow> apply_migrations sha256 exec duplicate now
                  (drop (length (md_ledger db)) migrations) db)"

text \<open>What a ledger that agrees with a list of migrations says.\<close>

definition records :: "(string \<Rightarrow> string) \<Rightarrow> migration \<Rightarrow> ledger_row \<Rightarrow> bool" where
  "records sha256 m row \<longleftrightarrow> lr_name row = mg_name m \<and> lr_hash row = sha256 (mg_sql m)"

lemma check_ledger_None:
  "check_ledger sha256 ms rows = None \<longleftrightarrow>
     length rows \<le> length ms \<and> list_all2 (records sha256) (take (length rows) ms) rows"
  by (induction sha256 ms rows rule: check_ledger.induct) (auto simp: records_def)

lemma apply_migrations_ledger:
  "apply_migrations sha256 exec duplicate now ms db = Inr (u, db') \<Longrightarrow>
     \<exists>rows. md_ledger db' = md_ledger db @ rows \<and> list_all2 (records sha256) ms rows"
proof (induction ms arbitrary: db)
  case (Cons m ms)
  then obtain schema where
    "apply_migrations sha256 exec duplicate now ms (db\<lparr>md_schema := schema,
       md_ledger := md_ledger db @ [\<lparr>lr_hash = sha256 (mg_sql m), lr_created_at = now, lr_name = mg_name m\<rparr>]\<rparr>)
     = Inr (u, db')"
    by (auto split: sum.splits if_splits)
  from Cons.IH [OF this] obtain rows where "md_ledger db' = md_ledger db @
      \<lparr>lr_hash = sha256 (mg_sql m), lr_created_at = now, lr_name = mg_name m\<rparr> # rows"
    "list_all2 (records sha256) ms rows"
    by auto
  then show ?case by (intro exI [of _ "\<lparr>lr_hash = sha256 (mg_sql m), lr_created_at = now, lr_name = mg_name m\<rparr> # rows"])
    (simp add: records_def [of sha256 m])
qed simp

lemma migrate_records:
  assumes "migrate sha256 exec duplicate now ms db = Inr (u, db')"
  shows "list_all2 (records sha256) ms (md_ledger db') \<and>
    take (length (md_ledger db)) (md_ledger db') = md_ledger db"
proof -
  let ?n = "length (md_ledger db)"
  have ok: "?n \<le> length ms" "list_all2 (records sha256) (take ?n ms) (md_ledger db)"
    and "apply_migrations sha256 exec duplicate now (drop ?n ms) db = Inr (u, db')"
    using assms check_ledger_None [of sha256 ms "md_ledger db"]
    by (auto simp: migrate_def split: option.splits)
  from apply_migrations_ledger [OF this(3)] obtain rows where
    "md_ledger db' = md_ledger db @ rows" "list_all2 (records sha256) (drop ?n ms) rows" by blast
  with list_all2_appendI [OF ok(2) this(2)] show ?thesis by simp
qed

lemma migrate_done:
  assumes "list_all2 (records sha256) ms (md_ledger db)"
  shows "migrate sha256 exec duplicate now ms db = Inr ((), db)"
proof -
  have "length (md_ledger db) = length ms" using list_all2_lengthD [OF assms] by simp
  with assms check_ledger_None [of sha256 ms "md_ledger db"] show ?thesis by (simp add: migrate_def)
qed

text \<open>A newer program on an older database runs exactly the migrations that were added.\<close>

lemma apply_migrations_append:
  "apply_migrations sha256 exec duplicate now (ms @ ns) db =
     (case apply_migrations sha256 exec duplicate now ms db of
        Inl e \<Rightarrow> Inl e
      | Inr (_, db1) \<Rightarrow> apply_migrations sha256 exec duplicate now ns db1)"
  by (induction ms arbitrary: db) (auto split: sum.splits)

lemma migrate_extends:
  assumes "list_all2 (records sha256) ms (md_ledger db)"
  shows "migrate sha256 exec duplicate now (ms @ ns) db
    = apply_migrations sha256 exec duplicate now ns db"
proof -
  have "length (md_ledger db) = length ms" using list_all2_lengthD [OF assms] by simp
  with assms check_ledger_None [of sha256 "ms @ ns" "md_ledger db"] show ?thesis by (simp add: migrate_def)
qed

text \<open>An older program refuses a newer database.\<close>

lemma migrate_too_new:
  assumes "list_all2 (records sha256) (ms @ n # ns) (md_ledger db)"
  shows "migrate sha256 exec duplicate now ms db = Inl (Ledger_Refused (Schema_Too_New (mg_name n)))"
proof -
  have "check_ledger sha256 ms rows = Some (Schema_Too_New (mg_name n))"
    if "list_all2 (records sha256) (ms @ n # ns) rows" for rows :: "ledger_row list"
    using that
  proof (induction ms arbitrary: rows)
    case Nil
    then show ?case by (cases rows) (auto simp: records_def)
  next
    case (Cons m ms)
    then show ?case by (cases rows) (auto simp: records_def)
  qed
  with assms show ?thesis by (simp add: migrate_def)
qed

section \<open>Opening\<close>

datatype 'c open_error = Bad_Busy_Timeout | Open_Failed "'c migration_error retry_failure"

text \<open>
  \<open>initialize\<close>: \<open>wal\<close> says how the journal-mode pragma fails at each attempt, if it does; the
  other pragmas change nothing the model has.
\<close>

definition busy_migration :: "('c \<Rightarrow> bool) \<Rightarrow> 'c migration_error \<Rightarrow> bool" where
  "busy_migration busy e = (case e of Thrown c \<Rightarrow> busy c | Ledger_Refused _ \<Rightarrow> False)"

definition pragma_attempt :: "(nat \<Rightarrow> 'c option) \<Rightarrow> nat \<Rightarrow> 's \<Rightarrow> ('c migration_error + unit) \<times> 's" where
  "pragma_attempt wal n s = ((case wal n of Some c \<Rightarrow> Inl (Thrown c) | None \<Rightarrow> Inr ()), s)"

definition initialize ::
    "busy_retry_options \<Rightarrow> ('c \<Rightarrow> bool) \<Rightarrow> (nat \<Rightarrow> rat option) \<Rightarrow> (nat \<Rightarrow> 'c option)
      \<Rightarrow> (nat \<Rightarrow> 'c migration_error fault) \<Rightarrow> int option
      \<Rightarrow> ('d migrated_database \<Rightarrow> 'c migration_error + unit \<times> 'd migrated_database)
      \<Rightarrow> 'd migrated_database \<Rightarrow> (('c open_error + unit) \<times> 'd migrated_database) option" where
  "initialize opts busy random wal faults busyTimeoutMs migration db =
     (if (case busyTimeoutMs of None \<Rightarrow> True | Some n \<Rightarrow> n < 0) then Some (Inl Bad_Busy_Timeout, db)
      else
        (case withBusyRetry opts (busy_migration busy) random (pragma_attempt wal) db of
           None \<Rightarrow> None
         | Some (Inl e, _, db1) \<Rightarrow> Some (Inl (Open_Failed e), db1)
         | Some (Inr _, _, db1) \<Rightarrow>
             map_option
               (\<lambda>out. (case wo_result out of Inl e \<Rightarrow> Inl (Open_Failed e) | Inr u \<Rightarrow> Inr u, wo_state out))
               (writeTransaction opts (busy_migration busy) random faults migration db1)))"

lemma pragma_retry_keeps:
  assumes "busy_retry_loop opts busy random (pragma_attempt wal) attempt sleeps db = Some (r, delays, db')"
    and "attempt \<le> ro_attempts opts"
  shows "db' = db"
  using assms
proof (induction "ro_attempts opts - attempt" arbitrary: attempt sleeps)
  case 0
  then show ?case
    by (subst (asm) busy_retry_loop.simps) (auto simp: pragma_attempt_def split: option.splits if_splits)
next
  case (Suc n)
  show ?case
  proof (cases "busy_retry_loop opts busy random (pragma_attempt wal) (attempt + 1)
      (sleeps @ [retry_delay opts (random attempt) attempt]) db = Some (r, delays, db')")
    case True
    then show ?thesis by (rule Suc.hyps(1) [rotated]) (use Suc.hyps(2) in auto)
  next
    case False
    with Suc.prems(1) show ?thesis
      by (subst (asm) busy_retry_loop.simps) (auto simp: pragma_attempt_def split: option.splits if_splits)
  qed
qed

lemma initialize_ends:
  assumes "1 \<le> ro_attempts opts" and "0 \<le> ro_baseDelayMs opts"
  shows "\<exists>r db'. initialize opts busy random wal faults busyTimeoutMs migration db = Some (r, db') \<and>
    (case r of Inl _ \<Rightarrow> db' = db | Inr u \<Rightarrow> migration db = Inr (u, db'))"
proof (cases "case busyTimeoutMs of None \<Rightarrow> True | Some n \<Rightarrow> n < 0")
  case True
  then show ?thesis by (simp add: initialize_def)
next
  case False
  obtain r delays s' where pragma:
    "busy_retry_loop opts (busy_migration busy) random (pragma_attempt wal) 1 [] db = Some (r, delays, s')"
    using busy_retry_loop_ends [OF assms(2), of 1 "[]" "busy_migration busy" random "pragma_attempt wal" db] assms(1)
    by auto
  have same: "s' = db" by (rule pragma_retry_keeps [OF pragma assms(1)])
  obtain out where out: "writeTransaction opts (busy_migration busy) random faults migration db = Some out"
    "transaction_result migration db (wo_result out) (wo_state out)"
    using writeTransaction_ends [OF assms, of "busy_migration busy" random faults migration db] by blast
  show ?thesis
    using False pragma same out
    by (auto simp: initialize_def withBusyRetry_def transaction_result_def split: sum.splits)
qed

end
