(* ===== verification/Preview_Manager.thy ===== *)
theory Preview_Manager
  imports Pr_Markers "HOL-Library.AList"
begin

text \<open>
  The daemon's registry of browser previews, \<open>packages/server/src/services/preview-manager.ts\<close>,
  over the preview schemas of \<open>packages/shared/src/rpc.ts\<close>. The session map is an association
  list in insertion order, keyed by workspace and tab (the code joins the two with a NUL, which
  ids do not contain); the events published so far are a field of the state, and so is the
  module's tab counter. An instant is its milliseconds: the code's ISO strings of the same
  length compare like them. Parsing a URL is the parameter \<open>parse_url\<close>, the protocol and
  \<open>href\<close> of \<open>new URL\<close> or \<open>None\<close> when it throws.
\<close>

section \<open>Snapshots and events\<close>

datatype nav_status =
    Nav_Idle
  | Nav_Loading string string
  | Nav_Success string string
  | Nav_Failed int string string string

datatype viewport_setting = Viewport_Fill | Viewport_Freeform nat nat | Viewport_Preset string nat nat

record preview_snapshot =
  sn_canGoBack :: bool
  sn_canGoForward :: bool
  sn_navStatus :: nav_status
  sn_tabId :: string
  sn_updatedAt :: int
  sn_viewport :: "viewport_setting option"
  sn_workspaceId :: string

datatype preview_event_body =
    Preview_Opened preview_snapshot
  | Preview_Navigated preview_snapshot
  | Preview_Resized preview_snapshot
  | Preview_Failed int string string string
  | Preview_Closed

record preview_event =
  ev_createdAt :: int
  ev_revision :: nat
  ev_serverEpoch :: string
  ev_tabId :: string
  ev_workspaceId :: string
  ev_body :: preview_event_body

section \<open>URLs\<close>

datatype url_reason = Url_Empty | Url_Parse | Url_Unsupported_Protocol

datatype preview_error =
    Preview_Lookup_Error string string
  | Preview_Invalid_Url url_reason nat "string option"

definition lower_char :: "char \<Rightarrow> char" where
  "lower_char c =
     (let n = of_char c :: nat in if 65 \<le> n \<and> n \<le> 90 then char_of (n + 32) else c)"

definition js_trim :: "string \<Rightarrow> string" where
  "js_trim s = dropWhile js_space (trimEnd s)"

text \<open>\<open>/^(?:localhost|127\.0\.0\.1|0\.0\.0\.0|\[::1?\])(?::|\/|$)/i\<close>\<close>

definition loopback_prefix :: "string \<Rightarrow> bool" where
  "loopback_prefix s =
     list_ex (\<lambda>host. prefix host (map lower_char s) \<and>
         (case drop (length host) s of [] \<Rightarrow> True | c # _ \<Rightarrow> c = CHR '':'' \<or> c = CHR ''/''))
       [''localhost'', ''127.0.0.1'', ''0.0.0.0'', ''[::]'', ''[::1]'']"

text \<open>\<open>/^([A-Za-z][A-Za-z\d+.-]*):/\<close>, lower case with its colon.\<close>

definition is_letter :: "char \<Rightarrow> bool" where
  "is_letter c \<longleftrightarrow> lower_char c \<in> set ''abcdefghijklmnopqrstuvwxyz''"

definition previewUrlProtocol :: "string \<Rightarrow> string option" where
  "previewUrlProtocol rawUrl =
     (let scheme = takeWhile (\<lambda>c. is_letter c \<or> is_digit c \<or> c \<in> set ''+.-'') rawUrl
      in if scheme \<noteq> [] \<and> is_letter (hd scheme) \<and> prefix '':'' (drop (length scheme) rawUrl)
         then Some (map lower_char scheme @ '':'') else None)"

type_synonym url_parser = "string \<Rightarrow> (string \<times> string) option"

definition normalizePreviewUrl :: "url_parser \<Rightarrow> string \<Rightarrow> preview_error + string" where
  "normalizePreviewUrl parse_url rawUrl =
     (let trimmed = js_trim rawUrl
      in if trimmed = [] then Inl (Preview_Invalid_Url Url_Empty (length rawUrl) None)
         else
           (let candidate = (if js_contains trimmed ''://'' then trimmed
                             else (if loopback_prefix trimmed then ''http'' else ''https'') @ ''://'' @ trimmed)
            in case parse_url candidate of
                 None \<Rightarrow> Inl (Preview_Invalid_Url Url_Parse (length rawUrl) (previewUrlProtocol candidate))
               | Some (protocol, href) \<Rightarrow>
                   if protocol \<noteq> ''http:'' \<and> protocol \<noteq> ''https:''
                   then Inl (Preview_Invalid_Url Url_Unsupported_Protocol (length rawUrl) (Some protocol))
                   else Inr href))"

section \<open>The registry\<close>

record preview_session =
  pse_snapshot :: preview_snapshot
  pse_tabId :: string
  pse_workspaceId :: string

record preview_manager =
  pm_revision :: nat
  pm_sessions :: "((string \<times> string) \<times> preview_session) list"
  pm_nextTab :: nat
  pm_events :: "preview_event list"

definition new_manager :: preview_manager where
  "new_manager = \<lparr>pm_revision = 0, pm_sessions = [], pm_nextTab = 0, pm_events = []\<rparr>"

definition digit36 :: "nat \<Rightarrow> char" where
  "digit36 d = ''0123456789abcdefghijklmnopqrstuvwxyz'' ! d"

fun nat_string36 :: "nat \<Rightarrow> string" where
  "nat_string36 n =
     (if n < 36 then [digit36 n] else nat_string36 (n div 36) @ [digit36 (n mod 36)])"

declare nat_string36.simps [simp del]

definition newPreviewTabId :: "preview_manager \<Rightarrow> string \<times> preview_manager" where
  "newPreviewTabId m =
     (let n = pm_nextTab m + 1 in (''tab_'' @ nat_string36 n, m\<lparr>pm_nextTab := n\<rparr>))"

definition sessionsForWorkspace :: "preview_manager \<Rightarrow> string \<Rightarrow> preview_session list" where
  "sessionsForWorkspace m workspaceId =
     filter (\<lambda>s. pse_workspaceId s = workspaceId) (map snd (pm_sessions m))"

text \<open>A draft of an event: its instant and body.\<close>

definition publish_draft ::
    "string \<Rightarrow> nat \<Rightarrow> string \<Rightarrow> string \<Rightarrow> int \<times> preview_event_body \<Rightarrow> preview_event" where
  "publish_draft epoch revision workspaceId tabId draft =
     \<lparr>ev_createdAt = fst draft, ev_revision = revision, ev_serverEpoch = epoch, ev_tabId = tabId,
      ev_workspaceId = workspaceId, ev_body = snd draft\<rparr>"

definition mutateExisting ::
    "string \<Rightarrow> string \<Rightarrow> string
      \<Rightarrow> (preview_session \<Rightarrow> (int \<times> preview_event_body) option \<times> preview_session \<times> 'a)
      \<Rightarrow> preview_manager \<Rightarrow> (preview_error + 'a) \<times> preview_manager" where
  "mutateExisting epoch workspaceId tabId mutate m =
     (case map_of (pm_sessions m) (workspaceId, tabId) of
        None \<Rightarrow> (Inl (Preview_Lookup_Error tabId workspaceId), m)
      | Some session \<Rightarrow>
          (case mutate session of
             (emit, next, result) \<Rightarrow>
               (let revision = (if emit = None then pm_revision m else pm_revision m + 1);
                    published = (case emit of None \<Rightarrow> []
                                 | Some draft \<Rightarrow> [publish_draft epoch revision workspaceId tabId draft])
                in (Inr result,
                    m\<lparr>pm_revision := revision,
                      pm_sessions := AList.update (workspaceId, tabId) next (pm_sessions m),
                      pm_events := pm_events m @ published\<rparr>))))"

definition open_preview ::
    "url_parser \<Rightarrow> string \<Rightarrow> int \<Rightarrow> string \<Rightarrow> string option \<Rightarrow> viewport_setting option
      \<Rightarrow> preview_manager \<Rightarrow> (preview_error + preview_snapshot) \<times> preview_manager" where
  "open_preview parse_url epoch updatedAt workspaceId url viewport m =
     (case newPreviewTabId m of
        (tabId, m1) \<Rightarrow>
          (case (case url of None \<Rightarrow> Inr Nav_Idle
                 | Some u \<Rightarrow> map_sum id (Nav_Loading []) (normalizePreviewUrl parse_url u)) of
             Inl e \<Rightarrow> (Inl e, m1)
           | Inr status \<Rightarrow>
               (let snapshot = \<lparr>sn_canGoBack = False, sn_canGoForward = False, sn_navStatus = status,
                                sn_tabId = tabId, sn_updatedAt = updatedAt,
                                sn_viewport = Some (case viewport of Some v \<Rightarrow> v | None \<Rightarrow> Viewport_Fill),
                                sn_workspaceId = workspaceId\<rparr>;
                    revision = pm_revision m1 + 1
                in (Inr snapshot,
                    m1\<lparr>pm_revision := revision,
                       pm_sessions := AList.update (workspaceId, tabId)
                         \<lparr>pse_snapshot = snapshot, pse_tabId = tabId, pse_workspaceId = workspaceId\<rparr>
                         (pm_sessions m1),
                       pm_events := pm_events m1 @
                         [publish_draft epoch revision workspaceId tabId
                            (updatedAt, Preview_Opened snapshot)]\<rparr>))))"

definition or_fill :: "viewport_setting option \<Rightarrow> viewport_setting option" where
  "or_fill v = Some (case v of Some w \<Rightarrow> w | None \<Rightarrow> Viewport_Fill)"

fun nav_title :: "nav_status \<Rightarrow> string" where
  "nav_title Nav_Idle = []"
| "nav_title (Nav_Loading title url) = title"
| "nav_title (Nav_Success title url) = title"
| "nav_title (Nav_Failed code description title url) = title"

definition navigate_preview ::
    "url_parser \<Rightarrow> string \<Rightarrow> int \<Rightarrow> string \<Rightarrow> string \<Rightarrow> string \<Rightarrow> string option
      \<Rightarrow> preview_manager \<Rightarrow> (preview_error + preview_snapshot) \<times> preview_manager" where
  "navigate_preview parse_url epoch updatedAt workspaceId tabId rawUrl resolvedTitle m =
     (case normalizePreviewUrl parse_url rawUrl of
        Inl e \<Rightarrow> (Inl e, m)
      | Inr url \<Rightarrow>
          mutateExisting epoch workspaceId tabId
            (\<lambda>session.
               (let previous = pse_snapshot session;
                    snapshot = previous\<lparr>
                      sn_navStatus := Nav_Success
                        (case resolvedTitle of Some t \<Rightarrow> t | None \<Rightarrow> nav_title (sn_navStatus previous)) url,
                      sn_updatedAt := updatedAt, sn_viewport := or_fill (sn_viewport previous)\<rparr>
                in (Some (updatedAt, Preview_Navigated snapshot),
                    session\<lparr>pse_snapshot := snapshot\<rparr>, snapshot))) m)"

definition reportStatus_preview ::
    "string \<Rightarrow> int \<Rightarrow> string \<Rightarrow> string \<Rightarrow> bool \<Rightarrow> bool \<Rightarrow> nav_status
      \<Rightarrow> preview_manager \<Rightarrow> (preview_error + unit) \<times> preview_manager" where
  "reportStatus_preview epoch updatedAt workspaceId tabId canGoBack canGoForward status =
     mutateExisting epoch workspaceId tabId
       (\<lambda>session.
          (let previous = pse_snapshot session;
               snapshot = previous\<lparr>sn_canGoBack := canGoBack, sn_canGoForward := canGoForward,
                 sn_navStatus := status, sn_updatedAt := updatedAt,
                 sn_viewport := or_fill (sn_viewport previous)\<rparr>;
               body = (case status of
                         Nav_Failed code description title url \<Rightarrow> Preview_Failed code description title url
                       | _ \<Rightarrow> Preview_Navigated snapshot)
           in (Some (updatedAt, body), session\<lparr>pse_snapshot := snapshot\<rparr>, ())))"

definition resize_preview ::
    "string \<Rightarrow> int \<Rightarrow> string \<Rightarrow> string \<Rightarrow> viewport_setting
      \<Rightarrow> preview_manager \<Rightarrow> (preview_error + preview_snapshot) \<times> preview_manager" where
  "resize_preview epoch updatedAt workspaceId tabId viewport =
     mutateExisting epoch workspaceId tabId
       (\<lambda>session.
          (let snapshot = (pse_snapshot session)\<lparr>sn_updatedAt := updatedAt, sn_viewport := Some viewport\<rparr>
           in (Some (updatedAt, Preview_Resized snapshot), session\<lparr>pse_snapshot := snapshot\<rparr>, snapshot)))"

definition refresh_preview ::
    "string \<Rightarrow> string \<Rightarrow> string \<Rightarrow> preview_manager \<Rightarrow> (preview_error + unit) \<times> preview_manager" where
  "refresh_preview epoch workspaceId tabId =
     mutateExisting epoch workspaceId tabId (\<lambda>session. (None, session, ()))"

text \<open>The loop of \<open>close\<close> over its targets.\<close>

definition close_target :: "string \<Rightarrow> int \<Rightarrow> preview_manager \<Rightarrow> preview_session \<Rightarrow> preview_manager" where
  "close_target epoch createdAt m target =
     (let revision = pm_revision m + 1
      in m\<lparr>pm_revision := revision,
           pm_sessions := AList.delete (pse_workspaceId target, pse_tabId target) (pm_sessions m),
           pm_events := pm_events m @
             [publish_draft epoch revision (pse_workspaceId target) (pse_tabId target)
                (createdAt, Preview_Closed)]\<rparr>)"

definition close_preview ::
    "string \<Rightarrow> int \<Rightarrow> string \<Rightarrow> string option \<Rightarrow> preview_manager \<Rightarrow> preview_manager" where
  "close_preview epoch createdAt workspaceId tabId m =
     foldl (close_target epoch createdAt) m
       (case tabId of
          None \<Rightarrow> sessionsForWorkspace m workspaceId
        | Some t \<Rightarrow> (case map_of (pm_sessions m) (workspaceId, t) of None \<Rightarrow> [] | Some s \<Rightarrow> [s]))"

record preview_list =
  pl_revision :: nat
  pl_serverEpoch :: string
  pl_sessions :: "preview_snapshot list"

definition list_previews :: "string \<Rightarrow> string \<Rightarrow> preview_manager \<Rightarrow> preview_list" where
  "list_previews epoch workspaceId m =
     \<lparr>pl_revision = pm_revision m, pl_serverEpoch = epoch,
      pl_sessions = sort_key sn_updatedAt (map pse_snapshot (sessionsForWorkspace m workspaceId))\<rparr>"

section \<open>Well-formedness\<close>

definition manager_ok :: "string \<Rightarrow> preview_manager \<Rightarrow> bool" where
  "manager_ok epoch m \<longleftrightarrow>
     distinct (map fst (pm_sessions m)) \<and>
     list_all (\<lambda>(k, s). k = (pse_workspaceId s, pse_tabId s) \<and>
        sn_tabId (pse_snapshot s) = pse_tabId s \<and> sn_workspaceId (pse_snapshot s) = pse_workspaceId s \<and>
        sn_viewport (pse_snapshot s) \<noteq> None) (pm_sessions m) \<and>
     map ev_revision (pm_events m) = [1..<Suc (pm_revision m)] \<and>
     list_all (\<lambda>e. ev_serverEpoch e = epoch) (pm_events m)"

lemma new_manager_ok: "manager_ok epoch new_manager"
  by (simp add: manager_ok_def new_manager_def)

inductive manager_step :: "url_parser \<Rightarrow> string \<Rightarrow> preview_manager \<Rightarrow> preview_manager \<Rightarrow> bool"
  for parse_url epoch where
  opened: "manager_step parse_url epoch m (snd (open_preview parse_url epoch t w url v m))"
| navigated: "manager_step parse_url epoch m (snd (navigate_preview parse_url epoch t w tab url title m))"
| reported: "manager_step parse_url epoch m (snd (reportStatus_preview epoch t w tab b f st m))"
| resized: "manager_step parse_url epoch m (snd (resize_preview epoch t w tab v m))"
| refreshed: "manager_step parse_url epoch m (snd (refresh_preview epoch w tab m))"
| closed: "manager_step parse_url epoch m (close_preview epoch t w tab m)"

end
