(* ===== verification/Preview_Store.thy ===== *)
theory Preview_Store
  imports Preview_Manager
begin

text \<open>
  The renderer's copy of the previews of one workspace, \<open>apps/web/src/preview-state-store.ts\<close>.
  JavaScript objects keyed by tab id are association lists in key order (tab ids are not array
  indices and not names of \<open>Object.prototype\<close>); the store's \<open>byWorkspaceId\<close> is read at one
  workspace, except in \<open>updateWorkspace\<close> and \<open>removeWorkspace\<close>.
\<close>

record desktop_overlay =
  do_audible :: bool
  do_audioMuted :: bool
  do_canGoBack :: bool
  do_canGoForward :: bool
  do_colorScheme :: string
  do_controller :: string
  do_favicon :: "string option"
  do_hasWebContents :: bool
  do_loading :: bool
  do_pictureInPicture :: bool
  do_zoomFactor :: rat

record desktop_tab_state =
  dt_audible :: bool
  dt_audioMuted :: bool
  dt_canGoBack :: bool
  dt_canGoForward :: bool
  dt_colorScheme :: string
  dt_controller :: string
  dt_favicon :: "string option"
  dt_navKind :: string
  dt_pictureInPicture :: bool
  dt_webContentsId :: "nat option"
  dt_zoomFactor :: rat

record preview_state =
  pv_activeTabId :: "string option"
  pv_desktop :: "(string \<times> desktop_overlay) list"
  pv_recentUrls :: "string list"
  pv_serverEpoch :: "string option"
  pv_serverRevision :: nat
  pv_sessions :: "(string \<times> preview_snapshot) list"
  pv_suppressed :: "string set"

definition empty_preview :: preview_state where
  "empty_preview = \<lparr>pv_activeTabId = None, pv_desktop = [], pv_recentUrls = [], pv_serverEpoch = None,
     pv_serverRevision = 0, pv_sessions = [], pv_suppressed = {}\<rparr>"

fun nav_url :: "nav_status \<Rightarrow> string option" where
  "nav_url Nav_Idle = None"
| "nav_url (Nav_Loading title url) = Some url"
| "nav_url (Nav_Success title url) = Some url"
| "nav_url (Nav_Failed code description title url) = Some url"

definition rememberUrl :: "string list \<Rightarrow> preview_snapshot \<Rightarrow> string list" where
  "rememberUrl urls snapshot =
     (case nav_url (sn_navStatus snapshot) of
        None \<Rightarrow> urls
      | Some url \<Rightarrow> take 8 (url # filter (\<lambda>u. u \<noteq> url) urls))"

definition latest_session :: "(string \<times> preview_snapshot) list \<Rightarrow> preview_snapshot option" where
  "latest_session sessions =
     (case rev (sort_key sn_updatedAt (map snd sessions)) of [] \<Rightarrow> None | s # _ \<Rightarrow> Some s)"

definition removeSession :: "string \<Rightarrow> preview_state \<Rightarrow> preview_state" where
  "removeSession tabId s =
     (if map_of (pv_sessions s) tabId = None then s
      else
        (let sessions = AList.delete tabId (pv_sessions s)
         in s\<lparr>pv_sessions := sessions, pv_desktop := AList.delete tabId (pv_desktop s),
              pv_activeTabId := (if pv_activeTabId s = Some tabId
                                 then map_option sn_tabId (latest_session sessions)
                                 else pv_activeTabId s)\<rparr>))"

definition updateWorkspace ::
    "(string \<times> preview_state) list \<Rightarrow> string \<Rightarrow> (preview_state \<Rightarrow> preview_state)
      \<Rightarrow> (string \<times> preview_state) list" where
  "updateWorkspace byWorkspaceId workspaceId f =
     AList.update workspaceId
       (f (case map_of byWorkspaceId workspaceId of Some s \<Rightarrow> s | None \<Rightarrow> empty_preview)) byWorkspaceId"

definition overlay_of :: "desktop_tab_state \<Rightarrow> desktop_overlay" where
  "overlay_of d =
     \<lparr>do_audible = dt_audible d, do_audioMuted = dt_audioMuted d, do_canGoBack = dt_canGoBack d,
      do_canGoForward = dt_canGoForward d, do_colorScheme = dt_colorScheme d,
      do_controller = dt_controller d, do_favicon = dt_favicon d,
      do_hasWebContents = (dt_webContentsId d \<noteq> None), do_loading = (dt_navKind d = ''Loading''),
      do_pictureInPicture = dt_pictureInPicture d, do_zoomFactor = dt_zoomFactor d\<rparr>"

definition applyDesktopState ::
    "string \<Rightarrow> desktop_tab_state option \<Rightarrow> preview_state \<Rightarrow> preview_state" where
  "applyDesktopState tabId desktopState s =
     s\<lparr>pv_desktop := (case desktopState of
                        Some d \<Rightarrow> AList.update tabId (overlay_of d) (pv_desktop s)
                      | None \<Rightarrow> AList.delete tabId (pv_desktop s))\<rparr>"

definition setController :: "string \<Rightarrow> string \<Rightarrow> preview_state \<Rightarrow> preview_state" where
  "setController tabId controller s =
     (case map_of (pv_desktop s) tabId of
        None \<Rightarrow> s
      | Some current \<Rightarrow>
          s\<lparr>pv_desktop := AList.update tabId (current\<lparr>do_controller := controller\<rparr>) (pv_desktop s)\<rparr>)"

text \<open>The common branch of the events that carry a snapshot.\<close>

definition show_snapshot :: "bool \<Rightarrow> string \<Rightarrow> preview_snapshot \<Rightarrow> preview_state \<Rightarrow> preview_state" where
  "show_snapshot opened tabId snapshot s =
     (if tabId \<in> pv_suppressed s then s
      else s\<lparr>pv_sessions := AList.update tabId snapshot (pv_sessions s),
             pv_activeTabId := (if opened then Some tabId
                                else (case pv_activeTabId s of Some a \<Rightarrow> Some a | None \<Rightarrow> Some tabId)),
             pv_recentUrls := rememberUrl (pv_recentUrls s) snapshot\<rparr>)"

definition applyEvent :: "preview_event \<Rightarrow> preview_state \<Rightarrow> preview_state" where
  "applyEvent event s =
     (if pv_serverEpoch s \<noteq> None \<and> pv_serverEpoch s \<noteq> Some (ev_serverEpoch event) then s
      else if ev_revision event \<le> pv_serverRevision s then s
      else
        (let tabId = ev_tabId event;
             next = (case ev_body event of
                Preview_Closed \<Rightarrow>
                  (let next = removeSession tabId s
                   in next\<lparr>pv_suppressed := pv_suppressed next - {tabId}\<rparr>)
              | Preview_Failed code description title url \<Rightarrow>
                  (case map_of (pv_sessions s) tabId of
                     None \<Rightarrow> s
                   | Some previous \<Rightarrow>
                       s\<lparr>pv_sessions := AList.update tabId
                           (previous\<lparr>sn_updatedAt := ev_createdAt event,
                                     sn_navStatus := Nav_Failed code description title url\<rparr>)
                           (pv_sessions s)\<rparr>)
              | Preview_Opened snapshot \<Rightarrow> show_snapshot True tabId snapshot s
              | Preview_Navigated snapshot \<Rightarrow> show_snapshot False tabId snapshot s
              | Preview_Resized snapshot \<Rightarrow> show_snapshot False tabId snapshot s)
         in next\<lparr>pv_serverEpoch := Some (ev_serverEpoch event),
                 pv_serverRevision := ev_revision event\<rparr>))"

definition beginClose :: "string \<Rightarrow> preview_state \<Rightarrow> preview_state" where
  "beginClose tabId s =
     (removeSession tabId s)\<lparr>pv_suppressed := insert tabId (pv_suppressed s)\<rparr>"

definition cancelClose :: "string \<Rightarrow> preview_snapshot option \<Rightarrow> preview_state \<Rightarrow> preview_state" where
  "cancelClose tabId snapshot s =
     (let s1 = s\<lparr>pv_suppressed := pv_suppressed s - {tabId}\<rparr>
      in case snapshot of
           Some sn \<Rightarrow> s1\<lparr>pv_sessions := AList.update tabId sn (pv_sessions s), pv_activeTabId := Some tabId\<rparr>
         | None \<Rightarrow> s1)"

text \<open>The loop of \<open>reconcile\<close> over the incoming snapshots.\<close>

fun reconcile_sessions ::
    "string set \<Rightarrow> (string \<Rightarrow> preview_snapshot option) \<Rightarrow> preview_snapshot list
      \<Rightarrow> (string \<times> preview_snapshot) list \<Rightarrow> string list
      \<Rightarrow> (string \<times> preview_snapshot) list \<times> string list" where
  "reconcile_sessions suppressed known [] sessions urls = (sessions, urls)"
| "reconcile_sessions suppressed known (incoming # rest) sessions urls =
     (if sn_tabId incoming \<in> suppressed then reconcile_sessions suppressed known rest sessions urls
      else
        (let snapshot = (case known (sn_tabId incoming) of
                           Some existing \<Rightarrow>
                             if sn_updatedAt incoming < sn_updatedAt existing then existing else incoming
                         | None \<Rightarrow> incoming)
         in reconcile_sessions suppressed known rest
              (AList.update (sn_tabId snapshot) snapshot sessions) (rememberUrl urls snapshot)))"

definition reconcile_previews :: "preview_list \<Rightarrow> preview_state \<Rightarrow> preview_state" where
  "reconcile_previews result s =
     (let sameServer = (pv_serverEpoch s = Some (pl_serverEpoch result))
      in if sameServer \<and> pl_revision result < pv_serverRevision s then s
         else
           (let suppressed = (if sameServer then pv_suppressed s else {});
                known = (if sameServer then map_of (pv_sessions s) else (\<lambda>_. None));
                (sessions, urls) =
                  reconcile_sessions suppressed known (pl_sessions result) [] (pv_recentUrls s)
            in s\<lparr>pv_sessions := sessions,
                 pv_activeTabId :=
                   (case pv_activeTabId s of
                      Some a \<Rightarrow> if a \<noteq> [] \<and> map_of sessions a \<noteq> None then Some a
                                else map_option sn_tabId (latest_session sessions)
                    | None \<Rightarrow> map_option sn_tabId (latest_session sessions)),
                 pv_recentUrls := urls,
                 pv_serverEpoch := Some (pl_serverEpoch result),
                 pv_serverRevision := pl_revision result,
                 pv_suppressed := {t \<in> suppressed. t \<in> sn_tabId ` set (pl_sessions result)},
                 pv_desktop := (if sameServer
                                then filter (\<lambda>(t, _). map_of sessions t \<noteq> None) (pv_desktop s)
                                else [])\<rparr>))"

definition removeWorkspace ::
    "string \<Rightarrow> (string \<times> preview_state) list \<Rightarrow> (string \<times> preview_state) list" where
  "removeWorkspace workspaceId byWorkspaceId = AList.delete workspaceId byWorkspaceId"

definition setActivePreview :: "string \<Rightarrow> preview_state \<Rightarrow> preview_state" where
  "setActivePreview tabId s =
     (if map_of (pv_sessions s) tabId \<noteq> None then s\<lparr>pv_activeTabId := Some tabId\<rparr> else s)"

definition upsertPreview :: "preview_snapshot \<Rightarrow> preview_state \<Rightarrow> preview_state" where
  "upsertPreview snapshot s =
     s\<lparr>pv_sessions := AList.update (sn_tabId snapshot) snapshot (pv_sessions s),
       pv_activeTabId := Some (sn_tabId snapshot),
       pv_recentUrls := rememberUrl (pv_recentUrls s) snapshot\<rparr>"

text \<open>An event of \<open>use-preview-session.ts\<close>: another epoch asks for the list again.\<close>

definition receive_preview_event :: "string \<Rightarrow> preview_event \<Rightarrow> preview_state \<Rightarrow> preview_state \<times> bool" where
  "receive_preview_event workspaceId event s =
     (if ev_workspaceId event \<noteq> workspaceId then (s, False)
      else if truthy (pv_serverEpoch s) \<and> pv_serverEpoch s \<noteq> Some (ev_serverEpoch event) then (s, True)
      else (applyEvent event s, False))"

section \<open>The invariant of the store\<close>

definition preview_ok :: "preview_state \<Rightarrow> bool" where
  "preview_ok s \<longleftrightarrow>
     distinct (map fst (pv_sessions s)) \<and> distinct (map fst (pv_desktop s)) \<and>
     list_all (\<lambda>(t, sn). sn_tabId sn = t) (pv_sessions s) \<and>
     (case pv_activeTabId s of None \<Rightarrow> True | Some a \<Rightarrow> a \<in> fst ` set (pv_sessions s)) \<and>
     distinct (pv_recentUrls s) \<and> length (pv_recentUrls s) \<le> 8"

lemma empty_preview_ok: "preview_ok empty_preview"
  by (simp add: preview_ok_def empty_preview_def)

lemma rememberUrl_ok:
  "distinct urls \<and> length urls \<le> 8 \<Longrightarrow> distinct (rememberUrl urls sn) \<and> length (rememberUrl urls sn) \<le> 8"
  by (auto simp: rememberUrl_def split: option.split dest: in_set_takeD)

definition sessions_ok :: "(string \<times> preview_snapshot) list \<Rightarrow> bool" where
  "sessions_ok ss \<longleftrightarrow> distinct (map fst ss) \<and> list_all (\<lambda>(t, sn). sn_tabId sn = t) ss"

lemma sessions_ok_update: "sessions_ok ss \<Longrightarrow> sn_tabId sn = t \<Longrightarrow> sessions_ok (AList.update t sn ss)"
  unfolding sessions_ok_def
proof (intro conjI)
  assume ok: "distinct (map fst ss) \<and> list_all (\<lambda>(t, sn). sn_tabId sn = t) ss" and "sn_tabId sn = t"
  then show "distinct (map fst (AList.update t sn ss))" by (simp add: distinct_update)
  show "list_all (\<lambda>(t, sn). sn_tabId sn = t) (AList.update t sn ss)"
    using ok \<open>sn_tabId sn = t\<close> by (induction ss) (auto split: if_splits)
qed

lemma sessions_ok_delete: "sessions_ok ss \<Longrightarrow> sessions_ok (AList.delete t ss)"
  by (auto simp: sessions_ok_def list_all_iff AList.delete_eq distinct_map_filter)

lemma latest_session_in:
  "sessions_ok ss \<Longrightarrow> latest_session ss = Some sn \<Longrightarrow> sn_tabId sn \<in> fst ` set ss"
proof -
  assume ok: "sessions_ok ss" and latest: "latest_session ss = Some sn"
  obtain rest where "rev (sort_key sn_updatedAt (map snd ss)) = sn # rest"
    using latest unfolding latest_session_def by (cases "rev (sort_key sn_updatedAt (map snd ss))") auto
  then have "sn \<in> set (rev (sort_key sn_updatedAt (map snd ss)))" by simp
  then obtain t where "(t, sn) \<in> set ss" unfolding set_rev set_sort by auto
  with ok show ?thesis by (force simp: sessions_ok_def list_all_iff)
qed

lemma preview_ok_iff:
  "preview_ok s \<longleftrightarrow> sessions_ok (pv_sessions s) \<and> distinct (map fst (pv_desktop s)) \<and>
     (case pv_activeTabId s of None \<Rightarrow> True | Some a \<Rightarrow> a \<in> fst ` set (pv_sessions s)) \<and>
     distinct (pv_recentUrls s) \<and> length (pv_recentUrls s) \<le> 8"
  by (auto simp: preview_ok_def sessions_ok_def)

section \<open>Every operation keeps the invariant\<close>

lemma removeSession_ok:
  assumes "preview_ok s"
  shows "preview_ok (removeSession tabId s)" "map_of (pv_sessions (removeSession tabId s)) tabId = None"
    "pv_suppressed (removeSession tabId s) = pv_suppressed s"
proof -
  let ?ss = "AList.delete tabId (pv_sessions s)"
  have ok: "sessions_ok (pv_sessions s)" "sessions_ok ?ss" "distinct (map fst (AList.delete tabId (pv_desktop s)))"
    using assms by (auto simp: preview_ok_iff sessions_ok_delete distinct_delete)
  have "case map_option sn_tabId (latest_session ?ss) of None \<Rightarrow> True | Some a \<Rightarrow> a \<in> fst ` set ?ss"
    using latest_session_in [OF ok(2)] by (cases "latest_session ?ss") auto
  moreover have "a \<in> fst ` set (pv_sessions s) \<Longrightarrow> a \<noteq> tabId \<Longrightarrow> a \<in> fst ` set ?ss" for a
    by (auto simp: AList.delete_eq)
  ultimately show "preview_ok (removeSession tabId s)"
    using assms ok by (auto simp: removeSession_def preview_ok_iff Let_def split: option.splits)
  show "map_of (pv_sessions (removeSession tabId s)) tabId = None"
    by (simp add: removeSession_def delete_conv Let_def)
  show "pv_suppressed (removeSession tabId s) = pv_suppressed s"
    by (simp add: removeSession_def Let_def)
qed

lemma update_mem: "a \<in> fst ` set ss \<Longrightarrow> a \<in> fst ` set (AList.update k v ss)" "k \<in> fst ` set (AList.update k v ss)"
  unfolding dom_map_of_conv_image_fst [symmetric] update_conv' by auto

lemma show_snapshot_ok:
  "preview_ok s \<Longrightarrow> sn_tabId sn = tabId \<Longrightarrow> preview_ok (show_snapshot opened tabId sn s)"
  using rememberUrl_ok [of "pv_recentUrls s" sn]
  by (auto simp: show_snapshot_def preview_ok_iff sessions_ok_update update_mem split: option.split)

text \<open>The snapshot of an event names the event's tab.\<close>

definition event_names_tab :: "preview_event \<Rightarrow> bool" where
  "event_names_tab e =
     (case ev_body e of
        Preview_Opened sn \<Rightarrow> sn_tabId sn = ev_tabId e
      | Preview_Navigated sn \<Rightarrow> sn_tabId sn = ev_tabId e
      | Preview_Resized sn \<Rightarrow> sn_tabId sn = ev_tabId e
      | _ \<Rightarrow> True)"

lemma preview_ok_server [simp]:
  "preview_ok (s\<lparr>pv_serverEpoch := e, pv_serverRevision := r\<rparr>) = preview_ok s"
  "preview_ok (s\<lparr>pv_suppressed := x\<rparr>) = preview_ok s"
  by (simp_all add: preview_ok_def cong: option.case_cong)

lemma session_named: "sessions_ok ss \<Longrightarrow> map_of ss t = Some sn \<Longrightarrow> sn_tabId sn = t"
  by (drule map_of_SomeD) (auto simp: sessions_ok_def list_all_iff)

lemma applyEvent_ok:
  assumes "preview_ok s" and "event_names_tab e"
  shows "preview_ok (applyEvent e s)"
proof -
  have "preview_ok (s\<lparr>pv_sessions := AList.update (ev_tabId e) (p\<lparr>sn_updatedAt := t, sn_navStatus := st\<rparr>) (pv_sessions s)\<rparr>)"
    if "map_of (pv_sessions s) (ev_tabId e) = Some p" for p t st
    using assms(1) session_named [OF _ that]
    by (auto simp: preview_ok_iff sessions_ok_update update_mem split: option.splits)
  then show ?thesis
    using assms
    by (auto simp: applyEvent_def event_names_tab_def removeSession_ok show_snapshot_ok Let_def
        split: preview_event_body.split option.split)
qed

lemma reconcile_sessions_ok:
  assumes "\<And>t sn. known t = Some sn \<Longrightarrow> sn_tabId sn = t"
  shows "sessions_ok ss \<Longrightarrow> distinct urls \<and> length urls \<le> 8 \<Longrightarrow>
    reconcile_sessions suppressed known snaps ss urls = (ss', urls') \<Longrightarrow>
    sessions_ok ss' \<and> distinct urls' \<and> length urls' \<le> 8"
proof (induction snaps arbitrary: ss urls)
  case (Cons sn snaps)
  let ?sn = "case known (sn_tabId sn) of Some existing \<Rightarrow>
      if sn_updatedAt sn < sn_updatedAt existing then existing else sn | None \<Rightarrow> sn"
  show ?case
  proof (cases "sn_tabId sn \<in> suppressed")
    case True
    with Cons show ?thesis by simp
  next
    case False
    from Cons.IH [OF sessions_ok_update [OF Cons.prems(1) refl] rememberUrl_ok [OF Cons.prems(2)], of ?sn ?sn]
      False Cons.prems(3)
    show ?thesis by (simp add: Let_def)
  qed
qed simp

lemma distinct_fst_filter: "distinct (map fst xs) \<Longrightarrow> distinct (map fst (filter P xs))"
  by (rule distinct_map_filter)

lemma reconcile_previews_ok:
  assumes "preview_ok s"
  shows "preview_ok (reconcile_previews l s)"
proof (cases "pv_serverEpoch s = Some (pl_serverEpoch l) \<and> pl_revision l < pv_serverRevision s")
  case True
  then show ?thesis using assms by (simp add: reconcile_previews_def Let_def)
next
  case False
  let ?same = "pv_serverEpoch s = Some (pl_serverEpoch l)"
  obtain ss urls where ss: "reconcile_sessions (if ?same then pv_suppressed s else {})
      (if ?same then map_of (pv_sessions s) else (\<lambda>_. None)) (pl_sessions l) [] (pv_recentUrls s) = (ss, urls)"
    by fastforce
  have ok: "sessions_ok (pv_sessions s)" "distinct (pv_recentUrls s) \<and> length (pv_recentUrls s) \<le> 8"
    "distinct (map fst (pv_desktop s))"
    using assms by (auto simp: preview_ok_iff)
  have "sessions_ok ss \<and> distinct urls \<and> length urls \<le> 8"
    by (rule reconcile_sessions_ok [OF _ _ ok(2) ss])
      (use session_named [OF ok(1)] in \<open>auto simp: sessions_ok_def split: if_splits\<close>)
  moreover have "case map_option sn_tabId (latest_session ss) of None \<Rightarrow> True | Some a \<Rightarrow> a \<in> fst ` set ss"
    if "sessions_ok ss"
    using latest_session_in [OF that] by (cases "latest_session ss") auto
  moreover have "a \<in> fst ` set ss" if "map_of ss a \<noteq> None" for a
    using that by (auto simp: map_of_eq_None_iff)
  ultimately show ?thesis
    using False ss ok(3)
    by (auto simp: reconcile_previews_def preview_ok_iff Let_def distinct_map_filter split: option.splits)
qed

inductive preview_step :: "preview_state \<Rightarrow> preview_state \<Rightarrow> bool" where
  "preview_step s (applyDesktopState t d s)"
| "preview_step s (setController t c s)"
| "event_names_tab e \<Longrightarrow> preview_step s (applyEvent e s)"
| "preview_step s (beginClose t s)"
| "sn = None \<or> sn_tabId (the sn) = t \<Longrightarrow> preview_step s (cancelClose t sn s)"
| "preview_step s (reconcile_previews l s)"
| "preview_step s (setActivePreview t s)"
| "preview_step s (upsertPreview sn s)"

lemma preview_step_ok:
  assumes "preview_step s s'" and "preview_ok s"
  shows "preview_ok s'"
  using assms
proof (induction rule: preview_step.induct)
  case (1 s t d)
  then show ?case
    by (auto simp: applyDesktopState_def preview_ok_def distinct_update distinct_delete split: option.split)
next
  case (2 s t c)
  then show ?case by (auto simp: setController_def preview_ok_def distinct_update split: option.split)
next
  case (4 s t)
  then show ?case by (simp add: beginClose_def removeSession_ok)
next
  case (5 sn t s)
  then show ?case
    by (auto simp: cancelClose_def preview_ok_iff sessions_ok_update update_mem Let_def split: option.split)
next
  case (7 s t)
  then show ?case
    by (auto simp: setActivePreview_def preview_ok_def dest: map_of_SomeD intro: rev_image_eqI)
next
  case (8 s sn)
  then show ?case
    using rememberUrl_ok [of "pv_recentUrls s" sn]
    by (simp add: upsertPreview_def preview_ok_iff sessions_ok_update update_mem)
qed (simp_all add: applyEvent_ok reconcile_previews_ok)

end
