(* ===== verification/Preview_Facts.thy ===== *)
theory Preview_Facts
  imports Preview_Store
begin

text \<open>
  The renderer follows the daemon. The reference is the log of published events: \<open>log_view\<close> is
  what its first n events make of one workspace. The daemon's sessions are the view of its
  whole log, a list it answers is the view at its revision, and the renderer, which receives
  lists and events late and more than once, shows the view at its own revision without the tabs
  it is closing. Snapshots are compared without \<open>canGoBack\<close> and \<open>canGoForward\<close>, which a failed
  load does not send.
\<close>

section \<open>The view of a log\<close>

type_synonym tab_view = "string \<Rightarrow> preview_snapshot option"

definition sn_core :: "preview_snapshot \<Rightarrow> preview_snapshot" where
  "sn_core sn = sn\<lparr>sn_canGoBack := False, sn_canGoForward := False\<rparr>"

fun view_body :: "string \<Rightarrow> int \<Rightarrow> preview_event_body \<Rightarrow> tab_view \<Rightarrow> tab_view" where
  "view_body t now (Preview_Opened sn) V = V(t \<mapsto> sn_core sn)"
| "view_body t now (Preview_Navigated sn) V = V(t \<mapsto> sn_core sn)"
| "view_body t now (Preview_Resized sn) V = V(t \<mapsto> sn_core sn)"
| "view_body t now (Preview_Failed code description title url) V =
     V(t := map_option (\<lambda>sn. sn\<lparr>sn_updatedAt := now, sn_navStatus := Nav_Failed code description title url\<rparr>) (V t))"
| "view_body t now Preview_Closed V = V(t := None)"

definition view_event :: "string \<Rightarrow> tab_view \<Rightarrow> preview_event \<Rightarrow> tab_view" where
  "view_event w V e =
     (if ev_workspaceId e = w then view_body (ev_tabId e) (ev_createdAt e) (ev_body e) V else V)"

definition log_view :: "string \<Rightarrow> preview_event list \<Rightarrow> nat \<Rightarrow> tab_view" where
  "log_view w events n = foldl (view_event w) Map.empty (take n events)"

lemma log_view_prefix: "n \<le> length events \<Longrightarrow> log_view w (events @ later) n = log_view w events n"
  by (simp add: log_view_def)

lemma log_view_Suc:
  "n < length events \<Longrightarrow> log_view w events (Suc n) = view_event w (log_view w events n) (events ! n)"
  by (simp add: log_view_def take_Suc_conv_app_nth)

lemma log_view_skip:
  assumes "n \<le> m" and "m \<le> length events" and "\<forall>j. n \<le> j \<longrightarrow> j < m \<longrightarrow> ev_workspaceId (events ! j) \<noteq> w"
  shows "log_view w events m = log_view w events n"
  using assms
proof (induction m rule: dec_induct)
  case (step m)
  then show ?case by (simp add: log_view_Suc view_event_def)
qed simp

section \<open>The daemon's sessions are the view of its log\<close>

definition daemon_view :: "preview_manager \<Rightarrow> string \<Rightarrow> tab_view" where
  "daemon_view m w t = map_option (\<lambda>s. sn_core (pse_snapshot s)) (map_of (pm_sessions m) (w, t))"

text \<open>The instants of an event and of the snapshot it carries agree, and so do their tabs.\<close>

definition event_ok :: "preview_event \<Rightarrow> bool" where
  "event_ok e = (case ev_body e of
     Preview_Opened sn \<Rightarrow> sn_updatedAt sn = ev_createdAt e \<and> sn_tabId sn = ev_tabId e
   | Preview_Navigated sn \<Rightarrow> sn_updatedAt sn = ev_createdAt e \<and> sn_tabId sn = ev_tabId e
   | Preview_Resized sn \<Rightarrow> sn_updatedAt sn = ev_createdAt e \<and> sn_tabId sn = ev_tabId e
   | _ \<Rightarrow> True)"

definition daemon_ok :: "string \<Rightarrow> preview_manager \<Rightarrow> bool" where
  "daemon_ok epoch m \<longleftrightarrow> manager_ok epoch m \<and> list_all event_ok (pm_events m) \<and>
     (\<forall>w. daemon_view m w = log_view w (pm_events m) (length (pm_events m)))"

lemma daemon_ok_revision:
  assumes "daemon_ok epoch m"
  shows "pm_revision m = length (pm_events m)"
proof -
  have "map ev_revision (pm_events m) = [1..<Suc (pm_revision m)]"
    using assms by (simp add: daemon_ok_def manager_ok_def del: upt_Suc)
  from arg_cong [OF this, of length] show ?thesis by (simp del: upt_Suc)
qed

lemma new_daemon_ok: "daemon_ok epoch new_manager"
  by (simp add: daemon_ok_def new_manager_ok)
    (simp add: new_manager_def daemon_view_def log_view_def fun_eq_iff)

text \<open>One published event and the map it leaves.\<close>

lemma daemon_publish:
  assumes "daemon_ok epoch m" and "event_ok e" and "ev_revision e = pm_revision m + 1"
    and "ev_serverEpoch e = epoch"
    and "pm_revision m' = pm_revision m + 1" and "pm_events m' = pm_events m @ [e]"
    and "distinct (map fst (pm_sessions m'))"
    and "\<And>k s. map_of (pm_sessions m') k = Some s \<Longrightarrow> map_of (pm_sessions m) k = Some s \<or>
      k = (pse_workspaceId s, pse_tabId s) \<and> sn_tabId (pse_snapshot s) = pse_tabId s \<and>
      sn_workspaceId (pse_snapshot s) = pse_workspaceId s \<and> sn_viewport (pse_snapshot s) \<noteq> None"
    and "\<And>w. daemon_view m' w = view_event w (daemon_view m w) e"
  shows "daemon_ok epoch m'"
proof -
  have "list_all (\<lambda>(k, s). k = (pse_workspaceId s, pse_tabId s) \<and>
      sn_tabId (pse_snapshot s) = pse_tabId s \<and> sn_workspaceId (pse_snapshot s) = pse_workspaceId s \<and>
      sn_viewport (pse_snapshot s) \<noteq> None) (pm_sessions m')"
    unfolding list_all_iff
  proof clarify
    fix a b s
    assume "((a, b), s) \<in> set (pm_sessions m')"
    then have "map_of (pm_sessions m') (a, b) = Some s" using assms(7) by simp
    from assms(8) [OF this] assms(1)
    show "(a, b) = (pse_workspaceId s, pse_tabId s) \<and> sn_tabId (pse_snapshot s) = pse_tabId s \<and>
      sn_workspaceId (pse_snapshot s) = pse_workspaceId s \<and> sn_viewport (pse_snapshot s) \<noteq> None"
      by (fastforce dest: map_of_SomeD simp: daemon_ok_def manager_ok_def list_all_iff)
  qed
  moreover have "log_view w (pm_events m @ [e]) (Suc (length (pm_events m)))
      = view_event w (log_view w (pm_events m) (length (pm_events m))) e" for w
    by (simp add: log_view_def)
  ultimately show ?thesis
    using assms by (simp add: daemon_ok_def manager_ok_def)
qed

lemma daemon_view_update:
  assumes "pm_sessions m' = AList.update (w, t) s (pm_sessions m)"
  shows "daemon_view m' v = (if v = w then (daemon_view m v)(t \<mapsto> sn_core (pse_snapshot s)) else daemon_view m v)"
  using assms by (auto simp: daemon_view_def fun_eq_iff update_conv')

text \<open>What the operations on one session do to it.\<close>

definition mutation_ok ::
    "preview_session \<Rightarrow> (int \<times> preview_event_body) option \<times> preview_session \<times> 'a \<Rightarrow> bool" where
  "mutation_ok s out \<longleftrightarrow>
     (case out of (emit, s', r) \<Rightarrow>
        pse_tabId s' = pse_tabId s \<and> pse_workspaceId s' = pse_workspaceId s \<and>
        sn_tabId (pse_snapshot s') = sn_tabId (pse_snapshot s) \<and>
        sn_workspaceId (pse_snapshot s') = sn_workspaceId (pse_snapshot s) \<and>
        sn_viewport (pse_snapshot s') \<noteq> None \<and>
        (case emit of
           None \<Rightarrow> s' = s
         | Some (now, Preview_Navigated sn) \<Rightarrow> sn = pse_snapshot s' \<and> sn_updatedAt sn = now
         | Some (now, Preview_Resized sn) \<Rightarrow> sn = pse_snapshot s' \<and> sn_updatedAt sn = now
         | Some (now, Preview_Failed code description title url) \<Rightarrow>
             sn_core (pse_snapshot s') = (sn_core (pse_snapshot s))
               \<lparr>sn_updatedAt := now, sn_navStatus := Nav_Failed code description title url\<rparr>
         | Some _ \<Rightarrow> False))"

lemma mutateExisting_daemon_ok:
  assumes "daemon_ok epoch m"
    and "\<And>s. sn_viewport (pse_snapshot s) \<noteq> None \<Longrightarrow> mutation_ok s (mutate s)"
  shows "daemon_ok epoch (snd (mutateExisting epoch w t mutate m))"
proof (cases "map_of (pm_sessions m) (w, t)")
  case None
  then show ?thesis using assms(1) by (simp add: mutateExisting_def)
next
  case (Some s)
  then have s: "pse_workspaceId s = w" "pse_tabId s = t" "sn_tabId (pse_snapshot s) = t"
    "sn_workspaceId (pse_snapshot s) = w" "sn_viewport (pse_snapshot s) \<noteq> None"
    using assms(1) by (auto dest!: map_of_SomeD simp: daemon_ok_def manager_ok_def list_all_iff)
  obtain emit s' r where out: "mutate s = (emit, s', r)" by (rule prod_cases3)
  have ok: "mutation_ok s (emit, s', r)" using assms(2) [OF s(5)] out by simp
  let ?m' = "snd (mutateExisting epoch w t mutate m)"
  show ?thesis
  proof (cases emit)
    case None
    then have "s' = s" using ok by (simp add: mutation_ok_def)
    then have same: "map_of (AList.update (w, t) s' (pm_sessions m)) = map_of (pm_sessions m)"
      using Some by (auto simp: update_conv')
    have "set (AList.update (w, t) s' (pm_sessions m)) = set (pm_sessions m)"
      using assms(1) same
      by (metis daemon_ok_def distinct_update manager_ok_def map_of_eqI map_of_inject_set)
    moreover have "distinct (map fst (AList.update (w, t) s' (pm_sessions m)))"
      using assms(1) by (simp add: distinct_update daemon_ok_def manager_ok_def)
    ultimately show ?thesis using assms(1) None Some out same
      by (simp add: mutateExisting_def daemon_ok_def manager_ok_def daemon_view_def list_all_iff fun_eq_iff)
  next
    case emit: (Some draft)
    obtain now body where draft: "draft = (now, body)" by (cases draft)
    let ?e = "publish_draft epoch (pm_revision m + 1) w t draft"
    have m': "pm_revision ?m' = pm_revision m + 1" "pm_events ?m' = pm_events m @ [?e]"
      "pm_sessions ?m' = AList.update (w, t) s' (pm_sessions m)"
      using Some out emit by (simp_all add: mutateExisting_def)
    have "daemon_view m w t = Some (sn_core (pse_snapshot s))" using Some by (simp add: daemon_view_def)
    then have view: "daemon_view ?m' v = view_event v (daemon_view m v) ?e" for v
      using ok emit draft unfolding daemon_view_update [OF m'(3)]
      by (auto simp: view_event_def publish_draft_def mutation_ok_def split: preview_event_body.splits)
    have e_ok: "event_ok ?e"
      using ok emit draft s by (auto simp: event_ok_def publish_draft_def mutation_ok_def split: preview_event_body.splits)
    show ?thesis
    proof (rule daemon_publish [OF assms(1) e_ok _ _ m'(1,2) _ _ view])
      show "distinct (map fst (pm_sessions ?m'))"
        using assms(1) by (simp add: m'(3) distinct_update daemon_ok_def manager_ok_def)
    next
      fix k a
      assume "map_of (pm_sessions ?m') k = Some a"
      then show "map_of (pm_sessions m) k = Some a \<or>
        k = (pse_workspaceId a, pse_tabId a) \<and> sn_tabId (pse_snapshot a) = pse_tabId a \<and>
        sn_workspaceId (pse_snapshot a) = pse_workspaceId a \<and> sn_viewport (pse_snapshot a) \<noteq> None"
        using ok s by (auto simp: m'(3) update_conv' mutation_ok_def split: if_splits)
    qed (simp_all add: publish_draft_def)
  qed
qed

lemma or_fill_id: "v \<noteq> None \<Longrightarrow> or_fill v = v"
  by (auto simp: or_fill_def)

lemma navigate_daemon_ok:
  "daemon_ok epoch m \<Longrightarrow> daemon_ok epoch (snd (navigate_preview parse_url epoch now w t url title m))"
  by (simp add: navigate_preview_def split: sum.split)
    (auto intro!: mutateExisting_daemon_ok simp: mutation_ok_def or_fill_def Let_def)

lemma report_daemon_ok:
  "daemon_ok epoch m \<Longrightarrow> daemon_ok epoch (snd (reportStatus_preview epoch now w t back forward status m))"
  unfolding reportStatus_preview_def
  by (rule mutateExisting_daemon_ok, assumption)
    (cases status; simp add: mutation_ok_def or_fill_id sn_core_def Let_def)

lemma resize_daemon_ok:
  "daemon_ok epoch m \<Longrightarrow> daemon_ok epoch (snd (resize_preview epoch now w t v m))"
  unfolding resize_preview_def
  by (rule mutateExisting_daemon_ok, assumption) (simp add: mutation_ok_def Let_def)

lemma refresh_daemon_ok:
  "daemon_ok epoch m \<Longrightarrow> daemon_ok epoch (snd (refresh_preview epoch w t m))"
  unfolding refresh_preview_def
  by (rule mutateExisting_daemon_ok, assumption) (simp add: mutation_ok_def)

lemma daemon_ok_next: "daemon_ok epoch (m\<lparr>pm_nextTab := n\<rparr>) = daemon_ok epoch m"
  by (simp add: daemon_ok_def manager_ok_def daemon_view_def fun_eq_iff del: upt_Suc)

lemma open_daemon_ok:
  assumes "daemon_ok epoch m"
  shows "daemon_ok epoch (snd (open_preview parse_url epoch now w url v m))"
proof -
  obtain t m1 where tab: "newPreviewTabId m = (t, m1)" by fastforce
  then have m1: "daemon_ok epoch m1" using assms by (auto simp: newPreviewTabId_def Let_def daemon_ok_next)
  show ?thesis
  proof (cases "case url of None \<Rightarrow> Inr Nav_Idle | Some u \<Rightarrow> map_sum id (Nav_Loading []) (normalizePreviewUrl parse_url u)")
    case (Inl e)
    then show ?thesis using m1 tab by (simp add: open_preview_def)
  next
    case (Inr status)
    let ?sn = "\<lparr>sn_canGoBack = False, sn_canGoForward = False, sn_navStatus = status, sn_tabId = t,
      sn_updatedAt = now, sn_viewport = Some (case v of Some v \<Rightarrow> v | None \<Rightarrow> Viewport_Fill), sn_workspaceId = w\<rparr>"
    let ?s = "\<lparr>pse_snapshot = ?sn, pse_tabId = t, pse_workspaceId = w\<rparr>"
    let ?e = "publish_draft epoch (pm_revision m1 + 1) w t (now, Preview_Opened ?sn)"
    let ?m' = "m1\<lparr>pm_revision := pm_revision m1 + 1, pm_sessions := AList.update (w, t) ?s (pm_sessions m1),
      pm_events := pm_events m1 @ [?e]\<rparr>"
    have eq: "snd (open_preview parse_url epoch now w url v m) = ?m'"
      using tab Inr by (simp add: open_preview_def Let_def)
    have "pm_sessions ?m' = AList.update (w, t) ?s (pm_sessions m1)" by simp
    note view = daemon_view_update [OF this]
    show ?thesis unfolding eq
    proof (rule daemon_publish [OF m1, of ?e])
      show "daemon_view ?m' x = view_event x (daemon_view m1 x) ?e" for x
        unfolding view by (auto simp: view_event_def publish_draft_def)
      show "distinct (map fst (pm_sessions ?m'))"
        using m1 by (simp add: distinct_update daemon_ok_def manager_ok_def)
    next
      fix k a
      assume "map_of (pm_sessions ?m') k = Some a"
      then show "map_of (pm_sessions m1) k = Some a \<or>
        k = (pse_workspaceId a, pse_tabId a) \<and> sn_tabId (pse_snapshot a) = pse_tabId a \<and>
        sn_workspaceId (pse_snapshot a) = pse_workspaceId a \<and> sn_viewport (pse_snapshot a) \<noteq> None"
        by (auto simp: update_conv' split: if_splits)
    qed (simp_all add: event_ok_def publish_draft_def)
  qed
qed

lemma close_target_daemon_ok:
  assumes "daemon_ok epoch m"
  shows "daemon_ok epoch (close_target epoch now m s)"
proof -
  let ?w = "pse_workspaceId s" and ?t = "pse_tabId s"
  let ?e = "publish_draft epoch (pm_revision m + 1) ?w ?t (now, Preview_Closed)"
  show ?thesis
  proof (rule daemon_publish [OF assms, of ?e])
    show "daemon_view (close_target epoch now m s) x = view_event x (daemon_view m x) ?e" for x
      by (auto simp: close_target_def daemon_view_def view_event_def publish_draft_def fun_eq_iff delete_conv' Let_def)
    show "distinct (map fst (pm_sessions (close_target epoch now m s)))"
      using assms by (simp add: close_target_def daemon_ok_def manager_ok_def distinct_delete Let_def)
  next
    fix k a
    assume "map_of (pm_sessions (close_target epoch now m s)) k = Some a"
    then have "map_of (pm_sessions m) k = Some a"
      by (auto simp: close_target_def delete_conv' Let_def split: if_splits)
    then show "map_of (pm_sessions m) k = Some a \<or>
        k = (pse_workspaceId a, pse_tabId a) \<and> sn_tabId (pse_snapshot a) = pse_tabId a \<and>
        sn_workspaceId (pse_snapshot a) = pse_workspaceId a \<and> sn_viewport (pse_snapshot a) \<noteq> None" ..
  qed (simp_all add: event_ok_def publish_draft_def close_target_def Let_def)
qed

lemma close_daemon_ok: "daemon_ok epoch m \<Longrightarrow> daemon_ok epoch (close_preview epoch now w t m)"
proof -
  have "daemon_ok epoch m \<Longrightarrow> daemon_ok epoch (foldl (close_target epoch now) m xs)" for m xs
    by (induction xs arbitrary: m) (simp_all add: close_target_daemon_ok)
  then show "daemon_ok epoch m \<Longrightarrow> ?thesis" by (simp add: close_preview_def)
qed

lemma manager_step_ok: "manager_step parse_url epoch m m' \<Longrightarrow> daemon_ok epoch m \<Longrightarrow> daemon_ok epoch m'"
  by (induction rule: manager_step.induct)
    (simp_all add: open_daemon_ok navigate_daemon_ok report_daemon_ok resize_daemon_ok refresh_daemon_ok close_daemon_ok)

lemma manager_run_ok: "(manager_step parse_url epoch)\<^sup>*\<^sup>* m m' \<Longrightarrow> daemon_ok epoch m \<Longrightarrow> daemon_ok epoch m'"
  by (induction rule: rtranclp_induct) (auto intro: manager_step_ok)

section \<open>The log only grows\<close>

lemma mutateExisting_log: "\<exists>es. pm_events (snd (mutateExisting epoch w t mutate m)) = pm_events m @ es"
  by (auto simp: mutateExisting_def Let_def split: option.split prod.split)

lemma close_log: "\<exists>es. pm_events (foldl (close_target epoch now) m xs) = pm_events m @ es"
proof (induction xs arbitrary: m)
  case (Cons x xs)
  from Cons.IH [of "close_target epoch now m x"] show ?case by (auto simp: close_target_def Let_def)
qed simp

lemma manager_step_log: "manager_step parse_url epoch m m' \<Longrightarrow> \<exists>es. pm_events m' = pm_events m @ es"
proof (induction rule: manager_step.induct)
  case (opened m t w url v)
  show ?case
    by (auto simp: open_preview_def newPreviewTabId_def Let_def split: option.split sum.split prod.split)
next
  case (navigated m t w tab url title)
  then show ?case using mutateExisting_log by (auto simp: navigate_preview_def split: sum.split)
qed (simp_all add: reportStatus_preview_def resize_preview_def refresh_preview_def close_preview_def
    mutateExisting_log close_log)

lemma manager_run_log: "(manager_step parse_url epoch)\<^sup>*\<^sup>* m m' \<Longrightarrow> \<exists>es. pm_events m' = pm_events m @ es"
  by (induction rule: rtranclp_induct) (auto dest: manager_step_log)

section \<open>Lists\<close>

definition list_view :: "preview_snapshot list \<Rightarrow> tab_view" where
  "list_view sns t = map_option sn_core (map_of (map (\<lambda>sn. (sn_tabId sn, sn)) sns) t)"

lemma list_previews_view:
  assumes "daemon_ok epoch m"
  shows "list_view (pl_sessions (list_previews epoch w m)) = daemon_view m w"
    and "distinct (map sn_tabId (pl_sessions (list_previews epoch w m)))"
proof -
  let ?ss = "sessionsForWorkspace m w"
  let ?sns = "map pse_snapshot ?ss"
  have ok: "distinct (map fst (pm_sessions m))"
    "\<forall>x\<in>set (pm_sessions m). fst x = (pse_workspaceId (snd x), pse_tabId (snd x)) \<and>
      sn_tabId (pse_snapshot (snd x)) = pse_tabId (snd x)"
    using assms by (auto simp: daemon_ok_def manager_ok_def list_all_iff)
  have keys: "map (\<lambda>s. (w, pse_tabId s)) ?ss = map fst (filter (\<lambda>x. pse_workspaceId (snd x) = w) (pm_sessions m))"
    using ok(2) by (auto simp: sessionsForWorkspace_def filter_map comp_def)
  have tabs: "map sn_tabId ?sns = map pse_tabId ?ss"
    using ok(2) by (auto simp: sessionsForWorkspace_def)
  have "distinct (map (\<lambda>s. (w, pse_tabId s)) ?ss)" unfolding keys by (rule distinct_map_filter [OF ok(1)])
  then have dist: "distinct (map sn_tabId ?sns)" unfolding tabs by (auto simp: distinct_map inj_on_def)
  then show sorted: "distinct (map sn_tabId (pl_sessions (list_previews epoch w m)))"
    using mset_eq_imp_distinct_iff [of "map sn_tabId (sort_key sn_updatedAt ?sns)" "map sn_tabId ?sns"]
    by (simp add: list_previews_def comp_def multiset.map_comp)
  show "list_view (pl_sessions (list_previews epoch w m)) = daemon_view m w"
  proof
    fix t
    have mem: "(t, sn) \<in> set (map (\<lambda>sn. (sn_tabId sn, sn)) (pl_sessions (list_previews epoch w m))) \<longleftrightarrow>
      (\<exists>s. map_of (pm_sessions m) (w, t) = Some s \<and> sn = pse_snapshot s)" for sn
      using ok by (force simp: list_previews_def sessionsForWorkspace_def)
    have "distinct (map fst (map (\<lambda>sn. (sn_tabId sn, sn)) (pl_sessions (list_previews epoch w m))))"
      using sorted by (simp add: comp_def)
    then have "map_of (map (\<lambda>sn. (sn_tabId sn, sn)) (pl_sessions (list_previews epoch w m))) t = Some sn \<longleftrightarrow>
      (\<exists>s. map_of (pm_sessions m) (w, t) = Some s \<and> sn = pse_snapshot s)" for sn
      unfolding mem [symmetric] by (rule map_of_eq_Some_iff)
    then have "map_of (map (\<lambda>sn. (sn_tabId sn, sn)) (pl_sessions (list_previews epoch w m))) t
      = map_option pse_snapshot (map_of (pm_sessions m) (w, t))"
      by (cases "map_of (pm_sessions m) (w, t)") (auto simp: option.map_comp intro: option.exhaust)
    then show "list_view (pl_sessions (list_previews epoch w m)) t = daemon_view m w t"
      by (simp add: list_view_def daemon_view_def option.map_comp comp_def)
  qed
qed

section \<open>Instants in a log\<close>

lemma view_event_time:
  "event_ok e \<Longrightarrow> view_event w V e t = Some sn \<Longrightarrow> sn_updatedAt sn = ev_createdAt e \<or> V t = Some sn"
  by (auto simp: view_event_def event_ok_def sn_core_def split: preview_event_body.splits if_splits)

lemma log_view_time:
  assumes "list_all event_ok events" and "n \<le> length events" and "log_view w events n t = Some sn"
  shows "\<exists>i<n. sn_updatedAt sn = ev_createdAt (events ! i)"
  using assms(2,3)
proof (induction n)
  case (Suc n)
  have "event_ok (events ! n)" using assms(1) Suc.prems(1) by (simp add: list_all_length)
  from view_event_time [OF this, of w "log_view w events n" t sn] Suc show ?case
    by (auto simp: log_view_Suc less_Suc_eq)
qed (simp add: log_view_def)

lemma log_view_later:
  assumes "list_all event_ok events" and "sorted (map ev_createdAt events)"
    and "r \<le> n" and "n \<le> length events"
    and "log_view w events r t = Some a" and "log_view w events n t = Some b"
  shows "sn_updatedAt a \<le> sn_updatedAt b"
  using assms(3,4,6)
proof (induction n arbitrary: b rule: dec_induct)
  case base
  then show ?case using assms(5) by simp
next
  case (step n)
  obtain i where i: "i < r" "sn_updatedAt a = ev_createdAt (events ! i)"
    using log_view_time [OF assms(1) _ assms(5)] step.hyps step.prems(1) by fastforce
  have "event_ok (events ! n)" using assms(1) step.prems(1) by (simp add: list_all_length)
  from view_event_time [OF this, of w "log_view w events n" t b] step.prems
  have "sn_updatedAt b = ev_createdAt (events ! n) \<or> log_view w events n t = Some b"
    by (simp add: log_view_Suc)
  then show ?case
  proof
    assume "sn_updatedAt b = ev_createdAt (events ! n)"
    moreover have "map ev_createdAt events ! i \<le> map ev_createdAt events ! n"
      by (rule sorted_nth_mono [OF assms(2)]) (use i(1) step in simp_all)
    ultimately show ?thesis using i step.hyps step.prems(1) by simp
  next
    assume "log_view w events n t = Some b"
    then show ?thesis using step.IH step.prems(1) by simp
  qed
qed

section \<open>The renderer\<close>

definition client_view :: "preview_state \<Rightarrow> tab_view" where
  "client_view c t = map_option sn_core (map_of (pv_sessions c) t)"

definition follows :: "string \<Rightarrow> string \<Rightarrow> preview_event list \<Rightarrow> preview_state \<Rightarrow> bool" where
  "follows epoch w events c \<longleftrightarrow>
     pv_serverEpoch c = Some epoch \<and> pv_serverRevision c \<le> length events \<and>
     (\<forall>t. client_view c t = (if t \<in> pv_suppressed c then None else log_view w events (pv_serverRevision c) t))"

lemma follows_same:
  "follows epoch w events c \<Longrightarrow> pv_serverEpoch c' = pv_serverEpoch c \<Longrightarrow>
   pv_serverRevision c' = pv_serverRevision c \<Longrightarrow> pv_sessions c' = pv_sessions c \<Longrightarrow>
   pv_suppressed c' = pv_suppressed c \<Longrightarrow> follows epoch w events c'"
  by (simp add: follows_def client_view_def)

lemma client_view_update:
  "pv_sessions c' = AList.update t sn (pv_sessions c) \<Longrightarrow> client_view c' = (client_view c)(t \<mapsto> sn_core sn)"
  by (simp add: client_view_def fun_eq_iff update_conv')

lemma client_view_removed:
  "client_view (removeSession tabId c) t = (if t = tabId then None else client_view c t)"
  by (auto simp: client_view_def removeSession_def delete_conv' Let_def)

lemma applyEvent_view:
  assumes "\<And>t. client_view c t = (if t \<in> pv_suppressed c then None else V t)"
    and "pv_serverEpoch c = Some (ev_serverEpoch e)" and "pv_serverRevision c < ev_revision e"
  shows "client_view (applyEvent e c) t =
    (if t \<in> pv_suppressed (applyEvent e c) then None
     else view_body (ev_tabId e) (ev_createdAt e) (ev_body e) V t)"
proof -
  have shown: "client_view ((show_snapshot b (ev_tabId e) sn c)\<lparr>pv_serverEpoch := x, pv_serverRevision := y\<rparr>) t
      = (if t \<in> pv_suppressed c then None else (V(ev_tabId e \<mapsto> sn_core sn)) t)" for b sn x y
    using assms(1) [of t] assms(1) [of "ev_tabId e"]
    by (auto simp: client_view_def show_snapshot_def update_conv')
  have supp: "pv_suppressed (show_snapshot b t sn c) = pv_suppressed c" for b t sn
    by (simp add: show_snapshot_def)
  show ?thesis
  proof (cases "ev_body e")
    case (Preview_Failed code d ti u)
    show ?thesis
    proof (cases "map_of (pv_sessions c) (ev_tabId e)")
      case None
      then have "client_view c (ev_tabId e) = None" by (simp add: client_view_def)
      with None Preview_Failed assms(1) [of t] assms(1) [of "ev_tabId e"] assms(2,3) show ?thesis
        by (auto simp: applyEvent_def client_view_def split: if_splits)
    next
      case (Some p)
      then have "ev_tabId e \<notin> pv_suppressed c" "V (ev_tabId e) = Some (sn_core p)"
        using assms(1) [of "ev_tabId e"] by (auto simp: client_view_def split: if_splits)
      with Some Preview_Failed assms(1) [of t] assms(2,3) show ?thesis
        by (auto simp: applyEvent_def client_view_def update_conv' sn_core_def)
    qed
  next
    case Preview_Closed
    have "client_view (applyEvent e c) t = (if t = ev_tabId e then None else client_view c t)"
      "pv_suppressed (applyEvent e c) = pv_suppressed c - {ev_tabId e}"
      using assms(2,3) Preview_Closed client_view_removed [of "ev_tabId e" c t]
      by (simp_all add: applyEvent_def Let_def client_view_def removeSession_def)
    with Preview_Closed assms(1) [of t] show ?thesis by auto
  qed (use assms(2,3) shown supp in \<open>simp_all add: applyEvent_def Let_def\<close>)
qed

lemma applyEvent_server:
  assumes "pv_serverEpoch c = Some (ev_serverEpoch e)" and "pv_serverRevision c < ev_revision e"
  shows "pv_serverEpoch (applyEvent e c) = Some (ev_serverEpoch e)"
    "pv_serverRevision (applyEvent e c) = ev_revision e"
  using assms by (simp_all add: applyEvent_def Let_def)

text \<open>Events of the log, new or seen before.\<close>

lemma event_follows:
  assumes "follows epoch w events c" and "i < length events"
    and "ev_revision (events ! i) = Suc i" and "ev_serverEpoch (events ! i) = epoch"
    and "\<forall>j. pv_serverRevision c \<le> j \<longrightarrow> j < i \<longrightarrow> ev_workspaceId (events ! j) \<noteq> w"
  shows "follows epoch w events (fst (receive_preview_event w (events ! i) c))"
proof (cases "ev_workspaceId (events ! i) = w \<and> pv_serverRevision c \<le> i")
  case False
  then have "fst (receive_preview_event w (events ! i) c) = c"
    using assms(1,3,4) by (auto simp: receive_preview_event_def applyEvent_def follows_def)
  with assms(1) show ?thesis by simp
next
  case True
  let ?e = "events ! i"
  have c: "pv_serverEpoch c = Some (ev_serverEpoch ?e)" "pv_serverRevision c < ev_revision ?e"
    using assms(1,3,4) True by (auto simp: follows_def)
  have eq: "fst (receive_preview_event w ?e c) = applyEvent ?e c"
    using c(1) True by (simp add: receive_preview_event_def)
  have "log_view w events i = log_view w events (pv_serverRevision c)"
    by (rule log_view_skip) (use True assms(2,5) in auto)
  then have "client_view c t = (if t \<in> pv_suppressed c then None else log_view w events i t)" for t
    using assms(1) by (simp add: follows_def)
  note view = applyEvent_view [OF this c]
  have "log_view w events (Suc i) = view_body (ev_tabId ?e) (ev_createdAt ?e) (ev_body ?e) (log_view w events i)"
    using assms(2) True by (simp add: log_view_Suc view_event_def)
  then show ?thesis
    unfolding eq follows_def applyEvent_server [OF c] using view assms(2,3,4) by simp
qed

text \<open>Lists, from any revision.\<close>

lemma reconcile_sessions_known:
  assumes "\<forall>sn\<in>set sns. \<forall>ex. known (sn_tabId sn) = Some ex \<longrightarrow> sn_updatedAt ex \<le> sn_updatedAt sn"
    and "distinct (map sn_tabId sns)"
  shows "map_of (fst (reconcile_sessions suppressed known sns ss urls)) t =
    (case map_of (map (\<lambda>sn. (sn_tabId sn, sn)) sns) t of
       Some sn \<Rightarrow> if t \<in> suppressed then map_of ss t else Some sn
     | None \<Rightarrow> map_of ss t)"
  using assms
proof (induction sns arbitrary: ss urls)
  case (Cons sn sns)
  have pick: "(case known (sn_tabId sn) of
      Some ex \<Rightarrow> if sn_updatedAt sn < sn_updatedAt ex then ex else sn | None \<Rightarrow> sn) = sn"
    using Cons.prems(1) by (auto split: option.split)
  have fresh: "map_of (map (\<lambda>sn. (sn_tabId sn, sn)) sns) (sn_tabId sn) = None"
    using Cons.prems(2) by (auto simp: map_of_eq_None_iff image_image)
  show ?case
    using Cons fresh by (auto simp: pick Let_def update_conv' split: option.split)
qed simp

lemma list_follows:
  assumes "pv_serverEpoch c = Some epoch \<longrightarrow> follows epoch w events c"
    and "n \<le> length events" and "pl_revision l = n" and "pl_serverEpoch l = epoch"
    and "list_view (pl_sessions l) = log_view w events n" and "distinct (map sn_tabId (pl_sessions l))"
    and "list_all event_ok events" and "sorted (map ev_createdAt events)"
  shows "follows epoch w events (reconcile_previews l c)"
proof (cases "pv_serverEpoch c = Some epoch \<and> n < pv_serverRevision c")
  case True
  then have "reconcile_previews l c = c" by (simp add: reconcile_previews_def assms(3,4) Let_def)
  with True assms(1) show ?thesis by simp
next
  case False
  let ?same = "pv_serverEpoch c = Some epoch"
  let ?supp = "if ?same then pv_suppressed c else {}"
  let ?known = "if ?same then map_of (pv_sessions c) else (\<lambda>_. None)"
  let ?out = "reconcile_sessions ?supp ?known (pl_sessions l) [] (pv_recentUrls c)"
  let ?c = "reconcile_previews l c"
  have c: "pv_sessions ?c = fst ?out" "pv_serverEpoch ?c = Some epoch" "pv_serverRevision ?c = n"
    "pv_suppressed ?c = {t \<in> ?supp. t \<in> sn_tabId ` set (pl_sessions l)}"
    using False by (auto simp: reconcile_previews_def assms(3,4) Let_def split: prod.split)
  have item: "map_of (map (\<lambda>sn. (sn_tabId sn, sn)) (pl_sessions l)) (sn_tabId sn) = Some sn"
    if "sn \<in> set (pl_sessions l)" for sn
    using that assms(6) by (auto intro!: map_of_is_SomeI simp: comp_def)
  have known: "\<forall>sn\<in>set (pl_sessions l). \<forall>ex. ?known (sn_tabId sn) = Some ex \<longrightarrow> sn_updatedAt ex \<le> sn_updatedAt sn"
  proof (intro ballI allI impI)
    fix sn ex
    assume sn: "sn \<in> set (pl_sessions l)" and ex: "?known (sn_tabId sn) = Some ex"
    then have same: "?same" and ex: "map_of (pv_sessions c) (sn_tabId sn) = Some ex" by (auto split: if_splits)
    have "client_view c (sn_tabId sn) = Some (sn_core ex)" using ex by (simp add: client_view_def)
    then have "log_view w events (pv_serverRevision c) (sn_tabId sn) = Some (sn_core ex)"
      using assms(1) same by (auto simp: follows_def split: if_splits)
    moreover have "log_view w events n (sn_tabId sn) = Some (sn_core sn)"
      unfolding assms(5) [symmetric] by (simp add: list_view_def item [OF sn])
    moreover have "pv_serverRevision c \<le> n" using False same by simp
    ultimately have "sn_updatedAt (sn_core ex) \<le> sn_updatedAt (sn_core sn)"
      using log_view_later [OF assms(7,8) _ assms(2)] by blast
    then show "sn_updatedAt ex \<le> sn_updatedAt sn" by (simp add: sn_core_def)
  qed
  have "client_view ?c t = (if t \<in> pv_suppressed ?c then None else log_view w events n t)" for t
  proof -
    have "client_view ?c t = (if t \<in> ?supp then None else list_view (pl_sessions l) t)"
      unfolding client_view_def c(1) reconcile_sessions_known [OF known assms(6)] list_view_def
      by (simp split: option.split)
    moreover have "list_view (pl_sessions l) t = None" if "t \<notin> sn_tabId ` set (pl_sessions l)"
      using that by (auto simp: list_view_def map_of_eq_None_iff image_image)
    ultimately show ?thesis unfolding c(4) assms(5) [symmetric] by auto
  qed
  with c(2,3) assms(2) show ?thesis by (simp add: follows_def)
qed

section \<open>Daemon and renderer together\<close>

text \<open>
  The daemon mutates its registry; the renderer takes an event of the log, in order for its
  workspace or once more, an event of another epoch, a list answered at any earlier moment, or
  does something of its own.
\<close>

inductive follow_step ::
    "url_parser \<Rightarrow> string \<Rightarrow> string \<Rightarrow> preview_manager \<times> preview_state \<Rightarrow> preview_manager \<times> preview_state \<Rightarrow> bool"
  for parse_url epoch w where
  mutated: "manager_step parse_url epoch m m' \<Longrightarrow> follow_step parse_url epoch w (m, c) (m', c)"
| delivered: "i < length (pm_events m) \<Longrightarrow>
    \<forall>j. pv_serverRevision c \<le> j \<longrightarrow> j < i \<longrightarrow> ev_workspaceId (pm_events m ! j) \<noteq> w \<Longrightarrow>
    follow_step parse_url epoch w (m, c) (m, fst (receive_preview_event w (pm_events m ! i) c))"
| foreign: "ev_serverEpoch e \<noteq> epoch \<Longrightarrow>
    follow_step parse_url epoch w (m, c) (m, fst (receive_preview_event w e c))"
| listed: "(manager_step parse_url epoch)\<^sup>*\<^sup>* new_manager m0 \<Longrightarrow> (manager_step parse_url epoch)\<^sup>*\<^sup>* m0 m \<Longrightarrow>
    follow_step parse_url epoch w (m, c) (m, reconcile_previews (list_previews epoch w m0) c)"
| desktop: "follow_step parse_url epoch w (m, c) (m, applyDesktopState t d c)"
| controlled: "follow_step parse_url epoch w (m, c) (m, setController t k c)"
| activated: "follow_step parse_url epoch w (m, c) (m, setActivePreview t c)"
| closing: "follow_step parse_url epoch w (m, c) (m, beginClose t c)"

lemma log_event:
  assumes "daemon_ok epoch m" and "i < length (pm_events m)"
  shows "ev_revision (pm_events m ! i) = Suc i" "ev_serverEpoch (pm_events m ! i) = epoch"
proof -
  have "map ev_revision (pm_events m) ! i = [1..<Suc (pm_revision m)] ! i"
    using assms(1) by (simp add: daemon_ok_def manager_ok_def del: upt_Suc)
  then show "ev_revision (pm_events m ! i) = Suc i"
    using assms(2) daemon_ok_revision [OF assms(1)] by (simp del: upt_Suc)
  show "ev_serverEpoch (pm_events m ! i) = epoch"
    using assms by (simp add: daemon_ok_def manager_ok_def list_all_length)
qed

lemma beginClose_follows: "follows epoch w events c \<Longrightarrow> follows epoch w events (beginClose t c)"
proof -
  assume follows: "follows epoch w events c"
  have "client_view (beginClose t c) x = (if x = t then None else client_view c x)" for x
    using client_view_removed [of t c x] by (simp add: client_view_def beginClose_def)
  moreover have "pv_serverEpoch (beginClose t c) = pv_serverEpoch c"
    "pv_serverRevision (beginClose t c) = pv_serverRevision c"
    "pv_suppressed (beginClose t c) = insert t (pv_suppressed c)"
    by (simp_all add: beginClose_def removeSession_def Let_def)
  ultimately show ?thesis using follows by (auto simp: follows_def)
qed

lemma old_list_follows:
  assumes "(manager_step parse_url epoch)\<^sup>*\<^sup>* new_manager m0" and "(manager_step parse_url epoch)\<^sup>*\<^sup>* m0 m"
    and "sorted (map ev_createdAt (pm_events m))"
    and "pv_serverEpoch c = Some epoch \<longrightarrow> follows epoch w (pm_events m) c"
  shows "follows epoch w (pm_events m) (reconcile_previews (list_previews epoch w m0) c)"
proof (rule list_follows [OF assms(4)])
  have m0: "daemon_ok epoch m0" by (rule manager_run_ok [OF assms(1) new_daemon_ok])
  have m: "daemon_ok epoch m" by (rule manager_run_ok [OF assms(2) m0])
  obtain later where events: "pm_events m = pm_events m0 @ later" using manager_run_log [OF assms(2)] by blast
  show "length (pm_events m0) \<le> length (pm_events m)" by (simp add: events)
  show "pl_revision (list_previews epoch w m0) = length (pm_events m0)"
    by (simp add: list_previews_def daemon_ok_revision [OF m0])
  show "list_view (pl_sessions (list_previews epoch w m0)) = log_view w (pm_events m) (length (pm_events m0))"
    using m0 by (simp add: list_previews_view(1) [OF m0] events log_view_prefix) (simp add: daemon_ok_def)
  show "distinct (map sn_tabId (pl_sessions (list_previews epoch w m0)))" by (rule list_previews_view(2) [OF m0])
  show "list_all event_ok (pm_events m)" using m by (simp add: daemon_ok_def)
qed (simp_all add: list_previews_def assms(3))

lemma follow_step_follows:
  assumes "follow_step parse_url epoch w x y" and "daemon_ok epoch (fst x)"
    and "follows epoch w (pm_events (fst x)) (snd x)" and "sorted (map ev_createdAt (pm_events (fst y)))"
  shows "daemon_ok epoch (fst y) \<and> follows epoch w (pm_events (fst y)) (snd y)"
  using assms
proof (induction rule: follow_step.induct)
  case (mutated m m' c)
  obtain later where "pm_events m' = pm_events m @ later" using manager_step_log [OF mutated(1)] by blast
  with mutated manager_step_ok [OF mutated(1)] show ?case by (auto simp: follows_def log_view_prefix)
next
  case (delivered i m c)
  then show ?case using event_follows [of epoch w "pm_events m" c i] log_event [of epoch m i] by simp
next
  case (foreign e m c)
  then have "fst (receive_preview_event w e c) = c"
    by (auto simp: receive_preview_event_def applyEvent_def follows_def)
  with foreign show ?case by simp
next
  case (listed m0 m c)
  then show ?case using old_list_follows [OF listed(1,2)] by simp
next
  case (closing m c t)
  then show ?case by (simp add: beginClose_follows)
qed (auto elim!: follows_same simp: applyDesktopState_def setController_def setActivePreview_def split: option.split)

lemma follow_step_log:
  "follow_step parse_url epoch w x y \<Longrightarrow> \<exists>later. pm_events (fst y) = pm_events (fst x) @ later"
  by (induction rule: follow_step.induct) (auto dest: manager_step_log)

lemma follow_run_log:
  "(follow_step parse_url epoch w)\<^sup>*\<^sup>* x y \<Longrightarrow> \<exists>later. pm_events (fst y) = pm_events (fst x) @ later"
  by (induction rule: rtranclp_induct) (auto dest!: follow_step_log)

lemma follow_run_follows:
  assumes "(follow_step parse_url epoch w)\<^sup>*\<^sup>* x y" and "daemon_ok epoch (fst x)"
    and "follows epoch w (pm_events (fst x)) (snd x)" and "sorted (map ev_createdAt (pm_events (fst y)))"
  shows "daemon_ok epoch (fst y) \<and> follows epoch w (pm_events (fst y)) (snd y)"
  using assms(1,4)
proof (induction rule: rtranclp_induct)
  case base
  then show ?case using assms(2,3) by simp
next
  case (step y z)
  obtain later where "pm_events (fst z) = pm_events (fst y) @ later" using follow_step_log [OF step(2)] by blast
  then have "sorted (map ev_createdAt (pm_events (fst y)))" using step.prems by (simp add: sorted_append)
  from step.IH [OF this] follow_step_follows [OF step(2) _ _ step.prems] show ?case by blast
qed

text \<open>A renderer that took every event of its workspace shows the daemon's sessions.\<close>

definition caught_up :: "string \<Rightarrow> preview_event list \<Rightarrow> preview_state \<Rightarrow> bool" where
  "caught_up w events c \<longleftrightarrow>
     (\<forall>e\<in>set (drop (pv_serverRevision c) events). ev_workspaceId e \<noteq> w)"

lemma caught_up_view:
  assumes "daemon_ok epoch m" and "follows epoch w (pm_events m) c" and "caught_up w (pm_events m) c"
  shows "client_view c t = (if t \<in> pv_suppressed c then None else daemon_view m w t)"
proof -
  have "log_view w (pm_events m) (length (pm_events m)) = log_view w (pm_events m) (pv_serverRevision c)"
  proof (rule log_view_skip)
    show "pv_serverRevision c \<le> length (pm_events m)" using assms(2) by (simp add: follows_def)
    show "\<forall>j. pv_serverRevision c \<le> j \<longrightarrow> j < length (pm_events m) \<longrightarrow> ev_workspaceId (pm_events m ! j) \<noteq> w"
    proof (intro allI impI)
      fix j
      assume j: "pv_serverRevision c \<le> j" "j < length (pm_events m)"
      then have "pm_events m ! j = drop (pv_serverRevision c) (pm_events m) ! (j - pv_serverRevision c)" by simp
      also have "\<dots> \<in> set (drop (pv_serverRevision c) (pm_events m))" by (rule nth_mem) (use j in simp)
      finally show "ev_workspaceId (pm_events m ! j) \<noteq> w" using assms(3) by (simp add: caught_up_def)
    qed
  qed simp
  with assms(1,2) show ?thesis by (simp add: follows_def daemon_ok_def)
qed

end
