(* ===== verification/Renderer_Samples.thy ===== *)
theory Renderer_Samples
  imports Terminal_Samples Attach_Watch Pane_Input Database_Retry Preview_Facts
begin

text \<open>
  Concrete runs of the renderer's side and of the database handle: a pane that resumes a
  terminal, an input lane, a database that is busy once, and a preview that fails to load. The
  last sections show what the code does not carry: the epoch of a pane that was cut off before
  \<open>Meta\<close>, the sessions of a list that arrives after a newer event, and the history buttons of a
  load that failed.
\<close>

section \<open>A pane\<close>

text \<open>A screen that is the list of the code units drawn on it.\<close>

definition paper :: "16 word list emulator" where
  "paper scr unit = scr @ [unit]"

lemma paper_draws [simp]: "foldl paper scr d = scr @ d"
  by (induction d arbitrary: scr) (simp_all add: paper_def)

lemma paper_emulates [simp]: "emulate paper [] d = d"
  by (simp add: emulate_def)

definition resume_options :: attach_options where
  "resume_options = \<lparr>ao_cursor = Some 3, ao_epoch = Some ''e'', ao_leaseId = Some ''b''\<rparr>"

definition resumed :: attach_state where
  "resumed = snd (attach small_config willing ''n'' ''x'' [box] resume_options (output_parsed 3 (after_output 3)))"

definition resumed_pane :: attach_loop where
  "resumed_pane = foldl (handle_frame 5000 True) (createTerminalAttachLoop True (Some 3))
     (news_for ''b'' (output_parsed 3 (after_output 3)) resumed)"

definition resumed_later :: attach_state where
  "resumed_later = snd (the (pty_output small_config willing 1 [box] resumed))"

lemma pane_run: "(attach_step small_config willing)\<^sup>*\<^sup>* ([], attach_init) ([[box], [box], [box]], output_parsed 3 (after_output 3))"
proof -
  have "(attach_step small_config willing)\<^sup>*\<^sup>* ([], attach_init) ([], watched)"
    by (rule r_into_rtranclp) (rule watched_step)
  also have "(attach_step small_config willing)\<^sup>*\<^sup>* ([], watched) ([[box], [box], [box]], after_output 3)"
    by (rule r_into_rtranclp) (rule box_step)
  also have "(attach_step small_config willing)\<^sup>*\<^sup>* ([[box], [box], [box]], after_output 3)
      ([[box], [box], [box]], output_parsed 3 (after_output 3))"
    by (rule r_into_rtranclp) (rule attach_step.parsed)
  finally show ?thesis .
qed

lemma resumed_facts:
  "attach small_config willing ''n'' ''x'' [box] resume_options (output_parsed 3 (after_output 3)) = (Inr ''b'', resumed)"
  "ta_status (output_parsed 3 (after_output 3)) = Some ''running''"
  "ta_parsed (output_parsed 3 (after_output 3)) = Some 3"
  "subscribed ''b'' resumed" "subscribed ''b'' resumed_later"
  "pty_output small_config willing 1 [box] resumed = Some (None, resumed_later)"
  "wire_chunks small_config [box] = [[box]]"
  "retains (journal_of 9 [[box], [box], [box]]) 3"
  "log_bytes (take 1 [[box], [box], [box]]) = 3"
  by code_simp+

definition later_pane :: attach_loop where
  "later_pane = foldl (handle_frame 5000 True) resumed_pane (news_for ''b'' resumed resumed_later)"

lemma resumed_watch:
  "(watch_step small_config willing 5000 ''b'')\<^sup>*\<^sup>* (([[box], [box], [box]], resumed), resumed_pane)
     (([[box], [box], [box], [box]], resumed_later), later_pane)"
proof (rule r_into_rtranclp)
  have step: "attach_step small_config willing ([[box], [box], [box]], resumed) ([[box], [box], [box], [box]], resumed_later)"
    using attach_step.emitted_output [OF resumed_facts(6), of "[[box], [box], [box]]"] by (simp add: resumed_facts(7))
  show "watch_step small_config willing 5000 ''b'' (([[box], [box], [box]], resumed), resumed_pane)
      (([[box], [box], [box], [box]], resumed_later), later_pane)"
    using watch_step.watched [OF step, of "''b''" 5000 resumed_pane] resumed_facts(4,5)
    by (simp add: later_pane_def)
qed

section \<open>A cursor without its epoch\<close>

text \<open>
  A pane takes the snapshot of an attach and is cut off before \<open>Meta\<close>: it knows its cursor but
  not the epoch. When the terminal restarts and prints as much again, its next attach is not
  told to reset: it keeps the old screen and misses the new output.
\<close>

definition cut_off :: attach_loop where
  "cut_off = handle_frame 5000 True (createTerminalAttachLoop False None) (Snapshot 3 [box])"

definition cut_off_refs :: pane_refs where
  "cut_off_refs = refs_after 1 ''t'' \<lparr>pr_drawn = None, pr_epoch = None\<rparr> cut_off"

definition reborn :: attach_state where
  "reborn = snd (the (pty_output small_config willing 5 [0x41, 0x42, 0x43]
     (restart_transport small_config willing ''e2'' (after_output 3))))"

definition stale_options :: attach_options where
  "stale_options = \<lparr>ao_cursor = resumableCursor (pr_drawn cut_off_refs) 1 ''t'',
     ao_epoch = declarableEpoch (pr_epoch cut_off_refs) ''t'', ao_leaseId = Some ''b''\<rparr>"

lemma stale_generation_resumes:
  "ao_cursor stale_options = Some 3 \<and> ao_epoch stale_options = None \<and>
   news_for ''b'' reborn (snd (attach small_config willing ''n'' ''x'' [] stale_options reborn))
     = [Meta ''e2'' True, ReplayComplete]"
  by code_simp

section \<open>Previews\<close>

definition any_url :: url_parser where
  "any_url u = Some (''http:'', u)"

definition one_tab :: preview_manager where
  "one_tab = snd (open_preview any_url ''e'' 1 ''w'' None None new_manager)"

definition failed_tab :: preview_manager where
  "failed_tab = snd (reportStatus_preview ''e'' 2 ''w'' ''tab_1'' True False
     (Nav_Failed 7 ''d'' ''t'' ''u'') one_tab)"

definition listing_client :: preview_state where
  "listing_client = reconcile_previews (list_previews ''e'' ''w'' one_tab) empty_preview"

definition informed_client :: preview_state where
  "informed_client = fst (receive_preview_event ''w'' (pm_events failed_tab ! 1) listing_client)"

lemma preview_samples:
  "(manager_step any_url ''e'')\<^sup>*\<^sup>* new_manager one_tab"
  "manager_step any_url ''e'' one_tab failed_tab"
  unfolding one_tab_def failed_tab_def
  by (rule r_into_rtranclp, rule manager_step.opened, rule manager_step.reported)

lemma informed_facts:
  "pv_serverEpoch empty_preview \<noteq> Some ''e''" "sorted (map ev_createdAt (pm_events failed_tab))"
  "caught_up ''w'' (pm_events failed_tab) informed_client"
  "length (pm_events failed_tab) = 2" "pv_serverRevision listing_client = 1"
  "pv_suppressed informed_client = {}"
  by code_simp+

lemma informed_run:
  "(follow_step any_url ''e'' ''w'')\<^sup>*\<^sup>* (one_tab, listing_client) (failed_tab, informed_client)"
proof (rule rtranclp_trans)
  show "(follow_step any_url ''e'' ''w'')\<^sup>*\<^sup>* (one_tab, listing_client) (failed_tab, listing_client)"
    by (rule r_into_rtranclp) (rule follow_step.mutated [OF preview_samples(2)])
  show "(follow_step any_url ''e'' ''w'')\<^sup>*\<^sup>* (failed_tab, listing_client) (failed_tab, informed_client)"
    unfolding informed_client_def
    by (rule r_into_rtranclp, rule follow_step.delivered) (simp_all add: informed_facts)
qed

text \<open>The daemon can go back after the failed load; the renderer still believes it cannot.\<close>

lemma failed_load_loses_history_buttons:
  "map_option (\<lambda>s. sn_canGoBack (pse_snapshot s)) (map_of (pm_sessions failed_tab) (''w'', ''tab_1'')) = Some True \<and>
   map_option sn_canGoBack (map_of (pv_sessions informed_client) ''tab_1'') = Some False"
  by code_simp

text \<open>
  Two tabs are open. The event of the second reaches a fresh renderer before the list that was
  answered earlier: the list is discarded as old and the first tab is not shown.
\<close>

definition two_tabs :: preview_manager where
  "two_tabs = snd (open_preview any_url ''e'' 2 ''w'' None None one_tab)"

lemma early_event_hides_tab:
  "map fst (pv_sessions (reconcile_previews (list_previews ''e'' ''w'' one_tab)
      (fst (receive_preview_event ''w'' (pm_events two_tabs ! 1) empty_preview)))) = [''tab_2''] \<and>
   map fst (pm_sessions two_tabs) = [(''w'', ''tab_1''), (''w'', ''tab_2'')]"
  by code_simp

end
