(* ===== verification/Spec2Isabelle.thy ===== *)
theory Spec2Isabelle
  imports More_Samples Terminal_Samples Panel_Samples Permission_Samples Laborer_Samples Renderer_Samples
begin

text \<open>
  Laborer: a desktop and web application that runs coding agents in terminals, arranged in
  windows of tabs and panes, with the orchestration scripts around it.

  \<^bold>\<open>The parts and how they interact.\<close> A window holds window tabs; a window tab shows workspaces in a
  tree of tiles arranged in columns; a workspace shows panel tabs, and a panel tab a split tree of
  panes; a pane shows a terminal. The layout is persisted, decoded and repaired when the
  application starts; panes whose terminal is gone get a new one from the respawn loop, and the
  reconciliation writes the new ids into the layout. The terminal process keeps, per terminal, a
  PTY with flow control, a coalescer of its output, a replay journal and the clients attached to
  it, and an engine that says what the agent in it is doing. The sidebar orders workspaces as a
  forest. Tasks, projects, labels, settings and review comments live in one database that every
  process writes and every client follows. The bot asks for permissions in chat. The desktop shell
  updates the application. The sandcastle scripts decide which issue an
  agent works on next, and keep their progress in markers of pull request bodies.

  \<^bold>\<open>Layout\<close> (\<open>src/apps/web/src/panels\<close>, data in \<open>src/packages/shared/src/types.ts\<close>). \<open>Layout_Types\<close> has
  the data, \<open>Id_Gen\<close> the id generator (\<open>id-utils.ts\<close>) with its counter threaded as state.
  \<open>Panel_Tree\<close> models \<open>panel-tree-utils.ts\<close>; \<open>Panel_Edit\<close> and \<open>Panel_Nav\<close> show what split, append,
  close, navigation and resizing do. \<open>Tab_Strip\<close> is the contract of a tab strip, a locale that
  \<open>Panel_Tabs\<close> (\<open>panel-tab-utils.ts\<close>) and \<open>Window_Tabs\<close> interpret. \<open>Workspace_Tiles\<close> and
  \<open>Tile_Columns\<close> model \<open>workspace-tile-utils.ts\<close>; \<open>Tile_Edit\<close>, \<open>Column_Facts\<close> and \<open>Column_Moves\<close> show
  that edits, drops and the clean-up lose no tile. \<open>Window_Layout\<close>, \<open>Window_Queries\<close> and
  \<open>Window_Repair\<close> model \<open>window-layout-utils.ts\<close>; \<open>Workspace_Moves\<close> (with the locale
  \<open>workspace_tabs\<close>), \<open>Close_Facts\<close> and \<open>Repair_Facts\<close> hold their properties. \<open>Minimize_Layout\<close> models
  \<open>workspace-minimize-layout.ts\<close> and \<open>Respawn\<close> models \<open>reconcile-spawn.ts\<close>.

  \<^bold>\<open>Right panel\<close> (\<open>src/apps/web/src/right-panel-store.ts\<close>). \<open>Right_Panel\<close> has the store with its
  surfaces, actions and selectors, \<open>Right_Panel_Facts\<close> its invariant and the reconciliation with the
  live browser tabs (a strip of surfaces interprets \<open>closable_strip\<close>, the first half of the contract
  of a tab strip), \<open>Right_Panel_Migration\<close> the migration of what was persisted, over JSON values.
  \<open>Panel_Samples\<close> has its concrete inputs.

  \<^bold>\<open>Permission broker\<close> (\<open>src/apps/bot/src/acp-runtime\<close>). \<open>Permission_Authority\<close> models the durable
  records of \<open>acp-authority.ts\<close> with their capacity, compaction and transactions,
  \<open>Permission_Broker\<close> the sections of \<open>acp-permission-broker.ts\<close> that run under its semaphore.
  \<open>Permission_Facts\<close> is the transition system of the broker with its invariant,
  \<open>Permission_Records\<close> has the laws of single records (locale \<open>record_law\<close>) and the capacity of the
  store, \<open>Permission_Samples\<close> a run and a full store.


  \<^bold>\<open>Laborer database\<close> (\<open>packages/server/src/services/native-laborer-database.ts\<close>, \<open>review-comments.ts\<close>).
  The server, the desktop shell and the MCP tools write one SQLite file; every write appends to one of
  two ledgers, and clients follow the ledgers. \<open>Laborer_Rows\<close> has the rows, \<open>Laborer_Sql\<close> what the
  statements do to a table, \<open>Laborer_Tasks\<close> and \<open>Laborer_State\<close> the operations. \<open>Laborer_Facts\<close> and
  \<open>Laborer_Logged\<close> show that every operation records what it changes, \<open>Laborer_Sync\<close> (locale
  \<open>row_source\<close>, interpreted for the five tables) that the update after a cursor makes an exact copy of
  an exact copy. \<open>Shared_State\<close> models the subscription of \<open>shared-state-reader.ts\<close> and the collections
  of \<open>apps/web/src/db/shared-state.ts\<close> as one transition system with other writers, \<open>Shared_Facts\<close> its
  invariant. \<open>Laborer_Invariant\<close> has the well-formedness that every operation keeps,
  \<open>Laborer_Behaviour\<close> what single operations do, \<open>Laborer_Samples\<close> a small database.

  \<^bold>\<open>Terminal pane\<close> (\<open>apps/web/src/lib/terminal-attach-loop.ts\<close>, \<open>hooks/use-terminal-rpc.ts\<close>).
  \<open>Attach_Loop\<close> is the pane's side of the attach protocol, with its invariant and the proof that the
  next attach resumes where the loop stands. \<open>Attach_View\<close> and \<open>Attach_Watch\<close> put it together with the
  daemon's side: which frames every step sends to a lease (\<open>delivers\<close>), and that they keep the pane in
  step with the output for any emulator. \<open>Pane_Input\<close> is the input lane.

  \<^bold>\<open>Database handle.\<close> \<open>Database_Retry\<close> models the handle below the queries of
  \<open>native-laborer-database.ts\<close>: the bounded retry (a \<open>partial_function\<close>, shown to return for every
  operation), the write transaction over it, the migration ledger and opening.

  \<^bold>\<open>Browser previews\<close> (\<open>packages/server/src/services/preview-manager.ts\<close>,
  \<open>apps/web/src/preview-state-store.ts\<close>). \<open>Preview_Manager\<close> is the daemon's registry with its events,
  \<open>Preview_Store\<close> the renderer's store with its invariant, \<open>Preview_Facts\<close> their composition: both are
  compared with the view of the event log. \<open>Renderer_Samples\<close> has concrete runs of all of these and
  three runs that lose information.
  \<^bold>\<open>Terminals\<close> (\<open>src/packages/terminal/src\<close>). \<open>Utf16\<close> has JavaScript strings as code units and
  their UTF-8 length. \<open>Terminal_Transport\<close> models the chunking and the cursor journal of
  \<open>services/terminal-transport.ts\<close>; \<open>Journal_Facts\<close> shows that the journal is a function of the
  history of output: its longest suffix of chunks that fits. \<open>Credit_Lane\<close> is the contract of a
  flow-control lane and \<open>Flow_Control\<close> models the one of \<open>services/pty-direct.ts\<close>. \<open>Coalescer\<close>
  models \<open>lib/coalescing-data-handler.ts\<close>. \<open>Terminal_Attach\<close> models the attach protocol of
  \<open>services/terminal-manager.ts\<close> for one terminal (its maps keyed by terminal id are fields of one
  record); \<open>Attach_Facts\<close> has its invariant over the steps of a terminal, \<open>Attach_Delivery\<close> what
  clients receive and how acknowledgements release the PTY. \<open>Status_Engine\<close> models
  \<open>services/terminal-status-engine.ts\<close>.

  \<^bold>\<open>Elsewhere.\<close> \<open>Workspace_Tree\<close> models \<open>src/packages/shared/src/workspace-tree.ts\<close>; \<open>Update_Machine\<close>
  the updater of \<open>src/apps/desktop/src\<close> (\<open>update-machine.ts\<close>, \<open>update-state.ts\<close>, \<open>runtime-arch.ts\<close>,
  \<open>auto-updater.ts\<close>); \<open>Pr_Markers\<close> and \<open>Issue_Graph\<close> the marker and scheduler files of
  \<open>src/.sandcastle\<close>, with \<open>Issue_Graph_Facts\<close> on what a schedule offers. \<open>Samples\<close>, \<open>More_Samples\<close>
  and \<open>Terminal_Samples\<close> hold the concrete inputs on which the properties below are instantiated.

  \<^bold>\<open>Conventions.\<close> An object is a record, a union a datatype, an optional field an option; a thrown
  error is \<open>Inl\<close>. A number is a rational where the code divides (percentages, milliseconds of the
  coalescer), a natural number or integer otherwise; below \<open>2\<^sup>5\<^sup>3\<close> the two agree, and rounding of
  doubles is not represented. Random suffixes, fresh ids, the clock and the results of promises
  are arguments, so a handler that awaits is split into what runs before and after. Where the code
  compares objects by identity, a list index or structural equality is used and the theory says
  which. Effect Schema decoders, the screen snapshot of the headless terminal, GitHub and the spawn
  endpoint are parameters. A client that refuses an event (\<open>subscriber(event)\<close> is false) is the
  parameter \<open>accepts\<close>.

  \<^bold>\<open>Termination.\<close> Loops that are not structural are functions with a measure, or partial functions
  shown to return: eviction from the journal ends since the sum of the entry sizes is the byte count,
  the walks over parents of workspaces and issues end since a visited node is not visited again,
  the retries end after \<open>maxRetries\<close> further attempts. No fuel is used.

  \<^bold>\<open>Not modelled.\<close> React components and hooks, the Effect wiring of services, git and processes, RPC
  declarations, the chat and agent runtimes of the bot around its permission broker, and the row
  decoders of the database (its rows are typed); of the modelled files the parts listed in the text
  of their theory.
\<close>







text \<open>C4. With options the constructor accepts, a write transaction ends, whatever the operation does and
  however often \<open>BEGIN\<close> or \<open>COMMIT\<close> is busy or fails: it sleeps less often than it has attempts, at
  most nine times and at most a second each time. It returns the operation's result with the
  operation's effect committed once and the watchers notified, or an error with the database as it
  was and nobody notified.\<close>

theorem write_transaction_ends:
  assumes "retryOptions attempts baseDelayMs = Inr opts"
  shows "\<exists>out. writeTransaction opts busy random faults operation s = Some out \<and>
    length (wo_sleeps out) < ro_attempts opts \<and> length (wo_sleeps out) \<le> 9 \<and>
    list_all (\<lambda>d. 0 \<le> d \<and> d \<le> 1000) (wo_sleeps out) \<and>
    (case wo_result out of
       Inr a \<Rightarrow> operation s = Inr (a, wo_state out) \<and> wo_notified out
     | Inl _ \<Rightarrow> wo_state out = s \<and> \<not> wo_notified out)"
proof -
  note opts = retryOptions_ok [OF assms]
  obtain out where "writeTransaction opts busy random faults operation s = Some out"
    "length (wo_sleeps out) < ro_attempts opts" "list_all (\<lambda>d. 0 \<le> d \<and> d \<le> 1000) (wo_sleeps out)"
    "transaction_result operation s (wo_result out) (wo_state out)" "wo_notified out = (\<not> isl (wo_result out))"
    using writeTransaction_ends [of opts busy random faults operation s] opts by auto
  with opts show ?thesis by (intro exI [of _ out]) (auto simp: transaction_result_def split: sum.split)
qed

theorem write_transaction_ends_witness:
  "\<exists>out. writeTransaction \<lparr>ro_attempts = 2, ro_baseDelayMs = 10\<rparr> (\<lambda>_. True) (\<lambda>_. None)
      (\<lambda>n. if n = 1 then Begin_Fails () else No_Fault) (\<lambda>n. Inr ((), n + 1)) (3 :: nat) = Some out \<and>
    length (wo_sleeps out) < 2"
proof -
  have "retryOptions (Some (Some 2)) None = Inr \<lparr>ro_attempts = 2, ro_baseDelayMs = 10\<rparr>"
    by (simp add: retryOptions_def)
  from write_transaction_ends [OF this, of "\<lambda>_. True" "\<lambda>_. None" "\<lambda>n. if n = 1 then Begin_Fails () else No_Fault"
      "\<lambda>n. Inr ((), n + 1)" "3 :: nat"]
  show ?thesis by auto
qed



text \<open>C6. However requests, messages, timeouts, closed turns, failing transactions and interactions
  interleave: a request answered with an option was answered by an interaction that carries its
  capability and comes from the authorised user, in the workspace, channel, thread and message where
  the question was posted, and the option is the one of the button that was pressed.\<close>

theorem selected_only_by_authorized_user:
  assumes "broker_reachable dg stored (h, s)" and "pb_decisions s ref = Some (SelectedOutcome opt)"
  shows "\<exists>p i. pb_heap s ref = Some p \<and> i \<in> set h \<and> in_capability i = lp_capability p \<and>
    pa_authorizedSlackUserId (lp_authority p) = Some (in_slackUserId i) \<and>
    pa_workspaceId (lp_authority p) = in_workspaceId i \<and> pa_channelId (lp_authority p) = in_channelId i \<and>
    pa_rootTs (lp_authority p) = in_rootTs i \<and> lp_messageTs p = Some (in_messageTs i) \<and>
    (in_actionId i = ACP_PERMISSION_ALLOW_ACTION_ID \<and> opt = lp_allowOptionId p \<or>
     in_actionId i = ACP_PERMISSION_REJECT_ACTION_ID \<and> opt = lp_rejectOptionId p)"
proof -
  have "broker_inv False h s" using broker_inv_reachable [OF assms(1), of False] by simp
  from inv_decision [OF this assms(2)] obtain p i d where p: "pb_heap s ref = Some p" and i: "i \<in> set h"
    and fit: "fits i p d" "de_optionId d = opt" by (auto simp: answered_def)
  then show ?thesis
    by (intro exI [of _ p] exI [of _ i])
      (auto simp: fits_def interactionMatchesPermission_def decisionForInteraction_def split: if_splits)
qed

theorem selected_only_by_authorized_user_witness:
  "\<exists>p i. pb_heap granted 0 = Some p \<and> i \<in> set [click] \<and>
    pa_authorizedSlackUserId (lp_authority p) = Some (in_slackUserId i)"
  using selected_only_by_authorized_user [OF granted_reachable granted_decision] by blast





text \<open>C9. A client that attaches with a cursor of the current epoch which the journal retains, and which
  takes every event, is sent only deltas, whose data is exactly the output after its cursor,
  then \<open>Meta\<close> and \<open>ReplayComplete\<close>; it is subscribed under its lease.\<close>

theorem attach_resumes_exactly:
  assumes "ta_status s = Some status" and "ta_journal s = Some (journal_of m hist)"
    and "ta_epoch s = Some epoch" and "ao_leaseId opts = Some sid"
    and "sid \<notin> set (case ta_subscribers s of Some subs \<Rightarrow> subs | None \<Rightarrow> [])"
    and "ao_epoch opts = None \<or> ao_epoch opts = Some epoch"
    and "ao_cursor opts = Some (log_bytes (take k hist))" and "k \<le> length hist"
    and "retains (journal_of m hist) (log_bytes (take k hist))"
  shows "\<exists>deltas s'. attach cfg willing freshEpoch freshId presentation opts s = (Inr sid, s') \<and>
    ta_sent s' = ta_sent s @ map (Pair sid) (deltas @ [Meta epoch (status = ''running''), ReplayComplete]) \<and>
    list_all (\<lambda>e. \<exists>n d. e = Delta n d) deltas \<and>
    concat (map event_data deltas) = concat (drop k hist)"
proof (intro exI conjI)
  let ?deltas = "deltasAfter (journal_of m hist) (log_bytes (take k hist))"
  show "list_all (\<lambda>e. \<exists>n d. e = Delta n d) ?deltas"
    using deltasAfter_Delta by (fastforce simp: list_all_iff)
  show "concat (map event_data ?deltas) = concat (drop k hist)"
    by (rule deltasAfter_data [OF refl assms(8,9)])
  let ?s = "register_subscriber sid (j_cursor (journal_of m hist)) s"
  let ?s' = "?s\<lparr>ta_sent := ta_sent s @ map (Pair sid)
    (?deltas @ [Meta epoch (status = ''running''), ReplayComplete])\<rparr>"
  have "check_cursor cfg willing sid (journal_of m hist) epoch opts ?s
      = (True, Some (log_bytes (take k hist)), ?s)"
    using assms(6,7,9) by (auto simp: check_cursor_def)
  then show "attach cfg willing freshEpoch freshId presentation opts s = (Inr sid, ?s')"
    by (simp add: attach_known [OF assms(1-5)] serve_client_def replay_from_willing)
qed simp

theorem attach_resumes_exactly_witness:
  "\<exists>deltas s'. attach small_config willing ''n'' ''x'' []
      \<lparr>ao_cursor = Some 3, ao_epoch = Some ''e'', ao_leaseId = Some ''b''\<rparr> (after_output 4) = (Inr ''b'', s') \<and>
    ta_sent s' = ta_sent (after_output 4) @ map (Pair ''b'') (deltas @ [Meta ''e'' True, ReplayComplete]) \<and>
    list_all (\<lambda>e. \<exists>n d. e = Delta n d) deltas \<and> concat (map event_data deltas) = [box, box, box]"
proof -
  let ?hist = "[[box], [box], [box], [box]]"
  have "ta_status (after_output 4) = Some ''running''" "ta_epoch (after_output 4) = Some ''e''"
    "ta_journal (after_output 4) = Some (journal_of 9 ?hist)"
    "''b'' \<notin> set (case ta_subscribers (after_output 4) of Some subs \<Rightarrow> subs | None \<Rightarrow> [])"
    "log_bytes (take 1 ?hist) = 3" "retains (journal_of 9 ?hist) 3"
    by code_simp+
  with attach_resumes_exactly [of "after_output 4" "''running''" 9 ?hist "''e''"
      "\<lparr>ao_cursor = Some 3, ao_epoch = Some ''e'', ao_leaseId = Some ''b''\<rparr>" "''b''" 1 small_config
      "''n''" "''x''" "[]"]
  show ?thesis by simp
qed

text \<open>C10. In every state a terminal reaches, whatever its clients accept: the subscribers are exactly the
  holders of leases and as many as the PTY host's consumers, the acknowledged cursor is the
  smallest lease, every lease stands at a chunk boundary of the output, the journal is within
  its bound, and the PTY is paused exactly when its flow-control state is, which an unwatched
  terminal's never is.\<close>

theorem attach_protocol_invariant:
  assumes "config_ok cfg" and "(attach_step cfg accepts)\<^sup>*\<^sup>* ([], attach_init) (hist, s)"
  shows "ta_subscribers s = nonempty (map fst (leases_of s)) \<and>
    ta_leases s = nonempty (leases_of s) \<and>
    distinct (map fst (leases_of s)) \<and>
    flow_consumers (ta_flow s) = length (leases_of s) \<and>
    (leases_of s = [] \<or> ta_acked s = Some (Min (set (map snd (leases_of s))))) \<and>
    list_all (\<lambda>e. boundary hist (snd e)) (leases_of s) \<and>
    (ta_journal s = None \<or> j_bytes (the (ta_journal s)) \<le> cfg_journalBytes cfg) \<and>
    flow_pty (ta_flow s) = map_option fs_paused (flow_state (ta_flow s)) \<and>
    (leases_of s \<noteq> [] \<or> flow_pty (ta_flow s) \<noteq> Some True)"
proof -
  have ok: "attach_ok cfg hist s"
    using attach_runs_ok [OF assms(2,1)] attach_init_ok by simp
  then have "ta_journal s = None \<or> j_bytes (the (ta_journal s)) \<le> cfg_journalBytes cfg"
    using kept_fits by (auto simp: attach_ok_def journal_ok_def journal_of_def)
  moreover have "leases_of s \<noteq> [] \<or> flow_pty (ta_flow s) \<noteq> Some True"
    using ok by (auto simp: attach_ok_def leases_ok_def flow_ok_def split: option.splits)
  ultimately show ?thesis
    using ok by (auto simp: attach_ok_def leases_ok_def flow_ok_def)
qed

theorem attach_protocol_invariant_witness:
  "ta_subscribers (after_output 4) = Some [''a''] \<and>
   flow_consumers (ta_flow (after_output 4)) = 1 \<and>
   flow_pty (ta_flow (after_output 4)) = Some True"
proof -
  have "leases_of (after_output 4) = [(''a'', 0)]" "flow_state (ta_flow (after_output 4)) \<noteq> None"
    "fs_paused (the (flow_state (ta_flow (after_output 4))))" by code_simp+
  with attach_protocol_invariant [OF small_config_ok box_run] show ?thesis by auto
qed

text \<open>C11. Splitting the pane \<open>p\<close> of a well-formed tree with unique ids gives a well-formed tree
  with unique ids whose leaves are the old ones with one new leaf right after \<open>p\<close>; the
  generator can still never return an id of the tree.\<close>

theorem splitPane_correct:
  assumes "wf_panel n" and "distinct (panel_ids n)" and "p \<in> set (getLeafIds n)"
    and "dash_free s" and "settled s (set (panel_ids n))"
    and "splitPane n p dir c s = (n', s')"
  shows "wf_panel n' \<and> distinct (panel_ids n') \<and>
         getLeafIds n' = insert_after p (fst (generateId ''pane'' s)) (getLeafIds n) \<and>
         settled s' (set (panel_ids n'))"
  using splitPaneRecursive_wf [OF assms(1), of p dir c s] splitPane_ids [OF assms(2-5), of dir c]
    splitPaneRecursive_leaves [OF distinct_ids_leaves [OF assms(2)] assms(3), of dir c s] assms(6)
  by (simp add: splitPane_def)

theorem splitPane_correct_witness:
  "getLeafIds (fst (splitPane sample_panel ''b'' Vertical None sample_ids))
     = [''a'', ''b'', ''pane-1-x'', ''c'']
   \<and> wf_panel (fst (splitPane sample_panel ''b'' Vertical None sample_ids))
   \<and> distinct (panel_ids (fst (splitPane sample_panel ''b'' Vertical None sample_ids)))"
proof -
  have s: "settled sample_ids (set (panel_ids sample_panel))" "dash_free sample_ids"
    by (rule sample_ids_settled, simp add: sample_panel_ids) (rule sample_ids_dash_free)
  have h: "distinct (panel_ids sample_panel)" "''b'' \<in> set (getLeafIds sample_panel)"
    by (simp_all add: sample_panel_ids sample_panel_leaf_ids)
  have "fst (generateId ''pane'' sample_ids) = ''pane-1-x''"
    by (rule sample_pane_id)
  with splitPane_correct [OF sample_panel_wf h s(2,1) prod.collapse [symmetric], of Vertical None]
  show ?thesis by (simp add: sample_panel_leaf_ids)
qed

text \<open>C12. Closing the pane \<open>p\<close> removes exactly that leaf: the leaves that remain are the other ones,
  unchanged and in order, the tree stays well formed with unique ids and no new id, and there
  is no tree left only when \<open>p\<close> was the whole tree.\<close>

theorem closePane_correct:
  assumes "wf_panel n" and "distinct (panel_ids n)"
  shows "opt_leaves (closePane n p) = filter (\<lambda>l. leaf_id l \<noteq> p) (panel_leaves n) \<and>
    (\<forall>n'. closePane n p = Some n' \<longrightarrow>
       wf_panel n' \<and> distinct (panel_ids n') \<and> set (panel_ids n') \<subseteq> set (panel_ids n)) \<and>
    (closePane n p = None \<longleftrightarrow> getLeafIds n = [p])"
proof (intro conjI)
  have d: "distinct (getLeafIds n)" by (rule distinct_ids_leaves [OF assms(2)])
  show "opt_leaves (closePane n p) = filter (\<lambda>l. leaf_id l \<noteq> p) (panel_leaves n)"
    by (rule closePane_panel_leaves [OF d])
  show "\<forall>n'. closePane n p = Some n' \<longrightarrow>
      wf_panel n' \<and> distinct (panel_ids n') \<and> set (panel_ids n') \<subseteq> set (panel_ids n)"
    using closePane_wf [OF assms(1)] closePane_distinct_ids [OF assms(2)] by blast
  have "closePane n p = None \<longleftrightarrow> opt_leaf_ids (closePane n p) = []"
    using closePane_wf [OF assms(1)] wf_panel_leaf by (cases "closePane n p") auto
  also have "\<dots> \<longleftrightarrow> getLeafIds n = [p]"
    using closePane_leaves [OF d, of p] wf_panel_leaf [OF assms(1)]
    by (cases "getLeafIds n") (auto split: if_splits)
  finally show "closePane n p = None \<longleftrightarrow> getLeafIds n = [p]" .
qed

theorem closePane_correct_witness:
  "opt_leaves (closePane sample_panel ''b'') = [sample_leaf ''a'' ''t1'', sample_leaf ''c'' ''t3'']
   \<and> closePane sample_panel ''b'' \<noteq> None"
proof -
  have "distinct (panel_ids sample_panel)" by (simp add: sample_panel_ids)
  note C = closePane_correct [OF sample_panel_wf this, of "''b''"]
  have "filter (\<lambda>l. leaf_id l \<noteq> ''b'') (panel_leaves sample_panel)
      = [sample_leaf ''a'' ''t1'', sample_leaf ''c'' ''t3'']"
    by (simp add: sample_panel_defs)
  with C show ?thesis by (simp add: sample_panel_leaf_ids del: closePane.simps)
qed

text \<open>C13. The journal implements an abstract history of everything appended: appending a chunk that fits
  the bound returns the number of bytes written so far and the journal of the longer history
  (the eviction loop ends), a chunk that does not fit is refused; the journal of a history holds
  its longest suffix that fits the bound.\<close>

theorem journal_keeps_longest_suffix:
  "journal_append d (journal_of m hist) =
     Some (if m < utf8Bytes d then Inl EntryExceedsJournal
           else Inr (log_bytes (hist @ [d]), journal_of m (hist @ [d]))) \<and>
   (\<exists>k. map je_data (j_entries (journal_of m hist)) = drop k hist) \<and>
   j_bytes (journal_of m hist) \<le> m \<and>
   (\<forall>k. log_bytes (drop k hist) \<le> m \<longrightarrow>
      length (drop k hist) \<le> length (j_entries (journal_of m hist)))"
  using journal_append_of [of d m hist] kept_suffix [of hist m] kept_fits [of m hist]
    kept_longest [of _ hist m]
  by (auto simp: journal_of_def entries_from_data)

theorem journal_keeps_longest_suffix_witness:
  "length (drop 1 [[box], [box]]) \<le> length (j_entries (journal_of 3 [[box], [box]])) \<and>
   journal_append [box] (journal_of 3 [[box], [box]]) =
     Some (Inr (9, \<lparr>j_bytes = 3, j_cursor = 9,
       j_entries = [\<lparr>je_bytes = 3, je_chars = 1, je_data = [box], je_end = 9, je_start = 6\<rparr>],
       j_maximumBytes = 3\<rparr>))"
proof (rule conjI)
  have "log_bytes (drop 1 [[box], [box]]) \<le> 3" by code_simp
  then show "length (drop 1 [[box], [box]]) \<le> length (j_entries (journal_of 3 [[box], [box]]))"
    using journal_keeps_longest_suffix [of "[]" 3 "[[box], [box]]"] by blast
qed code_simp





text \<open>C16. An update of a task that is written expected the revision of the stored row; the row it leaves has
  exactly the patched fields, the time and the next revision, the other tasks are as they were, and
  any further update that still expects the old revision is refused, the error carrying the row that
  is stored: no write is lost.\<close>

theorem stale_writer_is_refused:
  assumes "updateTask i n patch op t d = Inr ((row, c), d')" and "keys_ok d"
  shows "\<exists>old. findTask i d = Some old \<and> t_revision old = n \<and>
      row = (fold apply_patch patch old)\<lparr>t_updatedAt := t, t_revision := n + 1\<rparr> \<and> findTask i d' = Some row \<and>
      (\<forall>j. j = i \<or> findTask j d' = findTask j d) \<and>
      (\<forall>p q op' t'. updateTask i n (p # q) op' t' d' = Inl (StaleRevision i (Some n) (Some row)))"
proof -
  obtain old where old: "findTask i d = Some old" "t_revision old = n"
    "row = (fold apply_patch patch old)\<lparr>t_updatedAt := t, t_revision := n + 1\<rparr>"
    "findTask i d' = Some row" "\<And>j. j \<noteq> i \<Longrightarrow> findTask j d' = findTask j d" "keys_ok d'"
    using updateTask_success [OF assms] by metis
  then have "updateTask i n (p # q) op' t' d' = Inl (StaleRevision i (Some n) (Some row))" for p q op' t'
    by (intro updateTask_stale) simp_all
  with old show ?thesis by (intro exI [of _ old]) auto
qed

theorem stale_writer_is_refused_witness:
  "\<exists>row c d'. updateTask ''child'' 1 [Set_title ''new''] None 9 family_db = Inr ((row, c), d') \<and>
    (\<forall>p q op' t'. updateTask ''child'' 1 (p # q) op' t' d' = Inl (StaleRevision ''child'' (Some 1) (Some row)))"
proof -
  have "\<not> isl (updateTask ''child'' 1 [Set_title ''new''] None 9 family_db)" by code_simp
  then obtain row c d' where u: "updateTask ''child'' 1 [Set_title ''new''] None 9 family_db = Inr ((row, c), d')"
    by (cases "updateTask ''child'' 1 [Set_title ''new''] None 9 family_db") auto
  have "\<forall>p q op' t'. updateTask ''child'' 1 (p # q) op' t' d' = Inl (StaleRevision ''child'' (Some 1) (Some row))"
    using stale_writer_is_refused [OF u family_db_ok(2)] by (elim exE conjE)
  with u show ?thesis by (intro exI conjI)
qed

text \<open>C17. Label edits carry no revision. When labels can be added to a task and other labels then removed, the
  edits also succeed in the other order, and the task ends with the same labels in the same order.\<close>

theorem label_edits_commute:
  assumes "db_ok d" and "addTaskLabels i as op1 t1 d = Inr ((r1, c1), d1)"
    and "removeTaskLabels i bs op2 t2 d1 = Inr ((r2, c2), d2)" and "set as \<inter> set bs = {}"
  shows "\<exists>s1 k1 e1 s2 k2 e2. removeTaskLabels i bs op2 t2 d = Inr ((s1, k1), e1) \<and>
    addTaskLabels i as op1 t1 e1 = Inr ((s2, k2), e2) \<and> t_labelIds s2 = t_labelIds r2"
  using add_remove_commute [OF assms] .

theorem label_edits_commute_witness:
  "\<exists>s1 k1 e1 s2 k2 e2. removeTaskLabels ''child'' [''l1''] None 9 family_db = Inr ((s1, k1), e1) \<and>
    addTaskLabels ''child'' [''l2''] None 8 e1 = Inr ((s2, k2), e2) \<and> t_labelIds s2 = [''l2'']"
proof -
  let ?a = "addTaskLabels ''child'' [''l2''] None 8 family_db"
  have a: "\<not> isl ?a" by code_simp
  then obtain r1 c1 d1 where d1: "?a = Inr ((r1, c1), d1)" by (cases ?a) auto
  then have d1_eq: "d1 = after_write ?a" by (simp add: after_write_def)
  let ?b = "removeTaskLabels ''child'' [''l1''] None 9 (after_write ?a)"
  have b: "\<not> isl ?b \<and> map_option t_labelIds (case ?b of Inl _ \<Rightarrow> None | Inr x \<Rightarrow> Some (fst (fst x))) = Some [''l2'']"
    by code_simp
  then obtain r2 c2 d2 where d2: "?b = Inr ((r2, c2), d2)" by (cases ?b) auto
  with b have "t_labelIds r2 = [''l2'']" by simp
  with label_edits_commute [OF family_db_ok(1) d1 d2 [folded d1_eq]] show ?thesis by simp
qed

text \<open>C18. A reply that carries no time and is written becomes the last of its thread, later than every reply
  before it and not before the clock, also when the clock has gone backwards; the thread keeps its
  row, its revision included, so an answer never makes the revision that someone holds stale.\<close>

theorem appended_reply_goes_last:
  assumes "appendReviewCommentReply ulid input author op now d = Inr ((row, c), d')"
    and "nr_createdAt input = None" and "d' \<noteq> d"
    and "findReviewCommentThread (nr_threadId input) d = Some thread"
  shows "\<exists>r. ct_replies row = ct_replies thread @ [r] \<and> ct_row row = ct_row thread \<and> r_author r = author \<and>
    reviewCommentBody (nr_body input) = Some (r_body r) \<and>
    (\<forall>s\<in>set (ct_replies thread). r_createdAt s < r_createdAt r) \<and> now \<le> r_createdAt r"
  using reply_goes_last [OF assms] by metis

theorem appended_reply_goes_last_witness:
  "\<exists>(row :: comment_thread) thread r. findReviewCommentThread ''th'' comments_db = Some thread \<and>
    ct_replies row = ct_replies thread @ [r] \<and> ct_row row = ct_row thread \<and> r_author r = Agent"
proof -
  let ?a = "appendReviewCommentReply ''u'' sample_reply Agent None 2 comments_db"
  have a: "\<not> isl ?a \<and> map r_id (db_replies (after_write ?a)) \<noteq> map r_id (db_replies comments_db)" by code_simp
  then obtain row c d' where d': "?a = Inr ((row, c), d')" by (cases ?a) auto
  then have "d' \<noteq> comments_db" using a by (auto simp: after_write_def)
  moreover have "findReviewCommentThread ''th'' comments_db \<noteq> None" by code_simp
  then obtain thread where "findReviewCommentThread (nr_threadId sample_reply) comments_db = Some thread"
    by (auto simp: sample_reply_def)
  moreover have "nr_createdAt sample_reply = None" by (simp add: sample_reply_def)
  ultimately obtain r where "ct_replies row = ct_replies thread @ [r]" "ct_row row = ct_row thread" "r_author r = Agent"
    "findReviewCommentThread (nr_threadId sample_reply) comments_db = Some thread"
    using appended_reply_goes_last [OF d', of thread] by blast
  then show ?thesis by (intro exI [of _ row] exI [of _ thread] exI [of _ r]) (simp add: sample_reply_def)
qed

text \<open>C19. When every assignment of a reorder names another existing project at its current revision, the
  reorder succeeds: each named project has its new rank, the time and the next revision, every other
  project is as it was, the rows are returned in the order of the assignments and the cursor has
  advanced by one change each.\<close>

theorem reorder_assigns_all_ranks:
  assumes "keys_ok d" and "as \<noteq> []" and "distinct (map pa_projectId as)" and "\<forall>a\<in>set as. \<not> stale_assignment d a"
  shows "\<exists>rows d'. reorderProjects as op t d = Inr ((rows, db_stateSequence d + int (length as)), d') \<and>
    map Some rows = map (\<lambda>a. findProject (pa_projectId a) d') as \<and> (\<forall>i. findProject i d' = reordered t as d i)"
  using reorder_succeeds [OF assms] .

theorem reorder_assigns_all_ranks_witness:
  "let as = [\<lparr>pa_expectedRevision = 1, pa_projectId = ''p2'', pa_sortOrder = Some 1\<rparr>,
             \<lparr>pa_expectedRevision = 1, pa_projectId = ''p1'', pa_sortOrder = Some 2\<rparr>]
   in \<exists>rows d'. reorderProjects as ''op'' 9 projects_db = Inr ((rows, db_stateSequence projects_db + 2), d') \<and>
     (\<forall>i. findProject i d' = reordered 9 as projects_db i)"
proof -
  let ?as = "[\<lparr>pa_expectedRevision = 1, pa_projectId = ''p2'', pa_sortOrder = Some 1\<rparr>,
    \<lparr>pa_expectedRevision = 1, pa_projectId = ''p1'', pa_sortOrder = Some 2\<rparr>]"
  have "\<forall>a\<in>set ?as. \<not> stale_assignment projects_db a" by code_simp
  moreover have "distinct (map pa_projectId ?as)" by simp
  ultimately have "\<exists>rows d'. reorderProjects ?as ''op'' 9 projects_db =
      Inr ((rows, db_stateSequence projects_db + int (length ?as)), d') \<and>
    map Some rows = map (\<lambda>a. findProject (pa_projectId a) d') ?as \<and>
    (\<forall>i. findProject i d' = reordered 9 ?as projects_db i)"
    by (intro reorder_assigns_all_ranks projects_ok(1)) simp_all
  then show ?thesis unfolding Let_def by auto
qed

text \<open>C20. Whatever the persisted value is and whatever the strict decoders accept, a layout that
  \<open>decodeWindowLayout\<close> returns has non-empty tab ids, active ids that exist, no single-child
  split and one positive size per child, and another repair would not change it.\<close>

theorem decode_gives_repaired_layout:
  assumes "rr_windowLayout (decodeWindowLayout D input) = Some l"
  shows "layout_repaired l \<and> repairTransforms l = l"
  by (rule decode_repaired [OF assms])

theorem decode_gives_repaired_layout_witness:
  "\<exists>l. rr_windowLayout (decodeWindowLayout
       \<lparr>dec_windowLayout = (\<lambda>j. None), dec_windowTab = (\<lambda>j. None), dec_tileNode = (\<lambda>j. None),
        dec_panelTab = (\<lambda>j. None), dec_panelNode = (\<lambda>j. None)\<rparr>
       (JObj [(''tabs'', JArr [JObj [(''id'', JStr ''v1'')], JNull]),
              (''activeTabId'', JStr ''gone'')])) = Some l
     \<and> layout_repaired l \<and> wl_activeTabId l = Some ''v1''"
proof -
  let ?D = "\<lparr>dec_windowLayout = (\<lambda>j. None), dec_windowTab = (\<lambda>j. None), dec_tileNode = (\<lambda>j. None),
      dec_panelTab = (\<lambda>j. None), dec_panelNode = (\<lambda>j. None)\<rparr>"
  let ?input = "JObj [(''tabs'', JArr [JObj [(''id'', JStr ''v1'')], JNull]),
      (''activeTabId'', JStr ''gone'')]"
  let ?l = "\<lparr>wl_activeTabId = Some ''v1'', wl_tabs = [\<lparr>wt_focusedWorkspaceTileId = None,
      wt_id = ''v1'', wt_label = None, wt_workspaceLayout = None\<rparr>]\<rparr>"
  have r: "rr_windowLayout (decodeWindowLayout ?D ?input) = Some ?l"
    by (simp add: decodeWindowLayout_def lenientDecodeWindowLayout_def lenientDecodeWindowTab_def
        jarray_def jstring_def repairTransforms_def repairWindowTabTransform_def
        resolveActiveTabId_def List.map_filter_simps)
  have "layout_repaired ?l" using decode_gives_repaired_layout [OF r] by blast
  with r show ?thesis by (intro exI [of _ ?l]) simp
qed

text \<open>C21. Opening or moving a workspace in a tab, with the tile edits as callbacks, keeps the workspaces
  of the window unique: none is lost or shown twice, the moved one is in the target tab, and
  the tabs keep their ids and their well-formed tile trees.\<close>

theorem moveWorkspace_keeps_unique:
  assumes "wf_window layout" and "target \<in> wt_id ` set (wl_tabs layout)"
    and "r = moveWorkspace layout w target removeWorkspaceFromTab
               (\<lambda>tab x. fst (addWorkspaceToTab tab x below s))"
  shows "distinct (window_workspaces r) \<and>
     set (window_workspaces r) = insert w (set (window_workspaces layout)) \<and>
     (\<exists>t\<in>set (wl_tabs r). wt_id t = target \<and> w \<in> set (tab_workspaces t)) \<and>
     map wt_id (wl_tabs r) = map wt_id (wl_tabs layout) \<and> (\<forall>t\<in>set (wl_tabs r). wf_tab t)"
  using tile_tabs.moveWorkspace_unique [OF assms(1,2), of w below s] by (simp add: assms(3))

theorem moveWorkspace_keeps_unique_witness:
  "\<exists>r. r = moveWorkspace sample_window ''w2'' ''v2'' removeWorkspaceFromTab
             (\<lambda>tab x. fst (addWorkspaceToTab tab x None sample_ids)) \<and>
     set (window_workspaces r) = {''w1'', ''w2'', ''w3''} \<and>
     (\<exists>t\<in>set (wl_tabs r). wt_id t = ''v2'' \<and> ''w2'' \<in> set (tab_workspaces t))"
proof -
  let ?r = "moveWorkspace sample_window ''w2'' ''v2'' removeWorkspaceFromTab
      (\<lambda>tab x. fst (addWorkspaceToTab tab x None sample_ids))"
  have "''v2'' \<in> wt_id ` set (wl_tabs sample_window)" by (simp add: sample_window_tabs)
  note M = moveWorkspace_keeps_unique [OF sample_window_wf this refl, of "''w2''" None sample_ids]
  have "set (window_workspaces sample_window) = {''w1'', ''w2'', ''w3''}"
    by (simp add: window_workspaces_def sample_window_tabs sample_tab_leaves sample_empty_tab_simps)
  with M show ?thesis by (intro exI [of _ ?r]) auto
qed



text \<open>C23. Whatever the order of writes, inputs, flushes and timer callbacks: the flushed chunks followed
  by the buffered ones are exactly what was written, no flush is empty, the buffer stays below
  its byte bound, and output is buffered only while a timer is pending, whose callback flushes
  it.\<close>

theorem coalescer_in_order_and_bounded:
  assumes "(coalescer_step opts)\<^sup>*\<^sup>* (new_coalescer, []) (c, written)"
  shows "concat (co_out c) @ concat (co_chunks c) = written \<and> [] \<notin> set (co_out c) \<and>
    (co_chunks c = [] \<or>
       sum_list (map utf8Bytes (co_chunks c)) < maxBufferBytes opts \<and> co_timer c = Some (co_flushAt c)) \<and>
    concat (co_out (timer_fires now ms c)) = written"
proof -
  have "coalescer_ok opts (c, written)"
    by (rule coalescer_runs_ok [OF assms new_coalescer_ok])
  then show ?thesis
    using timer_fires_delivers [of now ms c] by (auto simp: coalescer_ok_def split: option.splits)
qed

theorem coalescer_in_order_and_bounded_witness:
  "concat (co_out (timer_fires 16 16 busy_coalescer)) = [box, box, box] \<and>
   co_out busy_coalescer = [[box, box]] \<and> co_chunks busy_coalescer = [[box]]"
proof -
  from coalescer_in_order_and_bounded [OF busy_coalescer_run, of 16 16]
  have "concat (co_out (timer_fires 16 16 busy_coalescer)) = [box, box, box]" by simp
  then show ?thesis by (simp add: busy_coalescer_state)
qed

text \<open>C24. In every state of the status engine: while a hook has authority its status is the one shown,
  with source hook; only a completion is unseen, and never in an observed terminal; a snapshot
  is stale only while process detection fails.\<close>

theorem status_engine_invariant:
  assumes "engine_step\<^sup>*\<^sup>* (new_engine d st) e"
  shows "(se_hookAuthority e = None \<or>
      map_option (\<lambda>s. (ss_status s, ss_source s)) (se_snapshot e)
        = map_option (\<lambda>a. (ha_status a, Hook)) (se_hookAuthority e)) \<and>
    (se_snapshot e = None \<or> ss_seen (the (se_snapshot e)) \<or>
      ss_status (the (se_snapshot e)) = Idle \<and> \<not> se_observed e) \<and>
    (se_snapshot e = None \<or> \<not> ss_stale (the (se_snapshot e)) \<or> se_firstFailureAt e \<noteq> None)"
proof -
  have "engine_ok e" by (rule engine_runs_ok [OF assms new_engine_ok])
  then show ?thesis by (auto simp: engine_ok_def split: option.splits)
qed

theorem status_engine_invariant_witness:
  "engine_step\<^sup>*\<^sup>* (new_engine None None) hooked_engine \<and>
   map_option (\<lambda>s. (ss_status s, ss_source s)) (se_snapshot hooked_engine) = Some (NeedsInput, Hook)"
proof -
  have "se_hookAuthority hooked_engine = Some \<lparr>ha_processIds = {7}, ha_status = NeedsInput\<rparr>"
    by (simp add: hooked_engine_def working_engine_def engine_report_def engine_sample_def
        transition_def recoverDetection_def new_engine_def Let_def)
  with status_engine_invariant [OF hooked_engine_run] hooked_engine_run show ?thesis by simp
qed



text \<open>C26. In every run in which clients take all events and the acknowledged cursor is still in the
  journal whenever something happens, a watched terminal whose process lives is running with
  no debt once each of its clients has acknowledged the whole output, in whatever order and
  with whatever repetitions.\<close>

theorem acknowledgements_resume_pty:
  assumes "config_ok cfg" and "(kept_up_step cfg)\<^sup>*\<^sup>* ([], attach_init) (hist, s)"
    and "kept_up (hist, s)" and "ta_journal s = Some j" and "leases_of s \<noteq> []"
    and "flow_pty (ta_flow s) \<noteq> None" and "set (map fst (leases_of s)) \<subseteq> set clients"
  shows "unacked_chars (ta_flow (ack_all cfg now (j_cursor j) clients s)) = 0 \<and>
    flow_pty (ta_flow (ack_all cfg now (j_cursor j) clients s)) = Some False"
proof -
  have "attach_ok cfg hist s \<and> covered hist s"
    using kept_up_runs [OF assms(2,1)] attach_init_ok
    by (simp add: covered_def leases_of_def attach_init_def)
  moreover from this assms(4) have j: "j = journal_of (cfg_journalBytes cfg) hist"
    by (auto simp: attach_ok_def journal_ok_def)
  moreover have "j_cursor j = log_bytes hist" by (simp add: j journal_of_def)
  moreover have "\<not> (map_of (leases_of s) i = Some c \<and> i \<notin> set clients)" for i c
    using assms(7) map_of_SomeD by force
  ultimately show ?thesis
    using ack_all_step [OF assms(1) _ assms(3) _ _ assms(5) _ assms(6)] assms(4) by simp
qed

theorem acknowledgements_resume_pty_witness:
  "flow_pty (ta_flow (after_output 3)) = Some True \<and>
   unacked_chars (ta_flow (ack_all small_config 0 9 [''a''] (after_output 3))) = 0 \<and>
   flow_pty (ta_flow (ack_all small_config 0 9 [''a''] (after_output 3))) = Some False"
proof -
  let ?s = "after_output 3" and ?j = "journal_of 9 [[box], [box], [box]]"
  have facts: "flow_pty (ta_flow ?s) = Some True" "ta_journal ?s = Some ?j" "leases_of ?s \<noteq> []"
    "flow_pty (ta_flow ?s) \<noteq> None" "set (map fst (leases_of ?s)) \<subseteq> set [''a'']" "j_cursor ?j = 9"
    by code_simp+
  with acknowledgements_resume_pty [OF small_config_ok kept_up_run kept_up_samples(3) facts(2-5), of 0]
  show ?thesis by simp
qed

text \<open>C27. Whatever order the user's actions, the library's events and the settling of promises come in,
  the update state and the last state sent to the windows are well formed: a message exactly with
  an error context, which fits the status; progress exactly while downloading (and kept after);
  a known version when one is available, none when up to date; a retry only where one is possible.\<close>

theorem updater_state_consistent:
  assumes "getAutoUpdateDisabledReason (\<not> isPackaged) isPackaged platform disabledByEnv = None"
    and "updater_step\<^sup>*\<^sup>* (configureAutoUpdater platform arch translated version isPackaged disabledByEnv) u"
  shows "update_state_ok (up_state u) \<and> (up_sent u = None \<or> update_state_ok (the (up_sent u)))"
  using updater_runs_ok [OF assms(2) configured_ok [OF assms(1)]]
  by (auto simp: updater_ok_def split: option.splits)

theorem updater_state_consistent_witness:
  "update_state_ok (up_state downloaded) \<and> us_status (up_state downloaded) = Downloaded"
proof -
  have "getAutoUpdateDisabledReason (\<not> True) True ''darwin'' False = None" by code_simp
  from updater_state_consistent [OF this downloaded_run [unfolded ready_updater_def]]
  have "update_state_ok (up_state downloaded)" by blast
  moreover have "us_status (up_state downloaded) = Downloaded" by code_simp
  ultimately show ?thesis ..
qed







text \<open>C31. Reconciliation rewrites the terminal id of exactly the panes whose terminal is not live, to the
  respawned id or to none; it keeps every other pane and property, spawn intent included. The
  stale list names exactly these panes, and none is stale afterwards.\<close>

theorem reconcile_replaces_stale:
  "window_panes (reconcileWindowLayout layout live respawned)
     = map (reconcile_leaf live respawned) (window_panes layout) \<and>
   getStaleTerminalLeavesHierarchical layout live
     = map stale_of (filter (is_stale live) (window_panes layout)) \<and>
   getStaleTerminalLeavesHierarchical (reconcileWindowLayout layout live respawned)
     (live \<union> ran respawned) = []"
  using reconcileWindowLayout_panes stale_window reconcile_no_stale by blast

text \<open>C32. Closing the pane that a split has just created undoes the split: the tree has its old splits and
  its old leaves with all their data; only the stored percentages may differ.\<close>

theorem split_then_close:
  assumes "wf_panel n" and "distinct (panel_ids n)" and "p \<in> set (getLeafIds n)"
    and "settled s (set (panel_ids n))" and "splitPane n p dir c s = (n1, s1)"
  shows "\<exists>n'. closePane n1 (fst (generateId ''pane'' s)) = Some n' \<and>
    panel_shape n' = panel_shape n \<and> panel_leaves n' = panel_leaves n"
proof -
  have "fst (generateId ''pane'' s) \<notin> set (getLeafIds n)"
    using settled_fresh [OF assms(4)] getLeafIds_subset_ids by blast
  from split_close_shape [OF assms(1) distinct_ids_leaves [OF assms(2)] assms(3) refl this, of dir c]
  obtain n' where "closePane n1 (fst (generateId ''pane'' s)) = Some n'"
    and shape: "panel_shape n' = panel_shape n"
    using assms(5) by (auto simp: splitPane_def)
  then show ?thesis using panel_shape_leaves [of n'] panel_shape_leaves [of n] by auto
qed

theorem split_then_close_witness:
  "\<exists>n'. closePane (fst (splitPane sample_panel ''b'' Horizontal None sample_ids)) ''pane-1-x'' = Some n'
     \<and> panel_leaves n' = panel_leaves sample_panel"
proof -
  have h: "distinct (panel_ids sample_panel)" "''b'' \<in> set (getLeafIds sample_panel)"
    "settled sample_ids (set (panel_ids sample_panel))"
    by (simp_all add: sample_panel_ids sample_panel_leaf_ids sample_ids_settled)
  from split_then_close [OF sample_panel_wf h prod.collapse [symmetric], of Horizontal None]
  show ?thesis by (auto simp: sample_pane_id)
qed







text \<open>C36. Through every action of the renderer's preview store, with events and restored snapshots that name
  their own tab: the active tab is one of the sessions, every session is filed under its own tab,
  no tab and no overlay appears twice, and at most eight distinct recent addresses are remembered.\<close>

theorem preview_state_consistent:
  assumes "preview_step\<^sup>*\<^sup>* empty_preview s"
  shows "distinct (map fst (pv_sessions s)) \<and> distinct (map fst (pv_desktop s)) \<and>
    list_all (\<lambda>(t, sn). sn_tabId sn = t) (pv_sessions s) \<and>
    (case pv_activeTabId s of None \<Rightarrow> True | Some a \<Rightarrow> map_of (pv_sessions s) a \<noteq> None) \<and>
    distinct (pv_recentUrls s) \<and> length (pv_recentUrls s) \<le> 8"
proof -
  have "preview_ok s"
    using assms by (induction rule: rtranclp_induct) (auto intro: preview_step_ok empty_preview_ok)
  then show ?thesis
    by (auto simp: preview_ok_def map_of_eq_None_iff split: option.splits)
qed

theorem preview_state_consistent_witness:
  "pv_activeTabId listing_client = Some ''tab_1'' \<and> map_of (pv_sessions listing_client) ''tab_1'' \<noteq> None"
proof -
  have "preview_step\<^sup>*\<^sup>* empty_preview listing_client"
    unfolding listing_client_def by (rule r_into_rtranclp) (rule preview_step.intros)
  moreover have "pv_activeTabId listing_client = Some ''tab_1''" by code_simp
  ultimately show ?thesis using preview_state_consistent [of listing_client]
    by (auto dest: map_of_SomeD)
qed

text \<open>C37. Whatever frames a pane's loop handles, and whether or not a surface takes them: as long as it has
  a cursor, less than one batch of parsed characters is unacknowledged, the cursor it acknowledged
  last is not beyond the cursor it drew to, and that acknowledgement was sent.\<close>

theorem pane_owes_less_than_a_batch:
  assumes "0 < batch"
    and "l = foldl (\<lambda>l (taken, e). handle_frame batch taken l e) (createTerminalAttachLoop restoring resume) frames"
    and "al_cursor l = Some c"
  shows "al_unackedChars l < batch \<and>
    (\<forall>a. al_ackedCursor l = Some a \<longrightarrow> a \<le> c \<and> a \<in> set (acks_of (al_effects l)))"
proof -
  have "loop_ok batch (foldl (\<lambda>l (taken, e). handle_frame batch taken l e) l0 frames)" if "loop_ok batch l0" for l0
    using that by (induction frames arbitrary: l0) (auto intro: handle_frame_ok [OF assms(1)])
  from this [OF createTerminalAttachLoop_ok [OF assms(1)]]
  have "loop_ok batch l" unfolding assms(2) .
  with assms(3) show ?thesis by (simp add: loop_ok_def)
qed

theorem pane_owes_less_than_a_batch_witness:
  "al_unackedChars (handle_frame 5 True (createTerminalAttachLoop False None) (Snapshot 3 [box])) < 5"
proof -
  let ?l = "handle_frame 5 True (createTerminalAttachLoop False None) (Snapshot 3 [box])"
  have "al_cursor ?l = Some 3" by code_simp
  with pane_owes_less_than_a_batch [of 5 ?l False None "[(True, Snapshot 3 [box])]" 3] show ?thesis by simp
qed

text \<open>C38. Reconciling a valid strip with the live browser tabs leaves exactly one surface per live tab,
  none for the placeholder or for a tab that is gone, and every other surface where it was; the
  active surface stays active unless it is gone.\<close>

theorem reconcile_shows_live_browser_tabs:
  assumes "strip_ok c" and "distinct tabIds" and "list_all tab_name tabIds"
  defines "c' \<equiv> reconcile_surfaces tabIds c"
  shows "mset (browser_tabs (wp_surfaces c')) = mset (map (\<lambda>t. ''browser:'' @ t) tabIds) \<and>
    filter (\<lambda>s. surface_kind s \<noteq> PreviewKind) (wp_surfaces c')
      = filter (\<lambda>s. surface_kind s \<noteq> PreviewKind) (wp_surfaces c) \<and>
    strip_ok c' \<and>
    wp_activeSurfaceId c' = (if wp_activeSurfaceId c \<in> Some ` surface_id ` set (wp_surfaces c')
      then wp_activeSurfaceId c else wp_activeSurfaceId c')"
  unfolding c'_def
  using reconcile_surfaces_exact(1,2) [OF assms(1-3)] reconcile_ok [OF assms(1-3)]
    reconcile_active [of tabIds c]
  by (simp add: Let_def)

theorem reconcile_shows_live_browser_tabs_witness:
  "mset (browser_tabs (wp_surfaces (reconcile_surfaces [''t2'', ''t3''] browsing)))
     = {#''browser:t2'', ''browser:t3''#} \<and>
   wp_activeSurfaceId (reconcile_surfaces [''t2'', ''t3''] browsing) = Some ''browser:t2''"
proof -
  have "list_all tab_name [''t2'', ''t3'']" by (simp add: tab_name_def)
  with reconcile_shows_live_browser_tabs [OF browsing_ok, of "[''t2'', ''t3'']"] browsing_reconciled
  show ?thesis by simp
qed

text \<open>C39. Migrating any persisted value gives strips whose surfaces are of a known kind and whose active
  surface is none or one of them; the panel opens only if a strip that was open has a surface.\<close>

theorem migrated_panels_are_valid:
  "list_all (\<lambda>(w, st). migrated_ok st False) (fst (migratePersistedRightPanelState j)) \<and>
   snd (migratePersistedRightPanelState j) =
     (snd (migratePersistedRightPanelState j) \<and>
      list_ex (\<lambda>(w, st). mw_surfaces st \<noteq> []) (fst (migratePersistedRightPanelState j)))"
  using migrate_ok [of j] by blast

text \<open>C40. Deleting a task clears the parent of its children (the foreign key sets it to null), but only the
  deleted task is recorded in the ledger and the child keeps its revision: the update after the cursor
  does not mention the child, and a copy that was exact still shows the deleted task as its parent.\<close>

theorem deleted_parent_goes_unseen:
  assumes "deleteTask i n op t d = Inr (x, d')" and "keys_ok d" and "ledger_ok d"
    and "findTask j d = Some child" and "t_parentTaskId child = Some i" and "j \<noteq> i"
  shows "findTask j d' = Some (child\<lparr>t_parentTaskId := None\<rparr>) \<and>
    (\<exists>u. taskUpdateAfter (db_taskSequence d) d' = Inr (Some u) \<and> copy_delta t_id u (\<lambda>k. findTask k d) j = Some child)"
  using deleted_parent [OF assms] by blast

theorem deleted_parent_goes_unseen_witness:
  "\<exists>x d' child u. deleteTask ''parent'' 1 None 9 family_db = Inr (x, d') \<and>
    findTask ''child'' d' = Some (child\<lparr>t_parentTaskId := None\<rparr>) \<and> t_parentTaskId child = Some ''parent'' \<and>
    taskUpdateAfter (db_taskSequence family_db) d' = Inr (Some u) \<and>
    copy_delta t_id u (\<lambda>k. findTask k family_db) ''child'' = Some child"
proof -
  let ?a = "deleteTask ''parent'' 1 None 9 family_db"
  have "\<not> isl ?a" by code_simp
  then obtain x d' where a: "?a = Inr (x, d')" by (cases ?a) auto
  have "Option.bind (findTask ''child'' family_db) t_parentTaskId = Some ''parent''" by code_simp
  then obtain child where child: "findTask ''child'' family_db = Some child" "t_parentTaskId child = Some ''parent''"
    by (auto simp: bind_eq_Some_conv)
  from deleted_parent_goes_unseen [OF a family_db_ok(2,3) child] a child(2) show ?thesis by auto
qed

section \<open>Further facts\<close>

text \<open>The capacity rule counts per workspace, but compaction keeps the first 64 pending records of the
  whole store: when 64 are pending, a request that the rule accepts is reported as inserted and its
  record is silently dropped, so that no claim can find it.\<close>

theorem newest_pending_is_lost:
  assumes "counts_ok rs" and "length (filter is_pending rs) = ACP_AUTHORITY_MAX_PENDING_PER_WORKSPACE"
    and "pendingPermissionCapacityExceeded rs r = None" and "is_pending r"
    and "ar_recordId r \<notin> ar_recordId ` set rs"
  shows "\<exists>rs'. transact now (insert_record r) rs = Inr (None, rs') \<and> find_record (ar_recordId r) rs' = None"
proof -
  let ?rs = "compacted_records now (rs @ [r])"
  have "transact now (insert_record r) rs = Inr (None, ?rs)"
    using transact_insert [OF assms(1), of now r] assms(3) by (simp add: insert_record_def Let_def)
  moreover have "find_record (ar_recordId r) ?rs = None"
  proof (rule ccontr)
    assume "find_record (ar_recordId r) ?rs \<noteq> None"
    then obtain q where q: "find_record (ar_recordId r) ?rs = Some q" by blast
    note found = find_record_SomeD [OF q]
    have "q \<noteq> r" using found(1) newest_pending_dropped [OF assms(2,4), of now] assms(5) by auto
    then have "q \<in> set rs" using compacted_subset [OF found(1)] by simp
    with found(2) assms(5) imageI [of q "set rs" ar_recordId] show False by simp
  qed
  ultimately show ?thesis by blast
qed

theorem newest_pending_is_lost_witness:
  "\<exists>rs'. transact 20 (insert_record (pending_record 64)) full_store = Inr (None, rs') \<and>
    find_record (ar_recordId (pending_record 64)) rs' = None"
  by (rule newest_pending_is_lost [OF full_store_counts])
    (simp_all only: full_store_full authority_limits full_store_accepts pending_record_simps(2) full_store_ids not_False_eq_True)

text \<open>A project insertion is sent again with the operation id of one that succeeded: the second one returns
  the row of the first and leaves the database as it is.\<close>

theorem replayed_insert_is_harmless:
  assumes "insertProject input (Some op) t d = Inr ((row, c), d')" and "ledger_ok d"
  shows "insertProject again (Some op) t' d' = Inr ((row, stateCursor d'), d')"
  using insertProject_idempotent [OF assms] .

theorem replayed_insert_is_harmless_witness:
  "\<exists>row c d'. insertProject (sample_project ''p3'') (Some ''op3'') 5 projects_db = Inr ((row, c), d') \<and>
    insertProject (sample_project ''p3'') (Some ''op3'') 7 d' = Inr ((row, stateCursor d'), d')"
proof -
  let ?a = "insertProject (sample_project ''p3'') (Some ''op3'') 5 projects_db"
  have "\<not> isl ?a" by code_simp
  then obtain row c d' where a: "?a = Inr ((row, c), d')" by (cases ?a) auto
  with replayed_insert_is_harmless [OF a projects_ok(2)] show ?thesis by blast
qed

text \<open>An error event outside a download, also one of a failed installation, is handled as a failed
  check: the status leaves \<open>downloaded\<close> although the version is still recorded as downloaded,
  and the next request to install it is refused.\<close>

theorem error_event_loses_download:
  assumes "us_status (up_state u) = Downloaded" and "\<not> up_downloadInFlight u"
  shows "us_status (up_state (on_error message now u)) = Failed \<and>
    us_errorContext (up_state (on_error message now u)) = Some CheckError \<and>
    us_downloadedVersion (up_state (on_error message now u)) = us_downloadedVersion (up_state u) \<and>
    fst (install_begins u) \<and> \<not> fst (install_begins (on_error message now u))"
  using assms on_error_downloaded [OF assms(2), of message now]
  by (simp add: install_begins_def on_error_def setState_def reduceOnCheckFailure_def)

theorem error_event_loses_download_witness:
  "updater_step\<^sup>*\<^sup>* ready_updater downloaded \<and>
   us_downloadedVersion (up_state (on_error ''disk full'' ''t'' downloaded)) = Some ''1.1'' \<and>
   \<not> fst (install_begins (on_error ''disk full'' ''t'' downloaded))"
proof -
  have "us_status (up_state downloaded) = Downloaded" "\<not> up_downloadInFlight downloaded"
    "us_downloadedVersion (up_state downloaded) = Some ''1.1''" by code_simp+
  with error_event_loses_download [OF this(1,2), of "''disk full''" "''t''"] downloaded_run
  show ?thesis by simp
qed

text \<open>Once the acknowledged cursor has left the journal, an acknowledgement leaves flow control as it
  is, whatever it acknowledges: a PTY that is paused stays paused although its client has
  received and acknowledged everything.\<close>

theorem evicted_acknowledgement_releases_nothing:
  assumes "ta_journal s = Some j" and "ta_acked s = Some c" and "\<not> retains j c"
  shows "ta_flow (snd (acknowledge cfg now lease cursor s)) = ta_flow s"
  using assms by (rule acknowledge_evicted)

theorem evicted_acknowledgement_releases_nothing_witness:
  "(attach_step small_config willing)\<^sup>*\<^sup>* ([], attach_init) ([[box], [box], [box], [box]], after_output 4) \<and>
   fst (acknowledge small_config 0 ''a'' 12 (after_output 4)) = Inr () \<and>
   ta_leases (snd (acknowledge small_config 0 ''a'' 12 (after_output 4))) = Some [(''a'', 12)] \<and>
   flow_pty (ta_flow (snd (acknowledge small_config 0 ''a'' 12 (after_output 4)))) = Some True"
proof -
  let ?s = "after_output 4" and ?j = "journal_of 9 [[box], [box], [box], [box]]"
  have "ta_journal ?s = Some ?j" "ta_acked ?s = Some 0" "\<not> retains ?j 0" by code_simp+
  note same = evicted_acknowledgement_releases_nothing [OF this, of small_config 0 "''a''" 12]
  have "flow_pty (ta_flow ?s) = Some True"
    "fst (acknowledge small_config 0 ''a'' 12 ?s) = Inr ()"
    "ta_leases (snd (acknowledge small_config 0 ''a'' 12 ?s)) = Some [(''a'', 12)]" by code_simp+
  with same box_run show ?thesis by simp
qed

text \<open>A pane that the strict decoder rejects and the lenient one recovers keeps its id, terminal and
  workspace, but its spawn intent is gone whatever was persisted: after a respawn an agent pane
  comes back as a plain shell.\<close>

theorem lenient_leaf_loses_command:
  assumes "dec_panelNode D raw = None" and "jstring (jfield raw ''_tag'') = Some ''LeafNode''"
    and "lenientDecodePanelNode D raw = Some n"
  shows "\<exists>l. n = LeafNode l \<and> leaf_command l = None \<and>
    jstring (jfield raw ''id'') = Some (leaf_id l) \<and>
    leaf_terminalId l = jstring (jfield raw ''terminalId'') \<and>
    leaf_workspaceId l = jstring (jfield raw ''workspaceId'')"
proof -
  have "isRecord raw" using assms by (auto split: if_splits)
  then have "lenientDecodeLeafNode raw = Some n" using assms by simp
  then show ?thesis by (auto simp: lenientDecodeLeafNode_def split: option.splits if_splits)
qed

theorem lenient_leaf_loses_command_witness:
  "\<exists>l. lenientDecodePanelNode
     \<lparr>dec_windowLayout = (\<lambda>j. None), dec_windowTab = (\<lambda>j. None), dec_tileNode = (\<lambda>j. None),
      dec_panelTab = (\<lambda>j. None), dec_panelNode = (\<lambda>j. None)\<rparr>
     (JObj [(''_tag'', JStr ''LeafNode''), (''id'', JStr ''p''), (''paneType'', JStr ''terminal''),
       (''command'', JStr ''opencode''), (''workspaceId'', JNull)]) = Some (LeafNode l)
     \<and> leaf_command l = None"
proof -
  let ?D = "\<lparr>dec_windowLayout = (\<lambda>j. None), dec_windowTab = (\<lambda>j. None), dec_tileNode = (\<lambda>j. None),
      dec_panelTab = (\<lambda>j. None), dec_panelNode = (\<lambda>j. None)\<rparr>"
  let ?raw = "JObj [(''_tag'', JStr ''LeafNode''), (''id'', JStr ''p''), (''paneType'', JStr ''terminal''),
      (''command'', JStr ''opencode''), (''workspaceId'', JNull)]"
  have d: "dec_panelNode ?D ?raw = None" and t: "jstring (jfield ?raw ''_tag'') = Some ''LeafNode''"
    by (simp_all add: jstring_def)
  have "lenientDecodePanelNode ?D ?raw \<noteq> None" by (simp add: jstring_def lenientDecodeLeafNode_def)
  then obtain n where n: "lenientDecodePanelNode ?D ?raw = Some n" by blast
  from lenient_leaf_loses_command [OF d t n] n show ?thesis by blast
qed

text \<open>Minimizing one of several workspaces whose shares add up to 100 and then expanding it with its
  remembered share gives every workspace the share it had.\<close>

theorem minimize_expand_restores:
  assumes "distinct ids" and "x \<in> set ids"
    and "\<forall>i\<in>set ids. map_of pre i = Some (f i) \<and> 0 \<le> f i" and "sum_list (map f ids) = 100"
    and "f x < 100" and "map_of post x = Some h" and "h < 100" and "lastShares x = Some (f x)"
  shows "\<forall>i\<in>set ids. map_of (computeMinimizedTargetLayout ids {} {x}
    (computeMinimizedTargetLayout ids {x} {} pre post shares) post' lastShares) i = Some (f i)"
proof
  fix i assume i: "i \<in> set ids"
  show "map_of (computeMinimizedTargetLayout ids {} {x}
    (computeMinimizedTargetLayout ids {x} {} pre post shares) post' lastShares) i = Some (f i)"
    by (rule minimize_restore [where f = f and h = h]) (fact assms i)+
qed

theorem minimize_expand_restores_witness:
  "map_of (computeMinimizedTargetLayout [''a'', ''b'', ''c''] {} {''a''}
    (computeMinimizedTargetLayout [''a'', ''b'', ''c''] {''a''} {}
      [(''a'', 50), (''b'', 20), (''c'', 30)] [(''a'', 4)] Map.empty) [] [''a'' \<mapsto> 50]) ''b'' = Some 20"
proof -
  let ?f = "\<lambda>i. if i = ''a'' then 50 else if i = ''b'' then 20 else (30 :: rat)"
  have "map_of (computeMinimizedTargetLayout [''a'', ''b'', ''c''] {} {''a''}
    (computeMinimizedTargetLayout [''a'', ''b'', ''c''] {''a''} {}
      [(''a'', 50), (''b'', 20), (''c'', 30)] [(''a'', 4)] Map.empty) [] [''a'' \<mapsto> 50]) ''b'' = Some (?f ''b'')"
    using minimize_expand_restores [of "[''a'', ''b'', ''c'']" "''a''"
        "[(''a'', 50), (''b'', 20), (''c'', 30)]" ?f "[(''a'', 4)]" 4 "[''a'' \<mapsto> 50]" Map.empty "[]"]
    by simp
  then show ?thesis by simp
qed

text \<open>Toggling hides the panel, and changes nothing else, exactly when it shows that kind of surface for
  that workspace; otherwise the panel shows that kind afterwards, and a second toggle hides it
  without losing a surface.\<close>

theorem toggle_shows_and_hides:
  assumes "w \<noteq> []"
  shows "if selectActiveRightPanel p (Some w) = Some (open_panel_kind kind)
    then toggle w kind p = p\<lparr>rp_isOpen := False\<rparr>
    else selectActiveRightPanel (toggle w kind p) (Some w) = Some (open_panel_kind kind) \<and>
      toggle w kind (toggle w kind p) = (toggle w kind p)\<lparr>rp_isOpen := False\<rparr>"
  using assms toggle_shows [OF assms] toggle_hides [OF assms] by simp

theorem toggle_shows_and_hides_witness:
  "selectActiveRightPanel used_panel (Some ''w'') = Some PreviewKind \<and>
   toggle ''w'' OpenPreview used_panel = used_panel\<lparr>rp_isOpen := False\<rparr>"
proof -
  have "selectActiveRightPanel used_panel (Some ''w'') = Some PreviewKind" by (rule used_panel_shows)
  with toggle_shows_and_hides [of "''w''" used_panel OpenPreview] show ?thesis by simp
qed

text \<open>The progressive close chain escalates from the inside out: it leaves the pane level only when the
  active panel tab has at most one pane, the panel-tab level only when the workspace has no
  active panel tab, the workspace level only when the tab shows at most one workspace (or
  nothing can take the focus), and it closes the app only when no window tab is active.\<close>

theorem progressive_close_order:
  assumes "a = computeProgressiveCloseAction layout p w"
  shows "(truthy p \<and> active_workspace_leaf layout w = Some leaf \<longrightarrow>
      (LevelPanelTab \<le> action_level a \<and> active_panel_of leaf = Some pt \<longrightarrow>
         countLeaves (pt_panelLayout pt) \<le> 1 \<and> a = ClosePanelTab (pt_id pt) (the w)) \<and>
      (LevelWorkspace \<le> action_level a \<longrightarrow> active_panel_of leaf = None)) \<and>
    (LevelWindowTab \<le> action_level a \<and> Option.bind layout getActiveWindowTab = Some tab \<longrightarrow>
      a = CloseWindowTab (wt_id tab) \<and>
      (tab_tile_count tab \<le> 1 \<or> (\<not> truthy p \<and> \<not> truthy (resolveActivePaneForWindowTab tab)))) \<and>
    (LevelApp \<le> action_level a \<longrightarrow> Option.bind layout getActiveWindowTab = None)"
proof (intro conjI impI)
  assume "truthy p \<and> active_workspace_leaf layout w = Some leaf"
    and "LevelPanelTab \<le> action_level a \<and> active_panel_of leaf = Some pt"
  then show "countLeaves (pt_panelLayout pt) \<le> 1" and "a = ClosePanelTab (pt_id pt) (the w)"
    using close_panel_level unfolding assms by blast+
next
  assume "truthy p \<and> active_workspace_leaf layout w = Some leaf"
    and "LevelWorkspace \<le> action_level a"
  then show "active_panel_of leaf = None" using close_workspace_level unfolding assms by blast
next
  assume "LevelWindowTab \<le> action_level a \<and> Option.bind layout getActiveWindowTab = Some tab"
  then show "a = CloseWindowTab (wt_id tab)"
    and "tab_tile_count tab \<le> 1 \<or> (\<not> truthy p \<and> \<not> truthy (resolveActivePaneForWindowTab tab))"
    using close_window_level unfolding assms by blast+
next
  assume "LevelApp \<le> action_level a"
  then show "Option.bind layout getActiveWindowTab = None"
    using close_app_level unfolding assms by simp
qed

theorem progressive_close_order_witness:
  "computeProgressiveCloseAction (Some sample_window) (Some ''e'') (Some ''w2'')
     = ClosePanelTab ''p3'' ''w2'' \<and>
   computeProgressiveCloseAction (Some sample_window) (Some ''b'') (Some ''w1'') = ClosePane ''b''"
proof -
  let ?tile = "sample_tile ''k2'' ''w2'' [sample_panel_tab ''p3'' (LeafNode (sample_leaf ''e'' ''t5''))]"
  let ?pt = "sample_panel_tab ''p3'' (LeafNode (sample_leaf ''e'' ''t5''))"
  have leaf: "active_workspace_leaf (Some sample_window) (Some ''w2'') = Some ?tile"
    by (simp add: active_workspace_leaf_def getActiveWindowTab_def sample_defs)
  have pt: "active_panel_of ?tile = Some ?pt" by (simp add: active_panel_of_def sample_defs)
  have "LevelPanelTab \<le> action_level
      (computeProgressiveCloseAction (Some sample_window) (Some ''e'') (Some ''w2''))"
    by (simp add: computeProgressiveCloseAction_def getActiveWindowTab_def
        resolveLastPaneCloseAction_def sample_defs)
  then have "computeProgressiveCloseAction (Some sample_window) (Some ''e'') (Some ''w2'')
      = ClosePanelTab (pt_id ?pt) (the (Some ''w2''))"
    using progressive_close_order [OF refl, where layout = "Some sample_window" and p = "Some ''e''"
          and w = "Some ''w2''" and leaf = ?tile and pt = ?pt]
      leaf pt by simp
  then show ?thesis
    by (simp add: computeProgressiveCloseAction_def [of _ "Some ''b''"] getActiveWindowTab_def sample_defs)
qed

text \<open>The ids that a run of \<open>generateId\<close> calls returns, with any prefixes, are pairwise different and
  none is in a set of ids that the generator can no longer return; afterwards the old and the
  new ids together are such a set. Suffixes without a dash are what base-36 digits are.\<close>

theorem generated_ids_unique:
  assumes "dash_free s" and "settled s I" and "mapS generateId ps s = (ids, s')"
  shows "distinct ids \<and> set ids \<inter> I = {} \<and> settled s' (I \<union> set ids) \<and> dash_free s'"
  using issue_settled [OF assms(1,2)] assms(3) by (simp add: issue_def)

theorem generated_ids_unique_witness:
  "distinct (fst (mapS generateId [''pane'', ''split'', ''pane''] sample_ids))
   \<and> set (fst (mapS generateId [''pane'', ''split'', ''pane''] sample_ids)) \<inter> {''root''} = {}"
proof -
  have "settled sample_ids {''root''}" by (rule sample_ids_settled) simp
  from generated_ids_unique [OF sample_ids_dash_free this prod.collapse [symmetric]]
  show ?thesis by blast
qed

text \<open>In a well-formed tree with more than one pane, the pane that gets the focus when \<open>p\<close> is closed
  exists, is another pane, and is still there after the close.\<close>

theorem close_moves_focus:
  assumes "wf_panel n" and "distinct (panel_ids n)" and "[] \<notin> set (panel_ids n)"
    and "p \<in> set (getLeafIds n)" and "1 < countLeaves n"
  shows "\<exists>q n'. findSiblingPaneId n p = Some q \<and> q \<noteq> p \<and> closePane n p = Some n' \<and>
    containsPane n' q"
proof -
  have d: "distinct (getLeafIds n)" by (rule distinct_ids_leaves [OF assms(2)])
  have e: "[] \<notin> set (getLeafIds n)" using assms(3) getLeafIds_subset_ids by blast
  have "\<not> isLeafWith p n" using assms(5) by (auto simp: isLeafWith_iff)
  from findSiblingPaneId_ok [OF assms(1) d e assms(4) this]
  obtain q where q: "findSiblingPaneId n p = Some q" "q \<noteq> p" "q \<in> set (getLeafIds n)" by blast
  then have mem: "q \<in> set (opt_leaf_ids (closePane n p))"
    using d by (simp add: closePane_leaves)
  then obtain n' where "closePane n p = Some n'" by (cases "closePane n p") auto
  with q mem show ?thesis by (simp add: containsPane_iff)
qed

theorem close_moves_focus_witness:
  "\<exists>q n'. findSiblingPaneId sample_panel ''b'' = Some q \<and> q \<noteq> ''b'' \<and>
     closePane sample_panel ''b'' = Some n' \<and> containsPane n' q"
  by (rule close_moves_focus [OF sample_panel_wf])
    (simp_all add: sample_panel_ids sample_panel_leaf_ids countLeaves_eq)

text \<open>Directional navigation by a path and a loop over indices is the recursive search for the nearest
  ancestor split of the right orientation with a neighbour on that side, and the pane it
  returns comes after the active pane in reading order for right and down, before it for left
  and up.\<close>

theorem navigation_finds_neighbour:
  assumes "wf_panel n" and "distinct (panel_ids n)" and "[] \<notin> set (panel_ids n)"
    and "a \<in> set (getLeafIds n)"
  shows "findPaneInDirection n a dir = nav_ref n a (nav_orientation dir) (nav_delta dir) \<and>
    (\<forall>q. findPaneInDirection n a dir = Some q \<longrightarrow>
       (\<exists>xs ys zs. getLeafIds n =
          (if nav_delta dir = 1 then xs @ a # ys @ q # zs else xs @ q # ys @ a # zs)))"
proof -
  have eq: "findPaneInDirection n a dir = nav_ref n a (nav_orientation dir) (nav_delta dir)"
    by (rule findPaneInDirection_ref [OF assms(2-4)])
  have "nav_delta dir = 1 \<or> nav_delta dir = -1" by (simp add: nav_delta_def)
  with eq nav_ref_order [OF assms(1)] show ?thesis by metis
qed

theorem navigation_finds_neighbour_witness:
  "findPaneInDirection sample_panel ''b'' NavLeft = Some ''a'' \<and>
   (\<exists>xs ys zs. getLeafIds sample_panel = xs @ ''a'' # ys @ ''b'' # zs)"
proof -
  have h: "distinct (panel_ids sample_panel)" "[] \<notin> set (panel_ids sample_panel)"
    "''b'' \<in> set (getLeafIds sample_panel)"
    by (simp_all add: sample_panel_ids sample_panel_leaf_ids)
  note N = navigation_finds_neighbour [OF sample_panel_wf h, of NavLeft]
  have "findPaneInDirection sample_panel ''b'' NavLeft = Some ''a''"
    using N by (simp add: sample_panel_defs nav_orientation_def nav_delta_def)
  with N show ?thesis by (simp add: nav_delta_def)
qed

text \<open>After the last sample with an agent, samples without one leave the status as it is until the
  configured number of them has come in a row; that sample always ends the hook's authority and
  shows the agent idle, or clears the status when another program runs in the terminal.\<close>

theorem absent_agent_confirmed:
  assumes "se_snapshot e \<noteq> None" and "se_downwardSamples e = 0"
    and "list_all agentless smps" and "agentless smp"
    and "Suc (length smps) = se_downwardConfirmations e"
  shows "shown (fold engine_sample smps e) = shown e \<and>
    se_hookAuthority (fold engine_sample (smps @ [smp]) e) = None \<and>
    (if ps_hasNonAgentProcess smp = Some True
     then se_snapshot (fold engine_sample (smps @ [smp]) e) = None
     else \<exists>s. se_snapshot (fold engine_sample (smps @ [smp]) e) = Some s \<and>
       ss_status s = Idle \<and> ss_source s = Ps)"
  using samples_wait [OF assms(3,1)] sample_confirms [OF assms(4), of "fold engine_sample smps e"]
    assms(2,5) by simp

theorem absent_agent_confirmed_witness:
  "shown (fold engine_sample [empty_sample 1, empty_sample 2] working_engine) = shown working_engine \<and>
   map_option ss_status (se_snapshot
     (fold engine_sample ([empty_sample 1, empty_sample 2] @ [empty_sample 3]) working_engine)) = Some Idle"
proof -
  have "se_snapshot working_engine \<noteq> None" "se_downwardSamples working_engine = 0"
    "list_all agentless [empty_sample 1, empty_sample 2]" "agentless (empty_sample 3)"
    "Suc (length [empty_sample 1, empty_sample 2]) = se_downwardConfirmations working_engine"
    by (simp_all add: working_engine_fields agentless_def empty_sample_def)
  from absent_agent_confirmed [OF this] show ?thesis by (auto simp: empty_sample_def)
qed

text \<open>With a bound of at least four bytes, splitting never fails: the chunks are non-empty, none is
  longer than the bound when encoded, they concatenate to the data, and the code points of the
  chunks are the code points of the data, so that no surrogate pair is cut.\<close>

theorem split_reassembles:
  assumes "4 \<le> maximumBytes"
  shows "\<exists>chunks. splitByUtf8Bytes data maximumBytes = Inr chunks \<and> concat chunks = data \<and>
    list_all (\<lambda>c. c \<noteq> [] \<and> utf8Bytes c \<le> maximumBytes) chunks \<and>
    concat (map code_points chunks) = code_points data"
  using splitByUtf8Bytes_total [OF assms, of data] splitByUtf8Bytes_cases [of data maximumBytes]
  by auto

theorem split_reassembles_witness:
  "(\<exists>chunks. splitByUtf8Bytes [box, 0xD83D, 0xDE00, box] 6 = Inr chunks \<and>
      concat chunks = [box, 0xD83D, 0xDE00, box] \<and>
      list_all (\<lambda>c. c \<noteq> [] \<and> utf8Bytes c \<le> 6) chunks \<and>
      concat (map code_points chunks) = code_points [box, 0xD83D, 0xDE00, box])
   \<and> splitByUtf8Bytes [box, 0xD83D, 0xDE00, box] 6 = Inr [[box], [0xD83D, 0xDE00], [box]]"
proof (rule conjI)
  show "\<exists>chunks. splitByUtf8Bytes [box, 0xD83D, 0xDE00, box] 6 = Inr chunks \<and>
      concat chunks = [box, 0xD83D, 0xDE00, box] \<and>
      list_all (\<lambda>c. c \<noteq> [] \<and> utf8Bytes c \<le> 6) chunks \<and>
      concat (map code_points chunks) = code_points [box, 0xD83D, 0xDE00, box]"
    by (rule split_reassembles) simp
  show "splitByUtf8Bytes [box, 0xD83D, 0xDE00, box] 6 = Inr [[box], [0xD83D, 0xDE00], [box]]"
    by code_simp
qed

text \<open>The clean-up keeps every tile, in reading order, in columns whose heights differ by at most one;
  there are between one column and as many as the content width allows, and when the width
  allows the columns the height asks for, no column has more than four rows.\<close>

theorem cleanUp_balances_columns:
  assumes "wf_tab tab" and "wt_workspaceLayout tab = Some n"
    and "k = computeCleanUpColumnCount (length (tab_leaves tab)) area w h"
    and "r = fst (cleanUpWorkspaceTiles tab area w h s)"
  shows "tab_leaves r = tab_leaves tab \<and> wf_tab r \<and>
    length (tab_arrangement r) = k \<and> 1 \<le> k \<and>
    int k \<le> max 1 \<lfloor>usableSize (area_widthPx area) w / w\<rfloor> \<and>
    (\<forall>c\<in>set (tab_arrangement r).
       length c = length (tab_leaves tab) div k \<or> length c = Suc (length (tab_leaves tab) div k)) \<and>
    (\<lceil>(of_nat (length (tab_leaves tab)) :: rat) / of_int (rows_per_column area h)\<rceil>
       \<le> max 1 \<lfloor>usableSize (area_widthPx area) w / w\<rfloor> \<longrightarrow>
     (\<forall>c\<in>set (tab_arrangement r). length c \<le> 4))"
proof -
  have len: "tab_leaves tab = getWorkspaceTileLeaves n" using assms(2) by (simp add: tab_leaves_def)
  have wf: "wf_tile n" using assms(1,2) by (simp add: wf_tab_def)
  show ?thesis
    unfolding len by (rule cleanUp_facts [OF assms(2) wf assms(3) [unfolded len] assms(4)])
qed

theorem cleanUp_balances_columns_witness:
  "\<exists>r. r = fst (cleanUpWorkspaceTiles sample_tab
         \<lparr>area_heightPx = Some 800, area_widthPx = Some 1200\<rparr> 500 352 sample_ids) \<and>
     tab_leaves r = tab_leaves sample_tab \<and> list_all (\<lambda>c. length c \<le> 4) (tab_arrangement r)"
proof -
  let ?area = "\<lparr>area_heightPx = Some (800 :: rat), area_widthPx = Some 1200\<rparr>"
  have n: "wt_workspaceLayout sample_tab = Some sample_tiles" by (simp add: sample_tab_def)
  have len: "length (tab_leaves sample_tab) = 3" by (simp add: tab_leaves_def sample_defs)
  have floors: "\<lfloor>25 / 11 :: rat\<rfloor> = 2" "\<lfloor>12 / 5 :: rat\<rfloor> = 2" "\<lceil>3 / 2 :: rat\<rceil> = 2"
    by (simp_all add: floor_eq_iff ceiling_eq_iff)
  have "\<lceil>(of_nat (length (tab_leaves sample_tab)) :: rat) / of_int (rows_per_column ?area 352)\<rceil>
      \<le> max 1 \<lfloor>usableSize (area_widthPx ?area) 500 / 500\<rfloor>"
    by (simp add: len rows_per_column_def usableSize_def MAX_WORKSPACE_ROWS_PER_COLUMN_def floors)
  with cleanUp_balances_columns [OF sample_tab_wf n refl refl, of ?area 500 352 sample_ids]
  show ?thesis unfolding list_all_iff by blast
qed

text \<open>Dropping the workspace \<open>source\<close> on an edge of the frame of \<open>target\<close> keeps every tile with its
  panel tabs, keeps the tile tree well formed, and leaves the source on the requested side of
  the target: right above or below it in its column, or in a column of its own beside it.\<close>

theorem drop_places_workspace:
  assumes "wf_tab tab" and "distinct (tab_workspaces tab)"
    and "r = fst (moveWorkspaceTileToEdge tab source target e s)"
  shows "mset (tab_leaves r) = mset (tab_leaves tab) \<and> wf_tab r \<and>
    (source \<noteq> target \<and> source \<in> set (tab_workspaces tab) \<and> target \<in> set (tab_workspaces tab) \<longrightarrow>
       placed_at e source target (tab_arrangement r))"
  unfolding assms(3)
  using moveToEdge_mset [OF assms(2)] moveToEdge_wf [OF assms(1)] moveToEdge_placed [OF assms(2)]
  by blast

theorem drop_places_workspace_witness:
  "placed_at EdgeLeft ''w3'' ''w1''
     (tab_arrangement (fst (moveWorkspaceTileToEdge sample_tab ''w3'' ''w1'' EdgeLeft sample_ids)))"
proof -
  have "distinct (tab_workspaces sample_tab)" by (simp add: sample_tab_leaves)
  from drop_places_workspace [OF sample_tab_wf this refl, of "''w3''" "''w1''" EdgeLeft sample_ids]
  have "''w3'' \<in> set (tab_workspaces sample_tab) \<and> ''w1'' \<in> set (tab_workspaces sample_tab) \<longrightarrow> ?thesis"
    by auto
  then show ?thesis by (simp add: sample_tab_leaves del: placed_at.simps)
qed

text \<open>Closing a terminal removes the pane that shows it, whether it is alone in its panel tab or
  part of a split, and keeps every other pane of the window unchanged and in order.\<close>

theorem closeTerminal_removes_one_pane:
  assumes "window_panes_ok layout"
    and "length (filter (shows_terminal t) (window_panes layout)) \<le> 1"
  shows "window_panes (closeTerminalInWindowLayout layout t)
       = filter (\<lambda>l. \<not> shows_terminal t l) (window_panes layout)"
  by (rule closeTerminal_panes [OF assms])

theorem closeTerminal_removes_one_pane_witness:
  "map leaf_id (window_panes (closeTerminalInWindowLayout sample_window ''t2''))
     = [''a'', ''c'', ''d'', ''e'']"
proof -
  have ok: "window_panes_ok sample_window"
    by (simp add: window_panes_ok_def window_panes_def tile_panes_def getAllWorkspaceTileLeaves_def
        sample_defs)
  have "length (filter (shows_terminal ''t2'') (window_panes sample_window)) \<le> 1"
    by (simp add: shows_terminal_def window_panes_def tile_panes_def getAllWorkspaceTileLeaves_def
        sample_defs)
  note R = closeTerminal_removes_one_pane [OF ok this]
  show ?thesis
    unfolding R by (simp add: shows_terminal_def window_panes_def tile_panes_def
        getAllWorkspaceTileLeaves_def sample_defs)
qed

text \<open>In a reachable state, a click that matches a posted question whose record is pending, unclaimed and
  not expired is claimed, and when its completion has run the agent has the option of the button.\<close>

theorem click_in_time_answers:
  assumes "broker_reachable dg stored (h, s)" and "unique_ids stored"
    and "map_of (pb_byCapability s) (in_capability i) = Some ref" and "pb_heap s ref = Some p"
    and "interactionMatchesPermission i p (pb_activeTurns s (pa_sessionId (lp_authority p)))"
    and "decisionForInteraction i p = Some d"
    and "find_record (lp_recordId p) (pb_records s) = Some r"
    and "ar_state r = Pending \<and> ar_decisionIntent r = None \<and> authorityRecordMatches dg (Some now) p r"
    and "pb_completions s (lp_recordId p) = None \<and> pb_decisions s ref = None"
  shows "\<exists>s'. claimInteraction dg TxnOk reread TxnOk reread' now i s = (Claimed, s') \<and>
    pb_decisions (finish_completion (lp_recordId p) s') ref = Some (SelectedOutcome (de_optionId d))"
proof -
  have b: "within_bounds (pb_records s)" using reachable_bounds [OF assms(1)] by simp
  have "broker_inv True h s" using broker_inv_reachable [OF assms(1), of True] assms(2) by simp
  from click_answers [OF b inv_unique [OF this] assms(3-7), where dg = dg and now = now and reread = reread and reread' = reread'] assms(8,9)
  show ?thesis by simp
qed

theorem click_in_time_answers_witness:
  "\<exists>s'. claimInteraction plain TxnOk True TxnOk True 20 click posted = (Claimed, s') \<and>
    pb_decisions (finish_completion question_id s') 0 = Some (SelectedOutcome ''a'')"
proof -
  obtain p where p: "pb_heap posted 0 = Some p" "lp_recordId p = question_id" "lp_allowOptionId p = ''a''"
    using posted_object by (auto simp: option.map_sel)
  obtain r where r: "find_record (lp_recordId p) (pb_records posted) = Some r"
    "ar_state r = Pending \<and> ar_decisionIntent r = None \<and> authorityRecordMatches plain (Some 20) p r"
    using posted_record p(1) by (auto split: option.splits)
  have m: "interactionMatchesPermission click p (pb_activeTurns posted (pa_sessionId (lp_authority p)))"
    "decisionForInteraction click p = Some \<lparr>de_intent = Allow, de_optionId = ''a'', de_state = Allowed\<rparr>"
    using posted_matches p by (auto simp: decisionForInteraction_def click_def)
  have idle: "pb_completions posted (lp_recordId p) = None \<and> pb_decisions posted 0 = None"
    using posted_idle p(2) by simp
  from click_in_time_answers [OF posted_reachable _ posted_capability p(1) m r idle] p(2)
  show ?thesis by simp
qed

text \<open>Recording a reviewed head in a body and reading the reviewed head back gives the recorded one,
  whatever markers the body had before, unless removing them brings a new one about.\<close>

theorem reviewed_head_reads_back:
  assumes "recordReviewedHead body sha = Inr body'"
    and "match_all match_reviewed (trimEnd (remove_all match_reviewed body)) = []"
  shows "reviewedHeadFromBody body' = Inr (Some sha)"
  using assms by (rule recordReviewedHead_reads_back)

theorem reviewed_head_reads_back_witness:
  "reviewedHeadFromBody (case recordReviewedHead spec_body sha40 of Inr b \<Rightarrow> b | Inl _ \<Rightarrow> []) = Inr (Some sha40)"
proof -
  obtain b where b: "recordReviewedHead spec_body sha40 = Inr b"
    by (cases "recordReviewedHead spec_body sha40") (use spec_body_records in auto)
  from reviewed_head_reads_back [OF b spec_body_clean] b show ?thesis by simp
qed

text \<open>For workspaces with distinct non-empty ids, the path computed for a workspace is the path from a
  root of the tree to it: it ends with the workspace, starts with a root, and each step goes
  from a parent to its child, although the two functions resolve parents and cycles separately.\<close>

theorem workspace_path_agrees_with_tree:
  assumes "distinct (map wi_id ws)" and "[] \<notin> wi_id ` set ws" and "i < length ws"
  shows "\<exists>js. buildWorkspacePath ws (wi_id (ws ! i)) = Some (map ((!) ws) (rev (i # js))) \<and>
    up_path ws (i # js)"
  using assms by (rule buildWorkspacePath_up)

theorem workspace_path_agrees_with_tree_witness:
  "(\<exists>js. buildWorkspacePath family (wi_id (family ! 2)) = Some (map ((!) family) (rev (2 # js))) \<and>
      up_path family (2 # js)) \<and>
   buildWorkspacePath family ''c'' = Some [sample_ws ''a'' None, sample_ws ''b'' (Some ''a''), sample_ws ''c'' (Some ''b'')] \<and>
   buildWorkspacePath family ''d'' = Some [sample_ws ''d'' (Some ''e'')]"
proof (intro conjI)
  show "\<exists>js. buildWorkspacePath family (wi_id (family ! 2)) = Some (map ((!) family) (rev (2 # js))) \<and>
      up_path family (2 # js)"
    by (rule workspace_path_agrees_with_tree [OF family_ok]) (simp add: family_def)
qed code_simp+

text \<open>A keyboard resize is computed at a split whose orientation matches the key: it moves one step
  between the child that holds the active pane and its neighbour on that side, leaves the other
  sizes and the sum alone, and keeps both at least at the minimum.\<close>

theorem resize_shifts_one_step:
  assumes "wf_panel n" and "distinct (panel_ids n)" and "computeResize n a dir = Some (sid, m)"
  shows "\<exists>d cs sz k j delta. SplitNode sid d cs sz \<in> set (subnodes n)
    \<and> k < length cs \<and> a \<in> set (panel_ids (cs ! k))
    \<and> getResizeDelta dir d = Some delta
    \<and> j < length cs \<and> int j = (if 0 < delta then int k + 1 else int k - 1)
    \<and> map (\<lambda>c. m (panel_node_id c)) cs = map Some (resized sz k j delta)
    \<and> sum_list (resized sz k j delta) = sum_list sz
    \<and> MIN_PANE_SIZE \<le> sz ! k + delta \<and> MIN_PANE_SIZE \<le> sz ! j - delta"
  by (rule computeResize_effect [OF assms])

theorem resize_shifts_one_step_witness:
  "\<exists>d cs sz k j delta m. computeResize sample_panel ''b'' NavDown = Some (''s2'', m)
    \<and> SplitNode ''s2'' d cs sz \<in> set (subnodes sample_panel)
    \<and> map (\<lambda>c. m (panel_node_id c)) cs = map Some (resized sz k j delta)"
proof -
  have d: "distinct (panel_ids sample_panel)" by (simp add: sample_panel_ids)
  have "map_option fst (computeResize sample_panel ''b'' NavDown) = Some ''s2''"
    by code_simp
  then obtain m where m: "computeResize sample_panel ''b'' NavDown = Some (''s2'', m)" by auto
  from resize_shifts_one_step [OF sample_panel_wf d m] m show ?thesis by blast
qed

text \<open>However often process inspection fails, the status, its source, its time and whether it was seen
  stay as they were; the snapshot is marked stale only when the configured time has passed
  between the first failure and a later one.\<close>

theorem detection_failures_keep_status:
  "shown (fold engine_unavailable (t # ts) e) = shown e \<and>
   (se_firstFailureAt e = None \<and> (\<forall>u\<in>set ts. u - t < se_staleAfterMs e) \<and> 0 < se_staleAfterMs e \<longrightarrow>
      se_snapshot (fold engine_unavailable (t # ts) e) = se_snapshot e)"
  using unavailable_runs_shown [of "t # ts" e] unavailable_not_stale [of e ts t] by blast

theorem detection_failures_keep_status_witness:
  "shown (fold engine_unavailable [0, 10000, 20000] working_engine) = shown working_engine \<and>
   se_snapshot (fold engine_unavailable [0, 5000, 9999] working_engine) = se_snapshot working_engine \<and>
   map_option ss_stale (se_snapshot (fold engine_unavailable [0, 10000] working_engine)) = Some True"
proof -
  have "se_firstFailureAt working_engine = None \<and>
      (\<forall>u\<in>set [5000, 9999]. u - 0 < se_staleAfterMs working_engine) \<and> 0 < se_staleAfterMs working_engine"
    by (simp add: working_engine_fields)
  then have "se_snapshot (fold engine_unavailable [0, 5000, 9999] working_engine) = se_snapshot working_engine"
    using detection_failures_keep_status [of 0 "[5000, 9999]" working_engine] by blast
  moreover have "shown (fold engine_unavailable [0, 10000, 20000] working_engine) = shown working_engine"
    using detection_failures_keep_status [of 0 "[10000, 20000]" working_engine] by blast
  moreover have "map_option ss_stale (se_snapshot (fold engine_unavailable [0, 10000] working_engine)) = Some True"
    by code_simp
  ultimately show ?thesis by blast
qed

text \<open>Every run of the window tab commands, whatever their arguments, keeps the tab ids unique and the
  active id pointing at a tab; \<open>getActiveWindowTab\<close> finds it as long as there is a tab.\<close>

theorem window_tabs_stay_valid:
  assumes "window_tab_step\<^sup>*\<^sup>* w w'" and "window_strip_valid w"
  shows "distinct (map wt_id (wl_tabs w')) \<and> (wl_tabs w' = [] \<longleftrightarrow> wl_activeTabId w' = None) \<and>
    (wl_tabs w' \<noteq> [] \<longrightarrow>
       (\<exists>t\<in>set (wl_tabs w'). getActiveWindowTab w' = Some t \<and> wl_activeTabId w' = Some (wt_id t)))"
proof -
  have v: "strip_valid wt_id (wl_tabs w') (wl_activeTabId w')"
    using window_tab_steps_valid [OF assms] by (simp add: window_strip_valid_def)
  then have "distinct (map wt_id (wl_tabs w')) \<and> (wl_tabs w' = [] \<longleftrightarrow> wl_activeTabId w' = None)"
    by (auto simp: strip_valid_def split: option.splits)
  then show ?thesis using strip_valid_find [OF v] unfolding getActiveWindowTab_def by blast
qed

theorem window_tabs_stay_valid_witness:
  "distinct (map wt_id (wl_tabs (reorderWindowTabs (removeWindowTab sample_window ''v1'') 0 0)))
   \<and> getActiveWindowTab (reorderWindowTabs (removeWindowTab sample_window ''v1'') 0 0) \<noteq> None"
proof -
  let ?w = "reorderWindowTabs (removeWindowTab sample_window ''v1'') 0 0"
  have "window_tab_step\<^sup>*\<^sup>* sample_window ?w"
    by (rule rtranclp.rtrancl_into_rtrancl, rule r_into_rtranclp, rule window_tab_step.remove)
      (rule window_tab_step.reorder)
  moreover have "window_strip_valid sample_window"
    by (simp add: window_strip_valid_def strip_valid_def sample_window_def sample_tab_def
        sample_empty_tab_def)
  ultimately have V: "distinct (map wt_id (wl_tabs ?w)) \<and>
      (wl_tabs ?w = [] \<longleftrightarrow> wl_activeTabId ?w = None) \<and>
      (wl_tabs ?w \<noteq> [] \<longrightarrow> (\<exists>t\<in>set (wl_tabs ?w). getActiveWindowTab ?w = Some t \<and>
         wl_activeTabId ?w = Some (wt_id t)))"
    by (rule window_tabs_stay_valid)
  moreover have "wl_tabs ?w \<noteq> []"
    by (simp add: reorderWindowTabs_def Let_def removeWindowTab_tabs sample_window_tabs)
  ultimately show ?thesis by force
qed

text \<open>A retried operation makes at least one and at most one more call than its retries, with delays that
  double from the base delay, in total at most the base delay times \<open>2 ^ maxRetries - 1\<close>; a
  whole respawn makes at most that many calls per stale leaf.\<close>

theorem retries_are_bounded:
  assumes "retryOnInitializing fn options (0, []) = (r, calls, delays)" and "0 \<le> base_delay options"
  shows "1 \<le> calls \<and> calls \<le> max_retries options + 1 \<and>
    sum_list delays \<le> base_delay options * (2 ^ max_retries options - 1) \<and>
    rs_calls (snd (snd (respawnStaleTerminals spawn options live leaves)))
      \<le> length leaves * (max_retries options + 1)"
proof -
  obtain k where k: "k \<le> max_retries options" "calls = Suc k"
    "delays = map (\<lambda>i. base_delay options * 2 ^ i) [0..<k]"
    using retryOnInitializing_bounds [OF assms(1)] by auto
  have "sum_list delays = base_delay options * (2 ^ k - 1)" unfolding k(3) by (rule geometric_delays)
  also have "\<dots> \<le> base_delay options * (2 ^ max_retries options - 1)"
    by (rule mult_left_mono) (use k(1) assms(2) in \<open>simp_all add: power_increasing\<close>)
  finally show ?thesis
    using k(1,2) respawn_calls [of spawn options leaves respawn_start]
    by (simp add: respawnStaleTerminals_def Let_def)
qed

theorem retries_are_bounded_witness:
  "retryOnInitializing (\<lambda>n. busy_server n \<lparr>sp_command = None, sp_workspaceId = ''w''\<rparr>) two_retries (0, [])
     = (Some \<lparr>sr_command = ''sh'', sr_id = ''new'', sr_status = ''running''\<rparr>, 2, [500]) \<and>
   sum_list [500] \<le> (500 :: rat) * (2 ^ 2 - 1)"
proof -
  have "retryOnInitializing (\<lambda>n. busy_server n \<lparr>sp_command = None, sp_workspaceId = ''w''\<rparr>) two_retries (0, [])
     = (Some \<lparr>sr_command = ''sh'', sr_id = ''new'', sr_status = ''running''\<rparr>, 2, [500])"
    by (simp add: retryOnInitializing_def two_retries_def retry_loop.simps busy_server_def isInitializing_def)
  moreover have "base_delay two_retries = 500" "max_retries two_retries = 2"
    by (simp_all add: two_retries_def base_delay_def max_retries_def)
  ultimately show ?thesis using retries_are_bounded [of "\<lambda>n. busy_server n \<lparr>sp_command = None, sp_workspaceId = ''w''\<rparr>" two_retries] by simp
qed

text \<open>Closing the active window tab activates its right neighbour, or its left one when it was the
  last tab; closing another tab leaves the active one alone, and only that tab is removed.\<close>

theorem close_active_tab_neighbour:
  assumes "window_strip_valid w" and "2 \<le> length (wl_tabs w)" and "k < length (wl_tabs w)"
  shows "wl_tabs (removeWindowTab w (wt_id (wl_tabs w ! k)))
      = filter (\<lambda>t. wt_id t \<noteq> wt_id (wl_tabs w ! k)) (wl_tabs w) \<and>
    wl_activeTabId (removeWindowTab w (wt_id (wl_tabs w ! k))) =
      (if wl_activeTabId w = Some (wt_id (wl_tabs w ! k))
       then Some (wt_id (wl_tabs w ! (if Suc k < length (wl_tabs w) then Suc k else k - 1)))
       else wl_activeTabId w)"
proof -
  have v: "window_strip.valid w" using assms(1) by (simp add: window_strip_valid_def window_strip.valid_def)
  then have "distinct (map wt_id (wl_tabs w))" by (simp add: window_strip.valid_def strip_valid_def)
  then have "filter (\<lambda>t. wt_id t \<noteq> wt_id (wl_tabs w ! k)) (wl_tabs w) \<noteq> []"
    by (rule two_ids [OF _ assms(2)])
  then show ?thesis
    using window_strip.remove_neighbour [OF v assms(3,2)] window_strip.remove_other
    by (simp add: removeWindowTab_tabs)
qed

theorem close_active_tab_neighbour_witness:
  "wl_activeTabId (removeWindowTab sample_window ''v1'') = Some ''v2''"
proof -
  have v: "window_strip_valid sample_window"
    by (simp add: window_strip_valid_def strip_valid_def sample_window_def sample_tab_def
        sample_empty_tab_def)
  have l: "2 \<le> length (wl_tabs sample_window)" "0 < length (wl_tabs sample_window)"
    by (simp_all add: sample_window_tabs)
  have a: "wl_activeTabId sample_window = Some ''v1''" by (simp add: sample_window_def)
  from close_active_tab_neighbour [OF v l] show ?thesis
    by (simp add: sample_window_tabs a)
qed

text \<open>Moving a workspace below another one of the tab puts its tile right after the other one in
  reading order, in the same column or from another one, keeps every tile with its panel tabs
  and keeps the tile tree well formed.\<close>

theorem move_below_places_workspace:
  assumes "wf_tab tab" and "distinct (tab_workspaces tab)" and "source \<noteq> parent"
    and "source \<in> set (tab_workspaces tab)" and "parent \<in> set (tab_workspaces tab)"
    and "moveWorkspaceTileBelow tab source parent s = (r, s')"
  shows "mset (tab_leaves r) = mset (tab_leaves tab) \<and> wf_tab r \<and>
    (\<exists>xs ys. tab_workspaces r = xs @ parent # source # ys)"
  using moveWorkspaceTileBelow_mset [OF assms(2), of source parent s]
    moveWorkspaceTileBelow_wf [OF assms(1), of source parent s]
    moveWorkspaceTileBelow_adjacent [OF assms(2-5), of s] assms(6)
  by simp

theorem move_below_places_workspace_witness:
  "\<exists>xs ys. tab_workspaces (fst (moveWorkspaceTileBelow sample_tab ''w3'' ''w1'' sample_ids))
     = xs @ ''w1'' # ''w3'' # ys"
proof -
  have h: "distinct (tab_workspaces sample_tab)" "''w3'' \<noteq> ''w1''"
    "''w3'' \<in> set (tab_workspaces sample_tab)" "''w1'' \<in> set (tab_workspaces sample_tab)"
    by (simp_all add: sample_tab_leaves)
  from move_below_places_workspace [OF sample_tab_wf h prod.collapse [symmetric]] show ?thesis by blast
qed

text \<open>When \<open>decodeWindowLayout\<close> does not report a repair, the layout it returns is the strictly decoded
  one; a strictly decoded layout comes back unreported exactly when the repair leaves it alone,
  and its panes are kept in any case.\<close>

theorem decode_unrepaired_is_strict:
  "(rr_wasRepaired (decodeWindowLayout D input)
      \<or> rr_windowLayout (decodeWindowLayout D input) = dec_windowLayout D input) \<and>
   (\<forall>l. dec_windowLayout D input = Some l \<longrightarrow>
      (rr_wasRepaired (decodeWindowLayout D input) \<longleftrightarrow> repairTransforms l \<noteq> l))"
proof -
  have "rr_wasRepaired (decodeWindowLayout D input) \<longleftrightarrow> repairTransforms l \<noteq> l"
    if "dec_windowLayout D input = Some l" for l
    using that by (auto simp: decodeWindowLayout_def Let_def deepEqual_def)
  with decode_not_repaired show ?thesis by blast
qed

theorem decode_unrepaired_is_strict_witness:
  "\<not> rr_wasRepaired (decodeWindowLayout
       \<lparr>dec_windowLayout = (\<lambda>j. Some \<lparr>wl_activeTabId = Some ''v2'', wl_tabs = [sample_empty_tab]\<rparr>),
        dec_windowTab = (\<lambda>j. None), dec_tileNode = (\<lambda>j. None), dec_panelTab = (\<lambda>j. None),
        dec_panelNode = (\<lambda>j. None)\<rparr> JNull)"
proof -
  let ?l = "\<lparr>wl_activeTabId = Some ''v2'', wl_tabs = [sample_empty_tab]\<rparr>"
  let ?D = "\<lparr>dec_windowLayout = (\<lambda>j. Some ?l), dec_windowTab = (\<lambda>j. None),
      dec_tileNode = (\<lambda>j. None), dec_panelTab = (\<lambda>j. None), dec_panelNode = (\<lambda>j. None)\<rparr>"
  have "repairTransforms ?l = ?l"
    by (simp add: repairTransforms_def repairWindowTabTransform_def resolveActiveTabId_def
        sample_empty_tab_def)
  with decode_unrepaired_is_strict [of ?D JNull] show ?thesis by simp
qed

text \<open>Adding a workspace to a tab inserts one fresh tile without panel tabs and keeps all other tiles
  in order; when the workspace to place it below is open in the tab, the new tile comes right
  after it. The tile tree stays well formed.\<close>

theorem add_workspace_keeps_tiles:
  assumes "wf_tab tab" and "distinct (tab_workspaces tab)"
    and "addWorkspaceToTab tab w below s = (tab', s')"
  shows "wf_tab tab' \<and> (\<exists>xs ys new. tab_leaves tab = xs @ ys \<and> tab_leaves tab' = xs @ new # ys \<and>
    tl_workspaceId new = w \<and> tl_panelTabs new = [] \<and>
    (\<forall>b. below = Some b \<and> b \<in> set (tab_workspaces tab) \<longrightarrow>
       xs \<noteq> [] \<and> tl_workspaceId (last xs) = b))"
proof -
  obtain xs ys u where "tab_leaves tab = xs @ ys"
    "tab_leaves tab' = xs @ fst (createWorkspaceTileLeaf w u) # ys"
    "\<forall>b. below = Some b \<and> b \<in> set (tab_workspaces tab) \<longrightarrow>
       xs \<noteq> [] \<and> tl_workspaceId (last xs) = b"
    using addWorkspaceToTab_leaves [OF assms(1,2), of w below s] assms(3) by auto
  moreover have "wf_tab tab'" using addWorkspaceToTab_wf [OF assms(1), of w below s] assms(3) by simp
  moreover note createWorkspaceTileLeaf_simps(1,2) [of w u]
  ultimately show ?thesis by blast
qed

theorem add_workspace_keeps_tiles_witness:
  "\<exists>tab'. tab' = fst (addWorkspaceToTab sample_tab ''w9'' (Some ''w2'') sample_ids) \<and> wf_tab tab' \<and>
     (\<exists>xs new ys. tab_leaves tab' = xs @ new # ys \<and> tl_workspaceId new = ''w9'' \<and>
        xs \<noteq> [] \<and> tl_workspaceId (last xs) = ''w2'')"
proof -
  have d: "distinct (tab_workspaces sample_tab)" and m: "''w2'' \<in> set (tab_workspaces sample_tab)"
    by (simp_all add: sample_tab_leaves)
  from add_workspace_keeps_tiles [OF sample_tab_wf d prod.collapse [symmetric], of "''w9''" "Some ''w2''"
      sample_ids] m
  show ?thesis by blast
qed

text \<open>Cycling by \<open>d\<close> and then by \<open>e\<close> is cycling by \<open>d + e\<close>, in either direction; a number of full
  turns comes back to the active tab; the tabs themselves do not change.\<close>

theorem cycling_wraps_around:
  assumes "window_strip_valid w"
  shows "wl_activeTabId (switchWindowTabRelative (switchWindowTabRelative w d) e)
      = wl_activeTabId (switchWindowTabRelative w (d + e)) \<and>
    wl_activeTabId (switchWindowTabRelative w (m * int (length (wl_tabs w)))) = wl_activeTabId w \<and>
    wl_tabs (switchWindowTabRelative w d) = wl_tabs w"
proof -
  have v: "window_strip.valid w" using assms by (simp add: window_strip_valid_def window_strip.valid_def)
  show ?thesis
    by (intro conjI window_strip.cycle_cycle [OF v] window_strip.cycle_turn [OF v]
        window_strip.cycle_tabs)
qed

theorem cycling_wraps_around_witness:
  "wl_activeTabId (switchWindowTabRelative (switchWindowTabRelative sample_window (- 1)) 1)
     = wl_activeTabId (switchWindowTabRelative sample_window 0)
   \<and> wl_activeTabId (switchWindowTabRelative sample_window (- 2)) = Some ''v1''"
proof -
  have "window_strip_valid sample_window"
    by (simp add: window_strip_valid_def strip_valid_def sample_window_def sample_tab_def
        sample_empty_tab_def)
  from cycling_wraps_around [OF this, of "- 1" 1 "- 1"] show ?thesis
    by (simp add: sample_window_tabs) (simp add: sample_window_def)
qed

text \<open>Assigning a terminal to a pane rewrites exactly that leaf, its terminal and its spawn intent; the
  other leaves, the ids and the well-formedness of the tree stay.\<close>

theorem assign_terminal_one_leaf:
  "panel_leaves (assignTerminal n p t cmd)
     = map (\<lambda>l. if leaf_id l = p then l\<lparr>leaf_terminalId := Some t, leaf_command := cmd\<rparr> else l)
         (panel_leaves n)
   \<and> panel_ids (assignTerminal n p t cmd) = panel_ids n
   \<and> (wf_panel n \<longrightarrow> wf_panel (assignTerminal n p t cmd))"
  using assignTerminal_leaves assignTerminal_ids assignTerminal_wf by blast

theorem assign_terminal_one_leaf_witness:
  "map leaf_terminalId (panel_leaves (assignTerminal sample_panel ''b'' ''t9'' None))
     = [Some ''t1'', Some ''t9'', Some ''t3'']
   \<and> wf_panel (assignTerminal sample_panel ''b'' ''t9'' None)"
proof -
  note A = assign_terminal_one_leaf [of sample_panel "''b''" "''t9''" None]
  have "map leaf_terminalId (panel_leaves (assignTerminal sample_panel ''b'' ''t9'' None))
      = [Some ''t1'', Some ''t9'', Some ''t3'']"
    unfolding conjunct1 [OF A] by (simp add: sample_panel_defs)
  with A sample_panel_wf show ?thesis by simp
qed

text \<open>Dragging a panel tab from position \<open>f\<close> to position \<open>g\<close> puts it there, loses and duplicates no
  tab, keeps the active tab, and dragging it back restores the order.\<close>

theorem reorder_moves_panel_tab:
  assumes "f < length (tl_panelTabs w)" and "g < length (tl_panelTabs w)"
  shows "tl_panelTabs (reorderPanelTabs w (int f) (int g)) ! g = tl_panelTabs w ! f \<and>
    mset (tl_panelTabs (reorderPanelTabs w (int f) (int g))) = mset (tl_panelTabs w) \<and>
    tl_activePanelTabId (reorderPanelTabs w (int f) (int g)) = tl_activePanelTabId w \<and>
    tl_panelTabs (reorderPanelTabs (reorderPanelTabs w (int f) (int g)) (int g) (int f))
      = tl_panelTabs w"
  by (intro conjI panel_strip.reorder_moves [OF assms] panel_strip.reorder_mset
      panel_strip.reorder_active panel_strip.reorder_back [OF assms])

theorem reorder_moves_panel_tab_witness:
  "\<exists>w. length (tl_panelTabs w) = 2 \<and>
     tl_panelTabs (reorderPanelTabs w 0 1) ! 1 = tl_panelTabs w ! 0 \<and>
     tl_panelTabs (reorderPanelTabs (reorderPanelTabs w 0 1) 1 0) = tl_panelTabs w"
proof -
  let ?w = "sample_tile ''k1'' ''w1''
      [sample_panel_tab ''p1'' sample_panel, sample_panel_tab ''p2'' sample_panel]"
  have l: "length (tl_panelTabs ?w) = 2" by (simp add: sample_tile_def)
  then have "0 < length (tl_panelTabs ?w)" "1 < length (tl_panelTabs ?w)" by simp_all
  from reorder_moves_panel_tab [OF this] l show ?thesis by (intro exI [of _ ?w]) simp
qed

text \<open>Every run of the panel tab commands of a workspace keeps the panel tab ids unique and the active
  id pointing at a tab; \<open>getActivePanelTab\<close> finds it as long as there is one.\<close>

theorem panel_tabs_stay_valid:
  assumes "panel_tab_step\<^sup>*\<^sup>* w w'" and "panel_strip_valid w"
  shows "distinct (map pt_id (tl_panelTabs w')) \<and>
    (tl_panelTabs w' = [] \<longleftrightarrow> tl_activePanelTabId w' = None) \<and>
    (tl_panelTabs w' \<noteq> [] \<longrightarrow> (\<exists>t\<in>set (tl_panelTabs w').
       getActivePanelTab w' = Some t \<and> tl_activePanelTabId w' = Some (pt_id t)))"
proof -
  have v: "strip_valid pt_id (tl_panelTabs w') (tl_activePanelTabId w')"
    using panel_tab_steps_valid [OF assms] by (simp add: panel_strip_valid_def)
  then have "distinct (map pt_id (tl_panelTabs w')) \<and>
      (tl_panelTabs w' = [] \<longleftrightarrow> tl_activePanelTabId w' = None)"
    by (auto simp: strip_valid_def split: option.splits)
  then show ?thesis using strip_valid_find [OF v] unfolding getActivePanelTab_def by blast
qed

theorem panel_tabs_stay_valid_witness:
  "\<exists>w. w = removePanelTab (sample_tile ''k1'' ''w1''
        [sample_panel_tab ''p1'' sample_panel, sample_panel_tab ''p2'' sample_panel]) ''p1'' \<and>
     tl_activePanelTabId w \<noteq> None"
proof -
  let ?t = "sample_tile ''k1'' ''w1''
      [sample_panel_tab ''p1'' sample_panel, sample_panel_tab ''p2'' sample_panel]"
  have "panel_tab_step\<^sup>*\<^sup>* ?t (removePanelTab ?t ''p1'')"
    by (rule r_into_rtranclp) (rule panel_tab_step.remove)
  moreover have "panel_strip_valid ?t"
    by (simp add: panel_strip_valid_def strip_valid_def sample_tile_def sample_panel_tab_def)
  ultimately have "tl_panelTabs (removePanelTab ?t ''p1'') = []
      \<longleftrightarrow> tl_activePanelTabId (removePanelTab ?t ''p1'') = None"
    using panel_tabs_stay_valid by blast
  then show ?thesis
    by (simp add: removePanelTab_tabs sample_tile_def sample_panel_tab_def)
qed

end
